(* ===== verification/Prelude.thy ===== *)
theory Prelude
  imports Main "HOL-Library.AList" "HOL-Library.Multiset"
begin

text \<open>
  Shared vocabulary of the development: the parts of the Go language and of its standard
  library that every component uses.

  \<^item> A Go \<open>string\<close> is a byte string; a HOL \<open>string\<close> is a list of 8-bit characters.
  \<^item> A Go \<open>map\<close> is an association list with distinct keys (\<open>gm_wf\<close>). The list order stands
    for the order in which a \<open>range\<close> loop happens to visit the entries, which Go leaves
    unspecified: statements quantify over the list, hence over every order.
  \<^item> \<open>time.Time\<close> is an integer number of nanoseconds since the zero time, so
    \<open>IsZero\<close>, \<open>Before\<close>, \<open>After\<close> and \<open>Add\<close> are \<open>= 0\<close>, \<open><\<close>, \<open>>\<close> and \<open>+\<close>;
    \<open>Sub\<close> saturates at the bounds of the 64-bit \<open>time.Duration\<close>.
\<close>

named_theorems go_map "facts about Go maps as association lists"
named_theorems go_str "facts about the string helpers"

section \<open>Time and durations\<close>

type_synonym time = int
type_synonym duration = int

abbreviation (input) zero_time :: time where "zero_time \<equiv> 0"

definition ns_second :: duration where "ns_second = 1000000000"
definition ns_minute :: duration where "ns_minute = 60 * ns_second"
definition ns_hour :: duration where "ns_hour = 60 * ns_minute"

lemmas ns_defs = ns_second_def ns_minute_def ns_hour_def

definition max_duration :: duration where "max_duration = 2 ^ 63 - 1"
definition min_duration :: duration where "min_duration = - (2 ^ 63)"

text \<open>\<open>Time.Sub\<close> saturates instead of wrapping.\<close>

definition time_sub :: "time \<Rightarrow> time \<Rightarrow> duration" where
  "time_sub t u = max min_duration (min max_duration (t - u))"

text \<open>\<open>Duration.Round(time.Second)\<close> for a non-negative duration: half away from zero.\<close>

definition round_second :: "duration \<Rightarrow> int" where
  "round_second d = (if 2 * (d mod ns_second) < ns_second then d div ns_second else d div ns_second + 1)"

lemma time_sub_lt_iff:
  assumes "min_duration < d" and "d \<le> max_duration"
  shows "time_sub t u < d \<longleftrightarrow> t - u < d"
  using assms by (auto simp: time_sub_def min_def max_def)

lemma time_sub_mono: "t \<le> t' \<Longrightarrow> time_sub t u \<le> time_sub t' u"
  by (auto simp: time_sub_def min_def max_def)

lemma time_sub_self [simp]: "time_sub t t = 0"
  by (simp add: time_sub_def min_duration_def max_duration_def)

lemma round_second_le:
  assumes "d \<le> n * ns_second"
  shows "round_second d \<le> n"
proof -
  define q r where "q = d div ns_second" and "r = d mod ns_second"
  have d: "d = ns_second * q + r" by (simp add: q_def r_def)
  have r: "0 \<le> r" by (simp add: r_def ns_second_def)
  have le: "ns_second * q + r \<le> ns_second * n" using assms d by (simp add: mult.commute)
  show ?thesis
  proof (cases "2 * r < ns_second")
    case True
    from le r have "q \<le> n" by (simp add: ns_second_def)
    with True show ?thesis by (simp add: round_second_def q_def r_def)
  next
    case False
    then have "0 < r" by (simp add: ns_second_def)
    with le have "q < n" by (simp add: ns_second_def)
    with False show ?thesis by (simp add: round_second_def q_def r_def)
  qed
qed

section \<open>Go maps\<close>

type_synonym ('k, 'v) gomap = "('k \<times> 'v) list"

abbreviation gm_get :: "('k, 'v) gomap \<Rightarrow> 'k \<Rightarrow> 'v option" where "gm_get \<equiv> map_of"
abbreviation gm_put :: "'k \<Rightarrow> 'v \<Rightarrow> ('k, 'v) gomap \<Rightarrow> ('k, 'v) gomap" where "gm_put \<equiv> AList.update"
abbreviation gm_del :: "'k \<Rightarrow> ('k, 'v) gomap \<Rightarrow> ('k, 'v) gomap" where "gm_del \<equiv> AList.delete"

definition gm_keys :: "('k, 'v) gomap \<Rightarrow> 'k set" where "gm_keys m = fst ` set m"

definition gm_wf :: "('k, 'v) gomap \<Rightarrow> bool" where
  "gm_wf m \<longleftrightarrow> distinct (map fst m)"

lemma gm_wf_Nil [simp, go_map]: "gm_wf []"
  by (simp add: gm_wf_def)

lemma gm_wf_put [simp, intro, go_map]: "gm_wf m \<Longrightarrow> gm_wf (gm_put k v m)"
  by (simp add: gm_wf_def distinct_update)

lemma gm_wf_del [simp, intro, go_map]: "gm_wf m \<Longrightarrow> gm_wf (gm_del k m)"
  by (simp add: gm_wf_def distinct_delete)

lemma gm_wf_filter [simp, intro, go_map]: "gm_wf m \<Longrightarrow> gm_wf (filter P m)"
  by (auto simp: gm_wf_def distinct_map_filter)

lemma gm_wf_map_snd [go_map]: "gm_wf (map (\<lambda>(k, v). (k, f k v)) m) \<longleftrightarrow> gm_wf m"
  by (simp add: gm_wf_def case_prod_unfold comp_def)

lemma gm_get_put [simp, go_map]: "gm_get (gm_put k v m) k' = (if k' = k then Some v else gm_get m k')"
  by (simp add: update_conv')

lemma gm_get_del [simp, go_map]: "gm_get (gm_del k m) k' = (if k' = k then None else gm_get m k')"
  by (simp add: delete_conv')

lemma gm_get_mem: "gm_get m k = Some v \<Longrightarrow> (k, v) \<in> set m"
  by (rule map_of_SomeD)

lemma gm_get_iff: "gm_wf m \<Longrightarrow> gm_get m k = Some v \<longleftrightarrow> (k, v) \<in> set m"
  by (simp add: gm_wf_def)

lemma gm_get_None: "gm_get m k = None \<longleftrightarrow> k \<notin> gm_keys m"
  unfolding gm_keys_def by (rule map_of_eq_None_iff)

lemma gm_keysI [intro, go_map]: "(k, v) \<in> set m \<Longrightarrow> k \<in> gm_keys m"
  by (force simp: gm_keys_def)

lemma gm_keysE [elim]: "k \<in> gm_keys m \<Longrightarrow> (\<And>v. (k, v) \<in> set m \<Longrightarrow> P) \<Longrightarrow> P"
  by (force simp: gm_keys_def)

lemma gm_get_Some_key: "gm_get m k = Some v \<Longrightarrow> k \<in> gm_keys m"
  by (auto dest: gm_get_mem)

lemma gm_keys_Nil [simp, go_map]: "gm_keys [] = {}"
  by (simp add: gm_keys_def)

lemma gm_keys_Cons [simp, go_map]: "gm_keys (p # m) = insert (fst p) (gm_keys m)"
  by (simp add: gm_keys_def)

lemma gm_wf_Cons [simp, go_map]: "gm_wf (p # m) \<longleftrightarrow> fst p \<notin> gm_keys m \<and> gm_wf m"
  by (simp add: gm_wf_def gm_keys_def)

lemma gm_keys_filter_subset [go_map]: "gm_keys (filter P m) \<subseteq> gm_keys m"
  by (auto simp: gm_keys_def)

lemma gm_get_filter_val [go_map]:
  assumes "gm_wf m"
  shows "gm_get (filter (\<lambda>(k, v). P k v) m) k =
    (case gm_get m k of None \<Rightarrow> None | Some v \<Rightarrow> if P k v then Some v else None)"
  using assms
proof (induction m)
  case (Cons p m)
  obtain k0 v0 where p: "p = (k0, v0)" by fastforce
  with Cons.prems have "k0 \<notin> gm_keys m" by simp
  moreover from this have "k0 \<notin> gm_keys (filter (\<lambda>(k, v). P k v) m)"
    by (metis gm_keys_filter_subset subsetD)
  ultimately have "gm_get m k0 = None" "gm_get (filter (\<lambda>(k, v). P k v) m) k0 = None"
    by (simp_all add: gm_get_None)
  with Cons p show ?case by (cases "k = k0") simp_all
qed simp

lemma gm_get_filter_keys: "gm_get (filter (\<lambda>(k, _). P k) m) k = (if P k then gm_get m k else None)"
  by (induction m) auto

lemma gm_len_put [simp, go_map]:
  "length (gm_put k v m) = (if k \<in> gm_keys m then length m else Suc (length m))"
  by (induction m) auto

lemma gm_len_del_le [simp, go_map]: "length (gm_del k m) \<le> length m"
  by (simp add: AList.delete_eq)

lemma gm_len_del [go_map]:
  "gm_wf m \<Longrightarrow> k \<in> gm_keys m \<Longrightarrow> Suc (length (gm_del k m)) = length m"
  by (induction m) (auto simp: gm_keys_def)

lemma gm_keys_put [simp, go_map]: "gm_keys (gm_put k v m) = insert k (gm_keys m)"
  by (induction m) auto

lemma gm_keys_del [simp, go_map]: "gm_keys (gm_del k m) = gm_keys m - {k}"
  by (induction m) auto

lemma set_gm_del [go_map]: "set (gm_del k m) \<subseteq> set m"
  by (auto simp: AList.delete_eq)

lemma set_gm_put [go_map]: "set (gm_put k v m) \<subseteq> insert (k, v) (set m)"
  by (induction m) auto

lemma gm_get_shuffle: "gm_wf m \<Longrightarrow> mset m = mset m' \<Longrightarrow> gm_get m = gm_get m'"
  by (metis gm_wf_def map_of_inject_set mset_eq_imp_distinct_iff mset_map set_mset_mset)

lemma gm_wf_shuffle: "mset m = mset m' \<Longrightarrow> gm_wf m \<longleftrightarrow> gm_wf m'"
  by (metis gm_wf_def mset_eq_imp_distinct_iff mset_map)

section \<open>Strings\<close>

definition byte_of :: "char \<Rightarrow> nat" where "byte_of c = of_char c"

definition hasPrefix :: "string \<Rightarrow> string \<Rightarrow> bool" where
  "hasPrefix s p \<longleftrightarrow> take (length p) s = p"

definition hasSuffix :: "string \<Rightarrow> string \<Rightarrow> bool" where
  "hasSuffix s p \<longleftrightarrow> hasPrefix (rev s) (rev p)"

lemma hasPrefix_append [simp, go_str]: "hasPrefix (p @ s) p"
  by (simp add: hasPrefix_def)

lemma hasPrefix_iff [go_str]: "hasPrefix s p \<longleftrightarrow> (\<exists>t. s = p @ t)"
  by (metis append_eq_conv_conj append_take_drop_id hasPrefix_def)

lemma hasSuffix_iff [go_str]: "hasSuffix s p \<longleftrightarrow> (\<exists>t. s = t @ p)"
  by (metis hasPrefix_iff hasSuffix_def rev_append rev_rev_ident)

text \<open>\<open>strings.Split(s, sep)\<close> for a one-byte separator: never empty.\<close>

fun splitOn :: "char \<Rightarrow> string \<Rightarrow> string list" where
  "splitOn sep [] = [[]]"
| "splitOn sep (c # cs) =
     (if c = sep then [] # splitOn sep cs
      else case splitOn sep cs of [] \<Rightarrow> [[c]] | f # fs \<Rightarrow> (c # f) # fs)"

lemma splitOn_not_Nil [simp, go_str]: "splitOn sep s \<noteq> []"
  by (cases s) (auto split: list.splits)

lemma splitOn_append [go_str]: "splitOn sep (s @ sep # t) = splitOn sep s @ splitOn sep t"
  by (induction s) (auto split: list.splits)

text \<open>
  \<open>strings.TrimSpace\<close> removes leading and trailing Unicode white space. In UTF-8 these are
  the six ASCII bytes and the encodings of the remaining \<open>White_Space\<close> code points.
\<close>

definition space_encodings :: "string list" where
  "space_encodings =
    [[CHR 0x09], [CHR 0x0A], [CHR 0x0B], [CHR 0x0C], [CHR 0x0D], [CHR 0x20], [CHR 0xC2,
     CHR 0x85], [CHR 0xC2, CHR 0xA0], [CHR 0xE1, CHR 0x9A, CHR 0x80], [CHR 0xE2, CHR
     0x80, CHR 0x80], [CHR 0xE2, CHR 0x80, CHR 0x81], [CHR 0xE2, CHR 0x80, CHR 0x82],
     [CHR 0xE2, CHR 0x80, CHR 0x83], [CHR 0xE2, CHR 0x80, CHR 0x84], [CHR 0xE2, CHR
     0x80, CHR 0x85], [CHR 0xE2, CHR 0x80, CHR 0x86], [CHR 0xE2, CHR 0x80, CHR 0x87],
     [CHR 0xE2, CHR 0x80, CHR 0x88], [CHR 0xE2, CHR 0x80, CHR 0x89], [CHR 0xE2, CHR
     0x80, CHR 0x8A], [CHR 0xE2, CHR 0x80, CHR 0xA8], [CHR 0xE2, CHR 0x80, CHR 0xA9],
     [CHR 0xE2, CHR 0x80, CHR 0xAF], [CHR 0xE2, CHR 0x81, CHR 0x9F], [CHR 0xE3, CHR
     0x80, CHR 0x80]]"

definition strip_enc :: "string list \<Rightarrow> string \<Rightarrow> string option" where
  "strip_enc encs s = map_option (\<lambda>e. drop (length e) s) (find (\<lambda>e. hasPrefix s e) encs)"

lemma strip_enc_shorter:
  assumes "strip_enc encs s = Some t" and "[] \<notin> set encs"
  shows "length t < length s"
proof -
  from assms obtain e where e: "e \<in> set encs" "hasPrefix s e" "t = drop (length e) s"
    by (auto simp: strip_enc_def find_Some_iff intro: nth_mem)
  with assms(2) have "e \<noteq> []" by auto
  with e show ?thesis by (auto simp: hasPrefix_iff)
qed

lemma space_encodings_not_Nil: "[] \<notin> set space_encodings" "[] \<notin> set (map rev space_encodings)"
  by (auto simp: space_encodings_def)

function trimLeft :: "string \<Rightarrow> string" where
  "trimLeft s = (case strip_enc space_encodings s of None \<Rightarrow> s | Some t \<Rightarrow> trimLeft t)"
  by pat_completeness auto
termination
  by (relation "measure length") (auto dest: strip_enc_shorter [OF _ space_encodings_not_Nil(1)])

function trimRight_rev :: "string \<Rightarrow> string" where
  "trimRight_rev s = (case strip_enc (map rev space_encodings) s of None \<Rightarrow> s | Some t \<Rightarrow> trimRight_rev t)"
  by pat_completeness auto
termination
  by (relation "measure length") (auto dest: strip_enc_shorter [OF _ space_encodings_not_Nil(2)])

declare trimLeft.simps [simp del] trimRight_rev.simps [simp del]

definition trimSpace :: "string \<Rightarrow> string" where
  "trimSpace s = rev (trimRight_rev (rev (trimLeft s)))"

text \<open>Trimming twice is trimming once: what the right end loses starts no space on the left.\<close>

lemma trimLeft_stops: "strip_enc space_encodings (trimLeft s) = None"
  by (induction s rule: trimLeft.induct) (subst trimLeft.simps, auto split: option.splits)

lemma trimRight_rev_stops: "strip_enc (map rev space_encodings) (trimRight_rev s) = None"
  by (induction s rule: trimRight_rev.induct) (subst trimRight_rev.simps, auto split: option.splits)

lemma trimRight_rev_drop: "\<exists>n. trimRight_rev s = drop n s"
proof (induction s rule: trimRight_rev.induct)
  case (1 s)
  show ?case
  proof (cases "strip_enc (map rev space_encodings) s")
    case None
    then show ?thesis by (subst trimRight_rev.simps) (auto intro: exI [of _ 0])
  next
    case (Some t)
    then obtain m where "t = drop m s" by (auto simp: strip_enc_def)
    with 1 [OF Some] show ?thesis by (subst trimRight_rev.simps) (auto simp: Some)
  qed
qed

lemma strip_enc_take: "strip_enc encs s = None \<Longrightarrow> strip_enc encs (take n s) = None"
  by (auto simp: strip_enc_def find_None_iff hasPrefix_iff) (metis append.assoc append_take_drop_id)

lemma trimSpace_idem [simp, go_str]: "trimSpace (trimSpace s) = trimSpace s"
proof -
  obtain n where "trimRight_rev (rev (trimLeft s)) = drop n (rev (trimLeft s))" using trimRight_rev_drop by blast
  then have "trimSpace s = take (length (trimLeft s) - n) (trimLeft s)" by (simp add: trimSpace_def rev_drop)
  then have "strip_enc space_encodings (trimSpace s) = None" by (simp add: strip_enc_take trimLeft_stops)
  then have left: "trimLeft (trimSpace s) = trimSpace s" by (subst trimLeft.simps) simp
  have "trimRight_rev (rev (trimSpace s)) = rev (trimSpace s)"
    by (subst trimRight_rev.simps) (simp add: trimSpace_def trimRight_rev_stops)
  with left show ?thesis by (simp add: trimSpace_def)
qed

text \<open>\<open>strings.Trim(s, cutset)\<close> for an ASCII cutset.\<close>

definition trimChars :: "char list \<Rightarrow> string \<Rightarrow> string" where
  "trimChars cs s = rev (dropWhile (\<lambda>c. c \<in> set cs) (rev (dropWhile (\<lambda>c. c \<in> set cs) s)))"

text \<open>\<open>strings.Index\<close> family for one byte.\<close>

fun indexByte :: "string \<Rightarrow> char \<Rightarrow> nat option" where
  "indexByte [] c = None"
| "indexByte (d # ds) c = (if d = c then Some 0 else map_option Suc (indexByte ds c))"

definition lastIndexByte :: "string \<Rightarrow> char \<Rightarrow> nat option" where
  "lastIndexByte s c = map_option (\<lambda>i. length s - 1 - i) (indexByte (rev s) c)"

lemma indexByte_None [simp, go_str]: "indexByte s c = None \<longleftrightarrow> c \<notin> set s"
  by (induction s) auto

lemma indexByte_Some [go_str]:
  "indexByte s c = Some i \<Longrightarrow> i < length s \<and> s ! i = c \<and> c \<notin> set (take i s)"
  by (induction s arbitrary: i) (auto split: if_splits)

lemma lastIndexByte_None [simp, go_str]: "lastIndexByte s c = None \<longleftrightarrow> c \<notin> set s"
  by (simp add: lastIndexByte_def)

text \<open>\<open>strconv.Itoa\<close>: the decimal numeral of an integer.\<close>

fun nat_digits :: "nat \<Rightarrow> string" where
  "nat_digits n = (if n < 10 then [char_of (48 + n)] else nat_digits (n div 10) @ [char_of (48 + n mod 10)])"

declare nat_digits.simps [simp del]

definition itoa :: "int \<Rightarrow> string" where
  "itoa i = (if i < 0 then ''-'' @ nat_digits (nat (- i)) else nat_digits (nat i))"

definition digits_value :: "string \<Rightarrow> nat" where
  "digits_value s = foldl (\<lambda>n c. 10 * n + (byte_of c - 48)) 0 s"

lemma byte_of_lt [simp, go_str]: "byte_of c < 256"
  using of_char_of [of "of_char c :: nat"] by (simp add: byte_of_def)

text \<open>The hexadecimal digit of a number below sixteen.\<close>

definition hex_digit :: "nat \<Rightarrow> char" where
  "hex_digit n = ''0123456789abcdef'' ! n"

lemma byte_of_char_of [simp, go_str]: "n < 256 \<Longrightarrow> byte_of (char_of n) = n"
  by (simp add: byte_of_def)

lemma digits_value_nat_digits [go_str]: "digits_value (nat_digits n) = n"
proof (induction n rule: nat_digits.induct)
  case (1 n)
  show ?case
  proof (cases "n < 10")
    case True
    then show ?thesis by (simp add: nat_digits.simps [of n] digits_value_def)
  next
    case False
    with 1 show ?thesis by (simp add: nat_digits.simps [of n] digits_value_def)
  qed
qed

lemma nat_digits_digit [go_str]: "c \<in> set (nat_digits n) \<Longrightarrow> 48 \<le> byte_of c \<and> byte_of c \<le> 57"
proof (induction n rule: nat_digits.induct)
  case (1 n)
  then show ?case
    by (cases "n < 10") (auto simp: nat_digits.simps [of n])
qed

lemma itoa_inj [go_str]: "itoa i = itoa j \<Longrightarrow> i = j"
proof -
  have neg: "nat_digits n \<noteq> CHR ''-'' # s" for n s
    using nat_digits_digit [of "CHR ''-''" n] by (auto simp: byte_of_def)
  have inj: "nat_digits m = nat_digits n \<Longrightarrow> m = n" for m n
    by (metis digits_value_nat_digits)
  show "itoa i = itoa j \<Longrightarrow> i = j"
    using neg [of "nat i"] neg [of "nat j", symmetric]
    by (auto simp: itoa_def split: if_splits dest!: inj)
qed

end
