(* ===== verification/BoundedMap.thy ===== *)
theory BoundedMap
  imports Prelude
begin

text \<open>
  Maps of bounded size that drop their oldest entry. Three components keep one: the login rate
  limiter (\<open>internal/auth/ratelimit.go\<close>), the cooldown and the de-duplication caches of the
  automation engine (\<open>internal/automation/cooldown.go\<close>, \<open>dedupe.go\<close>). Each has its own
  \<open>evictOldestLocked\<close> loop; they share the scan, which is defined here once, and the contract,
  which is the locale \<open>evicting_map\<close>.
\<close>

text \<open>
  The loop \<open>for k, e := range m { if first || e.ts.Before(oldest) ... }\<close>: the best entry so far
  and the entries still to visit.
\<close>

fun scan_oldest :: "('v \<Rightarrow> time) \<Rightarrow> ('k \<times> time) option \<Rightarrow> ('k, 'v) gomap \<Rightarrow> ('k \<times> time) option" where
  "scan_oldest ts best [] = best"
| "scan_oldest ts best ((k, v) # m) =
     scan_oldest ts
       (case best of
          None \<Rightarrow> Some (k, ts v)
        | Some (k0, t0) \<Rightarrow> if ts v < t0 then Some (k, ts v) else best) m"

lemma scan_oldest_Some:
  "\<exists>k t. scan_oldest ts (Some (k0, t0)) m = Some (k, t) \<and> t \<le> t0 \<and>
     (\<forall>p \<in> set m. t \<le> ts (snd p)) \<and> ((k, t) = (k0, t0) \<or> (\<exists>v. (k, v) \<in> set m \<and> t = ts v))"
proof (induction m arbitrary: k0 t0)
  case (Cons p m)
  obtain k1 v1 where p: "p = (k1, v1)" by fastforce
  let ?b = "if ts v1 < t0 then (k1, ts v1) else (k0, t0)"
  obtain k t where kt: "scan_oldest ts (Some ?b) m = Some (k, t)" "t \<le> snd ?b"
      "\<forall>p \<in> set m. t \<le> ts (snd p)" "(k, t) = ?b \<or> (\<exists>v. (k, v) \<in> set m \<and> t = ts v)"
    using Cons.IH [of "fst ?b" "snd ?b"] by auto
  then show ?case by (intro exI [of _ k] exI [of _ t]) (auto simp: p split: if_splits)
qed simp

lemma scan_oldest_nonempty:
  assumes "m \<noteq> []"
  obtains k v where "scan_oldest ts None m = Some (k, ts v)" "(k, v) \<in> set m"
    "\<forall>p \<in> set m. ts v \<le> ts (snd p)"
proof -
  from assms obtain k1 v1 m' where m: "m = (k1, v1) # m'" by (cases m) auto
  from scan_oldest_Some [of ts k1 "ts v1" m'] obtain k t where kt:
      "scan_oldest ts None m = Some (k, t)" "t \<le> ts v1" "\<forall>p \<in> set m'. t \<le> ts (snd p)"
      "(k, t) = (k1, ts v1) \<or> (\<exists>v. (k, v) \<in> set m' \<and> t = ts v)"
    by (auto simp: m)
  then obtain v where "(k, v) \<in> set m" "t = ts v" by (auto simp: m)
  with kt show thesis by (intro that [of k v]) (auto simp: m)
qed

locale evicting_map =
  fixes ts :: "'v \<Rightarrow> time"
    and evict :: "('k, 'v) gomap \<Rightarrow> ('k, 'v) gomap"
    and ok_key :: "'k \<Rightarrow> bool"
  assumes evict_law:
    "gm_wf m \<Longrightarrow> m \<noteq> [] \<Longrightarrow> (\<And>k. k \<in> gm_keys m \<Longrightarrow> ok_key k) \<Longrightarrow>
       \<exists>k v. (k, v) \<in> set m \<and> evict m = gm_del k m \<and> (\<forall>p \<in> set m. ts v \<le> ts (snd p))"
    and evict_empty: "evict [] = []"
begin

lemma evict_deletes:
  assumes "gm_wf m" "\<And>k. k \<in> gm_keys m \<Longrightarrow> ok_key k"
  shows "\<exists>k. evict m = gm_del k m"
proof (cases "m = []")
  case True
  then show ?thesis by (simp add: evict_empty)
next
  case False
  from evict_law [OF assms(1) this assms(2)] show ?thesis by blast
qed

lemma evict_wf:
  assumes "gm_wf m" "\<And>k. k \<in> gm_keys m \<Longrightarrow> ok_key k"
  shows "gm_wf (evict m)"
  using evict_deletes [OF assms] assms(1) by auto

lemma evict_keys:
  assumes "gm_wf m" "\<And>k. k \<in> gm_keys m \<Longrightarrow> ok_key k"
  shows "gm_keys (evict m) \<subseteq> gm_keys m"
proof -
  from evict_deletes [OF assms] obtain k0 where "evict m = gm_del k0 m" ..
  then have "gm_keys (evict m) = gm_keys m - {k0}" by (simp only: gm_keys_del)
  then show ?thesis by blast
qed

lemma evict_length:
  assumes "gm_wf m" "m \<noteq> []" "\<And>k. k \<in> gm_keys m \<Longrightarrow> ok_key k"
  shows "Suc (length (evict m)) = length m"
proof -
  from evict_law [OF assms] obtain k v where "(k, v) \<in> set m" "evict m = gm_del k m" by blast
  with assms(1) show ?thesis using gm_len_del [of m k] by (force simp: image_iff)
qed

text \<open>What remains is unchanged, and an entry with an older rival survives.\<close>

lemma evict_get:
  assumes "gm_wf m" "\<And>k. k \<in> gm_keys m \<Longrightarrow> ok_key k"
  shows "gm_get (evict m) k = gm_get m k \<or> gm_get (evict m) k = None"
proof -
  from evict_deletes [OF assms] obtain k0 where "evict m = gm_del k0 m" ..
  then show ?thesis by (cases "k = k0") simp_all
qed

lemma evict_survives:
  assumes "gm_wf m" "\<And>k. k \<in> gm_keys m \<Longrightarrow> ok_key k"
    and "gm_get m k = Some v" and "gm_get m k' = Some v'" and "ts v' < ts v"
  shows "gm_get (evict m) k = Some v"
proof -
  have "m \<noteq> []" using assms(3) by auto
  from evict_law [OF assms(1) this assms(2)] obtain k0 v0 where e: "(k0, v0) \<in> set m"
    "evict m = gm_del k0 m" "\<forall>p \<in> set m. ts v0 \<le> ts (snd p)" by blast
  have "k0 \<noteq> k"
  proof
    assume "k0 = k"
    with e(1) assms(1,3) have "v0 = v" by (simp add: gm_get_iff [symmetric])
    with e(3) gm_get_mem [OF assms(4)] assms(5) show False by fastforce
  qed
  with e(2) assms(3) show ?thesis by simp
qed

text \<open>The two disciplines that keep the size under a cap.\<close>

lemma put_then_evict_length:
  assumes "gm_wf m" "\<And>k. k \<in> gm_keys m \<Longrightarrow> ok_key k" "ok_key k" "length m \<le> n"
  shows "length (if length (gm_put k v m) > n then evict (gm_put k v m) else gm_put k v m) \<le> n"
proof (cases "length (gm_put k v m) > n")
  case True
  have "Suc (length (evict (gm_put k v m))) = length (gm_put k v m)"
    by (rule evict_length) (use assms True in auto)
  moreover have "length (gm_put k v m) \<le> Suc (length m)" by simp
  ultimately show ?thesis using True assms(4) by simp
qed simp

lemma evict_then_put_length:
  assumes "gm_wf m" "\<And>k. k \<in> gm_keys m \<Longrightarrow> ok_key k" "0 < n" "length m \<le> n"
  shows "length (gm_put k v (if length m \<ge> n then evict m else m)) \<le> n"
proof (cases "length m \<ge> n")
  case True
  with assms(3) have "m \<noteq> []" by auto
  from evict_length [OF assms(1) this assms(2)] True assms(4) show ?thesis by simp
qed simp

end

end
