(* ===== verification/RateLimiter.thy ===== *)
theory RateLimiter
  imports BoundedMap "HOL-Library.Char_ord" "HOL-Library.List_Lexorder"
begin

text \<open>
  The login rate limiter, \<open>internal/auth/ratelimit.go\<close>: failures are counted per client address
  in two sliding windows, and reaching a threshold blocks the address. The clock value of a
  call is its first argument; a Go map is a list (theory \<open>Prelude\<close>).
\<close>

section \<open>State\<close>

definition Tier1Threshold :: nat where "Tier1Threshold = 5"
definition Tier1Window :: duration where "Tier1Window = 5 * ns_minute"
definition Tier1Block :: duration where "Tier1Block = 15 * ns_minute"
definition Tier2Threshold :: nat where "Tier2Threshold = 10"
definition Tier2Window :: duration where "Tier2Window = ns_hour"
definition Tier2Block :: duration where "Tier2Block = ns_hour"
definition InactiveAfter :: duration where "InactiveAfter = 2 * ns_hour"
definition maxLimiterEntries :: int where "maxLimiterEntries = 50000"

lemmas tier_defs = Tier1Threshold_def Tier1Window_def Tier1Block_def
  Tier2Threshold_def Tier2Window_def Tier2Block_def InactiveAfter_def maxLimiterEntries_def ns_defs

record failureRecord =
  fr_ts :: time
  fr_user :: string

record counter =
  failures :: "failureRecord list"
  blockedUntil :: time
  blockDuration :: duration
  lastSeen :: time

record RateLimiter =
  rl_state :: "(string, counter) gomap"
  maxEntries :: int

record BlockedIP =
  bi_ip :: string
  bi_blockedUntil :: time
  bi_failureCount :: nat

record throttle_event =
  te_ts :: time
  te_tier :: nat
  te_srcIP :: string
  te_username :: string
  te_blockedUntil :: time
  te_blockSeconds :: int

definition new_counter :: counter where
  "new_counter = \<lparr>failures = [], blockedUntil = zero_time, blockDuration = 0, lastSeen = zero_time\<rparr>"

definition NewRateLimiter :: RateLimiter where
  "NewRateLimiter = \<lparr>rl_state = [], maxEntries = maxLimiterEntries\<rparr>"

section \<open>Operations\<close>

definition block_active :: "time \<Rightarrow> counter \<Rightarrow> bool" where
  "block_active now c \<longleftrightarrow> \<not> (blockedUntil c = zero_time \<or> \<not> now < blockedUntil c)"

definition Allow :: "time \<Rightarrow> string \<Rightarrow> RateLimiter \<Rightarrow> bool \<times> duration \<times> duration" where
  "Allow now ip rl =
     (if ip = [] then (True, 0, 0)
      else case gm_get (rl_state rl) ip of
             None \<Rightarrow> (True, 0, 0)
           | Some c \<Rightarrow>
               if \<not> block_active now c then (True, 0, 0)
               else (False, time_sub (blockedUntil c) now, blockDuration c))"

definition evictOldestLocked :: "(string, counter) gomap \<Rightarrow> (string, counter) gomap" where
  "evictOldestLocked m =
     (case scan_oldest lastSeen None m of
        None \<Rightarrow> m
      | Some (oldestIP, _) \<Rightarrow> if oldestIP \<noteq> [] then gm_del oldestIP m else m)"

text \<open>The tier the two counts trigger (0 for none) and the duration of its block.\<close>

definition triggered_tier :: "nat \<Rightarrow> nat \<Rightarrow> nat" where
  "triggered_tier tier1Count tier2Count =
     (if tier2Count \<ge> Tier2Threshold then 2 else if tier1Count \<ge> Tier1Threshold then 1 else 0)"

definition tier_block :: "nat \<Rightarrow> duration" where
  "tier_block t = (if t = 2 then Tier2Block else if t = 1 then Tier1Block else 0)"

definition count_since :: "time \<Rightarrow> failureRecord list \<Rightarrow> nat" where
  "count_since cutoff frs = length (filter (\<lambda>fr. cutoff < fr_ts fr) frs)"

text \<open>The update of one address's counter inside \<open>Hit\<close>: prune, append, count, extend the block.\<close>

definition hit_failures :: "time \<Rightarrow> string \<Rightarrow> counter \<Rightarrow> failureRecord list" where
  "hit_failures now user c =
     filter (\<lambda>fr. now - Tier2Window < fr_ts fr) (failures c) @ [\<lparr>fr_ts = now, fr_user = user\<rparr>]"

definition hit_tier :: "time \<Rightarrow> string \<Rightarrow> counter \<Rightarrow> nat" where
  "hit_tier now user c =
     triggered_tier (count_since (now - Tier1Window) (hit_failures now user c))
       (length (hit_failures now user c))"

definition hit_counter :: "time \<Rightarrow> string \<Rightarrow> counter \<Rightarrow> counter" where
  "hit_counter now user c =
     (let newBlock = tier_block (hit_tier now user c);
          candidate = now + newBlock;
          extend = newBlock > 0 \<and> candidate > blockedUntil c
      in c\<lparr>failures := hit_failures now user c, lastSeen := now,
           blockedUntil := (if extend then candidate else blockedUntil c),
           blockDuration := (if extend then newBlock else blockDuration c)\<rparr>)"

text \<open>
  \<open>Hit\<close>: the new state and the throttle event sent to the sink when a tier triggers. The
  Tier 2 log line carries the same values and is not modelled.
\<close>

definition Hit :: "time \<Rightarrow> string \<Rightarrow> string \<Rightarrow> RateLimiter \<Rightarrow> RateLimiter \<times> throttle_event option" where
  "Hit now ip user rl =
     (if ip = [] then (rl, None)
      else
        let st = rl_state rl;
            st' = (case gm_get st ip of
                     Some _ \<Rightarrow> st
                   | None \<Rightarrow>
                       if maxEntries rl > 0 \<and> int (length st) \<ge> maxEntries rl
                       then evictOldestLocked st else st);
            c = (case gm_get st ip of Some c \<Rightarrow> c | None \<Rightarrow> new_counter);
            c' = hit_counter now user c;
            tier = hit_tier now user c
        in (rl\<lparr>rl_state := gm_put ip c' st'\<rparr>,
            if tier_block tier > 0
            then Some \<lparr>te_ts = now, te_tier = tier, te_srcIP = ip, te_username = user,
                       te_blockedUntil = blockedUntil c',
                       te_blockSeconds = round_second (blockDuration c')\<rparr>
            else None))"

definition Reset :: "string \<Rightarrow> RateLimiter \<Rightarrow> RateLimiter" where
  "Reset ip rl = (if ip = [] then rl else rl\<lparr>rl_state := gm_del ip (rl_state rl)\<rparr>)"

definition ResetForUser :: "time \<Rightarrow> string \<Rightarrow> string \<Rightarrow> RateLimiter \<Rightarrow> RateLimiter" where
  "ResetForUser now ip username rl =
     (if ip = [] then rl
      else case gm_get (rl_state rl) ip of
             None \<Rightarrow> rl
           | Some c \<Rightarrow>
               let keep = filter (\<lambda>fr. fr_user fr \<noteq> username) (failures c) in
               if keep = [] \<and> blockedUntil c = zero_time
               then rl\<lparr>rl_state := gm_del ip (rl_state rl)\<rparr>
               else rl\<lparr>rl_state := gm_put ip (c\<lparr>failures := keep, lastSeen := now\<rparr>) (rl_state rl)\<rparr>)"

definition GetBlockedIPs :: "time \<Rightarrow> RateLimiter \<Rightarrow> BlockedIP list" where
  "GetBlockedIPs now rl =
     sort_key bi_ip
       (map (\<lambda>(ip, c). \<lparr>bi_ip = ip, bi_blockedUntil = blockedUntil c, bi_failureCount = length (failures c)\<rparr>)
         (filter (\<lambda>(ip, c). block_active now c) (rl_state rl)))"

definition sweep :: "time \<Rightarrow> RateLimiter \<Rightarrow> RateLimiter" where
  "sweep now rl =
     rl\<lparr>rl_state := filter (\<lambda>(ip, c). \<not> (\<not> block_active now c \<and> lastSeen c < now - InactiveAfter)) (rl_state rl)\<rparr>"

section \<open>The HTTP middleware\<close>

text \<open>
  A request context carries the client address and possibly an attempted username. A Go context
  is immutable: the handler may build an enriched context for its own use, but the context the
  middleware holds is the one it was called with. The handler is therefore a function of the
  context that returns the response status, whether it marked the session locked, and the
  limiter it leaves (a successful login calls \<open>ResetForUser\<close> on the shared limiter).
\<close>

record req_ctx =
  ctx_clientIP :: string
  ctx_attemptedUsername :: string

record handler_result =
  hr_status :: nat
  hr_locked :: bool
  hr_limiter :: RateLimiter

datatype response = RateLimited int string | Served nat

definition writeRateLimited :: "duration \<Rightarrow> duration \<Rightarrow> response" where
  "writeRateLimited retryAfter blockDur =
     (let secs = round_second retryAfter; secs' = (if secs < 1 then 1 else secs) in
      RateLimited secs'
        (if blockDur = Tier1Block then ''too many attempts, retry after 15 minutes''
         else if blockDur = Tier2Block then ''too many attempts, retry after 1 hour''
         else ''too many attempts, retry after '' @ itoa secs' @ '' seconds''))"

definition counts_as_failure :: "handler_result \<Rightarrow> bool" where
  "counts_as_failure h \<longleftrightarrow> (hr_status h = 401 \<or> hr_status h = 403) \<and> \<not> hr_locked h"

text \<open>One request: admitted at \<open>now\<close>, the handler answers at \<open>later\<close>.\<close>

definition Middleware ::
    "time \<Rightarrow> time \<Rightarrow> req_ctx \<Rightarrow> (req_ctx \<Rightarrow> RateLimiter \<Rightarrow> handler_result) \<Rightarrow> RateLimiter
      \<Rightarrow> response \<times> RateLimiter" where
  "Middleware now later ctx next rl =
     (let ip = ctx_clientIP ctx in
      case Allow now ip rl of
        (False, retryAfter, blockDur) \<Rightarrow> (writeRateLimited retryAfter blockDur, rl)
      | (True, _, _) \<Rightarrow>
          let h = next ctx rl in
          if counts_as_failure h
          then (Served (hr_status h), fst (Hit later ip (ctx_attemptedUsername ctx) (hr_limiter h)))
          else (Served (hr_status h), hr_limiter h))"

section \<open>Invariant\<close>

text \<open>
  The state is a map, no key is the empty address, the cap holds, and the recorded block
  duration is the one of a tier whenever a block is recorded.
\<close>

definition counter_ok :: "counter \<Rightarrow> bool" where
  "counter_ok c \<longleftrightarrow> blockedUntil c = zero_time \<or> blockDuration c \<in> {Tier1Block, Tier2Block}"

definition rl_inv :: "RateLimiter \<Rightarrow> bool" where
  "rl_inv rl \<longleftrightarrow>
     gm_wf (rl_state rl) \<and> [] \<notin> gm_keys (rl_state rl) \<and>
     (maxEntries rl > 0 \<longrightarrow> int (length (rl_state rl)) \<le> maxEntries rl) \<and>
     (\<forall>(ip, c) \<in> set (rl_state rl). counter_ok c)"

interpretation rl_evict: evicting_map lastSeen evictOldestLocked "\<lambda>ip. ip \<noteq> []"
proof
  fix m :: "(string, counter) gomap"
  assume m: "gm_wf m" "m \<noteq> []" "\<And>k. k \<in> gm_keys m \<Longrightarrow> k \<noteq> []"
  from scan_oldest_nonempty [OF m(2)] obtain k v where kv:
    "scan_oldest lastSeen None m = Some (k, lastSeen v)" "(k, v) \<in> set m"
    "\<forall>p \<in> set m. lastSeen v \<le> lastSeen (snd p)" by metis
  with m(3) [of k] have "k \<noteq> []" by force
  with kv show "\<exists>k v. (k, v) \<in> set m \<and> evictOldestLocked m = gm_del k m \<and>
      (\<forall>p \<in> set m. lastSeen v \<le> lastSeen (snd p))"
    by (intro exI [of _ k] exI [of _ v]) (simp add: evictOldestLocked_def)
qed (simp add: evictOldestLocked_def)


section \<open>Lemmas on the operations\<close>

definition fails :: "string \<Rightarrow> RateLimiter \<Rightarrow> failureRecord list" where
  "fails ip rl = (case gm_get (rl_state rl) ip of None \<Rightarrow> [] | Some c \<Rightarrow> failures c)"

definition counter_at :: "string \<Rightarrow> RateLimiter \<Rightarrow> counter" where
  "counter_at ip rl = (case gm_get (rl_state rl) ip of None \<Rightarrow> new_counter | Some c \<Rightarrow> c)"

lemma fails_counter_at: "fails ip rl = failures (counter_at ip rl)"
  by (simp add: fails_def counter_at_def new_counter_def split: option.split)

lemma Allow_counter_at:
  "ip \<noteq> [] \<Longrightarrow> Allow now ip rl =
     (if block_active now (counter_at ip rl)
      then (False, time_sub (blockedUntil (counter_at ip rl)) now, blockDuration (counter_at ip rl))
      else (True, 0, 0))"
  by (simp add: Allow_def counter_at_def block_active_def new_counter_def split: option.split)

lemma Allow_cong_counter: "counter_at ip rl = counter_at ip rl' \<Longrightarrow> Allow now ip rl = Allow now ip rl'"
  by (cases "ip = []") (simp_all add: Allow_def [of now "[]"] Allow_counter_at)

definition room :: "string \<Rightarrow> RateLimiter \<Rightarrow> (string, counter) gomap" where
  "room ip rl =
     (case gm_get (rl_state rl) ip of
        Some _ \<Rightarrow> rl_state rl
      | None \<Rightarrow> if maxEntries rl > 0 \<and> int (length (rl_state rl)) \<ge> maxEntries rl
                then evictOldestLocked (rl_state rl) else rl_state rl)"

lemma Hit_state:
  "ip \<noteq> [] \<Longrightarrow>
     fst (Hit now ip user rl) = rl\<lparr>rl_state := gm_put ip (hit_counter now user (counter_at ip rl)) (room ip rl)\<rparr>"
  by (simp add: Hit_def Let_def room_def counter_at_def)

lemma Hit_empty_ip [simp]: "Hit now [] user rl = (rl, None)"
  by (simp add: Hit_def)

lemma counter_at_Hit_same [simp]:
  "ip \<noteq> [] \<Longrightarrow> counter_at ip (fst (Hit now ip user rl)) = hit_counter now user (counter_at ip rl)"
  by (simp add: Hit_state) (simp add: counter_at_def)

lemma maxEntries_Hit [simp]: "maxEntries (fst (Hit now ip user rl)) = maxEntries rl"
  by (cases "ip = []") (simp_all add: Hit_state)

lemma room_props:
  assumes "rl_inv rl"
  shows "gm_wf (room ip rl)" "[] \<notin> gm_keys (room ip rl)" "set (room ip rl) \<subseteq> set (rl_state rl)"
proof -
  have wf: "gm_wf (rl_state rl)" and ne: "\<And>k. k \<in> gm_keys (rl_state rl) \<Longrightarrow> k \<noteq> []"
    using assms by (auto simp: rl_inv_def)
  obtain k where "evictOldestLocked (rl_state rl) = gm_del k (rl_state rl)"
    using rl_evict.evict_deletes [OF wf ne] by blast
  then have "room ip rl = rl_state rl \<or> room ip rl = gm_del k (rl_state rl)"
    by (auto simp: room_def split: option.split)
  then show "gm_wf (room ip rl)" "[] \<notin> gm_keys (room ip rl)" "set (room ip rl) \<subseteq> set (rl_state rl)"
    using wf ne [of "[]"] set_gm_del [of k "rl_state rl"] by auto
qed

lemma room_length:
  assumes "rl_inv rl" "0 < maxEntries rl"
  shows "int (length (gm_put ip c (room ip rl))) \<le> maxEntries rl"
proof (cases "gm_get (rl_state rl) ip")
  case None
  have wf: "gm_wf (rl_state rl)" and ne: "\<And>k. k \<in> gm_keys (rl_state rl) \<Longrightarrow> k \<noteq> []"
    and len: "length (rl_state rl) \<le> nat (maxEntries rl)"
    using assms by (auto simp: rl_inv_def)
  have "room ip rl =
      (if length (rl_state rl) \<ge> nat (maxEntries rl) then evictOldestLocked (rl_state rl) else rl_state rl)"
    using None assms(2) by (auto simp: room_def)
  then have "length (gm_put ip c (room ip rl)) \<le> nat (maxEntries rl)"
    using rl_evict.evict_then_put_length [OF wf ne _ len, of ip c] assms(2) by simp
  then show ?thesis using assms(2) by linarith
next
  case (Some d)
  then have "ip \<in> gm_keys (rl_state rl)" by (metis gm_get_None option.distinct(1))
  with Some assms show ?thesis by (simp add: room_def rl_inv_def)
qed

lemma hit_counter_ok: "counter_ok c \<Longrightarrow> counter_ok (hit_counter now user c)"
  by (auto simp: counter_ok_def hit_counter_def tier_block_def Let_def)

lemma counter_at_ok: "rl_inv rl \<Longrightarrow> counter_ok (counter_at ip rl)"
  by (auto simp: rl_inv_def counter_at_def counter_ok_def new_counter_def
      split: option.split dest!: gm_get_mem)

lemma rl_inv_New: "rl_inv NewRateLimiter"
  by (simp add: rl_inv_def NewRateLimiter_def maxLimiterEntries_def)

lemma rl_inv_Hit:
  assumes "rl_inv rl"
  shows "rl_inv (fst (Hit now ip user rl))"
proof (cases "ip = []")
  case False
  let ?c = "hit_counter now user (counter_at ip rl)"
  have "counter_ok ?c" using assms by (simp add: counter_at_ok hit_counter_ok)
  moreover have "set (gm_put ip ?c (room ip rl)) \<subseteq> insert (ip, ?c) (set (rl_state rl))"
    using set_gm_put [of ip ?c "room ip rl"] room_props(3) [OF assms, of ip] by blast
  ultimately have "\<forall>(i, c) \<in> set (gm_put ip ?c (room ip rl)). counter_ok c"
    using assms by (auto simp: rl_inv_def)
  moreover have "maxEntries rl > 0 \<longrightarrow> int (length (gm_put ip ?c (room ip rl))) \<le> maxEntries rl"
    using room_length [OF assms] by blast
  ultimately show ?thesis
    using room_props(1,2) [OF assms, of ip] False
    by (simp add: Hit_state rl_inv_def del: gm_len_put)
qed (use assms in simp)

lemma rl_inv_sub:
  assumes "rl_inv rl" "gm_wf m" "set m \<subseteq> set (rl_state rl)" "length m \<le> length (rl_state rl)"
  shows "rl_inv (rl\<lparr>rl_state := m\<rparr>)"
proof -
  have "[] \<notin> gm_keys m" using assms(1,3) by (force simp: rl_inv_def gm_keys_def)
  with assms show ?thesis by (fastforce simp: rl_inv_def)
qed

lemma rl_inv_Reset: "rl_inv rl \<Longrightarrow> rl_inv (Reset ip rl)"
  using rl_inv_sub [OF _ _ set_gm_del gm_len_del_le] by (auto simp: Reset_def rl_inv_def)

lemma rl_inv_sweep: "rl_inv rl \<Longrightarrow> rl_inv (sweep now rl)"
  unfolding sweep_def by (rule rl_inv_sub) (auto simp: rl_inv_def)

lemma rl_inv_ResetForUser:
  assumes "rl_inv rl"
  shows "rl_inv (ResetForUser now ip user rl)"
proof (cases "ip = [] \<or> gm_get (rl_state rl) ip = None")
  case True
  then show ?thesis using assms by (auto simp: ResetForUser_def)
next
  case False
  then obtain c where c: "gm_get (rl_state rl) ip = Some c" and ip: "ip \<noteq> []" by auto
  let ?keep = "filter (\<lambda>fr. fr_user fr \<noteq> user) (failures c)"
  let ?c = "c\<lparr>failures := ?keep, lastSeen := now\<rparr>"
  have "rl_inv (rl\<lparr>rl_state := gm_del ip (rl_state rl)\<rparr>)"
    using assms rl_inv_sub [OF _ _ set_gm_del gm_len_del_le] by (auto simp: rl_inv_def)
  moreover have "rl_inv (rl\<lparr>rl_state := gm_put ip ?c (rl_state rl)\<rparr>)"
  proof -
    have "counter_ok ?c" using counter_at_ok [OF assms, of ip] c by (simp add: counter_at_def counter_ok_def)
    then have "\<forall>(i, c) \<in> set (gm_put ip ?c (rl_state rl)). counter_ok c"
      using assms set_gm_put [of ip ?c "rl_state rl"] by (auto simp: rl_inv_def)
    then show ?thesis
      using assms ip gm_get_Some_key [OF c] by (simp add: rl_inv_def)
  qed
  ultimately show ?thesis using c ip by (simp add: ResetForUser_def Let_def)
qed

end
