(* ===== verification/RateHistory.thy ===== *)
theory RateHistory
  imports RateLimiter
begin

text \<open>
  What the rate limiter promises: a reference specification over the complete failure history of
  an address, the proof that the pruned sliding windows of the implementation decide exactly as
  it does, and the consequences an operator relies on.
\<close>

section \<open>The reference: full histories\<close>

text \<open>
  A history lists the failures of one address, newest first, and is never pruned. Each failure
  counts the ones within one hour and within five minutes of it over the whole history; a tier
  that is reached blocks from that moment on, and the longest block wins.
\<close>

fun spec_block :: "failureRecord list \<Rightarrow> time \<times> duration" where
  "spec_block [] = (zero_time, 0)"
| "spec_block (fr # older) =
     (let (until, dur) = spec_block older;
          now = fr_ts fr;
          nb = tier_block (triggered_tier (count_since (now - Tier1Window) (fr # older))
                                          (count_since (now - Tier2Window) (fr # older)))
      in if nb > 0 \<and> now + nb > until then (now + nb, nb) else (until, dur))"

definition spec_allow :: "time \<Rightarrow> failureRecord list \<Rightarrow> bool \<times> duration \<times> duration" where
  "spec_allow t h =
     (let (until, dur) = spec_block h in
      if until = zero_time \<or> \<not> t < until then (True, 0, 0) else (False, time_sub until t, dur))"

definition newest_first :: "failureRecord list \<Rightarrow> bool" where
  "newest_first h \<longleftrightarrow> sorted_wrt (\<lambda>a b. fr_ts b \<le> fr_ts a) h"

section \<open>One counter against its history\<close>

definition run_counter :: "failureRecord list \<Rightarrow> counter" where
  "run_counter h = foldr (\<lambda>fr c. hit_counter (fr_ts fr) (fr_user fr) c) h new_counter"

lemma run_counter_Nil [simp]: "run_counter [] = new_counter"
  by (simp add: run_counter_def)

lemma run_counter_Cons [simp]:
  "run_counter (fr # h) = hit_counter (fr_ts fr) (fr_user fr) (run_counter h)"
  by (simp add: run_counter_def)

lemma failures_hit_counter [simp]: "failures (hit_counter now u c) = hit_failures now u c"
  by (simp add: hit_counter_def Let_def)

lemma Tier1_le_Tier2: "Tier1Window \<le> Tier2Window" "0 < Tier1Window" "0 < Tier2Window"
  by (simp_all add: tier_defs)

lemma run_counter_failures:
  "newest_first h \<Longrightarrow> h \<noteq> [] \<Longrightarrow>
     failures (run_counter h) = rev (filter (\<lambda>fr. fr_ts (hd h) - Tier2Window < fr_ts fr) h)"
proof (induction h)
  case (Cons fr h)
  let ?now = "fr_ts fr"
  have now: "?now - Tier2Window < fr_ts fr" using Tier1_le_Tier2 by simp
  have "filter (\<lambda>x. ?now - Tier2Window < fr_ts x) (failures (run_counter h)) =
      rev (filter (\<lambda>x. ?now - Tier2Window < fr_ts x) h)"
  proof (cases h)
    case (Cons fr' h')
    with Cons.prems have le: "fr_ts (hd h) \<le> ?now" by (simp add: newest_first_def)
    have "failures (run_counter h) = rev (filter (\<lambda>x. fr_ts (hd h) - Tier2Window < fr_ts x) h)"
      using Cons.IH Cons.prems Cons by (simp add: newest_first_def)
    then show ?thesis
      using le by (simp add: rev_filter [symmetric] filter_filter) (rule filter_cong, auto)
  qed (simp add: new_counter_def)
  then show ?case by (simp add: hit_failures_def now)
qed simp

lemma count_since_rev [simp]: "count_since t (rev h) = count_since t h"
  by (simp add: count_since_def rev_filter [symmetric])

lemma count_since_filter:
  "t' \<le> t \<Longrightarrow> count_since t (filter (\<lambda>fr. t' < fr_ts fr) h) = count_since t h"
  unfolding count_since_def filter_filter by (rule arg_cong [where f = length], rule filter_cong) auto

lemma run_counter_tier:
  assumes "newest_first (fr # h)"
  shows "hit_tier (fr_ts fr) (fr_user fr) (run_counter h) =
    triggered_tier (count_since (fr_ts fr - Tier1Window) (fr # h))
                   (count_since (fr_ts fr - Tier2Window) (fr # h))"
proof -
  have f: "hit_failures (fr_ts fr) (fr_user fr) (run_counter h) =
      rev (filter (\<lambda>x. fr_ts fr - Tier2Window < fr_ts x) (fr # h))"
    using run_counter_failures [OF assms] by simp
  have "count_since (fr_ts fr - Tier1Window) (hit_failures (fr_ts fr) (fr_user fr) (run_counter h)) =
      count_since (fr_ts fr - Tier1Window) (fr # h)"
    unfolding f count_since_rev by (rule count_since_filter) (simp add: Tier1_le_Tier2)
  moreover have "length (hit_failures (fr_ts fr) (fr_user fr) (run_counter h)) =
      count_since (fr_ts fr - Tier2Window) (fr # h)"
    unfolding f by (simp add: count_since_def)
  ultimately show ?thesis by (simp only: hit_tier_def)
qed

lemma run_counter_spec:
  "newest_first h \<Longrightarrow> (blockedUntil (run_counter h), blockDuration (run_counter h)) = spec_block h"
proof (induction h)
  case (Cons fr h)
  then have IH: "spec_block h = (blockedUntil (run_counter h), blockDuration (run_counter h))"
    by (simp add: newest_first_def)
  show ?case
    using run_counter_tier [OF Cons.prems]
    by (simp add: IH hit_counter_def Let_def del: run_counter_Cons) (simp add: hit_counter_def Let_def)
qed (simp add: new_counter_def)

section \<open>The limiter against the histories of all addresses\<close>

text \<open>A run of failures of any addresses, newest first, from a fresh limiter.\<close>

type_synonym attempt = "time \<times> string \<times> string"

fun run_hits :: "RateLimiter \<Rightarrow> attempt list \<Rightarrow> RateLimiter" where
  "run_hits rl [] = rl"
| "run_hits rl ((now, ip, user) # as) = fst (Hit now ip user (run_hits rl as))"

definition history :: "string \<Rightarrow> attempt list \<Rightarrow> failureRecord list" where
  "history ip as = map (\<lambda>(t, _, u). \<lparr>fr_ts = t, fr_user = u\<rparr>) (filter (\<lambda>(_, i, _). i = ip) as)"

definition ips_of :: "attempt list \<Rightarrow> string set" where
  "ips_of as = (\<lambda>(_, i, _). i) ` set as"

lemma finite_ips_of [simp]: "finite (ips_of as)"
  by (simp add: ips_of_def)

lemma ips_of_Cons [simp]: "ips_of ((t, i, u) # as) = insert i (ips_of as)"
  by (simp add: ips_of_def)

lemma history_Cons [simp]:
  "history ip ((t, i, u) # as) = (if i = ip then [\<lparr>fr_ts = t, fr_user = u\<rparr>] else []) @ history ip as"
  by (simp add: history_def)

lemma history_notin: "ip \<notin> ips_of as \<Longrightarrow> history ip as = []"
  by (induction as) (auto simp: ips_of_def history_def)

lemma run_hits_maxEntries [simp]: "maxEntries (run_hits rl as) = maxEntries rl"
  by (induction rl as rule: run_hits.induct) simp_all

text \<open>
  Above the cap the entry that was seen longest ago is evicted. The crowd of an address is the
  number of addresses with a failure since the first failure of this one.
\<close>

definition ips_since :: "time \<Rightarrow> attempt list \<Rightarrow> string set" where
  "ips_since T as = (fst \<circ> snd) ` {a \<in> set as. T \<le> fst a}"

definition first_seen :: "string \<Rightarrow> attempt list \<Rightarrow> time" where
  "first_seen ip as = fr_ts (last (history ip as))"

definition crowd :: "string \<Rightarrow> attempt list \<Rightarrow> nat" where
  "crowd ip as = (if history ip as = [] then 0 else card (ips_since (first_seen ip as) as))"

lemma finite_ips_since [simp]: "finite (ips_since T as)"
  by (simp add: ips_since_def)

lemma ips_since_mono: "ips_since T as \<subseteq> ips_since T (a # as)"
  by (auto simp: ips_since_def)

lemma crowd_mono: "crowd ip as \<le> crowd ip (a # as)"
proof (cases "history ip as = []")
  case False
  then have "first_seen ip (a # as) = first_seen ip as" "history ip (a # as) \<noteq> []"
    by (cases a; simp add: first_seen_def)+
  with False card_mono [OF finite_ips_since ips_since_mono] show ?thesis by (simp add: crowd_def)
qed (simp add: crowd_def)

lemma crowd_le: "crowd ip as \<le> card (ips_of as)"
  by (simp add: crowd_def) (auto simp: ips_since_def ips_of_def split_beta intro!: card_mono)

lemma lastSeen_hit [simp]: "lastSeen (hit_counter now u c) = now"
  by (simp add: hit_counter_def Let_def)

text \<open>What the table holds after a run: for every entry the time of the newest failure.\<close>

definition table_ok :: "attempt list \<Rightarrow> RateLimiter \<Rightarrow> bool" where
  "table_ok as rl \<longleftrightarrow> rl_inv rl \<and> (\<forall>i c. gm_get (rl_state rl) i = Some c \<longrightarrow> (\<exists>u. (lastSeen c, i, u) \<in> set as))"

lemma room_get: "rl_inv rl \<Longrightarrow> gm_get (room i rl) j = Some c \<Longrightarrow> gm_get (rl_state rl) j = Some c"
  using room_props [of rl i] by (metis gm_get_iff gm_get_mem rl_inv_def subsetD)

lemma table_ok_run:
  assumes "rl_inv rl" and "rl_state rl = []" and "[] \<notin> ips_of as"
  shows "table_ok as (run_hits rl as)"
  using assms(3)
proof (induction as)
  case Nil
  then show ?case using assms by (simp add: table_ok_def)
next
  case (Cons a as)
  obtain now i user where a: "a = (now, i, user)" by (cases a) auto
  then have IH: "table_ok as (run_hits rl as)" and ne: "i \<noteq> []" using Cons by auto
  then have inv: "rl_inv (run_hits rl as)" by (simp add: table_ok_def)
  have "\<exists>u. (lastSeen c, j, u) \<in> set (a # as)" if "gm_get (rl_state (run_hits rl (a # as))) j = Some c" for j c
  proof (cases "j = i")
    case True
    with that ne show ?thesis by (auto simp: a Hit_state)
  next
    case False
    with that ne have "gm_get (room i (run_hits rl as)) j = Some c" by (simp add: a Hit_state)
    from room_get [OF inv this] IH show ?thesis by (auto simp: table_ok_def)
  qed
  with rl_inv_Hit [OF inv, of now i user] show ?case by (simp add: table_ok_def a)
qed

text \<open>A new address does not displace one whose crowd, with the newcomer, is within the cap.\<close>

lemma room_keeps:
  assumes "table_ok as rl" and "sorted_wrt (\<lambda>a b. fst b \<le> fst a) ((now, i, user) # as)" and "gm_get (rl_state rl) ip = Some c"
    and "i \<noteq> ip" and "0 < maxEntries rl" and "int (crowd ip ((now, i, user) # as)) \<le> maxEntries rl"
  shows "gm_get (room i rl) ip = Some c"
proof (rule ccontr)
  assume gone: "gm_get (room i rl) ip \<noteq> Some c"
  let ?st = "rl_state rl" and ?T = "first_seen ip as"
  have inv: "rl_inv rl" using assms(1) by (simp add: table_ok_def)
  then have wf: "gm_wf ?st" "\<And>k. k \<in> gm_keys ?st \<Longrightarrow> k \<noteq> []" and len: "int (length ?st) \<le> maxEntries rl"
    using assms(5) by (auto simp: rl_inv_def)
  from gone assms(3,5) have r: "room i rl = evictOldestLocked ?st" "gm_get ?st i = None" "maxEntries rl \<le> int (length ?st)"
    by (auto simp: room_def split: option.splits if_splits)
  have "?st \<noteq> []" using assms(3) by auto
  from rl_evict.evict_law [OF wf(1) this wf(2)] obtain k v where kv: "(k, v) \<in> set ?st" "evictOldestLocked ?st = gm_del k ?st"
    "\<forall>p \<in> set ?st. lastSeen v \<le> lastSeen (snd p)" by blast
  have k: "k = ip"
  proof (rule ccontr)
    assume "k \<noteq> ip"
    with gone r(1) kv(2) assms(3) show False by simp
  qed
  with kv(1) assms(3) have v: "v = c" using gm_get_iff [OF wf(1)] by (metis option.inject)
  obtain u where u: "(lastSeen c, ip, u) \<in> set as" using assms(1,3) by (auto simp: table_ok_def)
  then have h: "history ip as \<noteq> []" "history ip ((now, i, user) # as) = history ip as"
    using assms(4) by (auto simp: history_def filter_empty_conv)
  have sorted: "sorted_wrt (\<lambda>a b. fst b \<le> fst a) as" using assms(2) by simp
  have first: "?T \<le> lastSeen c" and T: "?T \<le> now"
  proof -
    have "\<exists>w. (?T, ip, w) \<in> set as"
      using h(1) last_in_set [OF h(1)] by (auto simp: first_seen_def history_def)
    with assms(2) show "?T \<le> now" by auto
    from u obtain xs ys where as: "as = xs @ (lastSeen c, ip, u) # ys" by (meson split_list)
    show "?T \<le> lastSeen c"
    proof (cases "history ip ys = []")
      case True
      with as show ?thesis by (simp add: first_seen_def history_def)
    next
      case False
      then have "first_seen ip as = first_seen ip ys" using as by (simp add: first_seen_def history_def)
      moreover have "\<exists>w. (first_seen ip ys, ip, w) \<in> set ys"
        using last_in_set [OF False] by (auto simp: first_seen_def history_def)
      ultimately show ?thesis using sorted as by (auto simp: sorted_wrt_append)
    qed
  qed
  have "gm_keys ?st \<subseteq> ips_since ?T as"
  proof
    fix j assume "j \<in> gm_keys ?st"
    then obtain d where d: "(j, d) \<in> set ?st" by blast
    then have "gm_get ?st j = Some d" using gm_get_iff [OF wf(1)] by simp
    with assms(1) obtain w where "(lastSeen d, j, w) \<in> set as" by (auto simp: table_ok_def)
    moreover have "?T \<le> lastSeen d" using kv(3) d v first by fastforce
    ultimately show "j \<in> ips_since ?T as" by (force simp: ips_since_def)
  qed
  moreover have "i \<in> ips_since ?T ((now, i, user) # as)" using T by (force simp: ips_since_def)
  ultimately have "insert i (gm_keys ?st) \<subseteq> ips_since ?T ((now, i, user) # as)" using ips_since_mono by blast
  then have "card (insert i (gm_keys ?st)) \<le> crowd ip ((now, i, user) # as)"
    using h by (simp add: crowd_def first_seen_def card_mono)
  moreover have "i \<notin> gm_keys ?st" using r(2) by (simp add: gm_get_None)
  moreover have "card (gm_keys ?st) = length ?st" using wf(1) by (metis distinct_card gm_keys_def gm_wf_def length_map list.set_map)
  moreover have "finite (gm_keys ?st)" by (simp add: gm_keys_def)
  ultimately show False using assms(6) r(3) by simp
qed

lemma run_hits_counter:
  assumes "rl_inv rl" and "rl_state rl = []" and "0 < maxEntries rl"
    and "sorted_wrt (\<lambda>a b. fst b \<le> fst a) as" and "[] \<notin> ips_of as" and "int (crowd ip as) \<le> maxEntries rl"
  shows "gm_get (rl_state (run_hits rl as)) ip = (if history ip as = [] then None else Some (run_counter (history ip as)))"
  using assms(4-6)
proof (induction as)
  case Nil
  then show ?case using assms(2) by (simp add: history_def)
next
  case (Cons a as)
  obtain now i user where a: "a = (now, i, user)" by (cases a) auto
  let ?rl = "run_hits rl as"
  have ne: "i \<noteq> []" and n: "[] \<notin> ips_of as" using Cons.prems by (auto simp: a)
  have "int (crowd ip as) \<le> maxEntries rl" using Cons.prems(3) crowd_mono [of ip as a] by simp
  with Cons have IH: "gm_get (rl_state ?rl) ip = (if history ip as = [] then None else Some (run_counter (history ip as)))"
    by (simp add: n)
  have T: "table_ok as ?rl" by (rule table_ok_run [OF assms(1,2) n])
  then have inv: "rl_inv ?rl" by (simp add: table_ok_def)
  have st: "rl_state (run_hits rl (a # as)) = gm_put i (hit_counter now user (counter_at i ?rl)) (room i ?rl)"
    using ne by (simp add: a Hit_state)
  show ?case
  proof (cases "i = ip")
    case True
    then show ?thesis using IH unfolding st by (simp add: a counter_at_def)
  next
    case False
    then have h: "history ip (a # as) = history ip as" by (simp add: a)
    show ?thesis
    proof (cases "history ip as = []")
      case True
      with IH have "gm_get (rl_state ?rl) ip = None" by simp
      then have "gm_get (room i ?rl) ip = None" using room_get [OF inv, of i ip] by (cases "gm_get (room i ?rl) ip") auto
      with True False h show ?thesis unfolding st by simp
    next
      case ne': False
      then have "gm_get (rl_state ?rl) ip = Some (run_counter (history ip as))" using IH by simp
      from room_keeps [OF T Cons.prems(1) [unfolded a] this False] assms(3) Cons.prems(3) ne' h False
      show ?thesis unfolding st by (simp add: a)
    qed
  qed
qed

text \<open>
  C6: the limiter decides exactly as the reference. After any run of failures (clock not going
  back) from a fresh limiter, for every address and every later instant, \<open>Allow\<close> returns the
  verdict, the remaining time and the tier that the unpruned history of that address alone
  determines, provided at most as many addresses as the table holds failed since the first failure
  of this address: pruning loses nothing, addresses do not influence each other, and a full table
  never evicts such an address, whatever came before it.
\<close>

theorem limiter_refines_history:
  assumes "sorted_wrt (\<lambda>a b. fst b \<le> fst a) as" and "[] \<notin> ips_of as"
    and "int (crowd ip as) \<le> maxLimiterEntries" and "ip \<noteq> []"
  shows "Allow t ip (run_hits NewRateLimiter as) = spec_allow t (history ip as)"
proof -
  let ?rl = "run_hits NewRateLimiter as"
  have "newest_first (history ip as)"
    unfolding newest_first_def history_def sorted_wrt_map
    by (rule sorted_wrt_mono_rel [OF _ sorted_wrt_filter [OF assms(1)]]) auto
  then have spec: "spec_block (history ip as) =
      (blockedUntil (run_counter (history ip as)), blockDuration (run_counter (history ip as)))"
    using run_counter_spec by metis
  have "counter_at ip ?rl = run_counter (history ip as)"
    using run_hits_counter [OF rl_inv_New, of as ip] assms(1-3)
    by (simp add: counter_at_def NewRateLimiter_def maxLimiterEntries_def)
  then show ?thesis
    by (simp add: Allow_counter_at [OF assms(4)] spec_allow_def spec block_active_def)
qed

definition burst :: "attempt list" where
  "burst = map (\<lambda>k. (k * ns_second, ''203.0.113.9'', [])) [50, 40, 30, 20, 10]"

theorem limiter_refines_history_witness:
  "Allow (60 * ns_second) ''203.0.113.9'' (run_hits NewRateLimiter burst) =
   (False, 890 * ns_second, Tier1Block)"
proof -
  have one: "ips_of burst = {''203.0.113.9''}" by (auto simp: burst_def ips_of_def)
  then have "int (crowd ''203.0.113.9'' burst) \<le> maxLimiterEntries"
    using crowd_le [of "''203.0.113.9''" burst] by (simp add: maxLimiterEntries_def)
  with one have "Allow (60 * ns_second) ''203.0.113.9'' (run_hits NewRateLimiter burst) =
      spec_allow (60 * ns_second) (history ''203.0.113.9'' burst)"
    by (intro limiter_refines_history) (simp_all, simp add: burst_def ns_defs)
  also have "\<dots> = (False, 890 * ns_second, Tier1Block)" by code_simp
  finally show ?thesis .
qed

section \<open>A success for one account does not launder the failures of another\<close>

datatype attack = Guess time string | OwnLogin time

fun attack_time :: "attack \<Rightarrow> time" where
  "attack_time (Guess t _) = t"
| "attack_time (OwnLogin t) = t"

fun run_attack :: "string \<Rightarrow> string \<Rightarrow> RateLimiter \<Rightarrow> attack list \<Rightarrow> RateLimiter" where
  "run_attack ip own rl [] = rl"
| "run_attack ip own rl (Guess t u # as) = fst (Hit t ip u (run_attack ip own rl as))"
| "run_attack ip own rl (OwnLogin t # as) = ResetForUser t ip own (run_attack ip own rl as)"

definition guesses_since :: "time \<Rightarrow> attack list \<Rightarrow> nat" where
  "guesses_since cutoff as = length (filter (\<lambda>a. case a of Guess t _ \<Rightarrow> cutoff < t | _ \<Rightarrow> False) as)"

definition foreign :: "string \<Rightarrow> failureRecord list \<Rightarrow> failureRecord list" where
  "foreign own frs = filter (\<lambda>fr. fr_user fr \<noteq> own) frs"

lemma fails_Hit: "ip \<noteq> [] \<Longrightarrow> fails ip (fst (Hit t ip u rl)) = hit_failures t u (counter_at ip rl)"
  by (simp add: fails_counter_at)

lemma foreign_fails_ResetForUser:
  "foreign own (fails ip (ResetForUser t ip own rl)) = foreign own (fails ip rl)"
  by (auto simp: ResetForUser_def fails_def foreign_def Let_def split: option.splits)

lemma count_foreign_hit:
  assumes "u \<noteq> own" "t - Tier2Window \<le> cutoff"
  shows "count_since cutoff (foreign own (hit_failures t u c)) =
    count_since cutoff (foreign own (failures c)) + (if cutoff < t then 1 else 0)"
proof -
  have "filter (\<lambda>fr. cutoff < fr_ts fr \<and> fr_user fr \<noteq> own \<and> t - Tier2Window < fr_ts fr) (failures c) =
      filter (\<lambda>fr. cutoff < fr_ts fr \<and> fr_user fr \<noteq> own) (failures c)"
    using assms(2) by (intro filter_cong) auto
  then show ?thesis
    using assms(1) by (simp add: count_since_def foreign_def hit_failures_def conj_commute)
qed

lemma run_attack_counts:
  assumes "ip \<noteq> []"
  shows "sorted_wrt (\<lambda>a b. attack_time b \<le> attack_time a) as \<Longrightarrow> \<forall>t u. Guess t u \<in> set as \<longrightarrow> u \<noteq> own \<Longrightarrow>
    \<forall>a \<in> set as. attack_time a - Tier2Window \<le> cutoff \<Longrightarrow>
    guesses_since cutoff as \<le> count_since cutoff (foreign own (fails ip (run_attack ip own rl as)))"
proof (induction as)
  case (Cons a as)
  then have IH: "guesses_since cutoff as \<le> count_since cutoff (foreign own (fails ip (run_attack ip own rl as)))"
    by simp
  show ?case
  proof (cases a)
    case (Guess t u)
    with Cons.prems have "u \<noteq> own" "t - Tier2Window \<le> cutoff" by auto
    from count_foreign_hit [OF this] IH Guess assms show ?thesis
      by (simp add: fails_Hit guesses_since_def) (simp add: fails_counter_at)
  next
    case (OwnLogin t)
    with IH show ?thesis by (simp add: foreign_fails_ResetForUser guesses_since_def)
  qed
qed (simp add: guesses_since_def)

lemma count_since_foreign_le: "count_since cutoff (foreign own frs) \<le> count_since cutoff frs"
  unfolding count_since_def foreign_def filter_filter
  by (induction frs) auto

lemma hit_blocks:
  assumes "Tier1Threshold \<le> count_since (t - Tier1Window) (hit_failures t u c)"
  shows "t + Tier1Block \<le> blockedUntil (hit_counter t u c)"
  using assms by (auto simp: hit_counter_def hit_tier_def triggered_tier_def tier_block_def Let_def tier_defs)

text \<open>
  Four guesses and one own login do not reset the ceiling. Whatever state the limiter is in,
  and however many successful logins of its own account the client interleaves, a guess against
  other accounts that is the fifth within five minutes leaves the address blocked for the
  following fifteen minutes.
\<close>

theorem own_login_does_not_launder:
  assumes "ip \<noteq> []" and "0 \<le> t"
    and "sorted_wrt (\<lambda>a b. attack_time b \<le> attack_time a) (Guess t u # as)"
    and "\<forall>t' u'. Guess t' u' \<in> set (Guess t u # as) \<longrightarrow> u' \<noteq> own"
    and "Tier1Threshold \<le> guesses_since (t - Tier1Window) (Guess t u # as)"
    and "t \<le> t'" and "t' < t + Tier1Block"
  shows "\<not> fst (Allow t' ip (run_attack ip own rl (Guess t u # as)))"
proof -
  let ?as = "Guess t u # as" and ?rl = "run_attack ip own rl as"
  have late: "\<forall>a \<in> set ?as. attack_time a - Tier2Window \<le> t - Tier1Window"
    using assms(3) Tier1_le_Tier2 by force
  have "Tier1Threshold \<le> count_since (t - Tier1Window) (foreign own (fails ip (run_attack ip own rl ?as)))"
    using run_attack_counts [OF assms(1,3,4) late] assms(5) by (rule order_trans [rotated])
  also have "\<dots> \<le> count_since (t - Tier1Window) (hit_failures t u (counter_at ip ?rl))"
    using count_since_foreign_le fails_Hit [OF assms(1)] by simp
  finally have "t + Tier1Block \<le> blockedUntil (hit_counter t u (counter_at ip ?rl))"
    by (rule hit_blocks)
  then show ?thesis
    using assms(1,2,6,7) by (simp add: Allow_counter_at block_active_def)
qed

theorem own_login_does_not_launder_witness:
  "\<not> fst (Allow (20 * ns_minute) ''203.0.113.9''
     (run_attack ''203.0.113.9'' ''mallory'' NewRateLimiter
       [Guess (6 * ns_minute) ''root'', OwnLogin (5 * ns_minute), Guess (4 * ns_minute) ''admin'',
        Guess (4 * ns_minute) ''root'', Guess (3 * ns_minute) ''admin'', OwnLogin (3 * ns_minute),
        Guess (2 * ns_minute) ''admin'']))"
  by (rule own_login_does_not_launder)
    (auto simp: tier_defs guesses_since_def)

end
