(* ===== verification/RateSystem.thy ===== *)
theory RateSystem
  imports RateHistory
begin

text \<open>
  The rate limiter in operation: every operation as a step of a transition system with a clock
  (and the reordering of the Go map between two calls), the invariant of its reachable states,
  the background sweep, the report of blocked addresses and the HTTP middleware.
\<close>

section \<open>Steps\<close>

inductive rl_step :: "time \<times> RateLimiter \<Rightarrow> time \<times> RateLimiter \<Rightarrow> bool" where
  hit: "clk \<le> now \<Longrightarrow> rl_step (clk, rl) (now, fst (Hit now ip user rl))"
| reset: "clk \<le> now \<Longrightarrow> rl_step (clk, rl) (now, Reset ip rl)"
| reset_user: "clk \<le> now \<Longrightarrow> rl_step (clk, rl) (now, ResetForUser now ip user rl)"
| sweep_tick: "clk \<le> now \<Longrightarrow> rl_step (clk, rl) (now, sweep now rl)"
| shuffle: "mset m = mset (rl_state rl) \<Longrightarrow> rl_step (clk, rl) (clk, rl\<lparr>rl_state := m\<rparr>)"

inductive rl_reachable :: "time \<times> RateLimiter \<Rightarrow> bool" where
  start: "0 \<le> clk \<Longrightarrow> rl_reachable (clk, NewRateLimiter)"
| more: "rl_reachable s \<Longrightarrow> rl_step s s' \<Longrightarrow> rl_reachable s'"

definition timely :: "time \<Rightarrow> counter \<Rightarrow> bool" where
  "timely clk c \<longleftrightarrow>
     lastSeen c \<le> clk \<and> (\<forall>fr \<in> set (failures c). fr_ts fr \<le> lastSeen c) \<and>
     sorted (map fr_ts (failures c)) \<and> blockedUntil c \<le> clk + Tier2Block"

definition sys_inv :: "time \<Rightarrow> RateLimiter \<Rightarrow> bool" where
  "sys_inv clk rl \<longleftrightarrow>
     0 \<le> clk \<and> rl_inv rl \<and> maxEntries rl = maxLimiterEntries \<and> (\<forall>(ip, c) \<in> set (rl_state rl). timely clk c)"

lemma timely_mono: "timely clk c \<Longrightarrow> clk \<le> now \<Longrightarrow> timely now c"
  by (auto simp: timely_def)

lemma timely_new: "0 \<le> clk \<Longrightarrow> timely clk new_counter"
  by (simp add: timely_def new_counter_def tier_defs)

lemma timely_hit:
  assumes "timely clk c" "clk \<le> now"
  shows "timely now (hit_counter now user c)"
proof -
  have "lastSeen (hit_counter now user c) = now" by (simp add: hit_counter_def Let_def)
  moreover have "\<forall>fr \<in> set (failures c). fr_ts fr \<le> now" using assms by (auto simp: timely_def)
  moreover from this have "sorted (map fr_ts (hit_failures now user c))"
    using assms by (auto simp: timely_def hit_failures_def sorted_append sorted_filter)
  moreover have "blockedUntil (hit_counter now user c) \<le> now + Tier2Block"
    using assms by (auto simp: hit_counter_def timely_def tier_block_def tier_defs Let_def)
  ultimately show ?thesis by (auto simp: timely_def hit_failures_def)
qed

lemma timely_reset:
  assumes "timely clk c" "clk \<le> now"
  shows "timely now (c\<lparr>failures := filter P (failures c), lastSeen := now\<rparr>)"
  using assms by (auto simp: timely_def sorted_filter)

lemma sys_inv_counter_at: "sys_inv clk rl \<Longrightarrow> timely clk (counter_at ip rl)"
  by (auto simp: sys_inv_def counter_at_def timely_new split: option.split dest!: gm_get_mem)

lemma sys_inv_put:
  assumes "sys_inv clk rl" "clk \<le> now" "rl_inv rl'" "maxEntries rl' = maxEntries rl"
    and "set (rl_state rl') \<subseteq> insert (ip, c) (set (rl_state rl))" "timely now c"
  shows "sys_inv now rl'"
  using assms timely_mono [OF _ assms(2)] by (fastforce simp: sys_inv_def)

lemma sys_inv_sub:
  assumes "sys_inv clk rl" "clk \<le> now" "rl_inv rl'" "maxEntries rl' = maxEntries rl"
    and "set (rl_state rl') \<subseteq> set (rl_state rl)"
  shows "sys_inv now rl'"
  using assms timely_mono [OF _ assms(2)] by (fastforce simp: sys_inv_def)

lemma sys_inv_Hit:
  assumes "sys_inv clk rl" "clk \<le> now"
  shows "sys_inv now (fst (Hit now ip user rl))"
proof (cases "ip = []")
  case True
  have "rl_inv rl" using assms(1) by (simp add: sys_inv_def)
  with True show ?thesis using sys_inv_sub [OF assms, of rl] by simp
next
  case False
  let ?c = "hit_counter now user (counter_at ip rl)"
  have inv: "rl_inv rl" using assms(1) by (simp add: sys_inv_def)
  have "set (gm_put ip ?c (room ip rl)) \<subseteq> insert (ip, ?c) (set (rl_state rl))"
    using set_gm_put [of ip ?c "room ip rl"] room_props(3) [OF inv, of ip] by blast
  then have "set (rl_state (fst (Hit now ip user rl))) \<subseteq> insert (ip, ?c) (set (rl_state rl))"
    using False by (simp add: Hit_state)
  then show ?thesis
    by (rule sys_inv_put [OF assms rl_inv_Hit [OF inv] maxEntries_Hit])
      (rule timely_hit [OF sys_inv_counter_at [OF assms(1)] assms(2)])
qed

lemma sys_inv_ResetForUser:
  assumes "sys_inv clk rl" "clk \<le> now"
  shows "sys_inv now (ResetForUser now ip user rl)"
proof -
  let ?rl = "ResetForUser now ip user rl"
  let ?c = "(counter_at ip rl)\<lparr>failures := filter (\<lambda>fr. fr_user fr \<noteq> user) (failures (counter_at ip rl)), lastSeen := now\<rparr>"
  have inv: "rl_inv ?rl" using assms(1) rl_inv_ResetForUser by (simp add: sys_inv_def)
  have max: "maxEntries ?rl = maxEntries rl"
    by (simp add: ResetForUser_def Let_def split: option.split)
  have "set (rl_state ?rl) \<subseteq> insert (ip, ?c) (set (rl_state rl))"
    using set_gm_put [of ip ?c "rl_state rl"] set_gm_del [of ip "rl_state rl"]
    by (auto simp: ResetForUser_def Let_def counter_at_def split: option.splits)
  then show ?thesis
    by (rule sys_inv_put [OF assms inv max])
      (rule timely_reset [OF sys_inv_counter_at [OF assms(1)] assms(2)])
qed

lemma rl_inv_shuffle:
  assumes "rl_inv rl" "mset m = mset (rl_state rl)"
  shows "rl_inv (rl\<lparr>rl_state := m\<rparr>)"
proof -
  have "set m = set (rl_state rl)" "length m = length (rl_state rl)" "gm_wf m"
    using assms(1) gm_wf_shuffle [OF assms(2)] mset_eq_setD [OF assms(2)] mset_eq_length [OF assms(2)]
    by (simp_all add: rl_inv_def)
  with assms(1) show ?thesis by (intro rl_inv_sub) auto
qed

lemma rl_step_inv:
  assumes "rl_step s s'" "sys_inv (fst s) (snd s)"
  shows "sys_inv (fst s') (snd s')"
  using assms
proof (induction rule: rl_step.induct)
  case (reset clk now rl ip)
  then have inv: "sys_inv clk rl" "clk \<le> now" "rl_inv (Reset ip rl)"
    using rl_inv_Reset by (simp_all add: sys_inv_def)
  have "set (rl_state (Reset ip rl)) \<subseteq> set (rl_state rl)" "maxEntries (Reset ip rl) = maxEntries rl"
    using set_gm_del [of ip "rl_state rl"] by (simp_all add: Reset_def)
  with sys_inv_sub [OF inv] show ?case by simp
next
  case (sweep_tick clk now rl)
  then have inv: "sys_inv clk rl" "clk \<le> now" "rl_inv (sweep now rl)"
    using rl_inv_sweep by (simp_all add: sys_inv_def)
  have "set (rl_state (sweep now rl)) \<subseteq> set (rl_state rl)" "maxEntries (sweep now rl) = maxEntries rl"
    by (auto simp: sweep_def)
  with sys_inv_sub [OF inv] show ?case by simp
next
  case (shuffle m rl clk)
  then have inv: "sys_inv clk rl" "clk \<le> clk" "rl_inv (rl\<lparr>rl_state := m\<rparr>)"
    using rl_inv_shuffle by (simp_all add: sys_inv_def)
  from sys_inv_sub [OF inv] mset_eq_setD [OF shuffle(1)] show ?case by simp
qed (simp_all add: sys_inv_Hit sys_inv_ResetForUser)

lemma rl_reachable_inv: "rl_reachable s \<Longrightarrow> sys_inv (fst s) (snd s)"
proof (induction rule: rl_reachable.induct)
  case (start clk)
  then show ?case using rl_inv_New by (simp add: sys_inv_def) (simp add: NewRateLimiter_def)
next
  case (more s s')
  then show ?case using rl_step_inv by blast
qed

text \<open>
  Memory is bounded and the bookkeeping stays consistent. In every state the limiter can
  reach it holds at most 50000 addresses, the empty address is not among them, the failures of
  each address are in time order and not newer than the last activity, and every recorded block
  carries the duration of one of the two tiers.
\<close>

theorem rl_reachable_bounded:
  assumes "rl_reachable (clk, rl)"
  shows "length (rl_state rl) \<le> 50000 \<and> [] \<notin> gm_keys (rl_state rl) \<and>
    (\<forall>(ip, c) \<in> set (rl_state rl). sorted (map fr_ts (failures c)) \<and>
       (\<forall>fr \<in> set (failures c). fr_ts fr \<le> lastSeen c) \<and> lastSeen c \<le> clk \<and>
       (blockedUntil c = zero_time \<or> blockDuration c = 15 * ns_minute \<or> blockDuration c = ns_hour))"
  using rl_reachable_inv [OF assms]
  by (fastforce simp: sys_inv_def rl_inv_def timely_def counter_ok_def maxLimiterEntries_def
      Tier1Block_def Tier2Block_def)

lemma reachable_one_hit: "rl_reachable (7, fst (Hit 7 ''203.0.113.9'' [] NewRateLimiter))"
  by (rule rl_reachable.more [OF rl_reachable.start [of 0]]) (auto intro: rl_step.hit)

theorem rl_reachable_bounded_witness:
  "length (rl_state (fst (Hit 7 ''203.0.113.9'' [] NewRateLimiter))) \<le> 50000"
  using rl_reachable_bounded [OF reachable_one_hit] by simp

section \<open>The sweep\<close>

lemma counter_at_sweep:
  assumes "gm_wf (rl_state rl)"
  shows "counter_at ip (sweep now rl) = counter_at ip rl \<or>
    counter_at ip (sweep now rl) = new_counter \<and>
    \<not> block_active now (counter_at ip rl) \<and> lastSeen (counter_at ip rl) < now - InactiveAfter"
  using gm_get_filter_val [OF assms, of "\<lambda>ip c. \<not> (\<not> block_active now c \<and> lastSeen c < now - InactiveAfter)" ip]
  by (auto simp: sweep_def counter_at_def split: option.splits if_splits)

lemma not_block_active_later: "\<not> block_active now c \<Longrightarrow> now \<le> t \<Longrightarrow> \<not> block_active t c"
  by (auto simp: block_active_def)

lemma hit_failures_stale:
  assumes "\<forall>fr \<in> set (failures c). fr_ts fr \<le> t - Tier2Window"
  shows "hit_failures t u c = hit_failures t u new_counter"
  using assms by (auto simp: hit_failures_def new_counter_def filter_empty_conv not_less)

text \<open>
  The background sweep is unobservable. Sweeping at some instant changes no later verdict of
  any address, neither directly nor after a further failure of that address: what it drops could
  no longer count towards a block.
\<close>

theorem sweep_unobservable:
  assumes "rl_reachable (clk, rl)" and "clk \<le> now" and "now \<le> t" and "t \<le> t'"
  shows "Allow t ip (sweep now rl) = Allow t ip rl \<and>
    Allow t' ip (fst (Hit t ip user (sweep now rl))) = Allow t' ip (fst (Hit t ip user rl))"
proof (cases "ip = []")
  case True
  then show ?thesis by (simp add: Allow_def)
next
  case ip: False
  have inv: "sys_inv clk rl" using rl_reachable_inv [OF assms(1)] by simp
  then have wf: "gm_wf (rl_state rl)" by (simp add: sys_inv_def rl_inv_def)
  let ?c = "counter_at ip rl"
  consider (kept) "counter_at ip (sweep now rl) = ?c"
    | (dropped) "counter_at ip (sweep now rl) = new_counter" "\<not> block_active now ?c"
        "lastSeen ?c < now - InactiveAfter"
    using counter_at_sweep [OF wf] by blast
  then show ?thesis
  proof cases
    case kept
    then show ?thesis using ip by (simp add: Allow_counter_at)
  next
    case dropped
    have ina: "\<not> block_active t ?c" "\<not> block_active t' ?c"
      using dropped(2) assms(3,4) not_block_active_later by (metis order_trans)+
    have "\<forall>fr \<in> set (failures ?c). fr_ts fr \<le> t - Tier2Window"
      using sys_inv_counter_at [OF inv, of ip] dropped(3) assms(3)
      by (fastforce simp: timely_def tier_defs)
    then have fs: "hit_failures t user ?c = hit_failures t user new_counter"
      by (rule hit_failures_stale)
    then have tier: "hit_tier t user ?c = hit_tier t user new_counter" by (simp add: hit_tier_def)
    have pos: "0 \<le> t" using inv assms(2,3) by (simp add: sys_inv_def)
    have "Allow t' ip (fst (Hit t ip user (sweep now rl))) = Allow t' ip (fst (Hit t ip user rl))"
      using ip ina dropped(1) pos tier
      by (auto simp: Allow_counter_at hit_counter_def block_active_def Let_def) (auto simp: new_counter_def)
    moreover have "\<not> block_active t new_counter" by (simp add: block_active_def new_counter_def)
    ultimately show ?thesis using ip ina(1) dropped(1) by (simp add: Allow_counter_at)
  qed
qed

theorem sweep_unobservable_witness:
  "Allow (4 * ns_hour) ''203.0.113.9'' (sweep (3 * ns_hour) (fst (Hit 7 ''203.0.113.9'' [] NewRateLimiter))) =
   Allow (4 * ns_hour) ''203.0.113.9'' (fst (Hit 7 ''203.0.113.9'' [] NewRateLimiter))"
proof -
  have "(7 :: time) \<le> 3 * ns_hour" "3 * ns_hour \<le> (4 * ns_hour :: time)" by (simp_all add: ns_defs)
  from sweep_unobservable [OF reachable_one_hit this order_refl] show ?thesis by blast
qed


section \<open>Forgiveness, the report, the middleware\<close>

text \<open>
  A successful login of an account touches its own failures only. \<open>ResetForUser\<close> removes every
  failure recorded against that username on the address, keeps every other failure of every
  address in place, and never changes a verdict: no block is lifted.
\<close>

theorem ResetForUser_selective:
  assumes "ip \<noteq> []"
  shows "fails ip (ResetForUser now ip user rl) = foreign user (fails ip rl) \<and>
    (\<forall>ip'. ip' \<noteq> ip \<longrightarrow> fails ip' (ResetForUser now ip user rl) = fails ip' rl) \<and>
    (\<forall>t ip'. Allow t ip' (ResetForUser now ip user rl) = Allow t ip' rl)"
proof (intro conjI allI impI)
  show "fails ip (ResetForUser now ip user rl) = foreign user (fails ip rl)"
    using assms by (auto simp: ResetForUser_def fails_def foreign_def Let_def split: option.splits)
next
  fix ip' assume "ip' \<noteq> ip"
  then show "fails ip' (ResetForUser now ip user rl) = fails ip' rl"
    by (simp add: ResetForUser_def fails_def Let_def split: option.split)
next
  fix t ip'
  show "Allow t ip' (ResetForUser now ip user rl) = Allow t ip' rl"
    by (cases "ip' = ip")
      (auto simp: ResetForUser_def Allow_def block_active_def Let_def split: option.splits)
qed

theorem ResetForUser_selective_witness:
  "fails ''203.0.113.9''
     (ResetForUser 9 ''203.0.113.9'' ''bob'' (run_hits NewRateLimiter [(8, ''203.0.113.9'', ''bob''), (7, ''203.0.113.9'', ''eve'')])) =
   [\<lparr>fr_ts = 7, fr_user = ''eve''\<rparr>]"
proof -
  let ?rl = "run_hits NewRateLimiter [(8, ''203.0.113.9'', ''bob''), (7, ''203.0.113.9'', ''eve'')]"
  have "foreign ''bob'' (fails ''203.0.113.9'' ?rl) = [\<lparr>fr_ts = 7, fr_user = ''eve''\<rparr>]" by code_simp
  with ResetForUser_selective [of "''203.0.113.9''" 9 "''bob''" ?rl] show ?thesis by simp
qed

text \<open>
  the report of blocked addresses is the set of addresses \<open>Allow\<close> refuses at that instant,
  each once, in byte order.
\<close>

theorem GetBlockedIPs_exact:
  assumes "rl_reachable (clk, rl)"
  shows "map bi_ip (GetBlockedIPs now rl) = sorted_list_of_set {ip. \<not> fst (Allow now ip rl)}"
proof -
  have inv: "gm_wf (rl_state rl)" "[] \<notin> gm_keys (rl_state rl)"
    using rl_reachable_inv [OF assms] by (simp_all add: sys_inv_def rl_inv_def)
  let ?bs = "map (\<lambda>(ip, c). \<lparr>bi_ip = ip, bi_blockedUntil = blockedUntil c, bi_failureCount = length (failures c)\<rparr>)
      (filter (\<lambda>(ip, c). block_active now c) (rl_state rl))"
  have ips: "map bi_ip ?bs = map fst (filter (\<lambda>(ip, c). block_active now c) (rl_state rl))"
    by auto
  have "distinct (map bi_ip ?bs)"
    unfolding ips using inv(1) by (simp add: gm_wf_def distinct_map_filter)
  moreover have "set (map bi_ip ?bs) = {ip. \<not> fst (Allow now ip rl)}"
  proof -
    have "ip \<in> fst ` {x \<in> set (rl_state rl). case x of (ip, c) \<Rightarrow> block_active now c} \<longleftrightarrow> \<not> fst (Allow now ip rl)" for ip
      using inv(2)
      by (auto simp: Allow_def image_iff gm_get_iff [OF inv(1), symmetric] gm_get_None [symmetric]
          split: option.splits)
    then show ?thesis unfolding ips by auto
  qed
  moreover have "set (map bi_ip (GetBlockedIPs now rl)) = set (map bi_ip ?bs)"
    by (simp only: GetBlockedIPs_def set_map set_sort)
  moreover have "sorted (map bi_ip (GetBlockedIPs now rl))"
    unfolding GetBlockedIPs_def by (rule sorted_sort_key)
  moreover have "distinct (map bi_ip (GetBlockedIPs now rl))"
    using \<open>distinct (map bi_ip ?bs)\<close> unfolding GetBlockedIPs_def by (simp only: distinct_map set_sort distinct_sort)
  moreover from calculation have "finite {ip. \<not> fst (Allow now ip rl)}" by (metis finite_set)
  ultimately show ?thesis
    by (intro sorted_distinct_set_unique) simp_all
qed

theorem GetBlockedIPs_exact_witness:
  "map bi_ip (GetBlockedIPs 8 (fst (Hit 7 ''203.0.113.9'' [] NewRateLimiter))) =
   sorted_list_of_set {ip. \<not> fst (Allow 8 ip (fst (Hit 7 ''203.0.113.9'' [] NewRateLimiter)))}"
  by (rule GetBlockedIPs_exact [OF reachable_one_hit])

text \<open>
  a blocked address is answered without running the handler. The response is 429 with a
  \<open>Retry-After\<close> between one second and one hour and the message of the tier that blocked it,
  whatever the handler is, and the limiter is left as it was.
\<close>

theorem Middleware_blocked:
  assumes "rl_reachable (clk, rl)" and "clk \<le> now" and "\<not> fst (Allow now (ctx_clientIP ctx) rl)"
  shows "\<exists>secs msg. Middleware now later ctx next rl = (RateLimited secs msg, rl) \<and> 1 \<le> secs \<and> secs \<le> 3600 \<and>
    msg \<in> {''too many attempts, retry after 15 minutes'', ''too many attempts, retry after 1 hour''}"
proof -
  let ?ip = "ctx_clientIP ctx" and ?c = "counter_at (ctx_clientIP ctx) rl"
  have inv: "sys_inv clk rl" using rl_reachable_inv [OF assms(1)] by simp
  have ip: "?ip \<noteq> []" using assms(3) by (auto simp: Allow_def)
  have blk: "block_active now ?c" using assms(3) ip by (simp add: Allow_counter_at split: if_splits)
  have allow: "Allow now ?ip rl = (False, time_sub (blockedUntil ?c) now, blockDuration ?c)"
    using ip blk by (simp add: Allow_counter_at)
  have dur: "blockDuration ?c \<in> {Tier1Block, Tier2Block}"
    using counter_at_ok [of rl ?ip] inv blk by (auto simp: sys_inv_def counter_ok_def block_active_def)
  have "blockedUntil ?c \<le> now + Tier2Block"
    using sys_inv_counter_at [OF inv, of ?ip] assms(2) by (simp add: timely_def)
  then have "time_sub (blockedUntil ?c) now \<le> Tier2Block"
    by (auto simp: time_sub_def min_duration_def tier_defs)
  then have r: "round_second (time_sub (blockedUntil ?c) now) \<le> 3600"
    by (intro round_second_le) (simp add: tier_defs)
  show ?thesis
    using r dur by (auto simp: Middleware_def allow writeRateLimited_def Let_def tier_defs)
qed

definition burst_ctx :: req_ctx where
  "burst_ctx = \<lparr>ctx_clientIP = ''203.0.113.9'', ctx_attemptedUsername = []\<rparr>"

lemma reachable_run_hits:
  "sorted_wrt (\<lambda>a b. fst b \<le> fst a) as \<Longrightarrow> \<forall>a \<in> set as. 0 \<le> fst a \<Longrightarrow>
     rl_reachable (case as of [] \<Rightarrow> 0 | a # _ \<Rightarrow> fst a, run_hits NewRateLimiter as)"
proof (induction as)
  case (Cons a as)
  obtain t ip u where a: "a = (t, ip, u)" by (cases a) auto
  have "(case as of [] \<Rightarrow> 0 | a # _ \<Rightarrow> fst a) \<le> t" using Cons.prems by (auto simp: a split: list.split)
  with Cons show ?case by (auto simp: a intro: rl_reachable.more rl_step.hit)
qed (simp add: rl_reachable.start)

lemma burst_reachable: "rl_reachable (50 * ns_second, run_hits NewRateLimiter burst)"
  using reachable_run_hits [of burst] by (simp add: burst_def ns_defs)

theorem Middleware_blocked_witness:
  "\<exists>secs msg. Middleware (60 * ns_second) (60 * ns_second) burst_ctx (\<lambda>c rl. \<lparr>hr_status = 200, hr_locked = False, hr_limiter = rl\<rparr>)
     (run_hits NewRateLimiter burst) = (RateLimited secs msg, run_hits NewRateLimiter burst) \<and> 1 \<le> secs \<and> secs \<le> 3600 \<and>
    msg \<in> {''too many attempts, retry after 15 minutes'', ''too many attempts, retry after 1 hour''}"
proof (rule Middleware_blocked [OF burst_reachable])
  show "50 * ns_second \<le> 60 * ns_second" by (simp add: ns_defs)
  show "\<not> fst (Allow (60 * ns_second) (ctx_clientIP burst_ctx) (run_hits NewRateLimiter burst))" by code_simp
qed

text \<open>
  A failure counted by the middleware is never forgiven by a login. The middleware reads the
  attempted username from the context it was called with, which no handler can extend; when that
  context carries none (nothing upstream of the middleware sets it), the failure is recorded
  against the empty username, and \<open>ResetForUser\<close> for any real account leaves it in the window.
\<close>

theorem Middleware_failure_not_forgiven:
  assumes "ctx_attemptedUsername ctx = []" and "ctx_clientIP ctx \<noteq> []"
    and "fst (Allow now (ctx_clientIP ctx) rl)" and "counts_as_failure (next ctx rl)" and "user \<noteq> []"
  shows "\<lparr>fr_ts = later, fr_user = []\<rparr> \<in>
    set (fails (ctx_clientIP ctx) (ResetForUser t (ctx_clientIP ctx) user (snd (Middleware now later ctx next rl))))"
proof -
  let ?ip = "ctx_clientIP ctx"
  have "snd (Middleware now later ctx next rl) = fst (Hit later ?ip [] (hr_limiter (next ctx rl)))"
    using assms by (cases "Allow now ?ip rl") (auto simp: Middleware_def Let_def)
  then have "fails ?ip (snd (Middleware now later ctx next rl)) =
      hit_failures later [] (counter_at ?ip (hr_limiter (next ctx rl)))"
    using fails_Hit [OF assms(2)] by simp
  then show ?thesis
    using ResetForUser_selective [OF assms(2)] assms(5) by (simp add: foreign_def hit_failures_def)
qed

theorem Middleware_failure_not_forgiven_witness:
  "\<lparr>fr_ts = 5, fr_user = []\<rparr> \<in>
    set (fails (ctx_clientIP burst_ctx) (ResetForUser 6 (ctx_clientIP burst_ctx) ''alice''
      (snd (Middleware 4 5 burst_ctx (\<lambda>c rl. \<lparr>hr_status = 401, hr_locked = False, hr_limiter = rl\<rparr>) NewRateLimiter))))"
  by (rule Middleware_failure_not_forgiven)
    (simp_all add: burst_ctx_def counts_as_failure_def Allow_def NewRateLimiter_def)

end
