(* ===== verification/RateGate.thy ===== *)
theory RateGate
  imports RateSystem
begin

text \<open>
  Concurrent requests through the rate-limit middleware. \<open>lockIP\<close> of
  \<open>internal/auth/ratelimit.go\<close> serialises the requests of one address with a reference-counted
  mutex that is created on first use and removed with its last user. The model keeps the table of
  gate entries, their reference counts and owners, and one program counter per request, and lets
  the scheduler interleave the atomic sections (each runs under \<open>ipGateMu\<close>, under the entry's own
  mutex, or under the limiter's mutex) in any order. Entries are identified by address, so an entry
  that was removed and an entry created later for the same client are different mutexes.
\<close>

section \<open>The gate and the requests\<close>

datatype pc =
    Idle
  | Waiting string nat
  | Holding string nat
  | Serving string nat time
  | Answered string nat
  | Unlocked string nat

record gsys =
  g_map :: "string \<Rightarrow> nat option"
  g_refs :: "nat \<Rightarrow> nat"
  g_holder :: "nat \<Rightarrow> nat option"
  g_next :: nat
  g_pc :: "nat \<Rightarrow> pc"
  g_rl :: RateLimiter
  g_clk :: time

definition gate_enter :: "nat \<Rightarrow> string \<Rightarrow> gsys \<Rightarrow> gsys" where
  "gate_enter t ip s =
     (case g_map s ip of
        None \<Rightarrow>
          s\<lparr>g_map := (g_map s)(ip := Some (g_next s)), g_refs := (g_refs s)(g_next s := 1),
            g_holder := (g_holder s)(g_next s := None), g_next := Suc (g_next s),
            g_pc := (g_pc s)(t := Waiting ip (g_next s))\<rparr>
      | Some e \<Rightarrow>
          s\<lparr>g_refs := (g_refs s)(e := Suc (g_refs s e)), g_pc := (g_pc s)(t := Waiting ip e)\<rparr>)"

definition gate_lock :: "nat \<Rightarrow> string \<Rightarrow> nat \<Rightarrow> gsys \<Rightarrow> gsys" where
  "gate_lock t ip e s = s\<lparr>g_holder := (g_holder s)(e := Some t), g_pc := (g_pc s)(t := Holding ip e)\<rparr>"

definition gate_unlock :: "nat \<Rightarrow> string \<Rightarrow> nat \<Rightarrow> gsys \<Rightarrow> gsys" where
  "gate_unlock t ip e s = s\<lparr>g_holder := (g_holder s)(e := None), g_pc := (g_pc s)(t := Unlocked ip e)\<rparr>"

definition gate_release :: "nat \<Rightarrow> string \<Rightarrow> nat \<Rightarrow> gsys \<Rightarrow> gsys" where
  "gate_release t ip e s =
     (let s' = s\<lparr>g_refs := (g_refs s)(e := g_refs s e - 1), g_pc := (g_pc s)(t := Idle)\<rparr>
      in if g_refs s' e = 0 then s'\<lparr>g_map := (g_map s')(ip := None)\<rparr> else s')"

text \<open>
  The handler's effect on the limiter while the request is served: a failure is counted with
  \<open>Hit\<close>, a success forgives the account with \<open>ResetForUser\<close>, any other answer leaves it.
\<close>

inductive g_step :: "gsys \<Rightarrow> gsys \<Rightarrow> bool" where
  enter: "g_pc s t = Idle \<Longrightarrow> ip \<noteq> [] \<Longrightarrow> g_step s (gate_enter t ip s)"
| lock: "g_pc s t = Waiting ip e \<Longrightarrow> g_holder s e = None \<Longrightarrow> g_step s (gate_lock t ip e s)"
| admit: "g_pc s t = Holding ip e \<Longrightarrow> fst (Allow (g_clk s) ip (g_rl s)) \<Longrightarrow>
    g_step s (s\<lparr>g_pc := (g_pc s)(t := Serving ip e (g_clk s))\<rparr>)"
| reject: "g_pc s t = Holding ip e \<Longrightarrow> \<not> fst (Allow (g_clk s) ip (g_rl s)) \<Longrightarrow>
    g_step s (s\<lparr>g_pc := (g_pc s)(t := Answered ip e)\<rparr>)"
| fail: "g_pc s t = Serving ip e since \<Longrightarrow>
    g_step s (s\<lparr>g_pc := (g_pc s)(t := Answered ip e), g_rl := fst (Hit (g_clk s) ip user (g_rl s))\<rparr>)"
| succeed: "g_pc s t = Serving ip e since \<Longrightarrow>
    g_step s (s\<lparr>g_pc := (g_pc s)(t := Answered ip e), g_rl := ResetForUser (g_clk s) ip user (g_rl s)\<rparr>)"
| other: "g_pc s t = Serving ip e since \<Longrightarrow> g_step s (s\<lparr>g_pc := (g_pc s)(t := Answered ip e)\<rparr>)"
| unlock: "g_pc s t = Answered ip e \<Longrightarrow> g_step s (gate_unlock t ip e s)"
| release: "g_pc s t = Unlocked ip e \<Longrightarrow> g_step s (gate_release t ip e s)"
| tick: "g_clk s \<le> now \<Longrightarrow> g_step s (s\<lparr>g_clk := now\<rparr>)"
| background: "g_step s (s\<lparr>g_rl := sweep (g_clk s) (g_rl s)\<rparr>)"

definition g_init :: gsys where
  "g_init = \<lparr>g_map = (\<lambda>_. None), g_refs = (\<lambda>_. 0), g_holder = (\<lambda>_. None), g_next = 0,
     g_pc = (\<lambda>_. Idle), g_rl = NewRateLimiter, g_clk = 0\<rparr>"

inductive g_reachable :: "gsys \<Rightarrow> bool" where
  g_start: "g_reachable g_init"
| g_more: "g_reachable s \<Longrightarrow> g_step s s' \<Longrightarrow> g_reachable s'"

section \<open>Invariant\<close>

fun gate_of :: "pc \<Rightarrow> (string \<times> nat) option" where
  "gate_of Idle = None"
| "gate_of (Waiting ip e) = Some (ip, e)"
| "gate_of (Holding ip e) = Some (ip, e)"
| "gate_of (Serving ip e _) = Some (ip, e)"
| "gate_of (Answered ip e) = Some (ip, e)"
| "gate_of (Unlocked ip e) = Some (ip, e)"

fun owns :: "pc \<Rightarrow> nat \<Rightarrow> bool" where
  "owns (Holding _ e) a = (e = a)"
| "owns (Serving _ e _) a = (e = a)"
| "owns (Answered _ e) a = (e = a)"
| "owns _ a = False"

definition users :: "gsys \<Rightarrow> nat \<Rightarrow> nat set" where
  "users s e = {t. \<exists>ip. gate_of (g_pc s t) = Some (ip, e)}"

definition gate_inv :: "gsys \<Rightarrow> bool" where
  "gate_inv s \<longleftrightarrow>
     (\<forall>t ip e. gate_of (g_pc s t) = Some (ip, e) \<longrightarrow> g_map s ip = Some e) \<and>
     (\<forall>ip e. g_map s ip = Some e \<longrightarrow> e < g_next s \<and> 0 < g_refs s e) \<and>
     (\<forall>ip ip' e. g_map s ip = Some e \<longrightarrow> g_map s ip' = Some e \<longrightarrow> ip = ip') \<and>
     (\<forall>e ip. g_map s ip = Some e \<longrightarrow> finite (users s e) \<and> g_refs s e = card (users s e)) \<and>
     (\<forall>e t. g_holder s e = Some t \<longleftrightarrow> owns (g_pc s t) e)"

definition serve_inv :: "gsys \<Rightarrow> bool" where
  "serve_inv s \<longleftrightarrow>
     sys_inv (g_clk s) (g_rl s) \<and>
     (\<forall>t ip e since. g_pc s t = Serving ip e since \<longrightarrow>
        ip \<noteq> [] \<and> since \<le> g_clk s \<and> \<not> block_active since (counter_at ip (g_rl s)))"

lemma gate_invD:
  assumes "gate_inv s"
  shows "gate_of (g_pc s t) = Some (ip, e) \<Longrightarrow> g_map s ip = Some e"
    and "g_map s ip = Some e \<Longrightarrow> e < g_next s"
    and "g_map s ip = Some e \<Longrightarrow> 0 < g_refs s e"
    and "g_map s ip = Some e \<Longrightarrow> g_map s ip' = Some e \<Longrightarrow> ip = ip'"
    and "g_map s ip = Some e \<Longrightarrow> finite (users s e)"
    and "g_map s ip = Some e \<Longrightarrow> g_refs s e = card (users s e)"
    and "g_holder s e = Some t \<longleftrightarrow> owns (g_pc s t) e"
  using assms unfolding gate_inv_def by blast+

lemma owns_gate_of: "owns p e \<Longrightarrow> \<exists>ip. gate_of p = Some (ip, e)"
  by (cases p) auto

text \<open>A step of one request that keeps its entry and its ownership keeps the gate invariant.\<close>

lemma gate_inv_move:
  assumes "gate_inv s" and "gate_of p = gate_of (g_pc s t)" and "\<And>a. owns p a = owns (g_pc s t) a"
    and "g_map s' = g_map s" "g_refs s' = g_refs s" "g_holder s' = g_holder s" "g_next s' = g_next s"
    and "g_pc s' = (g_pc s)(t := p)"
  shows "gate_inv s'"
proof -
  have "gate_of (g_pc s' u) = gate_of (g_pc s u)" "owns (g_pc s' u) a = owns (g_pc s u) a" for u a
    using assms(2,3,8) by simp_all
  moreover from this have "users s' e = users s e" for e by (simp add: users_def)
  ultimately show ?thesis using assms(1,4-7) unfolding gate_inv_def by simp
qed

lemma users_upd:
  "users (s\<lparr>g_pc := (g_pc s)(t := p)\<rparr>) e =
     (if \<exists>ip. gate_of p = Some (ip, e) then insert t (users s e) else users s e - {t})"
  by (auto simp: users_def)


lemma gate_inv_enter:
  assumes inv: "gate_inv s" and idle: "g_pc s t = Idle"
  shows "gate_inv (gate_enter t ip s)"
proof (cases "g_map s ip")
  case None
  let ?n = "g_next s" and ?s = "gate_enter t ip s"
  have s': "g_map ?s = (g_map s)(ip := Some ?n)" "g_refs ?s = (g_refs s)(?n := 1)"
    "g_holder ?s = (g_holder s)(?n := None)" "g_next ?s = Suc ?n" "g_pc ?s = (g_pc s)(t := Waiting ip ?n)"
    using None by (simp_all add: gate_enter_def)
  have fresh: "gate_of (g_pc s u) \<noteq> Some (i, ?n)" "g_map s i \<noteq> Some ?n" for u i
    using gate_invD(1,2) [OF inv] by blast+
  have users': "users ?s e = (if e = ?n then {t} else users s e)" for e
    using fresh(1) idle by (auto simp: users_def s')
  have mapped: "gate_of (g_pc s u) = Some (i, e) \<Longrightarrow> i \<noteq> ip" for u i e
    using gate_invD(1) [OF inv] None by fastforce
  have "\<forall>u i e. gate_of (g_pc ?s u) = Some (i, e) \<longrightarrow> g_map ?s i = Some e"
    using mapped gate_invD(1) [OF inv] by (auto simp: s')
  moreover have "\<forall>i e. g_map ?s i = Some e \<longrightarrow> e < g_next ?s \<and> 0 < g_refs ?s e"
    using gate_invD(2,3) [OF inv] by (auto simp: s' less_Suc_eq)
  moreover have "\<forall>i i' e. g_map ?s i = Some e \<longrightarrow> g_map ?s i' = Some e \<longrightarrow> i = i'"
    using gate_invD(4) [OF inv] fresh(2) by (auto simp: s')
  moreover have "\<forall>e i. g_map ?s i = Some e \<longrightarrow> finite (users ?s e) \<and> g_refs ?s e = card (users ?s e)"
    using gate_invD(5,6) [OF inv] by (auto simp: s' users')
  moreover have "\<not> owns (g_pc s u) ?n" for u using owns_gate_of fresh(1) by blast
  then have "g_holder ?s e = Some u \<longleftrightarrow> owns (g_pc ?s u) e" for e u
    using gate_invD(7) [OF inv, of e u] idle by (cases "e = ?n"; cases "u = t") (simp_all add: s')
  ultimately show ?thesis unfolding gate_inv_def by blast
next
  case (Some e)
  let ?s = "gate_enter t ip s"
  have s': "g_map ?s = g_map s" "g_refs ?s = (g_refs s)(e := Suc (g_refs s e))"
    "g_holder ?s = g_holder s" "g_next ?s = g_next s" "g_pc ?s = (g_pc s)(t := Waiting ip e)"
    using Some by (simp_all add: gate_enter_def)
  have new: "t \<notin> users s a" for a using idle by (simp add: users_def)
  have users': "users ?s a = (if a = e then insert t (users s a) else users s a)" for a
    using idle by (auto simp: users_def s')
  have "\<forall>u i a. gate_of (g_pc ?s u) = Some (i, a) \<longrightarrow> g_map ?s i = Some a"
    using gate_invD(1) [OF inv] Some by (auto simp: s')
  moreover have "\<forall>i a. g_map ?s i = Some a \<longrightarrow> a < g_next ?s \<and> 0 < g_refs ?s a"
    using gate_invD(2,3) [OF inv] by (auto simp: s')
  moreover have "\<forall>i i' a. g_map ?s i = Some a \<longrightarrow> g_map ?s i' = Some a \<longrightarrow> i = i'"
    using gate_invD(4) [OF inv] by (simp add: s')
  moreover have "\<forall>a i. g_map ?s i = Some a \<longrightarrow> finite (users ?s a) \<and> g_refs ?s a = card (users ?s a)"
    using gate_invD(5,6) [OF inv] new by (auto simp: s' users')
  moreover have "\<forall>a u. g_holder ?s a = Some u \<longleftrightarrow> owns (g_pc ?s u) a"
    using gate_invD(7) [OF inv] idle by (auto simp: s')
  ultimately show ?thesis unfolding gate_inv_def by blast
qed

lemma gate_inv_lock:
  assumes inv: "gate_inv s" and w: "g_pc s t = Waiting ip e" and free: "g_holder s e = None"
  shows "gate_inv (gate_lock t ip e s)"
proof -
  let ?s = "gate_lock t ip e s"
  have s': "g_map ?s = g_map s" "g_refs ?s = g_refs s" "g_next ?s = g_next s"
    "g_holder ?s = (g_holder s)(e := Some t)" "g_pc ?s = (g_pc s)(t := Holding ip e)"
    by (simp_all add: gate_lock_def)
  have gate: "gate_of (g_pc ?s u) = gate_of (g_pc s u)" for u using w by (simp add: s')
  then have "users ?s a = users s a" for a by (simp add: users_def)
  moreover have "\<not> owns (g_pc s u) e" for u using gate_invD(7) [OF inv, of e u] free by simp
  then have "\<forall>a u. g_holder ?s a = Some u \<longleftrightarrow> owns (g_pc ?s u) a"
    using gate_invD(7) [OF inv] w by (auto simp: s')
  ultimately show ?thesis using inv gate unfolding gate_inv_def by (simp add: s')
qed

lemma gate_inv_unlock:
  assumes inv: "gate_inv s" and w: "g_pc s t = Answered ip e"
  shows "gate_inv (gate_unlock t ip e s)"
proof -
  let ?s = "gate_unlock t ip e s"
  have s': "g_map ?s = g_map s" "g_refs ?s = g_refs s" "g_next ?s = g_next s"
    "g_holder ?s = (g_holder s)(e := None)" "g_pc ?s = (g_pc s)(t := Unlocked ip e)"
    by (simp_all add: gate_unlock_def)
  have gate: "gate_of (g_pc ?s u) = gate_of (g_pc s u)" for u using w by (simp add: s')
  then have "users ?s a = users s a" for a by (simp add: users_def)
  moreover have own: "g_holder s e = Some t" using gate_invD(7) [OF inv, of e t] w by simp
  then have "owns (g_pc s u) e \<Longrightarrow> u = t" for u using gate_invD(7) [OF inv, of e u] by simp
  then have "\<forall>a u. g_holder ?s a = Some u \<longleftrightarrow> owns (g_pc ?s u) a"
    using gate_invD(7) [OF inv] w by (auto simp: s')
  ultimately show ?thesis using inv gate unfolding gate_inv_def by (simp add: s')
qed

lemma gate_inv_release:
  assumes inv: "gate_inv s" and w: "g_pc s t = Unlocked ip e"
  shows "gate_inv (gate_release t ip e s)"
proof -
  let ?s = "gate_release t ip e s"
  have m: "g_map s ip = Some e" using gate_invD(1) [OF inv, of t ip e] w by simp
  have t: "t \<in> users s e" using w by (simp add: users_def)
  have fin: "finite (users s e)" and refs: "g_refs s e = card (users s e)"
    using gate_invD(5,6) [OF inv m] by auto
  let ?gone = "g_refs s e - 1 = 0"
  have s': "g_refs ?s = (g_refs s)(e := g_refs s e - 1)" "g_holder ?s = g_holder s" "g_next ?s = g_next s"
    "g_pc ?s = (g_pc s)(t := Idle)" "g_map ?s = (if ?gone then (g_map s)(ip := None) else g_map s)"
    by (simp_all add: gate_release_def Let_def)
  have users': "users ?s a = users s a - {t}" for a by (auto simp: users_def s')
  have other: "users s a - {t} = users s a" if "a \<noteq> e" for a using w that by (auto simp: users_def)
  have gone: "users s e = {t}" if "?gone"
  proof -
    have "card (users s e) \<le> Suc 0" using that refs by simp
    with card_le_Suc0_iff_eq [OF fin] t show ?thesis by blast
  qed
  have last: "u = t" if "?gone" "gate_of (g_pc s u) = Some (ip, a)" for u a
  proof -
    have "a = e" using gate_invD(1) [OF inv that(2)] m by simp
    then show ?thesis using gone [OF that(1)] that(2) by (auto simp: users_def)
  qed
  have "\<forall>u i a. gate_of (g_pc ?s u) = Some (i, a) \<longrightarrow> g_map ?s i = Some a"
    using gate_invD(1) [OF inv] last by (auto simp: s')
  moreover have "a < g_next ?s \<and> 0 < g_refs ?s a" if "g_map ?s i = Some a" for i a
  proof -
    have mi: "g_map s i = Some a" and ni: "?gone \<Longrightarrow> i \<noteq> ip" using that by (auto simp: s' split: if_splits)
    show ?thesis
    proof (cases "a = e")
      case True
      with gate_invD(4) [OF inv mi] m ni have "\<not> ?gone" by blast
      then show ?thesis using True gate_invD(2) [OF inv mi] by (simp add: s')
    next
      case False
      with gate_invD(2,3) [OF inv mi] show ?thesis by (simp add: s')
    qed
  qed
  moreover have "\<forall>i i' a. g_map ?s i = Some a \<longrightarrow> g_map ?s i' = Some a \<longrightarrow> i = i'"
    using gate_invD(4) [OF inv] by (auto simp: s' split: if_splits)
  moreover have "\<forall>a i. g_map ?s i = Some a \<longrightarrow> finite (users ?s a) \<and> g_refs ?s a = card (users ?s a)"
    using gate_invD(5,6) [OF inv] other t fin refs by (auto simp: s' users' split: if_splits)
  moreover have "\<forall>a u. g_holder ?s a = Some u \<longleftrightarrow> owns (g_pc ?s u) a"
    using gate_invD(7) [OF inv] w by (auto simp: s')
  ultimately show ?thesis unfolding gate_inv_def by blast
qed


text \<open>Two requests that own the entry of the same address are the same request.\<close>

lemma gate_exclusive:
  assumes "gate_inv s"
    and "gate_of (g_pc s t) = Some (ip, e)" "owns (g_pc s t) e"
    and "gate_of (g_pc s u) = Some (ip, e')" "owns (g_pc s u) e'"
  shows "t = u"
proof -
  have "e = e'" using gate_invD(1) [OF assms(1,2)] gate_invD(1) [OF assms(1,4)] by simp
  then show ?thesis using gate_invD(7) [OF assms(1)] assms(3,5) by (metis option.inject)
qed

lemma g_step_gate_inv: "g_step s s' \<Longrightarrow> gate_inv s \<Longrightarrow> gate_inv s'"
proof (induction rule: g_step.induct)
  case (enter s t ip)
  then show ?case by (simp add: gate_inv_enter)
next
  case (lock s t ip e)
  then show ?case by (simp add: gate_inv_lock)
next
  case (admit s t ip e)
  show ?case by (rule gate_inv_move [of s "Serving ip e (g_clk s)" t]) (use admit in simp_all)
next
  case (reject s t ip e)
  show ?case by (rule gate_inv_move [of s "Answered ip e" t]) (use reject in simp_all)
next
  case (fail s t ip e since user)
  show ?case by (rule gate_inv_move [of s "Answered ip e" t]) (use fail in simp_all)
next
  case (succeed s t ip e since user)
  show ?case by (rule gate_inv_move [of s "Answered ip e" t]) (use succeed in simp_all)
next
  case (other s t ip e since)
  show ?case by (rule gate_inv_move [of s "Answered ip e" t]) (use other in simp_all)
next
  case (unlock s t ip e)
  then show ?case by (simp add: gate_inv_unlock)
next
  case (release s t ip e)
  then show ?case by (simp add: gate_inv_release)
qed (simp_all add: gate_inv_def users_def)

section \<open>Serving requests\<close>

lemma rl_inv_keys: "rl_inv rl \<Longrightarrow> k \<in> gm_keys (rl_state rl) \<Longrightarrow> k \<noteq> []"
  by (auto simp: rl_inv_def)

lemma block_active_mono_counter:
  assumes "rl_inv rl" "ip \<noteq> ip'" "\<not> block_active since (counter_at ip rl)"
  shows "\<not> block_active since (counter_at ip (fst (Hit now ip' user rl)))"
proof (cases "ip' = []")
  case False
  have "gm_get (room ip' rl) ip = gm_get (rl_state rl) ip \<or> gm_get (room ip' rl) ip = None"
    using rl_evict.evict_get [OF _ rl_inv_keys [OF assms(1)], where k = ip] assms(1)
    by (auto simp: room_def rl_inv_def split: option.split)
  then have "counter_at ip (fst (Hit now ip' user rl)) = counter_at ip rl \<or>
      counter_at ip (fst (Hit now ip' user rl)) = new_counter"
    using False assms(2) by (auto simp: Hit_state counter_at_def)
  with assms(3) show ?thesis by (auto simp: block_active_def new_counter_def)
qed (use assms in simp)

lemma block_active_ResetForUser:
  "block_active since (counter_at ip (ResetForUser now ip' user rl)) \<longleftrightarrow> block_active since (counter_at ip rl)"
  by (cases "ip = ip'")
    (auto simp: ResetForUser_def counter_at_def block_active_def new_counter_def Let_def split: option.splits)

lemma block_active_sweep:
  assumes "gm_wf (rl_state rl)" "\<not> block_active since (counter_at ip rl)"
  shows "\<not> block_active since (counter_at ip (sweep now rl))"
  using counter_at_sweep [OF assms(1), of ip now] assms(2) by (auto simp: block_active_def new_counter_def)

lemma sys_inv_tick: "sys_inv clk rl \<Longrightarrow> clk \<le> now \<Longrightarrow> sys_inv now rl"
  using sys_inv_sub by (fastforce simp: sys_inv_def)

lemma sys_inv_sweep: "sys_inv clk rl \<Longrightarrow> sys_inv clk (sweep clk rl)"
  using rl_step_inv [OF rl_step.sweep_tick, of clk clk rl] by simp


lemma serve_inv_other_rl:
  assumes "serve_inv s" and "sys_inv (g_clk s) rl'"
    and "\<And>u i e since. u \<noteq> t \<Longrightarrow> g_pc s u = Serving i e since \<Longrightarrow>
      \<not> block_active since (counter_at i (g_rl s)) \<Longrightarrow> \<not> block_active since (counter_at i rl')"
  shows "serve_inv (s\<lparr>g_pc := (g_pc s)(t := Answered ip e), g_rl := rl'\<rparr>)"
  using assms unfolding serve_inv_def by simp

lemma serve_inv_pc:
  assumes "serve_inv s" "g_clk s' = g_clk s" "g_rl s' = g_rl s"
    and "\<And>u i e since. g_pc s' u = Serving i e since \<Longrightarrow> g_pc s u = Serving i e since"
  shows "serve_inv s'"
  using assms unfolding serve_inv_def by metis

lemma gate_enter_frame:
  "g_clk (gate_enter t ip s) = g_clk s" "g_rl (gate_enter t ip s) = g_rl s"
  "g_pc (gate_enter t ip s) u = Serving i e since \<Longrightarrow> g_pc s u = Serving i e since"
  by (auto simp: gate_enter_def split: option.splits if_splits)

lemma gate_frame:
  "g_clk (gate_lock t ip e s) = g_clk s" "g_rl (gate_lock t ip e s) = g_rl s"
  "g_clk (gate_unlock t ip e s) = g_clk s" "g_rl (gate_unlock t ip e s) = g_rl s"
  "g_clk (gate_release t ip e s) = g_clk s" "g_rl (gate_release t ip e s) = g_rl s"
  by (simp_all add: gate_lock_def gate_unlock_def gate_release_def Let_def)

lemma gate_frame_pc:
  "g_pc (gate_lock t ip e s) u = Serving i a since \<Longrightarrow> g_pc s u = Serving i a since"
  "g_pc (gate_unlock t ip e s) u = Serving i a since \<Longrightarrow> g_pc s u = Serving i a since"
  "g_pc (gate_release t ip e s) u = Serving i a since \<Longrightarrow> g_pc s u = Serving i a since"
  by (auto simp: gate_lock_def gate_unlock_def gate_release_def Let_def split: if_splits)

lemma serve_inv_held_ip:
  assumes "gate_inv s" "g_pc s t = Serving ip e since" "u \<noteq> t" "g_pc s u = Serving i a since'"
  shows "i \<noteq> ip"
  using gate_exclusive [OF assms(1), of t ip e u a] assms(2-4) by auto

definition ip_inv :: "gsys \<Rightarrow> bool" where
  "ip_inv s \<longleftrightarrow> (\<forall>t e. gate_of (g_pc s t) \<noteq> Some ([], e))"

lemma g_step_ip_inv: "g_step s s' \<Longrightarrow> ip_inv s \<Longrightarrow> ip_inv s'"
  by (induction rule: g_step.induct)
    (auto simp: ip_inv_def gate_enter_def gate_lock_def gate_unlock_def gate_release_def Let_def
      split: option.splits if_splits, (metis gate_of.simps)+)

lemma g_step_serve_inv:
  assumes "g_step s s'" "gate_inv s" "ip_inv s" "serve_inv s"
  shows "serve_inv s'"
  using assms
proof (induction rule: g_step.induct)
  case (admit s t ip e)
  have "ip \<noteq> []" using admit(1,4) by (metis gate_of.simps(3) ip_inv_def)
  with admit have "\<not> block_active (g_clk s) (counter_at ip (g_rl s))"
    by (simp add: Allow_counter_at split: if_splits)
  with \<open>ip \<noteq> []\<close> admit(5) show ?case by (auto simp: serve_inv_def)
next
  case (fail s t ip e since user)
  then have inv: "sys_inv (g_clk s) (g_rl s)" by (simp add: serve_inv_def)
  show ?case
  proof (rule serve_inv_other_rl [OF fail(4) sys_inv_Hit [OF inv order_refl]])
    fix u i a since' assume u: "u \<noteq> t" "g_pc s u = Serving i a since'"
      and b: "\<not> block_active since' (counter_at i (g_rl s))"
    have "i \<noteq> ip" by (rule serve_inv_held_ip [OF fail(2,1) u])
    with b inv show "\<not> block_active since' (counter_at i (fst (Hit (g_clk s) ip user (g_rl s))))"
      by (intro block_active_mono_counter) (simp_all add: sys_inv_def)
  qed
next
  case (succeed s t ip e since user)
  then have inv: "sys_inv (g_clk s) (g_rl s)" by (simp add: serve_inv_def)
  show ?case
    by (rule serve_inv_other_rl [OF succeed(4) sys_inv_ResetForUser [OF inv order_refl]])
      (simp add: block_active_ResetForUser)
next
  case (tick s now)
  then show ?case using sys_inv_tick by (fastforce simp: serve_inv_def)
next
  case (background s)
  then have inv: "sys_inv (g_clk s) (g_rl s)" by (simp add: serve_inv_def)
  then have "gm_wf (rl_state (g_rl s))" by (simp add: sys_inv_def rl_inv_def)
  with background(3) sys_inv_sweep [OF inv] block_active_sweep show ?case by (fastforce simp: serve_inv_def)
qed (auto intro: serve_inv_pc [OF _ gate_enter_frame(1,2)] serve_inv_pc [OF _ gate_frame(1,2)]
    serve_inv_pc [OF _ gate_frame(3,4)] serve_inv_pc [OF _ gate_frame(5,6)] serve_inv_pc
    dest: gate_enter_frame(3) gate_frame_pc split: if_splits)


lemma g_reachable_inv: "g_reachable s \<Longrightarrow> gate_inv s \<and> ip_inv s \<and> serve_inv s"
proof (induction rule: g_reachable.induct)
  case g_start
  show ?case
    using rl_inv_New
    by (simp add: g_init_def gate_inv_def ip_inv_def serve_inv_def sys_inv_def) (simp add: NewRateLimiter_def)
next
  case (g_more s s')
  then show ?case using g_step_gate_inv g_step_ip_inv g_step_serve_inv by blast
qed

section \<open>Properties\<close>

text \<open>
  C25: at most one request per address is between its admission check and its verdict. However
  the scheduler interleaves any number of concurrent requests, the removal and re-creation of the
  gate entries included, two requests of the same client address are never served at the same time.
\<close>

theorem one_attempt_per_ip:
  assumes "g_reachable s" and "g_pc s t = Serving ip e since" and "g_pc s u = Serving ip e' since'"
  shows "t = u"
proof (rule gate_exclusive)
  show "gate_inv s" using g_reachable_inv [OF assms(1)] by blast
  show "gate_of (g_pc s t) = Some (ip, e)" "owns (g_pc s t) e" using assms(2) by simp_all
  show "gate_of (g_pc s u) = Some (ip, e')" "owns (g_pc s u) e'" using assms(3) by simp_all
qed

definition g_one :: gsys where
  "g_one = g_init\<lparr>g_map := (g_map g_init)(''203.0.113.9'' := Some 0), g_refs := (g_refs g_init)(0 := 1),
     g_holder := (g_holder g_init)(0 := None, 0 := Some 3), g_next := 1,
     g_pc := (g_pc g_init)(3 := Waiting ''203.0.113.9'' 0, 3 := Holding ''203.0.113.9'' 0,
                           3 := Serving ''203.0.113.9'' 0 0)\<rparr>"

lemma g_one_reachable: "g_reachable g_one"
proof -
  let ?ip = "''203.0.113.9''"
  have 1: "g_reachable (gate_enter 3 ?ip g_init)"
    by (rule g_more [OF g_start]) (rule g_step.enter, simp_all add: g_init_def)
  have 2: "g_reachable (gate_lock 3 ?ip 0 (gate_enter 3 ?ip g_init))"
    by (rule g_more [OF 1]) (rule g_step.lock, simp_all add: gate_enter_def g_init_def)
  let ?s = "gate_lock 3 ?ip 0 (gate_enter 3 ?ip g_init)"
  have "g_reachable (?s\<lparr>g_pc := (g_pc ?s)(3 := Serving ?ip 0 (g_clk ?s))\<rparr>)"
    by (rule g_more [OF 2], rule g_step.admit)
      (simp_all add: gate_enter_def gate_lock_def g_init_def Allow_def NewRateLimiter_def)
  then show ?thesis by (simp add: g_one_def gate_enter_def gate_lock_def g_init_def)
qed

theorem one_attempt_per_ip_witness:
  "{u. \<exists>e since. g_pc g_one u = Serving ''203.0.113.9'' e since} = {3}"
proof -
  have 3: "g_pc g_one 3 = Serving ''203.0.113.9'' 0 0" by (simp add: g_one_def)
  show ?thesis
  proof (intro set_eqI iffI)
    fix u assume "u \<in> {u. \<exists>e since. g_pc g_one u = Serving ''203.0.113.9'' e since}"
    then obtain e since where "g_pc g_one u = Serving ''203.0.113.9'' e since" by blast
    from one_attempt_per_ip [OF g_one_reachable 3 this] show "u \<in> {3}" by simp
  next
    fix u :: nat assume "u \<in> {3}"
    then show "u \<in> {u. \<exists>e since. g_pc g_one u = Serving ''203.0.113.9'' e since}" using 3 by blast
  qed
qed

text \<open>
  The check-then-count race is closed. While a request is being served, the limiter still
  holds no block against its address that was in force when the request was admitted or that was
  set by another request since: the verdict it was admitted under is the verdict of the current
  state, although other addresses fail, entries are evicted and the sweep runs meanwhile.
\<close>

theorem admission_still_valid:
  assumes "g_reachable s" and "g_pc s t = Serving ip e since"
  shows "Allow since ip (g_rl s) = (True, 0, 0)"
  using g_reachable_inv [OF assms(1)] assms(2) by (auto simp: serve_inv_def Allow_counter_at)

theorem admission_still_valid_witness: "Allow 0 ''203.0.113.9'' (g_rl g_one) = (True, 0, 0)"
  by (rule admission_still_valid [OF g_one_reachable, of 3 _ 0]) (simp add: g_one_def)

text \<open>
  The gate table does not leak. An address with no request in flight has no entry in the
  gate table, whatever requests of other addresses are waiting, being served or leaving.
\<close>

theorem gate_table_no_leak:
  assumes "g_reachable s" and "\<forall>t e. gate_of (g_pc s t) \<noteq> Some (ip, e)"
  shows "g_map s ip = None"
proof (rule ccontr)
  assume "g_map s ip \<noteq> None"
  then obtain e where e: "g_map s ip = Some e" by auto
  have inv: "gate_inv s" using g_reachable_inv [OF assms(1)] by blast
  have "users s e = {}"
    using assms(2) gate_invD(1,4) [OF inv] e by (auto simp: users_def) metis
  with gate_invD(3,6) [OF inv e] show False by simp
qed

theorem gate_table_no_leak_witness: "g_map g_one ''203.0.113.10'' = None"
  by (rule gate_table_no_leak [OF g_one_reachable]) (simp add: g_one_def g_init_def)

end
