(* ===== verification/GoNet.thy ===== *)
theory GoNet
  imports Prelude "HOL-Library.Word"
begin

unbundle bit_operations_syntax

text \<open>
  The functions of Go's standard library \<open>net\<close> (and \<open>net/netip\<close> underneath) that the program
  calls on addresses: \<open>ParseIP\<close>, \<open>ParseCIDR\<close>, \<open>IPNet.Contains\<close>, \<open>SplitHostPort\<close> and
  \<open>JoinHostPort\<close>. An address is the list of its bytes; every failing path of the parsers
  is \<open>None\<close>.
\<close>

type_synonym byte = "8 word"
type_synonym ip = "byte list"

datatype netip_addr = Addr4 ip | Addr6 ip

section \<open>Parsing addresses\<close>

definition is_digit :: "char \<Rightarrow> bool" where
  "is_digit c \<longleftrightarrow> 48 \<le> byte_of c \<and> byte_of c \<le> 57"

definition is_hex :: "char \<Rightarrow> bool" where
  "is_hex c \<longleftrightarrow> is_digit c \<or> 97 \<le> byte_of c \<and> byte_of c \<le> 102 \<or> 65 \<le> byte_of c \<and> byte_of c \<le> 70"

definition hex_value :: "char \<Rightarrow> nat" where
  "hex_value c =
     (if is_digit c then byte_of c - 48
      else if 97 \<le> byte_of c then byte_of c - 97 + 10
      else byte_of c - 65 + 10)"

text \<open>\<open>netip.parseIPv4Fields\<close>: the octet being read, its digits so far, the octets before it.\<close>

fun parseIPv4Fields :: "nat \<Rightarrow> nat \<Rightarrow> nat list \<Rightarrow> string \<Rightarrow> nat list option" where
  "parseIPv4Fields val digLen fs [] = (if length fs < 3 then None else Some (fs @ [val]))"
| "parseIPv4Fields val digLen fs (c # cs) =
     (if is_digit c then
        (if digLen = 1 \<and> val = 0 then None
         else let v = val * 10 + (byte_of c - 48)
              in if v > 255 then None else parseIPv4Fields v (Suc digLen) fs cs)
      else if c = CHR ''.'' then
        (if digLen = 0 \<or> cs = [] then None
         else if length fs = 3 then None
         else parseIPv4Fields 0 0 (fs @ [val]) cs)
      else None)"

definition parseIPv4 :: "string \<Rightarrow> netip_addr option" where
  "parseIPv4 s = map_option (\<lambda>fs. Addr4 (map of_nat fs)) (parseIPv4Fields 0 0 [] s)"

definition hex_group :: "string \<Rightarrow> nat" where
  "hex_group g = foldl (\<lambda>acc c. 16 * acc + hex_value c) 0 g"

text \<open>
  The loop of \<open>netip.parseIPv6\<close>: the position of the ellipsis, the bytes read, the rest of the
  string. It yields the three at the loop's end.
\<close>

function parseIPv6_loop ::
    "nat option \<Rightarrow> nat list \<Rightarrow> string \<Rightarrow> (nat option \<times> nat list \<times> string) option" where
  "parseIPv6_loop ell bs s =
     (if length bs \<ge> 16 then Some (ell, bs, s)
      else
        let g = takeWhile is_hex s; rest = dropWhile is_hex s;
            bs' = bs @ [hex_group g div 256, hex_group g mod 256]
        in if g = [] \<or> length g > 4 then None
           else case rest of
             [] \<Rightarrow> Some (ell, bs', [])
           | c # cs \<Rightarrow>
               if c = CHR ''.'' then
                 (if ell = None \<and> length bs \<noteq> 12 \<or> length bs + 4 > 16 then None
                  else case parseIPv4Fields 0 0 [] s of
                         None \<Rightarrow> None | Some fs \<Rightarrow> Some (ell, bs @ fs, []))
               else if c \<noteq> CHR '':'' then None
               else case cs of
                 [] \<Rightarrow> None
               | d # ds \<Rightarrow>
                   if d = CHR '':'' then
                     (if ell \<noteq> None then None
                      else if ds = [] then Some (Some (length bs'), bs', [])
                      else parseIPv6_loop (Some (length bs')) bs' ds)
                   else parseIPv6_loop ell bs' cs)"
  by pat_completeness auto
termination
proof (relation "measure (\<lambda>(ell, bs, s). length s)", goal_cases)
  case (2 ell bs s g rest bs' c cs d ds)
  then have "length (c # cs) \<le> length s" by (metis length_dropWhile_le)
  with 2 show ?case by simp
next
  case (3 ell bs s g rest bs' c cs d ds)
  then have "length (c # cs) \<le> length s" by (metis length_dropWhile_le)
  with 3 show ?case by simp
qed auto

declare parseIPv6_loop.simps [simp del]

definition expand_ellipsis :: "nat option \<times> nat list \<times> string \<Rightarrow> nat list option" where
  "expand_ellipsis = (\<lambda>(ell, bs, s).
     if s \<noteq> [] then None
     else if length bs < 16 then
       (case ell of
          None \<Rightarrow> None
        | Some e \<Rightarrow> Some (take e bs @ replicate (16 - length bs) 0 @ drop e bs))
     else if ell \<noteq> None then None
     else Some bs)"

text \<open>
  \<open>netip.parseIPv6\<close> without a zone: every caller modelled here refuses an address with a
  zone, so a percent sign anywhere is a failure.
\<close>

definition parseIPv6 :: "string \<Rightarrow> netip_addr option" where
  "parseIPv6 s =
     (if CHR ''%'' \<in> set s then None
      else if hasPrefix s ''::'' then
        (if length s = 2 then Some (Addr6 (replicate 16 0))
         else map_option (\<lambda>bs. Addr6 (map of_nat bs))
                (Option.bind (parseIPv6_loop (Some 0) [] (drop 2 s)) expand_ellipsis))
      else map_option (\<lambda>bs. Addr6 (map of_nat bs))
             (Option.bind (parseIPv6_loop None [] s) expand_ellipsis))"

fun parseAddr_scan :: "string \<Rightarrow> string \<Rightarrow> netip_addr option" where
  "parseAddr_scan s [] = None"
| "parseAddr_scan s (c # cs) =
     (if c = CHR ''.'' then parseIPv4 s
      else if c = CHR '':'' then parseIPv6 s
      else if c = CHR ''%'' then None
      else parseAddr_scan s cs)"

definition parseAddr :: "string \<Rightarrow> netip_addr option" where
  "parseAddr s = parseAddr_scan s s"

definition v4InV6Prefix :: ip where
  "v4InV6Prefix = replicate 10 0 @ [255, 255]"

fun as16 :: "netip_addr \<Rightarrow> ip" where
  "as16 (Addr4 bs) = v4InV6Prefix @ bs"
| "as16 (Addr6 bs) = bs"

text \<open>\<open>net.ParseIP\<close> yields the 16-byte form.\<close>

definition parseIP :: "string \<Rightarrow> ip option" where
  "parseIP s = map_option as16 (parseAddr s)"

definition to4 :: "ip \<Rightarrow> ip option" where
  "to4 ip =
     (if length ip = 4 then Some ip
      else if length ip = 16 \<and> take 12 ip = v4InV6Prefix then Some (drop 12 ip)
      else None)"

section \<open>Networks\<close>

record ipnet =
  net_ip :: ip
  net_mask :: ip

fun cidrMask_bytes :: "nat \<Rightarrow> nat \<Rightarrow> ip" where
  "cidrMask_bytes n 0 = []"
| "cidrMask_bytes n (Suc l) =
     (if 8 \<le> n then 255 # cidrMask_bytes (n - 8) l
      else NOT (drop_bit n (255 :: byte)) # cidrMask_bytes 0 l)"

definition bitLen :: "netip_addr \<Rightarrow> nat" where
  "bitLen a = (case a of Addr4 _ \<Rightarrow> 32 | Addr6 _ \<Rightarrow> 128)"

text \<open>\<open>dtoi\<close> on the whole mask string; numbers from 16777215 on are refused.\<close>

definition dtoi :: "string \<Rightarrow> int option" where
  "dtoi s =
     (if s = [] \<or> (\<exists>c \<in> set s. \<not> is_digit c) then None
      else let n = foldl (\<lambda>n c. 10 * n + (int (byte_of c) - 48)) 0 s
           in if n \<ge> 16777215 then None else Some n)"

definition ip_mask :: "ip \<Rightarrow> ip \<Rightarrow> ip" where
  "ip_mask ip m =
     (let ip' = (if length m = 4 \<and> length ip = 16 \<and> take 12 ip = v4InV6Prefix then drop 12 ip else ip)
      in map2 (AND) ip' m)"

definition cut_at :: "char \<Rightarrow> string \<Rightarrow> (string \<times> string) option" where
  "cut_at c s = map_option (\<lambda>i. (take i s, drop (Suc i) s)) (indexByte s c)"

definition parseCIDR :: "string \<Rightarrow> ipnet option" where
  "parseCIDR s =
     (case cut_at CHR ''/'' s of
        None \<Rightarrow> None
      | Some (addr, msk) \<Rightarrow>
          (case parseAddr addr of
             None \<Rightarrow> None
           | Some a \<Rightarrow>
               (case dtoi msk of
                  None \<Rightarrow> None
                | Some n \<Rightarrow>
                    if n > int (bitLen a) then None
                    else let m = cidrMask_bytes (nat n) (bitLen a div 8)
                         in Some \<lparr>net_ip = ip_mask (as16 a) m, net_mask = m\<rparr>)))"

definition ipnet_contains :: "ipnet \<Rightarrow> ip \<Rightarrow> bool" where
  "ipnet_contains n ip =
     (let nn = (case to4 (net_ip n) of Some x \<Rightarrow> x | None \<Rightarrow> net_ip n);
          m = (if length nn = 4 \<and> length (net_mask n) = 16 then drop 12 (net_mask n) else net_mask n);
          x = (case to4 ip of Some x \<Rightarrow> x | None \<Rightarrow> ip)
      in length x = length nn \<and> map2 (AND) nn m = map2 (AND) x m)"

section \<open>Host and port\<close>

definition splitHostPort :: "string \<Rightarrow> (string \<times> string) option" where
  "splitHostPort hp =
     (case lastIndexByte hp CHR '':'' of
        None \<Rightarrow> None
      | Some i \<Rightarrow>
          if hd hp = CHR ''['' then
            (case indexByte hp CHR '']'' of
               None \<Rightarrow> None
             | Some e \<Rightarrow>
                 if Suc e \<noteq> i then None
                 else if CHR ''['' \<in> set (drop 1 hp) \<or> CHR '']'' \<in> set (drop (Suc e) hp) then None
                 else Some (take (e - 1) (drop 1 hp), drop (Suc i) hp))
          else if CHR '':'' \<in> set (take i hp) then None
          else if CHR ''['' \<in> set hp \<or> CHR '']'' \<in> set hp then None
          else Some (take i hp, drop (Suc i) hp))"

definition joinHostPort :: "string \<Rightarrow> string \<Rightarrow> string" where
  "joinHostPort host port =
     (if CHR '':'' \<in> set host then ''['' @ host @ '']:'' @ port else host @ '':'' @ port)"

section \<open>Facts\<close>

lemma parseIPv4Fields_length: "parseIPv4Fields v d fs s = Some r \<Longrightarrow> length fs \<le> 3 \<Longrightarrow> length r = 4"
  by (induction v d fs s rule: parseIPv4Fields.induct) (auto split: if_splits simp: Let_def)

lemma parseAddr_scan_cases:
  assumes "parseAddr_scan s t = Some a"
  shows "parseIPv4 s = Some a \<or> parseIPv6 s = Some a"
  using assms by (induction s t rule: parseAddr_scan.induct) (auto split: if_splits)

lemma length_v4InV6Prefix [simp]: "length v4InV6Prefix = 12"
  by (simp add: v4InV6Prefix_def)

lemma to4_as16_Addr4 [simp]: "length bs = 4 \<Longrightarrow> to4 (v4InV6Prefix @ bs) = Some bs"
  by (simp add: to4_def)

text \<open>Joining a host and a port and splitting the result gives them back.\<close>

lemma indexByte_append_notin:
  "c \<notin> set s \<Longrightarrow> indexByte (s @ c # t) c = Some (length s)"
  by (induction s) auto

lemma lastIndexByte_append_notin:
  assumes "c \<notin> set t"
  shows "lastIndexByte (s @ c # t) c = Some (length s)"
  using assms indexByte_append_notin [of c "rev t" "rev s"] by (simp add: lastIndexByte_def)

lemma split_join_HostPort:
  assumes "CHR ''['' \<notin> set host" "CHR '']'' \<notin> set host"
    and "CHR '':'' \<notin> set port" "CHR ''['' \<notin> set port" "CHR '']'' \<notin> set port"
  shows "splitHostPort (joinHostPort host port) = Some (host, port)"
proof (cases "CHR '':'' \<in> set host")
  case True
  have l: "lastIndexByte (CHR ''['' # host @ CHR '']'' # CHR '':'' # port) CHR '':'' =
      Some (length host + 2)"
    using lastIndexByte_append_notin [OF assms(3), of "CHR ''['' # host @ [CHR '']'']"] by simp
  have i: "indexByte (host @ CHR '']'' # CHR '':'' # port) CHR '']'' = Some (length host)"
    by (rule indexByte_append_notin [OF assms(2)])
  show ?thesis
    using True assms by (simp add: joinHostPort_def splitHostPort_def l i)
next
  case False
  have l: "lastIndexByte (host @ CHR '':'' # port) CHR '':'' = Some (length host)"
    by (rule lastIndexByte_append_notin [OF assms(3)])
  have "hd (host @ CHR '':'' # port) \<noteq> CHR ''[''"
    using assms(1) by (cases host) auto
  with False assms show ?thesis
    by (simp add: joinHostPort_def splitHostPort_def l)
qed

end
