(* ===== verification/ClientIP.thy ===== *)
theory ClientIP
  imports GoNet
begin

text \<open>
  Client address resolution, \<open>internal/auth/ipextract.go\<close>: which address a request is
  attributed to, given the socket peer, the \<open>X-Forwarded-For\<close> chain and the set of trusted
  networks. The rate limiter, the audit log and the session rows all key on this value.
\<close>

section \<open>Requests and the extractor\<close>

text \<open>
  The headers are the list of name/value pairs in arrival order; \<open>Header.Get\<close> returns the
  first value of a name and the empty string when there is none.
\<close>

record http_request =
  RemoteAddr :: string
  Header :: "(string \<times> string) list"
  TLS :: bool

definition header_get :: "http_request \<Rightarrow> string \<Rightarrow> string" where
  "header_get r k = (case map_of (Header r) k of None \<Rightarrow> [] | Some v \<Rightarrow> v)"

record IPExtractor =
  trustedCIDRs :: "ipnet list"

definition loopbackCIDRs :: "ipnet list" where
  "loopbackCIDRs = List.map_filter parseCIDR [''127.0.0.0/8'', ''::1/128'']"

fun append_cidrs :: "ipnet list \<Rightarrow> string list \<Rightarrow> string + ipnet list" where
  "append_cidrs acc [] = Inr acc"
| "append_cidrs acc (raw # raws) =
     (let raw' = trimSpace raw in
      if raw' = [] then append_cidrs acc raws
      else case parseCIDR raw' of
             None \<Rightarrow> Inl raw'
           | Some n \<Rightarrow> append_cidrs (acc @ [n]) raws)"

text \<open>The error value is the malformed entry the Go error message quotes.\<close>

definition NewIPExtractor :: "string \<Rightarrow> string + IPExtractor" where
  "NewIPExtractor cidrList =
     (let l = trimSpace cidrList in
      if l = [] then Inr \<lparr>trustedCIDRs = loopbackCIDRs\<rparr>
      else case append_cidrs loopbackCIDRs (splitOn CHR '','' l) of
             Inl e \<Rightarrow> Inl e
           | Inr ns \<Rightarrow> Inr \<lparr>trustedCIDRs = ns\<rparr>)"

definition isTrustedIP :: "IPExtractor \<Rightarrow> ip \<Rightarrow> bool" where
  "isTrustedIP e ip = list_ex (\<lambda>cidr. ipnet_contains cidr ip) (trustedCIDRs e)"

section \<open>Resolution\<close>

definition maxXFFChain :: nat where "maxXFFChain = 50"

text \<open>The address of the socket peer: the host part, or the whole string without a port.\<close>

definition peer_host :: "http_request \<Rightarrow> string" where
  "peer_host r = (case splitHostPort (RemoteAddr r) of None \<Rightarrow> RemoteAddr r | Some (h, _) \<Rightarrow> h)"

definition clean_entry :: "string \<Rightarrow> string" where
  "clean_entry s = trimChars ''[]'' (trimSpace s)"

text \<open>The loop over the chain, on the entries from the rightmost to the leftmost.\<close>

fun walk_hops :: "IPExtractor \<Rightarrow> string \<Rightarrow> string list \<Rightarrow> string" where
  "walk_hops e callerIP [] = callerIP"
| "walk_hops e callerIP (x # xs) =
     (let entry = clean_entry x in
      case parseIP entry of
        None \<Rightarrow> callerIP
      | Some ip \<Rightarrow> if isTrustedIP e ip then walk_hops e callerIP xs else entry)"

definition ClientIP :: "IPExtractor \<Rightarrow> http_request \<Rightarrow> string" where
  "ClientIP e r =
     (let callerIP = peer_host r in
      case parseIP callerIP of
        None \<Rightarrow> []
      | Some ip \<Rightarrow>
          if \<not> isTrustedIP e ip then callerIP
          else let xff = header_get r ''X-Forwarded-For'' in
            if xff = [] then callerIP
            else let entries = splitOn CHR '','' xff in
              if length entries > maxXFFChain then callerIP
              else walk_hops e callerIP (rev entries))"

definition callerTrusted :: "IPExtractor \<Rightarrow> http_request \<Rightarrow> bool" where
  "callerTrusted e r = (case parseIP (peer_host r) of None \<Rightarrow> False | Some ip \<Rightarrow> isTrustedIP e ip)"

text \<open>
  \<open>strings.EqualFold\<close> against an ASCII literal: simple case folding maps two non-ASCII code
  points to ASCII letters, U+017F (bytes C5 BF) to s and U+212A (bytes E2 84 AA) to k.
\<close>

fun fold_case :: "string \<Rightarrow> string" where
  "fold_case [] = []"
| "fold_case (a # cs) =
     (if byte_of a = 197 \<and> (case cs of b # _ \<Rightarrow> byte_of b = 191 | _ \<Rightarrow> False) then CHR ''s'' # fold_case (tl cs)
      else if byte_of a = 226 \<and> (case cs of b # c # _ \<Rightarrow> byte_of b = 132 \<and> byte_of c = 170 | _ \<Rightarrow> False)
        then CHR ''k'' # fold_case (tl (tl cs))
      else (if 65 \<le> byte_of a \<and> byte_of a \<le> 90 then char_of (byte_of a + 32) else a) # fold_case cs)"

definition equalFold :: "string \<Rightarrow> string \<Rightarrow> bool" where
  "equalFold s t \<longleftrightarrow> fold_case s = fold_case t"

definition forwardedProtoIsHTTPS :: "http_request \<Rightarrow> bool" where
  "forwardedProtoIsHTTPS r =
     (let xfp = header_get r ''X-Forwarded-Proto'' in
      if xfp = [] then False
      else equalFold (trimSpace (hd (splitOn CHR '','' xfp))) ''https'')"

definition RequestIsSecure :: "IPExtractor \<Rightarrow> http_request \<Rightarrow> bool" where
  "RequestIsSecure e r = (if TLS r then True else callerTrusted e r \<and> forwardedProtoIsHTTPS r)"

text \<open>The two values the middleware stores in the request context.\<close>

definition IPExtractMiddleware :: "IPExtractor \<Rightarrow> http_request \<Rightarrow> string \<times> bool" where
  "IPExtractMiddleware e r = (ClientIP e r, RequestIsSecure e r)"

section \<open>Lemmas\<close>

lemma peer_host_cong: "RemoteAddr r' = RemoteAddr r \<Longrightarrow> peer_host r' = peer_host r"
  unfolding peer_host_def by (simp only:)

text \<open>A hop decides when it is malformed or lies outside the trusted set: the walk stops there.\<close>

definition decisive_hop :: "IPExtractor \<Rightarrow> string \<Rightarrow> bool" where
  "decisive_hop e x = (case parseIP (clean_entry x) of None \<Rightarrow> True | Some ip \<Rightarrow> \<not> isTrustedIP e ip)"

lemma walk_hops_append:
  "list_ex (decisive_hop e) xs \<Longrightarrow> walk_hops e c (xs @ ys) = walk_hops e c xs"
  by (induction xs) (auto simp: decisive_hop_def Let_def split: option.splits)

lemma walk_hops_cases:
  "walk_hops e c xs = c \<or>
   (\<exists>x \<in> set xs. \<exists>ip. walk_hops e c xs = clean_entry x \<and> parseIP (clean_entry x) = Some ip \<and> \<not> isTrustedIP e ip)"
  by (induction xs) (auto simp: Let_def split: option.splits)

lemma append_cidrs_mono: "append_cidrs acc raws = Inr ns \<Longrightarrow> set acc \<subseteq> set ns"
  by (induction acc raws rule: append_cidrs.induct) (auto simp: Let_def split: if_splits option.splits)

lemma append_cidrs_Inl_iff:
  "(\<exists>b. append_cidrs acc raws = Inl b) \<longleftrightarrow>
   (\<exists>raw \<in> set raws. trimSpace raw \<noteq> [] \<and> parseCIDR (trimSpace raw) = None)"
  by (induction acc raws rule: append_cidrs.induct) (auto simp: Let_def split: option.splits)

lemma NewIPExtractor_trusts_loopback_nets:
  "NewIPExtractor l = Inr e \<Longrightarrow> set loopbackCIDRs \<subseteq> set (trustedCIDRs e)"
  by (auto simp: NewIPExtractor_def Let_def split: if_splits sum.splits dest: append_cidrs_mono [THEN subsetD])

lemma loopback_v4_net:
  "parseCIDR ''127.0.0.0/8'' = Some \<lparr>net_ip = [127, 0, 0, 0], net_mask = [255, 0, 0, 0]\<rparr>"
  by code_simp

lemma loopback_v6_net:
  "parseCIDR ''::1/128'' = Some \<lparr>net_ip = replicate 15 0 @ [1], net_mask = replicate 16 255\<rparr>"
  by code_simp

lemma loopbackCIDRs_eq:
  "loopbackCIDRs = [\<lparr>net_ip = [127, 0, 0, 0], net_mask = [255, 0, 0, 0]\<rparr>,
     \<lparr>net_ip = replicate 15 0 @ [1], net_mask = replicate 16 255\<rparr>]"
  by (simp add: loopbackCIDRs_def map_filter_simps loopback_v4_net loopback_v6_net)

lemma loopback_v4_contains:
  "ipnet_contains \<lparr>net_ip = [127, 0, 0, 0], net_mask = [255, 0, 0, 0]\<rparr> (v4InV6Prefix @ [127, b, c, d])"
  by (simp add: ipnet_contains_def to4_def)


section \<open>Properties\<close>

text \<open>
  A caller outside the trusted networks speaks only for itself. Whatever headers it sends,
  the context records the socket peer as the client and the TLS state of the connection as the
  security of the request.
\<close>

theorem untrusted_peer_headers_ignored:
  assumes "parseIP (peer_host r) = Some ip" and "\<not> isTrustedIP e ip"
    and "RemoteAddr r' = RemoteAddr r"
  shows "IPExtractMiddleware e r' = (peer_host r, TLS r')"
proof -
  have p: "peer_host r' = peer_host r" using assms(3) by (rule peer_host_cong)
  then have "ClientIP e r' = peer_host r" using assms(1,2) by (simp add: ClientIP_def)
  moreover have "RequestIsSecure e r' = TLS r'"
    using assms(1,2) p by (simp add: RequestIsSecure_def callerTrusted_def)
  ultimately show ?thesis by (simp add: IPExtractMiddleware_def)
qed

definition forged_request :: http_request where
  "forged_request = \<lparr>RemoteAddr = ''203.0.113.9:40000'',
     Header = [(''X-Forwarded-For'', ''10.0.0.1''), (''X-Forwarded-Proto'', ''https'')], TLS = False\<rparr>"

theorem untrusted_peer_headers_ignored_witness:
  "IPExtractMiddleware \<lparr>trustedCIDRs = loopbackCIDRs\<rparr> forged_request = (''203.0.113.9'', False)"
proof -
  let ?ip = "v4InV6Prefix @ [203, 0, 113, 9]"
  have h: "peer_host forged_request = ''203.0.113.9''" by code_simp
  have tls: "TLS forged_request = False" by (simp add: forged_request_def)
  have p: "parseIP (peer_host forged_request) = Some ?ip" by code_simp
  have t: "\<not> isTrustedIP \<lparr>trustedCIDRs = loopbackCIDRs\<rparr> ?ip" by code_simp
  show ?thesis
    using untrusted_peer_headers_ignored [OF p t refl] by (simp only: h tls)
qed

text \<open>
  C26: a client behind a trusted proxy cannot choose its address by lengthening the chain on the
  left. When the part of \<open>X-Forwarded-For\<close> the proxies vouch for holds one hop outside the trusted
  set (or a malformed one), prepending to it leaves the resolved address unchanged as long as the
  chain has at most \<open>maxXFFChain\<close> (50) entries; a longer chain is ignored, and the address is that of
  the socket peer, the proxy itself.
\<close>

theorem ClientIP_prepend_invariant:
  assumes "list_ex (decisive_hop e) (splitOn CHR '','' vouched)"
    and "header_get r ''X-Forwarded-For'' = vouched" and "vouched \<noteq> []"
    and "RemoteAddr r' = RemoteAddr r"
    and "header_get r' ''X-Forwarded-For'' = forged @ CHR '','' # vouched"
  shows "ClientIP e r' =
    (if length (splitOn CHR '','' (forged @ CHR '','' # vouched)) \<le> maxXFFChain then ClientIP e r
     else if parseIP (peer_host r) = None then [] else peer_host r)"
proof -
  have p: "peer_host r' = peer_host r" using assms(4) by (rule peer_host_cong)
  have s: "splitOn CHR '','' (forged @ CHR '','' # vouched) =
      splitOn CHR '','' forged @ splitOn CHR '','' vouched"
    by (rule splitOn_append)
  have w: "walk_hops e c (rev (splitOn CHR '','' vouched) @ rev (splitOn CHR '','' forged)) =
      walk_hops e c (rev (splitOn CHR '','' vouched))" for c
    by (rule walk_hops_append) (use assms(1) in \<open>auto simp: list_ex_iff\<close>)
  show ?thesis
    using assms(2,3,5) by (auto simp: ClientIP_def p s w Let_def split: option.split)
qed

definition proxied_request :: "string \<Rightarrow> http_request" where
  "proxied_request xff = \<lparr>RemoteAddr = ''127.0.0.1:5000'', Header = [(''X-Forwarded-For'', xff)], TLS = False\<rparr>"

theorem ClientIP_prepend_invariant_witness:
  "ClientIP \<lparr>trustedCIDRs = loopbackCIDRs\<rparr> (proxied_request ''10.0.0.1, 10.0.0.2,203.0.113.9'') =
   ClientIP \<lparr>trustedCIDRs = loopbackCIDRs\<rparr> (proxied_request ''203.0.113.9'')"
proof -
  have "list_ex (decisive_hop \<lparr>trustedCIDRs = loopbackCIDRs\<rparr>) (splitOn CHR '','' ''203.0.113.9'')" by code_simp
  from ClientIP_prepend_invariant [OF this, of "proxied_request ''203.0.113.9''" "proxied_request ''10.0.0.1, 10.0.0.2,203.0.113.9''"
      "''10.0.0.1, 10.0.0.2''"]
  show ?thesis by (simp add: proxied_request_def header_get_def maxXFFChain_def)
qed

text \<open>
  every resolution is accounted for. The result is empty exactly when the socket peer is
  not an address; otherwise it is the peer itself, or an entry of \<open>X-Forwarded-For\<close> that
  parses as an address outside the trusted set and was relayed by a trusted peer.
\<close>

theorem ClientIP_accounted:
  "(ClientIP e r = [] \<and> parseIP (peer_host r) = None) \<or>
   (\<exists>p. parseIP (peer_host r) = Some p \<and>
     (ClientIP e r = peer_host r \<or>
      isTrustedIP e p \<and>
      (\<exists>x \<in> set (splitOn CHR '','' (header_get r ''X-Forwarded-For'')). \<exists>ip.
         ClientIP e r = clean_entry x \<and> parseIP (ClientIP e r) = Some ip \<and> \<not> isTrustedIP e ip)))"
proof (cases "parseIP (peer_host r)")
  case None
  then show ?thesis by (simp add: ClientIP_def)
next
  case (Some p)
  let ?es = "splitOn CHR '','' (header_get r ''X-Forwarded-For'')"
  consider "ClientIP e r = peer_host r"
    | "isTrustedIP e p" "ClientIP e r = walk_hops e (peer_host r) (rev ?es)"
    using Some by (fastforce simp: ClientIP_def Let_def split: if_splits)
  then show ?thesis
  proof cases
    case 1
    with Some show ?thesis by simp
  next
    case 2
    with Some walk_hops_cases [of e "peer_host r" "rev ?es"] show ?thesis by auto
  qed
qed

text \<open>
  the configuration is checked as a whole and never loses the loopback. A trusted-proxy
  list is refused exactly when one of its non-blank entries is not a CIDR, and with any list
  that is accepted every address of 127.0.0.0/8 is a trusted peer.
\<close>

theorem NewIPExtractor_loopback_trusted:
  "((\<exists>bad. NewIPExtractor l = Inl bad) \<longleftrightarrow>
     trimSpace l \<noteq> [] \<and>
     (\<exists>raw \<in> set (splitOn CHR '','' (trimSpace l)). trimSpace raw \<noteq> [] \<and> parseCIDR (trimSpace raw) = None))
   \<and> (NewIPExtractor l = Inr e \<longrightarrow> isTrustedIP e (v4InV6Prefix @ [127, b, c, d]))"
proof (intro conjI impI)
  show "(\<exists>bad. NewIPExtractor l = Inl bad) \<longleftrightarrow>
     trimSpace l \<noteq> [] \<and>
     (\<exists>raw \<in> set (splitOn CHR '','' (trimSpace l)). trimSpace raw \<noteq> [] \<and> parseCIDR (trimSpace raw) = None)"
    using append_cidrs_Inl_iff [of loopbackCIDRs "splitOn CHR '','' (trimSpace l)"]
    by (auto simp: NewIPExtractor_def Let_def split: sum.splits)
next
  assume "NewIPExtractor l = Inr e"
  then have "\<lparr>net_ip = [127, 0, 0, 0], net_mask = [255, 0, 0, 0]\<rparr> \<in> set (trustedCIDRs e)"
    using NewIPExtractor_trusts_loopback_nets by (fastforce simp: loopbackCIDRs_eq)
  then show "isTrustedIP e (v4InV6Prefix @ [127, b, c, d])"
    using loopback_v4_contains by (auto simp: isTrustedIP_def list_ex_iff)
qed

theorem NewIPExtractor_loopback_trusted_witness:
  "isTrustedIP \<lparr>trustedCIDRs = loopbackCIDRs @ [\<lparr>net_ip = [10, 0, 0, 0], net_mask = [255, 0, 0, 0]\<rparr>]\<rparr>
     (v4InV6Prefix @ [127, 0, 0, 53])"
proof -
  have "NewIPExtractor '' 10.0.0.0/8,'' =
      Inr \<lparr>trustedCIDRs = loopbackCIDRs @ [\<lparr>net_ip = [10, 0, 0, 0], net_mask = [255, 0, 0, 0]\<rparr>]\<rparr>"
    by code_simp
  then show ?thesis using NewIPExtractor_loopback_trusted by blast
qed

end
