(* ===== verification/LRU.thy ===== *)
theory LRU
  imports Prelude
begin

text \<open>
  The emit caches of the event sinks: \<open>internal/waf/lru.go\<close>, \<open>internal/throttle/lru.go\<close> and
  \<open>internal/crowdsec/lru.go\<close>. Each keeps a doubly linked list (front is the most recently used
  element) beside an index from key to list element, and decides whether an event is written or
  is a repetition of a recent one.

  The model has the two structures of the code. List elements are cells addressed by a handle
  (the \<open>*list.Element\<close>), \<open>ll\<close> is the chain of handles from the front, \<open>idx\<close> the Go map. The
  pointer structure is then shown to behave as a plain recency list, and the recency list as a
  function of the history of calls.
\<close>

record lruEntry =
  key :: string
  ts :: time

record decisionLRUEntry = lruEntry +
  expiresAt :: time

record 'e emitLRU =
  ll :: "nat list"
  cells :: "nat \<Rightarrow> 'e option"
  idx :: "(string, nat) gomap"
  cap :: int
  ttl :: duration
  fresh :: nat

definition newEmitLRU :: "int \<Rightarrow> duration \<Rightarrow> 'e emitLRU" where
  "newEmitLRU c t = \<lparr>ll = [], cells = (\<lambda>_. None), idx = [], cap = c, ttl = t, fresh = 0\<rparr>"

text \<open>\<open>container/list\<close>: \<open>MoveToFront\<close>, \<open>Remove\<close> and \<open>PushFront\<close>.\<close>

definition moveToFront :: "nat \<Rightarrow> 'e emitLRU \<Rightarrow> 'e emitLRU" where
  "moveToFront h l = l\<lparr>ll := h # remove1 h (ll l)\<rparr>"

definition list_remove :: "nat \<Rightarrow> 'e emitLRU \<Rightarrow> 'e emitLRU" where
  "list_remove h l = l\<lparr>ll := remove1 h (ll l), cells := (cells l)(h := None)\<rparr>"

definition pushFront :: "'e \<Rightarrow> 'e emitLRU \<Rightarrow> nat \<times> 'e emitLRU" where
  "pushFront e l =
     (fresh l, l\<lparr>ll := fresh l # ll l, cells := (cells l)(fresh l := Some e), fresh := Suc (fresh l)\<rparr>)"

definition evictBack :: "('a lruEntry_scheme) emitLRU \<Rightarrow> ('a lruEntry_scheme) emitLRU" where
  "evictBack l =
     (if ll l = [] then l
      else
        let oldest = last (ll l)
        in case cells l oldest of
             None \<Rightarrow> l
           | Some e \<Rightarrow> list_remove oldest (l\<lparr>idx := gm_del (key e) (idx l)\<rparr>))"

text \<open>
  The common part of the three \<open>shouldEmit\<close> functions after the key is built; \<open>x\<close> is the
  remainder of a fresh entry (nothing, or the zero \<open>expiresAt\<close>).
\<close>

definition touch ::
  "time \<Rightarrow> string \<Rightarrow> 'a \<Rightarrow> ('a lruEntry_scheme) emitLRU \<Rightarrow> ('a lruEntry_scheme) emitLRU \<times> bool" where
  "touch now k x l =
     (case gm_get (idx l) k of
        Some h \<Rightarrow>
          (case cells l h of
             None \<Rightarrow> (l, True)
           | Some e \<Rightarrow>
               if time_sub now (ts e) < ttl l
               then (moveToFront h (l\<lparr>cells := (cells l)(h := Some (e\<lparr>ts := now\<rparr>))\<rparr>), False)
               else (moveToFront h (l\<lparr>cells := (cells l)(h := Some (e\<lparr>ts := now\<rparr>))\<rparr>), True))
      | None \<Rightarrow>
          let l1 = (if cap l > 0 \<and> int (length (ll l)) \<ge> cap l then evictBack l else l);
              (h, l2) = pushFront \<lparr>key = k, ts = now, \<dots> = x\<rparr> l1
          in (l2\<lparr>idx := gm_put k h (idx l2)\<rparr>, True))"

definition waf_key :: "string \<Rightarrow> string \<Rightarrow> string \<Rightarrow> string" where
  "waf_key routeID srcIP ruleID = routeID @ [CHR 0x00] @ srcIP @ [CHR 0x00] @ ruleID"

definition waf_shouldEmit ::
  "time \<Rightarrow> string \<Rightarrow> string \<Rightarrow> string \<Rightarrow> lruEntry emitLRU \<Rightarrow> lruEntry emitLRU \<times> bool" where
  "waf_shouldEmit now routeID srcIP ruleID l = touch now (waf_key routeID srcIP ruleID) () l"

definition throttle_key :: "string \<Rightarrow> int \<Rightarrow> string" where
  "throttle_key srcIP tier = srcIP @ [CHR 0x00] @ itoa tier"

definition throttle_shouldEmit ::
  "time \<Rightarrow> string \<Rightarrow> int \<Rightarrow> lruEntry emitLRU \<Rightarrow> lruEntry emitLRU \<times> bool" where
  "throttle_shouldEmit now srcIP tier l = touch now (throttle_key srcIP tier) () l"

definition decision_shouldEmit ::
  "time \<Rightarrow> string \<Rightarrow> decisionLRUEntry emitLRU \<Rightarrow> decisionLRUEntry emitLRU \<times> bool" where
  "decision_shouldEmit now uuid l =
     (if uuid = [] then (l, True) else touch now uuid \<lparr>expiresAt = zero_time\<rparr> l)"

definition setExpiresAt ::
  "string \<Rightarrow> time \<Rightarrow> decisionLRUEntry emitLRU \<Rightarrow> decisionLRUEntry emitLRU" where
  "setExpiresAt uuid t l =
     (if uuid = [] then l
      else case gm_get (idx l) uuid of
             None \<Rightarrow> l
           | Some h \<Rightarrow> l\<lparr>cells := (cells l)(h := map_option (expiresAt_update (\<lambda>_. t)) (cells l h))\<rparr>)"

definition forgetReportingRevocation ::
  "time \<Rightarrow> string \<Rightarrow> decisionLRUEntry emitLRU \<Rightarrow> decisionLRUEntry emitLRU \<times> bool" where
  "forgetReportingRevocation now uuid l =
     (if uuid = [] then (l, False)
      else case gm_get (idx l) uuid of
             None \<Rightarrow> (l, False)
           | Some h \<Rightarrow>
               let revoked = (case cells l h of
                                None \<Rightarrow> False
                              | Some e \<Rightarrow> expiresAt e \<noteq> zero_time \<and> expiresAt e > now)
               in (list_remove h (l\<lparr>idx := gm_del uuid (idx l)\<rparr>), revoked))"

definition forget :: "string \<Rightarrow> 'e emitLRU \<Rightarrow> 'e emitLRU" where
  "forget uuid l =
     (if uuid = [] then l
      else case gm_get (idx l) uuid of
             None \<Rightarrow> l
           | Some h \<Rightarrow> list_remove h (l\<lparr>idx := gm_del uuid (idx l)\<rparr>))"

section \<open>The pointer structure is a recency list\<close>

definition lru_ok :: "('a lruEntry_scheme) emitLRU \<Rightarrow> bool" where
  "lru_ok l \<longleftrightarrow>
     distinct (ll l) \<and> gm_wf (idx l) \<and>
     (\<forall>h \<in> set (ll l). h < fresh l \<and> (\<exists>e. cells l h = Some e \<and> gm_get (idx l) (key e) = Some h)) \<and>
     (\<forall>k h. gm_get (idx l) k = Some h \<longrightarrow> h \<in> set (ll l) \<and> (\<exists>e. cells l h = Some e \<and> key e = k))"

definition entries :: "('a lruEntry_scheme) emitLRU \<Rightarrow> ('a lruEntry_scheme) list" where
  "entries l = map (\<lambda>h. the (cells l h)) (ll l)"

definition without :: "string \<Rightarrow> ('a lruEntry_scheme) list \<Rightarrow> ('a lruEntry_scheme) list" where
  "without k es = filter (\<lambda>e. key e \<noteq> k) es"

definition seek :: "string \<Rightarrow> ('a lruEntry_scheme) list \<Rightarrow> 'a lruEntry_scheme option" where
  "seek k es = find (\<lambda>e. key e = k) es"

text \<open>The reference: a list of entries with distinct keys, most recent first.\<close>

definition ref_touch ::
  "int \<Rightarrow> duration \<Rightarrow> time \<Rightarrow> string \<Rightarrow> 'a \<Rightarrow> ('a lruEntry_scheme) list \<Rightarrow> ('a lruEntry_scheme) list \<times> bool" where
  "ref_touch c w now k x es =
     (case seek k es of
        Some e \<Rightarrow> (e\<lparr>ts := now\<rparr> # without k es, time_sub now (ts e) \<ge> w)
      | None \<Rightarrow> (\<lparr>key = k, ts = now, \<dots> = x\<rparr> # (if c > 0 \<and> int (length es) \<ge> c then butlast es else es), True))"

lemma lru_okD:
  assumes "lru_ok l"
  shows "distinct (ll l)" and "gm_wf (idx l)"
    and "h \<in> set (ll l) \<Longrightarrow> h < fresh l"
    and "h \<in> set (ll l) \<Longrightarrow> \<exists>e. cells l h = Some e \<and> gm_get (idx l) (key e) = Some h"
    and "gm_get (idx l) k = Some h \<Longrightarrow> h \<in> set (ll l) \<and> (\<exists>e. cells l h = Some e \<and> key e = k)"
  using assms unfolding lru_ok_def by blast+

lemma lru_ok_new [simp]: "lru_ok (newEmitLRU c t)"
  and entries_new [simp]: "entries (newEmitLRU c t) = []"
  by (simp_all add: lru_ok_def newEmitLRU_def gm_wf_def entries_def)

lemma length_entries [simp]: "length (entries l) = length (ll l)"
  by (simp add: entries_def)

lemma lru_cell_key_inj:
  assumes ok: "lru_ok l" and "h \<in> set (ll l)" "h' \<in> set (ll l)"
    and "cells l h = Some e" "cells l h' = Some e'" "key e = key e'"
  shows "h = h'"
  using lru_okD(4) [OF ok assms(2)] lru_okD(4) [OF ok assms(3)] assms(4-6) by auto

lemma entries_distinct:
  assumes ok: "lru_ok l"
  shows "distinct (map key (entries l))"
proof -
  have "inj_on (\<lambda>h. key (the (cells l h))) (set (ll l))"
  proof (rule inj_onI)
    fix h h' assume *: "h \<in> set (ll l)" "h' \<in> set (ll l)" "key (the (cells l h)) = key (the (cells l h'))"
    then show "h = h'" using lru_okD(4) [OF ok *(1)] lru_okD(4) [OF ok *(2)] by auto
  qed
  then show ?thesis using lru_okD(1) [OF ok] by (simp add: entries_def distinct_map comp_def)
qed

lemma seek_eq:
  "distinct (map key es) \<Longrightarrow> e \<in> set es \<Longrightarrow> seek (key e) es = Some e"
  by (induction es) (auto simp: seek_def image_iff)

lemma seek_None: "seek k es = None \<longleftrightarrow> k \<notin> key ` set es"
  by (induction es) (auto simp: seek_def)

lemma seek_SomeD: "seek k es = Some e \<Longrightarrow> e \<in> set es \<and> key e = k"
  unfolding seek_def by (auto simp: find_Some_iff)

lemma seek_entries:
  assumes ok: "lru_ok l"
  shows "seek k (entries l) =
    (case gm_get (idx l) k of None \<Rightarrow> None | Some h \<Rightarrow> cells l h)"
proof (cases "gm_get (idx l) k")
  case None
  have "k \<notin> key ` set (entries l)"
  proof
    assume "k \<in> key ` set (entries l)"
    then obtain h where "h \<in> set (ll l)" "k = key (the (cells l h))" by (auto simp: entries_def)
    with lru_okD(4) [OF ok] None show False by fastforce
  qed
  then show ?thesis using None by (simp add: seek_None)
next
  case (Some h)
  then obtain e where h: "h \<in> set (ll l)" "cells l h = Some e" "key e = k" using lru_okD(5) [OF ok] by blast
  then have "e \<in> set (entries l)" by (force simp: entries_def)
  from seek_eq [OF entries_distinct [OF ok] this] h Some show ?thesis by simp
qed

lemma entries_remove1:
  assumes ok: "lru_ok l" and h: "h \<in> set (ll l)" and e: "cells l h = Some e"
  shows "map (\<lambda>a. the (cells l a)) (remove1 h (ll l)) = without (key e) (entries l)"
proof -
  have *: "key (the (cells l a)) = key e \<longleftrightarrow> a = h" if a: "a \<in> set (ll l)" for a
  proof (cases "a = h")
    case False
    obtain e' where e': "cells l a = Some e'" using lru_okD(4) [OF ok a] by blast
    have "key e' \<noteq> key e" using lru_cell_key_inj [OF ok a h e' e] False by blast
    with e' False show ?thesis by simp
  qed (simp add: e)
  have "remove1 h (ll l) = filter (\<lambda>a. h \<noteq> a) (ll l)"
    by (simp add: distinct_remove1_removeAll [OF lru_okD(1) [OF ok]] removeAll_filter_not_eq)
  also have "\<dots> = filter (\<lambda>a. key (the (cells l a)) \<noteq> key e) (ll l)"
    by (rule filter_cong) (use * in auto)
  finally show ?thesis by (simp only: without_def entries_def filter_map comp_def)
qed

lemma moveToFront_ok:
  fixes now :: time
  assumes ok: "lru_ok l" and k: "gm_get (idx l) k = Some h" and e: "cells l h = Some e"
  defines "l' \<equiv> moveToFront h (l\<lparr>cells := (cells l)(h := Some (e\<lparr>ts := now\<rparr>))\<rparr>)"
  shows "lru_ok l'" and "entries l' = e\<lparr>ts := now\<rparr> # without k (entries l)"
proof -
  have h: "h \<in> set (ll l)" "key e = k" using lru_okD(5) [OF ok k] e by auto
  have d: "distinct (ll l)" by (rule lru_okD(1) [OF ok])
  have set': "set (h # remove1 h (ll l)) = set (ll l)" using d h by (auto simp: set_remove1_eq)
  have l': "ll l' = h # remove1 h (ll l)" "cells l' = (cells l)(h := Some (e\<lparr>ts := now\<rparr>))" "idx l' = idx l"
    "fresh l' = fresh l" by (simp_all add: l'_def moveToFront_def)
  have ex: "\<exists>e'. cells l' a = Some e' \<and> gm_get (idx l') (key e') = Some a" if "a \<in> set (ll l)" for a
    using lru_okD(4) [OF ok that] k h by (cases "a = h") (auto simp: l')
  have "a < fresh l' \<and> (\<exists>e'. cells l' a = Some e' \<and> gm_get (idx l') (key e') = Some a)" if "a \<in> set (ll l')" for a
    using that ex lru_okD(3) [OF ok] set' unfolding l' by blast
  moreover have "a \<in> set (ll l') \<and> (\<exists>e'. cells l' a = Some e' \<and> key e' = j)" if "gm_get (idx l') j = Some a" for j a
    using lru_okD(5) [OF ok, of j a] that h e set' by (cases "a = h") (auto simp: l')
  ultimately show "lru_ok l'" using d h lru_okD(2) [OF ok] unfolding lru_ok_def by (simp add: l'(1,3))
  have "map (\<lambda>a. the (cells l' a)) (remove1 h (ll l)) = map (\<lambda>a. the (cells l a)) (remove1 h (ll l))"
    using d by (intro map_cong) (auto simp: l'(2))
  then show "entries l' = e\<lparr>ts := now\<rparr> # without k (entries l)"
    using entries_remove1 [OF ok h(1) e] h(2) by (simp add: entries_def [of l'] l')
qed

lemma list_remove_ok:
  assumes ok: "lru_ok l" and h: "h \<in> set (ll l)" and e: "cells l h = Some e"
  defines "l' \<equiv> list_remove h (l\<lparr>idx := gm_del (key e) (idx l)\<rparr>)"
  shows "lru_ok l'" and "entries l' = without (key e) (entries l)"
    and "gm_get (idx l') (key e) = None" and "length (ll l') = length (ll l) - 1"
    and "set (ll l') \<subseteq> set (ll l)" and "cap l' = cap l" and "ttl l' = ttl l"
proof -
  have d: "distinct (ll l)" by (rule lru_okD(1) [OF ok])
  have set': "set (remove1 h (ll l)) = set (ll l) - {h}" using d by (simp add: set_remove1_eq)
  have l': "ll l' = remove1 h (ll l)" "cells l' = (cells l)(h := None)" "idx l' = gm_del (key e) (idx l)"
    "fresh l' = fresh l" by (simp_all add: l'_def list_remove_def)
  have other: "key e' \<noteq> key e" if "a \<in> set (ll l) - {h}" "cells l a = Some e'" for a e'
    using lru_cell_key_inj [OF ok _ h that(2) e] that(1) by auto
  have "a < fresh l' \<and> (\<exists>e'. cells l' a = Some e' \<and> gm_get (idx l') (key e') = Some a)" if "a \<in> set (ll l')" for a
  proof -
    have a: "a \<in> set (ll l) - {h}" using that set' by (simp add: l')
    then obtain e' where e': "cells l a = Some e'" "gm_get (idx l) (key e') = Some a" using lru_okD(4) [OF ok] by blast
    with a other [OF a e'(1)] lru_okD(3) [OF ok, of a] show ?thesis by (auto simp: l')
  qed
  moreover have "a \<in> set (ll l') \<and> (\<exists>e'. cells l' a = Some e' \<and> key e' = j)" if "gm_get (idx l') j = Some a" for j a
  proof -
    have j: "j \<noteq> key e" "gm_get (idx l) j = Some a" using that by (auto simp: l' split: if_splits)
    then obtain e' where "a \<in> set (ll l)" "cells l a = Some e'" "key e' = j" using lru_okD(5) [OF ok] by blast
    with j(1) e show ?thesis by (auto simp: l' set')
  qed
  ultimately show "lru_ok l'"
    using d lru_okD(2) [OF ok] unfolding lru_ok_def by (simp add: l'(1,3))
  have "map (\<lambda>a. the (cells l' a)) (remove1 h (ll l)) = map (\<lambda>a. the (cells l a)) (remove1 h (ll l))"
    using set' by (intro map_cong) (auto simp: l'(2))
  then show "entries l' = without (key e) (entries l)"
    using entries_remove1 [OF ok h e] by (simp add: entries_def [of l'] l')
  show "gm_get (idx l') (key e) = None" by (simp add: l')
  show "length (ll l') = length (ll l) - 1" using h by (simp add: l' length_remove1)
  show "set (ll l') \<subseteq> set (ll l)" using set' by (auto simp: l')
  show "cap l' = cap l" "ttl l' = ttl l" by (simp_all add: l'_def list_remove_def)
qed

lemma without_last:
  assumes "distinct (map key es)" "es \<noteq> []"
  shows "without (key (last es)) es = butlast es"
proof -
  obtain xs x where es: "es = xs @ [x]" using assms(2) by (cases es rule: rev_cases) auto
  have "key y \<noteq> key x" if "y \<in> set xs" for y
  proof -
    have "key x \<notin> key ` set xs" using assms(1) by (simp add: es)
    with imageI [OF that, of key] show ?thesis by metis
  qed
  then show ?thesis by (simp add: es without_def filter_id_conv)
qed

lemma evictBack_ok:
  assumes ok: "lru_ok l"
  shows "lru_ok (evictBack l)" and "entries (evictBack l) = butlast (entries l)"
    and "gm_get (idx l) k = None \<Longrightarrow> gm_get (idx (evictBack l)) k = None"
    and "cap (evictBack l) = cap l" and "ttl (evictBack l) = ttl l"
proof -
  have *: "lru_ok (evictBack l) \<and> entries (evictBack l) = butlast (entries l) \<and>
      (gm_get (idx l) k = None \<longrightarrow> gm_get (idx (evictBack l)) k = None) \<and>
      cap (evictBack l) = cap l \<and> ttl (evictBack l) = ttl l"
  proof (cases "ll l = []")
    case True
    then show ?thesis using ok by (simp add: evictBack_def entries_def)
  next
    case False
    let ?h = "last (ll l)"
    have h: "?h \<in> set (ll l)" using False by simp
    then obtain e where e: "cells l ?h = Some e" using lru_okD(4) [OF ok] by blast
    have last: "last (entries l) = e" using False e by (simp add: entries_def last_map)
    have ne: "entries l \<noteq> []" using False by (simp add: entries_def)
    have ev: "evictBack l = list_remove ?h (l\<lparr>idx := gm_del (key e) (idx l)\<rparr>)"
      using False e by (simp add: evictBack_def Let_def)
    have "idx (evictBack l) = gm_del (key e) (idx l)" by (simp add: ev list_remove_def)
    with list_remove_ok [OF ok h e] without_last [OF entries_distinct [OF ok] ne] last show ?thesis
      unfolding ev by simp
  qed
  then show "lru_ok (evictBack l)" "entries (evictBack l) = butlast (entries l)"
    "gm_get (idx l) k = None \<Longrightarrow> gm_get (idx (evictBack l)) k = None"
    "cap (evictBack l) = cap l" "ttl (evictBack l) = ttl l" by simp_all
qed

lemma pushFront_ok:
  assumes ok: "lru_ok l" and k: "gm_get (idx l) (key e) = None" and p: "pushFront e l = (h, l2)"
  defines "l' \<equiv> l2\<lparr>idx := gm_put (key e) h (idx l2)\<rparr>"
  shows "lru_ok l'" and "entries l' = e # entries l" and "cap l' = cap l" and "ttl l' = ttl l"
proof -
  have h: "h = fresh l" and l': "ll l' = h # ll l" "cells l' = (cells l)(h := Some e)"
    "idx l' = gm_put (key e) h (idx l)" "fresh l' = Suc h"
    using p by (auto simp: pushFront_def l'_def)
  have nin: "a \<noteq> h" if "a \<in> set (ll l)" for a using lru_okD(3) [OF ok that] h by simp
  have "a < fresh l' \<and> (\<exists>e'. cells l' a = Some e' \<and> gm_get (idx l') (key e') = Some a)" if "a \<in> set (ll l')" for a
  proof (cases "a = h")
    case False
    with that have a: "a \<in> set (ll l)" by (simp add: l')
    then obtain e' where e': "cells l a = Some e'" "gm_get (idx l) (key e') = Some a" using lru_okD(4) [OF ok] by blast
    then have "key e' \<noteq> key e" using k by auto
    with e' False lru_okD(3) [OF ok a] h show ?thesis by (simp add: l')
  qed (simp add: l')
  moreover have "a \<in> set (ll l') \<and> (\<exists>e'. cells l' a = Some e' \<and> key e' = j)" if "gm_get (idx l') j = Some a" for j a
  proof (cases "j = key e")
    case False
    with that have "gm_get (idx l) j = Some a" by (simp add: l')
    with lru_okD(5) [OF ok this] nin [of a] show ?thesis by (auto simp: l')
  qed (use that in \<open>simp add: l'\<close>)
  moreover have "h \<notin> set (ll l)" using nin by blast
  ultimately show "lru_ok l'"
    using lru_okD(1,2) [OF ok] unfolding lru_ok_def by (simp add: l'(1,3))
  have "map (\<lambda>a. the (cells l' a)) (ll l) = map (\<lambda>a. the (cells l a)) (ll l)"
    using nin by (intro map_cong) (auto simp: l'(2))
  then show "entries l' = e # entries l" by (simp add: entries_def l' fun_upd_def)
  show "cap l' = cap l" "ttl l' = ttl l" using p by (auto simp: l'_def pushFront_def)
qed

lemma touch_refines:
  assumes ok: "lru_ok l"
  shows "lru_ok (fst (touch now k x l))"
    and "(entries (fst (touch now k x l)), snd (touch now k x l)) = ref_touch (cap l) (ttl l) now k x (entries l)"
    and "cap (fst (touch now k x l)) = cap l" and "ttl (fst (touch now k x l)) = ttl l"
proof -
  let ?t = "touch now k x l"
  have "lru_ok (fst ?t) \<and> (entries (fst ?t), snd ?t) = ref_touch (cap l) (ttl l) now k x (entries l) \<and>
      cap (fst ?t) = cap l \<and> ttl (fst ?t) = ttl l"
  proof (cases "gm_get (idx l) k")
    case (Some h)
    then obtain e where e: "cells l h = Some e" using lru_okD(5) [OF ok] by blast
    have "seek k (entries l) = Some e" using seek_entries [OF ok] Some e by simp
    moreover have "cap (moveToFront h (l\<lparr>cells := c\<rparr>)) = cap l" "ttl (moveToFront h (l\<lparr>cells := c\<rparr>)) = ttl l" for c
      by (simp_all add: moveToFront_def)
    ultimately show ?thesis using moveToFront_ok [OF ok Some e] Some e by (simp add: touch_def ref_touch_def)
  next
    case None
    let ?l1 = "if cap l > 0 \<and> int (length (ll l)) \<ge> cap l then evictBack l else l"
    let ?e = "\<lparr>key = k, ts = now, \<dots> = x\<rparr>"
    have s: "seek k (entries l) = None" using seek_entries [OF ok] None by simp
    have l1: "lru_ok ?l1" "gm_get (idx ?l1) (key ?e) = None" "cap ?l1 = cap l" "ttl ?l1 = ttl l"
      "entries ?l1 = (if cap l > 0 \<and> int (length (entries l)) \<ge> cap l then butlast (entries l) else entries l)"
      using evictBack_ok [OF ok] ok None by auto
    obtain h l2 where p: "pushFront ?e ?l1 = (h, l2)" by (cases "pushFront ?e ?l1") auto
    have t: "?t = (l2\<lparr>idx := gm_put k h (idx l2)\<rparr>, True)" using None p by (simp add: touch_def Let_def)
    from pushFront_ok [OF l1(1,2) p] l1(3-5) s show ?thesis unfolding t by (simp add: ref_touch_def)
  qed
  then show "lru_ok (fst ?t)" "(entries (fst ?t), snd ?t) = ref_touch (cap l) (ttl l) now k x (entries l)"
    "cap (fst ?t) = cap l" "ttl (fst ?t) = ttl l" by blast+
qed

section \<open>The recency list is a function of the history\<close>

text \<open>
  A history is the list of calls (time and key), the latest first. \<open>recent\<close> keeps the latest call
  of each key, \<open>limit\<close> the first \<open>c\<close> of them when the cache has a cap.
\<close>

type_synonym calls = "(time \<times> string) list"

fun recent :: "calls \<Rightarrow> calls" where
  "recent [] = []"
| "recent ((t, k) # h) = (t, k) # filter (\<lambda>p. snd p \<noteq> k) (recent h)"

definition limit :: "int \<Rightarrow> 'a list \<Rightarrow> 'a list" where
  "limit c xs = (if c > 0 then take (nat c) xs else xs)"

definition spec_emits :: "int \<Rightarrow> duration \<Rightarrow> calls \<Rightarrow> time \<Rightarrow> string \<Rightarrow> bool" where
  "spec_emits c w h now k \<longleftrightarrow>
     (case find (\<lambda>p. snd p = k) (limit c (recent h)) of
        None \<Rightarrow> True
      | Some p \<Rightarrow> time_sub now (fst p) \<ge> w)"

definition stamp :: "('a lruEntry_scheme) \<Rightarrow> time \<times> string" where
  "stamp e = (ts e, key e)"

lemma find_stamp: "find (\<lambda>p. snd p = k) (map stamp es) = map_option stamp (seek k es)"
  by (induction es) (auto simp: seek_def stamp_def)

lemma stamp_without: "map stamp (without k es) = filter (\<lambda>p. snd p \<noteq> k) (map stamp es)"
  by (induction es) (auto simp: without_def stamp_def)

lemma recent_distinct: "distinct (map snd (recent h))"
  by (induction h rule: recent.induct) (auto simp: distinct_map_filter)

lemma filter_take_absent:
  assumes "x \<notin> f ` set (take n xs)" and "m \<le> n"
  shows "take m (filter (\<lambda>p. f p \<noteq> x) xs) = take m xs"
  using assms
proof (induction xs arbitrary: n m)
  case (Cons a xs)
  then show ?case using Cons.IH [of "n - 1" "m - 1"] by (cases n; cases m) auto
qed simp

lemma filter_take_present:
  assumes "distinct (map f xs)" and "x \<in> f ` set (take n xs)"
  shows "take (n - 1) (filter (\<lambda>p. f p \<noteq> x) xs) = filter (\<lambda>p. f p \<noteq> x) (take n xs)"
  using assms
proof (induction xs arbitrary: n)
  case (Cons a xs)
  from Cons.prems(2) obtain n' where n: "n = Suc n'" by (cases n) auto
  show ?case
  proof (cases "f a = x")
    case True
    then have "x \<notin> f ` set xs" using Cons.prems(1) by simp
    then have "\<forall>p \<in> set xs. f p \<noteq> x" by auto
    then have "filter (\<lambda>p. f p \<noteq> x) xs = xs" "filter (\<lambda>p. f p \<noteq> x) (take n' xs) = take n' xs"
      by (simp_all add: filter_id_conv) (meson in_set_takeD)
    with True show ?thesis by (simp add: n)
  next
    case False
    with Cons.prems have x: "x \<in> f ` set (take n' xs)" by (auto simp: n)
    then obtain n'' where n': "n' = Suc n''" by (cases n') auto
    show ?thesis using Cons.IH [of n'] Cons.prems(1) x False by (simp add: n n')
  qed
qed simp

lemma limit_recent_step:
  assumes es: "map stamp es = limit c (recent h)"
  shows "map stamp (fst (ref_touch c w t k x es)) = limit c (recent ((t, k) # h))"
proof (cases "seek k es")
  case (Some e)
  have k: "k \<in> snd ` set (limit c (recent h))"
    using seek_SomeD [OF Some] es [symmetric] by (force simp: stamp_def)
  have "filter (\<lambda>p. snd p \<noteq> k) (limit c (recent h)) =
      (if c > 0 then take (nat c - 1) (filter (\<lambda>p. snd p \<noteq> k) (recent h)) else filter (\<lambda>p. snd p \<noteq> k) (recent h))"
    using k filter_take_present [OF recent_distinct, of k "nat c" h] by (cases "c > 0") (simp_all add: limit_def)
  moreover have "stamp (e\<lparr>ts := t\<rparr>) = (t, k)" using seek_SomeD [OF Some] by (simp add: stamp_def)
  ultimately show ?thesis
    using Some es by (simp add: ref_touch_def stamp_without) (simp add: limit_def take_Cons')
next
  case None
  have k: "k \<notin> snd ` set (limit c (recent h))"
    using None es [symmetric] by (force simp: seek_None stamp_def)
  have len: "length es = length (limit c (recent h))" using es by (metis length_map)
  let ?g = "filter (\<lambda>p. snd p \<noteq> k) (recent h)"
  have kept: "(if c > 0 \<and> int (length es) \<ge> c then butlast (limit c (recent h)) else limit c (recent h)) =
      (if c > 0 then take (nat c - 1) ?g else ?g)"
  proof (cases "c > 0")
    case True
    have "take (nat c - 1) ?g = take (nat c - 1) (recent h)"
      using filter_take_absent [of k snd "nat c" "recent h" "nat c - 1"] k True by (simp add: limit_def)
    moreover have "butlast (take (nat c) (recent h)) = take (nat c - 1) (recent h)" if "int (length es) \<ge> c"
    proof -
      have "nat c \<le> length (recent h)" using that len True by (simp add: limit_def)
      then show ?thesis by (simp add: butlast_take)
    qed
    moreover have "take (nat c) (recent h) = take (nat c - 1) (recent h)" if "int (length es) < c"
      using that len True by (simp add: limit_def min_def split: if_splits)
    ultimately show ?thesis using True by (simp add: limit_def)
  next
    case False
    then have "?g = recent h" using k by (auto simp: limit_def filter_id_conv)
    with False show ?thesis by (simp add: limit_def)
  qed
  have "map stamp (fst (ref_touch c w t k x es)) =
      (t, k) # (if c > 0 \<and> int (length es) \<ge> c then butlast (map stamp es) else map stamp es)"
    using None by (simp add: ref_touch_def stamp_def map_butlast)
  then show ?thesis unfolding es kept by (simp add: limit_def take_Cons')
qed

lemma ref_touch_emits:
  assumes "map stamp es = limit c (recent h)"
  shows "snd (ref_touch c w now k x es) = spec_emits c w h now k"
  using find_stamp [of k es]
  by (auto simp: ref_touch_def spec_emits_def assms stamp_def split: option.splits)

text \<open>The cache after a history of calls, from the empty cache.\<close>

fun run_calls :: "int \<Rightarrow> duration \<Rightarrow> 'a \<Rightarrow> calls \<Rightarrow> ('a lruEntry_scheme) emitLRU" where
  "run_calls c w x [] = newEmitLRU c w"
| "run_calls c w x ((t, k) # h) = fst (touch t k x (run_calls c w x h))"

lemma run_calls_ok:
  "lru_ok (run_calls c w x h) \<and> cap (run_calls c w x h) = c \<and> ttl (run_calls c w x h) = w \<and>
   map stamp (entries (run_calls c w x h)) = limit c (recent h)"
proof (induction h rule: recent.induct)
  case 1
  have "cap (newEmitLRU c w) = c \<and> ttl (newEmitLRU c w) = w" by (simp add: newEmitLRU_def)
  then show ?case by (simp add: limit_def)
next
  case (2 t k h)
  let ?l = "run_calls c w x h"
  have "entries (fst (touch t k x ?l)) = fst (ref_touch c w t k x (entries ?l))"
    using touch_refines(2) [of ?l t k x] 2 by (metis fst_conv)
  then show ?case using 2 touch_refines(1,3,4) [of ?l t k x] limit_recent_step [of "entries ?l" c h w t k x] by simp
qed

lemma touch_emits:
  "snd (touch now k x (run_calls c w x h)) = spec_emits c w h now k"
proof -
  let ?l = "run_calls c w x h"
  have "snd (touch now k x ?l) = snd (ref_touch c w now k x (entries ?l))"
    using touch_refines(2) [of ?l now k x] run_calls_ok [of c w x h] by (metis snd_conv)
  then show ?thesis using ref_touch_emits run_calls_ok by metis
qed

lemma run_calls_bounded: "c > 0 \<Longrightarrow> int (length (ll (run_calls c w x h))) \<le> c"
  using run_calls_ok [of c w x h] by (metis (no_types, lifting) length_entries length_map limit_def length_take
      min.cobounded2 nat_le_iff nat_int zle_int int_nat_eq less_imp_le order.trans)

end
