(* ===== verification/Sinks.thy ===== *)
theory Sinks
  imports LRU RateLimiter "HOL-Library.Word"
begin

text \<open>
  The three asynchronous event sinks: \<open>internal/waf/sink.go\<close>, \<open>internal/throttle/sink.go\<close> and
  \<open>internal/crowdsec/sink.go\<close>. A producer hands an event to a bounded channel; the sink's single
  goroutine takes it out, passes it through the emit cache, buffers it and writes batches through
  an \<open>Inserter\<close>. The inserter is an interface of the code: it is an argument, \<open>None\<close> for the nil
  interface of the degraded mode, otherwise a function on the store it writes to. Counters are
  64-bit words. The last part puts the crowdsec sink in front of the decision table of
  \<open>internal/observability/storage.go\<close>.
\<close>

record ('o, 'e, 'l) Sink =
  lru :: 'l
  inq :: "'o list"
  chanCap :: int
  flushBatchSize :: int
  emitted :: "64 word"
  droppedByChannel :: "64 word"
  suppressedByLRU :: "64 word"
  flushSuccessBatches :: "64 word"
  flushErrBatches :: "64 word"
  flushedEvents :: "64 word"
  pending :: "'e list"

record SinkConfig =
  ChannelBuffer :: int
  FlushBatchSize :: int
  LRUCap :: int
  LRUTTL :: duration

type_synonym ('e, 'db) inserter = "('e list \<Rightarrow> 'db \<Rightarrow> 'db \<times> string option) option"

definition or_default :: "int \<Rightarrow> int \<Rightarrow> int" where
  "or_default d v = (if v \<le> 0 then d else v)"

definition make_sink :: "'l \<Rightarrow> int \<Rightarrow> int \<Rightarrow> ('o, 'e, 'l) Sink" where
  "make_sink l buf batch =
     \<lparr>lru = l, inq = [], chanCap = buf, flushBatchSize = batch, emitted = 0, droppedByChannel = 0,
      suppressedByLRU = 0, flushSuccessBatches = 0, flushErrBatches = 0, flushedEvents = 0, pending = []\<rparr>"

text \<open>\<open>Emit\<close>: the non-blocking send on the buffered channel.\<close>

definition sink_Emit :: "'o \<Rightarrow> ('o, 'e, 'l, 'x) Sink_scheme \<Rightarrow> ('o, 'e, 'l, 'x) Sink_scheme" where
  "sink_Emit x s =
     (if int (length (inq s)) < chanCap s then s\<lparr>inq := inq s @ [x]\<rparr>
      else s\<lparr>droppedByChannel := droppedByChannel s + 1\<rparr>)"

definition flush ::
  "('e, 'db) inserter \<Rightarrow> ('o, 'e, 'l, 'x) Sink_scheme \<Rightarrow> 'db \<Rightarrow> ('o, 'e, 'l, 'x) Sink_scheme \<times> 'db" where
  "flush ins s db =
     (if pending s = [] then (s, db)
      else
        let batch = pending s; s1 = s\<lparr>pending := []\<rparr>
        in case ins of
             None \<Rightarrow> (s1, db)
           | Some write \<Rightarrow>
               (case write batch db of
                  (db', Some err) \<Rightarrow> (s1\<lparr>flushErrBatches := flushErrBatches s1 + 1\<rparr>, db')
                | (db', None) \<Rightarrow>
                    (s1\<lparr>flushSuccessBatches := flushSuccessBatches s1 + 1,
                        flushedEvents := flushedEvents s1 + of_nat (length batch)\<rparr>, db')))"

text \<open>The second half of \<open>absorb\<close>, for an event that passed the emit cache.\<close>

definition admit ::
  "('e, 'db) inserter \<Rightarrow> 'e \<Rightarrow> ('o, 'e, 'l, 'x) Sink_scheme \<Rightarrow> 'db \<Rightarrow> ('o, 'e, 'l, 'x) Sink_scheme \<times> 'db" where
  "admit ins e s db =
     (let s1 = s\<lparr>emitted := emitted s + 1, pending := pending s @ [e]\<rparr>
      in if int (length (pending s1)) \<ge> flushBatchSize s1 then flush ins s1 db else (s1, db))"

text \<open>The emit cache in front of it.\<close>

definition gated ::
  "('l \<Rightarrow> 'l \<times> bool) \<Rightarrow> ('e, 'db) inserter \<Rightarrow> 'e \<Rightarrow> ('o, 'e, 'l, 'x) Sink_scheme \<Rightarrow> 'db \<Rightarrow>
     ('o, 'e, 'l, 'x) Sink_scheme \<times> 'db" where
  "gated gate ins e s db =
     (case gate (lru s) of
        (l', False) \<Rightarrow> (s\<lparr>lru := l', suppressedByLRU := suppressedByLRU s + 1\<rparr>, db)
      | (l', True) \<Rightarrow> admit ins e (s\<lparr>lru := l'\<rparr>) db)"

section \<open>The web application firewall sink\<close>

record waf_Event =
  ev_ID :: int
  ev_Ts :: time
  ev_RouteID :: string
  ev_RuleID :: string
  ev_Category :: string
  ev_Severity :: int
  ev_SrcIP :: string
  ev_RequestMethod :: string
  ev_RequestPath :: string
  ev_PayloadSample :: string
  ev_Action :: string
  ev_StatusCode :: int
  ev_MatchedVar :: string

datatype bump = BumpWafBlocks string | BumpWafDetects string | BumpThrottleBlocks string | BumpCrowdSecDecisions string

type_synonym waf_Sink = "(waf_Event, waf_Event, lruEntry emitLRU) Sink"

definition waf_NewSink :: "SinkConfig \<Rightarrow> waf_Sink" where
  "waf_NewSink cfg =
     make_sink (newEmitLRU (or_default 10000 (LRUCap cfg)) (or_default (60 * ns_second) (LRUTTL cfg)))
       (or_default 1024 (ChannelBuffer cfg)) (or_default 100 (FlushBatchSize cfg))"

definition waf_gate :: "time \<Rightarrow> waf_Event \<Rightarrow> lruEntry emitLRU \<Rightarrow> lruEntry emitLRU \<times> bool" where
  "waf_gate now e = waf_shouldEmit now (ev_RouteID e) (ev_SrcIP e) (ev_RuleID e)"

definition waf_bumps :: "bool \<Rightarrow> waf_Event \<Rightarrow> bump list" where
  "waf_bumps counter e =
     (if \<not> counter then []
      else if ev_Action e = ''BLOCK'' then [BumpWafBlocks (ev_RouteID e)]
      else if ev_Action e = ''DETECT'' then [BumpWafDetects (ev_RouteID e)]
      else [])"

definition waf_absorb ::
  "bool \<Rightarrow> (waf_Event, 'db) inserter \<Rightarrow> time \<Rightarrow> waf_Event \<Rightarrow> waf_Sink \<Rightarrow> 'db \<Rightarrow> bump list \<times> waf_Sink \<times> 'db" where
  "waf_absorb counter ins now e s db = (waf_bumps counter e, gated (waf_gate now e) ins e s db)"

section \<open>The throttle sink\<close>





section \<open>The crowdsec sink\<close>

record Decision =
  UUID :: string
  Ts :: time
  Scope :: string
  Value :: string
  Type :: string
  Scenario :: string
  ExpiresAt :: time
  DurationSeconds :: int

datatype sinkOp = opEmit Decision | opTombstone string

record crowdsec_Sink = "(sinkOp, Decision, decisionLRUEntry emitLRU) Sink" +
  tombstoneCount :: "64 word"

definition crowdsec_NewSink :: "SinkConfig \<Rightarrow> crowdsec_Sink" where
  "crowdsec_NewSink cfg =
     Sink.extend
       (make_sink (newEmitLRU (or_default 50000 (LRUCap cfg)) (or_default ns_hour (LRUTTL cfg)))
          (or_default 16384 (ChannelBuffer cfg)) (or_default 200 (FlushBatchSize cfg)))
       \<lparr>tombstoneCount = 0\<rparr>"

definition crowdsec_Emit :: "Decision \<Rightarrow> crowdsec_Sink \<Rightarrow> crowdsec_Sink" where
  "crowdsec_Emit d s = sink_Emit (opEmit d) s"

definition Tombstone :: "string \<Rightarrow> crowdsec_Sink \<Rightarrow> crowdsec_Sink" where
  "Tombstone uuid s = sink_Emit (opTombstone uuid) s"

definition absorbEmit ::
  "bool \<Rightarrow> (Decision, 'db) inserter \<Rightarrow> time \<Rightarrow> Decision \<Rightarrow> crowdsec_Sink \<Rightarrow> 'db \<Rightarrow>
     bump list \<times> crowdsec_Sink \<times> 'db" where
  "absorbEmit counter ins now d s db =
     (case decision_shouldEmit now (UUID d) (lru s) of
        (l', False) \<Rightarrow> ([], s\<lparr>lru := l', suppressedByLRU := suppressedByLRU s + 1\<rparr>, db)
      | (l', True) \<Rightarrow>
          ((if counter then [BumpCrowdSecDecisions (Value d)] else []),
           admit ins d (s\<lparr>lru := setExpiresAt (UUID d) (ExpiresAt d) l'\<rparr>) db))"

text \<open>
  \<open>absorbTombstone\<close>; \<open>markExpired\<close> is the second method of the inserter. The result carries the
  arguments the registered listener is called with.
\<close>

definition absorbTombstone ::
  "(time \<Rightarrow> string \<Rightarrow> 'db \<Rightarrow> 'db \<times> string option) option \<Rightarrow> bool \<Rightarrow> time \<Rightarrow> string \<Rightarrow> crowdsec_Sink \<Rightarrow> 'db \<Rightarrow>
     (string \<times> bool) option \<times> crowdsec_Sink \<times> 'db" where
  "absorbTombstone markExpired listener now uuid s db =
     (let (l', revoked) = forgetReportingRevocation now uuid (lru s);
          s1 = s\<lparr>lru := l', tombstoneCount := tombstoneCount s + 1\<rparr>;
          db' = (case markExpired of None \<Rightarrow> db | Some f \<Rightarrow> fst (f now uuid db))
      in ((if listener then Some (uuid, revoked) else None), s1, db'))"

text \<open>
  The decision table of \<open>observability.Store\<close> (\<open>None\<close> is a closed store), one row per
  \<open>uuid\<close>. \<open>InsertDecisionEventBatch\<close> is one transaction of upserts that refresh only the expiry
  and the duration of an existing row; \<open>MarkDecisionExpired\<close> updates the row if there is one.
  Times are stored as Unix seconds.
\<close>

record decision_row =
  r_ts :: int
  r_scope :: string
  r_value :: string
  r_type :: string
  r_scenario :: string
  r_expires_at :: int
  r_duration_seconds :: int

type_synonym decision_table = "(string, decision_row) gomap"

definition unix :: "time \<Rightarrow> int" where
  "unix t = t div ns_second - 62135596800"

definition upsert :: "Decision \<Rightarrow> decision_table \<Rightarrow> decision_table" where
  "upsert d tbl =
     (case gm_get tbl (UUID d) of
        None \<Rightarrow> gm_put (UUID d) \<lparr>r_ts = unix (Ts d), r_scope = Scope d, r_value = Value d, r_type = Type d,
                  r_scenario = Scenario d, r_expires_at = unix (ExpiresAt d),
                  r_duration_seconds = DurationSeconds d\<rparr> tbl
      | Some r \<Rightarrow> gm_put (UUID d) (r\<lparr>r_expires_at := unix (ExpiresAt d),
                  r_duration_seconds := DurationSeconds d\<rparr>) tbl)"

definition InsertDecisionEventBatch ::
  "Decision list \<Rightarrow> decision_table option \<Rightarrow> decision_table option \<times> string option" where
  "InsertDecisionEventBatch events db =
     (case db of
        None \<Rightarrow> (None, Some ''observability: store closed'')
      | Some tbl \<Rightarrow> (Some (fold upsert events tbl), None))"

definition MarkDecisionExpired ::
  "time \<Rightarrow> string \<Rightarrow> decision_table option \<Rightarrow> decision_table option \<times> string option" where
  "MarkDecisionExpired now uuid db =
     (case db of
        None \<Rightarrow> (None, Some ''observability: store closed'')
      | Some tbl \<Rightarrow>
          if uuid = [] then (Some tbl, None)
          else case gm_get tbl uuid of
                 None \<Rightarrow> (Some tbl, None)
               | Some r \<Rightarrow> (Some (gm_put uuid (r\<lparr>r_expires_at := unix now\<rparr>) tbl), None))"

section \<open>The contract of an emit cache and what a sink makes of it\<close>

text \<open>
  A sink relies on its cache for one law: after a history of calls the verdict on an event is the
  one of \<open>spec_emits\<close> for the event's key. Under it the sink writes exactly the selected events.
\<close>

fun selected :: "int \<Rightarrow> duration \<Rightarrow> ('e \<Rightarrow> string) \<Rightarrow> calls \<Rightarrow> (time \<times> 'e) list \<Rightarrow> 'e list" where
  "selected c w f h [] = []"
| "selected c w f h ((t, e) # es) =
     (if spec_emits c w h t (f e) then [e] else []) @ selected c w f ((t, f e) # h) es"

text \<open>
  The store of the reference run: an inserter that fails whenever \<open>bad\<close> says so and records, in
  order, every event it was handed, with whether the batch was written.
\<close>

definition recorder :: "('e list \<Rightarrow> (bool \<times> 'e) list \<Rightarrow> bool) \<Rightarrow> ('e, (bool \<times> 'e) list) inserter" where
  "recorder bad = Some (\<lambda>b db. if bad b db then (db @ map (Pair False) b, Some ''insert failed'')
                              else (db @ map (Pair True) b, None))"

definition written :: "(bool \<times> 'e) list \<Rightarrow> 'e list" where
  "written db = map snd (filter fst db)"

lemma flush_recorder:
  assumes "flush (recorder bad) s db = (s', db')"
  shows "pending s' = []" and "map snd db' = map snd db @ pending s"
    and "flushedEvents s' - of_nat (length (written db')) = flushedEvents s - of_nat (length (written db))"
    and "emitted s' = emitted s" and "suppressedByLRU s' = suppressedByLRU s" and "lru s' = lru s"
    and "flushBatchSize s' = flushBatchSize s"
  using assms
  by (auto simp: flush_def recorder_def written_def Let_def comp_def filter_map split: if_splits)

lemma admit_recorder:
  assumes "admit (recorder bad) e s db = (s', db')" and "flushBatchSize s > 0"
  shows "map snd db' @ pending s' = map snd db @ pending s @ [e]"
    and "int (length (pending s')) < flushBatchSize s"
    and "flushedEvents s' - of_nat (length (written db')) = flushedEvents s - of_nat (length (written db))"
    and "emitted s' = emitted s + 1" and "suppressedByLRU s' = suppressedByLRU s" and "lru s' = lru s"
    and "flushBatchSize s' = flushBatchSize s"
proof -
  let ?s = "s\<lparr>emitted := emitted s + 1, pending := pending s @ [e]\<rparr>"
  have "map snd db' @ pending s' = map snd db @ pending s @ [e] \<and> int (length (pending s')) < flushBatchSize s \<and>
    flushedEvents s' - of_nat (length (written db')) = flushedEvents s - of_nat (length (written db)) \<and>
    emitted s' = emitted s + 1 \<and> suppressedByLRU s' = suppressedByLRU s \<and> lru s' = lru s \<and>
    flushBatchSize s' = flushBatchSize s"
  proof (cases "int (length (pending ?s)) \<ge> flushBatchSize s")
    case True
    then have f: "flush (recorder bad) ?s db = (s', db')" using assms(1) by (simp add: admit_def Let_def)
    from flush_recorder [OF f] assms(2) show ?thesis by simp
  next
    case False
    then have "s' = ?s" "db' = db" using assms(1) by (simp_all add: admit_def Let_def)
    with False show ?thesis by simp
  qed
  then show "map snd db' @ pending s' = map snd db @ pending s @ [e]"
    "int (length (pending s')) < flushBatchSize s"
    "flushedEvents s' - of_nat (length (written db')) = flushedEvents s - of_nat (length (written db))"
    "emitted s' = emitted s + 1" "suppressedByLRU s' = suppressedByLRU s" "lru s' = lru s"
    "flushBatchSize s' = flushBatchSize s" by blast+
qed

locale emit_cache =
  fixes gate :: "time \<Rightarrow> 'e \<Rightarrow> 'l \<Rightarrow> 'l \<times> bool"
    and keyof :: "'e \<Rightarrow> string"
    and after :: "int \<Rightarrow> duration \<Rightarrow> calls \<Rightarrow> 'l"
  assumes gate_law: "gate t e (after c w h) = (after c w ((t, keyof e) # h), spec_emits c w h t (keyof e))"
begin

fun run_sink ::
  "('e list \<Rightarrow> (bool \<times> 'e) list \<Rightarrow> bool) \<Rightarrow> (time \<times> 'e) list \<Rightarrow> ('o, 'e, 'l, 'x) Sink_scheme \<Rightarrow>
     (bool \<times> 'e) list \<Rightarrow> ('o, 'e, 'l, 'x) Sink_scheme \<times> (bool \<times> 'e) list" where
  "run_sink bad [] s db = (s, db)"
| "run_sink bad ((t, e) # es) s db =
     (case gated (gate t e) (recorder bad) e s db of (s', db') \<Rightarrow> run_sink bad es s' db')"

lemma run_sink_selected:
  assumes "run_sink bad es s db = (s', db')" and "lru s = after c w h" and "flushBatchSize s > 0"
    and "int (length (pending s)) < flushBatchSize s"
  shows "map snd db' @ pending s' = map snd db @ pending s @ selected c w keyof h es \<and>
    int (length (pending s')) < flushBatchSize s \<and>
    flushedEvents s' - of_nat (length (written db')) = flushedEvents s - of_nat (length (written db)) \<and>
    emitted s' = emitted s + of_nat (length (selected c w keyof h es)) \<and>
    suppressedByLRU s' + of_nat (length (selected c w keyof h es)) = suppressedByLRU s + of_nat (length es)"
  using assms
proof (induction es arbitrary: s db h)
  case (Cons x es)
  obtain t e where x: "x = (t, e)" by fastforce
  obtain s1 db1 where g: "gated (gate t e) (recorder bad) e s db = (s1, db1)" by fastforce
  have run: "run_sink bad es s1 db1 = (s', db')" using Cons.prems(1) g by (simp add: x)
  show ?case
  proof (cases "spec_emits c w h t (keyof e)")
    case True
    let ?s = "s\<lparr>lru := after c w ((t, keyof e) # h)\<rparr>"
    have a: "admit (recorder bad) e ?s db = (s1, db1)"
      using g True gate_law [of t e c w h] Cons.prems(2) by (simp add: gated_def)
    note b = admit_recorder [OF a]
    have "lru s1 = after c w ((t, keyof e) # h)" "flushBatchSize s1 > 0" "int (length (pending s1)) < flushBatchSize s1"
      using b Cons.prems(3) by simp_all
    note ih = Cons.IH [OF run this]
    have "map snd db1 @ pending s1 = map snd db @ pending s @ [e]" using b(1) Cons.prems(3) by simp
    from arg_cong [OF this, of "\<lambda>xs. xs @ zs" for zs]
    have "map snd db1 @ pending s1 @ zs = map snd db @ pending s @ e # zs" for zs by simp
    with ih b(2-) Cons.prems(3) True show ?thesis by (simp add: x algebra_simps)
  next
    case False
    have s1: "s1 = s\<lparr>lru := after c w ((t, keyof e) # h), suppressedByLRU := suppressedByLRU s + 1\<rparr>" "db1 = db"
      using g False gate_law [of t e c w h] Cons.prems(2) by (simp_all add: gated_def)
    then have "lru s1 = after c w ((t, keyof e) # h)" "flushBatchSize s1 > 0" "int (length (pending s1)) < flushBatchSize s1"
      using Cons.prems(3,4) by simp_all
    from Cons.IH [OF run this] False show ?thesis by (simp add: x s1 algebra_simps)
  qed
qed simp

end

lemma touch_pair: "touch t k x (run_calls c w x h) = (run_calls c w x ((t, k) # h), spec_emits c w h t k)"
  by (simp add: prod_eq_iff touch_emits)

definition waf_event_key :: "waf_Event \<Rightarrow> string" where
  "waf_event_key e = waf_key (ev_RouteID e) (ev_SrcIP e) (ev_RuleID e)"


interpretation waf_cache: emit_cache waf_gate waf_event_key "\<lambda>c w. run_calls c w ()"
  by unfold_locales (simp only: waf_gate_def waf_shouldEmit_def waf_event_key_def touch_pair)


section \<open>Runs of the throttle and firewall sinks\<close>


fun run_waf ::
  "(waf_Event list \<Rightarrow> (bool \<times> waf_Event) list \<Rightarrow> bool) \<Rightarrow> (time \<times> waf_Event) list \<Rightarrow> waf_Sink \<Rightarrow>
     (bool \<times> waf_Event) list \<Rightarrow> bump list \<times> waf_Sink \<times> (bool \<times> waf_Event) list" where
  "run_waf bad [] s db = ([], s, db)"
| "run_waf bad ((t, e) # es) s db =
     (case waf_absorb True (recorder bad) t e s db of
        (bs, s', db') \<Rightarrow> (case run_waf bad es s' db' of (bs', r) \<Rightarrow> (bs @ bs', r)))"


lemma run_waf_eq:
  "run_waf bad es s db = (concat (map (\<lambda>p. waf_bumps True (snd p)) es), waf_cache.run_sink bad es s db)"
  by (induction es arbitrary: s db) (auto simp: waf_absorb_def split: prod.splits)

lemma or_default_pos: "0 < d \<Longrightarrow> 0 < or_default d v"
  by (simp add: or_default_def)





lemma waf_sink_exact:
  assumes "run_waf bad es (waf_NewSink cfg) [] = (bs, s', db')"
  shows "map snd db' @ pending s' = selected (or_default 10000 (LRUCap cfg)) (or_default (60 * ns_second) (LRUTTL cfg))
      waf_event_key [] es \<and>
    bs = concat (map (\<lambda>p. waf_bumps True (snd p)) es) \<and>
    int (length (pending s')) < or_default 100 (FlushBatchSize cfg)"
proof -
  let ?s = "waf_NewSink cfg"
  have s: "lru ?s = run_calls (or_default 10000 (LRUCap cfg)) (or_default (60 * ns_second) (LRUTTL cfg)) () []"
    "flushBatchSize ?s = or_default 100 (FlushBatchSize cfg)" "pending ?s = []"
    by (simp_all add: waf_NewSink_def make_sink_def)
  have run: "waf_cache.run_sink bad es ?s [] = (s', db')" and bs: "bs = concat (map (\<lambda>p. waf_bumps True (snd p)) es)"
    using assms(1) by (auto simp: run_waf_eq)
  have pos: "0 < or_default 100 (FlushBatchSize cfg)" by (simp add: or_default_pos)
  from waf_cache.run_sink_selected [OF run s(1)] pos bs show ?thesis by (simp add: s)
qed

text \<open>Distinct triples have distinct keys as long as the first two parts have no NUL byte.\<close>

lemma nul_split:
  assumes "x @ [c] @ y = x' @ [c] @ y'" and "c \<notin> set x" and "c \<notin> set x'"
  shows "x = x' \<and> y = y'"
  using assms
proof (induction x arbitrary: x')
  case Nil
  then show ?case by (cases x') auto
next
  case (Cons a x)
  then show ?case by (cases x') auto
qed

lemma waf_key_inj:
  assumes "waf_key r i u = waf_key r' i' u'" and "CHR 0x00 \<notin> set r \<union> set r' \<union> set i \<union> set i'"
  shows "r = r' \<and> i = i' \<and> u = u'"
proof -
  have a: "r @ [CHR 0x00] @ (i @ [CHR 0x00] @ u) = r' @ [CHR 0x00] @ (i' @ [CHR 0x00] @ u')"
    using assms(1) by (simp add: waf_key_def)
  have "r = r' \<and> i @ [CHR 0x00] @ u = i' @ [CHR 0x00] @ u'" by (rule nul_split [OF a]) (use assms(2) in auto)
  moreover from this have "i = i' \<and> u = u'" by (intro nul_split [of i _ u i' u']) (use assms(2) in auto)
  ultimately show ?thesis by blast
qed

end
