(* ===== verification/Decisions.thy ===== *)
theory Decisions
  imports Sinks
begin

text \<open>
  The crowdsec sink in front of the decision table: what a tombstone does to the emit cache, to
  the listener and to the stored row. The operations are those of \<open>Sinks\<close>.
\<close>

section \<open>The cache entry of a decision\<close>

lemma setExpiresAt_ok:
  assumes ok: "lru_ok l"
  shows "lru_ok (setExpiresAt u t l)" and "idx (setExpiresAt u t l) = idx l"
proof -
  have "lru_ok (setExpiresAt u t l) \<and> idx (setExpiresAt u t l) = idx l"
  proof (cases "u = [] \<or> gm_get (idx l) u = None")
    case True
    then show ?thesis using ok by (auto simp: setExpiresAt_def)
  next
    case False
    then obtain h where h: "gm_get (idx l) u = Some h" "u \<noteq> []" by auto
    let ?l = "setExpiresAt u t l"
    have l: "ll ?l = ll l" "idx ?l = idx l" "fresh ?l = fresh l"
      "cells ?l = (cells l)(h := map_option (expiresAt_update (\<lambda>_. t)) (cells l h))"
      using h by (simp_all add: setExpiresAt_def)
    have cell: "\<exists>e'. cells ?l a = Some e' \<and> key e' = key e" if "cells l a = Some e" for a e
      using that by (cases "a = h") (auto simp: l)
    have "\<exists>e. cells ?l a = Some e \<and> gm_get (idx l) (key e) = Some a" if "a \<in> set (ll l)" for a
      using lru_okD(4) [OF ok that] cell by metis
    moreover have "\<exists>e. cells ?l a = Some e \<and> key e = k" if "gm_get (idx l) k = Some a" for k a
      using lru_okD(5) [OF ok that] cell by metis
    ultimately show ?thesis
      using lru_okD(1,2,3,5) [OF ok] unfolding lru_ok_def by (simp add: l(1-3))
  qed
  then show "lru_ok (setExpiresAt u t l)" "idx (setExpiresAt u t l) = idx l" by simp_all
qed

lemma touch_present:
  assumes ok: "lru_ok l"
  shows "\<exists>h e. gm_get (idx (fst (touch now k x l))) k = Some h \<and> cells (fst (touch now k x l)) h = Some e \<and> ts e = now"
proof -
  let ?l = "fst (touch now k x l)"
  have "entries ?l = fst (ref_touch (cap l) (ttl l) now k x (entries l))"
    using touch_refines(2) [OF ok, of now k x] by (metis fst_conv)
  then have "\<exists>e es. entries ?l = e # es \<and> key e = k \<and> ts e = now"
    by (auto simp: ref_touch_def split: option.splits dest: seek_SomeD)
  then obtain e es where e: "entries ?l = e # es" "key e = k" "ts e = now" by blast
  then have "seek k (entries ?l) = Some e" by (simp add: seek_def)
  with e(3) show ?thesis using seek_entries [OF touch_refines(1) [OF ok]] by (simp split: option.splits)
qed

lemma forget_clears:
  fixes now :: time
  assumes ok: "lru_ok l" and u: "u \<noteq> []"
  defines "l' \<equiv> fst (forgetReportingRevocation now u l)"
  shows "lru_ok l'" and "gm_get (idx l') u = None"
proof -
  have "lru_ok l' \<and> gm_get (idx l') u = None"
  proof (cases "gm_get (idx l) u")
    case None
    then show ?thesis using ok u by (simp add: l'_def forgetReportingRevocation_def)
  next
    case (Some h)
    then obtain e where e: "h \<in> set (ll l)" "cells l h = Some e" "key e = u" using lru_okD(5) [OF ok] by blast
    then show ?thesis using list_remove_ok(1,3) [OF ok e(1,2)] Some u
      by (simp add: l'_def forgetReportingRevocation_def Let_def)
  qed
  then show "lru_ok l'" "gm_get (idx l') u = None" by simp_all
qed

section \<open>The stored row\<close>

lemma upsert_other: "UUID d \<noteq> u \<Longrightarrow> gm_get (upsert d tbl) u = gm_get tbl u"
  by (simp add: upsert_def split: option.splits)

lemma upsert_self: "\<exists>r. gm_get (upsert d tbl) (UUID d) = Some r \<and> r_expires_at r = unix (ExpiresAt d)"
  by (simp add: upsert_def split: option.splits)

lemma fold_upsert_other: "u \<notin> UUID ` set ds \<Longrightarrow> gm_get (fold upsert ds tbl) u = gm_get tbl u"
  by (induction ds arbitrary: tbl) (auto simp: upsert_other)

lemma fold_upsert_last:
  assumes "UUID d \<notin> UUID ` set ys"
  shows "\<exists>r. gm_get (fold upsert (xs @ d # ys) tbl) (UUID d) = Some r \<and> r_expires_at r = unix (ExpiresAt d)"
  using upsert_self [of d "fold upsert xs tbl"] fold_upsert_other [OF assms] by simp

lemma flush_decisions:
  "snd (flush (Some InsertDecisionEventBatch) s (Some tbl)) = Some (fold upsert (pending s) tbl)"
  by (simp add: flush_def InsertDecisionEventBatch_def Let_def)

lemma absorbTombstone_pending:
  "absorbTombstone (Some MarkDecisionExpired) lis now u s (Some tbl) = (out, s1, db1) \<Longrightarrow>
     pending s1 = pending s \<and> db1 = fst (MarkDecisionExpired now u (Some tbl))"
  by (auto simp: absorbTombstone_def Let_def split: prod.splits)

section \<open>Properties\<close>

text \<open>
  a revocation that reaches a stored decision sticks. When the decision's row is in the table
  and no copy of it waits in the buffer, the tombstone sets the row's expiry to the present and
  the next flush leaves it there, so the row no longer counts as active.
\<close>

theorem tombstone_effective:
  assumes "gm_get tbl u = Some r" and "u \<noteq> []" and "u \<notin> UUID ` set (pending s)"
    and "absorbTombstone (Some MarkDecisionExpired) lis now u s (Some tbl) = (out, s1, db1)"
  shows "\<exists>tbl'. snd (flush (Some InsertDecisionEventBatch) s1 db1) = Some tbl' \<and>
     gm_get tbl' u = Some (r\<lparr>r_expires_at := unix now\<rparr>)"
proof -
  have s1: "pending s1 = pending s" and db1: "db1 = Some (gm_put u (r\<lparr>r_expires_at := unix now\<rparr>) tbl)"
    using absorbTombstone_pending [OF assms(4)] assms(1,2) by (simp_all add: MarkDecisionExpired_def)
  show ?thesis using assms(3) unfolding db1 flush_decisions s1 by (simp add: fold_upsert_other)
qed

definition ban :: Decision where
  "ban = \<lparr>UUID = ''d-1'', Ts = 0, Scope = ''ip'', Value = ''203.0.113.5'', Type = ''ban'',
     Scenario = ''crowdsecurity/http-probing'', ExpiresAt = 4 * ns_hour, DurationSeconds = 14400\<rparr>"

definition small_sink :: crowdsec_Sink where
  "small_sink = crowdsec_NewSink \<lparr>ChannelBuffer = 4, FlushBatchSize = 4, LRUCap = 4, LRUTTL = ns_hour\<rparr>"

theorem tombstone_effective_witness:
  "\<exists>tbl'. snd (flush (Some InsertDecisionEventBatch)
       (fst (snd (absorbTombstone (Some MarkDecisionExpired) True ns_hour ''d-1'' small_sink (Some (upsert ban [])))))
       (snd (snd (absorbTombstone (Some MarkDecisionExpired) True ns_hour ''d-1'' small_sink (Some (upsert ban []))))))
     = Some tbl' \<and> map_option r_expires_at (gm_get tbl' ''d-1'') = Some (unix ns_hour)"
proof -
  let ?t = "absorbTombstone (Some MarkDecisionExpired) True ns_hour ''d-1'' small_sink (Some (upsert ban []))"
  obtain r where r: "gm_get (upsert ban []) ''d-1'' = Some r" using upsert_self [of ban "[]"] by (auto simp: ban_def)
  obtain out s1 db1 where t: "?t = (out, s1, db1)" by (metis prod_cases3)
  have "pending small_sink = []" by (simp add: small_sink_def crowdsec_NewSink_def make_sink_def Sink.extend_def)
  with tombstone_effective [OF r _ _ t] show ?thesis unfolding t by fastforce
qed

text \<open>
  A revocation that overtakes the buffer is lost. When the revoked decision is still waiting
  in the buffer, the tombstone finds no row of it (or an older one) and the next flush stores the
  decision with its original expiry: the table shows a ban the operator has revoked as running.
\<close>

theorem tombstone_lost_while_pending:
  assumes "pending s = xs @ d # ys" and "UUID d \<notin> UUID ` set ys"
    and "absorbTombstone (Some MarkDecisionExpired) lis now (UUID d) s (Some tbl) = (out, s1, db1)"
  shows "\<exists>tbl' r. snd (flush (Some InsertDecisionEventBatch) s1 db1) = Some tbl' \<and>
     gm_get tbl' (UUID d) = Some r \<and> r_expires_at r = unix (ExpiresAt d)"
proof -
  have s1: "pending s1 = xs @ d # ys" using absorbTombstone_pending [OF assms(3)] assms(1) by simp
  obtain t1 where db1: "db1 = Some t1"
    using absorbTombstone_pending [OF assms(3)]
    by (cases "gm_get tbl (UUID d)"; cases "UUID d = []") (auto simp: MarkDecisionExpired_def)
  show ?thesis using fold_upsert_last [OF assms(2)] unfolding db1 flush_decisions s1 by blast
qed

definition buffered_ban :: crowdsec_Sink where
  "buffered_ban = fst (snd (absorbEmit True (Some InsertDecisionEventBatch) 0 ban small_sink (Some [])))"

theorem tombstone_lost_while_pending_witness:
  "\<exists>s1 db1 tbl' r. snd (absorbTombstone (Some MarkDecisionExpired) True ns_hour ''d-1'' buffered_ban (Some [])) = (s1, db1) \<and>
     snd (flush (Some InsertDecisionEventBatch) s1 db1) = Some tbl' \<and>
     gm_get tbl' ''d-1'' = Some r \<and> r_expires_at r = unix (4 * ns_hour)"
proof -
  obtain out s1 db1 where t: "absorbTombstone (Some MarkDecisionExpired) True ns_hour ''d-1'' buffered_ban (Some []) = (out, s1, db1)"
    by (metis prod_cases3)
  have p: "pending buffered_ban = [] @ ban # []"
    by (simp add: buffered_ban_def absorbEmit_def small_sink_def crowdsec_NewSink_def make_sink_def Sink.extend_def
        decision_shouldEmit_def ban_def touch_def newEmitLRU_def pushFront_def admit_def or_default_def Let_def)
  have u: "UUID ban = ''d-1''" "ExpiresAt ban = 4 * ns_hour" by (simp_all add: ban_def)
  from tombstone_lost_while_pending [OF p, of True ns_hour "[]" out s1 db1] t u show ?thesis by simp
qed

text \<open>
  The revocation report is exact. For a decision the sink accepted, the listener is told
  \<open>revoked\<close> at a later tombstone exactly when the decision carries an expiry that is still in the
  future, and after the tombstone the same identifier counts as unseen again.
\<close>

theorem revocation_reported_exactly:
  assumes "lru_ok (lru s)" and "UUID d \<noteq> []"
    and "snd (decision_shouldEmit t (UUID d) (lru s))"
    and "flushBatchSize s > int (length (pending s)) + 1"
    and "absorbEmit c ins t d s db = (bs, s1, db1)"
    and "absorbTombstone mark True now (UUID d) s1 db1 = (out, s2, db2)"
  shows "out = Some (UUID d, ExpiresAt d \<noteq> zero_time \<and> now < ExpiresAt d) \<and>
    snd (decision_shouldEmit now' (UUID d) (lru s2))"
proof -
  let ?l = "fst (touch t (UUID d) \<lparr>expiresAt = zero_time\<rparr> (lru s))"
  let ?l1 = "setExpiresAt (UUID d) (ExpiresAt d) ?l"
  have ok: "lru_ok ?l" by (rule touch_refines(1) [OF assms(1)])
  have ok1: "lru_ok ?l1" by (rule setExpiresAt_ok(1) [OF ok])
  obtain h e where h: "gm_get (idx ?l) (UUID d) = Some h" "cells ?l h = Some e"
    using touch_present [OF assms(1)] by blast
  have s1: "lru s1 = ?l1"
    using assms(2-5) by (auto simp: absorbEmit_def decision_shouldEmit_def admit_def Let_def
        split: prod.splits bool.splits if_splits)
  have h1: "gm_get (idx ?l1) (UUID d) = Some h" "cells ?l1 h = Some (e\<lparr>expiresAt := ExpiresAt d\<rparr>)"
    using h setExpiresAt_ok(2) [OF ok] assms(2) by (simp_all add: setExpiresAt_def)
  have out: "out = Some (UUID d, snd (forgetReportingRevocation now (UUID d) ?l1))"
    and s2: "lru s2 = fst (forgetReportingRevocation now (UUID d) ?l1)"
    using assms(6) s1 by (auto simp: absorbTombstone_def Let_def split: prod.splits)
  have rev: "snd (forgetReportingRevocation now (UUID d) ?l1) = (ExpiresAt d \<noteq> zero_time \<and> now < ExpiresAt d)"
    using h1 assms(2) by (simp add: forgetReportingRevocation_def Let_def)
  have "gm_get (idx (lru s2)) (UUID d) = None" unfolding s2 by (rule forget_clears(2) [OF ok1 assms(2)])
  then have "snd (decision_shouldEmit now' (UUID d) (lru s2))"
    using assms(2) by (simp add: decision_shouldEmit_def touch_def Let_def split: prod.splits)
  with out rev show ?thesis by simp
qed

theorem revocation_reported_exactly_witness:
  "\<exists>out r. absorbTombstone None True ns_hour ''d-1'' buffered_ban (Some [] :: decision_table option) = (out, r) \<and> out = Some (''d-1'', True)"
proof -
  have s: "lru small_sink = newEmitLRU 4 ns_hour" "pending small_sink = []" "flushBatchSize small_sink = 4"
    by (simp_all add: small_sink_def crowdsec_NewSink_def make_sink_def Sink.extend_def or_default_def ns_hour_def
        ns_minute_def ns_second_def)
  have u: "UUID ban = ''d-1''" "ExpiresAt ban = 4 * ns_hour" by (simp_all add: ban_def)
  obtain bs s1 db1 where a: "absorbEmit True (Some InsertDecisionEventBatch) 0 ban small_sink (Some []) = (bs, s1, db1)"
    by (metis prod_cases3)
  obtain out s2 db2 where t: "absorbTombstone None True ns_hour ''d-1'' s1 db1 = (out, s2, db2)" by (metis prod_cases3)
  have acc: "snd (decision_shouldEmit 0 (UUID ban) (lru small_sink))"
    by (simp add: s u decision_shouldEmit_def touch_def newEmitLRU_def Let_def pushFront_def)
  have "db1 = Some []" using a s
    by (auto simp: absorbEmit_def admit_def Let_def split: prod.splits bool.splits)
  moreover have "s1 = buffered_ban" using a by (simp add: buffered_ban_def)
  moreover have "out = Some (''d-1'', True)"
    using revocation_reported_exactly [OF _ _ acc _ a, of None ns_hour out s2 db2 0] t s u
    by (simp add: ns_hour_def ns_minute_def ns_second_def)
  ultimately show ?thesis using t by auto
qed

end
