(* ===== verification/AutoCaches.thy ===== *)
theory AutoCaches
  imports BoundedMap
begin

text \<open>
  The rules and the two caches of the automation engine: \<open>internal/automation/rules.go\<close>,
  \<open>cooldown.go\<close> and \<open>dedupe.go\<close>. Both caches are maps with an insertion cap; each evicts with its
  own \<open>evictOldestLocked\<close> loop and satisfies the contract \<open>evicting_map\<close>.
\<close>

section \<open>Sources and rules\<close>

type_synonym Source = string

definition SourceWafSQLi :: Source where "SourceWafSQLi = ''waf-sqli''"
definition SourceWafXSS :: Source where "SourceWafXSS = ''waf-xss''"
definition SourceWafRCE :: Source where "SourceWafRCE = ''waf-rce''"
definition SourceWafLFI :: Source where "SourceWafLFI = ''waf-lfi''"
definition SourceWafProtocol :: Source where "SourceWafProtocol = ''waf-protocol''"
definition SourceWafOther :: Source where "SourceWafOther = ''waf-other''"
definition SourceThrottleTier1 :: Source where "SourceThrottleTier1 = ''throttle-tier1''"
definition SourceThrottleTier2 :: Source where "SourceThrottleTier2 = ''throttle-tier2''"
definition SourceAuthBurst :: Source where "SourceAuthBurst = ''auth-burst''"

lemmas source_defs = SourceWafSQLi_def SourceWafXSS_def SourceWafRCE_def SourceWafLFI_def
  SourceWafProtocol_def SourceWafOther_def SourceThrottleTier1_def SourceThrottleTier2_def SourceAuthBurst_def

definition wafSources :: "Source list" where
  "wafSources = [SourceWafSQLi, SourceWafXSS, SourceWafRCE, SourceWafLFI, SourceWafProtocol, SourceWafOther]"

definition AllSources :: "Source list" where
  "AllSources = [SourceWafSQLi, SourceWafXSS, SourceWafRCE, SourceWafLFI, SourceWafProtocol, SourceWafOther,
     SourceThrottleTier1, SourceThrottleTier2, SourceAuthBurst]"

definition Scenario_of :: "Source \<Rightarrow> string" where
  "Scenario_of s = ''arenet/'' @ s"

definition IsKnown :: "Source \<Rightarrow> bool" where
  "IsKnown s \<longleftrightarrow> s \<in> set AllSources"

record Rule =
  Enabled :: bool
  Threshold :: int
  Window :: duration
  Duration :: duration
  Cooldown :: duration

type_synonym RuleSet = "(Source, Rule) gomap"

definition mk_rule :: "int \<Rightarrow> duration \<Rightarrow> duration \<Rightarrow> duration \<Rightarrow> Rule" where
  "mk_rule t w d c = \<lparr>Enabled = False, Threshold = t, Window = w, Duration = d, Cooldown = c\<rparr>"

definition DefaultRule :: "Source \<Rightarrow> Rule" where
  "DefaultRule s =
     (if s = SourceWafSQLi then mk_rule 2 (60 * ns_second) (4 * ns_hour) (24 * ns_hour)
      else if s = SourceWafRCE then mk_rule 2 (60 * ns_second) (24 * ns_hour) (24 * ns_hour)
      else if s = SourceWafXSS then mk_rule 2 (60 * ns_second) ns_hour (24 * ns_hour)
      else if s = SourceWafLFI then mk_rule 2 (60 * ns_second) (4 * ns_hour) (24 * ns_hour)
      else if s = SourceWafProtocol then mk_rule 5 (60 * ns_second) (15 * ns_minute) (4 * ns_hour)
      else if s = SourceWafOther then mk_rule 5 (60 * ns_second) (15 * ns_minute) (4 * ns_hour)
      else if s = SourceThrottleTier1 then mk_rule 1 (60 * ns_second) (15 * ns_minute) (4 * ns_hour)
      else if s = SourceThrottleTier2 then mk_rule 1 (60 * ns_second) ns_hour (4 * ns_hour)
      else if s = SourceAuthBurst then mk_rule 10 (5 * ns_minute) (4 * ns_hour) (7 * 24 * ns_hour)
      else mk_rule 0 0 0 0)"

definition DefaultRuleSet :: RuleSet where
  "DefaultRuleSet = map (\<lambda>s. (s, DefaultRule s)) AllSources"

datatype rule_error = BadThreshold Source int | BadWindow Source duration | BadDuration Source duration
  | BadCooldown Source duration | UnknownSource Source

definition Rule_Validate :: "Rule \<Rightarrow> Source \<Rightarrow> rule_error option" where
  "Rule_Validate r s =
     (if \<not> Enabled r then None
      else if Threshold r < 1 then Some (BadThreshold s (Threshold r))
      else if Window r \<le> 0 then Some (BadWindow s (Window r))
      else if Duration r \<le> 0 then Some (BadDuration s (Duration r))
      else if Cooldown r < 0 then Some (BadCooldown s (Cooldown r))
      else None)"

text \<open>The argument lists the rules in the order the map iteration visits them.\<close>

fun RuleSet_Validate :: "RuleSet \<Rightarrow> rule_error option" where
  "RuleSet_Validate [] = None"
| "RuleSet_Validate ((s, r) # rs) =
     (if \<not> IsKnown s then Some (UnknownSource s)
      else case Rule_Validate r s of
             Some e \<Rightarrow> Some e
           | None \<Rightarrow> RuleSet_Validate rs)"

definition AnyEnabled :: "RuleSet \<Rightarrow> bool" where
  "AnyEnabled rs \<longleftrightarrow> (\<exists>p \<in> set rs. Enabled (snd p))"

lemma RuleSet_Validate_None:
  "RuleSet_Validate rs = None \<longleftrightarrow> (\<forall>(s, r) \<in> set rs. IsKnown s \<and> Rule_Validate r s = None)"
  by (induction rs rule: RuleSet_Validate.induct) (simp_all split: option.split)

section \<open>The operator cooldown\<close>

record cooldownEntry =
  ObservedAt :: time
  Until :: time

type_synonym cooldownKey = "string \<times> string"

type_synonym cooldownLRU = "(cooldownKey, cooldownEntry) gomap"

definition cooldownMaxEntries :: int where "cooldownMaxEntries = 10000"

definition cooldown_evict :: "cooldownLRU \<Rightarrow> cooldownLRU" where
  "cooldown_evict m = (case scan_oldest ObservedAt None m of None \<Rightarrow> m | Some (k, _) \<Rightarrow> gm_del k m)"

definition cooldown_Record :: "time \<Rightarrow> string \<Rightarrow> string \<Rightarrow> duration \<Rightarrow> cooldownLRU \<Rightarrow> cooldownLRU" where
  "cooldown_Record now srcIP scenario ttl m =
     (if ttl \<le> 0 then m
      else
        let m1 = gm_put (srcIP, scenario) \<lparr>ObservedAt = now, Until = now + ttl\<rparr> m
        in if int (length m1) > cooldownMaxEntries then cooldown_evict m1 else m1)"

definition HasCooldown :: "time \<Rightarrow> string \<Rightarrow> string \<Rightarrow> cooldownLRU \<Rightarrow> cooldownLRU \<times> bool" where
  "HasCooldown now srcIP scenario m =
     (case gm_get m (srcIP, scenario) of
        None \<Rightarrow> (m, False)
      | Some e \<Rightarrow> if now > Until e then (gm_del (srcIP, scenario) m, False) else (m, True))"

section \<open>The de-duplication cache\<close>

record dedupeEntry =
  ActiveInLAPI :: bool
  CheckedAt :: time

type_synonym dedupeKey = "string \<times> string \<times> string"

type_synonym dedupeLRU = "(dedupeKey, dedupeEntry) gomap"

definition dedupeTTL :: duration where "dedupeTTL = 60 * ns_second"

definition dedupeMaxEntries :: int where "dedupeMaxEntries = 1024"

definition dedupe_evict :: "dedupeLRU \<Rightarrow> dedupeLRU" where
  "dedupe_evict m = (case scan_oldest CheckedAt None m of None \<Rightarrow> m | Some (k, _) \<Rightarrow> gm_del k m)"

definition Lookup :: "time \<Rightarrow> string \<Rightarrow> string \<Rightarrow> string \<Rightarrow> dedupeLRU \<Rightarrow> dedupeLRU \<times> bool \<times> bool" where
  "Lookup now scope val scenario m =
     (case gm_get m (scope, val, scenario) of
        None \<Rightarrow> (m, False, False)
      | Some e \<Rightarrow>
          if time_sub now (CheckedAt e) > dedupeTTL then (gm_del (scope, val, scenario) m, False, False)
          else (m, ActiveInLAPI e, True))"

definition dedupe_Record :: "time \<Rightarrow> string \<Rightarrow> string \<Rightarrow> string \<Rightarrow> bool \<Rightarrow> dedupeLRU \<Rightarrow> dedupeLRU" where
  "dedupe_Record now scope val scenario active m =
     (let m1 = gm_put (scope, val, scenario) \<lparr>ActiveInLAPI = active, CheckedAt = now\<rparr> m
      in if int (length m1) > dedupeMaxEntries then dedupe_evict m1 else m1)"

definition Invalidate :: "string \<Rightarrow> string \<Rightarrow> dedupeLRU \<Rightarrow> dedupeLRU" where
  "Invalidate scope val m = filter (\<lambda>((s, v, _), _). \<not> (s = scope \<and> v = val)) m"

section \<open>The caches satisfy the contract\<close>

lemma scan_evict_law:
  assumes "gm_wf m" "m \<noteq> []"
  shows "\<exists>k v. (k, v) \<in> set m \<and> (case scan_oldest f None m of None \<Rightarrow> m | Some (k, _) \<Rightarrow> gm_del k m) = gm_del k m \<and>
    (\<forall>p \<in> set m. f v \<le> f (snd p))"
proof -
  obtain k v where "scan_oldest f None m = Some (k, f v)" "(k, v) \<in> set m" "\<forall>p \<in> set m. f v \<le> f (snd p)"
    by (rule scan_oldest_nonempty [OF assms(2)])
  then show ?thesis by (intro exI [of _ k] exI [of _ v]) simp
qed

interpretation cd: evicting_map ObservedAt cooldown_evict "\<lambda>_. True"
  by unfold_locales (unfold cooldown_evict_def, rule scan_evict_law, simp_all)

interpretation dd: evicting_map CheckedAt dedupe_evict "\<lambda>_. True"
  by unfold_locales (unfold dedupe_evict_def, rule scan_evict_law, simp_all)

lemma cooldown_Record_wf [simp]: "gm_wf m \<Longrightarrow> gm_wf (cooldown_Record now ip sc t m)"
  by (simp add: cooldown_Record_def Let_def cd.evict_wf)

lemma dedupe_Record_wf [simp]: "gm_wf m \<Longrightarrow> gm_wf (dedupe_Record now s v sc a m)"
  by (simp add: dedupe_Record_def Let_def dd.evict_wf)

lemma HasCooldown_wf [simp]: "gm_wf m \<Longrightarrow> gm_wf (fst (HasCooldown now ip sc m))"
  by (simp add: HasCooldown_def split: option.splits)

lemma Lookup_wf [simp]: "gm_wf m \<Longrightarrow> gm_wf (fst (Lookup now s v sc m))"
  by (simp add: Lookup_def split: option.splits)

lemma cooldown_Record_bounded:
  assumes "gm_wf m" "int (length m) \<le> cooldownMaxEntries"
  shows "int (length (cooldown_Record now ip sc t m)) \<le> cooldownMaxEntries"
  using cd.put_then_evict_length [OF assms(1), where k = "(ip, sc)" and n = "nat cooldownMaxEntries" and v = "\<lparr>ObservedAt = now, Until = now + t\<rparr>"] assms(2)
  by (simp add: cooldown_Record_def Let_def cooldownMaxEntries_def split: if_splits)

lemma dedupe_Record_bounded:
  assumes "gm_wf m" "int (length m) \<le> dedupeMaxEntries"
  shows "int (length (dedupe_Record now s v sc a m)) \<le> dedupeMaxEntries"
  using dd.put_then_evict_length [OF assms(1), where k = "(s, v, sc)" and n = "nat dedupeMaxEntries" and v = "\<lparr>ActiveInLAPI = a, CheckedAt = now\<rparr>"] assms(2)
  by (simp add: dedupe_Record_def Let_def dedupeMaxEntries_def split: if_splits)

end
