(* ===== verification/AutoEngine.thy ===== *)
theory AutoEngine
  imports AutoCaches "HOL-Library.Word"
begin

text \<open>
  The trigger engine of \<open>internal/automation/trigger.go\<close>: the polling tick that reads new security
  events, groups them, checks the rules and emits ban intents; the writer that pushes an intent
  with retries; and the tombstone entry point. The event readers, the active-decision checker and
  the push are interfaces of the code and arguments here. The clock is read once per operation.
\<close>

record SourceEvent =
  se_ID :: string
  se_Ts :: time
  se_SrcIP :: string
  se_Source :: Source
  se_TriggeringEventID :: string

record Intent =
  in_SrcIP :: string
  in_Source :: Source
  in_TriggeringEventID :: string
  in_TriggeringEventCount :: int
  in_DurationSeconds :: int

record Engine =
  cursor :: "(Source, time) gomap"
  cooldown :: cooldownLRU
  dedupe :: dedupeLRU
  intents :: "Intent list"
  totalTicks :: "64 word"
  totalIntentsEmit :: "64 word"
  totalIntentsDrop :: "64 word"
  totalPushSuccess :: "64 word"
  totalPushPermanent :: "64 word"
  totalPushDropped :: "64 word"
  loginFailures :: "64 word"

type_synonym reader = "time \<Rightarrow> time \<Rightarrow> nat \<Rightarrow> string + SourceEvent list"

record EngineConfig =
  Waf :: reader
  Throttle :: reader
  Audit :: reader
  DedupeChecker :: "(string \<Rightarrow> string \<Rightarrow> string \<Rightarrow> string + bool) option"

definition tickInterval :: duration where "tickInterval = 5 * ns_second"
definition writerChanBuffer :: int where "writerChanBuffer = 1024"
definition queryLimit :: nat where "queryLimit = 1000"

definition NewEngine :: Engine where
  "NewEngine =
     \<lparr>cursor = [], cooldown = [], dedupe = [], intents = [], totalTicks = 0, totalIntentsEmit = 0,
      totalIntentsDrop = 0, totalPushSuccess = 0, totalPushPermanent = 0, totalPushDropped = 0,
      loginFailures = 0\<rparr>"

text \<open>The start of \<open>Run\<close>: every cursor is set before the first tick.\<close>

definition init_cursors :: "time \<Rightarrow> Engine \<Rightarrow> Engine" where
  "init_cursors startTs e = e\<lparr>cursor := fold (\<lambda>s. gm_put s startTs) AllSources (cursor e)\<rparr>"

section \<open>Reading the sources\<close>

definition cursor_at :: "(Source, time) gomap \<Rightarrow> Source \<Rightarrow> time" where
  "cursor_at c s = (case gm_get c s of None \<Rightarrow> zero_time | Some t \<Rightarrow> t)"

definition advanceCursor :: "Source \<Rightarrow> time \<Rightarrow> (Source, time) gomap \<Rightarrow> (Source, time) gomap" where
  "advanceCursor s t c = (if t > cursor_at c s then gm_put s t c else c)"

definition maxTs :: "SourceEvent list \<Rightarrow> time" where
  "maxTs evs = fold (\<lambda>ev m. if se_Ts ev > m then se_Ts ev else m) evs zero_time"

definition read_source ::
  "Source \<Rightarrow> Source list \<Rightarrow> reader \<Rightarrow> time \<Rightarrow> Engine \<Rightarrow> Engine \<times> SourceEvent list" where
  "read_source main srcs rd now e =
     (let c = cursor_at (cursor e) main;
          from = (if c = zero_time then now - tickInterval else c)
      in case rd from now queryLimit of
           Inl _ \<Rightarrow> (e, [])
         | Inr evs \<Rightarrow>
             if evs \<noteq> [] then (e\<lparr>cursor := fold (\<lambda>s. advanceCursor s (maxTs evs)) srcs (cursor e)\<rparr>, evs)
             else (e\<lparr>cursor := fold (\<lambda>s. advanceCursor s now) srcs (cursor e)\<rparr>, evs))"

definition readWaf :: "EngineConfig \<Rightarrow> time \<Rightarrow> Engine \<Rightarrow> Engine \<times> SourceEvent list" where
  "readWaf cfg = read_source SourceWafSQLi wafSources (Waf cfg)"

definition readThrottle :: "EngineConfig \<Rightarrow> time \<Rightarrow> Engine \<Rightarrow> Engine \<times> SourceEvent list" where
  "readThrottle cfg = read_source SourceThrottleTier1 [SourceThrottleTier1, SourceThrottleTier2] (Throttle cfg)"

definition readAudit :: "EngineConfig \<Rightarrow> time \<Rightarrow> Engine \<Rightarrow> Engine \<times> SourceEvent list" where
  "readAudit cfg = read_source SourceAuthBurst [SourceAuthBurst] (Audit cfg)"

definition read_all :: "EngineConfig \<Rightarrow> time \<Rightarrow> Engine \<Rightarrow> Engine \<times> SourceEvent list" where
  "read_all cfg now e =
     (let (e1, w) = readWaf cfg now e;
          (e2, t) = readThrottle cfg now e1;
          (e3, a) = readAudit cfg now e2
      in (e3, w @ t @ a))"

section \<open>The tick\<close>

type_synonym groupKey = "string \<times> Source"

type_synonym groups = "(groupKey, SourceEvent list) gomap"

definition group_key :: "SourceEvent \<Rightarrow> groupKey" where
  "group_key ev = (se_SrcIP ev, se_Source ev)"

definition add_event :: "SourceEvent \<Rightarrow> groups \<Rightarrow> groups" where
  "add_event ev g =
     gm_put (group_key ev) ((case gm_get g (group_key ev) of None \<Rightarrow> [] | Some l \<Rightarrow> l) @ [ev]) g"

definition group_events :: "SourceEvent list \<Rightarrow> groups" where
  "group_events evs = fold add_event evs []"

definition in_window :: "time \<Rightarrow> Rule \<Rightarrow> SourceEvent list \<Rightarrow> SourceEvent list" where
  "in_window now rule evs = filter (\<lambda>ev. se_Ts ev \<ge> now - Window rule) evs"

definition triggeringID :: "SourceEvent list \<Rightarrow> string" where
  "triggeringID evs = fold (\<lambda>ev i. if i = [] then se_TriggeringEventID ev else i) evs []"

text \<open>Integer division of Go truncates toward zero.\<close>

definition duration_seconds :: "duration \<Rightarrow> int" where
  "duration_seconds d = sgn d * (\<bar>d\<bar> div ns_second)"

definition check_active ::
  "EngineConfig \<Rightarrow> time \<Rightarrow> string \<Rightarrow> string \<Rightarrow> Engine \<Rightarrow> Engine \<times> bool" where
  "check_active cfg now ip scenario e =
     (let (d, active, hit) = Lookup now ''Ip'' ip scenario (dedupe e); e1 = e\<lparr>dedupe := d\<rparr>
      in if hit then (e1, active)
         else case DedupeChecker cfg of
                None \<Rightarrow> (e1, active)
              | Some chk \<Rightarrow>
                  (case chk ''Ip'' ip scenario of
                     Inl _ \<Rightarrow> (e1, active)
                   | Inr a \<Rightarrow> (e1\<lparr>dedupe := dedupe_Record now ''Ip'' ip scenario a (dedupe e1)\<rparr>, a)))"

definition emit_intent :: "Intent \<Rightarrow> Engine \<Rightarrow> Engine" where
  "emit_intent i e =
     (if int (length (intents e)) < writerChanBuffer
      then e\<lparr>intents := intents e @ [i], totalIntentsEmit := totalIntentsEmit e + 1\<rparr>
      else e\<lparr>totalIntentsDrop := totalIntentsDrop e + 1\<rparr>)"

definition mk_intent :: "time \<Rightarrow> groupKey \<Rightarrow> Rule \<Rightarrow> SourceEvent list \<Rightarrow> Intent" where
  "mk_intent now k rule evs =
     \<lparr>in_SrcIP = fst k, in_Source = snd k, in_TriggeringEventID = triggeringID (in_window now rule evs),
      in_TriggeringEventCount = int (length (in_window now rule evs)),
      in_DurationSeconds = duration_seconds (Duration rule)\<rparr>"

text \<open>The body of the loop over the groups; every \<open>continue\<close> is a branch.\<close>

definition visit_group ::
  "EngineConfig \<Rightarrow> RuleSet \<Rightarrow> time \<Rightarrow> groupKey \<times> SourceEvent list \<Rightarrow> Engine \<Rightarrow> Engine" where
  "visit_group cfg rs now = (\<lambda>(k, evs) e.
     (case gm_get rs (snd k) of
        None \<Rightarrow> e
      | Some rule \<Rightarrow>
          if \<not> Enabled rule then e
          else if int (length evs) < Threshold rule then e
          else if int (length (in_window now rule evs)) < Threshold rule then e
          else
            let scenario = Scenario_of (snd k); (c, cooling) = HasCooldown now (fst k) scenario (cooldown e);
                e1 = e\<lparr>cooldown := c\<rparr>
            in if cooling then e1
               else
                 let (e2, active) = check_active cfg now (fst k) scenario e1
                 in if active then e2 else emit_intent (mk_intent now k rule evs) e2))"

text \<open>
  \<open>order\<close> is the order in which the iteration over the map of groups happens to visit it.
\<close>

definition tick :: "EngineConfig \<Rightarrow> (groups \<Rightarrow> groups) \<Rightarrow> RuleSet \<Rightarrow> time \<Rightarrow> Engine \<Rightarrow> Engine" where
  "tick cfg order rs now e =
     (let e0 = e\<lparr>totalTicks := totalTicks e + 1\<rparr>
      in if \<not> AnyEnabled rs then e0
         else
           let (e1, evs) = read_all cfg now e0
           in if evs = [] then e1 else fold (visit_group cfg rs now) (order (group_events evs)) e1)"

section \<open>The writer\<close>

datatype push_result = PushOk | PushLoginFailed | PushUnavailable | PushOther

datatype push_verdict = Pushed | Permanent bool | Cancelled | Exhausted

definition writerBackoffInitial :: duration where "writerBackoffInitial = 500000000"
definition writerBackoffMax :: duration where "writerBackoffMax = 30 * ns_second"
definition writerMaxRetries :: nat where "writerMaxRetries = 5"

text \<open>
  The retry loop: \<open>push a\<close> is the outcome of attempt \<open>a\<close>, \<open>cancelled a\<close> whether the context ends
  during the wait after it. The result carries the waits.
\<close>

fun push_loop :: "(nat \<Rightarrow> push_result) \<Rightarrow> (nat \<Rightarrow> bool) \<Rightarrow> duration \<Rightarrow> nat list \<Rightarrow> push_verdict \<times> duration list" where
  "push_loop push cancelled backoff [] = (Exhausted, [])"
| "push_loop push cancelled backoff (a # as) =
     (case push a of
        PushOk \<Rightarrow> (Pushed, [])
      | PushLoginFailed \<Rightarrow> (Permanent True, [])
      | PushOther \<Rightarrow> (Permanent False, [])
      | PushUnavailable \<Rightarrow>
          if cancelled a then (Cancelled, [backoff])
          else
            case push_loop push cancelled (if backoff * 2 > writerBackoffMax then writerBackoffMax else backoff * 2) as of
              (v, ws) \<Rightarrow> (v, backoff # ws))"

definition processIntent ::
  "(nat \<Rightarrow> push_result) \<Rightarrow> (nat \<Rightarrow> bool) \<Rightarrow> time \<Rightarrow> Intent \<Rightarrow> Engine \<Rightarrow> Engine \<times> push_verdict \<times> duration list" where
  "processIntent push cancelled now i e =
     (let (v, ws) = push_loop push cancelled writerBackoffInitial [1..<Suc writerMaxRetries]
      in ((case v of
             Pushed \<Rightarrow> e\<lparr>totalPushSuccess := totalPushSuccess e + 1,
                         dedupe := dedupe_Record now ''Ip'' (in_SrcIP i) (Scenario_of (in_Source i)) True (dedupe e)\<rparr>
           | Permanent login \<Rightarrow> e\<lparr>totalPushPermanent := totalPushPermanent e + 1,
                                  loginFailures := loginFailures e + (if login then 1 else 0)\<rparr>
           | Cancelled \<Rightarrow> e
           | Exhausted \<Rightarrow> e\<lparr>totalPushDropped := totalPushDropped e + 1\<rparr>), v, ws))"

text \<open>One turn of \<open>writerLoop\<close>: take the oldest intent; without a writer it is dropped.\<close>

definition writer_turn ::
  "bool \<Rightarrow> (nat \<Rightarrow> push_result) \<Rightarrow> (nat \<Rightarrow> bool) \<Rightarrow> time \<Rightarrow> Engine \<Rightarrow> Engine" where
  "writer_turn has_writer push cancelled now e =
     (case intents e of
        [] \<Rightarrow> e
      | i # rest \<Rightarrow>
          let e1 = e\<lparr>intents := rest\<rparr>
          in if has_writer then fst (processIntent push cancelled now i e1) else e1)"

section \<open>Tombstones\<close>

definition OnTombstone :: "RuleSet \<Rightarrow> time \<Rightarrow> string \<Rightarrow> string \<Rightarrow> bool \<Rightarrow> Engine \<Rightarrow> Engine" where
  "OnTombstone rs now srcIP scenario revoked e =
     (let e1 = e\<lparr>dedupe := Invalidate ''Ip'' srcIP (dedupe e)\<rparr>
      in if \<not> revoked then e1
         else if length scenario > length ''arenet/'' \<and> take (length ''arenet/'') scenario = ''arenet/''
         then
           let src = drop (length ''arenet/'') scenario
           in if IsKnown src
              then case gm_get rs src of
                     None \<Rightarrow> e1
                   | Some rule \<Rightarrow>
                       if Cooldown rule > 0
                       then e1\<lparr>cooldown := cooldown_Record now srcIP scenario (Cooldown rule) (cooldown e1)\<rparr>
                       else e1
              else e1
         else e1)"

end
