(* ===== verification/AutoRuns.thy ===== *)
theory AutoRuns
  imports AutoEngine
begin

text \<open>
  Runs of the automation engine: which intents a tick emits, what a cooldown suppresses, and how
  the size of the state stays bounded. The definitions are those of \<open>AutoEngine\<close>.
\<close>

section \<open>Groups\<close>

lemma group_events_wf [simp]: "gm_wf (group_events evs)"
proof -
  have "gm_wf g \<Longrightarrow> gm_wf (fold add_event evs g)" for g
    by (induction evs arbitrary: g) (simp_all add: add_event_def)
  then show ?thesis by (simp add: group_events_def gm_wf_def)
qed

lemma group_events_get:
  "gm_get (group_events evs) k =
     (if filter (\<lambda>ev. group_key ev = k) evs = [] then None else Some (filter (\<lambda>ev. group_key ev = k) evs))"
proof (induction evs rule: rev_induct)
  case (snoc ev evs)
  have "group_events (evs @ [ev]) = add_event ev (group_events evs)" by (simp add: group_events_def)
  then show ?case using snoc by (auto simp: add_event_def)
qed (simp add: group_events_def)

lemma group_events_mem:
  "(k, l) \<in> set (group_events evs) \<longleftrightarrow> l \<noteq> [] \<and> l = filter (\<lambda>ev. group_key ev = k) evs"
  using gm_get_iff [OF group_events_wf [of evs], of k l] group_events_get [of evs k] by (auto split: if_splits)

section \<open>One group\<close>

lemma check_active_frame:
  "cooldown (fst (check_active cfg now ip sc e)) = cooldown e"
  "intents (fst (check_active cfg now ip sc e)) = intents e"
  "cursor (fst (check_active cfg now ip sc e)) = cursor e"
  by (auto simp: check_active_def Let_def split: prod.splits option.splits sum.splits)

lemma emit_intent_frame:
  "cooldown (emit_intent i e) = cooldown e" "dedupe (emit_intent i e) = dedupe e"
  "intents (emit_intent i e) = (if int (length (intents e)) < writerChanBuffer then intents e @ [i] else intents e)"
  by (simp_all add: emit_intent_def)

lemma visit_group_intents:
  obtains "intents (visit_group cfg rs now (k, evs) e) = intents e"
  | rule where "gm_get rs (snd k) = Some rule" "Enabled rule" "Threshold rule \<le> int (length (in_window now rule evs))"
      "\<not> snd (HasCooldown now (fst k) (Scenario_of (snd k)) (cooldown e))"
      "intents (visit_group cfg rs now (k, evs) e) = intents e @ [mk_intent now k rule evs]"
proof -
  let ?e' = "visit_group cfg rs now (k, evs) e"
  have "intents ?e' = intents e \<or>
    (\<exists>rule. gm_get rs (snd k) = Some rule \<and> Enabled rule \<and> Threshold rule \<le> int (length (in_window now rule evs)) \<and>
      \<not> snd (HasCooldown now (fst k) (Scenario_of (snd k)) (cooldown e)) \<and>
      intents ?e' = intents e @ [mk_intent now k rule evs])"
    by (auto simp: visit_group_def Let_def emit_intent_frame check_active_frame
        split: option.splits prod.splits if_splits dest: arg_cong [where f = fst] intro!: check_active_frame(2) [THEN trans])
      (metis Engine.select_convs(4) Engine.surjective Engine.update_convs(2) check_active_frame(2) fst_conv)+
  with that show thesis by blast
qed

lemma visit_group_cooldown:
  assumes "gm_get (cooldown e) key = Some en" and "now \<le> Until en"
  shows "gm_get (cooldown (visit_group cfg rs now g e)) key = Some en"
proof -
  obtain k evs where g: "g = (k, evs)" by fastforce
  let ?sc = "Scenario_of (snd k)"
  have "gm_get (fst (HasCooldown now (fst k) ?sc (cooldown e))) key = Some en"
    using assms by (auto simp: HasCooldown_def split: option.splits)
  moreover have "cooldown (visit_group cfg rs now g e) \<in> {cooldown e, fst (HasCooldown now (fst k) ?sc (cooldown e))}"
    unfolding g by (auto simp: visit_group_def Let_def emit_intent_frame split: option.splits prod.splits)
      (metis Engine.select_convs(2) Engine.surjective Engine.update_convs(2) check_active_frame(1) fst_conv)+
  ultimately show ?thesis using assms(1) by auto
qed

lemma visit_group_counters:
  "cursor (visit_group cfg rs now g e) = cursor e"
  by (cases g) (auto simp: visit_group_def Let_def emit_intent_def split: option.splits prod.splits,
      (metis Engine.select_convs(1) Engine.surjective Engine.update_convs(2) check_active_frame(3) fst_conv)+)

section \<open>All groups of a tick\<close>

definition tick_reads :: "EngineConfig \<Rightarrow> time \<Rightarrow> Engine \<Rightarrow> SourceEvent list" where
  "tick_reads cfg now e = snd (read_all cfg now e)"

lemma read_source_frame:
  "cooldown (fst (read_source m ss rd now e)) = cooldown e"
  "dedupe (fst (read_source m ss rd now e)) = dedupe e"
  "intents (fst (read_source m ss rd now e)) = intents e"
  by (auto simp: read_source_def Let_def split: sum.splits)

lemma read_all_frame:
  "cooldown (fst (read_all cfg now e)) = cooldown e"
  "dedupe (fst (read_all cfg now e)) = dedupe e"
  "intents (fst (read_all cfg now e)) = intents e"
  using read_source_frame
  by (auto simp: read_all_def readWaf_def readThrottle_def readAudit_def Let_def split: prod.splits)
    (metis fst_conv)+

lemma read_source_cong:
  "cursor e = cursor e' \<Longrightarrow> snd (read_source m ss rd now e) = snd (read_source m ss rd now e') \<and>
     cursor (fst (read_source m ss rd now e)) = cursor (fst (read_source m ss rd now e'))"
  by (auto simp: read_source_def Let_def split: sum.splits)

lemma read_all_cong:
  assumes "cursor e = cursor e'"
  shows "snd (read_all cfg now e) = snd (read_all cfg now e')"
proof -
  note r = read_source_cong
  have 1: "snd (readWaf cfg now e) = snd (readWaf cfg now e')"
    "cursor (fst (readWaf cfg now e)) = cursor (fst (readWaf cfg now e'))"
    unfolding readWaf_def using r [OF assms] by blast+
  have 2: "snd (readThrottle cfg now (fst (readWaf cfg now e))) = snd (readThrottle cfg now (fst (readWaf cfg now e')))"
    "cursor (fst (readThrottle cfg now (fst (readWaf cfg now e)))) = cursor (fst (readThrottle cfg now (fst (readWaf cfg now e'))))"
    unfolding readThrottle_def using r [OF 1(2)] by blast+
  have 3: "snd (readAudit cfg now (fst (readThrottle cfg now (fst (readWaf cfg now e))))) =
      snd (readAudit cfg now (fst (readThrottle cfg now (fst (readWaf cfg now e')))))"
    unfolding readAudit_def using r [OF 2(2)] by blast
  show ?thesis using 1(1) 2(1) 3 by (simp add: read_all_def Let_def split_beta)
qed

lemma tick_unfold:
  "tick cfg order rs now e =
     (let e0 = e\<lparr>totalTicks := totalTicks e + 1\<rparr>
      in if \<not> AnyEnabled rs then e0
         else if tick_reads cfg now e = [] then fst (read_all cfg now e0)
         else fold (visit_group cfg rs now) (order (group_events (tick_reads cfg now e))) (fst (read_all cfg now e0)))"
  using read_all_cong [of e "e\<lparr>totalTicks := totalTicks e + 1\<rparr>" cfg now]
  by (simp add: tick_def tick_reads_def Let_def split_beta)

text \<open>The induction shared by the facts about a whole tick.\<close>

lemma tick_induct:
  assumes "\<And>e0. intents e0 = intents e \<Longrightarrow> cooldown e0 = cooldown e \<Longrightarrow> dedupe e0 = dedupe e \<Longrightarrow> P e0"
    and "\<And>g e1. g \<in> set (order (group_events (tick_reads cfg now e))) \<Longrightarrow> P e1 \<Longrightarrow> P (visit_group cfg rs now g e1)"
  shows "P (tick cfg order rs now e)"
proof -
  let ?e0 = "e\<lparr>totalTicks := totalTicks e + 1\<rparr>"
  have 0: "P ?e0" by (rule assms(1)) simp_all
  have 1: "P (fst (read_all cfg now ?e0))" by (rule assms(1)) (simp_all add: read_all_frame)
  have "P e1 \<Longrightarrow> (\<And>g. g \<in> set gs \<Longrightarrow> g \<in> set (order (group_events (tick_reads cfg now e)))) \<Longrightarrow>
      P (fold (visit_group cfg rs now) gs e1)" for gs e1
    by (induction gs arbitrary: e1) (simp_all add: assms(2))
  with 0 1 show ?thesis by (simp add: tick_unfold Let_def)
qed

section \<open>Properties of ticks\<close>

definition matching :: "string \<Rightarrow> Source \<Rightarrow> SourceEvent list \<Rightarrow> SourceEvent list" where
  "matching ip s evs = filter (\<lambda>ev. group_key ev = (ip, s)) evs"

lemma tick_intents_sound_aux:
  assumes "\<forall>g. set (order g) = set g" and "i \<in> set (intents (tick cfg order rs now e))"
  shows "i \<in> set (intents e) \<or>
    (\<exists>rule. gm_get rs (in_Source i) = Some rule \<and> Enabled rule \<and>
       in_TriggeringEventCount i = int (length (in_window now rule (matching (in_SrcIP i) (in_Source i) (tick_reads cfg now e)))) \<and>
       Threshold rule \<le> in_TriggeringEventCount i \<and>
       in_DurationSeconds i = duration_seconds (Duration rule))"
proof -
  let ?ok = "\<lambda>i. i \<in> set (intents e) \<or>
    (\<exists>rule. gm_get rs (in_Source i) = Some rule \<and> Enabled rule \<and>
       in_TriggeringEventCount i = int (length (in_window now rule (matching (in_SrcIP i) (in_Source i) (tick_reads cfg now e)))) \<and>
       Threshold rule \<le> in_TriggeringEventCount i \<and> in_DurationSeconds i = duration_seconds (Duration rule))"
  have "\<forall>i \<in> set (intents (tick cfg order rs now e)). ?ok i"
  proof (rule tick_induct)
    fix g and e1 :: Engine assume g: "g \<in> set (order (group_events (tick_reads cfg now e)))" and ih: "\<forall>i \<in> set (intents e1). ?ok i"
    obtain k evs where kv: "g = (k, evs)" by fastforce
    with g assms(1) have evs: "evs = matching (fst k) (snd k) (tick_reads cfg now e)"
      by (auto simp: group_events_mem matching_def)
    show "\<forall>i \<in> set (intents (visit_group cfg rs now g e1)). ?ok i"
      unfolding kv by (rule visit_group_intents [of cfg rs now k evs e1]) (use ih evs in \<open>auto simp: mk_intent_def\<close>)
  qed simp
  with assms(2) show ?thesis by blast
qed

text \<open>
  No ban without cause. Every intent that a tick adds is for a rule that is enabled, and counts
  exactly the events of that address and source which this tick read and which lie inside the
  rule's window; there are at least as many as the threshold, and the ban has the rule's duration.
\<close>

theorem tick_intents_sound:
  assumes "\<forall>g. set (order g) = set g" and "i \<in> set (intents (tick cfg order rs now e))"
  shows "i \<in> set (intents e) \<or>
    (\<exists>rule. gm_get rs (in_Source i) = Some rule \<and> Enabled rule \<and>
       in_TriggeringEventCount i = int (length (in_window now rule (matching (in_SrcIP i) (in_Source i) (tick_reads cfg now e)))) \<and>
       Threshold rule \<le> in_TriggeringEventCount i \<and>
       in_DurationSeconds i = duration_seconds (Duration rule))"
  by (rule tick_intents_sound_aux [OF assms])

text \<open>
  A concrete deployment for the examples: the readers answer from a log of events, latest first,
  from the cursor (included) to the present (excluded), as the queries of the event store do.
\<close>

definition log_reader :: "SourceEvent list \<Rightarrow> reader" where
  "log_reader evs = (\<lambda>from to lim. Inr (take lim (rev (filter (\<lambda>ev. from \<le> se_Ts ev \<and> se_Ts ev < to) evs))))"

definition auth_cfg :: "SourceEvent list \<Rightarrow> EngineConfig" where
  "auth_cfg evs = \<lparr>Waf = log_reader [], Throttle = log_reader [], Audit = log_reader evs,
     DedupeChecker = Some (\<lambda>_ _ _. Inr False)\<rparr>"

definition auth_failure :: "int \<Rightarrow> SourceEvent" where
  "auth_failure sec = \<lparr>se_ID = ''a'', se_Ts = sec * ns_second, se_SrcIP = ''203.0.113.9'',
     se_Source = SourceAuthBurst, se_TriggeringEventID = ''a''\<rparr>"

definition burst_rules :: "int \<Rightarrow> RuleSet" where
  "burst_rules n = [(SourceAuthBurst, \<lparr>Enabled = True, Threshold = n, Window = 60 * ns_second,
     Duration = 4 * ns_hour, Cooldown = 24 * ns_hour\<rparr>)]"

definition booted :: "int \<Rightarrow> Engine" where
  "booted sec = init_cursors (sec * ns_second) NewEngine"

lemma two_failures:
  "intents (tick (auth_cfg [auth_failure 100, auth_failure 101]) id (burst_rules 2) (105 * ns_second) (booted 100)) =
     [\<lparr>in_SrcIP = ''203.0.113.9'', in_Source = SourceAuthBurst, in_TriggeringEventID = ''a'',
       in_TriggeringEventCount = 2, in_DurationSeconds = 14400\<rparr>]"
  by code_simp

theorem tick_intents_sound_witness:
  "int (length (in_window (105 * ns_second) (snd (hd (burst_rules 2)))
     (matching ''203.0.113.9'' SourceAuthBurst
        (tick_reads (auth_cfg [auth_failure 100, auth_failure 101]) (105 * ns_second) (booted 100))))) = 2"
proof -
  let ?cfg = "auth_cfg [auth_failure 100, auth_failure 101]"
  let ?i = "\<lparr>in_SrcIP = ''203.0.113.9'', in_Source = SourceAuthBurst, in_TriggeringEventID = ''a'',
       in_TriggeringEventCount = 2, in_DurationSeconds = 14400\<rparr>"
  have mem: "?i \<in> set (intents (tick ?cfg id (burst_rules 2) (105 * ns_second) (booted 100)))"
    unfolding two_failures by simp
  have "intents (booted 100) = []" by (simp add: booted_def init_cursors_def NewEngine_def)
  with tick_intents_sound [OF _ mem] show ?thesis by (simp add: burst_rules_def)
qed

section \<open>A threshold reached over several ticks\<close>

fun run_ticks :: "EngineConfig \<Rightarrow> (groups \<Rightarrow> groups) \<Rightarrow> RuleSet \<Rightarrow> time list \<Rightarrow> Engine \<Rightarrow> Engine" where
  "run_ticks cfg order rs [] e = e"
| "run_ticks cfg order rs (t # ts) e = run_ticks cfg order rs ts (tick cfg order rs t e)"

fun few_per_tick ::
  "string \<Rightarrow> Source \<Rightarrow> int \<Rightarrow> EngineConfig \<Rightarrow> (groups \<Rightarrow> groups) \<Rightarrow> RuleSet \<Rightarrow> time list \<Rightarrow> Engine \<Rightarrow> bool" where
  "few_per_tick ip s n cfg order rs [] e = True"
| "few_per_tick ip s n cfg order rs (t # ts) e =
     (int (length (matching ip s (tick_reads cfg t e))) < n \<and>
      few_per_tick ip s n cfg order rs ts (tick cfg order rs t e))"

text \<open>
  The rule's window is not a sliding window. However many events of an address fall into one
  window, no intent is emitted for it as long as each single tick reads fewer than the threshold:
  events of earlier ticks are gone from the count once the cursor has passed them.
\<close>

theorem window_not_summed_over_ticks:
  assumes "\<forall>g. set (order g) = set g" and "gm_get rs s = Some rule"
    and "few_per_tick ip s (Threshold rule) cfg order rs ts e"
    and "i \<in> set (intents (run_ticks cfg order rs ts e))" and "in_SrcIP i = ip" and "in_Source i = s"
  shows "i \<in> set (intents e)"
  using assms(3,4)
proof (induction ts arbitrary: e)
  case (Cons t ts)
  let ?e' = "tick cfg order rs t e"
  have mem: "i \<in> set (intents ?e')" using Cons by simp
  have "int (length (in_window t rule (matching ip s (tick_reads cfg t e)))) \<le> int (length (matching ip s (tick_reads cfg t e)))"
    by (simp add: in_window_def)
  then show ?case using tick_intents_sound_aux [OF assms(1) mem] Cons.prems(1) assms(2,5,6) by auto
qed simp

definition slow_failures :: "SourceEvent list" where
  "slow_failures = map auth_failure [100, 110, 120, 130, 140]"

definition slow_ticks :: "time list" where
  "slow_ticks = map (\<lambda>s. s * ns_second) [105, 110, 115, 120, 125, 130, 135, 140, 145]"

lemma slow_few: "few_per_tick ''203.0.113.9'' SourceAuthBurst 3 (auth_cfg slow_failures) id (burst_rules 3) slow_ticks (booted 100)"
  by code_simp

theorem window_not_summed_over_ticks_witness:
  "length (in_window (145 * ns_second) (snd (hd (burst_rules 3))) slow_failures) = 5 \<and>
   Threshold (snd (hd (burst_rules 3))) = 3 \<and>
   {i \<in> set (intents (run_ticks (auth_cfg slow_failures) id (burst_rules 3) slow_ticks (booted 100))).
      in_SrcIP i = ''203.0.113.9'' \<and> in_Source i = SourceAuthBurst} = {}"
proof -
  have "gm_get (burst_rules 3) SourceAuthBurst = Some (snd (hd (burst_rules 3)))"
    and "Threshold (snd (hd (burst_rules 3))) = 3" by (simp_all add: burst_rules_def)
  moreover have "length (in_window (145 * ns_second) (snd (hd (burst_rules 3))) slow_failures) = 5" by code_simp
  moreover have "intents (booted 100) = []" by (simp add: booted_def init_cursors_def NewEngine_def)
  ultimately show ?thesis
    using window_not_summed_over_ticks [of id "burst_rules 3" SourceAuthBurst "snd (hd (burst_rules 3))"
        "''203.0.113.9''" "auth_cfg slow_failures" slow_ticks "booted 100"] slow_few by auto
qed

section \<open>Cooldowns\<close>

text \<open>One step of the engine's two goroutines and of the tombstone listener.\<close>

datatype estep =
    ETick EngineConfig "groups \<Rightarrow> groups" RuleSet time
  | EWrite bool "nat \<Rightarrow> push_result" "nat \<Rightarrow> bool" time
  | ETombstone RuleSet time string string bool

fun do_estep :: "estep \<Rightarrow> Engine \<Rightarrow> Engine" where
  "do_estep (ETick cfg order rs now) e = tick cfg order rs now e"
| "do_estep (EWrite w push cancelled now) e = writer_turn w push cancelled now e"
| "do_estep (ETombstone rs now ip sc rvk) e = OnTombstone rs now ip sc rvk e"

fun untombed :: "time \<Rightarrow> estep \<Rightarrow> bool" where
  "untombed t (ETick cfg order rs now) \<longleftrightarrow> (\<forall>g. set (order g) = set g) \<and> now \<le> t"
| "untombed t (EWrite w push cancelled now) \<longleftrightarrow> True"
| "untombed t (ETombstone rs now ip sc rvk) \<longleftrightarrow> False"

definition bans :: "string \<Rightarrow> Source \<Rightarrow> Engine \<Rightarrow> Intent set" where
  "bans ip s e = {i \<in> set (intents e). in_SrcIP i = ip \<and> in_Source i = s}"

lemma Scenario_of_inj: "Scenario_of s = Scenario_of s' \<longleftrightarrow> s = s'"
  by (simp add: Scenario_of_def)

lemma processIntent_frame:
  "intents (fst (processIntent push cancelled now i e)) = intents e"
  "cooldown (fst (processIntent push cancelled now i e)) = cooldown e"
  by (auto simp: processIntent_def Let_def split: prod.splits push_verdict.splits)

lemma writer_turn_frame:
  "set (intents (writer_turn w push cancelled now e)) \<subseteq> set (intents e)"
  "cooldown (writer_turn w push cancelled now e) = cooldown e"
  by (auto simp: writer_turn_def Let_def processIntent_frame split: list.splits)

lemma tick_cooling:
  assumes "gm_get (cooldown e) (ip, Scenario_of s) = Some en" and "now \<le> Until en"
  shows "gm_get (cooldown (tick cfg order rs now e)) (ip, Scenario_of s) = Some en \<and>
    bans ip s (tick cfg order rs now e) \<subseteq> bans ip s e"
proof (rule tick_induct)
  fix e0 :: Engine assume "intents e0 = intents e" "cooldown e0 = cooldown e"
  with assms(1) show "gm_get (cooldown e0) (ip, Scenario_of s) = Some en \<and> bans ip s e0 \<subseteq> bans ip s e"
    by (simp add: bans_def)
next
  fix g :: "groupKey \<times> SourceEvent list" and e1 :: Engine
  assume ih: "gm_get (cooldown e1) (ip, Scenario_of s) = Some en \<and> bans ip s e1 \<subseteq> bans ip s e"
  obtain k evs where g: "g = (k, evs)" by fastforce
  have cool: "snd (HasCooldown now ip (Scenario_of s) (cooldown e1))"
    using ih assms(2) by (simp add: HasCooldown_def)
  have "bans ip s (visit_group cfg rs now (k, evs) e1) \<subseteq> bans ip s e1"
    by (rule visit_group_intents [of cfg rs now k evs e1]) (use cool in \<open>auto simp: bans_def mk_intent_def\<close>)
  with ih visit_group_cooldown [of e1 _ en now] assms(2)
  show "gm_get (cooldown (visit_group cfg rs now g e1)) (ip, Scenario_of s) = Some en \<and>
      bans ip s (visit_group cfg rs now g e1) \<subseteq> bans ip s e"
    unfolding g by blast
qed

lemma run_cooling:
  assumes "gm_get (cooldown e) (ip, Scenario_of s) = Some en" and "\<forall>x \<in> set steps. untombed (Until en) x"
  shows "bans ip s (fold do_estep steps e) \<subseteq> bans ip s e"
  using assms
proof (induction steps arbitrary: e)
  case (Cons x steps)
  have "gm_get (cooldown (do_estep x e)) (ip, Scenario_of s) = Some en \<and> bans ip s (do_estep x e) \<subseteq> bans ip s e"
  proof (cases x)
    case (ETick cfg order rs now)
    with Cons.prems tick_cooling [OF Cons.prems(1)] show ?thesis by simp
  next
    case (EWrite w push cancelled now)
    with Cons.prems(1) writer_turn_frame [of w push cancelled now e] show ?thesis by (auto simp: bans_def)
  qed (use Cons.prems in simp)
  with Cons.IH [of "do_estep x e"] Cons.prems(2) show ?case by auto
qed simp

lemma OnTombstone_records:
  assumes "IsKnown s" "gm_get rs s = Some rule" "Cooldown rule > 0" "gm_wf (cooldown e)"
    and "int (length (cooldown e)) < cooldownMaxEntries"
  shows "gm_get (cooldown (OnTombstone rs now ip (Scenario_of s) True e)) (ip, Scenario_of s) =
      Some \<lparr>ObservedAt = now, Until = now + Cooldown rule\<rparr> \<and>
    intents (OnTombstone rs now ip (Scenario_of s) True e) = intents e"
proof -
  have s: "s \<noteq> []" using assms(1) by (auto simp: IsKnown_def AllSources_def source_defs)
  let ?v = "\<lparr>ObservedAt = now, Until = now + Cooldown rule\<rparr>"
  have "length (gm_put (ip, Scenario_of s) ?v (cooldown e)) \<le> Suc (length (cooldown e))" by simp
  then have "\<not> int (length (gm_put (ip, Scenario_of s) ?v (cooldown e))) > cooldownMaxEntries"
    using assms(5) by linarith
  then have rec: "cooldown_Record now ip (Scenario_of s) (Cooldown rule) (cooldown e) = gm_put (ip, Scenario_of s) ?v (cooldown e)"
    using assms(3) unfolding cooldown_Record_def Let_def by (simp only: if_False not_le [symmetric])
  have sc: "length (Scenario_of s) > length ''arenet/''" "take (length ''arenet/'') (Scenario_of s) = ''arenet/''"
    "drop (length ''arenet/'') (Scenario_of s) = s" using s by (simp_all add: Scenario_of_def)
  have "cooldown (OnTombstone rs now ip (Scenario_of s) True e) =
      cooldown_Record now ip (Scenario_of s) (Cooldown rule) (cooldown e)"
    unfolding OnTombstone_def Let_def using sc assms(1-3) by simp
  moreover have "intents (OnTombstone rs now ip (Scenario_of s) True e) = intents e"
    unfolding OnTombstone_def Let_def using sc assms(1-3) by simp
  ultimately show ?thesis unfolding rec by simp
qed

text \<open>
  C29: an operator's unban is honoured. After the tombstone of a revoked ban, and while the cache
  has room, no sequence of ticks and pushes adds an intent for that address and source before the
  rule's cooldown has run out.
\<close>

theorem unban_honoured:
  assumes "IsKnown s" and "gm_get rs s = Some rule" and "Cooldown rule > 0"
    and "gm_wf (cooldown e)" and "int (length (cooldown e)) < cooldownMaxEntries"
    and "\<forall>x \<in> set steps. untombed (t0 + Cooldown rule) x"
  shows "bans ip s (fold do_estep steps (OnTombstone rs t0 ip (Scenario_of s) True e)) \<subseteq> bans ip s e"
proof -
  note r = OnTombstone_records [OF assms(1-5), of t0 ip]
  from run_cooling [OF conjunct1 [OF r], of steps] assms(6) r show ?thesis by (simp add: bans_def)
qed

theorem unban_honoured_witness:
  "bans ''203.0.113.9'' SourceAuthBurst
     (fold do_estep [ETick (auth_cfg [auth_failure 100, auth_failure 101]) id (burst_rules 2) (105 * ns_second)]
        (OnTombstone (burst_rules 2) (90 * ns_second) ''203.0.113.9'' (Scenario_of SourceAuthBurst) True (booted 100))) \<subseteq>
   bans ''203.0.113.9'' SourceAuthBurst (booted 100)"
  by (rule unban_honoured [where rule = "snd (hd (burst_rules 2))"])
    (simp_all add: IsKnown_def AllSources_def burst_rules_def booted_def init_cursors_def NewEngine_def gm_wf_def
      cooldownMaxEntries_def ns_hour_def ns_minute_def ns_second_def)

text \<open>
  an expired ban leaves no immunity. The tombstone of a ban that ran its term changes no
  cooldown and forgets every cached verdict about the address, so the next tick asks again.
\<close>

theorem expiry_leaves_no_cooldown:
  "cooldown (OnTombstone rs now ip sc False e) = cooldown e \<and>
   Lookup now' ''Ip'' ip sc' (dedupe (OnTombstone rs now ip sc False e)) =
     (dedupe (OnTombstone rs now ip sc False e), False, False)"
proof -
  have "gm_get (Invalidate ''Ip'' ip d) (''Ip'', ip, sc') = None" for d
    by (induction d) (auto simp: Invalidate_def)
  then show ?thesis by (simp add: OnTombstone_def Lookup_def)
qed

section \<open>Bounds\<close>

definition engine_inv :: "Engine \<Rightarrow> bool" where
  "engine_inv e \<longleftrightarrow> gm_wf (cooldown e) \<and> int (length (cooldown e)) \<le> cooldownMaxEntries \<and>
     gm_wf (dedupe e) \<and> int (length (dedupe e)) \<le> dedupeMaxEntries \<and>
     int (length (intents e)) \<le> writerChanBuffer"

lemma HasCooldown_length: "length (fst (HasCooldown now ip sc m)) \<le> length m"
  by (simp add: HasCooldown_def gm_len_del_le split: option.splits)

lemma Lookup_length: "length (fst (Lookup now s v sc m)) \<le> length m"
  by (simp add: Lookup_def gm_len_del_le split: option.splits)

lemma check_active_inv:
  assumes "engine_inv e"
  shows "engine_inv (fst (check_active cfg now ip sc e))"
proof -
  obtain d active hit where l: "Lookup now ''Ip'' ip sc (dedupe e) = (d, active, hit)" by (metis prod_cases3)
  have d: "gm_wf d" "int (length d) \<le> dedupeMaxEntries"
    using assms Lookup_wf [of "dedupe e" now "''Ip''" ip sc] Lookup_length [of now "''Ip''" ip sc "dedupe e"]
    by (simp_all add: l engine_inv_def)
  have "engine_inv (e\<lparr>dedupe := d\<rparr>)" "engine_inv (e\<lparr>dedupe := dedupe_Record now ''Ip'' ip sc a d\<rparr>)" for a
    using assms d dedupe_Record_bounded [OF d] by (simp_all add: engine_inv_def)
  then show ?thesis by (auto simp: check_active_def l Let_def split: option.splits sum.splits)
qed

lemma emit_intent_inv: "engine_inv e \<Longrightarrow> engine_inv (emit_intent i e)"
  by (simp add: engine_inv_def emit_intent_def)

lemma visit_group_inv:
  assumes "engine_inv e"
  shows "engine_inv (visit_group cfg rs now g e)"
proof -
  obtain k evs where g: "g = (k, evs)" by fastforce
  obtain c cooling where h: "HasCooldown now (fst k) (Scenario_of (snd k)) (cooldown e) = (c, cooling)" by fastforce
  obtain e2 active where a: "check_active cfg now (fst k) (Scenario_of (snd k)) (e\<lparr>cooldown := c\<rparr>) = (e2, active)" by fastforce
  have "gm_wf c" "length c \<le> length (cooldown e)"
    using assms HasCooldown_wf [of "cooldown e"] HasCooldown_length [of _ _ _ "cooldown e"] h
    by (metis engine_inv_def fst_conv)+
  then have 1: "engine_inv (e\<lparr>cooldown := c\<rparr>)" using assms by (simp add: engine_inv_def)
  have "engine_inv e2" using check_active_inv [OF 1] a by (metis fst_conv)
  with 1 assms show ?thesis by (simp add: g visit_group_def h a Let_def emit_intent_inv split: option.splits)
qed

lemma tick_inv: "engine_inv e \<Longrightarrow> engine_inv (tick cfg order rs now e)"
  by (rule tick_induct) (simp_all add: visit_group_inv engine_inv_def [of e], simp add: engine_inv_def)

lemma writer_turn_inv:
  assumes "engine_inv e"
  shows "engine_inv (writer_turn w push cancelled now e)"
proof -
  have "engine_inv (e\<lparr>intents := r\<rparr>)" if "intents e = i # r" for i r
    using assms that by (simp add: engine_inv_def)
  moreover have "engine_inv (fst (processIntent push cancelled now i e1))" if "engine_inv e1" for i e1
    using that dedupe_Record_bounded [of "dedupe e1"]
    by (auto simp: processIntent_def engine_inv_def Let_def split: prod.splits push_verdict.splits)
  ultimately show ?thesis using assms by (auto simp: writer_turn_def Let_def split: list.splits)
qed

lemma Invalidate_shrinks: "gm_wf m \<Longrightarrow> gm_wf (Invalidate s v m)" "length (Invalidate s v m) \<le> length m"
  by (auto simp: Invalidate_def gm_wf_def distinct_map_filter)

lemma OnTombstone_inv:
  assumes "engine_inv e"
  shows "engine_inv (OnTombstone rs now ip sc rvk e)"
proof -
  have 1: "engine_inv (e\<lparr>dedupe := Invalidate ''Ip'' ip (dedupe e)\<rparr>)"
    using assms Invalidate_shrinks [where m = "dedupe e" and s = "''Ip''" and v = ip] by (simp add: engine_inv_def)
  moreover have "engine_inv (e\<lparr>dedupe := Invalidate ''Ip'' ip (dedupe e), cooldown := cooldown_Record now ip sc t (cooldown e)\<rparr>)" for t
    using 1 cooldown_Record_bounded [of "cooldown e"] by (simp add: engine_inv_def)
  ultimately show ?thesis unfolding OnTombstone_def Let_def by (simp split: option.splits)
qed

text \<open>
  The engine's memory is bounded. Whatever the readers return and in whatever order ticks,
  pushes and tombstones happen, the cooldown cache stays within 10000 entries, the
  de-duplication cache within 1024 and the queue of intents within 1024.
\<close>

theorem engine_bounded:
  "engine_inv (fold do_estep steps (init_cursors t0 NewEngine))"
proof -
  have "engine_inv (do_estep x e)" if "engine_inv e" for x e
    using that by (cases x) (simp_all add: tick_inv writer_turn_inv OnTombstone_inv)
  then have "engine_inv e \<Longrightarrow> engine_inv (fold do_estep steps e)" for e by (induction steps arbitrary: e) simp_all
  moreover have "engine_inv (init_cursors t0 NewEngine)"
    by (simp add: engine_inv_def init_cursors_def NewEngine_def gm_wf_def cooldownMaxEntries_def dedupeMaxEntries_def
        writerChanBuffer_def)
  ultimately show ?thesis by blast
qed

section \<open>The writer\<close>

lemma push_loop_waits:
  assumes "push_loop push cancelled b as = (v, ws)" and "0 < b" and "b \<le> writerBackoffMax"
  shows "length ws \<le> length as \<and> (\<forall>w \<in> set ws. 0 < w \<and> w \<le> writerBackoffMax)"
  using assms
proof (induction as arbitrary: b v ws)
  case (Cons a as)
  show ?case
  proof (cases "push a = PushUnavailable \<and> \<not> cancelled a")
    case True
    let ?b = "if b * 2 > writerBackoffMax then writerBackoffMax else b * 2"
    obtain v' ws' where r: "push_loop push cancelled ?b as = (v', ws')" by fastforce
    have "0 < ?b" "?b \<le> writerBackoffMax" using Cons.prems(2,3) by auto
    from Cons.IH [OF r this] show ?thesis using True r Cons.prems by (auto split: if_splits)
  qed (use Cons.prems in \<open>auto split: push_result.splits if_splits\<close>)
qed simp

text \<open>
  A push always ends. The writer makes at most five attempts with at most five waits of at most
  thirty seconds, and then exactly one of the outcome counters has moved, unless the engine is
  shutting down; only a successful push marks the address as banned.
\<close>

theorem processIntent_ends:
  assumes "processIntent push cancelled now i e = (e', v, ws)"
  shows "length ws \<le> writerMaxRetries \<and> (\<forall>w \<in> set ws. 0 < w \<and> w \<le> writerBackoffMax) \<and>
    (totalPushSuccess e' - totalPushSuccess e) + (totalPushPermanent e' - totalPushPermanent e) +
      (totalPushDropped e' - totalPushDropped e) = (if v = Cancelled then 0 else 1) \<and>
    (v \<noteq> Pushed \<longrightarrow> dedupe e' = dedupe e)"
proof -
  obtain v' ws' where l: "push_loop push cancelled writerBackoffInitial [1..<Suc writerMaxRetries] = (v', ws')" by fastforce
  have eq: "v' = v" "ws' = ws" using assms l by (auto simp: processIntent_def Let_def)
  have "length ws \<le> length [1..<Suc writerMaxRetries] \<and> (\<forall>w \<in> set ws. 0 < w \<and> w \<le> writerBackoffMax)"
    using push_loop_waits [OF l] eq by (simp add: writerBackoffInitial_def writerBackoffMax_def ns_second_def)
  then show ?thesis using assms l eq
    by (cases v) (auto simp: processIntent_def Let_def writerMaxRetries_def simp del: push_loop.simps upt_Suc)
qed

theorem processIntent_ends_witness:
  "\<exists>e' v ws. processIntent (\<lambda>_. PushUnavailable) (\<lambda>_. False) 0
     \<lparr>in_SrcIP = ''203.0.113.9'', in_Source = SourceAuthBurst, in_TriggeringEventID = ''a'', in_TriggeringEventCount = 2,
      in_DurationSeconds = 14400\<rparr> (booted 100) = (e', v, ws) \<and> length ws \<le> writerMaxRetries \<and> dedupe e' = []"
proof -
  let ?i = "\<lparr>in_SrcIP = ''203.0.113.9'', in_Source = SourceAuthBurst, in_TriggeringEventID = ''a'', in_TriggeringEventCount = 2,
      in_DurationSeconds = 14400\<rparr>"
  obtain e' v ws where p: "processIntent (\<lambda>_. PushUnavailable) (\<lambda>_. False) 0 ?i (booted 100) = (e', v, ws)" by (metis prod_cases3)
  have "fst (push_loop (\<lambda>_. PushUnavailable) (\<lambda>_. False) writerBackoffInitial [1..<Suc writerMaxRetries]) = Exhausted" by code_simp
  then have "v \<noteq> Pushed" using p by (auto simp: processIntent_def Let_def split: prod.splits simp del: push_loop.simps)
  moreover have "dedupe (booted 100) = []" by (simp add: booted_def init_cursors_def NewEngine_def)
  ultimately show ?thesis using p processIntent_ends [OF p] by auto
qed

end
