(* ===== verification/AutoFires.thy ===== *)
theory AutoFires
  imports AutoRuns
begin

text \<open>
  The other direction of the tick: a rule whose threshold is met by the events a tick reads does
  fire, unless a cooldown, an active ban or a full queue prevents it.
\<close>

definition ready :: "time \<Rightarrow> groupKey \<Rightarrow> nat \<Rightarrow> Engine \<Rightarrow> bool" where
  "ready now k n e \<longleftrightarrow>
     gm_wf (dedupe e) \<and> int (length (intents e)) + int n \<le> writerChanBuffer \<and>
     (\<forall>en. gm_get (cooldown e) (fst k, Scenario_of (snd k)) = Some en \<longrightarrow> Until en < now) \<and>
     (\<forall>d. gm_get (dedupe e) (''Ip'', fst k, Scenario_of (snd k)) = Some d \<longrightarrow> ActiveInLAPI d \<longrightarrow>
        time_sub now (CheckedAt d) > dedupeTTL)"

definition not_banned :: "EngineConfig \<Rightarrow> groupKey \<Rightarrow> bool" where
  "not_banned cfg k \<longleftrightarrow>
     (\<forall>chk. DedupeChecker cfg = Some chk \<longrightarrow> chk ''Ip'' (fst k) (Scenario_of (snd k)) \<noteq> Inr True)"

lemma dedupe_Record_other:
  assumes "gm_wf m" and "key \<noteq> (s, v, sc)"
  shows "gm_get (dedupe_Record now s v sc a m) key \<in> {gm_get m key, None}"
proof -
  let ?m1 = "gm_put (s, v, sc) \<lparr>ActiveInLAPI = a, CheckedAt = now\<rparr> m"
  have "gm_get (dedupe_evict ?m1) key = gm_get ?m1 key \<or> gm_get (dedupe_evict ?m1) key = None"
    by (rule dd.evict_get) (use assms(1) in simp_all)
  then show ?thesis using assms(2) by (auto simp: dedupe_Record_def Let_def)
qed

lemma Lookup_other:
  "key \<noteq> (s, v, sc) \<Longrightarrow> gm_get (fst (Lookup now s v sc m)) key = gm_get m key"
  by (auto simp: Lookup_def split: option.splits)

lemma check_active_dedupe:
  assumes "gm_wf (dedupe e)"
  shows "gm_wf (dedupe (fst (check_active cfg now ip sc e)))"
    and "key \<noteq> (''Ip'', ip, sc) \<Longrightarrow>
      gm_get (dedupe (fst (check_active cfg now ip sc e))) key \<in> {gm_get (dedupe e) key, None}"
proof -
  let ?d' = "dedupe (fst (check_active cfg now ip sc e))" and ?d = "fst (Lookup now ''Ip'' ip sc (dedupe e))"
  have d: "gm_wf ?d" by (simp add: assms)
  have cases: "?d' = ?d \<or> (\<exists>a. ?d' = dedupe_Record now ''Ip'' ip sc a ?d)"
    by (auto simp: check_active_def Let_def split: prod.splits option.splits sum.splits)
  then show "gm_wf ?d'" using d by (metis dedupe_Record_wf)
  assume key: "key \<noteq> (''Ip'', ip, sc)"
  have l: "gm_get ?d key = gm_get (dedupe e) key" by (rule Lookup_other [OF key])
  from cases show "gm_get ?d' key \<in> {gm_get (dedupe e) key, None}"
  proof
    assume "?d' = ?d"
    then show ?thesis using l by simp
  next
    assume "\<exists>a. ?d' = dedupe_Record now ''Ip'' ip sc a ?d"
    then obtain a where "?d' = dedupe_Record now ''Ip'' ip sc a ?d" ..
    with dedupe_Record_other [OF d key, of now a] show ?thesis unfolding l by simp
  qed
qed

text \<open>What a visit does to the three parts of the state, by cases.\<close>

lemma visit_group_cases:
  obtains "visit_group cfg rs now (k, evs) e = e"
  | c where "c = fst (HasCooldown now (fst k) (Scenario_of (snd k)) (cooldown e))"
      "visit_group cfg rs now (k, evs) e = e\<lparr>cooldown := c\<rparr>"
  | c e2 where "c = fst (HasCooldown now (fst k) (Scenario_of (snd k)) (cooldown e))"
      "e2 = fst (check_active cfg now (fst k) (Scenario_of (snd k)) (e\<lparr>cooldown := c\<rparr>))"
      "visit_group cfg rs now (k, evs) e = e2 \<or> (\<exists>i. visit_group cfg rs now (k, evs) e = emit_intent i e2)"
proof -
  obtain c cooling where h: "HasCooldown now (fst k) (Scenario_of (snd k)) (cooldown e) = (c, cooling)" by fastforce
  obtain e2 active where a: "check_active cfg now (fst k) (Scenario_of (snd k)) (e\<lparr>cooldown := c\<rparr>) = (e2, active)" by fastforce
  have "visit_group cfg rs now (k, evs) e = e \<or> visit_group cfg rs now (k, evs) e = e\<lparr>cooldown := c\<rparr> \<or>
      visit_group cfg rs now (k, evs) e = e2 \<or> (\<exists>i. visit_group cfg rs now (k, evs) e = emit_intent i e2)"
    by (auto simp: visit_group_def h a Let_def split: option.splits)
  with that h a show thesis by (metis fst_conv)
qed

lemma ready_visit_other:
  assumes r: "ready now k (Suc n) e" and "k' \<noteq> k"
  shows "ready now k n (visit_group cfg rs now (k', evs) e)"
proof -
  have ne: "(fst k', Scenario_of (snd k')) \<noteq> (fst k, Scenario_of (snd k))"
    using assms(2) by (auto simp: Scenario_of_inj prod_eq_iff)
  have cool: "gm_get (fst (HasCooldown now (fst k') (Scenario_of (snd k')) (cooldown e))) (fst k, Scenario_of (snd k)) =
      gm_get (cooldown e) (fst k, Scenario_of (snd k))"
    using ne by (auto simp: HasCooldown_def split: option.splits)
  show ?thesis
  proof (rule visit_group_cases [of cfg rs now k' evs e])
    assume "visit_group cfg rs now (k', evs) e = e"
    then show ?thesis using r by (simp add: ready_def)
  next
    fix c assume "c = fst (HasCooldown now (fst k') (Scenario_of (snd k')) (cooldown e))"
      "visit_group cfg rs now (k', evs) e = e\<lparr>cooldown := c\<rparr>"
    then show ?thesis using r cool by (simp add: ready_def)
  next
    fix c e2 assume c: "c = fst (HasCooldown now (fst k') (Scenario_of (snd k')) (cooldown e))"
      and e2: "e2 = fst (check_active cfg now (fst k') (Scenario_of (snd k')) (e\<lparr>cooldown := c\<rparr>))"
      and v: "visit_group cfg rs now (k', evs) e = e2 \<or> (\<exists>i. visit_group cfg rs now (k', evs) e = emit_intent i e2)"
    have key: "(''Ip'', fst k, Scenario_of (snd k)) \<noteq> (''Ip'', fst k', Scenario_of (snd k'))" using ne by auto
    have wf: "gm_wf (dedupe (e\<lparr>cooldown := c\<rparr>))" using r by (simp add: ready_def)
    note d = check_active_dedupe [OF wf, where cfg = cfg and now = now and ip = "fst k'" and sc = "Scenario_of (snd k')"]
    have "ready now k (Suc n) e2"
      using r cool c d(1) d(2) [OF key]
      by (auto simp: ready_def e2 check_active_frame)
    then have "ready now k n e2" "ready now k n (emit_intent i e2)" for i
      by (auto simp: ready_def emit_intent_frame)
    with v show ?thesis by metis
  qed
qed

lemma ready_visit_self:
  assumes r: "ready now k (Suc n) e" and "gm_get rs (snd k) = Some rule" "Enabled rule"
    and "Threshold rule \<le> int (length (in_window now rule evs))" and nb: "not_banned cfg k"
  shows "mk_intent now k rule evs \<in> set (intents (visit_group cfg rs now (k, evs) e))"
proof -
  let ?sc = "Scenario_of (snd k)"
  obtain c cooling where h: "HasCooldown now (fst k) ?sc (cooldown e) = (c, cooling)" by fastforce
  have cool: "\<not> cooling" using r h by (auto simp: ready_def HasCooldown_def split: option.splits if_splits)
  obtain e2 active where a: "check_active cfg now (fst k) ?sc (e\<lparr>cooldown := c\<rparr>) = (e2, active)" by fastforce
  have act: "\<not> active"
    using a r nb by (auto simp: ready_def not_banned_def check_active_def Lookup_def Let_def
        split: option.splits sum.splits if_splits)
  have room: "int (length (intents e2)) < writerChanBuffer"
    using check_active_frame(2) [of cfg now "fst k" ?sc "e\<lparr>cooldown := c\<rparr>"] a r by (simp add: ready_def)
  have "length (in_window now rule evs) \<le> length evs" by (simp add: in_window_def)
  then have "\<not> int (length evs) < Threshold rule" using assms(4) by linarith
  then have "visit_group cfg rs now (k, evs) e = emit_intent (mk_intent now k rule evs) e2"
    using assms(2-4) h a cool act by (simp add: visit_group_def Let_def)
  with room show ?thesis by (simp add: emit_intent_frame)
qed

lemma visit_keeps_intents: "set (intents e) \<subseteq> set (intents (visit_group cfg rs now g e))"
proof -
  obtain k evs where g: "g = (k, evs)" by fastforce
  show ?thesis unfolding g by (rule visit_group_intents [of cfg rs now k evs e]) auto
qed

lemma fold_visit_keeps: "set (intents e) \<subseteq> set (intents (fold (visit_group cfg rs now) gs e))"
proof (induction gs arbitrary: e)
  case (Cons g gs)
  then show ?case using visit_keeps_intents [of e cfg rs now g] Cons [of "visit_group cfg rs now g e"] by auto
qed simp

lemma fold_visit_fires:
  assumes "(k, evs) \<in> set gs" and "gm_wf gs" and "ready now k (length gs) e"
    and "gm_get rs (snd k) = Some rule" "Enabled rule" "Threshold rule \<le> int (length (in_window now rule evs))"
    and "not_banned cfg k"
  shows "mk_intent now k rule evs \<in> set (intents (fold (visit_group cfg rs now) gs e))"
  using assms(1-3)
proof (induction gs arbitrary: e)
  case (Cons g gs)
  show ?case
  proof (cases "g = (k, evs)")
    case True
    have r: "ready now k (Suc (length gs)) e" using Cons.prems(3) by simp
    show ?thesis using subsetD [OF fold_visit_keeps ready_visit_self [OF r assms(4-7)]] True by simp
  next
    case False
    obtain k' evs' where g: "g = (k', evs')" by fastforce
    have "(k, evs) \<in> set gs" using Cons.prems(1) False by simp
    moreover from this have "k' \<noteq> k" using Cons.prems(2) by (force simp: g gm_wf_def)
    moreover have "gm_wf gs" using Cons.prems(2) by (simp add: gm_wf_def)
    moreover have "ready now k (Suc (length gs)) e" using Cons.prems(3) by simp
    ultimately show ?thesis using Cons.IH ready_visit_other by (simp add: g)
  qed
qed simp

text \<open>
  C28: a due ban is emitted. If the events of an address and source that a tick reads inside the
  rule's window reach the threshold of an enabled rule, no cooldown is running, neither the
  cache nor the checker knows an active ban, and the queue has room for one intent per group, then
  the tick queues the intent, in whatever order the groups are visited.
\<close>

theorem tick_fires:
  assumes "\<forall>g. mset (order g) = mset g" and "AnyEnabled rs"
    and "gm_get rs s = Some rule" and "Enabled rule" and "0 < Threshold rule"
    and "Threshold rule \<le> int (length (in_window now rule (matching ip s (tick_reads cfg now e))))"
    and "not_banned cfg (ip, s)"
    and "ready now (ip, s) (length (group_events (tick_reads cfg now e))) e"
  shows "mk_intent now (ip, s) rule (matching ip s (tick_reads cfg now e)) \<in> set (intents (tick cfg order rs now e))"
proof -
  let ?evs = "tick_reads cfg now e" and ?m = "matching ip s (tick_reads cfg now e)"
  let ?gs = "order (group_events ?evs)"
  let ?e1 = "fst (read_all cfg now (e\<lparr>totalTicks := totalTicks e + 1\<rparr>))"
  have ne: "?m \<noteq> []" using assms(5,6) by (auto simp: in_window_def)
  then have ne': "?evs \<noteq> []" by (auto simp: matching_def)
  have "((ip, s), ?m) \<in> set (group_events ?evs)" using ne by (simp add: group_events_mem matching_def)
  then have mem: "((ip, s), ?m) \<in> set ?gs" using assms(1) by (metis set_mset_mset)
  have "mset (map fst ?gs) = mset (map fst (group_events ?evs))" using assms(1) by simp
  then have wf: "gm_wf ?gs" using group_events_wf [of ?evs] by (metis gm_wf_def mset_eq_imp_distinct_iff)
  have len: "length ?gs = length (group_events ?evs)" using assms(1) by (metis size_mset)
  have "ready now (ip, s) (length ?gs) ?e1" using assms(8) unfolding len by (simp add: ready_def read_all_frame)
  with fold_visit_fires [OF mem wf this, of rs rule cfg] assms(3,4,6,7)
  show ?thesis using assms(2) ne' by (simp add: tick_unfold Let_def)
qed

theorem tick_fires_witness:
  "intents (tick (auth_cfg [auth_failure 100, auth_failure 101]) id (burst_rules 2) (105 * ns_second) (booted 100)) \<noteq> []"
proof -
  let ?cfg = "auth_cfg [auth_failure 100, auth_failure 101]"
  have r: "tick_reads ?cfg (105 * ns_second) (booted 100) = [auth_failure 101, auth_failure 100]" by code_simp
  have g: "length (group_events [auth_failure 101, auth_failure 100]) = 1" by code_simp
  have m: "matching ''203.0.113.9'' SourceAuthBurst [auth_failure 101, auth_failure 100] = [auth_failure 101, auth_failure 100]"
    by code_simp
  have w: "length (in_window (105 * ns_second) (snd (hd (burst_rules 2))) [auth_failure 101, auth_failure 100]) = 2" by code_simp
  have "ready (105 * ns_second) (''203.0.113.9'', SourceAuthBurst) 1 (booted 100)"
    by (simp add: ready_def booted_def init_cursors_def NewEngine_def gm_wf_def writerChanBuffer_def)
  moreover have "gm_get (burst_rules 2) SourceAuthBurst = Some (snd (hd (burst_rules 2)))" "AnyEnabled (burst_rules 2)"
    "Enabled (snd (hd (burst_rules 2)))" "Threshold (snd (hd (burst_rules 2))) = 2"
    by (simp_all add: burst_rules_def AnyEnabled_def)
  moreover have "not_banned ?cfg (''203.0.113.9'', SourceAuthBurst)" by (simp add: not_banned_def auth_cfg_def)
  ultimately show ?thesis
    using tick_fires [of id "burst_rules 2" SourceAuthBurst "snd (hd (burst_rules 2))" "105 * ns_second" "''203.0.113.9''" ?cfg "booted 100"]
      r g m w by fastforce
qed

end
