(* ===== verification/Sessions.thy ===== *)
theory Sessions
  imports Prelude
begin

text \<open>
  The session store, \<open>internal/auth/sessionstore.go\<close>, on the \<open>sessions\<close> bucket of the embedded
  database. The bucket is a map from key to row, a row is a session or bytes that do not decode
  (\<open>None\<close>), and a missing bucket is \<open>None\<close>. Each operation is one transaction. SHA-256 is the
  argument \<open>sha\<close>, the random identifier of a new session is an argument, and the clock is one
  too.
\<close>

record Session =
  ID :: string
  UserID :: string
  IssuedAt :: time
  SessExpiresAt :: time
  LastActivity :: time
  RememberMe :: bool
  IP :: string
  UserAgent :: string

type_synonym session_db = "(string, Session option) gomap option"

datatype auth_error = ErrSessionNotFound | ErrSessionExpired | ErrUserNotFound | ErrEmptyUserID
  | ErrRandom | ErrBucketMissing | ErrUnmarshal | ErrStorage string

definition SessionTTLDefault :: duration where "SessionTTLDefault = 24 * ns_hour"
definition SessionTTLRememberMe :: duration where "SessionTTLRememberMe = 30 * 24 * ns_hour"
definition SessionIdleTimeout :: duration where "SessionIdleTimeout = 15 * ns_minute"

definition session_ttl :: "bool \<Rightarrow> duration" where
  "session_ttl remember = (if remember then SessionTTLRememberMe else SessionTTLDefault)"

section \<open>Handles\<close>

definition hexEncode :: "string \<Rightarrow> string" where
  "hexEncode bs = concat (map (\<lambda>b. [hex_digit (byte_of b div 16), hex_digit (byte_of b mod 16)]) bs)"

definition SessionHandle :: "(string \<Rightarrow> string) \<Rightarrow> string \<Rightarrow> string" where
  "SessionHandle sha sid = hexEncode (sha sid)"

definition isSessionHandle :: "string \<Rightarrow> bool" where
  "isSessionHandle k \<longleftrightarrow> length k = 64 \<and>
     (\<forall>c \<in> set k. \<not> ((byte_of c < byte_of CHR ''0'' \<or> byte_of c > byte_of CHR ''9'') \<and>
                      (byte_of c < byte_of CHR ''a'' \<or> byte_of c > byte_of CHR ''f'')))"

section \<open>Operations\<close>

definition Create ::
  "(string \<Rightarrow> string) \<Rightarrow> string option \<Rightarrow> time \<Rightarrow> string \<Rightarrow> bool \<Rightarrow> string \<Rightarrow> string \<Rightarrow> session_db \<Rightarrow>
     session_db \<times> (auth_error + Session)" where
  "Create sha rnd now userID rememberMe ip userAgent db =
     (if userID = [] then (db, Inl ErrEmptyUserID)
      else case rnd of
             None \<Rightarrow> (db, Inl ErrRandom)
           | Some sid \<Rightarrow>
               let sess = \<lparr>ID = sid, UserID = userID, IssuedAt = now, SessExpiresAt = now + session_ttl rememberMe,
                           LastActivity = now, RememberMe = rememberMe, IP = ip, UserAgent = userAgent\<rparr>
               in case db of
                    None \<Rightarrow> (None, Inl ErrBucketMissing)
                  | Some b \<Rightarrow>
                      let stored = sess\<lparr>ID := SessionHandle sha sid\<rparr>
                      in (Some (gm_put (ID stored) (Some stored) b), Inr sess))"

definition getByHandle :: "time \<Rightarrow> string \<Rightarrow> session_db \<Rightarrow> session_db \<times> (auth_error + Session)" where
  "getByHandle now h db =
     (case db of
        None \<Rightarrow> (None, Inl ErrBucketMissing)
      | Some b \<Rightarrow>
          (case gm_get b h of
             None \<Rightarrow> (db, Inl ErrSessionNotFound)
           | Some None \<Rightarrow> (db, Inl ErrUnmarshal)
           | Some (Some s) \<Rightarrow>
               if now > SessExpiresAt s then (Some (gm_del h b), Inl ErrSessionExpired) else (db, Inr s)))"

definition Get :: "(string \<Rightarrow> string) \<Rightarrow> time \<Rightarrow> string \<Rightarrow> session_db \<Rightarrow> session_db \<times> (auth_error + Session)" where
  "Get sha now sid db =
     (if sid = [] then (db, Inl ErrSessionNotFound)
      else case getByHandle now (SessionHandle sha sid) db of
             (db', Inl e) \<Rightarrow> (db', Inl e)
           | (db', Inr s) \<Rightarrow> (db', Inr (s\<lparr>ID := sid\<rparr>)))"

definition GetByHandle :: "time \<Rightarrow> string \<Rightarrow> session_db \<Rightarrow> session_db \<times> (auth_error + Session)" where
  "GetByHandle now h db = (if h = [] then (db, Inl ErrSessionNotFound) else getByHandle now h db)"

definition Touch :: "(string \<Rightarrow> string) \<Rightarrow> time \<Rightarrow> string \<Rightarrow> session_db \<Rightarrow> session_db \<times> auth_error option" where
  "Touch sha now sid db =
     (if sid = [] then (db, Some ErrSessionNotFound)
      else
        let k = SessionHandle sha sid
        in case db of
             None \<Rightarrow> (None, Some ErrBucketMissing)
           | Some b \<Rightarrow>
               (case gm_get b k of
                  None \<Rightarrow> (db, Some ErrSessionNotFound)
                | Some None \<Rightarrow> (db, Some ErrUnmarshal)
                | Some (Some s) \<Rightarrow>
                    (Some (gm_put k (Some (s\<lparr>LastActivity := now, SessExpiresAt := now + session_ttl (RememberMe s)\<rparr>)) b),
                     None)))"

definition DeleteByHandle :: "string \<Rightarrow> session_db \<Rightarrow> session_db \<times> auth_error option" where
  "DeleteByHandle h db =
     (if h = [] then (db, None)
      else case db of
             None \<Rightarrow> (None, Some ErrBucketMissing)
           | Some b \<Rightarrow> (Some (gm_del h b), None))"

definition Delete :: "(string \<Rightarrow> string) \<Rightarrow> string \<Rightarrow> session_db \<Rightarrow> session_db \<times> auth_error option" where
  "Delete sha sid db = (if sid = [] then (db, None) else DeleteByHandle (SessionHandle sha sid) db)"

text \<open>
  The scans collect the matching keys with \<open>ForEach\<close> and then delete them one by one.
\<close>

definition delete_where ::
  "(string \<Rightarrow> Session option \<Rightarrow> bool) \<Rightarrow> session_db \<Rightarrow> session_db \<times> (auth_error + nat)" where
  "delete_where p db =
     (case db of
        None \<Rightarrow> (None, Inl ErrBucketMissing)
      | Some b \<Rightarrow>
          let ks = map fst (filter (\<lambda>(k, v). p k v) b)
          in (Some (fold gm_del ks b), Inr (length ks)))"

definition owned_by :: "string \<Rightarrow> Session option \<Rightarrow> bool" where
  "owned_by userID v = (case v of None \<Rightarrow> False | Some s \<Rightarrow> UserID s = userID)"

definition DeleteAllForUser :: "string \<Rightarrow> session_db \<Rightarrow> session_db \<times> (auth_error + nat)" where
  "DeleteAllForUser userID db =
     (if userID = [] then (db, Inr 0) else delete_where (\<lambda>k v. owned_by userID v) db)"

definition DeleteAllForUserExcept ::
  "(string \<Rightarrow> string) \<Rightarrow> string \<Rightarrow> string \<Rightarrow> session_db \<Rightarrow> session_db \<times> (auth_error + nat)" where
  "DeleteAllForUserExcept sha userID keepSessionID db =
     (if userID = [] then (db, Inr 0)
      else delete_where (\<lambda>k v. owned_by userID v \<and> k \<noteq> SessionHandle sha keepSessionID) db)"

definition ListForUser :: "string \<Rightarrow> session_db \<Rightarrow> auth_error + Session list" where
  "ListForUser userID db =
     (if userID = [] then Inr []
      else case db of
             None \<Rightarrow> Inl ErrBucketMissing
           | Some b \<Rightarrow> Inr (concat (map (\<lambda>(k, v). case v of
                 None \<Rightarrow> []
               | Some s \<Rightarrow> if UserID s = userID then [s\<lparr>ID := k\<rparr>] else []) b)))"

record UserActivity =
  ua_LastActivity :: time
  ua_ActiveCount :: nat

definition bump_activity :: "Session \<Rightarrow> (string, UserActivity) gomap \<Rightarrow> (string, UserActivity) gomap" where
  "bump_activity s m =
     (let e = (case gm_get m (UserID s) of None \<Rightarrow> \<lparr>ua_LastActivity = zero_time, ua_ActiveCount = 0\<rparr> | Some e \<Rightarrow> e);
          e1 = e\<lparr>ua_ActiveCount := ua_ActiveCount e + 1\<rparr>;
          e2 = (if LastActivity s > ua_LastActivity e1 then e1\<lparr>ua_LastActivity := LastActivity s\<rparr> else e1)
      in gm_put (UserID s) e2 m)"

definition ListAllActive :: "time \<Rightarrow> session_db \<Rightarrow> auth_error + (string, UserActivity) gomap" where
  "ListAllActive now db =
     (case db of
        None \<Rightarrow> Inl ErrBucketMissing
      | Some b \<Rightarrow> Inr (fold (\<lambda>(k, v) m. case v of
            None \<Rightarrow> m
          | Some s \<Rightarrow> if \<not> SessExpiresAt s > now then m else bump_activity s m) b []))"

definition expired_row :: "time \<Rightarrow> Session option \<Rightarrow> bool" where
  "expired_row now v = (case v of None \<Rightarrow> False | Some s \<Rightarrow> now > SessExpiresAt s)"

definition CleanupExpired :: "time \<Rightarrow> session_db \<Rightarrow> session_db \<times> (auth_error + nat)" where
  "CleanupExpired now db = delete_where (\<lambda>k v. expired_row now v) db"

definition PurgeLegacySessions :: "session_db \<Rightarrow> session_db \<times> (auth_error + nat)" where
  "PurgeLegacySessions db = delete_where (\<lambda>k v. \<not> isSessionHandle k) db"

section \<open>Lemmas\<close>

lemma byte_of_nibble: "byte_of c div 16 < 16"
  using less_mult_imp_div_less [of "byte_of c" 16 16] byte_of_lt [of c] by (simp del: byte_of_lt)

lemma hex_digit_inj: "a < 16 \<Longrightarrow> b < 16 \<Longrightarrow> hex_digit a = hex_digit b \<Longrightarrow> a = b"
proof -
  have "distinct ''0123456789abcdef''" by simp
  then show "a < 16 \<Longrightarrow> b < 16 \<Longrightarrow> hex_digit a = hex_digit b \<Longrightarrow> a = b"
    unfolding hex_digit_def using nth_eq_iff_index_eq [of "''0123456789abcdef''" a b] by simp
qed

lemma byte_of_inj: "byte_of a = byte_of b \<Longrightarrow> a = b"
  by (simp add: byte_of_def)

lemma hexEncode_inj: "hexEncode xs = hexEncode ys \<Longrightarrow> xs = ys"
proof (induction xs arbitrary: ys)
  case Nil
  then show ?case by (cases ys) (simp_all add: hexEncode_def)
next
  case (Cons x xs)
  then obtain y ys' where ys: "ys = y # ys'" by (cases ys) (simp_all add: hexEncode_def)
  have d: "hex_digit (byte_of x div 16) = hex_digit (byte_of y div 16)"
    "hex_digit (byte_of x mod 16) = hex_digit (byte_of y mod 16)" "hexEncode xs = hexEncode ys'"
    using Cons.prems by (simp_all add: ys hexEncode_def)
  have "byte_of x div 16 < 16" "byte_of y div 16 < 16" by (simp_all add: byte_of_nibble)
  then have "byte_of x div 16 = byte_of y div 16" "byte_of x mod 16 = byte_of y mod 16"
    using hex_digit_inj d(1,2) by auto
  then have "byte_of x = byte_of y" by (metis div_mult_mod_eq)
  with Cons.IH [OF d(3)] show ?case by (simp add: ys byte_of_inj)
qed

lemma SessionHandle_eq: "SessionHandle sha a = SessionHandle sha b \<longleftrightarrow> sha a = sha b"
  using hexEncode_inj by (auto simp: SessionHandle_def)

lemma fold_del_get: "gm_get (fold gm_del ks b) k = (if k \<in> set ks then None else gm_get b k)"
  by (induction ks arbitrary: b) auto

lemma fold_del_wf: "gm_wf b \<Longrightarrow> gm_wf (fold gm_del ks b)"
  by (induction ks arbitrary: b) simp_all

lemma delete_where_get:
  assumes "gm_wf b"
  shows "\<exists>b'. fst (delete_where p (Some b)) = Some b' \<and> gm_wf b' \<and>
    (\<forall>k. gm_get b' k = (case gm_get b k of None \<Rightarrow> None | Some v \<Rightarrow> if p k v then None else Some v))"
proof -
  let ?ks = "map fst (filter (\<lambda>(k, v). p k v) b)"
  have "k \<in> set ?ks \<longleftrightarrow> (\<exists>v. gm_get b k = Some v \<and> p k v)" for k
    using gm_get_iff [OF assms] by force
  then have "gm_get (fold gm_del ?ks b) k = (case gm_get b k of None \<Rightarrow> None | Some v \<Rightarrow> if p k v then None else Some v)" for k
    unfolding fold_del_get by (auto split: option.splits)
  then show ?thesis using fold_del_wf [OF assms] by (auto simp: delete_where_def Let_def)
qed

lemma hexEncode_handle:
  assumes "length bs = 32"
  shows "isSessionHandle (hexEncode bs)"
proof -
  have len: "length (hexEncode bs) = 2 * length bs" by (induction bs) (simp_all add: hexEncode_def)
  have digit: "\<not> ((byte_of c < byte_of CHR ''0'' \<or> byte_of c > byte_of CHR ''9'') \<and>
      (byte_of c < byte_of CHR ''a'' \<or> byte_of c > byte_of CHR ''f''))" if "c \<in> set ''0123456789abcdef''" for c
    using that by (auto simp: byte_of_def)
  have digits: "hex_digit n \<in> set ''0123456789abcdef''" if "n < 16" for n
    unfolding hex_digit_def using that by (intro nth_mem) simp
  have small: "byte_of x div 16 < 16" for x by (rule byte_of_nibble)
  have "c \<in> set ''0123456789abcdef''" if "c \<in> set (hexEncode bs)" for c
  proof -
    from that obtain x where "c = hex_digit (byte_of x div 16) \<or> c = hex_digit (byte_of x mod 16)"
      by (auto simp: hexEncode_def)
    moreover have "byte_of x mod 16 < 16" by simp
    ultimately show ?thesis using digits [OF small] digits by blast
  qed
  with digit have "\<forall>c \<in> set (hexEncode bs). \<not> ((byte_of c < byte_of CHR ''0'' \<or> byte_of c > byte_of CHR ''9'') \<and>
      (byte_of c < byte_of CHR ''a'' \<or> byte_of c > byte_of CHR ''f''))" by blast
  moreover have "length (hexEncode bs) = 64" using len assms by simp
  ultimately show ?thesis unfolding isSessionHandle_def by blast
qed

text \<open>The row that a cookie value designates.\<close>

definition row_of :: "(string \<Rightarrow> string) \<Rightarrow> session_db \<Rightarrow> string \<Rightarrow> Session option" where
  "row_of sha db sid =
     (case db of None \<Rightarrow> None | Some b \<Rightarrow>
        if sid = [] then None else (case gm_get b (SessionHandle sha sid) of Some (Some s) \<Rightarrow> Some s | _ \<Rightarrow> None))"

lemma Get_row:
  "snd (Get sha now sid db) = Inr s \<longleftrightarrow>
     (\<exists>r. row_of sha db sid = Some r \<and> now \<le> SessExpiresAt r \<and> s = r\<lparr>ID := sid\<rparr>)"
  by (auto simp: Get_def getByHandle_def row_of_def split: if_splits option.splits)

lemma row_of_Get:
  "row_of sha (fst (Get sha now sid db)) sid' =
    (if sid \<noteq> [] \<and> sha sid' = sha sid \<and> (\<exists>r. row_of sha db sid = Some r \<and> SessExpiresAt r < now) then None
     else row_of sha db sid')"
  by (auto simp: Get_def getByHandle_def row_of_def SessionHandle_eq split: if_splits option.splits)

lemma row_of_Touch:
  "row_of sha (fst (Touch sha now sid db)) sid' =
    (if sid \<noteq> [] \<and> sha sid' = sha sid
     then map_option (\<lambda>s. s\<lparr>LastActivity := now, SessExpiresAt := now + session_ttl (RememberMe s)\<rparr>) (row_of sha db sid')
     else row_of sha db sid')"
proof (cases "sha sid' = sha sid")
  case True
  then have "SessionHandle sha sid' = SessionHandle sha sid" by (simp add: SessionHandle_def)
  then show ?thesis using True by (auto simp: Touch_def row_of_def Let_def split: if_splits option.splits)
next
  case False
  then show ?thesis by (auto simp: Touch_def row_of_def SessionHandle_eq Let_def split: if_splits option.splits)
qed

lemma row_of_Delete:
  assumes "sha sid \<noteq> []"
  shows "row_of sha (fst (Delete sha sid db)) sid' =
    (if sid \<noteq> [] \<and> sha sid' = sha sid then None else row_of sha db sid')"
proof -
  have "SessionHandle sha sid \<noteq> []" using assms by (cases "sha sid") (simp_all add: SessionHandle_def hexEncode_def)
  then show ?thesis
    by (auto simp: Delete_def DeleteByHandle_def row_of_def SessionHandle_eq split: if_splits option.splits)
qed

lemma row_of_Create:
  assumes "Create sha rnd now u rem ip ua db = (db', Inr s)"
  shows "\<exists>sid. rnd = Some sid \<and> s = \<lparr>ID = sid, UserID = u, IssuedAt = now, SessExpiresAt = now + session_ttl rem,
      LastActivity = now, RememberMe = rem, IP = ip, UserAgent = ua\<rparr> \<and>
    (\<forall>sid'. row_of sha db' sid' =
      (if sid' \<noteq> [] \<and> sha sid' = sha sid then Some (s\<lparr>ID := SessionHandle sha sid\<rparr>) else row_of sha db sid'))"
  using assms
  by (auto simp: Create_def row_of_def SessionHandle_eq Let_def split: if_splits option.splits)

lemma session_ttl_pos: "0 < session_ttl rem"
  by (simp add: session_ttl_def SessionTTLDefault_def SessionTTLRememberMe_def ns_hour_def ns_minute_def ns_second_def)

lemma row_of_delete_where:
  assumes "gm_wf b"
  shows "row_of sha (fst (delete_where p (Some b))) sid =
    (case row_of sha (Some b) sid of None \<Rightarrow> None | Some r \<Rightarrow> if p (SessionHandle sha sid) (Some r) then None else Some r)"
proof -
  obtain b' where b': "fst (delete_where p (Some b)) = Some b'"
    and g: "\<And>k. gm_get b' k = (case gm_get b k of None \<Rightarrow> None | Some v \<Rightarrow> if p k v then None else Some v)"
    using delete_where_get [OF assms, of p] by blast
  show ?thesis unfolding b' using g [of "SessionHandle sha sid"]
    by (cases "gm_get b (SessionHandle sha sid)") (auto simp: row_of_def split: option.splits if_splits)
qed

section \<open>Properties\<close>

text \<open>
  Signing out everywhere else is exact. Keeping one session, \<open>DeleteAllForUserExcept\<close> removes
  every other session of the user, whatever its cookie, and no session of anybody else, the kept
  one included.
\<close>

theorem sign_out_elsewhere_exact:
  assumes "gm_wf b" and "u \<noteq> []"
  shows "row_of sha (fst (DeleteAllForUserExcept sha u keep (Some b))) sid =
    (case row_of sha (Some b) sid of
       None \<Rightarrow> None
     | Some r \<Rightarrow> if UserID r = u \<and> sha sid \<noteq> sha keep then None else Some r)"
  using assms
  by (cases "row_of sha (Some b) sid") (simp_all add: DeleteAllForUserExcept_def row_of_delete_where owned_by_def SessionHandle_eq)

definition two_sessions :: "(string, Session option) gomap" where
  "two_sessions = map (\<lambda>c. (hexEncode c, Some \<lparr>ID = hexEncode c, UserID = ''u1'', IssuedAt = 0, SessExpiresAt = 24 * ns_hour,
     LastActivity = 0, RememberMe = False, IP = ''192.0.2.1'', UserAgent = ''ua''\<rparr>)) [''laptop'', ''phone'']"

theorem sign_out_elsewhere_exact_witness:
  "row_of (\<lambda>x. x) (fst (DeleteAllForUserExcept (\<lambda>x. x) ''u1'' ''laptop'' (Some two_sessions))) ''phone'' = None \<and>
   gm_wf two_sessions"
proof -
  have wf: "gm_wf two_sessions" by code_simp
  have "row_of (\<lambda>x. x) (Some two_sessions) ''phone'' \<noteq> None" by code_simp
  moreover have "\<forall>r. row_of (\<lambda>x. x) (Some two_sessions) ''phone'' = Some r \<longrightarrow> UserID r = ''u1''"
    by (auto simp: row_of_def two_sessions_def SessionHandle_def split: if_splits option.splits)
  ultimately show ?thesis using sign_out_elsewhere_exact [OF wf, of "''u1''" "\<lambda>x. x" "''laptop''" "''phone''"] wf by auto
qed

text \<open>
  The cleanup of expired sessions is invisible. A cleanup at any time does not change which
  cookies are accepted at that time or later, nor the session they give.
\<close>

theorem cleanup_unobservable:
  assumes "gm_wf b" and "now \<le> now'"
  shows "snd (Get sha now' sid (fst (CleanupExpired now (Some b)))) = Inr s \<longleftrightarrow> snd (Get sha now' sid (Some b)) = Inr s"
  using assms(2) unfolding Get_row CleanupExpired_def row_of_delete_where [OF assms(1)]
  by (auto simp: expired_row_def split: option.splits)

theorem cleanup_unobservable_witness:
  "{s. snd (Get (\<lambda>x. x) (25 * ns_hour) ''phone'' (fst (CleanupExpired (23 * ns_hour) (Some two_sessions)))) = Inr s} =
   {s. snd (Get (\<lambda>x. x) (25 * ns_hour) ''phone'' (Some two_sessions)) = Inr s}"
proof -
  have wf: "gm_wf two_sessions" by code_simp
  have "23 * ns_hour \<le> 25 * ns_hour" by (simp add: ns_hour_def ns_minute_def ns_second_def)
  from cleanup_unobservable [OF wf this] show ?thesis by simp
qed

lemma create_then_get:
  assumes "Create sha (Some sid) now u rem ip ua db = (db', Inr s)" and "sid \<noteq> []" and "now' \<le> now + session_ttl rem"
  shows "snd (Get sha now' sid db') = Inr s"
  using row_of_Create [OF assms(1)] assms(2,3) unfolding Get_row by auto

lemma purge_keeps_handles:
  assumes "gm_wf b" and "length (sha sid) = 32"
  shows "row_of sha (fst (PurgeLegacySessions (Some b))) sid = row_of sha (Some b) sid"
  using hexEncode_handle [OF assms(2)] assms(1)
  by (simp add: PurgeLegacySessions_def row_of_delete_where SessionHandle_def split: option.splits)

end
