(* ===== verification/Tokens.thy ===== *)
theory Tokens
  imports Sessions
begin

text \<open>
  The API token store, \<open>internal/auth/tokenstore.go\<close>, on the \<open>api_tokens\<close> bucket: token rows
  keyed by token id, rows that do not decode as \<open>None\<close>. SHA-256 is the argument \<open>sha\<close>; the random
  token and the fresh id of a new row are arguments.
\<close>

record APIToken =
  tok_ID :: string
  tok_Name :: string
  tok_UserID :: string
  tok_Hash :: string
  tok_CreatedAt :: time
  tok_CreatedBy :: string
  tok_LastUsedAt :: "time option"
  tok_ExpiresAt :: "time option"
  tok_RevokedAt :: "time option"
  tok_RevokedBy :: "string option"

type_synonym token_db = "(string, APIToken option) gomap option"

datatype token_error = ErrAPITokenInvalid | ErrAPITokenRevoked | ErrAPITokenExpired | ErrAPITokenNotFound
  | ErrTokenUserEmpty | ErrTokenRandom | ErrTokenBucketMissing | ErrTokenUnmarshal | ErrTokenUserMissing

definition IsActive :: "time \<Rightarrow> APIToken \<Rightarrow> bool" where
  "IsActive now t \<longleftrightarrow>
     (if tok_RevokedAt t \<noteq> None then False
      else case tok_ExpiresAt t of None \<Rightarrow> True | Some x \<Rightarrow> x > now)"

definition APITokenPrefix :: string where "APITokenPrefix = ''arn_''"

definition token_hash :: "(string \<Rightarrow> string) \<Rightarrow> string \<Rightarrow> string" where
  "token_hash sha plain = hexEncode (sha plain)"

text \<open>\<open>CreateToken\<close>; \<open>rnd\<close> is the encoded random part, \<open>uuid\<close> the fresh row id.\<close>

definition CreateToken ::
  "(string \<Rightarrow> string) \<Rightarrow> string option \<Rightarrow> string \<Rightarrow> time \<Rightarrow> string \<Rightarrow> string \<Rightarrow> string \<Rightarrow> time option \<Rightarrow> token_db \<Rightarrow>
     token_db \<times> (token_error + string \<times> APIToken)" where
  "CreateToken sha rnd uuid now userID name createdBy expiresAt db =
     (if userID = [] then (db, Inl ErrTokenUserEmpty)
      else case rnd of
             None \<Rightarrow> (db, Inl ErrTokenRandom)
           | Some x \<Rightarrow>
               let plain = APITokenPrefix @ x;
                   row = \<lparr>tok_ID = uuid, tok_Name = trimSpace name, tok_UserID = userID, tok_Hash = token_hash sha plain,
                          tok_CreatedAt = now, tok_CreatedBy = createdBy, tok_LastUsedAt = None,
                          tok_ExpiresAt = expiresAt, tok_RevokedAt = None, tok_RevokedBy = None\<rparr>
               in case db of
                    None \<Rightarrow> (None, Inl ErrTokenBucketMissing)
                  | Some b \<Rightarrow> (Some (gm_put (tok_ID row) (Some row) b), Inr (plain, row)))"

definition token_GetByID :: "string \<Rightarrow> token_db \<Rightarrow> token_error + APIToken" where
  "token_GetByID tid db =
     (if tid = [] then Inl ErrAPITokenNotFound
      else case db of
             None \<Rightarrow> Inl ErrTokenBucketMissing
           | Some b \<Rightarrow>
               (case gm_get b tid of
                  None \<Rightarrow> Inl ErrAPITokenNotFound
                | Some None \<Rightarrow> Inl ErrTokenUnmarshal
                | Some (Some t) \<Rightarrow> Inr t))"

definition ListByUser :: "string \<Rightarrow> token_db \<Rightarrow> token_error + APIToken list" where
  "ListByUser userID db =
     (if userID = [] then Inl ErrTokenUserEmpty
      else case db of
             None \<Rightarrow> Inl ErrTokenBucketMissing
           | Some b \<Rightarrow> Inr (concat (map (\<lambda>(k, v). case v of
                 None \<Rightarrow> []
               | Some t \<Rightarrow> if tok_UserID t = userID then [t] else []) b)))"

definition FindActiveByUser :: "time \<Rightarrow> string \<Rightarrow> token_db \<Rightarrow> token_error + APIToken" where
  "FindActiveByUser now userID db =
     (case ListByUser userID db of
        Inl e \<Rightarrow> Inl e
      | Inr ts \<Rightarrow> (case find (IsActive now) ts of None \<Rightarrow> Inl ErrAPITokenNotFound | Some t \<Rightarrow> Inr t))"

text \<open>\<open>LookupToken\<close> scans every row; the last row with the hash wins.\<close>

definition LookupToken :: "(string \<Rightarrow> string) \<Rightarrow> string \<Rightarrow> token_db \<Rightarrow> token_error + APIToken" where
  "LookupToken sha plain db =
     (if \<not> hasPrefix plain APITokenPrefix then Inl ErrAPITokenInvalid
      else case db of
             None \<Rightarrow> Inl ErrTokenBucketMissing
           | Some b \<Rightarrow>
               (case fold (\<lambda>(k, v) m. case v of
                      None \<Rightarrow> m
                    | Some t \<Rightarrow> if tok_Hash t = token_hash sha plain then Some t else m) b None of
                  None \<Rightarrow> Inl ErrAPITokenInvalid
                | Some t \<Rightarrow> Inr t))"

definition ValidateAuthToken ::
  "(string \<Rightarrow> string) \<Rightarrow> time \<Rightarrow> (string \<Rightarrow> auth_error + 'u) \<Rightarrow> string \<Rightarrow> token_db \<Rightarrow> token_error + APIToken \<times> 'u" where
  "ValidateAuthToken sha now getUser plain db =
     (case LookupToken sha plain db of
        Inl e \<Rightarrow> Inl e
      | Inr t \<Rightarrow>
          if tok_RevokedAt t \<noteq> None then Inl ErrAPITokenRevoked
          else if (case tok_ExpiresAt t of None \<Rightarrow> False | Some x \<Rightarrow> \<not> x > now) then Inl ErrAPITokenExpired
          else case getUser (tok_UserID t) of
                 Inl _ \<Rightarrow> Inl ErrTokenUserMissing
               | Inr u \<Rightarrow> Inr (t, u))"

definition update_token ::
  "string \<Rightarrow> (APIToken \<Rightarrow> APIToken) \<Rightarrow> token_db \<Rightarrow> token_db \<times> token_error option" where
  "update_token tid f db =
     (case db of
        None \<Rightarrow> (None, Some ErrTokenBucketMissing)
      | Some b \<Rightarrow>
          (case gm_get b tid of
             None \<Rightarrow> (db, Some ErrAPITokenNotFound)
           | Some None \<Rightarrow> (db, Some ErrTokenUnmarshal)
           | Some (Some t) \<Rightarrow> (Some (gm_put tid (Some (f t)) b), None)))"

definition TouchLastUsed :: "time \<Rightarrow> string \<Rightarrow> token_db \<Rightarrow> token_db \<times> token_error option" where
  "TouchLastUsed now tid db = update_token tid (\<lambda>t. t\<lparr>tok_LastUsedAt := Some now\<rparr>) db"

definition revoke_row :: "time \<Rightarrow> string \<Rightarrow> APIToken \<Rightarrow> APIToken" where
  "revoke_row now by t =
     (if tok_RevokedAt t \<noteq> None then t else t\<lparr>tok_RevokedAt := Some now, tok_RevokedBy := Some by\<rparr>)"

definition RevokeToken :: "time \<Rightarrow> string \<Rightarrow> string \<Rightarrow> token_db \<Rightarrow> token_db \<times> token_error option" where
  "RevokeToken now tid by db = update_token tid (revoke_row now by) db"

definition RevokeAllByUser :: "time \<Rightarrow> string \<Rightarrow> string \<Rightarrow> token_db \<Rightarrow> token_db \<times> token_error option" where
  "RevokeAllByUser now userID by db =
     (case db of
        None \<Rightarrow> (None, Some ErrTokenBucketMissing)
      | Some b \<Rightarrow>
          (Some (map (\<lambda>(k, v). (k, case v of
               None \<Rightarrow> None
             | Some t \<Rightarrow> if tok_UserID t \<noteq> userID \<or> tok_RevokedAt t \<noteq> None then Some t
                         else Some (revoke_row now by t))) b), None))"

section \<open>Every write of the store\<close>

inductive token_step :: "(string \<Rightarrow> string) \<Rightarrow> token_db \<Rightarrow> token_db \<Rightarrow> bool" for sha where
  create: "(\<forall>b. db = Some b \<longrightarrow> uuid \<notin> gm_keys b) \<Longrightarrow>
     token_step sha db (fst (CreateToken sha rnd uuid now userID name createdBy expiresAt db))"
| touch: "token_step sha db (fst (TouchLastUsed now tid db))"
| revoke: "token_step sha db (fst (RevokeToken now tid by db))"
| revoke_all: "token_step sha db (fst (RevokeAllByUser now userID by db))"

definition token_row :: "string \<Rightarrow> token_db \<Rightarrow> APIToken option" where
  "token_row tid db = (case db of None \<Rightarrow> None | Some b \<Rightarrow> (case gm_get b tid of Some (Some t) \<Rightarrow> Some t | _ \<Rightarrow> None))"

lemma token_row_update:
  "token_row tid (fst (update_token tid' f db)) =
     (if tid = tid' then map_option f (token_row tid db) else token_row tid db)"
  by (auto simp: token_row_def update_token_def split: option.splits)

lemma token_row_revoke_all:
  "token_row tid (fst (RevokeAllByUser now u by db)) =
     map_option (\<lambda>t. if tok_UserID t = u then revoke_row now by t else t) (token_row tid db)"
proof (cases db)
  case (Some b)
  have "gm_get (map (\<lambda>(k, v). (k, f v)) b) tid = map_option f (gm_get b tid)" for f :: "APIToken option \<Rightarrow> APIToken option"
    by (induction b) auto
  then show ?thesis using Some
    by (auto simp: token_row_def RevokeAllByUser_def revoke_row_def split: option.splits)
qed (simp add: token_row_def RevokeAllByUser_def)

lemma revoke_row_keeps:
  "tok_Hash (revoke_row now by t) = tok_Hash t" "tok_UserID (revoke_row now by t) = tok_UserID t"
  "tok_ExpiresAt (revoke_row now by t) = tok_ExpiresAt t" "tok_RevokedAt (revoke_row now by t) \<noteq> None"
  "tok_RevokedAt t \<noteq> None \<Longrightarrow> tok_RevokedAt (revoke_row now by t) = tok_RevokedAt t"
  by (auto simp: revoke_row_def)

text \<open>A step keeps the identity of a row and never withdraws a revocation.\<close>

lemma token_step_row:
  assumes "token_step sha db db'" and "token_row tid db = Some t"
  shows "\<exists>t'. token_row tid db' = Some t' \<and> tok_Hash t' = tok_Hash t \<and> tok_UserID t' = tok_UserID t \<and>
    tok_ExpiresAt t' = tok_ExpiresAt t \<and> (tok_RevokedAt t \<noteq> None \<longrightarrow> tok_RevokedAt t' = tok_RevokedAt t)"
  using assms(1)
proof cases
  case (create uuid rnd now userID name createdBy expiresAt)
  obtain b where b: "db = Some b" "gm_get b tid = Some (Some t)"
    using assms(2) by (auto simp: token_row_def split: option.splits)
  have "tid \<noteq> uuid" using create(2) b by (auto simp: gm_get_Some_key)
  then have "token_row tid db' = Some t"
    using b create(1) by (auto simp: CreateToken_def token_row_def Let_def split: option.splits)
  then show ?thesis by simp
next
  case (touch now tid')
  then show ?thesis using assms(2) by (cases "tid = tid'") (auto simp: TouchLastUsed_def token_row_update)
next
  case (revoke now tid' who)
  then show ?thesis using assms(2)
    by (cases "tid = tid'") (auto simp: RevokeToken_def token_row_update revoke_row_def)
next
  case (revoke_all now userID who)
  then show ?thesis using assms(2) by (simp add: token_row_revoke_all revoke_row_keeps)
qed

definition token_db_wf :: "token_db \<Rightarrow> bool" where
  "token_db_wf db \<longleftrightarrow> (case db of None \<Rightarrow> True | Some b \<Rightarrow> gm_wf b)"

lemma token_step_wf: "token_step sha db db' \<Longrightarrow> token_db_wf db \<Longrightarrow> token_db_wf db'"
proof (induction rule: token_step.induct)
  case (revoke_all db now userID who)
  then show ?case
    by (auto simp: token_db_wf_def RevokeAllByUser_def gm_wf_def comp_def split_beta split: option.splits)
qed (auto simp: token_db_wf_def CreateToken_def TouchLastUsed_def RevokeToken_def update_token_def Let_def
    split: option.splits)

lemma token_steps_row:
  assumes "(token_step sha)\<^sup>*\<^sup>* db db'" and "token_row tid db = Some t" and "token_db_wf db"
  shows "token_db_wf db' \<and> (\<exists>t'. token_row tid db' = Some t' \<and> tok_Hash t' = tok_Hash t \<and>
    (tok_RevokedAt t \<noteq> None \<longrightarrow> tok_RevokedAt t' = tok_RevokedAt t))"
  using assms(1)
proof (induction rule: rtranclp_induct)
  case base
  then show ?case using assms(2,3) by simp
next
  case (step db1 db2)
  then obtain t1 where t1: "token_row tid db1 = Some t1" "tok_Hash t1 = tok_Hash t"
    "tok_RevokedAt t \<noteq> None \<longrightarrow> tok_RevokedAt t1 = tok_RevokedAt t" by blast
  from token_step_row [OF step(2) t1(1)] t1(2,3) token_step_wf [OF step(2)] step.IH show ?case by auto
qed

lemma LookupToken_row:
  assumes "LookupToken sha plain db = Inr t" and "token_db_wf db"
  shows "tok_Hash t = token_hash sha plain \<and> (\<exists>tid. token_row tid db = Some t)"
proof -
  obtain b where b: "db = Some b" using assms(1) by (auto simp: LookupToken_def split: if_splits option.splits)
  let ?f = "\<lambda>(k, v) m. case v of None \<Rightarrow> m | Some t \<Rightarrow> if tok_Hash t = token_hash sha plain then Some t else m"
  have "fold ?f xs m = Some t \<Longrightarrow> m = Some t \<or> (\<exists>k. (k, Some t) \<in> set xs \<and> tok_Hash t = token_hash sha plain)" for xs m
  proof (induction xs arbitrary: m)
    case (Cons x xs)
    obtain k v where x: "x = (k, v)" by fastforce
    show ?case using Cons.IH [of "?f x m"] Cons.prems by (auto simp: x split: option.splits if_splits)
  qed simp
  moreover have "fold ?f b None = Some t"
    using assms(1) by (auto simp: LookupToken_def b split: if_splits option.splits)
  ultimately obtain k where k: "(k, Some t) \<in> set b" "tok_Hash t = token_hash sha plain" by blast
  have "gm_get b k = Some (Some t)" using k(1) gm_get_iff [of b k "Some t"] assms(2) by (simp add: token_db_wf_def b)
  then have "token_row k db = Some t" by (simp add: token_row_def b)
  with k(2) show ?thesis by blast
qed

text \<open>
  A revoked token stays revoked. After \<open>RevokeToken\<close>, no sequence of further writes, the
  asynchronous last-used updates included, lets the token's secret authenticate again, as long as
  no other row carries the same hash.
\<close>

theorem revoked_token_never_validates:
  assumes "token_row tid db = Some t" and "tok_Hash t = token_hash sha plain" and "token_db_wf db"
    and "(token_step sha)\<^sup>*\<^sup>* (fst (RevokeToken now tid by db)) db'"
    and "\<forall>tid' t'. token_row tid' db' = Some t' \<longrightarrow> tok_Hash t' = tok_Hash t \<longrightarrow> tid' = tid"
  shows "\<exists>e. ValidateAuthToken sha now' getUser plain db' = Inl e"
proof -
  let ?db1 = "fst (RevokeToken now tid by db)"
  have row1: "token_row tid ?db1 = Some (revoke_row now by t)"
    using assms(1) by (simp add: RevokeToken_def token_row_update)
  have wf1: "token_db_wf ?db1" using token_step_wf [OF token_step.revoke assms(3)] .
  from token_steps_row [OF assms(4) row1 wf1] obtain t' where
    wf: "token_db_wf db'" and t': "token_row tid db' = Some t'" "tok_Hash t' = tok_Hash t" "tok_RevokedAt t' \<noteq> None"
    using revoke_row_keeps(1,4) by metis
  show ?thesis
  proof (cases "LookupToken sha plain db'")
    case (Inl e)
    then show ?thesis by (simp add: ValidateAuthToken_def)
  next
    case (Inr u)
    from LookupToken_row [OF Inr wf] obtain tid' where u: "token_row tid' db' = Some u" "tok_Hash u = token_hash sha plain" by blast
    with assms(2,5) have "tid' = tid" by simp
    with u(1) t' have "u = t'" by simp
    with t'(3) Inr show ?thesis by (simp add: ValidateAuthToken_def)
  qed
qed

definition demo_token :: APIToken where
  "demo_token = \<lparr>tok_ID = ''t1'', tok_Name = ''ci'', tok_UserID = ''svc'', tok_Hash = token_hash (\<lambda>x. x) ''arn_x'',
     tok_CreatedAt = 0, tok_CreatedBy = ''admin'', tok_LastUsedAt = None, tok_ExpiresAt = None, tok_RevokedAt = None,
     tok_RevokedBy = None\<rparr>"

theorem revoked_token_never_validates_witness:
  "\<exists>e. ValidateAuthToken (\<lambda>x. x) 9 (\<lambda>_. Inr ()) ''arn_x''
     (fst (TouchLastUsed 8 ''t1'' (fst (RevokeToken 7 ''t1'' ''admin'' (Some [(''t1'', Some demo_token)]))))) = Inl e"
proof (rule revoked_token_never_validates [where tid = "''t1''" and db = "Some [(''t1'', Some demo_token)]" and t = demo_token])
  show "(token_step (\<lambda>x. x))\<^sup>*\<^sup>* (fst (RevokeToken 7 ''t1'' ''admin'' (Some [(''t1'', Some demo_token)])))
      (fst (TouchLastUsed 8 ''t1'' (fst (RevokeToken 7 ''t1'' ''admin'' (Some [(''t1'', Some demo_token)])))))"
    by (rule r_into_rtranclp) (rule token_step.touch)
qed (auto simp: token_row_def demo_token_def token_db_wf_def gm_wf_def TouchLastUsed_def RevokeToken_def update_token_def
    split: if_splits)

end
