(* ===== verification/AuthMiddleware.thy ===== *)
theory AuthMiddleware
  imports Sessions Tokens
begin

text \<open>
  The authentication middlewares, \<open>internal/auth/middleware.go\<close>: soft authentication (session
  cookie, then bearer token), hard authentication (idle lock, forced password change, activity
  refresh) and the administrator check. A handler is a function on the world and the response;
  the response writer keeps the first status that was written, as \<open>net/http\<close> does. The stores the
  middlewares call are interfaces in the code (\<open>internal/auth/interfaces.go\<close>) and a record of
  functions here; \<open>real_stores\<close> is the production instance. The asynchronous last-used update of a
  token is applied at the point of the call.
\<close>

record User =
  usr_ID :: string
  usr_Username :: string
  usr_Role :: string
  usr_AuthSource :: string
  usr_MustChangePassword :: bool

record auth_request =
  rq_Cookie :: "string option"
  rq_Authorization :: string
  rq_Background :: string
  rq_Method :: string
  rq_Path :: string

record auth_response =
  rs_status :: "nat option"
  rs_bodies :: "string list"
  rs_cleared :: bool

record identity =
  id_UserID :: string
  id_Username :: string
  id_SessionID :: string
  id_TokenID :: string
  id_IsLocked :: bool
  id_Role :: string
  id_AuthSource :: string
  id_MustChangePassword :: bool

record 'w stores =
  s_get :: "time \<Rightarrow> string \<Rightarrow> 'w \<Rightarrow> 'w \<times> (auth_error + Session)"
  s_touch :: "time \<Rightarrow> string \<Rightarrow> 'w \<Rightarrow> 'w \<times> auth_error option"
  s_delete :: "string \<Rightarrow> 'w \<Rightarrow> 'w \<times> auth_error option"
  u_get :: "string \<Rightarrow> 'w \<Rightarrow> auth_error + User"
  t_lookup :: "(string \<Rightarrow> 'w \<Rightarrow> token_error + APIToken) option"
  t_touch :: "time \<Rightarrow> string \<Rightarrow> 'w \<Rightarrow> 'w"

type_synonym 'w handler = "identity \<Rightarrow> auth_request \<Rightarrow> 'w \<times> auth_response \<Rightarrow> 'w \<times> auth_response"

section \<open>Writing responses\<close>

definition write_error :: "nat \<Rightarrow> string \<Rightarrow> auth_response \<Rightarrow> auth_response" where
  "write_error code msg w =
     w\<lparr>rs_status := (case rs_status w of None \<Rightarrow> Some code | Some c \<Rightarrow> Some c), rs_bodies := rs_bodies w @ [msg]\<rparr>"

definition writeAuthError :: "string \<Rightarrow> auth_response \<Rightarrow> auth_response" where
  "writeAuthError = write_error 401"

definition writeForbidden :: "string \<Rightarrow> auth_response \<Rightarrow> auth_response" where
  "writeForbidden = write_error 403"

definition writePasswordChangeRequired :: "auth_response \<Rightarrow> auth_response" where
  "writePasswordChangeRequired = write_error 403 ''password change required''"

definition writeServiceUnavailable :: "string \<Rightarrow> auth_response \<Rightarrow> auth_response" where
  "writeServiceUnavailable = write_error 503"

text \<open>A header set after the status line has been written has no effect.\<close>

definition clearSessionCookie :: "auth_response \<Rightarrow> auth_response" where
  "clearSessionCookie w = (if rs_status w = None then w\<lparr>rs_cleared := True\<rparr> else w)"

section \<open>Soft authentication\<close>

definition withAuthIdentity :: "User \<Rightarrow> string \<Rightarrow> string \<Rightarrow> bool \<Rightarrow> identity" where
  "withAuthIdentity u sessionID tokenID locked =
     \<lparr>id_UserID = usr_ID u, id_Username = usr_Username u, id_SessionID = sessionID, id_TokenID = tokenID,
      id_IsLocked = locked, id_Role = usr_Role u, id_AuthSource = usr_AuthSource u,
      id_MustChangePassword = usr_MustChangePassword u\<rparr>"

definition resolveSessionCookie ::
  "'w stores \<Rightarrow> time \<Rightarrow> string \<Rightarrow> 'w \<times> auth_response \<Rightarrow> (User \<times> Session) option \<times> 'w \<times> auth_response" where
  "resolveSessionCookie st now c = (\<lambda>(w, rs).
     (case s_get st now c w of
        (w1, Inl _) \<Rightarrow> (None, w1, clearSessionCookie rs)
      | (w1, Inr sess) \<Rightarrow>
          (case u_get st (UserID sess) w1 of
             Inr u \<Rightarrow> (Some (u, sess), w1, rs)
           | Inl ErrUserNotFound \<Rightarrow> (None, fst (s_delete st (ID sess) w1), clearSessionCookie rs)
           | Inl _ \<Rightarrow> (None, w1, writeServiceUnavailable ''authentication service temporarily unavailable'' rs))))"

definition resolveBearerToken :: "'w stores \<Rightarrow> time \<Rightarrow> auth_request \<Rightarrow> 'w \<Rightarrow> (User \<times> APIToken) option" where
  "resolveBearerToken st now r w =
     (case t_lookup st of
        None \<Rightarrow> None
      | Some lookup \<Rightarrow>
          if rq_Authorization r = [] then None
          else if \<not> hasPrefix (rq_Authorization r) ''Bearer '' then None
          else
            let plain = trimSpace (drop (length ''Bearer '') (rq_Authorization r))
            in if plain = [] then None
               else case lookup plain w of
                      Inl _ \<Rightarrow> None
                    | Inr t \<Rightarrow>
                        if tok_RevokedAt t \<noteq> None then None
                        else if (case tok_ExpiresAt t of None \<Rightarrow> False | Some x \<Rightarrow> \<not> x > now) then None
                        else case u_get st (tok_UserID t) w of
                               Inl _ \<Rightarrow> None
                             | Inr u \<Rightarrow> Some (u, t))"

definition bearer_fallback ::
  "'w stores \<Rightarrow> time \<Rightarrow> 'w handler \<Rightarrow> auth_request \<Rightarrow> 'w \<times> auth_response \<Rightarrow> 'w \<times> auth_response" where
  "bearer_fallback st now nxt r = (\<lambda>(w, rs).
     (case resolveBearerToken st now r w of
        Some (u, t) \<Rightarrow> nxt (withAuthIdentity u [] (tok_ID t) False) r (t_touch st now (tok_ID t) w, rs)
      | None \<Rightarrow> (w, writeAuthError ''no active session'' rs)))"

definition SoftAuthMiddleware ::
  "'w stores \<Rightarrow> time \<Rightarrow> 'w handler \<Rightarrow> auth_request \<Rightarrow> 'w \<times> auth_response \<Rightarrow> 'w \<times> auth_response" where
  "SoftAuthMiddleware st now nxt r x =
     (case rq_Cookie r of
        None \<Rightarrow> bearer_fallback st now nxt r x
      | Some c \<Rightarrow>
          (case resolveSessionCookie st now c x of
             (Some (u, sess), y) \<Rightarrow>
               nxt (withAuthIdentity u (ID sess) [] (time_sub now (LastActivity sess) > SessionIdleTimeout)) r y
           | (None, y) \<Rightarrow> bearer_fallback st now nxt r y))"

section \<open>Hard authentication and the administrator check\<close>

definition isBackgroundRequest :: "auth_request \<Rightarrow> bool" where
  "isBackgroundRequest r \<longleftrightarrow> rq_Background r = ''1''"

definition isPasswordChangeRequest :: "auth_request \<Rightarrow> bool" where
  "isPasswordChangeRequest r \<longleftrightarrow> rq_Method r = ''POST'' \<and> hasSuffix (rq_Path r) ''/auth/me/password''"

definition hard_handler :: "'w stores \<Rightarrow> time \<Rightarrow> 'w handler \<Rightarrow> 'w handler" where
  "hard_handler st now nxt i r = (\<lambda>(w, rs).
     (if id_IsLocked i then (w, writeForbidden ''session locked'' rs)
      else if id_MustChangePassword i \<and> \<not> isPasswordChangeRequest r then (w, writePasswordChangeRequired rs)
      else
        let w1 = (if id_SessionID i \<noteq> [] \<and> \<not> isBackgroundRequest r then fst (s_touch st now (id_SessionID i) w) else w)
        in nxt i r (w1, rs)))"

definition HardAuthMiddleware ::
  "'w stores \<Rightarrow> time \<Rightarrow> 'w handler \<Rightarrow> auth_request \<Rightarrow> 'w \<times> auth_response \<Rightarrow> 'w \<times> auth_response" where
  "HardAuthMiddleware st now nxt = SoftAuthMiddleware st now (hard_handler st now nxt)"

definition UserRoleAdmin :: string where "UserRoleAdmin = ''admin''"

definition RequireAdminMiddleware :: "'w handler \<Rightarrow> 'w handler" where
  "RequireAdminMiddleware nxt i r x =
     (if id_Role i \<noteq> UserRoleAdmin then (fst x, writeForbidden ''admin role required'' (snd x)) else nxt i r x)"

section \<open>The production stores\<close>

record world =
  w_sessions :: session_db
  w_tokens :: token_db
  w_users :: "string \<Rightarrow> auth_error + User"

definition real_stores :: "(string \<Rightarrow> string) \<Rightarrow> world stores" where
  "real_stores sha =
     \<lparr>s_get = (\<lambda>now c w. case Get sha now c (w_sessions w) of (d, x) \<Rightarrow> (w\<lparr>w_sessions := d\<rparr>, x)),
      s_touch = (\<lambda>now c w. case Touch sha now c (w_sessions w) of (d, x) \<Rightarrow> (w\<lparr>w_sessions := d\<rparr>, x)),
      s_delete = (\<lambda>c w. case Delete sha c (w_sessions w) of (d, x) \<Rightarrow> (w\<lparr>w_sessions := d\<rparr>, x)),
      u_get = (\<lambda>u w. w_users w u),
      t_lookup = Some (\<lambda>p w. LookupToken sha p (w_tokens w)),
      t_touch = (\<lambda>now t w. w\<lparr>w_tokens := fst (TouchLastUsed now t (w_tokens w))\<rparr>)\<rparr>"

section \<open>The contract of the session store and the idle lock\<close>

text \<open>
  What the middlewares rely on: a session that is returned is stored and unexpired, and no
  operation but a touch of the same session (up to a collision of the hash) refreshes it.
\<close>

definition asleep :: "('w \<Rightarrow> string \<Rightarrow> Session option) \<Rightarrow> time \<Rightarrow> string \<Rightarrow> 'w \<Rightarrow> bool" where
  "asleep row t sid w \<longleftrightarrow> (\<forall>r. row w sid = Some r \<longrightarrow> LastActivity r + SessionIdleTimeout < t)"

locale session_store =
  fixes st :: "'w stores" and row :: "'w \<Rightarrow> string \<Rightarrow> Session option" and same :: "string \<Rightarrow> string \<Rightarrow> bool"
  assumes get_row: "snd (s_get st now c w) = Inr s \<Longrightarrow>
      \<exists>r. row w c = Some r \<and> now \<le> SessExpiresAt r \<and> s = r\<lparr>ID := c\<rparr>"
    and get_frame: "row (fst (s_get st now c w)) d = row w d \<or> row (fst (s_get st now c w)) d = None"
    and delete_frame: "row (fst (s_delete st c w)) d = row w d \<or> row (fst (s_delete st c w)) d = None"
    and touch_frame: "\<not> same c d \<Longrightarrow> row (fst (s_touch st now c w)) d = row w d"
    and token_frame: "row (t_touch st now t w) d = row w d"
    and same_row: "same c d \<Longrightarrow> row w c = row w d"
begin

lemma asleep_weaken: "row w' sid = row w sid \<or> row w' sid = None \<Longrightarrow> asleep row t sid w \<Longrightarrow> asleep row t sid w'"
  by (auto simp: asleep_def)

lemma asleep_locked:
  assumes "asleep row t sid w" "row w sid = Some r" "t \<le> now"
  shows "time_sub now (LastActivity r) > SessionIdleTimeout"
  using assms by (auto simp: asleep_def time_sub_def SessionIdleTimeout_def ns_minute_def ns_second_def
      max_duration_def min_duration_def)

lemma resolve_cases:
  obtains (found) u s where "resolveSessionCookie st now c (w, rs) = (Some (u, s), fst (s_get st now c w), rs)"
      "snd (s_get st now c w) = Inr s"
  | (failed) w' rs' where "resolveSessionCookie st now c (w, rs) = (None, w', rs')"
      "\<And>d. row w' d = row w d \<or> row w' d = None"
proof -
  obtain w1 x where g: "s_get st now c w = (w1, x)" by fastforce
  have f: "row w1 d = row w d \<or> row w1 d = None" for d using get_frame [of now c w d] g by simp
  have f2: "row (fst (s_delete st e w1)) d = row w d \<or> row (fst (s_delete st e w1)) d = None" for d e
    using delete_frame [of e w1 d] f [of d] by auto
  show thesis
  proof (cases x)
    case (Inl e)
    then show ?thesis using failed f g by (simp add: resolveSessionCookie_def)
  next
    case (Inr s)
    show ?thesis
    proof (cases "u_get st (UserID s) w1")
      case (Inl e)
      show ?thesis
      proof (cases "e = ErrUserNotFound")
        case True
        with Inl \<open>x = Inr s\<close> show ?thesis using failed f2 g by (simp add: resolveSessionCookie_def)
      next
        case False
        with Inl \<open>x = Inr s\<close> show ?thesis using failed f g
          by (cases e) (simp_all add: resolveSessionCookie_def)
      qed
    next
      case (Inr u)
      with \<open>x = Inr s\<close> show ?thesis using found g by (simp add: resolveSessionCookie_def)
    qed
  qed
qed

lemma token_asleep: "asleep row t sid w \<Longrightarrow> asleep row t sid (t_touch st now k w)"
  using token_frame by (simp add: asleep_def)

lemma bearer_asleep:
  assumes "asleep row t sid (fst x)"
    and "\<And>u k y. asleep row t sid (fst y) \<Longrightarrow> asleep row t sid (fst (h (withAuthIdentity u [] k False) r y))"
  shows "asleep row t sid (fst (bearer_fallback st now h r x))"
proof (cases "resolveBearerToken st now r (fst x)")
  case None
  then show ?thesis using assms(1) by (simp add: bearer_fallback_def split_beta)
next
  case (Some p)
  then show ?thesis using assms token_asleep by (cases p) (simp add: bearer_fallback_def split_beta)
qed

lemma hard_handler_asleep:
  assumes "asleep row t sid (fst x)" and "\<And>i r x. asleep row t sid (fst x) \<Longrightarrow> asleep row t sid (fst (nxt i r x))"
    and "same (id_SessionID i) sid \<Longrightarrow> id_IsLocked i"
  shows "asleep row t sid (fst (hard_handler st now nxt i r x))"
proof (cases "id_IsLocked i \<or> id_MustChangePassword i \<and> \<not> isPasswordChangeRequest r")
  case True
  then show ?thesis using assms(1) by (auto simp: hard_handler_def split_beta)
next
  case False
  then have "\<not> same (id_SessionID i) sid" using assms(3) by blast
  then have "asleep row t sid (fst (s_touch st now (id_SessionID i) (fst x)))"
    using touch_frame assms(1) by (simp add: asleep_def)
  then show ?thesis using False assms(1,2) by (simp add: hard_handler_def Let_def split_beta)
qed

lemma hard_asleep:
  assumes a: "asleep row t sid w" and "t \<le> now"
    and n: "\<And>i r x. asleep row t sid (fst x) \<Longrightarrow> asleep row t sid (fst (nxt i r x))"
    and "\<not> same [] sid"
  shows "asleep row t sid (fst (HardAuthMiddleware st now nxt r (w, rs)))"
proof -
  have b: "asleep row t sid (fst (bearer_fallback st now (hard_handler st now nxt) r x))" if "asleep row t sid (fst x)" for x
    by (rule bearer_asleep [OF that], rule hard_handler_asleep [OF _ n]) (simp_all add: withAuthIdentity_def assms(4))
  show ?thesis
  proof (cases "rq_Cookie r")
    case None
    then show ?thesis using b [of "(w, rs)"] a by (simp add: HardAuthMiddleware_def SoftAuthMiddleware_def)
  next
    case (Some c)
    show ?thesis
    proof (rule resolve_cases [of now c w rs])
      fix u s assume f: "resolveSessionCookie st now c (w, rs) = (Some (u, s), fst (s_get st now c w), rs)"
        and g: "snd (s_get st now c w) = Inr s"
      from get_row [OF g] obtain q where q: "row w c = Some q" "s = q\<lparr>ID := c\<rparr>" by blast
      let ?i = "withAuthIdentity u (ID s) [] (time_sub now (LastActivity s) > SessionIdleTimeout)"
      have "asleep row t sid (fst (hard_handler st now nxt ?i r (fst (s_get st now c w), rs)))"
      proof (rule hard_handler_asleep [OF _ n])
        show "asleep row t sid (fst (fst (s_get st now c w), rs))" using asleep_weaken [OF get_frame a] by simp
        assume "same (id_SessionID ?i) sid"
        then have "same c sid" using q(2) by (simp add: withAuthIdentity_def)
        then show "id_IsLocked ?i"
          using asleep_locked [OF a, of q now] same_row [of c sid w] q assms(2) by (simp add: withAuthIdentity_def)
      qed
      then show ?thesis using Some f by (simp add: HardAuthMiddleware_def SoftAuthMiddleware_def)
    next
      fix w' rs' assume f: "resolveSessionCookie st now c (w, rs) = (None, w', rs')"
        and fr: "\<And>d. row w' d = row w d \<or> row w' d = None"
      have "asleep row t sid w'" using asleep_weaken [OF fr a] .
      then show ?thesis using Some f b [of "(w', rs')"] by (simp add: HardAuthMiddleware_def SoftAuthMiddleware_def)
    qed
  qed
qed

lemma asleep_refused:
  assumes a: "asleep row t sid w" and "t \<le> now" and "rq_Cookie r = Some sid" and "rq_Authorization r = []"
  shows "\<exists>out. (\<forall>nxt. HardAuthMiddleware st now nxt r (w, rs) = out) \<and> rs_status (snd out) \<noteq> None"
proof -
  have nb: "resolveBearerToken st now r w' = None" for w'
    using assms(4) by (simp add: resolveBearerToken_def split: option.splits)
  show ?thesis
  proof (rule resolve_cases [of now sid w rs])
    fix u s assume f: "resolveSessionCookie st now sid (w, rs) = (Some (u, s), fst (s_get st now sid w), rs)"
      and g: "snd (s_get st now sid w) = Inr s"
    from get_row [OF g] obtain q where "row w sid = Some q" "s = q\<lparr>ID := sid\<rparr>" by blast
    then have "time_sub now (LastActivity s) > SessionIdleTimeout" using asleep_locked [OF a _ assms(2)] by simp
    then show ?thesis using f assms(3)
      by (simp add: HardAuthMiddleware_def SoftAuthMiddleware_def hard_handler_def withAuthIdentity_def
          writeForbidden_def write_error_def split: option.splits)
  next
    fix w' rs' assume "resolveSessionCookie st now sid (w, rs) = (None, w', rs')"
    then show ?thesis using nb assms(3)
      by (simp add: HardAuthMiddleware_def SoftAuthMiddleware_def bearer_fallback_def writeAuthError_def write_error_def
          split: option.splits)
  qed
qed

end

end
