(* ===== verification/AuthProps.thy ===== *)
theory AuthProps
  imports AuthMiddleware
begin

text \<open>
  What the middlewares guarantee over the production stores: the idle lock, who a handler can run
  for, the administrator check, and the behaviour on a storage error.
\<close>

section \<open>The production stores satisfy the contract\<close>

definition session_row :: "(string \<Rightarrow> string) \<Rightarrow> world \<Rightarrow> string \<Rightarrow> Session option" where
  "session_row sha w sid = row_of sha (w_sessions w) sid"

definition same_handle :: "(string \<Rightarrow> string) \<Rightarrow> string \<Rightarrow> string \<Rightarrow> bool" where
  "same_handle sha a b \<longleftrightarrow> a \<noteq> [] \<and> b \<noteq> [] \<and> sha a = sha b"

lemma row_of_Delete_weak:
  "row_of sha (fst (Delete sha c db)) d = row_of sha db d \<or> row_of sha (fst (Delete sha c db)) d = None"
  by (auto simp: Delete_def DeleteByHandle_def row_of_def split: option.splits if_splits)

lemma row_of_Touch_frame:
  "\<not> same_handle sha c d \<Longrightarrow> row_of sha (fst (Touch sha now c db)) d = row_of sha db d"
  using row_of_Touch [of sha now c db d]
  by (cases "d = []") (auto simp: same_handle_def row_of_def split: option.splits)

lemma row_of_same: "same_handle sha c d \<Longrightarrow> row_of sha db c = row_of sha db d"
  by (cases db) (simp_all add: same_handle_def SessionHandle_def row_of_def)

interpretation real: session_store "real_stores sha" "session_row sha" "same_handle sha" for sha
proof unfold_locales
  show "snd (s_get (real_stores sha) now c w) = Inr s \<Longrightarrow>
      \<exists>r. session_row sha w c = Some r \<and> now \<le> SessExpiresAt r \<and> s = r\<lparr>ID := c\<rparr>" for now c w s
    using Get_row [of sha now c "w_sessions w" s] by (simp add: real_stores_def session_row_def split_beta)
  show "session_row sha (fst (s_get (real_stores sha) now c w)) d = session_row sha w d \<or>
      session_row sha (fst (s_get (real_stores sha) now c w)) d = None" for now c w d
    using row_of_Get [of sha now c "w_sessions w" d] by (simp add: real_stores_def session_row_def split_beta)
  show "session_row sha (fst (s_delete (real_stores sha) c w)) d = session_row sha w d \<or>
      session_row sha (fst (s_delete (real_stores sha) c w)) d = None" for c w d
    using row_of_Delete_weak [of sha c "w_sessions w" d] by (simp add: real_stores_def session_row_def split_beta)
  show "session_row sha (fst (s_touch (real_stores sha) now c w)) d = session_row sha w d"
    if "\<not> same_handle sha c d" for now c w d
    using row_of_Touch_frame [OF that] by (simp add: real_stores_def session_row_def split_beta)
  show "session_row sha (t_touch (real_stores sha) now t w) d = session_row sha w d" for now t w d
    by (simp add: real_stores_def session_row_def)
  show "session_row sha w c = session_row sha w d" if "same_handle sha c d" for c d w
    using row_of_same [OF that] by (simp add: session_row_def)
qed

section \<open>The idle lock\<close>

type_synonym arrival = "time \<times> world handler \<times> auth_request"

fun serve_all :: "(string \<Rightarrow> string) \<Rightarrow> arrival list \<Rightarrow> world \<Rightarrow> world" where
  "serve_all sha [] w = w"
| "serve_all sha ((now, nxt, r) # rest) w =
     serve_all sha rest (fst (HardAuthMiddleware (real_stores sha) now nxt r (w, \<lparr>rs_status = None, rs_bodies = [], rs_cleared = False\<rparr>)))"

text \<open>
  An idle session stays locked. Once a session's last activity is more than fifteen minutes
  old, no sequence of later requests through hard authentication, on this or other sessions, in
  the foreground or background, brings it back, as long as the handlers themselves do not refresh
  it (only the unlock handler does, and it is not behind hard authentication): every further request
  with its cookie is answered without running the handler.
\<close>

theorem idle_session_stays_locked:
  assumes "session_row sha w sid = Some s" and "LastActivity s + SessionIdleTimeout < t"
    and "\<forall>(now, nxt, r) \<in> set arrivals. t \<le> now \<and>
      (\<forall>i q x. asleep (session_row sha) t sid (fst x) \<longrightarrow> asleep (session_row sha) t sid (fst (nxt i q x)))"
    and "t \<le> now'" and "rq_Cookie r' = Some sid" and "rq_Authorization r' = []"
  shows "\<exists>out. (\<forall>nxt. HardAuthMiddleware (real_stores sha) now' nxt r' (serve_all sha arrivals w, rs) = out) \<and>
    rs_status (snd out) \<noteq> None"
proof -
  have "asleep (session_row sha) t sid w" using assms(1,2) by (simp add: asleep_def)
  then have "asleep (session_row sha) t sid (serve_all sha arrivals w)" using assms(3)
  proof (induction sha arrivals w rule: serve_all.induct)
    case (2 sha now nxt r rest w)
    have ns: "\<not> same_handle sha [] sid" by (simp add: same_handle_def)
    have "asleep (session_row sha) t sid (fst (HardAuthMiddleware (real_stores sha) now nxt r
        (w, \<lparr>rs_status = None, rs_bodies = [], rs_cleared = False\<rparr>)))"
      by (rule real.hard_asleep [OF 2(2) _ _ ns]) (use 2(3) in auto)
    from 2(1) [OF this] 2(3) show ?case by simp
  qed simp
  from real.asleep_refused [OF this assms(4-6)] show ?thesis .
qed

definition idle_world :: world where
  "idle_world = \<lparr>w_sessions = Some [(hexEncode ''cookie'', Some \<lparr>ID = hexEncode ''cookie'', UserID = ''u1'', IssuedAt = 0,
        SessExpiresAt = 24 * ns_hour, LastActivity = 0, RememberMe = False, IP = ''192.0.2.1'', UserAgent = ''ua''\<rparr>)],
     w_tokens = Some [], w_users = (\<lambda>_. Inr \<lparr>usr_ID = ''u1'', usr_Username = ''alice'', usr_Role = ''admin'',
        usr_AuthSource = ''local'', usr_MustChangePassword = False\<rparr>)\<rparr>"

definition cookie_request :: auth_request where
  "cookie_request = \<lparr>rq_Cookie = Some ''cookie'', rq_Authorization = [], rq_Background = ''1'', rq_Method = ''GET'',
     rq_Path = ''/api/v1/routes''\<rparr>"

theorem idle_session_stays_locked_witness:
  "\<exists>out. (\<forall>nxt. HardAuthMiddleware (real_stores (\<lambda>x. x)) (17 * ns_minute) nxt cookie_request
      (serve_all (\<lambda>x. x) [(16 * ns_minute, \<lambda>_ _ x. x, cookie_request)] idle_world,
       \<lparr>rs_status = None, rs_bodies = [], rs_cleared = False\<rparr>) = out) \<and> rs_status (snd out) \<noteq> None"
proof (rule idle_session_stays_locked [where t = "16 * ns_minute"])
  show "session_row (\<lambda>x. x) idle_world ''cookie'' = Some \<lparr>ID = hexEncode ''cookie'', UserID = ''u1'', IssuedAt = 0,
        SessExpiresAt = 24 * ns_hour, LastActivity = 0, RememberMe = False, IP = ''192.0.2.1'', UserAgent = ''ua''\<rparr>"
    by (simp add: session_row_def row_of_def idle_world_def SessionHandle_def)
qed (simp_all add: cookie_request_def SessionIdleTimeout_def ns_minute_def ns_second_def)

section \<open>Who a handler runs for\<close>

text \<open>A stored, unexpired session of an existing user, or an active token of one.\<close>

definition cookie_identity :: "'w stores \<Rightarrow> time \<Rightarrow> string \<Rightarrow> 'w \<Rightarrow> identity \<Rightarrow> bool" where
  "cookie_identity st now c w i \<longleftrightarrow>
     (\<exists>s u. snd (s_get st now c w) = Inr s \<and> u_get st (UserID s) (fst (s_get st now c w)) = Inr u \<and>
        i = withAuthIdentity u (ID s) [] (time_sub now (LastActivity s) > SessionIdleTimeout))"

definition token_identity :: "'w stores \<Rightarrow> time \<Rightarrow> auth_request \<Rightarrow> 'w \<Rightarrow> identity \<Rightarrow> bool" where
  "token_identity st now r w i \<longleftrightarrow>
     (\<exists>lookup t u. t_lookup st = Some lookup \<and>
        lookup (trimSpace (drop (length ''Bearer '') (rq_Authorization r))) w = Inr t \<and> IsActive now t \<and> u_get st (tok_UserID t) w = Inr u \<and>
        hasPrefix (rq_Authorization r) ''Bearer '' \<and> i = withAuthIdentity u [] (tok_ID t) False)"

lemma resolveBearerToken_sound:
  "resolveBearerToken st now r w = Some (u, t) \<Longrightarrow> token_identity st now r w (withAuthIdentity u [] (tok_ID t) False)"
proof -
  assume a: "resolveBearerToken st now r w = Some (u, t)"
  then obtain lookup where l: "t_lookup st = Some lookup" by (auto simp: resolveBearerToken_def split: option.splits)
  let ?p = "trimSpace (drop (length ''Bearer '') (rq_Authorization r))"
  obtain t' where t': "lookup ?p w = Inr t'"
    using a l by (cases "lookup ?p w") (auto simp: resolveBearerToken_def Let_def split: if_splits)
  then have "t' = t \<and> IsActive now t \<and> u_get st (tok_UserID t) w = Inr u \<and> hasPrefix (rq_Authorization r) ''Bearer ''"
    using a l by (simp add: resolveBearerToken_def Let_def IsActive_def split: if_splits sum.splits option.splits)
  with l t' show ?thesis unfolding token_identity_def by blast
qed

lemma bearer_runs:
  "(\<exists>out. \<forall>nxt. bearer_fallback st now nxt r x = out) \<or>
   (\<exists>i y. (\<forall>nxt. bearer_fallback st now nxt r x = nxt i r y) \<and> token_identity st now r (fst x) i)"
proof (cases "resolveBearerToken st now r (fst x)")
  case None
  then show ?thesis by (auto simp: bearer_fallback_def split_beta)
next
  case (Some p)
  let ?i = "withAuthIdentity (fst p) [] (tok_ID (snd p)) False"
  let ?y = "(t_touch st now (tok_ID (snd p)) (fst x), snd x)"
  have "\<forall>nxt. bearer_fallback st now nxt r x = nxt ?i r ?y" using Some by (simp add: bearer_fallback_def split_beta)
  moreover have "token_identity st now r (fst x) ?i" using resolveBearerToken_sound [of st now r "fst x" "fst p" "snd p"] Some by simp
  ultimately show ?thesis by blast
qed

lemma fallback_identified:
  assumes no: "\<forall>c j. rq_Cookie r = Some c \<longrightarrow> \<not> cookie_identity st now c (fst x) j"
    and eq: "\<And>nxt. SoftAuthMiddleware st now nxt r x = bearer_fallback st now nxt r z"
  shows "(\<exists>out. \<forall>nxt. SoftAuthMiddleware st now nxt r x = out) \<or>
   (\<exists>i y. (\<forall>nxt. SoftAuthMiddleware st now nxt r x = nxt i r y) \<and>
      ((\<exists>c. rq_Cookie r = Some c \<and> cookie_identity st now c (fst x) i) \<or>
       (\<exists>w. token_identity st now r w i \<and> (\<forall>c j. rq_Cookie r = Some c \<longrightarrow> \<not> cookie_identity st now c (fst x) j))))"
  using bearer_runs [of st now r z]
proof
  assume "\<exists>out. \<forall>nxt. bearer_fallback st now nxt r z = out"
  then show ?thesis unfolding eq by (rule disjI1)
next
  assume "\<exists>i y. (\<forall>nxt. bearer_fallback st now nxt r z = nxt i r y) \<and> token_identity st now r (fst z) i"
  then obtain i y where iy: "\<forall>nxt. bearer_fallback st now nxt r z = nxt i r y" and t: "token_identity st now r (fst z) i" by blast
  show ?thesis unfolding eq
    by (rule disjI2, rule exI [of _ i], rule exI [of _ y], rule conjI [OF iy], rule disjI2, rule exI [of _ "fst z"],
        rule conjI [OF t no])
qed

text \<open>
  No anonymous access. Behind soft authentication a handler either does not run at all, or it
  runs exactly once, for the identity of a stored and unexpired session of an existing user, or of
  an active API token of an existing user; a valid cookie always wins over a token.
\<close>

theorem soft_runs_only_identified:
  "(\<exists>out. \<forall>nxt. SoftAuthMiddleware st now nxt r x = out) \<or>
   (\<exists>i y. (\<forall>nxt. SoftAuthMiddleware st now nxt r x = nxt i r y) \<and>
      ((\<exists>c. rq_Cookie r = Some c \<and> cookie_identity st now c (fst x) i) \<or>
       (\<exists>w. token_identity st now r w i \<and> (\<forall>c j. rq_Cookie r = Some c \<longrightarrow> \<not> cookie_identity st now c (fst x) j))))"
proof (cases "rq_Cookie r")
  case None
  then show ?thesis by (intro fallback_identified [of r st now x x]) (simp_all add: SoftAuthMiddleware_def)
next
  case (Some c)
  obtain o' y where res: "resolveSessionCookie st now c x = (o', y)" by (cases "resolveSessionCookie st now c x") auto
  show ?thesis
  proof (cases o')
    case (Some p)
    let ?i = "withAuthIdentity (fst p) (ID (snd p)) [] (time_sub now (LastActivity (snd p)) > SessionIdleTimeout)"
    have "cookie_identity st now c (fst x) ?i"
      using res Some by (auto simp: resolveSessionCookie_def cookie_identity_def split_beta
          split: sum.splits auth_error.splits prod.splits)
    moreover have "\<forall>nxt. SoftAuthMiddleware st now nxt r x = nxt ?i r y"
      using res Some \<open>rq_Cookie r = Some c\<close> by (simp add: SoftAuthMiddleware_def split_beta)
    ultimately show ?thesis using \<open>rq_Cookie r = Some c\<close> by blast
  next
    case None
    have "\<not> cookie_identity st now c (fst x) j" for j
      using res None by (auto simp: resolveSessionCookie_def cookie_identity_def split_beta
          split: sum.splits auth_error.splits prod.splits)
    then show ?thesis using res None \<open>rq_Cookie r = Some c\<close>
      by (intro fallback_identified [of r st now x y]) (simp_all add: SoftAuthMiddleware_def)
  qed
qed

theorem soft_runs_only_identified_witness:
  "\<exists>i y. (\<forall>nxt. SoftAuthMiddleware (real_stores (\<lambda>x. x)) ns_minute nxt cookie_request
        (idle_world, \<lparr>rs_status = None, rs_bodies = [], rs_cleared = False\<rparr>) = nxt i cookie_request y) \<and>
     cookie_identity (real_stores (\<lambda>x. x)) ns_minute ''cookie'' idle_world i"
proof -
  let ?st = "real_stores (\<lambda>x. x)" and ?x = "(idle_world, \<lparr>rs_status = None, rs_bodies = [], rs_cleared = False\<rparr>)"
  have run: "\<exists>i y. \<forall>nxt. SoftAuthMiddleware ?st ns_minute nxt cookie_request ?x = nxt i cookie_request y"
    and id: "\<exists>j. cookie_identity ?st ns_minute ''cookie'' idle_world j"
    by (auto simp: SoftAuthMiddleware_def cookie_request_def resolveSessionCookie_def real_stores_def Get_def getByHandle_def
        idle_world_def SessionHandle_def cookie_identity_def ns_hour_def ns_minute_def ns_second_def)
  have diff: "\<not> (\<exists>out. \<forall>nxt. SoftAuthMiddleware ?st ns_minute nxt cookie_request ?x = out)"
  proof
    assume "\<exists>out. \<forall>nxt. SoftAuthMiddleware ?st ns_minute nxt cookie_request ?x = out"
    with run obtain i y out where "\<And>nxt :: world handler. nxt i cookie_request y = out" by metis
    from this [of "\<lambda>_ _ _. (idle_world, snd ?x)"] this [of "\<lambda>_ _ _. (idle_world, writeForbidden [] (snd ?x))"]
    show False by (auto simp: writeForbidden_def write_error_def)
  qed
  from soft_runs_only_identified [of ?st ns_minute cookie_request ?x] diff id
  show ?thesis by (auto simp: cookie_request_def)
qed

section \<open>Administrators and forced password changes\<close>

text \<open>
  A composition of middlewares, as a function of the handler behind it, refuses when it answers
  with an error status whatever the handler is, and admits an identity when it is the handler
  called once for it.
\<close>

definition refuses :: "('w handler \<Rightarrow> 'w \<times> auth_response) \<Rightarrow> bool" where
  "refuses f \<longleftrightarrow> (\<exists>out. (\<forall>nxt. f nxt = out) \<and> rs_status (snd out) \<noteq> None)"

definition admits :: "auth_request \<Rightarrow> ('w handler \<Rightarrow> 'w \<times> auth_response) \<Rightarrow> identity \<Rightarrow> bool" where
  "admits r f i \<longleftrightarrow> (\<exists>y. \<forall>nxt. f nxt = nxt i r y)"

definition may_administer :: "auth_request \<Rightarrow> identity \<Rightarrow> bool" where
  "may_administer r i \<longleftrightarrow>
     id_Role i = UserRoleAdmin \<and> \<not> id_IsLocked i \<and> (\<not> id_MustChangePassword i \<or> isPasswordChangeRequest r)"

lemma status_written: "rs_status (write_error code m rs) \<noteq> None"
  by (simp add: write_error_def split: option.splits)

lemma admin_gate:
  "if may_administer r i then admits r (\<lambda>nxt. hard_handler st now (RequireAdminMiddleware nxt) i r x) i
   else refuses (\<lambda>nxt. hard_handler st now (RequireAdminMiddleware nxt) i r x)"
proof (cases "id_IsLocked i \<or> id_MustChangePassword i \<and> \<not> isPasswordChangeRequest r")
  case True
  then have "\<exists>m. \<forall>nxt. hard_handler st now (RequireAdminMiddleware nxt) i r x = (fst x, write_error 403 m (snd x))"
    by (auto simp: hard_handler_def writeForbidden_def writePasswordChangeRequired_def split_beta)
  then have "refuses (\<lambda>nxt. hard_handler st now (RequireAdminMiddleware nxt) i r x)"
    unfolding refuses_def using status_written by (metis snd_conv)
  with True show ?thesis by (auto simp: may_administer_def)
next
  case False
  let ?y = "(if id_SessionID i \<noteq> [] \<and> \<not> isBackgroundRequest r then fst (s_touch st now (id_SessionID i) (fst x)) else fst x, snd x)"
  have y: "hard_handler st now (RequireAdminMiddleware nxt) i r x = RequireAdminMiddleware nxt i r ?y" for nxt
    using False by (auto simp: hard_handler_def Let_def split_beta)
  show ?thesis
  proof (cases "id_Role i = UserRoleAdmin")
    case True
    then have "admits r (\<lambda>nxt. hard_handler st now (RequireAdminMiddleware nxt) i r x) i"
      unfolding admits_def y by (intro exI [of _ ?y]) (simp add: RequireAdminMiddleware_def)
    with True False show ?thesis by (simp add: may_administer_def)
  next
    case role: False
    then have "refuses (\<lambda>nxt. hard_handler st now (RequireAdminMiddleware nxt) i r x)"
      unfolding refuses_def y using status_written by (simp add: RequireAdminMiddleware_def writeForbidden_def)
    with role show ?thesis by (simp add: may_administer_def)
  qed
qed

text \<open>The identity is that of a stored session, or of a stored token once no session was found.\<close>

definition after_cookie :: "'w stores \<Rightarrow> time \<Rightarrow> auth_request \<Rightarrow> 'w \<times> auth_response \<Rightarrow> 'w" where
  "after_cookie st now r x =
     (case rq_Cookie r of None \<Rightarrow> fst x | Some c \<Rightarrow> fst (snd (resolveSessionCookie st now c x)))"

definition stands_for :: "'w stores \<Rightarrow> time \<Rightarrow> auth_request \<Rightarrow> 'w \<times> auth_response \<Rightarrow> identity \<Rightarrow> bool" where
  "stands_for st now r x i \<longleftrightarrow>
     (\<exists>c. rq_Cookie r = Some c \<and> cookie_identity st now c (fst x) i) \<or> token_identity st now r (after_cookie st now r x) i"

text \<open>
  C30: the gates of the administration API compose. Behind hard authentication and the
  administrator check a handler runs only for the identity of a stored, unexpired session or of an
  active token, with the role its user has in the store; that role is administrator, the session is
  not idle locked, and the user does not owe a password change, unless the request is the one that
  changes the password. In every other case an error status is written.
\<close>

theorem admin_handler_gated:
  "refuses (\<lambda>nxt. HardAuthMiddleware st now (RequireAdminMiddleware nxt) r (w, rs)) \<or>
   (\<exists>i. admits r (\<lambda>nxt. HardAuthMiddleware st now (RequireAdminMiddleware nxt) r (w, rs)) i \<and> may_administer r i \<and>
      stands_for st now r (w, rs) i)"
proof -
  let ?ok = "\<lambda>f. refuses f \<or> (\<exists>i. admits r f i \<and> may_administer r i \<and> stands_for st now r (w, rs) i)"
  have h: "?ok (\<lambda>nxt. hard_handler st now (RequireAdminMiddleware nxt) i r x)" if "stands_for st now r (w, rs) i" for i x
    using admin_gate [of r i st now x] that by (auto split: if_splits)
  have b: "?ok (\<lambda>nxt. bearer_fallback st now (hard_handler st now (RequireAdminMiddleware nxt)) r x)"
    if after: "fst x = after_cookie st now r (w, rs)" for x
  proof (cases "resolveBearerToken st now r (fst x)")
    case None
    then have "refuses (\<lambda>nxt. bearer_fallback st now (hard_handler st now (RequireAdminMiddleware nxt)) r x)"
      using status_written by (simp add: refuses_def bearer_fallback_def split_beta writeAuthError_def)
    then show ?thesis ..
  next
    case (Some p)
    have eq: "bearer_fallback st now g r x =
        g (withAuthIdentity (fst p) [] (tok_ID (snd p)) False) r (t_touch st now (tok_ID (snd p)) (fst x), snd x)" for g
      using Some by (simp add: bearer_fallback_def split_beta)
    have "stands_for st now r (w, rs) (withAuthIdentity (fst p) [] (tok_ID (snd p)) False)"
      using resolveBearerToken_sound [of st now r "fst x" "fst p" "snd p"] Some after by (simp add: stands_for_def)
    then show ?thesis unfolding eq by (rule h)
  qed
  show ?thesis
  proof (cases "rq_Cookie r")
    case None
    then show ?thesis using b [of "(w, rs)"] by (simp add: HardAuthMiddleware_def SoftAuthMiddleware_def after_cookie_def)
  next
    case c: (Some c)
    obtain o' y where res: "resolveSessionCookie st now c (w, rs) = (o', y)" by (rule prod.exhaust)
    show ?thesis
    proof (cases o')
      case None
      then show ?thesis using b [of y] res c by (simp add: HardAuthMiddleware_def SoftAuthMiddleware_def after_cookie_def)
    next
      case (Some p)
      let ?i = "withAuthIdentity (fst p) (ID (snd p)) [] (time_sub now (LastActivity (snd p)) > SessionIdleTimeout)"
      have eq: "SoftAuthMiddleware st now g r (w, rs) = g ?i r y" for g
        using res Some c by (simp add: SoftAuthMiddleware_def split_beta)
      have "cookie_identity st now c w ?i"
        using res Some by (auto simp: resolveSessionCookie_def cookie_identity_def split_beta
            split: sum.splits auth_error.splits prod.splits)
      with c have "stands_for st now r (w, rs) ?i" by (auto simp: stands_for_def)
      then show ?thesis unfolding HardAuthMiddleware_def eq by (rule h)
    qed
  qed
qed

theorem admin_handler_gated_witness:
  "\<exists>i. admits cookie_request (\<lambda>nxt. HardAuthMiddleware (real_stores (\<lambda>x. x)) ns_minute (RequireAdminMiddleware nxt) cookie_request
        (idle_world, \<lparr>rs_status = None, rs_bodies = [], rs_cleared = False\<rparr>)) i \<and> may_administer cookie_request i"
proof -
  let ?x = "(idle_world, \<lparr>rs_status = None, rs_bodies = [], rs_cleared = False\<rparr>)"
  let ?f = "\<lambda>nxt. HardAuthMiddleware (real_stores (\<lambda>x. x)) ns_minute (RequireAdminMiddleware nxt) cookie_request ?x"
  have "rs_status (snd (?f (\<lambda>_ _ y. y))) \<noteq> rs_status (snd (?f (\<lambda>_ _ y. (fst y, writeForbidden [] (snd y)))))" by code_simp
  then have "?f (\<lambda>_ _ y. y) \<noteq> ?f (\<lambda>_ _ y. (fst y, writeForbidden [] (snd y)))" by (metis (no_types))
  then have "\<not> refuses ?f" unfolding refuses_def by (metis (no_types))
  with admin_handler_gated [of "real_stores (\<lambda>x. x)" ns_minute cookie_request idle_world "snd ?x"] show ?thesis by auto
qed

section \<open>A storage error during the cookie lookup\<close>

text \<open>
  A storage error is not terminal. When the user of a valid session cannot be read, the 503 is
  written, but the request goes on to the bearer path: with a valid token the handler runs all the
  same, on a response whose status is already fixed to 503, and without one a second error body
  is appended to the 503.
\<close>

theorem storage_error_not_terminal:
  assumes "rq_Cookie r = Some c" and "s_get st now c w = (w1, Inr sess)"
    and "u_get st (UserID sess) w1 = Inl (ErrStorage msg)" and "rs_status rs = None"
  shows "(\<forall>u t. resolveBearerToken st now r w1 = Some (u, t) \<longrightarrow>
      (\<exists>y. SoftAuthMiddleware st now nxt r (w, rs) = nxt (withAuthIdentity u [] (tok_ID t) False) r y \<and>
           rs_status (snd y) = Some 503)) \<and>
    (resolveBearerToken st now r w1 = None \<longrightarrow>
      rs_status (snd (SoftAuthMiddleware st now nxt r (w, rs))) = Some 503 \<and>
      length (rs_bodies (snd (SoftAuthMiddleware st now nxt r (w, rs)))) = length (rs_bodies rs) + 2)"
proof -
  let ?rs = "writeServiceUnavailable ''authentication service temporarily unavailable'' rs"
  have st: "rs_status ?rs = Some 503" "length (rs_bodies ?rs) = length (rs_bodies rs) + 1"
    using assms(4) by (simp_all add: writeServiceUnavailable_def write_error_def)
  have "SoftAuthMiddleware st now nxt r (w, rs) = bearer_fallback st now nxt r (w1, ?rs)"
    using assms(1-3) by (simp add: SoftAuthMiddleware_def resolveSessionCookie_def)
  with st show ?thesis
    by (auto simp: bearer_fallback_def writeAuthError_def write_error_def split: option.splits)
qed

definition broken_world :: world where
  "broken_world = idle_world\<lparr>w_users := (\<lambda>_. Inl (ErrStorage ''unmarshal''))\<rparr>"

theorem storage_error_not_terminal_witness:
  "length (rs_bodies (snd (SoftAuthMiddleware (real_stores (\<lambda>x. x)) ns_minute (\<lambda>_ _ x. x) cookie_request
      (broken_world, \<lparr>rs_status = None, rs_bodies = [], rs_cleared = False\<rparr>)))) = 2"
proof -
  let ?st = "real_stores (\<lambda>x. x)"
  let ?s = "\<lparr>ID = ''cookie'', UserID = ''u1'', IssuedAt = 0, SessExpiresAt = 24 * ns_hour, LastActivity = 0,
      RememberMe = False, IP = ''192.0.2.1'', UserAgent = ''ua''\<rparr>"
  have g: "s_get ?st ns_minute ''cookie'' broken_world = (broken_world, Inr ?s)"
    by (simp add: real_stores_def Get_def getByHandle_def broken_world_def idle_world_def SessionHandle_def
        ns_hour_def ns_minute_def ns_second_def)
  have u: "u_get ?st (UserID ?s) broken_world = Inl (ErrStorage ''unmarshal'')" by (simp add: real_stores_def broken_world_def)
  have b: "resolveBearerToken ?st ns_minute cookie_request broken_world = None"
    by (simp add: resolveBearerToken_def real_stores_def cookie_request_def)
  have c: "rq_Cookie cookie_request = Some ''cookie''" by (simp add: cookie_request_def)
  from storage_error_not_terminal [OF c g u, of "\<lparr>rs_status = None, rs_bodies = [], rs_cleared = False\<rparr>" "\<lambda>_ _ x. x"] b
  show ?thesis by simp
qed

end
