(* ===== verification/GoStrings.thy ===== *)
theory GoStrings
  imports GoNet
begin

text \<open>
  More of Go's \<open>strings\<close> package, and the record of the library functions the route model takes
  as arguments: the Unicode tables behind \<open>strings.ToLower\<close>, \<open>url.Parse\<close>, \<open>time.ParseDuration\<close>,
  \<open>regexp.Compile\<close>, \<open>textproto.CanonicalMIMEHeaderKey\<close>, \<open>strconv.Quote\<close> (the verb \<open>%q\<close>), and the
  SecLang parser of Coraza behind \<open>seclang.Check\<close>. Every statement holds for any such
  functions, except where it names what it needs of them.
\<close>

section \<open>Substrings\<close>

definition trimSuffix :: "string \<Rightarrow> string \<Rightarrow> string" where
  "trimSuffix s suf = (if hasSuffix s suf then take (length s - length suf) s else s)"

fun containsStr :: "string \<Rightarrow> string \<Rightarrow> bool" where
  "containsStr [] sub = (sub = [])"
| "containsStr (c # cs) sub = (hasPrefix (c # cs) sub \<or> containsStr cs sub)"

text \<open>\<open>strings.ContainsAny\<close> for a set of ASCII characters.\<close>

definition containsAny :: "string \<Rightarrow> string \<Rightarrow> bool" where
  "containsAny s chars \<longleftrightarrow> (\<exists>c \<in> set s. c \<in> set chars)"

fun joinWith :: "string \<Rightarrow> string list \<Rightarrow> string" where
  "joinWith sep [] = []"
| "joinWith sep [x] = x"
| "joinWith sep (x # y # zs) = x @ sep @ joinWith sep (y # zs)"

lemma trimSuffix_append [simp, go_str]: "trimSuffix (s @ suf) suf = s"
  by (simp add: trimSuffix_def hasSuffix_def)

lemma trimSuffix_cases [go_str]:
  obtains "s = trimSuffix s suf @ suf" | "trimSuffix s suf = s" "\<not> hasSuffix s suf"
  by (cases "hasSuffix s suf") (auto simp: trimSuffix_def hasSuffix_iff)

lemma hasPrefix_trans [go_str]: "hasPrefix s (p @ q) \<Longrightarrow> hasPrefix s p"
  by (auto simp: hasPrefix_iff)

lemma hasPrefix_same_length [go_str]:
  "hasPrefix s p \<Longrightarrow> hasPrefix s q \<Longrightarrow> length p = length q \<Longrightarrow> p = q"
  by (simp add: hasPrefix_def)

lemma hasPrefix_refl [simp, go_str]: "hasPrefix s s"
  by (simp add: hasPrefix_def)

lemma hasPrefix_Nil [simp, go_str]: "hasPrefix s []"
  by (simp add: hasPrefix_def)

lemma set_joinWith [go_str]: "set (joinWith sep xs) \<subseteq> \<Union> (set ` set xs) \<union> set sep"
  by (induction sep xs rule: joinWith.induct) auto

lemma joinWith_map_count:
  "count_list (joinWith sep xs) c =
     sum_list (map (\<lambda>x. count_list x c) xs) + (length xs - 1) * count_list sep c"
  by (induction sep xs rule: joinWith.induct) simp_all

section \<open>Letter case\<close>

record url =
  url_Scheme :: string
  url_Host :: string
  url_Path :: string

record golib =
  lib_lower :: "string \<Rightarrow> string"
  lib_url :: "string \<Rightarrow> url option"
  lib_duration :: "string \<Rightarrow> duration option"
  lib_regexp :: "string \<Rightarrow> bool"
  lib_canonical :: "string \<Rightarrow> string"
  lib_seclang :: "string \<Rightarrow> bool"
  lib_quote :: "string \<Rightarrow> string"

definition lower_char :: "char \<Rightarrow> char" where
  "lower_char c = (if 65 \<le> byte_of c \<and> byte_of c \<le> 90 then char_of (byte_of c + 32) else c)"

definition is_ascii :: "string \<Rightarrow> bool" where
  "is_ascii s \<longleftrightarrow> (\<forall>c \<in> set s. byte_of c < 128)"

text \<open>\<open>strings.ToLower\<close>: byte by byte on ASCII strings, through the Unicode tables otherwise.\<close>

definition toLower :: "golib \<Rightarrow> string \<Rightarrow> string" where
  "toLower L s = (if is_ascii s then map lower_char s else lib_lower L s)"

lemma byte_of_eq_iff [go_str]: "byte_of c = byte_of d \<longleftrightarrow> c = d"
  by (simp add: byte_of_def)

lemma lower_char_idem [simp]: "lower_char (lower_char c) = lower_char c"
  by (auto simp: lower_char_def)

lemma toLower_Nil [simp]: "toLower L [] = []"
  by (simp add: toLower_def is_ascii_def)

section \<open>URLs\<close>

text \<open>\<open>URL.Hostname\<close>: the host without port and brackets.\<close>

definition validOptionalPort :: "string \<Rightarrow> bool" where
  "validOptionalPort p =
     (case p of [] \<Rightarrow> True | c # cs \<Rightarrow> c = CHR '':'' \<and> (\<forall>d \<in> set cs. is_digit d))"

definition url_Hostname :: "url \<Rightarrow> string" where
  "url_Hostname u =
     (let h = url_Host u;
          h1 = (case lastIndexByte h CHR '':'' of
                  Some i \<Rightarrow> if validOptionalPort (drop i h) then take i h else h
                | None \<Rightarrow> h)
      in if hasPrefix h1 ''['' \<and> hasSuffix h1 '']'' then take (length h1 - 2) (drop 1 h1) else h1)"

section \<open>Checks in sequence\<close>

text \<open>
  A validator returns its first error, or \<open>None\<close>. \<open>first_error\<close> runs a list of checks,
  \<open>check_each\<close> one check over the elements of a slice, \<open>guard\<close> turns a condition into an error.
\<close>

fun first_error :: "'e option list \<Rightarrow> 'e option" where
  "first_error [] = None"
| "first_error (c # cs) = (case c of None \<Rightarrow> first_error cs | Some e \<Rightarrow> Some e)"

definition check_each :: "('a \<Rightarrow> 'e option) \<Rightarrow> 'a list \<Rightarrow> 'e option" where
  "check_each f xs = first_error (map f xs)"

definition guard :: "bool \<Rightarrow> 'e \<Rightarrow> 'e option" where
  "guard bad e = (if bad then Some e else None)"

lemma first_error_None [simp]: "first_error cs = None \<longleftrightarrow> (\<forall>c \<in> set cs. c = None)"
  by (induction cs) (auto split: option.split)

declare first_error.simps [simp del]

lemma check_each_None [simp]: "check_each f xs = None \<longleftrightarrow> (\<forall>x \<in> set xs. f x = None)"
  by (simp add: check_each_def)

lemma guard_None [simp]: "guard bad e = None \<longleftrightarrow> \<not> bad"
  by (simp add: guard_def)

text \<open>The \<open>seen\<close> map of a loop that refuses an element already met: the elements that repeat.\<close>

fun dup_scan :: "'a list \<Rightarrow> 'a list \<Rightarrow> ('a \<times> bool) list" where
  "dup_scan seen [] = []"
| "dup_scan seen (x # xs) = (x, x \<in> set seen) # dup_scan (x # seen) xs"

lemma dup_scan_distinct:
  "(\<forall>p \<in> set (dup_scan seen xs). \<not> snd p) \<longleftrightarrow> distinct xs \<and> set xs \<inter> set seen = {}"
  by (induction seen xs rule: dup_scan.induct) auto

lemma map_fst_dup_scan [simp]: "map fst (dup_scan seen xs) = xs"
  by (induction seen xs rule: dup_scan.induct) auto

lemma dup_scan_mem: "x \<in> set xs \<Longrightarrow> \<exists>b. (x, b) \<in> set (dup_scan seen xs)"
  by (induction seen xs rule: dup_scan.induct) auto

lemma length_map_filter_all:
  "\<forall>x \<in> set xs. f x \<noteq> None \<Longrightarrow> length (List.map_filter f xs) = length xs"
  by (induction xs) (auto simp: List.map_filter_simps)

end
