(* ===== verification/Routes.thy ===== *)
theory Routes
  imports GoStrings
begin

text \<open>
  The stored configuration of one proxied host (\<open>internal/storage/routes.go\<close> and the files it
  draws on): the structs, and the operations on them that both the validator and the Caddy
  emitter use. A pointer field that may be nil is an option.
\<close>

section \<open>Pools and health checks\<close>

record Upstream =
  up_URL :: string
  up_Weight :: int

record HealthCheck =
  hc_Enabled :: bool
  hc_URI :: string
  hc_Method :: string
  hc_Interval :: string
  hc_Timeout :: string
  hc_ExpectStatus :: int
  hc_ExpectBody :: string
  hc_Passes :: int
  hc_Fails :: int
  hc_HostHeader :: string
  hc_Headers :: "(string, string) gomap"

definition ProbeHost :: "HealthCheck \<Rightarrow> string \<Rightarrow> string" where
  "ProbeHost h routeHost = (if hc_HostHeader h \<noteq> [] then hc_HostHeader h else routeHost)"

definition LBPolicyWeightedRoundRobin :: string where
  "LBPolicyWeightedRoundRobin = ''weighted_round_robin''"

definition LBPolicies :: "string list" where
  "LBPolicies = [''round_robin'', LBPolicyWeightedRoundRobin, ''least_conn'', ''ip_hash'', ''random'', ''first'']"

definition upstreamScheme :: "string \<Rightarrow> string" where
  "upstreamScheme raw =
     (if length raw \<ge> 7 \<and> (take 7 raw = ''http://'' \<or> take 7 raw = ''HTTP://'') then ''http''
      else if length raw \<ge> 8 \<and> (take 8 raw = ''https://'' \<or> take 8 raw = ''HTTPS://'') then ''https''
      else [])"

section \<open>Address filters\<close>

record IPFilter =
  ipf_Mode :: string
  ipf_CIDRs :: "string list"
  ipf_StatusCode :: int

definition IsActive :: "IPFilter \<Rightarrow> bool" where
  "IsActive f \<longleftrightarrow> ipf_Mode f = ''allow'' \<or> ipf_Mode f = ''deny''"

definition normalize_cidr :: "string \<Rightarrow> string option" where
  "normalize_cidr e =
     (if parseCIDR e \<noteq> None then Some e
      else case parseIP e of
             None \<Rightarrow> None
           | Some ip \<Rightarrow> if to4 ip \<noteq> None then Some (e @ ''/32'') else Some (e @ ''/128''))"

definition NormalizedCIDRs :: "IPFilter \<Rightarrow> string list" where
  "NormalizedCIDRs f = List.map_filter normalize_cidr (ipf_CIDRs f)"

section \<open>Country filters\<close>

record Exceptions =
  exc_Countries :: "string list"
  exc_ASNs :: "32 word list"

record countryblock_Config =
  cb_Mode :: string
  cb_CountryList :: "string list"
  cb_Continents :: "string list"
  cb_ASNs :: "32 word list"
  cb_Exceptions :: "Exceptions option"
  cb_StatusCode :: int

section \<open>Path rules\<close>

record BasicAuthRouteConfig =
  ba_Username :: string
  ba_PasswordHash :: string

record ForwardAuthRouteConfig =
  fa_ProviderName :: string

record PathRedirect =
  prd_Target :: string
  prd_StatusCode :: int

definition PathRedirect_Code :: "PathRedirect option \<Rightarrow> int" where
  "PathRedirect_Code pr =
     (case pr of None \<Rightarrow> 302 | Some p \<Rightarrow> if prd_StatusCode p = 0 then 302 else prd_StatusCode p)"

record RouteRateLimit =
  rl_Events :: int
  rl_Window :: string
  rl_Key :: string

record PathRule =
  pr_PathPrefix :: string
  pr_BasicAuth :: "BasicAuthRouteConfig option"
  pr_IPFilter :: "IPFilter option"
  pr_Upstreams :: "Upstream list"
  pr_LBPolicy :: string
  pr_HealthCheck :: "HealthCheck option"
  pr_InsecureSkipVerify :: bool
  pr_UpstreamTLSServerName :: string
  pr_MatchExact :: bool
  pr_Redirect :: "PathRedirect option"
  pr_ForwardAuth :: "ForwardAuthRouteConfig option"
  pr_DisableRouteAuth :: bool
  pr_RateLimit :: "RouteRateLimit option"

definition matches :: "golib \<Rightarrow> PathRule \<Rightarrow> string \<Rightarrow> bool" where
  "matches L p path0 =
     (let path = toLower L path0; prefix = toLower L (pr_PathPrefix p)
      in if pr_MatchExact p then path = prefix
         else path = prefix \<or> hasPrefix path (trimSuffix prefix ''/'' @ ''/''))"

text \<open>\<open>sort.SliceStable\<close> by descending length.\<close>

definition SortPathRulesByPrefixLenDesc :: "PathRule list \<Rightarrow> PathRule list" where
  "SortPathRulesByPrefixLenDesc rules = sort_key (\<lambda>p. - int (length (pr_PathPrefix p))) rules"

section \<open>The web application firewall fields\<close>

record WAFTargetedExclusion =
  wx_RuleID :: int
  wx_Target :: string
  wx_Path :: string
  wx_PathPrefix :: bool

record WAFRuleCondition =
  wc_Field :: string
  wc_Header :: string
  wc_Operator :: string
  wc_Values :: "string list"

record WAFCustomRule =
  wr_ID :: int
  wr_Name :: string
  wr_Disabled :: bool
  wr_Conditions :: "WAFRuleCondition list"

section \<open>Route states\<close>

record MaintenanceConfig =
  mc_RetryAfterSeconds :: int
  mc_BypassIPs :: "string list"
  mc_Message :: string

record RedirectConfig =
  rc_Target :: string
  rc_StatusCode :: int
  rc_PreservePath :: bool

definition RedirectConfig_Code :: "RedirectConfig option \<Rightarrow> int" where
  "RedirectConfig_Code rc =
     (case rc of None \<Rightarrow> 301 | Some c \<Rightarrow> if rc_StatusCode c = 0 then 301 else rc_StatusCode c)"

definition TargetHost :: "golib \<Rightarrow> RedirectConfig option \<Rightarrow> string" where
  "TargetHost L rc =
     (case rc of
        None \<Rightarrow> []
      | Some c \<Rightarrow>
          (case lib_url L (trimSpace (rc_Target c)) of
             None \<Rightarrow> []
           | Some u \<Rightarrow> toLower L (url_Hostname u)))"

record HealthNotifyConfig =
  hn_Enabled :: bool
  hn_ChannelID :: string
  hn_ReminderMinutes :: int

section \<open>The route\<close>

record Route =
  rt_ID :: string
  rt_Host :: string
  rt_Upstreams :: "Upstream list"
  rt_LBPolicy :: string
  rt_TLSEnabled :: bool
  rt_RedirectToHTTPS :: bool
  rt_Aliases :: "string list"
  rt_AuthMode :: string
  rt_BasicAuth :: BasicAuthRouteConfig
  rt_ForwardAuth :: ForwardAuthRouteConfig
  rt_RequestHeaders :: "(string, string) gomap"
  rt_ResponseHeaders :: "(string, string) gomap"
  rt_WAFMode :: string
  rt_ACMEChallenge :: string
  rt_UseDedicatedCert :: bool
  rt_HealthCheck :: HealthCheck
  rt_HealthNotify :: HealthNotifyConfig
  rt_CountryBlock :: countryblock_Config
  rt_IPFilter :: "IPFilter option"
  rt_PathRules :: "PathRule list"
  rt_InsecureSkipVerify :: bool
  rt_UpstreamTLSServerName :: string
  rt_UploadStreamingMode :: bool
  rt_ResponseStreamingMode :: bool
  rt_WAFDisableCRS :: bool
  rt_WAFExcludeRules :: "int list"
  rt_WAFExcludeTags :: "string list"
  rt_WAFTargetedExclusions :: "WAFTargetedExclusion list"
  rt_WAFCustomRules :: "WAFCustomRule list"
  rt_WAFSecLang :: string
  rt_RateLimit :: "RouteRateLimit option"
  rt_ErrorPageTemplateID :: string
  rt_ErrorPageOverrides :: "(int, string) gomap"
  rt_CreatedAt :: time
  rt_UpdatedAt :: time
  rt_Disabled :: bool
  rt_MaintenanceConfig :: "MaintenanceConfig option"
  rt_RedirectConfig :: "RedirectConfig option"
  rt_CertSource :: string
  rt_CertID :: string

definition AllHosts :: "Route \<Rightarrow> string list" where
  "AllHosts r = rt_Host r # rt_Aliases r"

definition PoolUsesHTTPS :: "Route \<Rightarrow> bool" where
  "PoolUsesHTTPS r =
     (case rt_Upstreams r of [] \<Rightarrow> False | u # _ \<Rightarrow> upstreamScheme (up_URL u) = ''https'')"

text \<open>The zero value of the struct, and library functions for evaluating examples.\<close>

definition zero_country :: countryblock_Config where
  "zero_country = \<lparr>cb_Mode = [], cb_CountryList = [], cb_Continents = [], cb_ASNs = [], cb_Exceptions = None,
     cb_StatusCode = 0\<rparr>"

definition zero_health :: HealthCheck where
  "zero_health = \<lparr>hc_Enabled = False, hc_URI = [], hc_Method = [], hc_Interval = [], hc_Timeout = [],
     hc_ExpectStatus = 0, hc_ExpectBody = [], hc_Passes = 0, hc_Fails = 0, hc_HostHeader = [], hc_Headers = []\<rparr>"

definition zero_path_rule :: PathRule where
  "zero_path_rule = \<lparr>pr_PathPrefix = [], pr_BasicAuth = None, pr_IPFilter = None, pr_Upstreams = [],
     pr_LBPolicy = [], pr_HealthCheck = None, pr_InsecureSkipVerify = False, pr_UpstreamTLSServerName = [],
     pr_MatchExact = False, pr_Redirect = None, pr_ForwardAuth = None, pr_DisableRouteAuth = False,
     pr_RateLimit = None\<rparr>"

definition zero_route :: Route where
  "zero_route = \<lparr>rt_ID = [], rt_Host = [], rt_Upstreams = [], rt_LBPolicy = [], rt_TLSEnabled = False,
     rt_RedirectToHTTPS = False, rt_Aliases = [], rt_AuthMode = [],
     rt_BasicAuth = \<lparr>ba_Username = [], ba_PasswordHash = []\<rparr>, rt_ForwardAuth = \<lparr>fa_ProviderName = []\<rparr>,
     rt_RequestHeaders = [], rt_ResponseHeaders = [], rt_WAFMode = [], rt_ACMEChallenge = [],
     rt_UseDedicatedCert = False, rt_HealthCheck = zero_health,
     rt_HealthNotify = \<lparr>hn_Enabled = False, hn_ChannelID = [], hn_ReminderMinutes = 0\<rparr>,
     rt_CountryBlock = zero_country, rt_IPFilter = None, rt_PathRules = [], rt_InsecureSkipVerify = False,
     rt_UpstreamTLSServerName = [], rt_UploadStreamingMode = False, rt_ResponseStreamingMode = False,
     rt_WAFDisableCRS = False, rt_WAFExcludeRules = [], rt_WAFExcludeTags = [], rt_WAFTargetedExclusions = [],
     rt_WAFCustomRules = [], rt_WAFSecLang = [], rt_RateLimit = None, rt_ErrorPageTemplateID = [],
     rt_ErrorPageOverrides = [], rt_CreatedAt = 0, rt_UpdatedAt = 0, rt_Disabled = False,
     rt_MaintenanceConfig = None, rt_RedirectConfig = None, rt_CertSource = [], rt_CertID = []\<rparr>"

definition sample_lib :: golib where
  "sample_lib = \<lparr>lib_lower = (\<lambda>s. s),
     lib_url = (\<lambda>s. if hasPrefix s ''http://''
       then Some \<lparr>url_Scheme = ''http'', url_Host = drop 7 s, url_Path = []\<rparr> else None),
     lib_duration = (\<lambda>s. if s = ''1m'' then Some ns_minute else None), lib_regexp = (\<lambda>_. True),
     lib_canonical = (\<lambda>s. s), lib_seclang = (\<lambda>s. s = []),
     lib_quote = (\<lambda>s. s)\<rparr>"

section \<open>Lemmas\<close>

lemma set_SortPathRules [simp]: "set (SortPathRulesByPrefixLenDesc rules) = set rules"
  by (simp add: SortPathRulesByPrefixLenDesc_def)

lemma sorted_SortPathRules:
  "sorted_wrt (\<lambda>p q. length (pr_PathPrefix q) \<le> length (pr_PathPrefix p)) (SortPathRulesByPrefixLenDesc rules)"
proof -
  have "sorted (map (\<lambda>p. - int (length (pr_PathPrefix p))) (SortPathRulesByPrefixLenDesc rules))"
    by (simp add: SortPathRulesByPrefixLenDesc_def)
  then show ?thesis by (simp add: sorted_map)
qed

lemma matches_hasPrefix:
  assumes "toLower L (pr_PathPrefix p) = pr_PathPrefix p" "matches L p path"
  shows "hasPrefix (toLower L path) (pr_PathPrefix p)"
  using assms by (cases rule: trimSuffix_cases [of "pr_PathPrefix p" "''/''"])
    (auto simp: matches_def Let_def hasPrefix_iff split: if_splits)

end
