(* ===== verification/RouteCheck.thy ===== *)
theory RouteCheck
  imports Routes ClientIP
begin

text \<open>
  What the store accepts: \<open>Route.validate\<close> and every validator it calls
  (\<open>internal/storage/routes.go\<close>, \<open>ipfilter.go\<close>, \<open>waf_validate.go\<close>, \<open>placeholder_validate.go\<close>,
  \<open>internal/countryblock/config.go\<close>). A validator returns its first error. An error is
  identified by its code, or by the first words of its message where it has none.
\<close>

type_synonym error = string

section \<open>Address and country filters\<close>

definition IPFilter_Validate :: "IPFilter \<Rightarrow> error option" where
  "IPFilter_Validate f =
     first_error
       [guard (ipf_Mode f \<notin> {[], ''off'', ''allow'', ''deny''}) ''ipfilter: mode'',
        check_each (\<lambda>(e, dup).
          first_error
            [guard (parseCIDR e = None \<and> parseIP e = None) ''ipfilter: not a valid IP or CIDR'',
             guard dup ''ipfilter: appears more than once'']) (dup_scan [] (ipf_CIDRs f)),
        guard (IsActive f \<and> ipf_CIDRs f = []) ''ipfilter: requires at least one IP/CIDR'',
        guard (ipf_StatusCode f \<noteq> 0 \<and> ipf_StatusCode f \<notin> {403, 444, 451}) ''ipfilter: statusCode'']"

definition isISOAlpha2Upper :: "string \<Rightarrow> bool" where
  "isISOAlpha2Upper s \<longleftrightarrow> length s = 2 \<and> (\<forall>c \<in> set s. 65 \<le> byte_of c \<and> byte_of c \<le> 90)"

definition continentCodes :: "string list" where
  "continentCodes = [''AF'', ''AN'', ''AS'', ''EU'', ''NA'', ''OC'', ''SA'']"

definition validateASNs :: "32 word list \<Rightarrow> error option" where
  "validateASNs asns =
     check_each (\<lambda>(n, dup).
       first_error [guard (n = 0) ''countryblock: not a valid AS number'',
         guard dup ''countryblock: AS appears more than once'']) (dup_scan [] asns)"

definition validateUniqueCodes :: "string list \<Rightarrow> (string \<Rightarrow> bool) \<Rightarrow> error option" where
  "validateUniqueCodes codes valid =
     check_each (\<lambda>(code, dup).
       first_error [guard (\<not> valid code) ''countryblock: not a valid code'',
         guard dup ''countryblock: code appears more than once'']) (dup_scan [] codes)"

definition Config_Validate :: "countryblock_Config \<Rightarrow> error option" where
  "Config_Validate c =
     first_error
       [guard (cb_Mode c \<notin> {[], ''off'', ''allow'', ''deny''}) ''countryblock: mode'',
        validateUniqueCodes (cb_CountryList c) isISOAlpha2Upper,
        validateUniqueCodes (cb_Continents c) (\<lambda>code. code \<in> set continentCodes),
        validateASNs (cb_ASNs c),
        guard (cb_Mode c = ''allow'' \<and> cb_CountryList c = [] \<and> cb_Continents c = [] \<and> cb_ASNs c = [])
          ''ErrAllowListEmpty'',
        (case cb_Exceptions c of
           None \<Rightarrow> None
         | Some x \<Rightarrow>
             if exc_ASNs x = [] then None
             else first_error
               [guard (cb_Mode c \<noteq> ''deny'') ''countryblock: exceptions are only valid with mode=deny'',
                validateASNs (exc_ASNs x),
                check_each (\<lambda>n. guard (n \<in> set (cb_ASNs c)) ''countryblock: AS is both blocked and an exception'')
                  (exc_ASNs x)]),
        (case cb_Exceptions c of
           None \<Rightarrow> None
         | Some x \<Rightarrow>
             if exc_Countries x = [] then None
             else first_error
               [guard (cb_Mode c \<noteq> ''deny'') ''countryblock: exceptions are only valid with mode=deny'',
                validateUniqueCodes (exc_Countries x) isISOAlpha2Upper,
                check_each (\<lambda>code. guard (code \<in> set (cb_CountryList c))
                  ''countryblock: country is both blocked and an exception'') (exc_Countries x)]),
        guard (cb_StatusCode c \<noteq> 0 \<and> cb_StatusCode c \<notin> {403, 451, 444}) ''countryblock: statusCode'']"

section \<open>Pools\<close>

definition validateSameSchemePool :: "Upstream list \<Rightarrow> error option" where
  "validateSameSchemePool pool =
     (case pool of
        [] \<Rightarrow> None
      | u # us \<Rightarrow>
          check_each (\<lambda>v. guard (upstreamScheme (up_URL v) \<noteq> upstreamScheme (up_URL u))
            ''route: upstreams must share the same scheme'') us)"

definition check_upstream :: "Upstream \<Rightarrow> error option" where
  "check_upstream u =
     first_error [guard (up_URL u = []) ''upstreams[].url must not be empty'',
       guard (up_Weight u < 1) ''upstreams[].weight must be >= 1'']"

definition host_char :: "char \<Rightarrow> bool" where
  "host_char c \<longleftrightarrow>
     97 \<le> byte_of c \<and> byte_of c \<le> 122 \<or> 65 \<le> byte_of c \<and> byte_of c \<le> 90 \<or> is_digit c \<or> c \<in> set ''-_''"

definition check_label :: "string \<Rightarrow> error option" where
  "check_label l =
     first_error
       [guard (l = []) ''upstream TLS server name: empty label'',
        guard (int (length l) > 63) ''upstream TLS server name: label is longer than 63 characters'',
        guard (hd l = CHR ''-'' \<or> last l = CHR ''-'') ''upstream TLS server name: label starts or ends with a hyphen'',
        guard (\<exists>c \<in> set l. \<not> host_char c) ''upstream TLS server name: not allowed in a hostname'']"

definition ValidateUpstreamTLSServerName :: "string \<Rightarrow> error option" where
  "ValidateUpstreamTLSServerName name =
     (if name = [] then None
      else first_error
        [guard (name \<noteq> trimSpace name) ''upstream TLS server name: whitespace'',
         guard (containsStr name ''://'') ''upstream TLS server name: not a URL'',
         guard (containsAny name '':/?#@ '') ''upstream TLS server name: a hostname is expected'',
         guard (parseIP name \<noteq> None) ''upstream TLS server name: an IP address'',
         guard (int (length name) > 253) ''upstream TLS server name: longer than 253 characters'',
         check_each check_label (splitOn CHR ''.'' (trimSuffix name ''.''))])"

definition RateLimit_validate :: "golib \<Rightarrow> RouteRateLimit \<Rightarrow> error option" where
  "RateLimit_validate L rl =
     first_error
       [guard (rl_Events rl < 1) ''rate_limit.events must be >= 1'',
        guard (trimSpace (rl_Window rl) = []) ''rate_limit.window is required'',
        (case lib_duration L (rl_Window rl) of
           None \<Rightarrow> Some ''rate_limit.window is not a duration''
         | Some dur \<Rightarrow> guard (dur \<le> 0) ''rate_limit.window must be > 0'')]"

section \<open>Path rules\<close>

definition validateRedirect :: "golib \<Rightarrow> PathRule \<Rightarrow> error option" where
  "validateRedirect L p =
     (case pr_Redirect p of
        None \<Rightarrow> None
      | Some rd \<Rightarrow>
          let target = trimSpace (prd_Target rd)
          in if target = [] then Some ''path_rule_redirect_target_required''
             else if prd_StatusCode rd \<noteq> 0 \<and> prd_StatusCode rd \<noteq> 301 \<and> prd_StatusCode rd \<noteq> 302
             then Some ''path_rule_redirect_status''
             else if \<not> hasPrefix target ''/'' then
               (case lib_url L target of
                  None \<Rightarrow> Some ''path_rule_redirect_target_invalid''
                | Some u \<Rightarrow>
                    guard (url_Host u = [] \<or> url_Scheme u \<noteq> ''http'' \<and> url_Scheme u \<noteq> ''https'')
                      ''path_rule_redirect_target_invalid'')
             else guard (matches L p target) ''path_rule_redirect_loop'')"

definition PathRule_Validate :: "golib \<Rightarrow> PathRule \<Rightarrow> error option" where
  "PathRule_Validate L p =
     (let prefix = pr_PathPrefix p; hasUpstreams = pr_Upstreams p \<noteq> [] in
      first_error
        [guard (prefix = [] \<or> hd prefix \<noteq> CHR ''/'') ''path_rule: path_prefix must start with /'',
         guard (int (length prefix) > 256) ''path_rule: path_prefix exceeds 256 characters'',
         guard (\<exists>c \<in> set prefix. c = CHR '' '' \<or> byte_of c = 9 \<or> byte_of c = 10)
           ''path_rule: path_prefix must not contain whitespace'',
         guard (containsAny prefix ''*?[]'') ''path_rule_glob'',
         guard (prefix \<noteq> toLower L prefix) ''path_rule_uppercase'',
         guard (pr_BasicAuth p = None \<and> pr_ForwardAuth p = None \<and> \<not> pr_DisableRouteAuth p \<and>
             (case pr_IPFilter p of None \<Rightarrow> True | Some f \<Rightarrow> \<not> IsActive f) \<and> \<not> hasUpstreams \<and>
             pr_Redirect p = None \<and> pr_RateLimit p = None) ''path_rule_empty'',
         guard (pr_DisableRouteAuth p \<and> pr_ForwardAuth p \<noteq> None) ''path_rule_exempt_with_idp'',
         validateRedirect L p,
         ValidateUpstreamTLSServerName (pr_UpstreamTLSServerName p),
         (case pr_BasicAuth p of
            None \<Rightarrow> None
          | Some ba \<Rightarrow>
              first_error [guard (ba_Username ba = []) ''path_rule: basic auth requires a username'',
                guard (ba_PasswordHash ba = []) ''path_rule: basic auth requires a password hash'']),
         Option.bind (pr_IPFilter p) IPFilter_Validate,
         (case pr_ForwardAuth p of
            None \<Rightarrow> None
          | Some fa \<Rightarrow>
              first_error [guard (pr_BasicAuth p \<noteq> None) ''path_rule_two_auth'',
                guard (trimSpace (fa_ProviderName fa) = []) ''path_rule: forward auth requires a provider name'']),
         Option.bind (pr_RateLimit p) (RateLimit_validate L),
         (if hasUpstreams then
            first_error [check_each check_upstream (pr_Upstreams p), validateSameSchemePool (pr_Upstreams p),
              guard (pr_LBPolicy p \<notin> set LBPolicies) ''path_rule: lb_policy is not a valid policy'']
          else None)])"

section \<open>Health checks and notifications\<close>

definition ValidateExpectStatus :: "int \<Rightarrow> error option" where
  "ValidateExpectStatus code =
     guard (\<not> (code = 0 \<or> 1 \<le> code \<and> code \<le> 5 \<or> 100 \<le> code \<and> code \<le> 599)) ''expect_status''"

definition validateProbeHeaders :: "golib \<Rightarrow> (string, string) gomap \<Rightarrow> error option" where
  "validateProbeHeaders L headers =
     check_each (\<lambda>(name, _).
       let trimmed = trimSpace name in
       first_error [guard (trimmed = []) ''headers: a header name must not be empty'',
         guard (equalFold trimmed ''Host'') ''headers: set the Host through host_header'',
         guard (lib_canonical L trimmed \<noteq> trimmed) ''headers: not a canonical header name'']) headers"

definition HealthCheck_validate :: "golib \<Rightarrow> HealthCheck \<Rightarrow> error option" where
  "HealthCheck_validate L h =
     first_error
       [guard (hc_URI h = []) ''health_check.uri must not be empty'',
        guard (\<not> hasPrefix (hc_URI h) ''/'') ''health_check.uri must start with /'',
        guard (hc_Method h \<noteq> ''GET'' \<and> hc_Method h \<noteq> ''HEAD'') ''health_check.method must be GET or HEAD'',
        (case lib_duration L (hc_Interval h) of
           None \<Rightarrow> Some ''health_check.interval is not a valid duration''
         | Some interval \<Rightarrow>
             if interval \<le> 0 then Some ''health_check.interval must be strictly positive''
             else case lib_duration L (hc_Timeout h) of
               None \<Rightarrow> Some ''health_check.timeout is not a valid duration''
             | Some timeout \<Rightarrow>
                 if timeout \<le> 0 then Some ''health_check.timeout must be strictly positive''
                 else guard (timeout \<ge> interval) ''health_check.timeout must be strictly less than interval''),
        ValidateExpectStatus (hc_ExpectStatus h),
        guard (hc_ExpectBody h \<noteq> [] \<and> \<not> lib_regexp L (hc_ExpectBody h)) ''health_check.expect_body is not a valid regex'',
        validateProbeHeaders L (hc_Headers h),
        guard (hc_Passes h < 1) ''health_check.passes must be >= 1'',
        guard (hc_Fails h < 1) ''health_check.fails must be >= 1'']"

definition validateHealthNotify :: "HealthNotifyConfig \<Rightarrow> error option" where
  "validateHealthNotify n =
     (if \<not> hn_Enabled n then None
      else first_error
        [guard (trimSpace (hn_ChannelID n) = []) ''health_notify_channel_required'',
         guard (hn_ReminderMinutes n < 0 \<or> hn_ReminderMinutes n > 1440) ''health_notify_reminder_range''])"

section \<open>Route states\<close>

definition MaintenanceConfig_Validate :: "MaintenanceConfig option \<Rightarrow> error option" where
  "MaintenanceConfig_Validate mc =
     (case mc of
        None \<Rightarrow> None
      | Some m \<Rightarrow>
          first_error
            [guard (mc_RetryAfterSeconds m < 0) ''maintenance: retryAfterSeconds must be >= 0'',
             check_each (\<lambda>e. guard (parseCIDR e = None \<and> parseIP e = None)
               ''maintenance: bypass entry is not an IP or CIDR'') (mc_BypassIPs m)])"

definition RedirectConfig_Validate :: "golib \<Rightarrow> RedirectConfig option \<Rightarrow> error option" where
  "RedirectConfig_Validate L rc =
     (case rc of
        None \<Rightarrow> None
      | Some c \<Rightarrow>
          let target = trimSpace (rc_Target c)
          in if target = [] then Some ''redirect_target_required''
             else case lib_url L target of
               None \<Rightarrow> Some ''redirect_target_invalid''
             | Some u \<Rightarrow>
                 first_error
                   [guard (url_Scheme u \<noteq> ''http'' \<and> url_Scheme u \<noteq> ''https'') ''redirect_target_scheme'',
                    guard (url_Host u = []) ''redirect_target_no_host'',
                    guard (rc_PreservePath c \<and> url_Path u \<noteq> [] \<and> url_Path u \<noteq> ''/'') ''redirect_target_has_path'',
                    guard (rc_StatusCode c \<noteq> 0 \<and> rc_StatusCode c \<noteq> 301 \<and> rc_StatusCode c \<noteq> 302)
                      ''redirect_status_unsupported''])"

section \<open>Firewall fields and placeholders\<close>

text \<open>
  The loops over runes look only for ASCII characters and control characters, which are the
  same bytes in a UTF-8 string; \<open>None\<close> is the rune 0 that means safe.
\<close>

definition unsafe_char :: "string \<Rightarrow> char \<Rightarrow> bool" where
  "unsafe_char alsoRefuse c \<longleftrightarrow> byte_of c < 32 \<or> byte_of c = 127 \<or> c \<in> set alsoRefuse"

definition secLangUnsafe :: "string \<Rightarrow> string \<Rightarrow> char option" where
  "secLangUnsafe v alsoRefuse = List.find (unsafe_char alsoRefuse) v"

definition backslash :: char where "backslash = CHR 0x5C"
definition dquote :: char where "dquote = CHR 0x22"
definition squote :: char where "squote = CHR 0x27"
definition newline :: char where "newline = CHR 0x0A"

definition headerNameSafe :: "string \<Rightarrow> bool" where
  "headerNameSafe s \<longleftrightarrow> s \<noteq> [] \<and> (\<forall>c \<in> set s. host_char c \<or> c = CHR ''.'')"

definition validateWAFFields :: "golib \<Rightarrow> Route \<Rightarrow> error option" where
  "validateWAFFields L r =
     first_error
       [guard (\<not> lib_seclang L (rt_WAFSecLang r)) ''waf_seclang_invalid'',
        check_each (\<lambda>cr.
          first_error
            [guard (secLangUnsafe (wr_Name cr) [squote, dquote, backslash] \<noteq> None) ''waf_custom_rule_name_invalid'',
             check_each (\<lambda>c.
               first_error
                 [guard (wc_Field c = ''header'' \<and> \<not> headerNameSafe (wc_Header c)) ''waf_custom_rule_header_invalid'',
                  check_each (\<lambda>v. guard (secLangUnsafe v [dquote, backslash] \<noteq> None) ''waf_custom_rule_value_invalid'')
                    (wc_Values c)]) (wr_Conditions cr)]) (rt_WAFCustomRules r),
        check_each (\<lambda>ex.
          first_error
            [guard (secLangUnsafe (wx_Target ex) [dquote, backslash] \<noteq> None) ''waf_exclusion_target_invalid'',
             guard (secLangUnsafe (wx_Path ex) [dquote, backslash] \<noteq> None) ''waf_exclusion_path_invalid''])
          (rt_WAFTargetedExclusions r),
        check_each (\<lambda>tag. guard (secLangUnsafe tag [dquote, backslash, CHR '' '', CHR '',''] \<noteq> None)
          ''waf_exclude_tag_invalid'') (rt_WAFExcludeTags r)]"

definition dangerousPlaceholderFamilies :: "string list" where
  "dangerousPlaceholderFamilies = [''{env.'', ''{file.'']"

definition placeholderUnsafe :: "string \<Rightarrow> bool" where
  "placeholderUnsafe v \<longleftrightarrow> (\<exists>fam \<in> set dangerousPlaceholderFamilies. containsStr v fam)"

definition validatePlaceholderSafety :: "Route \<Rightarrow> error option" where
  "validatePlaceholderSafety r =
     first_error
       [check_each (\<lambda>(_, v). guard (placeholderUnsafe v) ''route_request_header_placeholder'') (rt_RequestHeaders r),
        check_each (\<lambda>(_, v). guard (placeholderUnsafe v) ''route_response_header_placeholder'') (rt_ResponseHeaders r),
        (case rt_RedirectConfig r of
           None \<Rightarrow> None
         | Some c \<Rightarrow> guard (placeholderUnsafe (rc_Target c)) ''route_redirect_target_placeholder''),
        check_each (\<lambda>pr.
          case pr_Redirect pr of
            None \<Rightarrow> None
          | Some rd \<Rightarrow> guard (placeholderUnsafe (prd_Target rd)) ''path_redirect_target_placeholder'') (rt_PathRules r)]"

section \<open>The route\<close>

definition SupportedErrorStatusCodes :: "int list" where
  "SupportedErrorStatusCodes = [401, 403, 404, 429, 500, 502, 503, 504]"

definition check_auth :: "Route \<Rightarrow> error option" where
  "check_auth r =
     (if rt_AuthMode r \<in> {[], ''none''} then None
      else if rt_AuthMode r = ''basic'' then
        first_error [guard (ba_Username (rt_BasicAuth r) = []) ''route: basic_auth.username must not be empty'',
          guard (ba_PasswordHash (rt_BasicAuth r) = []) ''route: basic_auth.password_hash must not be empty'']
      else if rt_AuthMode r = ''forward_auth'' then
        guard (fa_ProviderName (rt_ForwardAuth r) = []) ''route: forward_auth.provider_name must not be empty''
      else Some ''route: auth_mode'')"

definition check_aliases :: "Route \<Rightarrow> error option" where
  "check_aliases r =
     check_each (\<lambda>(a, dup).
       first_error [guard (a = []) ''route: alias must not be empty'',
         guard (a = rt_Host r) ''route: alias duplicates the primary host'',
         guard dup ''route: alias duplicates within the same route'']) (dup_scan [] (rt_Aliases r))"

definition check_path_rules :: "golib \<Rightarrow> Route \<Rightarrow> error option" where
  "check_path_rules L r =
     check_each (\<lambda>(pr, _, dup).
       first_error [PathRule_Validate L pr, guard dup ''path_rules: duplicate path_prefix''])
       (zip (rt_PathRules r) (dup_scan [] (map pr_PathPrefix (rt_PathRules r))))"

definition check_redirect_state :: "golib \<Rightarrow> Route \<Rightarrow> error option" where
  "check_redirect_state L r =
     (if rt_RedirectConfig r = None then None
      else first_error
        [guard (rt_MaintenanceConfig r \<noteq> None) ''route_maintenance_and_redirect'',
         check_each (\<lambda>h.
           let target = TargetHost L (rt_RedirectConfig r)
           in guard (target \<noteq> [] \<and> target = toLower L h) ''redirect_self_loop'') (AllHosts r)])"

definition validate :: "golib \<Rightarrow> Route \<Rightarrow> error option" where
  "validate L r =
     first_error
       [guard (rt_Host r = []) ''route: host must not be empty'',
        guard (rt_Upstreams r = [] \<and> rt_RedirectConfig r = None) ''route: upstreams must contain at least one entry'',
        check_each check_upstream (rt_Upstreams r),
        validateSameSchemePool (rt_Upstreams r),
        ValidateUpstreamTLSServerName (rt_UpstreamTLSServerName r),
        guard (rt_LBPolicy r \<notin> set LBPolicies) ''route: lb_policy is not a valid policy'',
        check_aliases r,
        check_auth r,
        guard (rt_ACMEChallenge r \<notin> {[], ''http-01'', ''dns-01'', ''inherited''}) ''route: acme_challenge'',
        guard (rt_UseDedicatedCert r \<and> rt_ACMEChallenge r = ''inherited'') ''route: use_dedicated_cert'',
        Config_Validate (rt_CountryBlock r),
        Option.bind (rt_IPFilter r) IPFilter_Validate,
        check_path_rules L r,
        (if hc_Enabled (rt_HealthCheck r) then HealthCheck_validate L (rt_HealthCheck r) else None),
        check_each (\<lambda>(code, body).
          first_error [guard (code \<notin> set SupportedErrorStatusCodes) ''route: error_page_overrides has unsupported status code'',
            guard (int (length body) > 1048576) ''route: error_page_overrides exceeds 1 MiB'']) (rt_ErrorPageOverrides r),
        MaintenanceConfig_Validate (rt_MaintenanceConfig r),
        RedirectConfig_Validate L (rt_RedirectConfig r),
        check_redirect_state L r,
        validateWAFFields L r,
        validatePlaceholderSafety r,
        validateHealthNotify (rt_HealthNotify r)]"

section \<open>Reading an accepted route\<close>

lemma bind_None_iff: "Option.bind x f = None \<longleftrightarrow> (\<forall>y. x = Some y \<longrightarrow> f y = None)"
  by (cases x) auto

lemma validate_path_rules:
  assumes "validate L r = None"
  shows "p \<in> set (rt_PathRules r) \<Longrightarrow> PathRule_Validate L p = None"
    and "distinct (map pr_PathPrefix (rt_PathRules r))"
proof -
  let ?ds = "dup_scan [] (map pr_PathPrefix (rt_PathRules r))"
  have len: "length ?ds = length (rt_PathRules r)"
    by (metis length_map map_fst_dup_scan)
  have c: "check_path_rules L r = None"
    using assms unfolding validate_def first_error_None by simp
  then have z: "\<forall>(p, x) \<in> set (zip (rt_PathRules r) ?ds). PathRule_Validate L p = None \<and> \<not> snd x"
    by (auto simp: check_path_rules_def)
  show "PathRule_Validate L p = None" if "p \<in> set (rt_PathRules r)"
    using that z len by (metis (mono_tags, lifting) case_prodD in_set_impl_in_set_zip1)
  have "\<not> snd x" if "x \<in> set ?ds" for x
    using that z len by (metis (mono_tags, lifting) case_prodD in_set_impl_in_set_zip2)
  then show "distinct (map pr_PathPrefix (rt_PathRules r))"
    using dup_scan_distinct [of "[]" "map pr_PathPrefix (rt_PathRules r)"] by blast
qed

lemma validate_states_exclusive:
  assumes "validate L r = None"
  shows "rt_RedirectConfig r = None \<or> rt_MaintenanceConfig r = None"
proof -
  have "check_redirect_state L r = None"
    using assms unfolding validate_def first_error_None by simp
  then show ?thesis by (auto simp: check_redirect_state_def split: if_splits)
qed

lemma PathRule_Validate_prefix:
  assumes "PathRule_Validate L p = None"
  shows "toLower L (pr_PathPrefix p) = pr_PathPrefix p"
    and "\<exists>t. pr_PathPrefix p = CHR ''/'' # t"
    and "\<not> containsAny (pr_PathPrefix p) ''*?[]''"
    and "validateRedirect L p = None"
    and "pr_DisableRouteAuth p \<Longrightarrow> pr_ForwardAuth p = None"
    and "pr_ForwardAuth p \<noteq> None \<Longrightarrow> pr_BasicAuth p = None"
  using assms unfolding PathRule_Validate_def Let_def first_error_None
  by (cases "pr_PathPrefix p"; auto split: option.splits)+

end
