(* ===== verification/WafRules.thy ===== *)
theory WafRules
  imports RouteCheck "HOL-Library.Product_Lexorder" "HOL-Library.List_Lexorder" "HOL-Library.Char_ord"
begin

text \<open>
  The SecLang directives the manager writes from the firewall fields of a route
  (\<open>internal/caddymgr/waf_custom_rules.go\<close>, \<open>waf_targeted.go\<close> and \<open>buildWAFHandler\<close> in
  \<open>manager.go\<close>), and what the validation of those fields guarantees about the text.
\<close>

section \<open>Custom rules\<close>

definition quoted :: "string \<Rightarrow> string" where
  "quoted s = [dquote] @ s @ [dquote]"

text \<open>\<open>regexp.QuoteMeta\<close>: a backslash in front of every metacharacter.\<close>

definition quoteMeta :: "string \<Rightarrow> string" where
  "quoteMeta s =
     concat (map (\<lambda>c. if c = backslash \<or> c \<in> set ''.+*?()|[]{}^$'' then [backslash, c] else [c]) s)"

definition customRuleActions :: string where
  "customRuleActions = ''phase:1,deny,status:403,log,severity:CRITICAL,tag:arenet-custom''"

definition condition_target :: "WAFRuleCondition \<Rightarrow> string \<times> string" where
  "condition_target c =
     (if wc_Field c = ''path'' then (''REQUEST_FILENAME'', ''t:none'')
      else if wc_Field c = ''method'' then (''REQUEST_METHOD'', ''t:none'')
      else if wc_Field c = ''user_agent'' then (''REQUEST_HEADERS:User-Agent'', ''t:none,t:lowercase'')
      else if wc_Field c = ''header'' then (''REQUEST_HEADERS:'' @ wc_Header c, ''t:none,t:lowercase'')
      else ([], ''t:none''))"

definition condition_operator :: "golib \<Rightarrow> string \<Rightarrow> WAFRuleCondition \<Rightarrow> string" where
  "condition_operator L transform c =
     (let vals = (if transform \<noteq> ''t:none'' then map (toLower L) (wc_Values c) else wc_Values c);
          alt = ''(?:'' @ joinWith ''|'' (map quoteMeta vals) @ '')''
      in if wc_Operator c = ''is'' then ''@rx ^'' @ alt @ ''$''
         else if wc_Operator c = ''is_not'' then ''!@rx ^'' @ alt @ ''$''
         else if wc_Operator c = ''begins_with'' then ''@rx ^'' @ alt
         else ''@rx '' @ alt)"

definition conditionParts :: "golib \<Rightarrow> WAFRuleCondition \<Rightarrow> string \<times> string \<times> string" where
  "conditionParts L c =
     (case condition_target c of (target, transform) \<Rightarrow>
        if wc_Operator c = ''present'' then (''&'' @ target, ''@gt 0'', ''t:none'')
        else if wc_Operator c = ''absent'' then (''&'' @ target, ''@eq 0'', ''t:none'')
        else if wc_Operator c = ''missing'' then (''&'' @ target @ ''|'' @ target, ''@rx ^0?$'', ''t:none'')
        else (target, condition_operator L transform c, transform))"

definition rule_actions :: "int \<Rightarrow> nat \<Rightarrow> nat \<Rightarrow> string \<Rightarrow> string list" where
  "rule_actions rid n i transform =
     (if i = 0 then [''id:'' @ itoa rid, customRuleActions,
        ''msg:'' @ [squote] @ ''Arenet custom rule '' @ itoa rid @ [squote]] else []) @
     [transform] @ (if i + 1 < n then [''chain''] else [])"

definition rule_link :: "golib \<Rightarrow> int \<Rightarrow> nat \<Rightarrow> nat \<times> WAFRuleCondition \<Rightarrow> string" where
  "rule_link L rid n = (\<lambda>(i, c).
     (case conditionParts L c of (target, operator, transform) \<Rightarrow>
        ''SecRule '' @ target @ '' '' @ quoted operator @ '' '' @
          quoted (joinWith '','' (rule_actions rid n i transform))))"

definition rule_text :: "golib \<Rightarrow> WAFCustomRule \<Rightarrow> string" where
  "rule_text L r =
     joinWith [newline] (map (rule_link L (wr_ID r) (length (wr_Conditions r))) (enumerate 0 (wr_Conditions r)))"

definition customRuleDirectives :: "golib \<Rightarrow> WAFCustomRule list \<Rightarrow> string list" where
  "customRuleDirectives L rules =
     map (rule_text L) (sort_key wr_ID (filter (\<lambda>r. \<not> wr_Disabled r \<and> wr_Conditions r \<noteq> []) rules))"

section \<open>Targeted exclusions\<close>

definition targetedExclusionBaseID :: int where "targetedExclusionBaseID = 110000"

definition exclusion_key :: "WAFTargetedExclusion \<Rightarrow> int \<times> string \<times> string \<times> bool" where
  "exclusion_key e = (wx_RuleID e, wx_Target e, wx_Path e, wx_PathPrefix e)"

definition targetedLess :: "WAFTargetedExclusion \<Rightarrow> WAFTargetedExclusion \<Rightarrow> bool" where
  "targetedLess a b =
     (if wx_RuleID a \<noteq> wx_RuleID b then wx_RuleID a < wx_RuleID b
      else if wx_Target a \<noteq> wx_Target b then wx_Target a < wx_Target b
      else if wx_Path a \<noteq> wx_Path b then wx_Path a < wx_Path b
      else \<not> wx_PathPrefix a \<and> wx_PathPrefix b)"

definition exclusion_ctl :: "WAFTargetedExclusion \<Rightarrow> string" where
  "exclusion_ctl e = ''ctl:ruleRemoveTargetById='' @ itoa (wx_RuleID e) @ '';'' @ wx_Target e"

definition onPath :: "int \<Rightarrow> string \<Rightarrow> string \<Rightarrow> string \<Rightarrow> string" where
  "onPath rid op path ctl =
     ''SecRule REQUEST_FILENAME '' @ quoted (op @ '' '' @ path) @ '' '' @
       quoted (''id:'' @ itoa rid @ '',phase:1,pass,nolog,t:none,'' @ ctl)"

definition exclusion_lines :: "int \<Rightarrow> WAFTargetedExclusion \<Rightarrow> string list" where
  "exclusion_lines rid e =
     (if wx_Path e = [] then
        [''SecAction '' @ quoted (''id:'' @ itoa rid @ '',phase:1,pass,nolog,'' @ exclusion_ctl e)]
      else if \<not> wx_PathPrefix e then [onPath rid ''@streq'' (wx_Path e) (exclusion_ctl e)]
      else if hasSuffix (wx_Path e) ''/'' then [onPath rid ''@beginsWith'' (wx_Path e) (exclusion_ctl e)]
      else [onPath rid ''@streq'' (wx_Path e) (exclusion_ctl e),
            onPath (rid + 1) ''@beginsWith'' (wx_Path e @ ''/'') (exclusion_ctl e)])"

fun exclusion_loop :: "int \<Rightarrow> WAFTargetedExclusion list \<Rightarrow> string list" where
  "exclusion_loop rid [] = []"
| "exclusion_loop rid (e # es) =
     exclusion_lines rid e @ exclusion_loop (rid + int (length (exclusion_lines rid e))) es"

definition targetedExclusionDirectives :: "WAFTargetedExclusion list \<Rightarrow> string list" where
  "targetedExclusionDirectives es = exclusion_loop targetedExclusionBaseID (sort_key exclusion_key es)"

section \<open>The directives of a route\<close>

definition crsIncludes :: string where
  "crsIncludes =
     ''Include @coraza.conf-recommended'' @ [newline] @ ''Include @crs-setup.conf.example'' @ [newline] @
     ''Include @owasp_crs/*.conf''"

definition secAction :: "int list \<Rightarrow> string list \<Rightarrow> string" where
  "secAction excludeRules excludeTags =
     ''SecAction '' @ quoted (''id:999001,phase:1,pass,nolog,'' @
       joinWith '','' (map (\<lambda>rid. ''ctl:ruleRemoveById='' @ itoa rid) (sort excludeRules) @
         map (\<lambda>tag. ''ctl:ruleRemoveByTag='' @ tag) (sort excludeTags)))"

definition preCRSDirectives :: "golib \<Rightarrow> Route \<Rightarrow> string list" where
  "preCRSDirectives L r =
     (if rt_WAFExcludeRules r \<noteq> [] \<or> rt_WAFExcludeTags r \<noteq> []
      then [secAction (rt_WAFExcludeRules r) (rt_WAFExcludeTags r)] else []) @
     targetedExclusionDirectives (rt_WAFTargetedExclusions r) @
     customRuleDirectives L (rt_WAFCustomRules r) @
     (if trimSpace (rt_WAFSecLang r) \<noteq> [] then [trimSpace (rt_WAFSecLang r)] else [])"

text \<open>
  The directives are joined by newlines; \<open>adminExclusion\<close> is the text of
  \<open>waf.AdminAPIExclusionDirective\<close>, put in front for a route that proxies the administration API.
\<close>

definition waf_directives :: "golib \<Rightarrow> string \<Rightarrow> Route \<Rightarrow> bool \<Rightarrow> string" where
  "waf_directives L adminExclusion r adminPlane =
     (let loadCRS = \<not> rt_WAFDisableCRS r;
          directives = joinWith [newline] (preCRSDirectives L r @ (if loadCRS then [crsIncludes] else []))
      in if adminPlane \<and> loadCRS then adminExclusion @ directives else directives)"

section \<open>The text cannot be broken out of\<close>

text \<open>
  The Unicode tables map no printable text to a control character, a double quote or a backslash.
\<close>

definition lower_keeps_safe :: "golib \<Rightarrow> bool" where
  "lower_keeps_safe L \<longleftrightarrow>
     (\<forall>s. secLangUnsafe s [dquote, backslash] = None \<longrightarrow> secLangUnsafe (lib_lower L s) [dquote, backslash] = None)"

text \<open>A fragment with neither a double quote nor a line break.\<close>

definition inert :: "string \<Rightarrow> bool" where
  "inert s \<longleftrightarrow> dquote \<notin> set s \<and> newline \<notin> set s"

lemma char_codes [simp]:
  "byte_of dquote = 34" "byte_of newline = 10" "byte_of backslash = 92" "byte_of squote = 39"
  by (simp_all add: dquote_def newline_def backslash_def squote_def byte_of_def)

lemmas quote_defs = dquote_def newline_def backslash_def squote_def

lemma inert_Nil [simp]: "inert []"
  and inert_Cons [simp]: "inert (c # s) \<longleftrightarrow> c \<noteq> dquote \<and> c \<noteq> newline \<and> inert s"
  and inert_append [simp]: "inert (s @ t) \<longleftrightarrow> inert s \<and> inert t"
  by (auto simp: inert_def)

lemma secLangUnsafe_None: "secLangUnsafe s cs = None \<longleftrightarrow> (\<forall>c \<in> set s. \<not> unsafe_char cs c)"
  by (auto simp: secLangUnsafe_def find_None_iff)

lemma safe_inert: "secLangUnsafe s [dquote, backslash] = None \<Longrightarrow> inert s"
  by (auto simp: secLangUnsafe_None unsafe_char_def inert_def)

lemma safe_toLower:
  assumes "lower_keeps_safe L" "secLangUnsafe s [dquote, backslash] = None"
  shows "secLangUnsafe (toLower L s) [dquote, backslash] = None"
proof (cases "is_ascii s")
  case True
  have "\<not> unsafe_char [dquote, backslash] (lower_char c)" if "\<not> unsafe_char [dquote, backslash] c" for c
    using that by (auto simp: unsafe_char_def lower_char_def byte_of_eq_iff [symmetric])
  with True assms(2) show ?thesis by (auto simp: toLower_def secLangUnsafe_None)
qed (use assms in \<open>simp add: toLower_def lower_keeps_safe_def\<close>)

lemma inert_itoa [simp]: "inert (itoa i)"
proof -
  have "c \<noteq> dquote" "c \<noteq> newline" if "c \<in> set (nat_digits n)" for c n
    using nat_digits_digit [OF that] by auto
  then show ?thesis by (auto simp: itoa_def inert_def quote_defs)
qed

lemma inert_joinWith: "inert sep \<Longrightarrow> (\<And>x. x \<in> set xs \<Longrightarrow> inert x) \<Longrightarrow> inert (joinWith sep xs)"
  by (induction sep xs rule: joinWith.induct) auto

lemma inert_quoteMeta: "inert s \<Longrightarrow> inert (quoteMeta s)"
  by (auto simp: inert_def quoteMeta_def quote_defs split: if_splits)

lemma inert_header: "headerNameSafe s \<Longrightarrow> inert s"
  by (auto simp: headerNameSafe_def inert_def host_char_def is_digit_def quote_defs byte_of_def)

definition condition_ok :: "WAFRuleCondition \<Rightarrow> bool" where
  "condition_ok c \<longleftrightarrow>
     (wc_Field c = ''header'' \<longrightarrow> headerNameSafe (wc_Header c)) \<and>
     (\<forall>v \<in> set (wc_Values c). secLangUnsafe v [dquote, backslash] = None)"

lemma conditionParts_inert:
  assumes "lower_keeps_safe L" "condition_ok c" "conditionParts L c = (target, operator, transform)"
  shows "inert target" "inert operator" "inert transform"
proof -
  obtain t tr where t: "condition_target c = (t, tr)" by fastforce
  have tt: "inert t" "inert tr"
    using t assms(2) inert_header
    by (auto simp: condition_target_def condition_ok_def inert_def quote_defs split: if_splits)
  let ?vals = "if tr \<noteq> ''t:none'' then map (toLower L) (wc_Values c) else wc_Values c"
  have "inert v" if "v \<in> set ?vals" for v
    using that assms(1,2) safe_toLower safe_inert by (auto simp: condition_ok_def split: if_splits)
  then have "inert (joinWith ''|'' (map quoteMeta ?vals))"
    by (intro inert_joinWith) (auto simp: inert_quoteMeta quote_defs)
  then have "inert (condition_operator L tr c)"
    by (simp add: condition_operator_def Let_def quote_defs)
  with tt t assms(3) show "inert target" "inert operator" "inert transform"
    by (auto simp: conditionParts_def quote_defs split: if_splits)
qed

text \<open>Every line is \<open>SecRule\<close>, a target and two quoted arguments: four quotes, no line break inside.\<close>

definition well_quoted :: "string \<Rightarrow> bool" where
  "well_quoted line \<longleftrightarrow> count_list line dquote = 4 \<and> newline \<notin> set line"

lemma inert_count [simp]: "inert s \<Longrightarrow> count_list s dquote = 0"
  by (auto simp: inert_def count_list_0_iff)

lemma two_arguments_well_quoted:
  assumes "inert a" "inert b" "inert c" "inert d"
  shows "well_quoted (a @ b @ '' '' @ quoted c @ '' '' @ quoted d)"
  using assms by (simp add: well_quoted_def quoted_def inert_def count_list_0_iff quote_defs)

lemma rule_link_well_quoted:
  assumes "lower_keeps_safe L" "condition_ok c"
  shows "well_quoted (rule_link L rid n (i, c))"
proof -
  obtain target operator transform where p: "conditionParts L c = (target, operator, transform)"
    by (metis prod_cases3)
  note parts = conditionParts_inert [OF assms p]
  have "inert (joinWith '','' (rule_actions rid n i transform))"
    using parts(3)
    by (intro inert_joinWith) (auto simp: rule_actions_def customRuleActions_def quote_defs split: if_splits)
  then show ?thesis
    using two_arguments_well_quoted [of "''SecRule ''" target operator] parts p
    by (simp add: rule_link_def quote_defs)
qed

lemma splitOn_joinWith:
  "xs \<noteq> [] \<Longrightarrow> (\<And>x. x \<in> set xs \<Longrightarrow> sep \<notin> set x) \<Longrightarrow> splitOn sep (joinWith [sep] xs) = xs"
proof (induction "[sep]" xs rule: joinWith.induct)
  case (2 x)
  have "sep \<notin> set x \<Longrightarrow> splitOn sep x = [x]" for x by (induction x) auto
  with 2 show ?case by simp
next
  case (3 x y zs)
  have "sep \<notin> set x \<Longrightarrow> splitOn sep (x @ sep # t) = x # splitOn sep t" for t
    by (induction x) auto
  with 3 show ?case by simp
qed simp

section \<open>Properties\<close>

lemma enabled_rule_of_directive:
  assumes "d \<in> set (customRuleDirectives L rules)"
  obtains cr where "cr \<in> set rules" "wr_Conditions cr \<noteq> []" "d = rule_text L cr"
  using assms by (auto simp: customRuleDirectives_def)

lemma validateWAFFields_conditions:
  assumes "validateWAFFields L r = None" "cr \<in> set (rt_WAFCustomRules r)" "c \<in> set (wr_Conditions cr)"
  shows "condition_ok c"
  using assms unfolding validateWAFFields_def first_error_None by (auto simp: condition_ok_def)

text \<open>
  C23: A custom firewall rule of an accepted route cannot break out of the directive built around
  it. The text of each rule has one line per condition, and every line carries exactly the four
  double quotes the manager writes, whatever header names and match values the operator chose;
  so no value ends an argument early or starts a directive of its own.
\<close>

theorem custom_rules_not_injectable:
  assumes "validateWAFFields L r = None" and "lower_keeps_safe L"
    and "d \<in> set (customRuleDirectives L (rt_WAFCustomRules r))"
  shows "(\<forall>line \<in> set (splitOn newline d). count_list line dquote = 4) \<and>
    (\<exists>cr \<in> set (rt_WAFCustomRules r). length (splitOn newline d) = length (wr_Conditions cr))"
proof -
  obtain cr where cr: "cr \<in> set (rt_WAFCustomRules r)" "wr_Conditions cr \<noteq> []" "d = rule_text L cr"
    using enabled_rule_of_directive [OF assms(3)] .
  define ls where "ls = map (rule_link L (wr_ID cr) (length (wr_Conditions cr))) (enumerate 0 (wr_Conditions cr))"
  have wq: "well_quoted l" if l: "l \<in> set ls" for l
  proof -
    obtain i c where "l = rule_link L (wr_ID cr) (length (wr_Conditions cr)) (i, c)" "c \<in> set (wr_Conditions cr)"
      using l by (auto simp: ls_def enumerate_eq_zip dest: set_zip_rightD)
    then show ?thesis
      using rule_link_well_quoted [OF assms(2)] validateWAFFields_conditions [OF assms(1) cr(1)] by blast
  qed
  have "ls \<noteq> []" using cr(2) by (simp add: ls_def flip: length_greater_0_conv)
  then have "splitOn newline d = ls"
    using wq by (simp add: cr(3) rule_text_def ls_def [symmetric] splitOn_joinWith well_quoted_def)
  then show ?thesis using wq cr(1) by (auto simp: well_quoted_def ls_def)
qed

definition agent_rule :: WAFCustomRule where
  "agent_rule = \<lparr>wr_ID = 120001, wr_Name = ''bots'', wr_Disabled = False,
     wr_Conditions = [\<lparr>wc_Field = ''user_agent'', wc_Header = [], wc_Operator = ''contains'', wc_Values = [''Bad.Bot'']\<rparr>,
                      \<lparr>wc_Field = ''path'', wc_Header = [], wc_Operator = ''begins_with'', wc_Values = [''/api'']\<rparr>]\<rparr>"

lemma lower_keeps_safe_sample: "lower_keeps_safe sample_lib"
  by (simp add: lower_keeps_safe_def sample_lib_def)

theorem custom_rules_not_injectable_witness:
  "list_all (\<lambda>line. count_list line dquote = 4) (splitOn newline (rule_text sample_lib agent_rule)) \<and>
   length (splitOn newline (rule_text sample_lib agent_rule)) = 2"
proof -
  let ?r = "zero_route\<lparr>rt_WAFCustomRules := [agent_rule]\<rparr>"
  have "validateWAFFields sample_lib ?r = None" by code_simp
  moreover have "customRuleDirectives sample_lib (rt_WAFCustomRules ?r) = [rule_text sample_lib agent_rule]"
    by (simp add: customRuleDirectives_def agent_rule_def)
  ultimately show ?thesis
    using custom_rules_not_injectable [OF _ lower_keeps_safe_sample, of ?r "rule_text sample_lib agent_rule"]
    by (simp add: agent_rule_def list_all_iff)
qed

lemma targetedLess_key: "targetedLess a b \<longleftrightarrow> exclusion_key a < exclusion_key b"
  by (auto simp: targetedLess_def exclusion_key_def)

text \<open>
  C35: The validation of targeted exclusions is weaker than that of tags: it admits a comma. For
  every string \<open>extra\<close> free of quotes, backslashes and control characters there is an accepted
  route whose exclusion makes the manager write a \<open>SecAction\<close> with \<open>extra\<close> as further actions,
  for instance one that switches the rule engine off.
\<close>

theorem exclusion_target_adds_actions:
  assumes "secLangUnsafe extra [dquote, backslash] = None" and "lib_seclang L []"
  shows "\<exists>r. validateWAFFields L r = None \<and>
    preCRSDirectives L r =
      [''SecAction '' @ quoted (joinWith '',''
        [''id:110000'', ''phase:1'', ''pass'', ''nolog'', ''ctl:ruleRemoveTargetById=942100;ARGS:a'', extra])]"
proof -
  let ?e = "\<lparr>wx_RuleID = 942100, wx_Target = ''ARGS:a,'' @ extra, wx_Path = [], wx_PathPrefix = False\<rparr>"
  let ?r = "zero_route\<lparr>rt_WAFTargetedExclusions := [?e]\<rparr>"
  have "secLangUnsafe (''ARGS:a,'' @ extra) [dquote, backslash] = None"
    using assms(1) by (auto simp: secLangUnsafe_None unsafe_char_def quote_defs byte_of_def)
  then have v: "validateWAFFields L ?r = None"
    using assms(2) by (simp add: validateWAFFields_def zero_route_def secLangUnsafe_None)
  have "trimSpace [] = []" by code_simp
  moreover have "itoa 942100 = ''942100''" "itoa 110000 = ''110000''"
    by (simp_all add: itoa_def nat_digits.simps char_of_def bit_0)
  ultimately have "preCRSDirectives L ?r =
      [''SecAction '' @ quoted (joinWith '',''
        [''id:110000'', ''phase:1'', ''pass'', ''nolog'', ''ctl:ruleRemoveTargetById=942100;ARGS:a'', extra])]"
    by (simp add: preCRSDirectives_def targetedExclusionDirectives_def exclusion_lines_def exclusion_ctl_def
        customRuleDirectives_def zero_route_def targetedExclusionBaseID_def quoted_def)
  with v show ?thesis by blast
qed

theorem exclusion_target_adds_actions_witness:
  "\<exists>r. validateWAFFields sample_lib r = None \<and>
    preCRSDirectives sample_lib r =
      [''SecAction '' @ quoted (joinWith '',''
        [''id:110000'', ''phase:1'', ''pass'', ''nolog'', ''ctl:ruleRemoveTargetById=942100;ARGS:a'',
         ''ctl:ruleEngine=Off''])]"
  by (rule exclusion_target_adds_actions) (code_simp, simp add: sample_lib_def)

end
