(* ===== verification/CaddyEmit.thy ===== *)
theory CaddyEmit
  imports WafRules
begin

text \<open>
  The handlers the manager emits (\<open>internal/caddymgr\<close>). The code builds JSON objects
  (\<open>map[string]any\<close>) with a \<open>handler\<close> key; here each kind of handler is a constructor that
  carries the values the object carries. An inner route is a list of matcher sets (none: the
  route always matches) and a list of handlers.
\<close>

section \<open>Data\<close>

record ForwardAuthProvider =
  fp_Name :: string
  fp_Kind :: string
  fp_VerifyURL :: string
  fp_AuthRequestURI :: string
  fp_CopyHeaders :: "string list"
  fp_AuthPassthroughPrefix :: string
  fp_RewriteVerifyHost :: bool
  fp_ClientSecret :: string
  fp_CreatedAt :: time
  fp_UpdatedAt :: time

record ManagedDomain =
  md_Apex :: string
  md_IncludeApex :: bool
  md_ProviderID :: string

datatype matcher =
    MHost "string list"
  | MPath "string list"
  | MClientIP "string list"
  | MNot matcher

record active_check =
  ac_uri :: string
  ac_method :: string
  ac_interval :: string
  ac_timeout :: string
  ac_passes :: int
  ac_fails :: int
  ac_expect_status :: "int option"
  ac_expect_body :: "string option"
  ac_headers :: "(string, string) gomap"

record proxy_json =
  px_dials :: "string list"
  px_policy :: string
  px_weights :: "int list option"
  px_tls :: "(bool \<times> string) option"
  px_flush :: bool
  px_active :: "active_check option"
  px_branded :: "int list"

datatype copy_step = CopyVars | CopyDelete string | CopySet string

record verify_json =
  vf_dial :: string
  vf_uri :: string
  vf_host :: "string option"
  vf_tls :: bool
  vf_copy :: "copy_step list"

record waf_json =
  wj_route :: string
  wj_host :: string
  wj_mode :: string
  wj_load_crs :: bool
  wj_directives :: string
  wj_skip_body :: bool
  wj_skip_response :: bool

datatype handler =
    Metrics string "string list" "string list"
  | RateLimitH string string duration int
  | CountryBlockH string countryblock_Config
  | CrowdSecH
  | BasicAuthH BasicAuthRouteConfig string
  | ForwardAuthH verify_json
  | WafH waf_json
  | HeadersH "(string, string) gomap" "(string, string) gomap"
  | DeleteHeaders "string list"
  | StaticResponse int "(string \<times> string) list" string
  | ErrorH int
  | ReverseProxy proxy_json
  | PassthroughProxy string "string option" bool
  | Subroute "inner_route list"
and inner_route = Inner "matcher list list" "handler list"

record matcherSet =
  ms_Host :: "string list"
  ms_Path :: "string list"
  ms_ClientIP :: "string list option"

record httpRoute =
  hr_Match :: "matcherSet list"
  hr_Handle :: "handler list"
  hr_Terminal :: bool

definition host_only :: "string list \<Rightarrow> matcherSet" where
  "host_only hosts = \<lparr>ms_Host = hosts, ms_Path = [], ms_ClientIP = None\<rparr>"

text \<open>
  The options of a build, with what the model takes from outside: \<open>bo_qualifies\<close> is
  \<open>certmagic.SubjectQualifiesForPublicCert\<close>, the bodies are the HTML pages produced by the
  template code.
\<close>

record buildOpts =
  bo_ForwardAuthProviders :: "(string, ForwardAuthProvider) gomap"
  bo_CrowdSecKey :: string
  bo_ManagedDomains :: "ManagedDomain list"
  bo_NormalTrafficExcludePaths :: "string list"
  bo_MaintenanceMessage :: string
  bo_AdminListen :: string
  bo_qualifies :: "string \<Rightarrow> bool"
  bo_maintenance_body :: "int \<Rightarrow> string \<Rightarrow> string"
  bo_catchall_body :: string
  bo_admin_exclusion :: string

definition wrapInSubroute :: "handler list \<Rightarrow> handler" where
  "wrapInSubroute hs = Subroute (map (\<lambda>h. Inner [] [h]) hs)"

section \<open>Dialling\<close>

definition with_port :: "golib \<Rightarrow> url \<Rightarrow> string" where
  "with_port L u =
     (if containsStr (url_Host u) '':'' then url_Host u
      else if toLower L (url_Scheme u) = ''https'' then url_Host u @ '':443'' else url_Host u @ '':80'')"

definition upstreamDial :: "golib \<Rightarrow> string \<Rightarrow> error + string" where
  "upstreamDial L raw =
     (if raw = [] then Inl ''upstream_url is empty''
      else case lib_url L raw of
        None \<Rightarrow> Inl ''parse upstream_url''
      | Some u \<Rightarrow> if url_Host u = [] then Inl ''upstream_url has no host'' else Inr (with_port L u))"

definition forwardAuthDial :: "golib \<Rightarrow> string \<Rightarrow> string" where
  "forwardAuthDial L raw =
     (if raw = [] then []
      else case lib_url L raw of
        None \<Rightarrow> raw
      | Some u \<Rightarrow> if url_Host u = [] then raw else with_port L u)"

fun dial_all :: "golib \<Rightarrow> Upstream list \<Rightarrow> error + string list" where
  "dial_all L [] = Inr []"
| "dial_all L (u # us) =
     (case upstreamDial L (up_URL u) of
        Inl e \<Rightarrow> Inl e
      | Inr d \<Rightarrow> (case dial_all L us of Inl e \<Rightarrow> Inl e | Inr ds \<Rightarrow> Inr (d # ds)))"

section \<open>The reverse proxy\<close>

definition errorBrandingStatusCodes :: "int list" where
  "errorBrandingStatusCodes =
     [400, 402, 403, 404, 405, 406, 408, 409, 410, 411, 412, 413, 414, 415, 416, 417, 418, 421,
      422, 423, 424, 425, 426, 428, 429, 431, 451, 500, 501, 502, 503, 504, 505, 506, 507, 508, 510, 511]"

record proxyPoolParams =
  pp_Upstreams :: "Upstream list"
  pp_LBPolicy :: string
  pp_HealthCheck :: "HealthCheck option"
  pp_ProbeHost :: string
  pp_UsesHTTPS :: bool
  pp_InsecureSkipVerify :: bool
  pp_UpstreamTLSServerName :: string

definition probeHeaders :: "HealthCheck \<Rightarrow> string \<Rightarrow> (string, string) gomap" where
  "probeHeaders hc routeHost =
     fold (\<lambda>(name, v). gm_put name v) (hc_Headers hc)
       (if ProbeHost hc routeHost \<noteq> [] then [(''Host'', ProbeHost hc routeHost)] else [])"

definition active_of :: "HealthCheck \<Rightarrow> string \<Rightarrow> active_check" where
  "active_of hc routeHost =
     \<lparr>ac_uri = hc_URI hc, ac_method = hc_Method hc, ac_interval = hc_Interval hc, ac_timeout = hc_Timeout hc,
      ac_passes = hc_Passes hc, ac_fails = hc_Fails hc,
      ac_expect_status = (if hc_ExpectStatus hc \<noteq> 0 then Some (hc_ExpectStatus hc) else None),
      ac_expect_body = (if hc_ExpectBody hc \<noteq> [] then Some (hc_ExpectBody hc) else None),
      ac_headers = probeHeaders hc routeHost\<rparr>"

definition buildReverseProxyHandler :: "golib \<Rightarrow> proxyPoolParams \<Rightarrow> bool \<Rightarrow> error + handler" where
  "buildReverseProxyHandler L p flushInterval =
     (case dial_all L (pp_Upstreams p) of
        Inl e \<Rightarrow> Inl e
      | Inr dials \<Rightarrow>
          Inr (ReverseProxy
            \<lparr>px_dials = dials, px_policy = pp_LBPolicy p,
             px_weights = (if pp_LBPolicy p = LBPolicyWeightedRoundRobin
               then Some (map up_Weight (pp_Upstreams p)) else None),
             px_tls = (if pp_UsesHTTPS p
               then Some (pp_InsecureSkipVerify p, pp_UpstreamTLSServerName p) else None),
             px_flush = flushInterval,
             px_active = (case pp_HealthCheck p of
                None \<Rightarrow> None
              | Some hc \<Rightarrow> if hc_Enabled hc then Some (active_of hc (pp_ProbeHost p)) else None),
             px_branded = errorBrandingStatusCodes\<rparr>))"

section \<open>Gates\<close>

definition buildIPFilterRoute :: "IPFilter \<Rightarrow> inner_route option" where
  "buildIPFilterRoute f =
     (if \<not> IsActive f then None
      else
        let status = (if ipf_StatusCode f = 0 then 403 else ipf_StatusCode f);
            clientIP = MClientIP (NormalizedCIDRs f);
            m = (if ipf_Mode f = ''allow'' then MNot clientIP else clientIP)
        in Some (Inner [[m]] [ErrorH status]))"

definition ip_gate :: "IPFilter option \<Rightarrow> handler list" where
  "ip_gate f =
     (case Option.bind f buildIPFilterRoute of None \<Rightarrow> [] | Some ipRoute \<Rightarrow> [Subroute [ipRoute]])"

definition defaultRateLimitKey :: string where "defaultRateLimitKey = ''{http.request.remote.host}''"

definition rate_limit_in_zone :: "golib \<Rightarrow> string \<Rightarrow> RouteRateLimit option \<Rightarrow> handler list" where
  "rate_limit_in_zone L zone lim =
     (case lim of
        None \<Rightarrow> []
      | Some rl \<Rightarrow>
          if rl_Events rl \<le> 0 then []
          else case lib_duration L (rl_Window rl) of
            None \<Rightarrow> []
          | Some dur \<Rightarrow>
              if dur \<le> 0 then []
              else [RateLimitH zone (if rl_Key rl = [] then defaultRateLimitKey else rl_Key rl) dur (rl_Events rl)])"

definition buildRateLimitHandler :: "golib \<Rightarrow> string \<Rightarrow> RouteRateLimit option \<Rightarrow> handler list" where
  "buildRateLimitHandler L routeID rl = rate_limit_in_zone L (''route-'' @ routeID) rl"

text \<open>FNV-1a on 32 bits and its rendering as eight hexadecimal digits.\<close>

definition fnv32a :: "string \<Rightarrow> 32 word" where
  "fnv32a s = fold (\<lambda>c h. (h XOR of_nat (byte_of c)) * 16777619) s 2166136261"

definition hex8 :: "32 word \<Rightarrow> string" where
  "hex8 w = map (\<lambda>i. hex_digit (unat (drop_bit (4 * (7 - i)) w) mod 16)) [0..<8]"

definition zone_char :: "char \<Rightarrow> bool" where
  "zone_char c \<longleftrightarrow> 97 \<le> byte_of c \<and> byte_of c \<le> 122 \<or> is_digit c"

fun zone_scan :: "bool \<Rightarrow> string \<Rightarrow> string \<Rightarrow> string" where
  "zone_scan lastDash b [] = b"
| "zone_scan lastDash b (c # cs) =
     (let (b', lastDash') =
        (if zone_char c then (b @ [c], False)
         else if \<not> lastDash \<and> b \<noteq> [] then (b @ ''-'', True)
         else (b, lastDash))
      in if length b' \<ge> 32 then b' else zone_scan lastDash' b' cs)"

definition sanitiseZoneLabel :: "golib \<Rightarrow> string \<Rightarrow> string" where
  "sanitiseZoneLabel L prefix = trimChars ''-'' (zone_scan False [] (toLower L prefix))"

definition pathRateLimitZoneName :: "golib \<Rightarrow> string \<Rightarrow> string \<Rightarrow> string" where
  "pathRateLimitZoneName L routeID prefix =
     ''route-'' @ routeID @ ''-path-'' @ sanitiseZoneLabel L prefix @ ''-'' @ hex8 (fnv32a prefix)"

definition buildPathRateLimitHandler :: "golib \<Rightarrow> string \<Rightarrow> string \<Rightarrow> RouteRateLimit option \<Rightarrow> handler list" where
  "buildPathRateLimitHandler L routeID prefix rl =
     (case rl of
        None \<Rightarrow> []
      | Some _ \<Rightarrow> rate_limit_in_zone L (pathRateLimitZoneName L routeID prefix) rl)"

definition buildCountryBlockHandler :: "string \<Rightarrow> countryblock_Config \<Rightarrow> handler list" where
  "buildCountryBlockHandler routeID cb =
     (if cb_Mode cb = [] \<or> cb_Mode cb = ''off'' then [] else [CountryBlockH routeID cb])"

definition crowdsec_gate :: "buildOpts \<Rightarrow> handler list" where
  "crowdsec_gate opts = (if bo_CrowdSecKey opts \<noteq> [] then [CrowdSecH] else [])"

definition perimeterGateHandlers :: "golib \<Rightarrow> Route \<Rightarrow> buildOpts \<Rightarrow> handler list" where
  "perimeterGateHandlers L r opts =
     buildRateLimitHandler L (rt_ID r) (rt_RateLimit r) @ buildCountryBlockHandler (rt_ID r) (rt_CountryBlock r) @
     ip_gate (rt_IPFilter r) @ crowdsec_gate opts"

section \<open>Authentication\<close>

definition conventionalIdentityHeaders :: "string list" where
  "conventionalIdentityHeaders =
     [''Remote-User'', ''Remote-Email'', ''Remote-Groups'', ''Remote-Name'', ''X-Authentik-*'', ''X-Forwarded-User'']"

fun add_headers :: "golib \<Rightarrow> string list \<Rightarrow> string list \<Rightarrow> string list" where
  "add_headers L seen [] = []"
| "add_headers L seen (h0 # hs) =
     (let h = trimSpace h0; key = toLower L h
      in if h = [] \<or> key \<in> set seen then add_headers L seen hs
         else h # add_headers L (key # seen) hs)"

definition identityHeadersToStrip :: "golib \<Rightarrow> ForwardAuthProvider option \<Rightarrow> string list" where
  "identityHeadersToStrip L provider =
     sort (add_headers L []
       (conventionalIdentityHeaders @ (case provider of None \<Rightarrow> [] | Some p \<Rightarrow> fp_CopyHeaders p)))"

definition verify_url :: "golib \<Rightarrow> ForwardAuthProvider \<Rightarrow> url option" where
  "verify_url L p = lib_url L (fp_VerifyURL p)"

definition host_override :: "golib \<Rightarrow> ForwardAuthProvider \<Rightarrow> string option" where
  "host_override L p =
     (case verify_url L p of
        Some u \<Rightarrow> if fp_RewriteVerifyHost p \<and> url_Host u \<noteq> [] then Some (url_Host u) else None
      | None \<Rightarrow> None)"

definition verify_tls :: "golib \<Rightarrow> ForwardAuthProvider \<Rightarrow> bool" where
  "verify_tls L p = (case verify_url L p of Some u \<Rightarrow> equalFold (url_Scheme u) ''https'' | None \<Rightarrow> False)"

definition buildForwardAuthHandler :: "golib \<Rightarrow> ForwardAuthProvider \<Rightarrow> handler" where
  "buildForwardAuthHandler L p =
     ForwardAuthH
       \<lparr>vf_dial = forwardAuthDial L (fp_VerifyURL p), vf_uri = fp_AuthRequestURI p, vf_host = host_override L p,
        vf_tls = verify_tls L p,
        vf_copy = CopyVars # concat (map (\<lambda>h. [CopyDelete h, CopySet h]) (fp_CopyHeaders p))\<rparr>"

definition buildForwardAuthGate :: "golib \<Rightarrow> ForwardAuthProvider \<Rightarrow> handler" where
  "buildForwardAuthGate L p =
     wrapInSubroute [DeleteHeaders (identityHeadersToStrip L (Some p)), buildForwardAuthHandler L p]"

text \<open>The 503 of a missing provider; the arrow is the three bytes of its UTF-8 encoding.\<close>

definition forward_auth_deny_body :: "golib \<Rightarrow> string \<Rightarrow> string" where
  "forward_auth_deny_body L providerName =
     ''Service Unavailable: forward-auth provider '' @ lib_quote L providerName @ '' is not configured.'' @ [newline] @
     ''This route requires an authenticated identity but its auth gate is missing. '' @
     ''An administrator must configure the forward-auth provider under Arenet Settings '' @
     [CHR 0xE2, CHR 0x86, CHR 0x92] @ '' Forward-auth providers, then reload.'' @ [newline]"

definition buildForwardAuthDenyHandler :: "golib \<Rightarrow> string \<Rightarrow> handler" where
  "buildForwardAuthDenyHandler L providerName =
     StaticResponse 503 [(''Content-Type'', ''text/plain; charset=utf-8''), (''Retry-After'', ''0'')]
       (forward_auth_deny_body L providerName)"

definition realm_of :: "Route \<Rightarrow> string" where
  "realm_of r = ''Arenet route '' @ rt_Host r"

section \<open>Path rules\<close>

definition pathMatchers :: "PathRule \<Rightarrow> string list" where
  "pathMatchers pr =
     (if pr_MatchExact pr then [pr_PathPrefix pr]
      else
        let base = trimSuffix (pr_PathPrefix pr) ''/''
        in if base = [] then [''/'', ''/*''] else [base, base @ ''/*''])"

definition poolUsesHTTPS :: "Upstream list \<Rightarrow> bool" where
  "poolUsesHTTPS pool =
     (case pool of
        [] \<Rightarrow> False
      | u # _ \<Rightarrow> length (up_URL u) \<ge> 8 \<and> (take 8 (up_URL u) = ''https://'' \<or> take 8 (up_URL u) = ''HTTPS://''))"

definition path_gates :: "golib \<Rightarrow> string \<Rightarrow> PathRule \<Rightarrow> handler list" where
  "path_gates L routeID pr =
     ip_gate (pr_IPFilter pr) @ buildPathRateLimitHandler L routeID (pr_PathPrefix pr) (pr_RateLimit pr)"

definition path_redirect :: "PathRedirect \<Rightarrow> handler" where
  "path_redirect rd =
     StaticResponse (PathRedirect_Code (Some rd)) [(''Location'', trimSpace (prd_Target rd))] []"

definition path_route ::
  "golib \<Rightarrow> string \<Rightarrow> (BasicAuthRouteConfig \<Rightarrow> handler) \<Rightarrow> (string \<Rightarrow> handler \<times> bool) \<Rightarrow>
     (PathRule \<Rightarrow> error + handler) \<Rightarrow> PathRule \<Rightarrow> error + inner_route" where
  "path_route L routeID basicAuthBuilder forwardAuthBuilder pathProxyBuilder pr =
     (let gates = path_gates L routeID pr @
            (case pr_BasicAuth pr of None \<Rightarrow> [] | Some ba \<Rightarrow> [basicAuthBuilder ba]);
          (auth, ok) = (case pr_ForwardAuth pr of
             None \<Rightarrow> ([], True)
           | Some fa \<Rightarrow> (case forwardAuthBuilder (fa_ProviderName fa) of (gate, ok) \<Rightarrow> ([gate], ok)));
          emit = (\<lambda>tl. Inr (Inner [[MPath (pathMatchers pr)]] (gates @ auth @ tl)))
      in if \<not> ok then emit []
         else case pr_Redirect pr of
           Some rd \<Rightarrow> emit [path_redirect rd]
         | None \<Rightarrow> (case pathProxyBuilder pr of Inl e \<Rightarrow> Inl e | Inr proxy \<Rightarrow> emit [proxy]))"

fun collect :: "(error + 'a) list \<Rightarrow> error + 'a list" where
  "collect [] = Inr []"
| "collect (x # xs) =
     (case x of Inl e \<Rightarrow> Inl e
      | Inr a \<Rightarrow> (case collect xs of Inl e \<Rightarrow> Inl e | Inr as \<Rightarrow> Inr (a # as)))"

definition buildPathRulesSubroute ::
  "golib \<Rightarrow> string \<Rightarrow> PathRule list \<Rightarrow> handler \<Rightarrow> (BasicAuthRouteConfig \<Rightarrow> handler) \<Rightarrow> (string \<Rightarrow> handler \<times> bool) \<Rightarrow>
     (PathRule \<Rightarrow> error + handler) \<Rightarrow> error + handler" where
  "buildPathRulesSubroute L routeID rules routeProxy basicAuthBuilder forwardAuthBuilder pathProxyBuilder =
     (case collect (map (path_route L routeID basicAuthBuilder forwardAuthBuilder pathProxyBuilder)
             (SortPathRulesByPrefixLenDesc rules)) of
        Inl e \<Rightarrow> Inl e
      | Inr inner \<Rightarrow> Inr (Subroute (inner @ [Inner [] [routeProxy]])))"

section \<open>Exempted paths\<close>

definition exemptPathMatchers :: "PathRule list \<Rightarrow> string list" where
  "exemptPathMatchers rules = sort (concat (map pathMatchers (filter pr_DisableRouteAuth rules)))"

definition buildPathAuthExemption ::
  "golib \<Rightarrow> handler \<Rightarrow> PathRule list \<Rightarrow> ForwardAuthProvider option \<Rightarrow> handler list" where
  "buildPathAuthExemption L authHandler rules provider =
     (let exempt = exemptPathMatchers rules
      in if exempt = [] then [authHandler]
         else [Subroute [Inner [[MPath exempt]] [DeleteHeaders (identityHeadersToStrip L provider)]],
               Subroute [Inner [[MNot (MPath exempt)]] [authHandler]]])"

section \<open>Firewall and headers\<close>

definition adminPortFrom :: "string \<Rightarrow> string" where
  "adminPortFrom listen =
     (if trimSpace listen = [] then []
      else case splitHostPort (trimSpace listen) of None \<Rightarrow> [] | Some (_, port) \<Rightarrow> port)"

definition is_loopback :: "ip \<Rightarrow> bool" where
  "is_loopback a =
     (case to4 a of Some v4 \<Rightarrow> hd v4 = 127 | None \<Rightarrow> a = replicate 15 0 @ [1])"

definition hostIsLoopback :: "golib \<Rightarrow> string \<Rightarrow> bool" where
  "hostIsLoopback L host =
     (let h = toLower L (trimChars ''[]'' host)
      in h = ''localhost'' \<or> (case parseIP h of None \<Rightarrow> False | Some a \<Rightarrow> is_loopback a))"

definition upstreamIsLoopbackPort :: "golib \<Rightarrow> string \<Rightarrow> string \<Rightarrow> bool" where
  "upstreamIsLoopbackPort L rawURL port =
     (case lib_url L (trimSpace rawURL) of
        None \<Rightarrow> False
      | Some u \<Rightarrow>
          url_Host u \<noteq> [] \<and>
          (case splitHostPort (url_Host u) of
             None \<Rightarrow> False
           | Some (host, hostPort) \<Rightarrow> hostPort = port \<and> hostIsLoopback L host))"

definition routeTargetsAdminListener :: "golib \<Rightarrow> Route \<Rightarrow> string \<Rightarrow> bool" where
  "routeTargetsAdminListener L r adminListen =
     (adminPortFrom adminListen \<noteq> [] \<and>
      (\<exists>u \<in> set (rt_Upstreams r). upstreamIsLoopbackPort L (up_URL u) (adminPortFrom adminListen)))"

definition buildWAFHandler :: "golib \<Rightarrow> string \<Rightarrow> Route \<Rightarrow> bool \<Rightarrow> handler list" where
  "buildWAFHandler L adminExclusion r adminPlane =
     (if rt_WAFMode r = [] \<or> rt_WAFMode r = ''off'' then []
      else [WafH \<lparr>wj_route = rt_ID r, wj_host = rt_Host r, wj_mode = rt_WAFMode r,
              wj_load_crs = \<not> rt_WAFDisableCRS r, wj_directives = waf_directives L adminExclusion r adminPlane,
              wj_skip_body = rt_UploadStreamingMode r, wj_skip_response = rt_ResponseStreamingMode r\<rparr>])"

definition buildHeadersHandler :: "(string, string) gomap \<Rightarrow> (string, string) gomap \<Rightarrow> handler list" where
  "buildHeadersHandler reqHeaders respHeaders =
     (if reqHeaders = [] \<and> respHeaders = [] then [] else [HeadersH reqHeaders respHeaders])"

end
