(* ===== verification/CaddyConfig.thy ===== *)
theory CaddyConfig
  imports CaddyEmit
begin

text \<open>
  The route loop of \<open>buildConfigJSON\<close> (\<open>internal/caddymgr/manager.go\<close>) with the maintenance
  window (\<open>maintenance.go\<close>), the redirect state (\<open>redirect.go\<close>) and the managed-domain test
  (\<open>managed_domain.go\<close>). The loop's state is the two lists of emitted routes, the two lists of
  certificate subjects and the open maintenance window; each stage of the loop body is one
  definition, and \<open>route_step\<close> composes them with the early exits of the code.
\<close>

section \<open>Managed domains\<close>

definition normalizeHost :: "golib \<Rightarrow> string \<Rightarrow> string" where
  "normalizeHost L host = toLower L (trimSuffix host ''.'')"

definition NormalizeApex :: "golib \<Rightarrow> string \<Rightarrow> string" where
  "NormalizeApex L apex = toLower L (trimSuffix apex ''.'')"

definition covers :: "golib \<Rightarrow> string \<Rightarrow> ManagedDomain \<Rightarrow> bool" where
  "covers L h md =
     (let apex = NormalizeApex L (md_Apex md)
      in apex \<noteq> [] \<and>
         (if h = apex then md_IncludeApex md
          else hasSuffix h (''.'' @ apex) \<and>
               (let prefix = trimSuffix h (''.'' @ apex)
                in prefix \<noteq> [] \<and> \<not> containsStr prefix ''.'')))"

definition IsHostCoveredByManagedDomain :: "golib \<Rightarrow> string \<Rightarrow> ManagedDomain list \<Rightarrow> ManagedDomain option" where
  "IsHostCoveredByManagedDomain L host mds =
     (if mds = [] \<or> host = [] then None
      else
        let h = normalizeHost L host
        in if h = [] \<or> hasPrefix h ''*.'' then None else List.find (covers L h) mds)"

section \<open>Loop state\<close>

record maintenanceWindow =
  mw_routeID :: string
  mw_hosts :: "string list"
  mw_httpFrom :: nat
  mw_httpsFrom :: nat
  mw_bypassIPs :: "string list"
  mw_tlsEnabled :: bool
  mw_httpCarriesRedirectOnly :: bool
  mw_body :: string
  mw_retryAfterSeconds :: int
  mw_metricsHandler :: handler

record build_state =
  bs_http :: "httpRoute list"
  bs_https :: "httpRoute list"
  bs_HTTP01 :: "string list"
  bs_DNS01 :: "string list"
  bs_window :: "maintenanceWindow option"

definition bs_init :: build_state where
  "bs_init = \<lparr>bs_http = [], bs_https = [], bs_HTTP01 = [], bs_DNS01 = [], bs_window = None\<rparr>"

section \<open>Handlers at the head of the chain\<close>

definition normalizeKnownHost :: "golib \<Rightarrow> string \<Rightarrow> string" where
  "normalizeKnownHost L h0 =
     (let h = trimSpace h0
      in if h = [] then []
         else toLower L (case splitHostPort h of Some (hostOnly, _) \<Rightarrow> hostOnly | None \<Rightarrow> h))"

fun dedup :: "string list \<Rightarrow> string list \<Rightarrow> string list" where
  "dedup seen [] = []"
| "dedup seen (x # xs) = (if x = [] \<or> x \<in> set seen then dedup seen xs else x # dedup (x # seen) xs)"

definition buildKnownHosts :: "golib \<Rightarrow> Route \<Rightarrow> string list" where
  "buildKnownHosts L r = dedup [] (map (normalizeKnownHost L) (AllHosts r))"

definition metrics_handler :: "golib \<Rightarrow> buildOpts \<Rightarrow> Route \<Rightarrow> handler" where
  "metrics_handler L opts r = Metrics (rt_ID r) (bo_NormalTrafficExcludePaths opts) (buildKnownHosts L r)"

definition streaming :: "Route \<Rightarrow> bool" where
  "streaming r \<longleftrightarrow> rt_UploadStreamingMode r \<or> rt_ResponseStreamingMode r"

definition route_proxy :: "golib \<Rightarrow> Route \<Rightarrow> error + handler" where
  "route_proxy L r =
     buildReverseProxyHandler L
       \<lparr>pp_Upstreams = rt_Upstreams r, pp_LBPolicy = rt_LBPolicy r,
        pp_HealthCheck = (if hc_Enabled (rt_HealthCheck r) then Some (rt_HealthCheck r) else None),
        pp_ProbeHost = rt_Host r, pp_UsesHTTPS = PoolUsesHTTPS r,
        pp_InsecureSkipVerify = rt_InsecureSkipVerify r,
        pp_UpstreamTLSServerName = rt_UpstreamTLSServerName r\<rparr> (streaming r)"

section \<open>The maintenance window\<close>

definition openMaintenanceWindow ::
  "Route \<Rightarrow> handler \<Rightarrow> buildOpts \<Rightarrow> nat \<Rightarrow> nat \<Rightarrow> maintenanceWindow option" where
  "openMaintenanceWindow r metricsHandler opts httpLen httpsLen =
     (case rt_MaintenanceConfig r of
        None \<Rightarrow> None
      | Some mc \<Rightarrow>
          if rt_Disabled r then None
          else
            let msg = (if mc_Message mc = [] then bo_MaintenanceMessage opts else mc_Message mc)
            in Some \<lparr>mw_routeID = rt_ID r, mw_hosts = AllHosts r, mw_httpFrom = httpLen, mw_httpsFrom = httpsLen,
                 mw_bypassIPs = mc_BypassIPs mc, mw_tlsEnabled = rt_TLSEnabled r,
                 mw_httpCarriesRedirectOnly = (rt_TLSEnabled r \<and> rt_RedirectToHTTPS r),
                 mw_body = bo_maintenance_body opts (mc_RetryAfterSeconds mc) msg,
                 mw_retryAfterSeconds = mc_RetryAfterSeconds mc, mw_metricsHandler = metricsHandler\<rparr>)"

definition gate_route :: "string list \<Rightarrow> httpRoute \<Rightarrow> httpRoute" where
  "gate_route bypassIPs hr =
     (if hr_Match hr = []
      then hr\<lparr>hr_Match := [\<lparr>ms_Host = [], ms_Path = [], ms_ClientIP = Some bypassIPs\<rparr>]\<rparr>
      else hr\<lparr>hr_Match := map (\<lambda>m. m\<lparr>ms_ClientIP := Some bypassIPs\<rparr>) (hr_Match hr)\<rparr>)"

definition gateRoutesBehindBypass :: "httpRoute list \<Rightarrow> nat \<Rightarrow> string list \<Rightarrow> httpRoute list" where
  "gateRoutesBehindBypass routes n bypassIPs =
     (if bypassIPs = [] then take n routes
      else take n routes @ map (gate_route bypassIPs) (drop n routes))"

definition buildMaintenance503Route :: "maintenanceWindow \<Rightarrow> httpRoute" where
  "buildMaintenance503Route w =
     \<lparr>hr_Match = [host_only (mw_hosts w)],
      hr_Handle = [mw_metricsHandler w,
        StaticResponse 503
          ((''Content-Type'', ''text/html; charset=utf-8'') #
           (if mw_retryAfterSeconds w > 0 then [(''Retry-After'', itoa (mw_retryAfterSeconds w))] else []))
          (mw_body w)],
      hr_Terminal = True\<rparr>"

definition closeMaintenanceWindow :: "build_state \<Rightarrow> build_state" where
  "closeMaintenanceWindow s =
     (case bs_window s of
        None \<Rightarrow> s
      | Some w \<Rightarrow>
          s\<lparr>bs_http := (if mw_httpCarriesRedirectOnly w then bs_http s
              else gateRoutesBehindBypass (bs_http s) (mw_httpFrom w) (mw_bypassIPs w) @ [buildMaintenance503Route w]),
            bs_https := (if mw_tlsEnabled w
              then gateRoutesBehindBypass (bs_https s) (mw_httpsFrom w) (mw_bypassIPs w) @ [buildMaintenance503Route w]
              else bs_https s),
            bs_window := None\<rparr>)"

section \<open>Emitted routes\<close>

definition buildRedirectRoute :: "Route \<Rightarrow> httpRoute" where
  "buildRedirectRoute r =
     \<lparr>hr_Match = [host_only (AllHosts r)],
      hr_Handle = buildCountryBlockHandler (rt_ID r) (rt_CountryBlock r) @
        [StaticResponse 301 [(''Location'', ''https://{http.request.host}{http.request.uri}'')] []],
      hr_Terminal = False\<rparr>"

definition buildRedirectStateHandler :: "handler \<Rightarrow> RedirectConfig \<Rightarrow> handler" where
  "buildRedirectStateHandler metricsHandler rc =
     (let location = (if rc_PreservePath rc then trimSuffix (trimSpace (rc_Target rc)) ''/'' @ ''{http.request.uri}''
                      else trimSpace (rc_Target rc))
      in Subroute [Inner [] [metricsHandler,
           StaticResponse (RedirectConfig_Code (Some rc)) [(''Location'', location)] []]])"

definition buildAuthPassthroughRoute ::
  "golib \<Rightarrow> ForwardAuthProvider \<Rightarrow> string list \<Rightarrow> handler list \<Rightarrow> httpRoute" where
  "buildAuthPassthroughRoute L provider hosts gates =
     \<lparr>hr_Match = [\<lparr>ms_Host = hosts, ms_Path = [trimSuffix (fp_AuthPassthroughPrefix provider) ''/'' @ ''/*''],
        ms_ClientIP = None\<rparr>],
      hr_Handle = [wrapInSubroute (gates @
        [PassthroughProxy (forwardAuthDial L (fp_VerifyURL provider)) (host_override L provider) (verify_tls L provider)])],
      hr_Terminal = True\<rparr>"

definition host_route :: "Route \<Rightarrow> handler \<Rightarrow> httpRoute" where
  "host_route r h = \<lparr>hr_Match = [host_only (AllHosts r)], hr_Handle = [h], hr_Terminal = True\<rparr>"

definition catchAllRoute :: "buildOpts \<Rightarrow> httpRoute" where
  "catchAllRoute opts =
     \<lparr>hr_Match = [],
      hr_Handle = crowdsec_gate opts @
        [StaticResponse 404 [(''Content-Type'', ''text/html; charset=utf-8'')] (bo_catchall_body opts)],
      hr_Terminal = False\<rparr>"

section \<open>Certificate subjects\<close>

definition add_subjects :: "Route \<Rightarrow> string list \<Rightarrow> build_state \<Rightarrow> build_state" where
  "add_subjects r hosts s =
     (if rt_ACMEChallenge r = ''dns-01'' then s\<lparr>bs_DNS01 := bs_DNS01 s @ hosts\<rparr>
      else s\<lparr>bs_HTTP01 := bs_HTTP01 s @ hosts\<rparr>)"

definition uncovered :: "golib \<Rightarrow> buildOpts \<Rightarrow> Route \<Rightarrow> string \<Rightarrow> bool" where
  "uncovered L opts r h \<longleftrightarrow>
     bo_qualifies opts h \<and>
     (rt_UseDedicatedCert r \<or> IsHostCoveredByManagedDomain L h (bo_ManagedDomains opts) = None)"

definition route_subjects :: "golib \<Rightarrow> buildOpts \<Rightarrow> Route \<Rightarrow> build_state \<Rightarrow> build_state" where
  "route_subjects L opts r s =
     (if rt_TLSEnabled r \<and> rt_CertSource r \<noteq> ''manual''
      then add_subjects r (filter (uncovered L opts r) (AllHosts r)) s else s)"

definition deny_subjects :: "buildOpts \<Rightarrow> Route \<Rightarrow> build_state \<Rightarrow> build_state" where
  "deny_subjects opts r s =
     (if rt_TLSEnabled r \<and> rt_CertSource r \<noteq> ''manual''
      then add_subjects r (filter (bo_qualifies opts) (AllHosts r)) s else s)"

section \<open>The loop body\<close>

definition append_routes :: "httpRoute list \<Rightarrow> httpRoute list \<Rightarrow> build_state \<Rightarrow> build_state" where
  "append_routes h hs s = s\<lparr>bs_http := bs_http s @ h, bs_https := bs_https s @ hs\<rparr>"

text \<open>A route in the redirect state answers every request itself.\<close>

definition redirect_step :: "golib \<Rightarrow> buildOpts \<Rightarrow> Route \<Rightarrow> RedirectConfig \<Rightarrow> build_state \<Rightarrow> build_state" where
  "redirect_step L opts r rc s =
     (let route = host_route r (buildRedirectStateHandler (metrics_handler L opts r) rc)
      in route_subjects L opts r
           (append_routes [if rt_TLSEnabled r \<and> rt_RedirectToHTTPS r then buildRedirectRoute r else route]
             (if rt_TLSEnabled r then [route] else []) s))"

definition chain_head :: "golib \<Rightarrow> buildOpts \<Rightarrow> Route \<Rightarrow> handler list" where
  "chain_head L opts r =
     metrics_handler L opts r # buildRateLimitHandler L (rt_ID r) (rt_RateLimit r) @
     buildCountryBlockHandler (rt_ID r) (rt_CountryBlock r) @ ip_gate (rt_IPFilter r) @ crowdsec_gate opts"

datatype auth_stage = Proceed "handler list" "ForwardAuthProvider option" | Deny handler

definition auth_stage_of :: "golib \<Rightarrow> buildOpts \<Rightarrow> Route \<Rightarrow> auth_stage" where
  "auth_stage_of L opts r =
     (if rt_AuthMode r = ''basic'' then
        Proceed (buildPathAuthExemption L (BasicAuthH (rt_BasicAuth r) (realm_of r)) (rt_PathRules r) None) None
      else if rt_AuthMode r = ''forward_auth'' then
        (case gm_get (bo_ForwardAuthProviders opts) (fa_ProviderName (rt_ForwardAuth r)) of
           Some provider \<Rightarrow>
             Proceed (buildPathAuthExemption L (buildForwardAuthGate L provider) (rt_PathRules r) (Some provider))
               (Some provider)
         | None \<Rightarrow> Deny (buildForwardAuthDenyHandler L (fa_ProviderName (rt_ForwardAuth r))))
      else Proceed [] None)"

definition deny_step :: "golib \<Rightarrow> buildOpts \<Rightarrow> Route \<Rightarrow> handler \<Rightarrow> build_state \<Rightarrow> build_state" where
  "deny_step L opts r deny s =
     (let route = host_route r (wrapInSubroute (chain_head L opts r @ [deny]))
      in closeMaintenanceWindow
           (deny_subjects opts r (append_routes [route] (if rt_TLSEnabled r then [route] else []) s)))"

definition waf_and_headers :: "golib \<Rightarrow> buildOpts \<Rightarrow> Route \<Rightarrow> handler list" where
  "waf_and_headers L opts r =
     buildWAFHandler L (bo_admin_exclusion opts) r (routeTargetsAdminListener L r (bo_AdminListen opts)) @
     buildHeadersHandler (rt_RequestHeaders r) (rt_ResponseHeaders r)"

definition path_proxy :: "golib \<Rightarrow> Route \<Rightarrow> handler \<Rightarrow> PathRule \<Rightarrow> error + handler" where
  "path_proxy L r proxyHandler pr =
     (if pr_Upstreams pr = [] then Inr proxyHandler
      else buildReverseProxyHandler L
        \<lparr>pp_Upstreams = pr_Upstreams pr, pp_LBPolicy = pr_LBPolicy pr, pp_HealthCheck = pr_HealthCheck pr,
         pp_ProbeHost = rt_Host r, pp_UsesHTTPS = poolUsesHTTPS (pr_Upstreams pr),
         pp_InsecureSkipVerify = pr_InsecureSkipVerify pr,
         pp_UpstreamTLSServerName = pr_UpstreamTLSServerName pr\<rparr> (streaming r))"

definition path_forward_auth :: "golib \<Rightarrow> buildOpts \<Rightarrow> string \<Rightarrow> handler \<times> bool" where
  "path_forward_auth L opts providerName =
     (case gm_get (bo_ForwardAuthProviders opts) providerName of
        None \<Rightarrow> (buildForwardAuthDenyHandler L providerName, False)
      | Some provider \<Rightarrow> (buildForwardAuthGate L provider, True))"

definition chain_end :: "golib \<Rightarrow> buildOpts \<Rightarrow> Route \<Rightarrow> handler \<Rightarrow> error + handler" where
  "chain_end L opts r proxyHandler =
     (if rt_PathRules r \<noteq> [] then
        buildPathRulesSubroute L (rt_ID r) (rt_PathRules r) proxyHandler
          (\<lambda>c. BasicAuthH c (realm_of r)) (path_forward_auth L opts) (path_proxy L r proxyHandler)
      else Inr proxyHandler)"

definition passthrough_routes :: "golib \<Rightarrow> buildOpts \<Rightarrow> Route \<Rightarrow> ForwardAuthProvider option \<Rightarrow> httpRoute list" where
  "passthrough_routes L opts r provider =
     (case provider of
        None \<Rightarrow> []
      | Some p \<Rightarrow>
          if fp_AuthPassthroughPrefix p = [] then []
          else [buildAuthPassthroughRoute L p (AllHosts r) (perimeterGateHandlers L r opts)])"

definition serve_step ::
  "golib \<Rightarrow> buildOpts \<Rightarrow> Route \<Rightarrow> handler list \<Rightarrow> ForwardAuthProvider option \<Rightarrow> handler \<Rightarrow> build_state \<Rightarrow> build_state" where
  "serve_step L opts r auth provider terminal s =
     (let route = host_route r (wrapInSubroute (chain_head L opts r @ auth @ waf_and_headers L opts r @ [terminal]));
          routes = passthrough_routes L opts r provider @ [route]
      in closeMaintenanceWindow
           (route_subjects L opts r
             (append_routes (if rt_TLSEnabled r \<and> rt_RedirectToHTTPS r then [buildRedirectRoute r] else routes)
               (if rt_TLSEnabled r then routes else []) s)))"

definition route_step :: "golib \<Rightarrow> buildOpts \<Rightarrow> Route \<Rightarrow> build_state \<Rightarrow> error + build_state" where
  "route_step L opts r s =
     (case route_proxy L r of
        Inl e \<Rightarrow> Inl e
      | Inr proxyHandler \<Rightarrow>
          let s1 = s\<lparr>bs_window := openMaintenanceWindow r (metrics_handler L opts r) opts
                       (length (bs_http s)) (length (bs_https s))\<rparr>
          in case (if rt_Disabled r then None else rt_RedirectConfig r) of
               Some rc \<Rightarrow> Inr (redirect_step L opts r rc s1)
             | None \<Rightarrow>
                 (case auth_stage_of L opts r of
                    Deny deny \<Rightarrow> Inr (deny_step L opts r deny s1)
                  | Proceed auth provider \<Rightarrow>
                      (case chain_end L opts r proxyHandler of
                         Inl e \<Rightarrow> Inl e
                       | Inr terminal \<Rightarrow> Inr (serve_step L opts r auth provider terminal s1))))"

fun route_loop :: "golib \<Rightarrow> buildOpts \<Rightarrow> Route list \<Rightarrow> build_state \<Rightarrow> error + build_state" where
  "route_loop L opts [] s = Inr s"
| "route_loop L opts (r # rs) s =
     (case route_step L opts r s of Inl e \<Rightarrow> Inl e | Inr s' \<Rightarrow> route_loop L opts rs s')"

text \<open>
  The two servers: the catch-all follows the emitted routes, and there is no HTTPS server
  without an HTTPS route. A window left open is an error.
\<close>

definition build_routes :: "golib \<Rightarrow> buildOpts \<Rightarrow> Route list \<Rightarrow> error + build_state" where
  "build_routes L opts routes =
     (case route_loop L opts routes bs_init of
        Inl e \<Rightarrow> Inl e
      | Inr s \<Rightarrow>
          if bs_window s \<noteq> None then Inl ''internal: maintenance window left open''
          else Inr (s\<lparr>bs_http := bs_http s @ [catchAllRoute opts],
                      bs_https := (if bs_https s = [] then [] else bs_https s @ [catchAllRoute opts])\<rparr>))"

definition filterDisabledRoutes :: "Route list \<Rightarrow> Route list" where
  "filterDisabledRoutes routes = filter (\<lambda>r. \<not> rt_Disabled r) routes"

end
