(* ===== verification/CaddyRun.thy ===== *)
theory CaddyRun
  imports CaddyConfig
begin

text \<open>
  Caddy is outside the repository: the model takes it as an argument, a record of the functions
  the emitted configuration relies on. The locale \<open>caddy\<close> states the documented behaviour the
  code counts on: the routes of a list are tried in order, the handlers of a matching route run
  in order, a handler either answers or calls the next one, a subroute falls through to what
  follows it, and a terminal route ends the list. The proxies and the static responses never
  call the next handler.
\<close>

section \<open>The engine\<close>

datatype 'r outcome = Forwarded handler 'r | Replied int | Unanswered

record 'r engine =
  e_host :: "string list \<Rightarrow> 'r \<Rightarrow> bool"
  e_path :: "string list \<Rightarrow> 'r \<Rightarrow> bool"
  e_ip :: "string list \<Rightarrow> 'r \<Rightarrow> bool"
  e_leaf :: "handler \<Rightarrow> 'r \<Rightarrow> 'r outcome + 'r"
  e_serve :: "inner_route list \<Rightarrow> ('r \<Rightarrow> 'r outcome) \<Rightarrow> 'r \<Rightarrow> 'r outcome"
  e_handle :: "handler list \<Rightarrow> ('r \<Rightarrow> 'r outcome) \<Rightarrow> 'r \<Rightarrow> 'r outcome"
  e_top :: "httpRoute list \<Rightarrow> 'r \<Rightarrow> 'r outcome"

fun match1 :: "'r engine \<Rightarrow> matcher \<Rightarrow> 'r \<Rightarrow> bool" where
  "match1 E (MHost hs) q = e_host E hs q"
| "match1 E (MPath ps) q = e_path E ps q"
| "match1 E (MClientIP rs) q = e_ip E rs q"
| "match1 E (MNot m) q = (\<not> match1 E m q)"

definition match_sets :: "'r engine \<Rightarrow> matcher list list \<Rightarrow> 'r \<Rightarrow> bool" where
  "match_sets E sets q \<longleftrightarrow> sets = [] \<or> (\<exists>ms \<in> set sets. \<forall>m \<in> set ms. match1 E m q)"

definition match_top :: "'r engine \<Rightarrow> httpRoute \<Rightarrow> 'r \<Rightarrow> bool" where
  "match_top E hr q \<longleftrightarrow>
     hr_Match hr = [] \<or>
     (\<exists>m \<in> set (hr_Match hr).
        (ms_Host m = [] \<or> e_host E (ms_Host m) q) \<and> (ms_Path m = [] \<or> e_path E (ms_Path m) q) \<and>
        (case ms_ClientIP m of None \<Rightarrow> True | Some rs \<Rightarrow> e_ip E rs q))"

fun is_subroute :: "handler \<Rightarrow> bool" where
  "is_subroute (Subroute _) = True"
| "is_subroute _ = False"

fun is_proxy :: "handler \<Rightarrow> bool" where
  "is_proxy (ReverseProxy _) = True"
| "is_proxy (PassthroughProxy _ _ _) = True"
| "is_proxy _ = False"

text \<open>The handlers that only decide: they pass the request on as it is.\<close>

fun only_decides :: "handler \<Rightarrow> bool" where
  "only_decides (Metrics _ _ _) = True"
| "only_decides (RateLimitH _ _ _ _) = True"
| "only_decides (CountryBlockH _ _) = True"
| "only_decides CrowdSecH = True"
| "only_decides _ = False"

locale caddy =
  fixes E :: "'r engine"
  assumes serve_Nil: "e_serve E [] k q = k q"
    and serve_Cons: "e_serve E (Inner sets hs # rs) k q =
      (if match_sets E sets q then e_handle E hs (e_serve E rs k) q else e_serve E rs k q)"
    and handle_Nil: "e_handle E [] k q = k q"
    and handle_sub: "e_handle E (Subroute rs # hs) k q = e_serve E rs (e_handle E hs k) q"
    and handle_leaf: "\<not> is_subroute h \<Longrightarrow> e_handle E (h # hs) k q =
      (case e_leaf E h q of Inl a \<Rightarrow> a | Inr q' \<Rightarrow> e_handle E hs k q')"
    and top_Nil: "e_top E [] q = Unanswered"
    and top_Cons: "e_top E (hr # hrs) q =
      (if match_top E hr q
       then e_handle E (hr_Handle hr) (if hr_Terminal hr then (\<lambda>_. Unanswered) else e_top E hrs) q
       else e_top E hrs q)"
    and proxy_forwards: "is_proxy h \<Longrightarrow> e_leaf E h q = Inl (Forwarded h q)"
    and only_proxies_forward: "e_leaf E h q = Inl (Forwarded h' q') \<Longrightarrow> is_proxy h"
    and static_replies: "e_leaf E (StaticResponse c hdrs b) q = Inl (Replied c)"
    and error_replies: "e_leaf E (ErrorH c) q = Inl (Replied c)"
    and decides: "only_decides h \<Longrightarrow> e_leaf E h q = Inr q' \<Longrightarrow> q' = q"
    and keeps_path: "e_leaf E h q = Inr q' \<Longrightarrow> e_path E ps q' = e_path E ps q"
    and keeps_ip: "e_leaf E h q = Inr q' \<Longrightarrow> e_ip E ranges q' = e_ip E ranges q"
begin

lemma handle_Nil_fun: "e_handle E [] k = k"
  by (simp add: handle_Nil fun_eq_iff)

lemma wrap_serves: "e_serve E (map (\<lambda>h. Inner [] [h]) hs) k q = e_handle E hs k q"
proof (induction hs arbitrary: q)
  case (Cons h hs)
  have rest: "e_serve E (map (\<lambda>h. Inner [] [h]) hs) k = e_handle E hs k"
    using Cons.IH by (simp add: fun_eq_iff)
  show ?case
  proof (cases "is_subroute h")
    case True
    then obtain rs where "h = Subroute rs" by (cases h) auto
    then show ?thesis by (simp add: serve_Cons match_sets_def handle_sub handle_Nil_fun rest)
  next
    case False
    then show ?thesis by (simp add: serve_Cons match_sets_def handle_leaf handle_Nil_fun rest split: sum.split)
  qed
qed (simp add: serve_Nil handle_Nil)

lemma handle_wrap: "e_handle E [wrapInSubroute hs] k q = e_handle E hs k q"
  by (simp add: wrapInSubroute_def handle_sub handle_Nil_fun wrap_serves)

lemma handle_append: "e_handle E (hs @ hs') k q = e_handle E hs (e_handle E hs' k) q"
proof (induction hs arbitrary: q)
  case (Cons h hs)
  then have rest: "e_handle E (hs @ hs') k = e_handle E hs (e_handle E hs' k)" by (simp add: fun_eq_iff)
  show ?case
  proof (cases "is_subroute h")
    case True
    then obtain rs where "h = Subroute rs" by (cases h) auto
    then show ?thesis by (simp add: handle_sub rest)
  qed (simp add: handle_leaf rest split: sum.split)
qed (simp add: handle_Nil)

text \<open>Getting past a handler that is not a proxy.\<close>

lemma past_leaf:
  assumes "e_handle E (h # hs) k q = Forwarded p q'" "\<not> is_subroute h" "\<not> is_proxy h"
  obtains q1 where "e_leaf E h q = Inr q1" "e_handle E hs k q1 = Forwarded p q'"
proof (cases "e_leaf E h q")
  case (Inl a)
  with assms have "e_leaf E h q = Inl (Forwarded p q')" by (simp add: handle_leaf)
  with assms(3) only_proxies_forward show ?thesis by blast
next
  case (Inr q1)
  with assms that show ?thesis by (simp add: handle_leaf)
qed

lemma past_decider:
  assumes "e_handle E (h # hs) k q = Forwarded p q'" "only_decides h"
  shows "e_leaf E h q = Inr q \<and> e_handle E hs k q = Forwarded p q'"
proof -
  have "\<not> is_subroute h" "\<not> is_proxy h" using assms(2) by (cases h; simp)+
  then obtain q1 where q1: "e_leaf E h q = Inr q1" "e_handle E hs k q1 = Forwarded p q'"
    using past_leaf [OF assms(1)] by blast
  with decides [OF assms(2) q1(1)] show ?thesis by simp
qed

lemma past_deciders:
  assumes "e_handle E (gs @ hs) k q = Forwarded p q'" "\<forall>g \<in> set gs. only_decides g"
  shows "(\<forall>g \<in> set gs. e_leaf E g q = Inr q) \<and> e_handle E hs k q = Forwarded p q'"
  using assms
proof (induction gs)
  case (Cons g gs)
  then show ?case using past_decider [of g "gs @ hs"] by simp
qed simp

text \<open>A proxy at the head ends the chain; a static response never forwards.\<close>

lemma proxy_ends: "is_proxy h \<Longrightarrow> e_handle E (h # hs) k q = Forwarded p q' \<longleftrightarrow> p = h \<and> q' = q"
  using proxy_forwards [of h q] by (cases h) (auto simp: handle_leaf)

lemma static_ends [simp]: "e_handle E (StaticResponse c hdrs b # hs) k q \<noteq> Forwarded p q'"
  by (simp add: handle_leaf static_replies)

lemma error_ends [simp]: "e_handle E (ErrorH c # hs) k q \<noteq> Forwarded p q'"
  by (simp add: handle_leaf error_replies)

end

section \<open>The engine's laws can hold\<close>

text \<open>
  An evaluator of the emitted configuration: a request is a host, a path and an address; the
  matchers compare literally (paths in lower case), a pattern ending in a star matches by prefix.
\<close>

record request =
  q_host :: string
  q_path :: string
  q_addr :: string
  q_login :: string

definition path_pattern :: "string \<Rightarrow> string \<Rightarrow> bool" where
  "path_pattern pat path =
     (if hasSuffix pat ''*'' then hasPrefix path (trimSuffix pat ''*'') else path = pat)"

definition sample_leaf :: "handler \<Rightarrow> request \<Rightarrow> request outcome + request" where
  "sample_leaf h q =
     (case h of
        ReverseProxy _ \<Rightarrow> Inl (Forwarded h q)
      | PassthroughProxy _ _ _ \<Rightarrow> Inl (Forwarded h q)
      | StaticResponse c _ _ \<Rightarrow> Inl (Replied c)
      | ErrorH c \<Rightarrow> Inl (Replied c)
      | BasicAuthH ba _ \<Rightarrow> if q_login q = ba_Username ba then Inr q else Inl (Replied 401)
      | _ \<Rightarrow> Inr q)"

definition sample_base :: "request engine" where
  "sample_base = \<lparr>e_host = (\<lambda>hs q. q_host q \<in> set hs),
     e_path = (\<lambda>ps q. \<exists>p \<in> set ps. path_pattern p (toLower sample_lib (q_path q))), e_ip = (\<lambda>rs q. q_addr q \<in> set rs),
     e_leaf = sample_leaf, e_serve = (\<lambda>_ _ _. Unanswered), e_handle = (\<lambda>_ _ _. Unanswered),
     e_top = (\<lambda>_ _. Unanswered)\<rparr>"

fun run_serve :: "inner_route list \<Rightarrow> (request \<Rightarrow> request outcome) \<Rightarrow> request \<Rightarrow> request outcome"
and run_handle :: "handler list \<Rightarrow> (request \<Rightarrow> request outcome) \<Rightarrow> request \<Rightarrow> request outcome" where
  "run_serve [] k q = k q"
| "run_serve (Inner sets hs # rs) k q =
     (if match_sets sample_base sets q then run_handle hs (\<lambda>q. run_serve rs k q) q else run_serve rs k q)"
| "run_handle [] k q = k q"
| "run_handle (h # hs) k q =
     (case h of
        Subroute rs \<Rightarrow> run_serve rs (\<lambda>q. run_handle hs k q) q
      | _ \<Rightarrow> (case sample_leaf h q of Inl a \<Rightarrow> a | Inr q' \<Rightarrow> run_handle hs k q'))"

fun run_top :: "httpRoute list \<Rightarrow> request \<Rightarrow> request outcome" where
  "run_top [] q = Unanswered"
| "run_top (hr # rs) q =
     (if match_top sample_base hr q
      then run_handle (hr_Handle hr) (if hr_Terminal hr then (\<lambda>_. Unanswered) else (\<lambda>q. run_top rs q)) q
      else run_top rs q)"

definition sample_engine :: "request engine" where
  "sample_engine = sample_base\<lparr>e_serve := run_serve, e_handle := run_handle, e_top := run_top\<rparr>"

lemma sample_sel [simp]:
  "e_serve sample_engine = run_serve" "e_handle sample_engine = run_handle" "e_top sample_engine = run_top"
  "e_leaf sample_engine = sample_leaf" "e_path sample_engine = e_path sample_base"
  "e_ip sample_engine = e_ip sample_base" "e_host sample_engine = e_host sample_base"
  by (simp_all add: sample_engine_def sample_base_def)

lemma match1_sample [simp]: "match1 sample_engine m q = match1 sample_base m q"
  by (induction m) simp_all

lemma match_sample [simp]:
  "match_sets sample_engine sets q = match_sets sample_base sets q"
  "match_top sample_engine hr q = match_top sample_base hr q"
  by (simp_all add: match_sets_def match_top_def cong: option.case_cong)

lemma sample_leaf_same: "sample_leaf h q = Inr q' \<Longrightarrow> q' = q"
  by (cases h) (simp_all add: sample_leaf_def split: if_splits)

interpretation sample: caddy sample_engine
proof
  fix h h' :: handler and q q' :: request
  show "e_leaf sample_engine h q = Inl (Forwarded h' q') \<Longrightarrow> is_proxy h"
    by (cases h) (auto simp: sample_leaf_def split: if_splits)
  show "is_proxy h \<Longrightarrow> e_leaf sample_engine h q = Inl (Forwarded h q)"
    by (cases h) (simp_all add: sample_leaf_def)
  show "\<not> is_subroute h \<Longrightarrow> e_handle sample_engine (h # hs) k q =
      (case e_leaf sample_engine h q of Inl a \<Rightarrow> a | Inr q' \<Rightarrow> e_handle sample_engine hs k q')" for hs k
    by (cases h) (simp_all split: sum.split)
qed (simp_all add: sample_leaf_def [of "StaticResponse _ _ _"] sample_leaf_def [of "ErrorH _"] sample_leaf_same, (metis sample_leaf_same)+)

end
