(* ===== verification/CaddyGates.thy ===== *)
theory CaddyGates
  imports CaddyRun
begin

text \<open>
  What stands between a client and a backend. A request that the emitted configuration forwards
  has passed every gate the operator configured for the route that answers it.
\<close>

section \<open>Gates of a route\<close>

definition ip_allowed :: "'r engine \<Rightarrow> IPFilter option \<Rightarrow> 'r \<Rightarrow> bool" where
  "ip_allowed E f0 q =
     (case f0 of
        None \<Rightarrow> True
      | Some f \<Rightarrow>
          (ipf_Mode f = ''allow'' \<longrightarrow> e_ip E (NormalizedCIDRs f) q) \<and>
          (ipf_Mode f = ''deny'' \<longrightarrow> \<not> e_ip E (NormalizedCIDRs f) q))"

text \<open>The perimeter; the rate limit and the country gate are those the emitters produce for the route.\<close>

definition perimeter_open :: "'r engine \<Rightarrow> golib \<Rightarrow> buildOpts \<Rightarrow> Route \<Rightarrow> 'r \<Rightarrow> bool" where
  "perimeter_open E L opts r q \<longleftrightarrow>
     (\<forall>h \<in> set (buildRateLimitHandler L (rt_ID r) (rt_RateLimit r)). e_leaf E h q = Inr q) \<and>
     (\<forall>h \<in> set (buildCountryBlockHandler (rt_ID r) (rt_CountryBlock r)). e_leaf E h q = Inr q) \<and>
     ip_allowed E (rt_IPFilter r) q \<and>
     (bo_CrowdSecKey opts \<noteq> [] \<longrightarrow> e_leaf E CrowdSecH q = Inr q)"

definition exempted :: "'r engine \<Rightarrow> Route \<Rightarrow> 'r \<Rightarrow> bool" where
  "exempted E r q \<longleftrightarrow>
     exemptPathMatchers (rt_PathRules r) \<noteq> [] \<and> e_path E (exemptPathMatchers (rt_PathRules r)) q"

definition verified_by :: "'r engine \<Rightarrow> golib \<Rightarrow> ForwardAuthProvider \<Rightarrow> 'r \<Rightarrow> bool" where
  "verified_by E L prov q \<longleftrightarrow>
     (\<exists>q1 q2. e_leaf E (DeleteHeaders (identityHeadersToStrip L (Some prov))) q = Inr q1 \<and>
        e_leaf E (buildForwardAuthHandler L prov) q1 = Inr q2)"

text \<open>
  The route's own authentication: passed, or skipped on an exempted path, where the identity
  headers of the request have been deleted.
\<close>

definition auth_open :: "'r engine \<Rightarrow> golib \<Rightarrow> buildOpts \<Rightarrow> Route \<Rightarrow> 'r \<Rightarrow> bool" where
  "auth_open E L opts r q =
     (if rt_AuthMode r = ''basic'' then
        (if exempted E r q then \<exists>q1. e_leaf E (DeleteHeaders (identityHeadersToStrip L None)) q = Inr q1
         else \<exists>q1. e_leaf E (BasicAuthH (rt_BasicAuth r) (realm_of r)) q = Inr q1)
      else if rt_AuthMode r = ''forward_auth'' then
        (case gm_get (bo_ForwardAuthProviders opts) (fa_ProviderName (rt_ForwardAuth r)) of
           None \<Rightarrow> False
         | Some prov \<Rightarrow>
             if exempted E r q then \<exists>q1. e_leaf E (DeleteHeaders (identityHeadersToStrip L (Some prov))) q = Inr q1
             else verified_by E L prov q)
      else True)"

definition same_target :: "'r engine \<Rightarrow> 'r \<Rightarrow> 'r \<Rightarrow> bool" where
  "same_target E q q1 \<longleftrightarrow>
     (\<forall>ps. e_path E ps q1 = e_path E ps q) \<and> (\<forall>ranges. e_ip E ranges q1 = e_ip E ranges q)"

section \<open>Gates of a path\<close>

definition deciding_rule :: "'r engine \<Rightarrow> PathRule list \<Rightarrow> 'r \<Rightarrow> PathRule option" where
  "deciding_rule E rules q =
     List.find (\<lambda>pr. e_path E (pathMatchers pr) q) (SortPathRulesByPrefixLenDesc rules)"

definition path_auth_open :: "'r engine \<Rightarrow> golib \<Rightarrow> buildOpts \<Rightarrow> Route \<Rightarrow> PathRule \<Rightarrow> 'r \<Rightarrow> bool" where
  "path_auth_open E L opts r pr q \<longleftrightarrow>
     (\<forall>ba. pr_BasicAuth pr = Some ba \<longrightarrow> (\<exists>q1. e_leaf E (BasicAuthH ba (realm_of r)) q = Inr q1)) \<and>
     (\<forall>fa. pr_ForwardAuth pr = Some fa \<longrightarrow>
        (\<exists>prov q1. gm_get (bo_ForwardAuthProviders opts) (fa_ProviderName fa) = Some prov \<and> same_target E q q1 \<and>
           verified_by E L prov q1))"

definition rule_open :: "'r engine \<Rightarrow> golib \<Rightarrow> buildOpts \<Rightarrow> Route \<Rightarrow> PathRule \<Rightarrow> 'r \<Rightarrow> bool" where
  "rule_open E L opts r pr q \<longleftrightarrow>
     pr_Redirect pr = None \<and> ip_allowed E (pr_IPFilter pr) q \<and>
     (\<forall>h \<in> set (buildPathRateLimitHandler L (rt_ID r) (pr_PathPrefix pr) (pr_RateLimit pr)). e_leaf E h q = Inr q) \<and>
     path_auth_open E L opts r pr q"

definition path_stage_open :: "'r engine \<Rightarrow> golib \<Rightarrow> buildOpts \<Rightarrow> Route \<Rightarrow> handler \<Rightarrow> handler \<Rightarrow> 'r \<Rightarrow> bool" where
  "path_stage_open E L opts r proxy p q =
     (case deciding_rule E (rt_PathRules r) q of
        None \<Rightarrow> p = proxy
      | Some pr \<Rightarrow> rule_open E L opts r pr q \<and> path_proxy L r proxy pr = Inr p)"

section \<open>Lemmas\<close>

lemma chain_head_perimeter: "chain_head L opts r = metrics_handler L opts r # perimeterGateHandlers L r opts"
  by (simp add: chain_head_def perimeterGateHandlers_def)

lemma rate_limit_decides: "h \<in> set (rate_limit_in_zone L zone rl) \<Longrightarrow> only_decides h"
proof -
  assume "h \<in> set (rate_limit_in_zone L zone rl)"
  then have "\<exists>key dur n. h = RateLimitH zone key dur n"
    by (cases rl; cases "lib_duration L (rl_Window (the rl))") (simp_all add: rate_limit_in_zone_def split: if_split_asm)
  then show ?thesis by auto
qed

lemma country_decides: "h \<in> set (buildCountryBlockHandler rid cb) \<Longrightarrow> only_decides h"
  by (auto simp: buildCountryBlockHandler_def split: if_splits)

lemma crowdsec_decides: "h \<in> set (crowdsec_gate opts) \<Longrightarrow> only_decides h"
  by (auto simp: crowdsec_gate_def split: if_splits)

lemma buildReverseProxyHandler_proxy: "buildReverseProxyHandler L p b = Inr h \<Longrightarrow> is_proxy h"
  by (auto simp: buildReverseProxyHandler_def split: sum.splits)

lemma route_proxy_proxy: "route_proxy L r = Inr h \<Longrightarrow> is_proxy h"
  by (auto simp: route_proxy_def dest: buildReverseProxyHandler_proxy)

lemma path_proxy_proxy: "is_proxy proxy \<Longrightarrow> path_proxy L r proxy pr = Inr h \<Longrightarrow> is_proxy h"
  by (auto simp: path_proxy_def dest: buildReverseProxyHandler_proxy split: if_splits)

lemma same_target_refl [simp]: "same_target E q q"
  by (simp add: same_target_def)

lemma same_target_trans: "same_target E q q1 \<Longrightarrow> same_target E q1 q2 \<Longrightarrow> same_target E q q2"
  by (simp add: same_target_def)

lemma deciding_rule_same: "same_target E q q1 \<Longrightarrow> deciding_rule E rules q1 = deciding_rule E rules q"
  by (simp add: deciding_rule_def same_target_def)

context caddy
begin

lemma leaf_same_target: "e_leaf E h q = Inr q1 \<Longrightarrow> same_target E q q1"
  by (simp add: same_target_def keeps_path keeps_ip)

lemma past_ip_gate:
  assumes "e_handle E (ip_gate f @ hs) k q = Forwarded p q'"
  shows "ip_allowed E f q \<and> e_handle E hs k q = Forwarded p q'"
  using assms
  by (auto simp: ip_gate_def buildIPFilterRoute_def ip_allowed_def IsActive_def Let_def handle_sub serve_Cons
      match_sets_def serve_Nil split: option.splits if_splits)

lemma past_perimeter:
  assumes "e_handle E (perimeterGateHandlers L r opts @ hs) k q = Forwarded p q'"
  shows "perimeter_open E L opts r q \<and> e_handle E hs k q = Forwarded p q'"
proof -
  let ?rl = "buildRateLimitHandler L (rt_ID r) (rt_RateLimit r)"
  let ?cb = "buildCountryBlockHandler (rt_ID r) (rt_CountryBlock r)"
  have 1: "\<forall>h \<in> set (?rl @ ?cb). only_decides h" and 2: "\<forall>h \<in> set (crowdsec_gate opts). only_decides h"
    using rate_limit_decides country_decides crowdsec_decides by (auto simp: buildRateLimitHandler_def)
  have a: "(\<forall>h \<in> set (?rl @ ?cb). e_leaf E h q = Inr q)"
    and b: "e_handle E (ip_gate (rt_IPFilter r) @ crowdsec_gate opts @ hs) k q = Forwarded p q'"
    using past_deciders [OF _ 1, of "ip_gate (rt_IPFilter r) @ crowdsec_gate opts @ hs"] assms
    by (auto simp: perimeterGateHandlers_def)
  then have c: "ip_allowed E (rt_IPFilter r) q" "e_handle E (crowdsec_gate opts @ hs) k q = Forwarded p q'"
    using past_ip_gate by blast+
  with past_deciders [OF c(2) 2] have "\<forall>h \<in> set (crowdsec_gate opts). e_leaf E h q = Inr q" by blast
  with a c past_deciders [OF c(2) 2] show ?thesis
    by (auto simp: perimeter_open_def crowdsec_gate_def split: if_splits)
qed

lemma past_leaves:
  assumes "e_handle E (hs @ t) k q = Forwarded p q'" "\<forall>h \<in> set hs. \<not> is_subroute h \<and> \<not> is_proxy h"
  obtains q1 where "e_handle E t k q1 = Forwarded p q'" "same_target E q q1"
    "\<forall>h \<in> set hs. \<exists>qa qb. same_target E q qa \<and> e_leaf E h qa = Inr qb"
  using assms
proof (induction hs arbitrary: q thesis)
  case (Cons h hs)
  then have h: "\<not> is_subroute h" "\<not> is_proxy h" by simp_all
  obtain q1 where q1: "e_leaf E h q = Inr q1" "e_handle E (hs @ t) k q1 = Forwarded p q'"
    using past_leaf [OF _ h, of "hs @ t" k q p q'] Cons.prems(2) by auto
  note s1 = leaf_same_target [OF q1(1)]
  obtain q2 where q2: "e_handle E t k q2 = Forwarded p q'" "same_target E q1 q2"
    "\<forall>h \<in> set hs. \<exists>qa qb. same_target E q1 qa \<and> e_leaf E h qa = Inr qb"
    using Cons.IH [OF _ q1(2)] Cons.prems(3) by auto
  have "\<forall>g \<in> set (h # hs). \<exists>qa qb. same_target E q qa \<and> e_leaf E g qa = Inr qb"
    using q1(1) q2(3) s1 same_target_trans same_target_refl by (metis set_ConsD)
  then show ?case by (rule Cons.prems(1) [OF q2(1) same_target_trans [OF s1 q2(2)]])
qed auto

text \<open>The forward-auth gate deletes the identity headers, then asks the provider.\<close>

lemma past_forward_gate:
  assumes "e_handle E (buildForwardAuthGate L prov # hs) k q = Forwarded p q'"
  obtains q1 where "verified_by E L prov q" "same_target E q q1" "e_handle E hs k q1 = Forwarded p q'"
proof -
  let ?del = "DeleteHeaders (identityHeadersToStrip L (Some prov))" and ?fa = "buildForwardAuthHandler L prov"
  have "e_handle E [?del, ?fa] (e_handle E hs k) q = Forwarded p q'"
    using assms handle_wrap [of "[?del, ?fa]"]
    by (simp add: buildForwardAuthGate_def wrapInSubroute_def handle_sub handle_Nil_fun)
  then obtain q1 where q1: "e_leaf E ?del q = Inr q1" "e_handle E [?fa] (e_handle E hs k) q1 = Forwarded p q'"
    by (rule past_leaf) auto
  from q1(2) obtain q2 where q2: "e_leaf E ?fa q1 = Inr q2" "e_handle E [] (e_handle E hs k) q2 = Forwarded p q'"
    by (rule past_leaf) (auto simp: buildForwardAuthHandler_def)
  have "same_target E q q2"
    by (rule same_target_trans [OF leaf_same_target [OF q1(1)] leaf_same_target [OF q2(1)]])
  moreover have "verified_by E L prov q" using q1(1) q2(1) by (auto simp: verified_by_def)
  ultimately show ?thesis using that q2(2) by (simp add: handle_Nil)
qed

text \<open>An authentication handler with exemptions around it.\<close>

lemma past_exemption:
  assumes fwd: "e_handle E (buildPathAuthExemption L auth (rt_PathRules r) prov @ hs) k q = Forwarded p q'"
    and step: "\<And>t kk. e_handle E (auth # t) kk q = Forwarded p q' \<Longrightarrow>
      ok \<and> (\<exists>q1. same_target E q q1 \<and> e_handle E t kk q1 = Forwarded p q')"
  shows "(if exempted E r q then \<exists>q1. e_leaf E (DeleteHeaders (identityHeadersToStrip L prov)) q = Inr q1 else ok) \<and>
    (\<exists>q1. same_target E q q1 \<and> e_handle E hs k q1 = Forwarded p q')"
proof (cases "exemptPathMatchers (rt_PathRules r) = []")
  case True
  with fwd step [of hs k] show ?thesis by (simp add: buildPathAuthExemption_def exempted_def)
next
  case False
  let ?ps = "exemptPathMatchers (rt_PathRules r)"
  let ?del = "DeleteHeaders (identityHeadersToStrip L prov)"
  let ?rest = "\<lambda>x. (if e_path E ?ps x then e_handle E hs k x else e_handle E [auth] (e_handle E hs k) x)"
  let ?gated = "Subroute [Inner [[MNot (MPath ?ps)]] [auth]] # hs"
  have nil: "e_serve E [] kk = kk" for kk by (simp add: serve_Nil fun_eq_iff)
  have rest: "e_handle E ?gated k = ?rest"
    by (simp add: fun_eq_iff handle_sub serve_Cons match_sets_def nil)
  from fwd False have "e_handle E (Subroute [Inner [[MPath ?ps]] [?del]] # ?gated) k q = Forwarded p q'"
    by (simp add: buildPathAuthExemption_def Let_def)
  then have f: "(if e_path E ?ps q then e_handle E [?del] (e_serve E [] ?rest) q else ?rest q) = Forwarded p q'"
    unfolding handle_sub [of "[Inner [[MPath ?ps]] [?del]]"] rest
    by (simp add: serve_Cons match_sets_def nil split: if_splits)
  show ?thesis
  proof (cases "e_path E ?ps q")
    case True
    with f have "e_handle E [?del] (e_serve E [] ?rest) q = Forwarded p q'" by simp
    then obtain q1 where q1: "e_leaf E ?del q = Inr q1" "e_handle E [] (e_serve E [] ?rest) q1 = Forwarded p q'"
      by (rule past_leaf) auto
    then have "same_target E q q1" "e_handle E hs k q1 = Forwarded p q'"
      using True leaf_same_target keeps_path by (auto simp: handle_Nil serve_Nil)
    with q1(1) True False show ?thesis by (auto simp: exempted_def)
  next
    case False
    with f have "e_handle E [auth] (e_handle E hs k) q = Forwarded p q'" by simp
    from step [OF this] False show ?thesis by (auto simp: exempted_def handle_Nil)
  qed
qed

lemma past_auth:
  assumes "auth_stage_of L opts r = Proceed auth prov" "e_handle E (auth @ hs) k q = Forwarded p q'"
  obtains q1 where "auth_open E L opts r q" "same_target E q q1" "e_handle E hs k q1 = Forwarded p q'"
proof -
  let ?ba = "BasicAuthH (rt_BasicAuth r) (realm_of r)"
  have basic: "(\<exists>q1. e_leaf E ?ba q = Inr q1) \<and> (\<exists>q1. same_target E q q1 \<and> e_handle E t kk q1 = Forwarded p q')"
    if "e_handle E (?ba # t) kk q = Forwarded p q'" for t kk
    using past_leaf [OF that] leaf_same_target by (metis is_proxy.simps is_subroute.simps)
  have fwd: "verified_by E L pv q \<and> (\<exists>q1. same_target E q q1 \<and> e_handle E t kk q1 = Forwarded p q')"
    if "e_handle E (buildForwardAuthGate L pv # t) kk q = Forwarded p q'" for t kk pv
    using past_forward_gate [OF that] by metis
  have "auth_open E L opts r q \<and> (\<exists>q1. same_target E q q1 \<and> e_handle E hs k q1 = Forwarded p q')"
  proof (cases "rt_AuthMode r = ''basic''")
    case True
    with assms(1) have "auth = buildPathAuthExemption L ?ba (rt_PathRules r) None"
      by (simp add: auth_stage_of_def)
    with assms(2) past_exemption [of L ?ba r None hs k q p q', OF _ basic] True show ?thesis
      by (simp add: auth_open_def)
  next
    case nb: False
    show ?thesis
    proof (cases "rt_AuthMode r = ''forward_auth''")
      case True
      with nb assms(1) obtain pv where pv:
        "gm_get (bo_ForwardAuthProviders opts) (fa_ProviderName (rt_ForwardAuth r)) = Some pv"
        "auth = buildPathAuthExemption L (buildForwardAuthGate L pv) (rt_PathRules r) (Some pv)"
        by (auto simp: auth_stage_of_def split: option.splits)
      with True nb assms(2) past_exemption [of L "buildForwardAuthGate L pv" r "Some pv" hs k q p q', OF _ fwd]
      show ?thesis by (simp add: auth_open_def)
    next
      case False
      with nb assms have "auth_open E L opts r q" "e_handle E hs k q = Forwarded p q'"
        by (auto simp: auth_stage_of_def auth_open_def)
      then show ?thesis by (metis same_target_refl)
    qed
  qed
  then show ?thesis using that by blast
qed

text \<open>The routes of the path-rules subroute: the first rule that matches decides.\<close>

lemma past_path_auth:
  assumes "e_handle E ((case pr_BasicAuth pr of None \<Rightarrow> [] | Some ba \<Rightarrow> [BasicAuthH ba (realm_of r)]) @ auth @ tail) k q
      = Forwarded p q'"
    and "(auth, ok) = (case pr_ForwardAuth pr of
             None \<Rightarrow> ([], True)
           | Some fa \<Rightarrow> (case path_forward_auth L opts (fa_ProviderName fa) of (gate, ok) \<Rightarrow> ([gate], ok)))"
  shows "ok \<and> path_auth_open E L opts r pr q \<and> (\<exists>q1. same_target E q q1 \<and> e_handle E tail k q1 = Forwarded p q')"
proof -
  obtain q1 where q1: "same_target E q q1" "e_handle E (auth @ tail) k q1 = Forwarded p q'"
    "\<forall>ba. pr_BasicAuth pr = Some ba \<longrightarrow> (\<exists>q2. e_leaf E (BasicAuthH ba (realm_of r)) q = Inr q2)"
  proof (cases "pr_BasicAuth pr")
    case None
    with assms(1) that [of q] show ?thesis by simp
  next
    case (Some ba)
    with assms(1) have "e_handle E (BasicAuthH ba (realm_of r) # auth @ tail) k q = Forwarded p q'" by simp
    then show ?thesis by (rule past_leaf) (use Some that leaf_same_target in auto)
  qed
  show ?thesis
  proof (cases "pr_ForwardAuth pr")
    case None
    with assms(2) have "auth = []" "ok" by simp_all
    with q1 None show ?thesis by (auto simp: path_auth_open_def)
  next
    case (Some fa)
    show ?thesis
    proof (cases "gm_get (bo_ForwardAuthProviders opts) (fa_ProviderName fa)")
      case None
      with Some assms(2) have "auth = [buildForwardAuthDenyHandler L (fa_ProviderName fa)]"
        by (simp add: path_forward_auth_def)
      with q1(2) show ?thesis by (simp add: buildForwardAuthDenyHandler_def)
    next
      case pv: (Some pv)
      with Some assms(2) have a: "auth = [buildForwardAuthGate L pv]" "ok" by (simp_all add: path_forward_auth_def)
      with q1(2) have "e_handle E (buildForwardAuthGate L pv # tail) k q1 = Forwarded p q'" by simp
      then obtain q2 where q2: "verified_by E L pv q1" "same_target E q1 q2" "e_handle E tail k q2 = Forwarded p q'"
        by (rule past_forward_gate)
      have "path_auth_open E L opts r pr q"
        unfolding path_auth_open_def using q1(1,3) q2(1) Some pv by auto
      moreover have "same_target E q q2" by (rule same_target_trans [OF q1(1) q2(2)])
      ultimately show ?thesis using q2(3) a(2) by blast
    qed
  qed
qed

lemma rule_route_open:
  assumes rr: "path_route L (rt_ID r) (\<lambda>c. BasicAuthH c (realm_of r)) (path_forward_auth L opts) (path_proxy L r proxy) pr
      = Inr (Inner sets hs)"
    and proxy: "is_proxy proxy" and fwd: "e_handle E hs k q = Forwarded p q'"
  shows "rule_open E L opts r pr q \<and> path_proxy L r proxy pr = Inr p"
proof -
  obtain auth ok where ao: "(auth, ok) = (case pr_ForwardAuth pr of
             None \<Rightarrow> ([], True)
           | Some fa \<Rightarrow> (case path_forward_auth L opts (fa_ProviderName fa) of (gate, ok) \<Rightarrow> ([gate], ok)))"
    by (metis surj_pair)
  let ?ba = "case pr_BasicAuth pr of None \<Rightarrow> [] | Some ba \<Rightarrow> [BasicAuthH ba (realm_of r)]"
  let ?rl = "buildPathRateLimitHandler L (rt_ID r) (pr_PathPrefix pr) (pr_RateLimit pr)"
  have "\<exists>tail. hs = ip_gate (pr_IPFilter pr) @ ?rl @ ?ba @ auth @ tail \<and>
      (ok \<longrightarrow> (\<exists>rd. pr_Redirect pr = Some rd \<and> tail = [path_redirect rd]) \<or>
        (\<exists>px. pr_Redirect pr = None \<and> path_proxy L r proxy pr = Inr px \<and> tail = [px]))"
    using rr unfolding path_route_def ao [symmetric]
    by (auto simp: path_gates_def Let_def split: if_splits option.splits sum.splits)
  then obtain tail where tail: "hs = ip_gate (pr_IPFilter pr) @ ?rl @ ?ba @ auth @ tail"
    "ok \<longrightarrow> (\<exists>rd. pr_Redirect pr = Some rd \<and> tail = [path_redirect rd]) \<or>
        (\<exists>px. pr_Redirect pr = None \<and> path_proxy L r proxy pr = Inr px \<and> tail = [px])" by blast
  have 1: "ip_allowed E (pr_IPFilter pr) q" "e_handle E (?rl @ ?ba @ auth @ tail) k q = Forwarded p q'"
    using past_ip_gate fwd tail(1) by blast+
  have "\<forall>h \<in> set ?rl. only_decides h" using rate_limit_decides by (auto simp: buildPathRateLimitHandler_def split: option.splits)
  with past_deciders [OF 1(2)] have 2: "\<forall>h \<in> set ?rl. e_leaf E h q = Inr q"
    "e_handle E (?ba @ auth @ tail) k q = Forwarded p q'" by blast+
  from past_path_auth [OF 2(2) ao] obtain q1 where 3: "ok" "path_auth_open E L opts r pr q"
    "e_handle E tail k q1 = Forwarded p q'" by blast
  from tail(2) 3(1,3) obtain px where px: "pr_Redirect pr = None" "path_proxy L r proxy pr = Inr px" "tail = [px]"
    by (auto simp: path_redirect_def)
  with 3(3) proxy_ends path_proxy_proxy [OF proxy px(2)] have "p = px" by simp
  with px 1 2 3 show ?thesis by (simp add: rule_open_def)
qed

lemma serve_rules:
  assumes "collect (map (path_route L (rt_ID r) (\<lambda>c. BasicAuthH c (realm_of r)) (path_forward_auth L opts)
      (path_proxy L r proxy)) rules) = Inr inner"
    and "is_proxy proxy" and "e_serve E (inner @ [Inner [] [proxy]]) k q = Forwarded p q'"
  shows "case List.find (\<lambda>pr. e_path E (pathMatchers pr) q) rules of
      None \<Rightarrow> p = proxy
    | Some pr \<Rightarrow> rule_open E L opts r pr q \<and> path_proxy L r proxy pr = Inr p"
  using assms
proof (induction rules arbitrary: inner)
  case Nil
  then show ?case by (simp add: serve_Cons match_sets_def proxy_ends)
next
  case (Cons pr rules)
  let ?rr = "path_route L (rt_ID r) (\<lambda>c. BasicAuthH c (realm_of r)) (path_forward_auth L opts) (path_proxy L r proxy)"
  from Cons.prems(1) obtain i rest where i: "?rr pr = Inr i" "collect (map ?rr rules) = Inr rest" "inner = i # rest"
    by (auto split: sum.splits)
  from i(1) obtain hs where hs: "i = Inner [[MPath (pathMatchers pr)]] hs"
    by (auto simp: path_route_def Let_def split: prod.splits if_splits option.splits sum.splits)
  show ?case
  proof (cases "e_path E (pathMatchers pr) q")
    case True
    with Cons.prems(3) i(3) hs have "e_handle E hs (e_serve E (rest @ [Inner [] [proxy]]) k) q = Forwarded p q'"
      by (simp add: serve_Cons match_sets_def)
    from rule_route_open [OF i(1) [unfolded hs] Cons.prems(2) this] True show ?thesis by simp
  next
    case False
    with Cons.prems(3) i(3) hs have "e_serve E (rest @ [Inner [] [proxy]]) k q = Forwarded p q'"
      by (simp add: serve_Cons match_sets_def)
    from Cons.IH [OF i(2) Cons.prems(2) this] False show ?thesis by simp
  qed
qed

lemma chain_end_open:
  assumes "chain_end L opts r proxy = Inr t" "is_proxy proxy" "e_handle E [t] k q = Forwarded p q'"
  shows "path_stage_open E L opts r proxy p q"
proof (cases "rt_PathRules r = []")
  case True
  with assms have "t = proxy" by (simp add: chain_end_def)
  with assms True show ?thesis
    by (simp add: proxy_ends path_stage_open_def deciding_rule_def SortPathRulesByPrefixLenDesc_def)
next
  case False
  with assms(1) obtain inner where i: "t = Subroute (inner @ [Inner [] [proxy]])"
    "collect (map (path_route L (rt_ID r) (\<lambda>c. BasicAuthH c (realm_of r)) (path_forward_auth L opts)
      (path_proxy L r proxy)) (SortPathRulesByPrefixLenDesc (rt_PathRules r))) = Inr inner"
    by (auto simp: chain_end_def buildPathRulesSubroute_def split: sum.splits)
  with assms(3) have "e_serve E (inner @ [Inner [] [proxy]]) (e_handle E [] k) q = Forwarded p q'"
    by (simp add: handle_sub)
  from serve_rules [OF i(2) assms(2) this] show ?thesis by (simp add: path_stage_open_def deciding_rule_def)
qed

end

end
