(* ===== verification/CaddyProps.thy ===== *)
theory CaddyProps
  imports CaddyGates
begin

text \<open>
  The emitted configuration as a whole: every route of the two servers is sound for the stored
  route it came from, so a forwarded request was admitted by that route.
\<close>

section \<open>Admission\<close>

definition maintenance_open :: "'r engine \<Rightarrow> Route \<Rightarrow> 'r \<Rightarrow> bool" where
  "maintenance_open E r q \<longleftrightarrow>
     (\<forall>mc. rt_MaintenanceConfig r = Some mc \<longrightarrow> mc_BypassIPs mc \<noteq> [] \<and> e_ip E (mc_BypassIPs mc) q)"

text \<open>The provider's own endpoint, published below its prefix on the host of the route.\<close>

definition to_provider :: "'r engine \<Rightarrow> golib \<Rightarrow> buildOpts \<Rightarrow> Route \<Rightarrow> handler \<Rightarrow> 'r \<Rightarrow> bool" where
  "to_provider E L opts r p q \<longleftrightarrow>
     rt_AuthMode r = ''forward_auth'' \<and>
     (\<exists>prov. gm_get (bo_ForwardAuthProviders opts) (fa_ProviderName (rt_ForwardAuth r)) = Some prov \<and>
        fp_AuthPassthroughPrefix prov \<noteq> [] \<and>
        e_path E [trimSuffix (fp_AuthPassthroughPrefix prov) ''/'' @ ''/*''] q \<and>
        p = PassthroughProxy (forwardAuthDial L (fp_VerifyURL prov)) (host_override L prov) (verify_tls L prov))"

definition to_backend :: "'r engine \<Rightarrow> golib \<Rightarrow> buildOpts \<Rightarrow> Route \<Rightarrow> handler \<Rightarrow> 'r \<Rightarrow> bool" where
  "to_backend E L opts r p q \<longleftrightarrow>
     auth_open E L opts r q \<and>
     (\<forall>h \<in> set (waf_and_headers L opts r). \<exists>qa qb. same_target E q qa \<and> e_leaf E h qa = Inr qb) \<and>
     (\<exists>proxy q1. route_proxy L r = Inr proxy \<and> same_target E q q1 \<and> path_stage_open E L opts r proxy p q1)"

definition admitted :: "'r engine \<Rightarrow> golib \<Rightarrow> buildOpts \<Rightarrow> Route \<Rightarrow> handler \<Rightarrow> 'r \<Rightarrow> bool" where
  "admitted E L opts r p q \<longleftrightarrow>
     e_host E (AllHosts r) q \<and> rt_RedirectConfig r = None \<and> maintenance_open E r q \<and>
     perimeter_open E L opts r q \<and> (to_provider E L opts r p q \<or> to_backend E L opts r p q)"

text \<open>The same without the maintenance gate, which the window adds afterwards.\<close>

definition admitted_live :: "'r engine \<Rightarrow> golib \<Rightarrow> buildOpts \<Rightarrow> Route \<Rightarrow> handler \<Rightarrow> 'r \<Rightarrow> bool" where
  "admitted_live E L opts r p q \<longleftrightarrow>
     e_host E (AllHosts r) q \<and> perimeter_open E L opts r q \<and>
     (to_provider E L opts r p q \<or> to_backend E L opts r p q)"

definition sound :: "'r engine \<Rightarrow> (handler \<Rightarrow> 'r \<Rightarrow> bool) \<Rightarrow> httpRoute \<Rightarrow> bool" where
  "sound E P hr \<longleftrightarrow>
     (\<forall>q k p q'. match_top E hr q \<longrightarrow> e_handle E (hr_Handle hr) k q = Forwarded p q' \<longrightarrow> P p q)"

definition sound_all :: "'r engine \<Rightarrow> (handler \<Rightarrow> 'r \<Rightarrow> bool) \<Rightarrow> httpRoute list \<Rightarrow> bool" where
  "sound_all E P hrs \<longleftrightarrow> (\<forall>hr \<in> set hrs. sound E P hr)"

lemma sound_all_simps [simp]:
  "sound_all E P []" "sound_all E P (hr # hrs) \<longleftrightarrow> sound E P hr \<and> sound_all E P hrs"
  "sound_all E P (hrs @ hrs') \<longleftrightarrow> sound_all E P hrs \<and> sound_all E P hrs'"
  by (auto simp: sound_all_def)

lemma sound_mono: "sound E P hr \<Longrightarrow> (\<And>p q. P p q \<Longrightarrow> P' p q) \<Longrightarrow> sound E P' hr"
  unfolding sound_def by blast

lemma sound_all_mono: "sound_all E P hrs \<Longrightarrow> (\<And>p q. P p q \<Longrightarrow> P' p q) \<Longrightarrow> sound_all E P' hrs"
  unfolding sound_all_def using sound_mono by blast

lemma match_host_only [simp]:
  "hr_Match hr = [host_only hosts] \<Longrightarrow> match_top E hr q \<longleftrightarrow> hosts = [] \<or> e_host E hosts q"
  by (simp add: match_top_def host_only_def)

lemma AllHosts_not_Nil [simp]: "AllHosts r \<noteq> []"
  by (simp add: AllHosts_def)

definition ungated :: "httpRoute \<Rightarrow> bool" where
  "ungated hr \<longleftrightarrow> (\<forall>m \<in> set (hr_Match hr). ms_ClientIP m = None)"

lemma match_gate_route:
  assumes "match_top E (gate_route ips hr) q" "ungated hr"
  shows "match_top E hr q \<and> e_ip E ips q"
proof (cases "hr_Match hr = []")
  case True
  with assms(1) show ?thesis by (simp add: gate_route_def match_top_def)
next
  case False
  then obtain m where "m \<in> set (hr_Match hr)" "ms_Host m = [] \<or> e_host E (ms_Host m) q"
    "ms_Path m = [] \<or> e_path E (ms_Path m) q" "e_ip E ips q"
    using assms(1) by (auto simp: gate_route_def match_top_def)
  with assms(2) show ?thesis by (auto simp: match_top_def ungated_def)
qed

lemma sound_gate_route:
  assumes "sound E P hr" "ungated hr"
  shows "sound E (\<lambda>p q. P p q \<and> e_ip E ips q) (gate_route ips hr)"
  unfolding sound_def
proof (intro allI impI)
  fix q k p q'
  assume m: "match_top E (gate_route ips hr) q" and h: "e_handle E (hr_Handle (gate_route ips hr)) k q = Forwarded p q'"
  have "hr_Handle (gate_route ips hr) = hr_Handle hr" by (simp add: gate_route_def)
  with assms(1) h match_gate_route [OF m assms(2)] show "P p q \<and> e_ip E ips q" by (metis sound_def)
qed

section \<open>Soundness of the emitted routes\<close>

context caddy
begin

lemma sound_static:
  assumes "hr_Handle hr = gs @ [StaticResponse c hdrs b]" "\<forall>g \<in> set gs. only_decides g"
  shows "sound E P hr"
proof -
  have "e_handle E (gs @ [StaticResponse c hdrs b]) k q \<noteq> Forwarded p q'" for k q p q'
    using past_deciders [OF _ assms(2)] static_ends by metis
  then show ?thesis by (simp add: sound_def assms(1))
qed

lemma sound_redirect_hop: "sound E P (buildRedirectRoute r)"
  by (rule sound_static) (auto simp: buildRedirectRoute_def dest: country_decides)

lemma sound_503: "only_decides (mw_metricsHandler w) \<Longrightarrow> sound E P (buildMaintenance503Route w)"
  by (rule sound_static [where gs = "[mw_metricsHandler w]"]) (auto simp: buildMaintenance503Route_def)

lemma sound_catch_all: "sound E P (catchAllRoute opts)"
  by (rule sound_static) (auto simp: catchAllRoute_def dest: crowdsec_decides)

lemma sound_redirect_state:
  assumes "only_decides m"
  shows "sound E P (host_route r (buildRedirectStateHandler m rc))"
proof -
  have "e_handle E [m, StaticResponse c hdrs b] k q \<noteq> Forwarded p q'" for c hdrs b k q p q'
    using past_decider [OF _ assms] static_ends by metis
  then show ?thesis
    by (simp add: sound_def host_route_def buildRedirectStateHandler_def Let_def handle_sub serve_Cons match_sets_def)
qed

lemma past_chain_head:
  assumes "e_handle E [wrapInSubroute (chain_head L opts r @ hs)] k q = Forwarded p q'"
  shows "perimeter_open E L opts r q \<and> e_handle E hs k q = Forwarded p q'"
proof -
  have "e_handle E (metrics_handler L opts r # perimeterGateHandlers L r opts @ hs) k q = Forwarded p q'"
    using assms by (simp add: handle_wrap chain_head_perimeter)
  moreover have "only_decides (metrics_handler L opts r)" by (simp add: metrics_handler_def)
  ultimately have "e_handle E (perimeterGateHandlers L r opts @ hs) k q = Forwarded p q'"
    using past_decider by blast
  then show ?thesis by (rule past_perimeter)
qed

lemma sound_deny: "sound E P (host_route r (wrapInSubroute (chain_head L opts r @ [buildForwardAuthDenyHandler L n])))"
proof -
  have "e_handle E [wrapInSubroute (chain_head L opts r @ [buildForwardAuthDenyHandler L n])] k q \<noteq> Forwarded p q'"
    for k q p q'
    using past_chain_head static_ends unfolding buildForwardAuthDenyHandler_def by blast
  then show ?thesis by (simp add: sound_def host_route_def)
qed

lemma sound_served:
  assumes "route_proxy L r = Inr proxy" "auth_stage_of L opts r = Proceed auth prov" "chain_end L opts r proxy = Inr t"
  shows "sound E (admitted_live E L opts r)
    (host_route r (wrapInSubroute (chain_head L opts r @ auth @ waf_and_headers L opts r @ [t])))"
  unfolding sound_def
proof (intro allI impI)
  fix q k p q'
  let ?r = "host_route r (wrapInSubroute (chain_head L opts r @ auth @ waf_and_headers L opts r @ [t]))"
  assume m: "match_top E ?r q" and "e_handle E (hr_Handle ?r) k q = Forwarded p q'"
  then have "e_handle E [wrapInSubroute (chain_head L opts r @ auth @ waf_and_headers L opts r @ [t])] k q = Forwarded p q'"
    by (simp add: host_route_def)
  from past_chain_head [OF this] have 1: "perimeter_open E L opts r q"
    "e_handle E (auth @ waf_and_headers L opts r @ [t]) k q = Forwarded p q'" by blast+
  obtain q1 where 2: "auth_open E L opts r q" "same_target E q q1"
    "e_handle E (waf_and_headers L opts r @ [t]) k q1 = Forwarded p q'"
    using past_auth [OF assms(2) 1(2)] .
  have "\<forall>h \<in> set (waf_and_headers L opts r). \<not> is_subroute h \<and> \<not> is_proxy h"
    by (auto simp: waf_and_headers_def buildWAFHandler_def buildHeadersHandler_def)
  from past_leaves [OF 2(3) this] obtain q2 where 3: "e_handle E [t] k q2 = Forwarded p q'" "same_target E q1 q2"
    "\<forall>h \<in> set (waf_and_headers L opts r). \<exists>qa qb. same_target E q1 qa \<and> e_leaf E h qa = Inr qb" .
  have "path_stage_open E L opts r proxy p q2"
    by (rule chain_end_open [OF assms(3) route_proxy_proxy [OF assms(1)] 3(1)])
  moreover have "same_target E q q2" by (rule same_target_trans [OF 2(2) 3(2)])
  moreover have "\<forall>h \<in> set (waf_and_headers L opts r). \<exists>qa qb. same_target E q qa \<and> e_leaf E h qa = Inr qb"
    using 3(3) same_target_trans [OF 2(2)] by metis
  ultimately have "to_backend E L opts r p q" unfolding to_backend_def using 2(1) assms(1) by blast
  with m 1(1) show "admitted_live E L opts r p q" by (simp add: admitted_live_def host_route_def)
qed

lemma sound_passthrough:
  assumes "auth_stage_of L opts r = Proceed auth prov"
  shows "sound_all E (admitted_live E L opts r) (passthrough_routes L opts r prov)"
proof (cases prov)
  case (Some pv)
  with assms have pv: "rt_AuthMode r = ''forward_auth''"
    "gm_get (bo_ForwardAuthProviders opts) (fa_ProviderName (rt_ForwardAuth r)) = Some pv"
    by (auto simp: auth_stage_of_def split: if_splits option.splits)
  let ?pp = "PassthroughProxy (forwardAuthDial L (fp_VerifyURL pv)) (host_override L pv) (verify_tls L pv)"
  have "perimeter_open E L opts r q \<and> p = ?pp"
    if "e_handle E [wrapInSubroute (perimeterGateHandlers L r opts @ [?pp])] k q = Forwarded p q'" for k q p q'
    using past_perimeter [of L r opts "[?pp]" k q p q'] that proxy_ends [of ?pp] by (auto simp: handle_wrap)
  then show ?thesis
    using Some pv
    by (fastforce simp: passthrough_routes_def buildAuthPassthroughRoute_def sound_def admitted_live_def to_provider_def
        match_top_def)
qed (simp add: passthrough_routes_def)

text \<open>The maintenance window gates what the loop body appended since it was opened.\<close>

lemma sound_gated:
  assumes "sound_all E P new" "\<forall>hr \<in> set new. ungated hr" "n = length old"
  shows "\<exists>new'. gateRoutesBehindBypass (old @ new) n ips = old @ new' \<and>
    sound_all E (\<lambda>p q. P p q \<and> ips \<noteq> [] \<and> e_ip E ips q) new'"
proof (cases "ips = []")
  case True
  with assms(3) show ?thesis by (intro exI [of _ "[]"]) (simp add: gateRoutesBehindBypass_def)
next
  case False
  have "sound_all E (\<lambda>p q. P p q \<and> e_ip E ips q) (map (gate_route ips) new)"
    using assms(1,2) by (auto simp: sound_all_def intro: sound_gate_route)
  with False assms(3) show ?thesis
    by (intro exI [of _ "map (gate_route ips) new"]) (simp add: gateRoutesBehindBypass_def)
qed

lemma close_sound:
  assumes w: "bs_window s = openMaintenanceWindow r (metrics_handler L opts r) opts (length h0) (length hs0)"
    and b: "bs_http s = h0 @ newh" "bs_https s = hs0 @ newhs"
    and snd: "sound_all E P newh" "sound_all E P newhs"
    and u: "\<forall>hr \<in> set (newh @ newhs). ungated hr" and live: "\<not> rt_Disabled r"
    and hop: "rt_TLSEnabled r \<and> rt_RedirectToHTTPS r \<Longrightarrow> sound_all E (\<lambda>_ _. False) newh"
    and notls: "\<not> rt_TLSEnabled r \<Longrightarrow> newhs = []"
  shows "\<exists>bh bhs. bs_http (closeMaintenanceWindow s) = h0 @ bh \<and> bs_https (closeMaintenanceWindow s) = hs0 @ bhs \<and>
    sound_all E (\<lambda>p q. P p q \<and> maintenance_open E r q) (bh @ bhs)"
proof (cases "rt_MaintenanceConfig r")
  case None
  with w have "closeMaintenanceWindow s = s" by (simp add: closeMaintenanceWindow_def openMaintenanceWindow_def)
  with None b snd show ?thesis by (simp add: maintenance_open_def)
next
  case (Some mc)
  let ?P = "\<lambda>p q. P p q \<and> maintenance_open E r q" and ?ips = "mc_BypassIPs mc"
  let ?G = "\<lambda>p q. P p q \<and> ?ips \<noteq> [] \<and> e_ip E ?ips q"
  from w Some live obtain wd where wd: "bs_window s = Some wd" "mw_httpFrom wd = length h0" "mw_httpsFrom wd = length hs0"
    "mw_bypassIPs wd = ?ips" "mw_tlsEnabled wd = rt_TLSEnabled r"
    "mw_httpCarriesRedirectOnly wd = (rt_TLSEnabled r \<and> rt_RedirectToHTTPS r)"
    "mw_metricsHandler wd = metrics_handler L opts r"
    by (simp add: openMaintenanceWindow_def Let_def)
  have resp: "sound E Q (buildMaintenance503Route wd)" for Q
    by (rule sound_503) (simp add: wd metrics_handler_def)
  have G: "?G p q \<Longrightarrow> ?P p q" for p q by (simp add: maintenance_open_def Some)
  obtain gh where gh: "gateRoutesBehindBypass (h0 @ newh) (length h0) ?ips = h0 @ gh" "sound_all E ?G gh"
    using sound_gated [OF snd(1) _ refl, of h0 ?ips] u by auto
  obtain ghs where ghs: "gateRoutesBehindBypass (hs0 @ newhs) (length hs0) ?ips = hs0 @ ghs" "sound_all E ?G ghs"
    using sound_gated [OF snd(2) _ refl, of hs0 ?ips] u by auto
  let ?bh = "if rt_TLSEnabled r \<and> rt_RedirectToHTTPS r then newh else gh @ [buildMaintenance503Route wd]"
  let ?bhs = "if rt_TLSEnabled r then ghs @ [buildMaintenance503Route wd] else newhs"
  have "sound_all E ?P ?bh"
    using sound_all_mono [OF hop, of ?P] sound_all_mono [OF gh(2) G] resp by auto
  moreover have "sound_all E ?P ?bhs"
    using notls sound_all_mono [OF ghs(2) G] resp by auto
  moreover have "bs_http (closeMaintenanceWindow s) = h0 @ ?bh" "bs_https (closeMaintenanceWindow s) = hs0 @ ?bhs"
    using wd b gh(1) ghs(1) by (simp_all add: closeMaintenanceWindow_def)
  ultimately show ?thesis by (intro exI [of _ ?bh] exI [of _ ?bhs]) simp
qed

lemma add_subjects_routes [simp]:
  "bs_http (add_subjects r hs s) = bs_http s" "bs_https (add_subjects r hs s) = bs_https s"
  "bs_window (add_subjects r hs s) = bs_window s"
  by (simp_all add: add_subjects_def)

lemma subjects_routes [simp]:
  "bs_http (route_subjects L opts r s) = bs_http s" "bs_https (route_subjects L opts r s) = bs_https s"
  "bs_window (route_subjects L opts r s) = bs_window s"
  "bs_http (deny_subjects opts r s) = bs_http s" "bs_https (deny_subjects opts r s) = bs_https s"
  "bs_window (deny_subjects opts r s) = bs_window s"
  by (simp_all add: route_subjects_def deny_subjects_def)

lemma ungated_emitted [simp]:
  "ungated (buildRedirectRoute r)" "ungated (host_route r h)" "ungated (buildAuthPassthroughRoute L p hs gs)"
  by (simp_all add: ungated_def buildRedirectRoute_def host_route_def buildAuthPassthroughRoute_def host_only_def)

lemma ungated_passthrough: "hr \<in> set (passthrough_routes L opts r prov) \<Longrightarrow> ungated hr"
  by (auto simp: passthrough_routes_def split: option.splits if_splits)

lemma serve_step_sound:
  assumes "route_proxy L r = Inr proxy" "auth_stage_of L opts r = Proceed auth prov" "chain_end L opts r proxy = Inr t"
    and w: "bs_window s = openMaintenanceWindow r (metrics_handler L opts r) opts (length (bs_http s)) (length (bs_https s))"
    and live: "\<not> rt_Disabled r"
  shows "\<exists>bh bhs. bs_http (serve_step L opts r auth prov t s) = bs_http s @ bh \<and>
    bs_https (serve_step L opts r auth prov t s) = bs_https s @ bhs \<and>
    sound_all E (\<lambda>p q. admitted_live E L opts r p q \<and> maintenance_open E r q) (bh @ bhs)"
proof -
  let ?route = "host_route r (wrapInSubroute (chain_head L opts r @ auth @ waf_and_headers L opts r @ [t]))"
  let ?routes = "passthrough_routes L opts r prov @ [?route]"
  let ?newh = "if rt_TLSEnabled r \<and> rt_RedirectToHTTPS r then [buildRedirectRoute r] else ?routes"
  let ?newhs = "if rt_TLSEnabled r then ?routes else []"
  have snd: "sound_all E (admitted_live E L opts r) ?routes"
    using sound_passthrough [OF assms(2)] sound_served [OF assms(1-3)] by simp
  have u: "\<forall>hr \<in> set (?newh @ ?newhs). ungated hr" using ungated_passthrough by auto
  let ?s = "route_subjects L opts r (append_routes ?newh ?newhs s)"
  have "\<exists>bh bhs. bs_http (closeMaintenanceWindow ?s) = bs_http s @ bh \<and>
      bs_https (closeMaintenanceWindow ?s) = bs_https s @ bhs \<and>
      sound_all E (\<lambda>p q. admitted_live E L opts r p q \<and> maintenance_open E r q) (bh @ bhs)"
  proof (rule close_sound [OF _ _ _ _ _ u live])
    show "sound_all E (admitted_live E L opts r) ?newh" using snd sound_redirect_hop by simp
    show "sound_all E (admitted_live E L opts r) ?newhs" using snd by simp
  qed (simp_all add: append_routes_def w sound_redirect_hop)
  then show ?thesis by (simp add: serve_step_def Let_def)
qed

lemma deny_step_sound:
  assumes w: "bs_window s = openMaintenanceWindow r (metrics_handler L opts r) opts (length (bs_http s)) (length (bs_https s))"
    and live: "\<not> rt_Disabled r"
  shows "\<exists>bh bhs. bs_http (deny_step L opts r (buildForwardAuthDenyHandler L n) s) = bs_http s @ bh \<and>
    bs_https (deny_step L opts r (buildForwardAuthDenyHandler L n) s) = bs_https s @ bhs \<and>
    sound_all E (\<lambda>_ _. False) (bh @ bhs)"
proof -
  let ?route = "host_route r (wrapInSubroute (chain_head L opts r @ [buildForwardAuthDenyHandler L n]))"
  let ?newhs = "if rt_TLSEnabled r then [?route] else []"
  let ?s = "deny_subjects opts r (append_routes [?route] ?newhs s)"
  have "\<exists>bh bhs. bs_http (closeMaintenanceWindow ?s) = bs_http s @ bh \<and>
      bs_https (closeMaintenanceWindow ?s) = bs_https s @ bhs \<and>
      sound_all E (\<lambda>p q. False \<and> maintenance_open E r q) (bh @ bhs)"
    by (rule close_sound [where newh = "[?route]" and newhs = ?newhs, OF _ _ _ _ _ _ live])
      (simp_all add: append_routes_def w sound_deny)
  then show ?thesis by (simp add: deny_step_def Let_def)
qed

lemma route_step_sound:
  assumes step: "route_step L opts r s = Inr s'" and live: "\<not> rt_Disabled r"
    and excl: "rt_RedirectConfig r = None \<or> rt_MaintenanceConfig r = None"
  shows "\<exists>bh bhs. bs_http s' = bs_http s @ bh \<and> bs_https s' = bs_https s @ bhs \<and>
    sound_all E (admitted E L opts r) (bh @ bhs)"
proof -
  define s1 where "s1 = s\<lparr>bs_window := openMaintenanceWindow r (metrics_handler L opts r) opts
    (length (bs_http s)) (length (bs_https s))\<rparr>"
  have s1: "bs_http s1 = bs_http s" "bs_https s1 = bs_https s"
    "bs_window s1 = openMaintenanceWindow r (metrics_handler L opts r) opts (length (bs_http s1)) (length (bs_https s1))"
    by (simp_all add: s1_def)
  from step obtain proxy where px: "route_proxy L r = Inr proxy" by (auto simp: route_step_def split: sum.splits)
  have never: "\<exists>bh bhs. A = B @ bh \<and> C = D @ bhs \<and> sound_all E (admitted E L opts r) (bh @ bhs)"
    if "\<exists>bh bhs. A = B @ bh \<and> C = D @ bhs \<and> sound_all E (\<lambda>_ _. False) (bh @ bhs)" for A B C D
    using that sound_all_mono [of E "\<lambda>_ _. False" _ "admitted E L opts r"] by blast
  show ?thesis
  proof (cases "rt_RedirectConfig r")
    case (Some rc)
    let ?route = "host_route r (buildRedirectStateHandler (metrics_handler L opts r) rc)"
    have "s' = redirect_step L opts r rc s1"
      using step px Some live by (simp add: route_step_def s1_def Let_def)
    moreover have "sound E Q ?route" for Q by (rule sound_redirect_state) (simp add: metrics_handler_def)
    ultimately show ?thesis
      using sound_redirect_hop by (simp add: redirect_step_def append_routes_def Let_def s1)
  next
    case None
    show ?thesis
    proof (cases "auth_stage_of L opts r")
      case (Deny d)
      then obtain n where "d = buildForwardAuthDenyHandler L n"
        by (auto simp: auth_stage_of_def split: if_splits option.splits)
      moreover have "s' = deny_step L opts r d s1"
        using step px None Deny live by (simp add: route_step_def s1_def Let_def)
      ultimately show ?thesis using deny_step_sound [OF s1(3) live] never s1(1,2) by simp
    next
      case (Proceed auth prov)
      then obtain t where t: "chain_end L opts r proxy = Inr t" "s' = serve_step L opts r auth prov t s1"
        using step px None live by (auto simp: route_step_def s1_def Let_def split: sum.splits)
      obtain bh bhs where b: "bs_http s' = bs_http s @ bh" "bs_https s' = bs_https s @ bhs"
        "sound_all E (\<lambda>p q. admitted_live E L opts r p q \<and> maintenance_open E r q) (bh @ bhs)"
        using serve_step_sound [OF px Proceed t(1) s1(3) live] t(2) s1(1,2) by auto
      have "admitted_live E L opts r p q \<and> maintenance_open E r q \<Longrightarrow> admitted E L opts r p q" for p q
        by (simp add: admitted_live_def admitted_def None)
      with b sound_all_mono [OF b(3)] show ?thesis by blast
    qed
  qed
qed

lemma route_loop_sound:
  assumes "route_loop L opts rs s = Inr s'" "\<forall>r \<in> set rs. \<not> rt_Disabled r"
    and "\<forall>r \<in> set rs. rt_RedirectConfig r = None \<or> rt_MaintenanceConfig r = None"
  shows "\<exists>bh bhs. bs_http s' = bs_http s @ bh \<and> bs_https s' = bs_https s @ bhs \<and>
    sound_all E (\<lambda>p q. \<exists>r \<in> set rs. admitted E L opts r p q) (bh @ bhs)"
  using assms
proof (induction rs arbitrary: s)
  case (Cons r rs)
  from Cons.prems(1) obtain s1 where s1: "route_step L opts r s = Inr s1" "route_loop L opts rs s1 = Inr s'"
    by (auto split: sum.splits)
  obtain bh bhs where b: "bs_http s1 = bs_http s @ bh" "bs_https s1 = bs_https s @ bhs"
    "sound_all E (admitted E L opts r) (bh @ bhs)"
    using route_step_sound [OF s1(1)] Cons.prems(2,3) by auto
  obtain ch chs where c: "bs_http s' = bs_http s1 @ ch" "bs_https s' = bs_https s1 @ chs"
    "sound_all E (\<lambda>p q. \<exists>r \<in> set rs. admitted E L opts r p q) (ch @ chs)"
    using Cons.IH [OF s1(2)] Cons.prems(2,3) by auto
  let ?P = "\<lambda>p q. \<exists>r \<in> set (r # rs). admitted E L opts r p q"
  have "sound_all E ?P (bh @ bhs)" "sound_all E ?P (ch @ chs)"
    using sound_all_mono [OF b(3), of ?P] sound_all_mono [OF c(3), of ?P] by auto
  then have "sound_all E ?P ((bh @ ch) @ (bhs @ chs))" by simp
  with b c show ?case by (intro exI [of _ "bh @ ch"] exI [of _ "bhs @ chs"]) simp
qed simp

lemma top_sound:
  assumes "sound_all E P hrs" "e_top E hrs q = Forwarded p q'"
  shows "P p q"
  using assms
proof (induction hrs)
  case (Cons hr hrs)
  show ?case
  proof (cases "match_top E hr q")
    case True
    with Cons.prems have "sound E P hr"
      "e_handle E (hr_Handle hr) (if hr_Terminal hr then (\<lambda>_. Unanswered) else e_top E hrs) q = Forwarded p q'"
      by (simp_all add: top_Cons)
    with True show ?thesis unfolding sound_def by blast
  next
    case False
    with Cons show ?thesis by (simp add: top_Cons)
  qed
qed (simp add: top_Nil)

lemma config_sound:
  assumes build: "build_routes L opts (filterDisabledRoutes routes) = Inr cfg"
    and ok: "\<forall>r \<in> set routes. validate L r = None"
    and fwd: "e_top E (bs_http cfg) q = Forwarded p q' \<or> e_top E (bs_https cfg) q = Forwarded p q'"
  shows "\<exists>r \<in> set routes. \<not> rt_Disabled r \<and> admitted E L opts r p q"
proof -
  let ?rs = "filterDisabledRoutes routes" and ?P = "\<lambda>p q. \<exists>r \<in> set (filterDisabledRoutes routes). admitted E L opts r p q"
  obtain s where s: "route_loop L opts ?rs bs_init = Inr s" "bs_http cfg = bs_http s @ [catchAllRoute opts]"
    "bs_https cfg = (if bs_https s = [] then [] else bs_https s @ [catchAllRoute opts])"
    using build by (auto simp: build_routes_def split: sum.splits if_splits)
  have "\<forall>r \<in> set ?rs. rt_RedirectConfig r = None \<or> rt_MaintenanceConfig r = None"
    using ok validate_states_exclusive unfolding filterDisabledRoutes_def by (metis filter_is_subset subsetD)
  then obtain bh bhs where b: "bs_http s = bh" "bs_https s = bhs" "sound_all E ?P (bh @ bhs)"
    using route_loop_sound [OF s(1)] by (auto simp: filterDisabledRoutes_def bs_init_def)
  have "sound_all E ?P (bs_http cfg)" "sound_all E ?P (bs_https cfg)"
    using b s sound_catch_all by auto
  with fwd top_sound have "?P p q" by blast
  then show ?thesis by (auto simp: filterDisabledRoutes_def)
qed

end

section \<open>Properties\<close>

text \<open>
  C1: No request reaches a backend past its gates. Whenever the configuration built from a set of
  accepted routes forwards a request, over HTTP or HTTPS, an enabled route answers for the host
  and has admitted the request: the route is not a redirect; if it is in maintenance the client
  is on its bypass list; the rate limit, the country filter, the address filter and CrowdSec have
  all passed; and the request goes either to the identity provider below its own prefix, or to a
  pool of the route after the route's authentication (or an exempted path, with its identity
  headers deleted), the firewall and the gates of the path rule that decides for it.
\<close>

theorem forwarded_requests_admitted:
  assumes "caddy E"
    and "build_routes L opts (filterDisabledRoutes routes) = Inr cfg"
    and "\<forall>r \<in> set routes. validate L r = None"
    and "e_top E (bs_http cfg) q = Forwarded p q' \<or> e_top E (bs_https cfg) q = Forwarded p q'"
  shows "\<exists>r \<in> set routes. \<not> rt_Disabled r \<and> admitted E L opts r p q"
  by (rule caddy.config_sound [OF assms])

definition sample_opts :: buildOpts where
  "sample_opts = \<lparr>bo_ForwardAuthProviders = [], bo_CrowdSecKey = ''key'', bo_ManagedDomains = [],
     bo_NormalTrafficExcludePaths = [], bo_MaintenanceMessage = [], bo_AdminListen = [],
     bo_qualifies = (\<lambda>_. True), bo_maintenance_body = (\<lambda>_ _. []), bo_catchall_body = [],
     bo_admin_exclusion = []\<rparr>"

definition sample_route :: Route where
  "sample_route = zero_route\<lparr>rt_ID := ''r1'', rt_Host := ''app.home'', rt_LBPolicy := ''round_robin'',
     rt_Upstreams := [\<lparr>up_URL = ''http://10.0.0.5:8080'', up_Weight = 1\<rparr>],
     rt_AuthMode := ''basic'', rt_BasicAuth := \<lparr>ba_Username = ''ann'', ba_PasswordHash = ''h''\<rparr>,
     rt_IPFilter := Some \<lparr>ipf_Mode = ''allow'', ipf_CIDRs = [''192.168.0.0/16''], ipf_StatusCode = 0\<rparr>,
     rt_MaintenanceConfig := Some \<lparr>mc_RetryAfterSeconds = 60, mc_BypassIPs = [''192.168.0.0/16''], mc_Message = []\<rparr>,
     rt_PathRules := [zero_path_rule\<lparr>pr_PathPrefix := ''/api'', pr_DisableRouteAuth := True\<rparr>]\<rparr>"

definition sample_config :: build_state where
  "sample_config = (case build_routes sample_lib sample_opts (filterDisabledRoutes [sample_route]) of
     Inr cfg \<Rightarrow> cfg | Inl _ \<Rightarrow> bs_init)"

definition sample_request :: "string \<Rightarrow> string \<Rightarrow> request" where
  "sample_request path login =
     \<lparr>q_host = ''app.home'', q_path = path, q_addr = ''192.168.0.0/16'', q_login = login\<rparr>"

fun is_forwarded :: "'r outcome \<Rightarrow> bool" where
  "is_forwarded (Forwarded _ _) = True"
| "is_forwarded _ = False"

lemma is_forwardedE: "is_forwarded x \<Longrightarrow> (\<And>p q. x = Forwarded p q \<Longrightarrow> P) \<Longrightarrow> P"
  by (cases x) auto

theorem forwarded_requests_admitted_witness:
  "\<exists>p q'. e_top sample_engine (bs_http sample_config) (sample_request ''/login'' ''ann'') = Forwarded p q' \<and>
     admitted sample_engine sample_lib sample_opts sample_route p (sample_request ''/login'' ''ann'')"
proof -
  have "is_forwarded (run_top (bs_http sample_config) (sample_request ''/login'' ''ann''))" by code_simp
  then obtain p q' where f: "e_top sample_engine (bs_http sample_config) (sample_request ''/login'' ''ann'') = Forwarded p q'"
    by (auto elim: is_forwardedE)
  have "\<not> isl (build_routes sample_lib sample_opts (filterDisabledRoutes [sample_route]))" by code_simp
  then have b: "build_routes sample_lib sample_opts (filterDisabledRoutes [sample_route]) = Inr sample_config"
    by (auto simp: sample_config_def split: sum.split)
  have "validate sample_lib sample_route = None" by code_simp
  then show ?thesis
    using forwarded_requests_admitted [OF sample.caddy_axioms b, of "sample_request ''/login'' ''ann''" p q'] f by auto
qed

end
