(* ===== verification/PathDispatch.thy ===== *)
theory PathDispatch
  imports CaddyProps
begin

text \<open>
  Which path rule decides for a request: the rule of the emitted subroute that Caddy reaches
  first, compared with the rule the stored configuration means, the longest one that matches.
\<close>

section \<open>Caddy's path matcher\<close>

text \<open>
  A pattern without glob characters, escapes or doubled slashes. For such patterns the matcher
  compares the cleaned, lowercased request path: exactly, or below the pattern when it ends in a
  slash and a star.
\<close>

definition literal :: "string \<Rightarrow> bool" where
  "literal p \<longleftrightarrow> \<not> containsAny p ''*?[]%'' \<and> backslash \<notin> set p \<and> \<not> containsStr p ''//''"

definition caddy_paths :: "golib \<Rightarrow> 'r engine \<Rightarrow> ('r \<Rightarrow> string) \<Rightarrow> bool" where
  "caddy_paths L E path_of \<longleftrightarrow>
     (\<forall>ps q. e_path E ps q \<longleftrightarrow> (\<exists>p \<in> set ps. e_path E [p] q)) \<and>
     (\<forall>p q. literal p \<longrightarrow> toLower L p = p \<longrightarrow> (e_path E [p] q \<longleftrightarrow> path_of q = p)) \<and>
     (\<forall>p q. literal p \<longrightarrow> toLower L (p @ ''/'') = p @ ''/'' \<longrightarrow>
        (e_path E [p @ ''/*''] q \<longleftrightarrow> hasPrefix (path_of q) (p @ ''/''))) \<and>
     (\<forall>q. toLower L (path_of q) = path_of q)"

text \<open>
  A prefix the rest of this theory speaks about: literal, all of it in the ASCII range, and
  written without a trailing slash unless it is the root or an exact match.
\<close>

definition plain_rule :: "PathRule \<Rightarrow> bool" where
  "plain_rule pr \<longleftrightarrow>
     literal (pr_PathPrefix pr) \<and> is_ascii (pr_PathPrefix pr) \<and>
     (pr_MatchExact pr \<or> pr_PathPrefix pr = ''/'' \<or> \<not> hasSuffix (pr_PathPrefix pr) ''/'')"

section \<open>Lemmas\<close>

lemma toLower_ascii_prefix:
  assumes "is_ascii (s @ t)" "toLower L (s @ t) = s @ t"
  shows "toLower L s = s"
  using assms by (auto simp: toLower_def is_ascii_def)

lemma toLower_ascii_append:
  assumes "is_ascii s" "is_ascii t" "toLower L s = s" "map lower_char t = t"
  shows "toLower L (s @ t) = s @ t"
  using assms by (auto simp: toLower_def is_ascii_def)

lemma lower_slash: "map lower_char ''/'' = ''/''" "is_ascii ''/''"
  by (simp_all add: lower_char_def is_ascii_def byte_of_def)

lemma literal_Nil: "literal []"
  by (simp add: literal_def containsAny_def)

lemma literal_slash: "literal ''/''"
  by code_simp

lemma emitted_match:
  assumes caddy: "caddy_paths L E path_of" and plain: "plain_rule pr"
    and low: "toLower L (pr_PathPrefix pr) = pr_PathPrefix pr" and ne: "pr_PathPrefix pr \<noteq> []"
  shows "e_path E (pathMatchers pr) q \<longleftrightarrow> matches L pr (path_of q)"
proof -
  let ?p = "pr_PathPrefix pr"
  have any: "e_path E ps q \<longleftrightarrow> (\<exists>p \<in> set ps. e_path E [p] q)" for ps
    using caddy unfolding caddy_paths_def by blast
  have lpath: "toLower L (path_of q) = path_of q" using caddy unfolding caddy_paths_def by blast
  have exact: "e_path E [p] q \<longleftrightarrow> path_of q = p" if "literal p" "toLower L p = p" for p
    using caddy that unfolding caddy_paths_def by blast
  have below: "e_path E [p @ ''/*''] q \<longleftrightarrow> hasPrefix (path_of q) (p @ ''/'')"
    if "literal p" "toLower L (p @ ''/'') = p @ ''/''" for p
    using caddy that unfolding caddy_paths_def by blast
  have lit: "literal ?p" "is_ascii ?p" using plain by (simp_all add: plain_rule_def)
  consider "pr_MatchExact pr" | "\<not> pr_MatchExact pr" "?p = ''/''" | "\<not> pr_MatchExact pr" "\<not> hasSuffix ?p ''/''"
    using plain by (auto simp: plain_rule_def)
  then show ?thesis
  proof cases
    case 1
    with exact [OF lit(1) low] low lpath show ?thesis by (simp add: pathMatchers_def matches_def)
  next
    case 2
    have "trimSuffix ''/'' ''/'' = []" by code_simp
    moreover have "toLower L ''/'' = ''/''" using 2 low by simp
    ultimately show ?thesis
      using 2 exact [OF literal_slash] below [OF literal_Nil] lpath any [of "[''/'', ''/*'']"]
      by (auto simp: pathMatchers_def matches_def)
  next
    case 3
    then have t: "trimSuffix ?p ''/'' = ?p" by (simp add: trimSuffix_def)
    have "toLower L (?p @ ''/'') = ?p @ ''/''"
      by (rule toLower_ascii_append [OF lit(2) lower_slash(2) low lower_slash(1)])
    moreover have "pathMatchers pr = [?p, ?p @ ''/*'']"
      using 3 t ne by (simp add: pathMatchers_def Let_def)
    ultimately show ?thesis
      using 3 t exact [OF lit(1) low] below [OF lit(1)] lpath low any [of "[?p, ?p @ ''/*'']"]
      by (auto simp: matches_def)
  qed
qed

text \<open>First match in a list sorted by length is the longest match.\<close>

lemma find_sorted_longest:
  assumes "List.find P (SortPathRulesByPrefixLenDesc rules) = Some pr" "pr' \<in> set rules" "P pr'"
  shows "P pr \<and> pr \<in> set rules \<and> length (pr_PathPrefix pr') \<le> length (pr_PathPrefix pr)"
proof -
  let ?s = "SortPathRulesByPrefixLenDesc rules"
  obtain i where i: "i < length ?s" "P (?s ! i)" "pr = ?s ! i" "\<forall>j < i. \<not> P (?s ! j)"
    using assms(1) by (auto simp: find_Some_iff)
  obtain j where j: "j < length ?s" "?s ! j = pr'" using assms(2) by (metis in_set_conv_nth set_SortPathRules)
  with i assms(3) have "i = j \<or> i < j" by (metis linorder_neqE_nat)
  with sorted_SortPathRules [of rules] i j have "length (pr_PathPrefix pr') \<le> length (pr_PathPrefix pr)"
    by (auto simp: sorted_wrt_iff_nth_less)
  moreover have "pr \<in> set rules" using i(1,3) by (metis nth_mem set_SortPathRules)
  ultimately show ?thesis using i(2,3) by simp
qed

lemma deciding_rule_matches:
  assumes "caddy_paths L E path_of" "validate L r = None" "\<forall>pr \<in> set (rt_PathRules r). plain_rule pr"
  shows "deciding_rule E (rt_PathRules r) q =
    List.find (\<lambda>pr. matches L pr (path_of q)) (SortPathRulesByPrefixLenDesc (rt_PathRules r))"
proof -
  have "e_path E (pathMatchers pr) q = matches L pr (path_of q)" if "pr \<in> set (rt_PathRules r)" for pr
  proof (rule emitted_match [OF assms(1)])
    from that assms(3) show "plain_rule pr" by blast
    have v: "PathRule_Validate L pr = None" using validate_path_rules(1) [OF assms(2) that] .
    then show "toLower L (pr_PathPrefix pr) = pr_PathPrefix pr" by (rule PathRule_Validate_prefix(1))
    from PathRule_Validate_prefix(2) [OF v] show "pr_PathPrefix pr \<noteq> []" by auto
  qed
  then show ?thesis unfolding deciding_rule_def by (intro find_cong) simp_all
qed

lemma same_prefix_same_rule:
  assumes "validate L r = None" "pr \<in> set (rt_PathRules r)" "pr' \<in> set (rt_PathRules r)"
    and "matches L pr path" "matches L pr' path" "length (pr_PathPrefix pr) = length (pr_PathPrefix pr')"
  shows "pr = pr'"
proof -
  have low: "toLower L (pr_PathPrefix x) = pr_PathPrefix x" if "x \<in> set (rt_PathRules r)" for x
    using PathRule_Validate_prefix(1) validate_path_rules(1) [OF assms(1) that] .
  have "pr_PathPrefix pr = pr_PathPrefix pr'"
    using matches_hasPrefix [OF low [OF assms(2)] assms(4)] matches_hasPrefix [OF low [OF assms(3)] assms(5)] assms(6)
    by (rule hasPrefix_same_length)
  with validate_path_rules(2) [OF assms(1)] assms(2,3) show ?thesis by (simp add: distinct_map inj_on_def)
qed

section \<open>Properties\<close>

lemma longest_rule_Some:
  assumes "caddy_paths L E path_of" "validate L r = None" "\<forall>pr \<in> set (rt_PathRules r). plain_rule pr"
    and "deciding_rule E (rt_PathRules r) q = Some pr"
  shows "pr \<in> set (rt_PathRules r)" "matches L pr (path_of q)"
    "\<And>pr'. pr' \<in> set (rt_PathRules r) \<Longrightarrow> matches L pr' (path_of q) \<Longrightarrow> pr' \<noteq> pr \<Longrightarrow>
       length (pr_PathPrefix pr') < length (pr_PathPrefix pr)"
proof -
  let ?P = "\<lambda>pr. matches L pr (path_of q)"
  have f: "List.find ?P (SortPathRulesByPrefixLenDesc (rt_PathRules r)) = Some pr"
    using assms deciding_rule_matches by metis
  then have "pr \<in> set (SortPathRulesByPrefixLenDesc (rt_PathRules r)) \<and> ?P pr"
    by (metis (no_types, lifting) find_Some_iff nth_mem)
  then show pr: "pr \<in> set (rt_PathRules r)" "matches L pr (path_of q)" by simp_all
  show "length (pr_PathPrefix pr') < length (pr_PathPrefix pr)"
    if "pr' \<in> set (rt_PathRules r)" "matches L pr' (path_of q)" "pr' \<noteq> pr" for pr'
    using find_sorted_longest [OF f that(1), of] that same_prefix_same_rule [OF assms(2) pr(1) that(1) pr(2) that(2)]
    by fastforce
qed

lemma no_rule:
  assumes "caddy_paths L E path_of" "validate L r = None" "\<forall>pr \<in> set (rt_PathRules r). plain_rule pr"
  shows "deciding_rule E (rt_PathRules r) q = None \<longleftrightarrow> (\<forall>pr \<in> set (rt_PathRules r). \<not> matches L pr (path_of q))"
  unfolding deciding_rule_matches [OF assms] by (auto simp: find_None_iff)

text \<open>The route that the emitted subroute holds for a rule, and a chain whose last handler always answers.\<close>

abbreviation rule_route :: "golib \<Rightarrow> buildOpts \<Rightarrow> Route \<Rightarrow> handler \<Rightarrow> PathRule \<Rightarrow> error + inner_route" where
  "rule_route L opts r proxy \<equiv>
     path_route L (rt_ID r) (\<lambda>c. BasicAuthH c (realm_of r)) (path_forward_auth L opts) (path_proxy L r proxy)"

definition answering :: "handler \<Rightarrow> bool" where
  "answering h \<longleftrightarrow> is_proxy h \<or> (\<exists>c hdrs b. h = StaticResponse c hdrs b)"

lemma rule_route_ends:
  assumes "is_proxy proxy" "rule_route L opts r proxy pr = Inr i"
  obtains hs h where "i = Inner [[MPath (pathMatchers pr)]] (hs @ [h])" "answering h"
proof -
  have deny: "answering (buildForwardAuthDenyHandler L n)" for n by (simp add: answering_def buildForwardAuthDenyHandler_def)
  have px: "answering h" if "path_proxy L r proxy pr = Inr h" for h
    using path_proxy_proxy [OF assms(1) that] by (simp add: answering_def)
  have rd: "answering (path_redirect x)" for x by (simp add: answering_def path_redirect_def)
  obtain hs where i: "i = Inner [[MPath (pathMatchers pr)]] hs" "hs \<noteq> [] \<and> answering (last hs)"
    using assms(2) deny px rd
    by (auto simp: path_route_def path_forward_auth_def Let_def split: prod.splits if_splits option.splits sum.splits)
  with that [of "butlast hs" "last hs"] show ?thesis by simp
qed

context caddy
begin

lemma answers_alone: "answering h \<Longrightarrow> e_handle E [h] k q = e_handle E [h] k' q"
  using proxy_forwards [of h q] by (cases h) (auto simp: answering_def handle_leaf static_replies)

lemma answered_chain: "answering h \<Longrightarrow> e_handle E (hs @ [h]) k q = e_handle E (hs @ [h]) k' q"
proof -
  assume "answering h"
  then have "e_handle E [h] k = e_handle E [h] k'" using answers_alone by blast
  then show ?thesis by (simp add: handle_append)
qed

text \<open>The subroute: the first rule in emission order that matches takes the request, whatever follows.\<close>

lemma serve_first:
  assumes "collect (map (rule_route L opts r proxy) rules) = Inr inner" "is_proxy proxy"
  shows "case List.find (\<lambda>pr. e_path E (pathMatchers pr) q) rules of
      None \<Rightarrow> e_serve E (inner @ [Inner [] [proxy]]) k q = Forwarded proxy q
    | Some pr \<Rightarrow> \<exists>hs. rule_route L opts r proxy pr = Inr (Inner [[MPath (pathMatchers pr)]] hs) \<and>
        (\<forall>k'. e_serve E (inner @ [Inner [] [proxy]]) k q = e_handle E hs k' q)"
  using assms(1)
proof (induction rules arbitrary: inner)
  case Nil
  then show ?case using assms(2) by (simp add: serve_Cons match_sets_def proxy_ends)
next
  case (Cons pr rules)
  from Cons.prems obtain i rest where i: "rule_route L opts r proxy pr = Inr i"
    "collect (map (rule_route L opts r proxy) rules) = Inr rest" "inner = i # rest"
    by (auto split: sum.splits)
  obtain hs h where hs: "i = Inner [[MPath (pathMatchers pr)]] (hs @ [h])" "answering h"
    by (rule rule_route_ends [OF assms(2) i(1)])
  show ?case
  proof (cases "e_path E (pathMatchers pr) q")
    case True
    then have "\<forall>k'. e_serve E (inner @ [Inner [] [proxy]]) k q = e_handle E (hs @ [h]) k' q"
      using answered_chain [OF hs(2)] by (simp add: i(3) hs(1) serve_Cons match_sets_def)
    with True i(1) hs(1) show ?thesis by auto
  next
    case False
    then have "e_serve E (inner @ [Inner [] [proxy]]) k q = e_serve E (rest @ [Inner [] [proxy]]) k q"
      by (simp add: i(3) hs(1) serve_Cons match_sets_def)
    with Cons.IH [OF i(2)] False show ?thesis by (simp split: option.splits)
  qed
qed

lemma chain_end_first:
  assumes "chain_end L opts r proxy = Inr t" "is_proxy proxy"
  shows "case deciding_rule E (rt_PathRules r) q of
      None \<Rightarrow> e_handle E [t] k q = Forwarded proxy q
    | Some pr \<Rightarrow> \<exists>hs. rule_route L opts r proxy pr = Inr (Inner [[MPath (pathMatchers pr)]] hs) \<and>
        (\<forall>k'. e_handle E [t] k q = e_handle E hs k' q)"
proof (cases "rt_PathRules r = []")
  case True
  with assms show ?thesis by (simp add: chain_end_def deciding_rule_def SortPathRulesByPrefixLenDesc_def proxy_ends)
next
  case False
  with assms(1) obtain inner where i: "t = Subroute (inner @ [Inner [] [proxy]])"
    "collect (map (rule_route L opts r proxy) (SortPathRulesByPrefixLenDesc (rt_PathRules r))) = Inr inner"
    by (auto simp: chain_end_def buildPathRulesSubroute_def split: sum.splits)
  show ?thesis using serve_first [OF i(2) assms(2), where q = q and k = "e_handle E [] k"]
    by (simp add: i(1) handle_sub deciding_rule_def split: option.splits)
qed

end

text \<open>
  C4: In the emitted chain of an accepted route, a request whose path some rules match is handled by
  the handlers of the longest of these rules, and by nothing that follows them; a request that no rule
  matches is forwarded to the route's own pool. A rule matches when the request path, cleaned and in
  lower case, is its prefix or lies below it (exactly the prefix for an exact rule); the prefixes are
  literal ASCII ones, without a trailing slash unless it is the root or an exact rule.
\<close>

theorem longest_rule_decides:
  assumes "caddy E" and "caddy_paths L E path_of" and "validate L r = None"
    and "\<forall>pr \<in> set (rt_PathRules r). plain_rule pr" and "chain_end L opts r proxy = Inr t" and "route_proxy L r = Inr proxy"
  shows "(\<exists>pr hs. pr \<in> set (rt_PathRules r) \<and> matches L pr (path_of q) \<and>
      (\<forall>pr' \<in> set (rt_PathRules r). matches L pr' (path_of q) \<longrightarrow> pr' \<noteq> pr \<longrightarrow>
         length (pr_PathPrefix pr') < length (pr_PathPrefix pr)) \<and>
      rule_route L opts r proxy pr = Inr (Inner [[MPath (pathMatchers pr)]] hs) \<and>
      (\<forall>k'. e_handle E [t] k q = e_handle E hs k' q)) \<or>
    (\<forall>pr \<in> set (rt_PathRules r). \<not> matches L pr (path_of q)) \<and> e_handle E [t] k q = Forwarded proxy q"
proof -
  note first = caddy.chain_end_first [OF assms(1,5) route_proxy_proxy [OF assms(6)], where q = q and k = k]
  show ?thesis
  proof (cases "deciding_rule E (rt_PathRules r) q")
    case None
    with no_rule [OF assms(2-4)] first show ?thesis by simp
  next
    case (Some pr)
    with first obtain hs where
      "rule_route L opts r proxy pr = Inr (Inner [[MPath (pathMatchers pr)]] hs)" "\<forall>k'. e_handle E [t] k q = e_handle E hs k' q"
      by auto
    with longest_rule_Some [OF assms(2-4) Some] show ?thesis by blast
  qed
qed

definition nested_route :: Route where
  "nested_route = sample_route\<lparr>rt_PathRules :=
     [zero_path_rule\<lparr>pr_PathPrefix := ''/api'', pr_DisableRouteAuth := True\<rparr>,
      zero_path_rule\<lparr>pr_PathPrefix := ''/api/admin'',
        pr_IPFilter := Some \<lparr>ipf_Mode = ''allow'', ipf_CIDRs = [''192.168.0.0/16''], ipf_StatusCode = 0\<rparr>\<rparr>]\<rparr>"

definition admin_rule :: PathRule where
  "admin_rule = zero_path_rule\<lparr>pr_PathPrefix := ''/api/admin'',
     pr_IPFilter := Some \<lparr>ipf_Mode = ''allow'', ipf_CIDRs = [''192.168.0.0/16''], ipf_StatusCode = 0\<rparr>\<rparr>"

lemma toLower_sample_idem: "toLower sample_lib (toLower sample_lib s) = toLower sample_lib s"
proof (cases "is_ascii s")
  case True
  have "byte_of (lower_char c) < 128" if "byte_of c < 128" for c
    using that by (auto simp: lower_char_def)
  with True have "is_ascii (map lower_char s)" by (auto simp: is_ascii_def)
  with True show ?thesis by (simp add: toLower_def comp_def)
qed (simp add: toLower_def sample_lib_def)

lemma literal_no_star: "literal p \<Longrightarrow> \<not> hasSuffix p ''*''"
  unfolding literal_def containsAny_def hasSuffix_iff by fastforce

lemma caddy_paths_sample: "caddy_paths sample_lib sample_engine (\<lambda>q. toLower sample_lib (q_path q))"
proof -
  have "trimSuffix (p @ ''/*'') ''*'' = p @ ''/''" "hasSuffix (p @ ''/*'') ''*''" for p :: string
    using trimSuffix_append [of "p @ ''/''" "''*''"] by (simp_all add: hasSuffix_iff)
  then show ?thesis
    by (auto simp: caddy_paths_def sample_base_def path_pattern_def literal_no_star toLower_sample_idem)
qed

lemma nested_route_ok:
  "validate sample_lib nested_route = None" "\<forall>pr \<in> set (rt_PathRules nested_route). plain_rule pr"
  by code_simp+

lemma nested_route_parts:
  "case route_proxy sample_lib nested_route of
     Inl _ \<Rightarrow> False | Inr p \<Rightarrow> (case chain_end sample_lib sample_opts nested_route p of Inl _ \<Rightarrow> False | Inr _ \<Rightarrow> True)"
  "matches sample_lib admin_rule (toLower sample_lib (q_path (sample_request ''/API/admin/x'' [])))"
  "\<forall>pr \<in> set (rt_PathRules nested_route). pr \<noteq> admin_rule \<longrightarrow> length (pr_PathPrefix pr) < length (pr_PathPrefix admin_rule)"
  "admin_rule \<in> set (rt_PathRules nested_route)"
  by code_simp+

theorem longest_rule_decides_witness:
  "\<exists>p t hs. route_proxy sample_lib nested_route = Inr p \<and> chain_end sample_lib sample_opts nested_route p = Inr t \<and>
     rule_route sample_lib sample_opts nested_route p admin_rule = Inr (Inner [[MPath (pathMatchers admin_rule)]] hs) \<and>
     e_handle sample_engine [t] (\<lambda>_. Unanswered) (sample_request ''/API/admin/x'' []) =
       e_handle sample_engine hs (\<lambda>_. Replied 200) (sample_request ''/API/admin/x'' [])"
proof -
  let ?q = "sample_request ''/API/admin/x'' []"
  obtain p t where t: "chain_end sample_lib sample_opts nested_route p = Inr t" "route_proxy sample_lib nested_route = Inr p"
    using nested_route_parts(1) by (auto split: sum.splits)
  have "(\<exists>pr hs. pr \<in> set (rt_PathRules nested_route) \<and> (pr \<noteq> admin_rule \<longrightarrow> length (pr_PathPrefix admin_rule) < length (pr_PathPrefix pr)) \<and>
      rule_route sample_lib sample_opts nested_route p pr = Inr (Inner [[MPath (pathMatchers pr)]] hs) \<and>
      e_handle sample_engine [t] (\<lambda>_. Unanswered) ?q = e_handle sample_engine hs (\<lambda>_. Replied 200) ?q)"
    using longest_rule_decides [OF sample.caddy_axioms caddy_paths_sample nested_route_ok t, of ?q "\<lambda>_. Unanswered"]
      nested_route_parts(2,4) by metis
  moreover have "pr = admin_rule" if "pr \<in> set (rt_PathRules nested_route)"
      "pr \<noteq> admin_rule \<longrightarrow> length (pr_PathPrefix admin_rule) < length (pr_PathPrefix pr)" for pr
    using nested_route_parts(3) that by fastforce
  ultimately show ?thesis using t by blast
qed

text \<open>
  A prefix written with a trailing slash swallows the same prefix written without it. The
  store accepts both as different rules, but they are emitted with the same patterns and the
  longer spelling comes first: whatever the path matcher does, the other rule, with its
  authentication and filters, never decides for any request.
\<close>

theorem trailing_slash_shadows:
  assumes "validate L r = None" and "pr \<in> set (rt_PathRules r)" and "pr2 \<in> set (rt_PathRules r)"
    and "pr_PathPrefix pr2 = pr_PathPrefix pr @ ''/''" and "\<not> hasSuffix (pr_PathPrefix pr) ''/''"
    and "\<not> pr_MatchExact pr" and "\<not> pr_MatchExact pr2"
  shows "deciding_rule E (rt_PathRules r) q \<noteq> Some pr"
proof
  assume d: "deciding_rule E (rt_PathRules r) q = Some pr"
  have "trimSuffix (pr_PathPrefix pr) ''/'' = pr_PathPrefix pr" using assms(5) by (simp add: trimSuffix_def)
  then have same: "pathMatchers pr2 = pathMatchers pr"
    using assms(4,6,7) by (simp add: pathMatchers_def)
  let ?P = "\<lambda>pr. e_path E (pathMatchers pr) q"
  have f: "List.find ?P (SortPathRulesByPrefixLenDesc (rt_PathRules r)) = Some pr"
    using d by (simp add: deciding_rule_def)
  then have "?P pr" by (auto simp: find_Some_iff)
  with find_sorted_longest [OF f assms(3)] same assms(4) show False by simp
qed

definition twin_route :: Route where
  "twin_route = sample_route\<lparr>rt_PathRules :=
     [zero_path_rule\<lparr>pr_PathPrefix := ''/admin'', pr_BasicAuth := Some \<lparr>ba_Username = ''root'', ba_PasswordHash = ''h''\<rparr>\<rparr>,
      zero_path_rule\<lparr>pr_PathPrefix := ''/admin/'', pr_RateLimit := Some \<lparr>rl_Events = 9, rl_Window = ''1m'', rl_Key = []\<rparr>\<rparr>]\<rparr>"

theorem trailing_slash_shadows_witness:
  "validate sample_lib twin_route = None \<and>
   deciding_rule sample_engine (rt_PathRules twin_route) (sample_request ''/admin'' []) \<noteq> Some (hd (rt_PathRules twin_route))"
proof -
  have v: "validate sample_lib twin_route = None" by code_simp
  moreover have "\<not> hasSuffix ''/admin'' ''/''" by code_simp
  ultimately show ?thesis
    using trailing_slash_shadows [OF v, of "hd (rt_PathRules twin_route)" "hd (tl (rt_PathRules twin_route))"
        sample_engine "sample_request ''/admin'' []"]
    by (simp add: twin_route_def zero_path_rule_def)
qed

text \<open>
  Exempting a path from the route's authentication exempts everything below it, also the
  paths that a longer rule of the same route decides for. In the accepted route with an
  exempted \<open>/api\<close> and an address-filtered \<open>/api/admin\<close>, every request for \<open>/api/admin\<close> is decided
  by the second rule, which does not ask for an exemption, and still skips the route's login.
\<close>

theorem exemption_reaches_longer_rule:
  assumes "caddy_paths L E path_of" and "path_of q = ''/api/admin''"
  shows "deciding_rule E (rt_PathRules nested_route) q = Some admin_rule \<and> \<not> pr_DisableRouteAuth admin_rule \<and>
    exempted E nested_route q"
proof -
  have low: "toLower L ''/api'' = ''/api''" "toLower L ''/api/admin'' = ''/api/admin''" "toLower L ''/api/'' = ''/api/''"
    by (simp_all add: toLower_def is_ascii_def lower_char_def byte_of_def)
  have lit: "literal ''/api''" "literal ''/api/admin''" by code_simp+
  have any: "e_path E ps q \<longleftrightarrow> (\<exists>p \<in> set ps. e_path E [p] q)" for ps
    using assms(1) unfolding caddy_paths_def by blast
  have 1: "e_path E [''/api/admin''] q"
    using assms lit(2) low(2) unfolding caddy_paths_def by blast
  have "e_path E [p @ ''/*''] q \<longleftrightarrow> hasPrefix (path_of q) (p @ ''/'')"
    if "literal p" "toLower L (p @ ''/'') = p @ ''/''" for p
    using assms(1) that unfolding caddy_paths_def by blast
  from this [OF lit(1)] low(3) have "e_path E [''/api/*''] q \<longleftrightarrow> hasPrefix (path_of q) ''/api/''" by simp
  then have 2: "e_path E [''/api/*''] q" using assms(2) by (simp add: hasPrefix_def)
  have "SortPathRulesByPrefixLenDesc (rt_PathRules nested_route) = [admin_rule, hd (rt_PathRules nested_route)]"
    by (simp add: SortPathRulesByPrefixLenDesc_def nested_route_def admin_rule_def zero_path_rule_def)
  moreover have "pathMatchers admin_rule = [''/api/admin'', ''/api/admin/*'']" by code_simp
  ultimately have "deciding_rule E (rt_PathRules nested_route) q = Some admin_rule"
    using 1 any [of "[''/api/admin'', ''/api/admin/*'']"] by (simp add: deciding_rule_def)
  moreover have "exemptPathMatchers (rt_PathRules nested_route) = [''/api'', ''/api/*'']" by code_simp
  ultimately show ?thesis
    using 2 any [of "[''/api'', ''/api/*'']"] by (simp add: exempted_def admin_rule_def zero_path_rule_def)
qed

theorem exemption_reaches_longer_rule_witness:
  "deciding_rule sample_engine (rt_PathRules nested_route) (sample_request ''/api/admin'' []) = Some admin_rule \<and>
   exempted sample_engine nested_route (sample_request ''/api/admin'' [])"
proof -
  have "toLower sample_lib (q_path (sample_request ''/api/admin'' [])) = ''/api/admin''" by code_simp
  with exemption_reaches_longer_rule [OF caddy_paths_sample, of "sample_request ''/api/admin'' []"] show ?thesis by blast
qed

definition loop_rule :: PathRule where
  "loop_rule = zero_path_rule\<lparr>pr_PathPrefix := ''/old'',
     pr_Redirect := Some \<lparr>prd_Target = ''/old?moved=1'', prd_StatusCode = 301\<rparr>\<rparr>"

text \<open>
  The guard against a redirect that leads back to its own rule compares the whole target with
  the prefix. A target with a query string passes it although its path is the prefix itself, so
  a client that follows the redirect meets the same rule again.
\<close>

theorem redirect_guard_misses_query:
  "PathRule_Validate L loop_rule = None \<and>
   matches L loop_rule (takeWhile (\<lambda>c. c \<noteq> CHR ''?'') (prd_Target (the (pr_Redirect loop_rule))))"
proof -
  have low: "toLower L ''/old'' = ''/old''" "toLower L ''/old?moved=1'' = ''/old?moved=1''"
    by (simp_all add: toLower_def is_ascii_def lower_char_def byte_of_def)
  have t: "trimSpace ''/old?moved=1'' = ''/old?moved=1''" "trimSuffix ''/old'' ''/'' = ''/old''" by code_simp+
  have "validateRedirect L loop_rule = None"
    using low t by (simp add: validateRedirect_def loop_rule_def zero_path_rule_def matches_def hasPrefix_def)
  moreover have "ValidateUpstreamTLSServerName [] = None" by (simp add: ValidateUpstreamTLSServerName_def)
  ultimately have "PathRule_Validate L loop_rule = None"
    using low by (simp add: PathRule_Validate_def loop_rule_def zero_path_rule_def containsAny_def byte_of_def)
  moreover have "matches L loop_rule ''/old''"
    using low by (simp add: matches_def loop_rule_def zero_path_rule_def)
  ultimately show ?thesis by (simp add: loop_rule_def)
qed

end
