(* ===== verification/EmitProps.thy ===== *)
theory EmitProps
  imports RouteProps
begin

text \<open>
  Exactness of what the emitter derives: certificate subjects, the ranges of an address filter,
  the names of rate-limit zones and the dial addresses of upstreams.
\<close>

section \<open>Certificate subjects\<close>

text \<open>
  A route asks for a certificate of its own for a host: TLS is on with no uploaded certificate,
  the host qualifies, and no managed wildcard covers it. A route that is denied because its
  identity provider is gone asks whether or not a wildcard covers the host.
\<close>

definition denied :: "golib \<Rightarrow> buildOpts \<Rightarrow> Route \<Rightarrow> bool" where
  "denied L opts r \<longleftrightarrow>
     (rt_Disabled r \<or> rt_RedirectConfig r = None) \<and> (\<exists>d. auth_stage_of L opts r = Deny d)"

definition asks_for :: "golib \<Rightarrow> buildOpts \<Rightarrow> Route \<Rightarrow> string \<Rightarrow> bool" where
  "asks_for L opts r h \<longleftrightarrow>
     h \<in> set (AllHosts r) \<and> rt_TLSEnabled r \<and> rt_CertSource r \<noteq> ''manual'' \<and> bo_qualifies opts h \<and>
     (denied L opts r \<or> rt_UseDedicatedCert r \<or> IsHostCoveredByManagedDomain L h (bo_ManagedDomains opts) = None)"

lemma close_subjects [simp]:
  "bs_HTTP01 (closeMaintenanceWindow s) = bs_HTTP01 s" "bs_DNS01 (closeMaintenanceWindow s) = bs_DNS01 s"
  by (simp_all add: closeMaintenanceWindow_def split: option.split)

lemma append_subjects [simp]:
  "bs_HTTP01 (append_routes a b s) = bs_HTTP01 s" "bs_DNS01 (append_routes a b s) = bs_DNS01 s"
  by (simp_all add: append_routes_def)

lemma subjects_of_route:
  "set (bs_DNS01 (route_subjects L opts r s)) = set (bs_DNS01 s) \<union>
     {h \<in> set (AllHosts r). rt_TLSEnabled r \<and> rt_CertSource r \<noteq> ''manual'' \<and> uncovered L opts r h \<and> rt_ACMEChallenge r = ''dns-01''}"
  "set (bs_HTTP01 (route_subjects L opts r s)) = set (bs_HTTP01 s) \<union>
     {h \<in> set (AllHosts r). rt_TLSEnabled r \<and> rt_CertSource r \<noteq> ''manual'' \<and> uncovered L opts r h \<and> rt_ACMEChallenge r \<noteq> ''dns-01''}"
  by (auto simp: route_subjects_def add_subjects_def)

lemma subjects_of_denied:
  "set (bs_DNS01 (deny_subjects opts r s)) = set (bs_DNS01 s) \<union>
     {h \<in> set (AllHosts r). rt_TLSEnabled r \<and> rt_CertSource r \<noteq> ''manual'' \<and> bo_qualifies opts h \<and> rt_ACMEChallenge r = ''dns-01''}"
  "set (bs_HTTP01 (deny_subjects opts r s)) = set (bs_HTTP01 s) \<union>
     {h \<in> set (AllHosts r). rt_TLSEnabled r \<and> rt_CertSource r \<noteq> ''manual'' \<and> bo_qualifies opts h \<and> rt_ACMEChallenge r \<noteq> ''dns-01''}"
  by (auto simp: deny_subjects_def add_subjects_def)

lemma route_step_subjects:
  assumes "route_step L opts r s = Inr s'"
  shows "set (bs_DNS01 s') = set (bs_DNS01 s) \<union> {h. asks_for L opts r h \<and> rt_ACMEChallenge r = ''dns-01''} \<and>
    set (bs_HTTP01 s') = set (bs_HTTP01 s) \<union> {h. asks_for L opts r h \<and> rt_ACMEChallenge r \<noteq> ''dns-01''}"
proof -
  from assms obtain proxy where p: "route_proxy L r = Inr proxy" by (auto simp: route_step_def split: sum.splits)
  show ?thesis
  proof (cases "if rt_Disabled r then None else rt_RedirectConfig r")
    case (Some rc)
    then have "\<not> denied L opts r" by (auto simp: denied_def split: if_splits)
    with assms p Some show ?thesis
      by (auto simp: route_step_def Let_def redirect_step_def subjects_of_route asks_for_def uncovered_def)
  next
    case None
    show ?thesis
    proof (cases "auth_stage_of L opts r")
      case (Deny d)
      with None have "denied L opts r" by (auto simp: denied_def split: if_splits)
      with assms p None Deny show ?thesis
        by (auto simp: route_step_def Let_def deny_step_def subjects_of_denied asks_for_def)
    next
      case (Proceed auth prov)
      then have "\<not> denied L opts r" by (simp add: denied_def)
      moreover from assms p None Proceed obtain t s1 where "s' = serve_step L opts r auth prov t s1"
        "bs_DNS01 s1 = bs_DNS01 s" "bs_HTTP01 s1 = bs_HTTP01 s"
        by (auto simp: route_step_def Let_def split: sum.splits)
      ultimately show ?thesis
        by (auto simp: serve_step_def Let_def subjects_of_route asks_for_def uncovered_def)
    qed
  qed
qed

lemma route_loop_subjects:
  assumes "route_loop L opts rs s = Inr s'"
  shows "set (bs_DNS01 s') = set (bs_DNS01 s) \<union> {h. \<exists>r \<in> set rs. asks_for L opts r h \<and> rt_ACMEChallenge r = ''dns-01''} \<and>
    set (bs_HTTP01 s') = set (bs_HTTP01 s) \<union> {h. \<exists>r \<in> set rs. asks_for L opts r h \<and> rt_ACMEChallenge r \<noteq> ''dns-01''}"
  using assms
proof (induction rs arbitrary: s)
  case (Cons r rs)
  then obtain s1 where s1: "route_step L opts r s = Inr s1" "route_loop L opts rs s1 = Inr s'"
    by (auto split: sum.splits)
  from Cons.IH [OF s1(2)] route_step_subjects [OF s1(1)] show ?case by auto
qed simp

text \<open>
  C24: The certificate subjects of a build are exact: a host is listed for the DNS challenge, or
  for the HTTP challenge, precisely when a route that chose this challenge asks for it: the route
  is encrypted without a manual certificate, the host qualifies for a public certificate, and the route
  wants a dedicated certificate, or no managed domain covers the host, or the route is denied because
  its identity provider is missing; the hosts of such a route are listed even when they are covered.
\<close>

theorem certificate_subjects_exact:
  assumes "build_routes L opts routes = Inr cfg"
  shows "set (bs_DNS01 cfg) = {h. \<exists>r \<in> set routes. asks_for L opts r h \<and> rt_ACMEChallenge r = ''dns-01''} \<and>
    set (bs_HTTP01 cfg) = {h. \<exists>r \<in> set routes. asks_for L opts r h \<and> rt_ACMEChallenge r \<noteq> ''dns-01''}"
proof -
  from assms obtain s where "route_loop L opts routes bs_init = Inr s" "bs_DNS01 cfg = bs_DNS01 s" "bs_HTTP01 cfg = bs_HTTP01 s"
    by (auto simp: build_routes_def split: sum.splits if_splits)
  with route_loop_subjects [of L opts routes bs_init s] show ?thesis by (simp add: bs_init_def)
qed

definition secure_route :: Route where
  "secure_route = sample_route\<lparr>rt_TLSEnabled := True, rt_Aliases := [''www.app.home'']\<rparr>"

theorem certificate_subjects_exact_witness:
  "\<exists>cfg. build_routes sample_lib sample_opts [secure_route] = Inr cfg \<and>
     set (bs_DNS01 cfg) = {} \<and> ''www.app.home'' \<in> set (bs_HTTP01 cfg)"
proof -
  have "\<not> isl (build_routes sample_lib sample_opts [secure_route])" by code_simp
  then obtain cfg where b: "build_routes sample_lib sample_opts [secure_route] = Inr cfg"
    by (cases "build_routes sample_lib sample_opts [secure_route]") auto
  have "asks_for sample_lib sample_opts secure_route ''www.app.home''" "rt_ACMEChallenge secure_route = []"
    by (simp_all add: asks_for_def secure_route_def sample_route_def zero_route_def AllHosts_def sample_opts_def
        IsHostCoveredByManagedDomain_def)
  with certificate_subjects_exact [OF b] b show ?thesis by auto
qed

section \<open>Address filter entries\<close>

lemma parseIPv4Fields_chars:
  "parseIPv4Fields v d fs s = Some r \<Longrightarrow> c \<in> set s \<Longrightarrow> is_digit c \<or> c = CHR ''.''"
  by (induction v d fs s rule: parseIPv4Fields.induct) (auto split: if_splits simp: Let_def)

lemma not_hex_slash: "\<not> is_hex CHR ''/''" "\<not> is_digit CHR ''/''"
  by (simp_all add: is_hex_def is_digit_def byte_of_def)

lemma dropWhile_slash: "CHR ''/'' \<in> set s \<Longrightarrow> CHR ''/'' \<in> set (dropWhile is_hex s)"
  by (induction s) (auto simp: not_hex_slash)

lemma parseIPv6_loop_slash:
  "parseIPv6_loop ell bs s = Some (ell', bs', rest) \<Longrightarrow> CHR ''/'' \<in> set s \<Longrightarrow> rest \<noteq> []"
proof (induction ell bs s rule: parseIPv6_loop.induct)
  case (1 ell bs s)
  let ?g = "takeWhile is_hex s" and ?rest = "dropWhile is_hex s"
  have sl: "CHR ''/'' \<in> set ?rest" by (rule dropWhile_slash [OF 1(4)])
  show ?case
  proof (cases "length bs \<ge> 16")
    case True
    with 1(3,4) show ?thesis by (auto simp: parseIPv6_loop.simps [of ell bs s])
  next
    case False
    then obtain c cs where c: "?rest = c # cs" using sl by (cases ?rest) auto
    have fields: "parseIPv4Fields 0 0 [] s = Some fs \<Longrightarrow> False" for fs
      using parseIPv4Fields_chars [of 0 0 "[]" s fs, OF _ 1(4)] not_hex_slash by auto
    show ?thesis
    proof (cases "c = CHR '':''")
      case True
      show ?thesis
        using 1(3) False c True sl 1(1) [OF False refl refl refl _ c] 1(2) [OF False refl refl refl _ c]
        by (auto simp: parseIPv6_loop.simps [of ell bs s] Let_def split: list.splits if_splits)
    next
      case c': False
      with 1(3) False c fields show ?thesis
        by (auto simp: parseIPv6_loop.simps [of ell bs s] Let_def split: if_splits option.splits)
    qed
  qed
qed

lemma parseIPv6_loop_length:
  "parseIPv6_loop ell bs s = Some (ell', bs', rest) \<Longrightarrow> length bs \<le> 16 \<Longrightarrow> even (length bs) \<Longrightarrow> length bs' \<le> 16"
proof (induction ell bs s rule: parseIPv6_loop.induct)
  case (1 ell bs s)
  show ?case
  proof (cases "length bs \<ge> 16")
    case True
    with 1(3) show ?thesis using 1(4) by (simp add: parseIPv6_loop.simps [of ell bs s])
  next
    case False
    then have l: "length bs + 2 \<le> 16" using 1(5) by presburger
    have f: "parseIPv4Fields 0 0 [] s = Some fs \<Longrightarrow> length fs = 4" for fs
      using parseIPv4Fields_length [of 0 0 "[]" s fs] by simp
    have ev: "even (length bs + 2)" using 1(5) by simp
    show ?thesis
    proof (cases "dropWhile is_hex s")
      case Nil
      with 1(3) False l show ?thesis by (auto simp: parseIPv6_loop.simps [of ell bs s] Let_def split: if_splits)
    next
      case (Cons c cs)
      show ?thesis
        using 1(3) False Cons l ev f 1(1) [OF False refl refl refl _ Cons] 1(2) [OF False refl refl refl _ Cons]
        by (auto simp: parseIPv6_loop.simps [of ell bs s] Let_def split: list.splits if_splits option.splits)
    qed
  qed
qed

lemma expand_ellipsis_length:
  "expand_ellipsis (ell, bs, rest) = Some r \<Longrightarrow> length bs \<le> 16 \<Longrightarrow> length r = 16 \<and> rest = []"
  by (auto simp: expand_ellipsis_def split: if_splits option.splits)

lemma parseIPv6_shape:
  assumes "parseIPv6 s = Some a"
  shows "(\<exists>bs. a = Addr6 bs \<and> length bs = 16) \<and> CHR ''/'' \<notin> set s"
proof (cases "s = ''::''")
  case True
  with assms show ?thesis by (auto simp: parseIPv6_def hasPrefix_def split: if_splits)
next
  case False
  define body where "body = (if hasPrefix s ''::'' then drop 2 s else s)"
  define e0 where "e0 = (if hasPrefix s ''::'' then Some (0::nat) else None)"
  have "length s = 2 \<Longrightarrow> \<not> hasPrefix s ''::''" using False by (auto simp: hasPrefix_def)
  with assms obtain bs ell b rest where l: "parseIPv6_loop e0 [] body = Some (ell, b, rest)"
    "expand_ellipsis (ell, b, rest) = Some bs" "a = Addr6 (map of_nat bs)"
    unfolding parseIPv6_def body_def e0_def by (auto split: if_splits bind_splits)
  have "length b \<le> 16" using parseIPv6_loop_length [OF l(1)] by simp
  from expand_ellipsis_length [OF l(2) this] have r: "length bs = 16" "rest = []" by simp_all
  have "CHR ''/'' \<notin> set body" using parseIPv6_loop_slash [OF l(1)] r(2) by blast
  moreover have "set s \<subseteq> set body \<union> {CHR '':''}"
  proof (cases "hasPrefix s ''::''")
    case True
    then obtain t where "s = ''::'' @ t" by (auto simp: hasPrefix_iff)
    then show ?thesis by (auto simp: body_def True)
  qed (auto simp: body_def)
  ultimately show ?thesis using l(3) r(1) by auto
qed

lemma parseAddr_shape:
  assumes "parseAddr e = Some a"
  shows "CHR ''/'' \<notin> set e"
    and "(\<exists>bs. a = Addr4 bs \<and> length bs = 4) \<or> (\<exists>bs. a = Addr6 bs \<and> length bs = 16)"
    and "CHR '':'' \<notin> set e \<Longrightarrow> \<exists>bs. a = Addr4 bs \<and> length bs = 4"
proof -
  have v4: "(\<exists>bs. a = Addr4 bs \<and> length bs = 4) \<and> CHR ''/'' \<notin> set e" if "parseIPv4 e = Some a"
    using that parseIPv4Fields_length [of 0 0 "[]" e] parseIPv4Fields_chars [of 0 0 "[]" e] not_hex_slash
    by (auto simp: parseIPv4_def)
  from parseAddr_scan_cases [of e e a] assms v4 parseIPv6_shape [of e a]
  show "CHR ''/'' \<notin> set e" "(\<exists>bs. a = Addr4 bs \<and> length bs = 4) \<or> (\<exists>bs. a = Addr6 bs \<and> length bs = 16)"
    by (auto simp: parseAddr_def)
  have "parseAddr_scan e t = Some a \<Longrightarrow> CHR '':'' \<notin> set t \<Longrightarrow> parseIPv4 e = Some a" for t
    by (induction t) (auto split: if_splits)
  with assms v4 show "CHR '':'' \<notin> set e \<Longrightarrow> \<exists>bs. a = Addr4 bs \<and> length bs = 4"
    by (auto simp: parseAddr_def)
qed

lemma and_ones: "length bs = n \<Longrightarrow> map2 (AND) bs (replicate n (255 :: byte)) = bs"
proof (induction bs arbitrary: n)
  case (Cons b bs)
  have "(255 :: byte) = - 1" by simp
  then have "b AND 255 = b" for b :: byte by (simp only: and.right_neutral)
  with Cons show ?case by (cases n) auto
qed simp

lemma full_masks: "cidrMask_bytes 32 4 = replicate 4 255" "cidrMask_bytes 128 16 = replicate 16 255"
  by (simp_all add: numeral_eq_Suc)

lemma parseCIDR_append:
  assumes "parseAddr e = Some a" "dtoi msk = Some n" "n \<le> int (bitLen a)" "CHR ''/'' \<notin> set msk"
  shows "parseCIDR (e @ CHR ''/'' # msk) =
    Some \<lparr>net_ip = ip_mask (as16 a) (cidrMask_bytes (nat n) (bitLen a div 8)), net_mask = cidrMask_bytes (nat n) (bitLen a div 8)\<rparr>"
proof -
  have "cut_at CHR ''/'' (e @ CHR ''/'' # msk) = Some (e, msk)"
    using indexByte_append_notin [OF parseAddr_shape(1) [OF assms(1)], of msk] by (simp add: cut_at_def)
  with assms show ?thesis by (simp add: parseCIDR_def Let_def)
qed

lemma to4_length: "to4 x = Some y \<Longrightarrow> length x = 16 \<Longrightarrow> x = v4InV6Prefix @ y \<and> length y = 4"
  by (auto simp: to4_def split: if_splits) (metis append_take_drop_id)

lemma normalize_v6:
  assumes "parseCIDR e = None" and "parseAddr e = Some na" and "to4 (as16 na) = None"
  shows "\<exists>e' n. normalize_cidr e = Some e' \<and> parseCIDR e' = Some n \<and>
    (\<forall>x. length x = 16 \<longrightarrow> (ipnet_contains n x \<longleftrightarrow> x = as16 na))"
proof -
  obtain bs where bs: "na = Addr6 bs" "length bs = 16"
    using parseAddr_shape(2) [OF assms(2)] assms(3) by auto
  let ?n = "\<lparr>net_ip = bs, net_mask = replicate 16 255\<rparr> :: ipnet"
  have "dtoi ''128'' = Some 128" by code_simp
  then have "parseCIDR (e @ ''/128'') = Some ?n"
    using parseCIDR_append [OF assms(2), of "''128''" 128] bs full_masks(2) and_ones [OF bs(2)]
    by (simp add: bitLen_def ip_mask_def)
  moreover have "normalize_cidr e = Some (e @ ''/128'')"
    using assms by (simp add: normalize_cidr_def parseIP_def)
  moreover have "ipnet_contains ?n x \<longleftrightarrow> x = as16 na" if x: "length x = 16" for x
  proof (cases "to4 x")
    case None
    with bs assms(3) x and_ones [of bs 16] and_ones [of x 16] show ?thesis
      by (auto simp: ipnet_contains_def Let_def)
  next
    case (Some y)
    with to4_length [OF Some x] bs assms(3) show ?thesis by (auto simp: ipnet_contains_def Let_def)
  qed
  ultimately show ?thesis by blast
qed

lemma normalize_v4:
  assumes "parseCIDR e = None" and "parseAddr e = Some (Addr4 bs)" and "length bs = 4"
  shows "\<exists>e' n. normalize_cidr e = Some e' \<and> parseCIDR e' = Some n \<and>
    (\<forall>x. length x = 16 \<longrightarrow> (ipnet_contains n x \<longleftrightarrow> x = v4InV6Prefix @ bs))"
proof -
  let ?n = "\<lparr>net_ip = bs, net_mask = replicate 4 255\<rparr> :: ipnet"
  have "dtoi ''32'' = Some 32" by code_simp
  then have "parseCIDR (e @ ''/32'') = Some ?n"
    using parseCIDR_append [OF assms(2), of "''32''" 32] assms(3) full_masks(1) and_ones [OF assms(3)]
    by (simp add: bitLen_def ip_mask_def)
  moreover have "normalize_cidr e = Some (e @ ''/32'')"
    using assms by (simp add: normalize_cidr_def parseIP_def)
  moreover have "ipnet_contains ?n x \<longleftrightarrow> x = v4InV6Prefix @ bs" if x: "length x = 16" for x
  proof -
    have nn: "to4 bs = Some bs" using assms(3) by (simp add: to4_def)
    show ?thesis
    proof (cases "to4 x")
      case None
      with nn assms(3) x show ?thesis by (auto simp: ipnet_contains_def Let_def)
    next
      case (Some y)
      with to4_length [OF Some x] nn assms(3) and_ones [of bs 4] and_ones [of y 4] show ?thesis
        by (auto simp: ipnet_contains_def Let_def)
    qed
  qed
  ultimately show ?thesis by blast
qed

text \<open>
  An address filter entry that is a single address is exact. An entry that is an address and
  no network, written in dotted form or as a proper IPv6 address, is normalised to a network that
  contains that address and no other.
\<close>

theorem single_address_exact:
  assumes "parseCIDR e = None" and "parseIP e = Some a" and "CHR '':'' \<notin> set e \<or> to4 a = None"
  shows "\<exists>e' n. normalize_cidr e = Some e' \<and> parseCIDR e' = Some n \<and>
    (\<forall>x. length x = 16 \<longrightarrow> (ipnet_contains n x \<longleftrightarrow> x = a))"
proof -
  from assms(2) obtain na where na: "parseAddr e = Some na" "a = as16 na" by (auto simp: parseIP_def)
  show ?thesis
  proof (cases "to4 a")
    case None
    with normalize_v6 [OF assms(1) na(1)] na(2) show ?thesis by simp
  next
    case (Some v4)
    with assms(3) obtain bs where "na = Addr4 bs" "length bs = 4"
      using parseAddr_shape(3) [OF na(1)] na(2) by auto
    with normalize_v4 [OF assms(1)] na show ?thesis by simp
  qed
qed

theorem single_address_exact_witness:
  "\<exists>e' n. normalize_cidr ''10.1.2.3'' = Some e' \<and> parseCIDR e' = Some n \<and>
    {x. length x = 16 \<and> ipnet_contains n x} = {[0, 0, 0, 0, 0, 0, 0, 0, 0, 0, 255, 255, 10, 1, 2, 3]}"
proof -
  let ?a = "[0, 0, 0, 0, 0, 0, 0, 0, 0, 0, 255, 255, 10, 1, 2, 3] :: ip"
  have "parseCIDR ''10.1.2.3'' = None" "parseIP ''10.1.2.3'' = Some ?a" by code_simp+
  from single_address_exact [OF this] obtain e' n where "normalize_cidr ''10.1.2.3'' = Some e'" "parseCIDR e' = Some n"
    and n: "\<forall>x. length x = 16 \<longrightarrow> (ipnet_contains n x \<longleftrightarrow> x = ?a)" by auto
  moreover from n have "{x. length x = 16 \<and> ipnet_contains n x} = {?a}" by auto
  ultimately show ?thesis by blast
qed

definition mapped_filter :: IPFilter where
  "mapped_filter = \<lparr>ipf_Mode = ''deny'', ipf_CIDRs = [''::ffff:203.0.113.7''], ipf_StatusCode = 0\<rparr>"

text \<open>The parser on the mapped spelling, one step of its loop at a time.\<close>

lemma hex_ffff: "hex_group ''ffff'' = 65535"
  by (simp add: hex_group_def hex_value_def is_digit_def byte_of_def)

lemma mapped_dotted: "parseIPv4Fields 0 0 [] ''203.0.113.7'' = Some [203, 0, 113, 7]"
  by code_simp

lemma mapped_scan:
  "takeWhile is_hex ''ffff:203.0.113.7'' = ''ffff''"
  "dropWhile is_hex ''ffff:203.0.113.7'' = '':203.0.113.7''"
  "takeWhile is_hex ''203.0.113.7'' = ''203''"
  "dropWhile is_hex ''203.0.113.7'' = ''.0.113.7''"
  by (simp_all add: is_hex_def is_digit_def byte_of_def)

lemma mapped_loop:
  "parseIPv6_loop (Some 0) [] ''ffff:203.0.113.7'' = Some (Some 0, [255, 255, 203, 0, 113, 7], [])"
proof -
  have "parseIPv6_loop (Some 0) [255, 255] ''203.0.113.7'' = Some (Some 0, [255, 255, 203, 0, 113, 7], [])"
    unfolding parseIPv6_loop.simps [of _ _ "''203.0.113.7''"] mapped_scan Let_def
    by (simp add: mapped_dotted del: parseIPv4Fields.simps)
  then show ?thesis
    unfolding parseIPv6_loop.simps [of _ _ "''ffff:203.0.113.7''"] mapped_scan hex_ffff Let_def by simp
qed

abbreviation mapped_bytes :: ip where
  "mapped_bytes \<equiv> [0, 0, 0, 0, 0, 0, 0, 0, 0, 0, 255, 255, 203, 0, 113, 7]"

lemma mapped_addr: "parseAddr ''::ffff:203.0.113.7'' = Some (Addr6 mapped_bytes)"
proof -
  have "replicate 10 (0::nat) = [0, 0, 0, 0, 0, 0, 0, 0, 0, 0]"
    by (simp add: numeral_eq_Suc)
  then show ?thesis
    by (simp add: parseAddr_def parseIPv6_def hasPrefix_def mapped_loop expand_ellipsis_def)
qed

lemma plain_addr: "parseIP ''203.0.113.7'' = Some mapped_bytes"
  by code_simp

lemma mapped_ip: "parseIP ''::ffff:203.0.113.7'' = Some mapped_bytes"
  by (simp add: parseIP_def mapped_addr)

lemma mapped_net:
  "parseCIDR ''::ffff:203.0.113.7/32'' =
     Some \<lparr>net_ip = replicate 16 0, net_mask = replicate 4 255 @ replicate 12 0\<rparr>"
proof -
  have "cut_at CHR ''/'' ''::ffff:203.0.113.7/32'' = Some (''::ffff:203.0.113.7'', ''32'')"
    by code_simp
  moreover have "dtoi ''32'' = Some 32" by code_simp
  moreover have "ip_mask mapped_bytes (cidrMask_bytes 32 16) = replicate 16 0" by code_simp
  moreover have "cidrMask_bytes 32 16 = replicate 4 255 @ replicate 12 0" by code_simp
  ultimately show ?thesis
    unfolding parseCIDR_def by (simp add: mapped_addr bitLen_def)
qed

text \<open>
  An IPv4 address written in its IPv6-mapped form is accepted by an address filter but turned
  into a network that does not contain it: the suffix /32 is appended to an IPv6 spelling. A deny
  rule for the address blocks nothing, an allow rule admits nobody.
\<close>

theorem mapped_address_never_matches:
  "IPFilter_Validate mapped_filter = None \<and>
   NormalizedCIDRs mapped_filter = [''::ffff:203.0.113.7/32''] \<and>
   parseIP ''::ffff:203.0.113.7'' = parseIP ''203.0.113.7'' \<and>
   map_option (\<lambda>n. ipnet_contains n (the (parseIP ''203.0.113.7''))) (parseCIDR ''::ffff:203.0.113.7/32'') = Some False"
proof (intro conjI)
  have noslash: "parseCIDR ''::ffff:203.0.113.7'' = None"
    by (simp add: parseCIDR_def cut_at_def)
  show "IPFilter_Validate mapped_filter = None"
    by (simp add: IPFilter_Validate_def mapped_filter_def mapped_ip noslash)
  show "NormalizedCIDRs mapped_filter = [''::ffff:203.0.113.7/32'']"
    by (simp add: NormalizedCIDRs_def mapped_filter_def normalize_cidr_def mapped_ip noslash to4_def v4InV6Prefix_def
        numeral_eq_Suc)
  show "parseIP ''::ffff:203.0.113.7'' = parseIP ''203.0.113.7''" by (simp only: mapped_ip plain_addr)
  have "ipnet_contains \<lparr>net_ip = replicate 16 0, net_mask = replicate 4 255 @ replicate 12 0\<rparr> mapped_bytes = False"
    by code_simp
  then show "map_option (\<lambda>n. ipnet_contains n (the (parseIP ''203.0.113.7''))) (parseCIDR ''::ffff:203.0.113.7/32'') = Some False"
    by (simp only: mapped_net plain_addr option.map option.sel)
qed

end
