(* ===== verification/Buckets.thy ===== *)
theory Buckets
  imports GoStrings "HOL-Library.List_Lexorder" "HOL-Library.Char_ord"
begin

text \<open>
  The buckets of the embedded database behind \<open>internal/storage\<close>. A bucket maps keys to rows, a
  row is a value or bytes that do not decode (\<open>None\<close>); every operation of a store is one
  transaction. The locale \<open>named_rows\<close> is the contract that the stores with unique names share:
  what a create and an update promise, and what follows for the rows of the bucket.
\<close>

section \<open>Rows\<close>

type_synonym 'a bucket = "(string, 'a option) gomap"

datatype store_error = ErrNotFound | ErrConflict | ErrUnmarshal | ErrInvalid string

definition bucket_get :: "string \<Rightarrow> 'a bucket \<Rightarrow> store_error + 'a" where
  "bucket_get k b =
     (case gm_get b k of
        None \<Rightarrow> Inl ErrNotFound | Some None \<Rightarrow> Inl ErrUnmarshal | Some (Some v) \<Rightarrow> Inr v)"

text \<open>Read a row, change it, write it back.\<close>

definition bucket_modify :: "string \<Rightarrow> ('a \<Rightarrow> 'a) \<Rightarrow> 'a bucket \<Rightarrow> 'a bucket \<times> store_error option" where
  "bucket_modify k f b =
     (case bucket_get k b of
        Inl e \<Rightarrow> (b, Some e) | Inr v \<Rightarrow> (gm_put k (Some (f v)) b, None))"

definition bucket_delete :: "string \<Rightarrow> 'a bucket \<Rightarrow> 'a bucket \<times> store_error option" where
  "bucket_delete k b =
     (if gm_get b k = None then (b, Some ErrNotFound) else (gm_del k b, None))"

text \<open>
  The scan for a row with a given name. Rows that do not decode are passed over; \<open>skip\<close> is the
  key of the row being replaced.
\<close>

definition name_taken :: "('a \<Rightarrow> string) \<Rightarrow> string option \<Rightarrow> string \<Rightarrow> 'a bucket \<Rightarrow> bool" where
  "name_taken nm skip n b \<longleftrightarrow>
     (\<exists>(k, v) \<in> set b. skip \<noteq> Some k \<and> (case v of None \<Rightarrow> False | Some x \<Rightarrow> nm x = n))"

text \<open>All rows in the order of their keys; one row that does not decode fails the listing.\<close>

fun rows_of :: "(string \<times> 'a option) list \<Rightarrow> store_error + 'a list" where
  "rows_of [] = Inr []"
| "rows_of ((k, v) # b) =
     (case v of
        None \<Rightarrow> Inl ErrUnmarshal
      | Some x \<Rightarrow> (case rows_of b of Inl e \<Rightarrow> Inl e | Inr xs \<Rightarrow> Inr (x # xs)))"

definition bucket_list :: "'a bucket \<Rightarrow> store_error + 'a list" where
  "bucket_list b = rows_of (sort_key fst b)"

section \<open>Lemmas\<close>

lemma bucket_get_Inr [simp]: "bucket_get k b = Inr v \<longleftrightarrow> gm_get b k = Some (Some v)"
  by (auto simp: bucket_get_def split: option.splits)

lemma name_taken_iff:
  assumes "gm_wf b"
  shows "name_taken nm skip n b \<longleftrightarrow> (\<exists>k v. gm_get b k = Some (Some v) \<and> skip \<noteq> Some k \<and> nm v = n)"
  using gm_get_iff [OF assms] unfolding name_taken_def
  by (auto split: option.splits) (metis option.simps(5))

lemma rows_of_Inr: "rows_of b = Inr xs \<Longrightarrow> map (Some \<circ> id) xs = map snd b"
  by (induction b arbitrary: xs rule: rows_of.induct) (auto split: option.splits sum.splits)

lemma rows_of_set: "rows_of b = Inr xs \<Longrightarrow> set xs = {v. \<exists>k. (k, Some v) \<in> set b}"
  by (induction b arbitrary: xs rule: rows_of.induct) (auto split: option.splits sum.splits)

lemma bucket_list_set:
  assumes "gm_wf b" and "bucket_list b = Inr xs"
  shows "x \<in> set xs \<longleftrightarrow> (\<exists>k. gm_get b k = Some (Some x))"
  using rows_of_set [OF assms(2) [unfolded bucket_list_def]] gm_get_iff [OF assms(1)] by auto

section \<open>Stores with unique names\<close>

text \<open>The invariant: a row is stored under its own identifier, and no two rows share a name.\<close>

definition rows_ok :: "('a \<Rightarrow> string) \<Rightarrow> ('a \<Rightarrow> string) \<Rightarrow> 'a bucket \<Rightarrow> bool" where
  "rows_ok ident nm b \<longleftrightarrow>
     gm_wf b \<and> (\<forall>k v. gm_get b k = Some (Some v) \<longrightarrow> ident v = k) \<and>
     (\<forall>k k' v v'. gm_get b k = Some (Some v) \<longrightarrow> gm_get b k' = Some (Some v') \<longrightarrow> nm v = nm v' \<longrightarrow> k = k')"

lemma rows_okI:
  assumes "gm_wf b" and "\<And>k v. gm_get b k = Some (Some v) \<Longrightarrow> ident v = k"
    and "\<And>k k' v v'. gm_get b k = Some (Some v) \<Longrightarrow> gm_get b k' = Some (Some v') \<Longrightarrow> nm v = nm v' \<Longrightarrow> k = k'"
  shows "rows_ok ident nm b"
  unfolding rows_ok_def
proof (intro conjI allI impI)
  show "gm_wf b" by (rule assms(1))
  show "ident v = k" if "gm_get b k = Some (Some v)" for k v using that by (rule assms(2))
  show "k = k'" if "gm_get b k = Some (Some v)" "gm_get b k' = Some (Some v')" "nm v = nm v'" for k k' v v'
    using that by (rule assms(3))
qed

lemma rows_okD:
  assumes "rows_ok ident nm b"
  shows "gm_wf b" and "gm_get b k = Some (Some v) \<Longrightarrow> ident v = k"
    and "gm_get b k = Some (Some v) \<Longrightarrow> gm_get b k' = Some (Some v') \<Longrightarrow> nm v = nm v' \<Longrightarrow> k = k'"
proof -
  show "gm_wf b" using assms by (simp add: rows_ok_def)
  show "gm_get b k = Some (Some v) \<Longrightarrow> ident v = k" using assms by (simp add: rows_ok_def)
  show "gm_get b k = Some (Some v) \<Longrightarrow> gm_get b k' = Some (Some v') \<Longrightarrow> nm v = nm v' \<Longrightarrow> k = k'"
    using assms unfolding rows_ok_def by metis
qed

lemma rows_ok_put:
  assumes "rows_ok ident nm b" and "ident v = k" and "\<not> name_taken nm (Some k) (nm v) b"
  shows "rows_ok ident nm (gm_put k (Some v) b)"
proof (rule rows_okI)
  note ok = rows_okD [OF assms(1)]
  show "gm_wf (gm_put k (Some v) b)" using ok(1) by simp
  show "ident u = j" if "gm_get (gm_put k (Some v) b) j = Some (Some u)" for j u
    using that assms(2) ok(2) by (auto split: if_splits)
  have free: "nm u \<noteq> nm v" if "gm_get b j = Some (Some u)" "j \<noteq> k" for j u
    using assms(3) that name_taken_iff [OF ok(1)] by auto
  show "i = j" if "gm_get (gm_put k (Some v) b) i = Some (Some u)" "gm_get (gm_put k (Some v) b) j = Some (Some w)"
    "nm u = nm w" for i j u w
    using that free ok(3) [of i u j w] by (auto split: if_splits)
qed

lemma rows_ok_delete: "rows_ok ident nm b \<Longrightarrow> rows_ok ident nm (fst (bucket_delete k b))"
proof -
  assume ok: "rows_ok ident nm b"
  have "rows_ok ident nm (gm_del k b)"
    by (rule rows_okI) (auto split: if_splits intro: rows_okD [OF ok])
  with ok show ?thesis by (simp add: bucket_delete_def)
qed

lemma rows_ok_modify:
  assumes "rows_ok ident nm b" and "\<And>v. ident (f v) = ident v" and "\<And>v. nm (f v) = nm v"
  shows "rows_ok ident nm (fst (bucket_modify k f b))"
proof (cases "bucket_get k b")
  case (Inr v)
  note ok = rows_okD [OF assms(1)]
  have "\<not> name_taken nm (Some k) (nm (f v)) b"
  proof
    assume "name_taken nm (Some k) (nm (f v)) b"
    then obtain j u where "gm_get b j = Some (Some u)" "j \<noteq> k" "nm u = nm v"
      unfolding name_taken_iff [OF ok(1)] using assms(3) by auto
    with Inr ok(3) [of k v j u] show False by simp
  qed
  moreover from Inr have "gm_get b k = Some (Some v)" by simp
  ultimately show ?thesis
    using assms ok(2) [of k v] rows_ok_put [of ident nm b "f v" k]
    by (simp add: bucket_modify_def bucket_get_def)
qed (use assms(1) in \<open>simp add: bucket_modify_def\<close>)

locale named_rows =
  fixes ident nm :: "'a \<Rightarrow> string"
    and create update :: "time \<Rightarrow> 'a \<Rightarrow> 'a bucket \<Rightarrow> 'a bucket \<times> (store_error + 'a)"
  assumes create_error: "create now r b = (b', Inl e) \<Longrightarrow> b' = b"
    and create_row: "create now r b = (b', Inr r') \<Longrightarrow>
      b' = gm_put (ident r) (Some r') b \<and> ident r' = ident r \<and> nm r' = nm r \<and>
      gm_get b (ident r) = None \<and> \<not> name_taken nm None (nm r) b"
    and update_error: "update now r b = (b', Inl e) \<Longrightarrow> b' = b"
    and update_row: "update now r b = (b', Inr r') \<Longrightarrow>
      b' = gm_put (ident r) (Some r') b \<and> ident r' = ident r \<and> nm r' = nm r \<and>
      gm_get b (ident r) \<noteq> None \<and> \<not> name_taken nm (Some (ident r)) (nm r) b"
begin

lemma create_ok:
  assumes "rows_ok ident nm b"
  shows "rows_ok ident nm (fst (create now r b))"
proof (cases "create now r b")
  case (Pair b' res)
  show ?thesis
  proof (cases res)
    case (Inl e)
    with Pair create_error [of now r b b' e] assms show ?thesis by simp
  next
    case (Inr r')
    with Pair create_row have c: "b' = gm_put (ident r) (Some r') b" "ident r' = ident r" "nm r' = nm r"
      "\<not> name_taken nm None (nm r) b" by auto
    then have "\<not> name_taken nm (Some (ident r)) (nm r') b"
      by (simp add: name_taken_iff [OF rows_okD(1) [OF assms]])
    with c Pair rows_ok_put [OF assms, of r' "ident r"] show ?thesis by simp
  qed
qed

lemma update_ok:
  assumes "rows_ok ident nm b"
  shows "rows_ok ident nm (fst (update now r b))"
proof (cases "update now r b")
  case (Pair b' res)
  show ?thesis
  proof (cases res)
    case (Inl e)
    with Pair update_error [of now r b b' e] assms show ?thesis by simp
  next
    case (Inr r')
    with Pair update_row have c: "b' = gm_put (ident r) (Some r') b" "ident r' = ident r" "nm r' = nm r"
      "\<not> name_taken nm (Some (ident r)) (nm r) b" by auto
    with Pair rows_ok_put [OF assms, of r' "ident r"] show ?thesis by simp
  qed
qed

text \<open>A created row can be read back, and creating it again is refused.\<close>

lemma create_get: "create now r b = (b', Inr r') \<Longrightarrow> bucket_get (ident r) b' = Inr r'"
  using create_row by fastforce

lemma create_twice: "create now r b = (b', Inr r') \<Longrightarrow> create now' r b' \<noteq> (b'', Inr r'')"
  using create_row [of now r b b' r'] create_row [of now' r b' b'' r''] by auto

end

end
