(* ===== verification/AlertStore.thy ===== *)
theory AlertStore
  imports Buckets
begin

text \<open>
  The stored alert rules and notification channels: \<open>internal/storage/alert_rule.go\<close>,
  \<open>alerting_channel.go\<close>, \<open>alerting_channel_crud.go\<close> and the redaction of URLs in stored error
  messages, \<open>url_redact.go\<close>. The clock of a transaction is an argument. \<open>json.Unmarshal\<close> into
  \<open>any\<close> is the argument \<open>json_ok\<close>; raw JSON fields are strings.
\<close>

section \<open>Rules\<close>

record AlertRule =
  ar_ID :: string
  ar_Name :: string
  ar_Enabled :: bool
  ar_Kind :: string
  ar_Severity :: int
  ar_Category :: string
  ar_Source :: string
  ar_SourceParams :: string
  ar_EvalParams :: string
  ar_Channels :: "string list"
  ar_CooldownSecs :: int
  ar_SubjectTemplate :: string
  ar_BodyTemplate :: string
  ar_CreatedAt :: time
  ar_UpdatedAt :: time
  ar_LastFiredAt :: "time option"
  ar_LastEvalAt :: "time option"
  ar_LastError :: string
  ar_LastErrorAt :: "time option"
  ar_LastMatched :: bool

definition AlertRule_validate :: "AlertRule \<Rightarrow> store_error option" where
  "AlertRule_validate r =
     first_error
       [guard (ar_ID r = []) (ErrInvalid ''alert_rule: id must not be empty''),
        guard (ar_Name r = []) (ErrInvalid ''alert_rule: name must not be empty''),
        guard (ar_Kind r = []) (ErrInvalid ''alert_rule: kind must not be empty''),
        guard (ar_Source r = []) (ErrInvalid ''alert_rule: source must not be empty''),
        guard (ar_Channels r = []) (ErrInvalid ''alert_rule: channels must have at least one ID''),
        guard (ar_CooldownSecs r \<le> 0) (ErrInvalid ''alert_rule: cooldown_secs must be > 0'')]"

definition CreateAlertRule ::
  "time \<Rightarrow> AlertRule \<Rightarrow> AlertRule bucket \<Rightarrow> AlertRule bucket \<times> (store_error + AlertRule)" where
  "CreateAlertRule now r0 b =
     (case AlertRule_validate r0 of
        Some e \<Rightarrow> (b, Inl e)
      | None \<Rightarrow>
          let r = r0\<lparr>ar_CreatedAt := now, ar_UpdatedAt := now\<rparr>
          in if name_taken ar_Name None (ar_Name r) b then (b, Inl ErrConflict)
             else if gm_get b (ar_ID r) \<noteq> None then (b, Inl ErrConflict)
             else (gm_put (ar_ID r) (Some r) b, Inr r))"

definition GetAlertRule :: "string \<Rightarrow> AlertRule bucket \<Rightarrow> store_error + AlertRule" where
  "GetAlertRule k b =
     (if k = [] then Inl (ErrInvalid ''alert_rule: id must not be empty'') else bucket_get k b)"

text \<open>Sorted by creation time; rules created at the same instant in the order of their keys.\<close>

definition ListAlertRules :: "AlertRule bucket \<Rightarrow> store_error + AlertRule list" where
  "ListAlertRules b = map_sum id (sort_key ar_CreatedAt) (bucket_list b)"

text \<open>The fields the watcher owns are carried over from the stored row.\<close>

definition carry_state :: "AlertRule \<Rightarrow> AlertRule \<Rightarrow> AlertRule" where
  "carry_state existing r =
     r\<lparr>ar_CreatedAt := ar_CreatedAt existing,
       ar_LastFiredAt := (case ar_LastFiredAt r of None \<Rightarrow> ar_LastFiredAt existing | t \<Rightarrow> t),
       ar_LastEvalAt := (case ar_LastEvalAt r of None \<Rightarrow> ar_LastEvalAt existing | t \<Rightarrow> t),
       ar_LastError := (if ar_LastError r = [] \<and> ar_LastErrorAt r = None then ar_LastError existing else ar_LastError r),
       ar_LastErrorAt := (if ar_LastError r = [] \<and> ar_LastErrorAt r = None then ar_LastErrorAt existing else ar_LastErrorAt r),
       ar_LastMatched := ar_LastMatched existing\<rparr>"

definition UpdateAlertRule ::
  "time \<Rightarrow> AlertRule \<Rightarrow> AlertRule bucket \<Rightarrow> AlertRule bucket \<times> (store_error + AlertRule)" where
  "UpdateAlertRule now r0 b =
     (case AlertRule_validate r0 of
        Some e \<Rightarrow> (b, Inl e)
      | None \<Rightarrow>
          (case bucket_get (ar_ID r0) b of
             Inl e \<Rightarrow> (b, Inl e)
           | Inr existing \<Rightarrow>
               let r = carry_state existing (r0\<lparr>ar_UpdatedAt := now\<rparr>)
               in if name_taken ar_Name (Some (ar_ID r)) (ar_Name r) b then (b, Inl ErrConflict)
                  else (gm_put (ar_ID r) (Some r) b, Inr r)))"

definition DeleteAlertRule :: "string \<Rightarrow> AlertRule bucket \<Rightarrow> AlertRule bucket \<times> store_error option" where
  "DeleteAlertRule k b =
     (if k = [] then (b, Some (ErrInvalid ''alert_rule: id must not be empty'')) else bucket_delete k b)"

definition modify_rule ::
  "string \<Rightarrow> (AlertRule \<Rightarrow> AlertRule) \<Rightarrow> AlertRule bucket \<Rightarrow> AlertRule bucket \<times> store_error option" where
  "modify_rule k f b =
     (if k = [] then (b, Some (ErrInvalid ''alert_rule: id must not be empty'')) else bucket_modify k f b)"

definition eval_state :: "time \<Rightarrow> string option \<Rightarrow> AlertRule \<Rightarrow> AlertRule" where
  "eval_state at evalErr r =
     r\<lparr>ar_LastEvalAt := Some at,
       ar_LastError := (case evalErr of Some e \<Rightarrow> e | None \<Rightarrow> []),
       ar_LastErrorAt := (case evalErr of Some _ \<Rightarrow> Some at | None \<Rightarrow> None),
       ar_UpdatedAt := at\<rparr>"

definition UpdateAlertRuleEvalState ::
  "string \<Rightarrow> time \<Rightarrow> string option \<Rightarrow> AlertRule bucket \<Rightarrow> AlertRule bucket \<times> store_error option" where
  "UpdateAlertRuleEvalState k at evalErr b = modify_rule k (eval_state at evalErr) b"

definition UpdateAlertRuleFiredState ::
  "string \<Rightarrow> time \<Rightarrow> AlertRule bucket \<Rightarrow> AlertRule bucket \<times> store_error option" where
  "UpdateAlertRuleFiredState k at b =
     modify_rule k (\<lambda>r. r\<lparr>ar_LastFiredAt := Some at, ar_UpdatedAt := at\<rparr>) b"

definition UpdateAlertRuleLastMatched ::
  "time \<Rightarrow> string \<Rightarrow> bool \<Rightarrow> AlertRule bucket \<Rightarrow> AlertRule bucket \<times> store_error option" where
  "UpdateAlertRuleLastMatched now k matched b =
     modify_rule k (\<lambda>r. r\<lparr>ar_LastMatched := matched, ar_UpdatedAt := now\<rparr>) b"

definition MarkAlertRuleEval ::
  "time \<Rightarrow> string \<Rightarrow> bool \<Rightarrow> string option \<Rightarrow> AlertRule bucket \<Rightarrow> AlertRule bucket \<times> store_error option" where
  "MarkAlertRuleEval now k fired evalErr b =
     modify_rule k (\<lambda>r. eval_state now evalErr (if fired then r\<lparr>ar_LastFiredAt := Some now\<rparr> else r)) b"

section \<open>URLs in error messages\<close>

text \<open>
  The characters after the scheme that the regular expression takes: everything but white space,
  quotes, angle brackets and the back quote.
\<close>

definition url_text_char :: "char \<Rightarrow> bool" where
  "url_text_char c \<longleftrightarrow>
     byte_of c \<notin> {9, 10, 12, 13, 32} \<and> byte_of c \<notin> {0x22, 0x27, 0x3C, 0x3E, 0x60}"

definition url_scheme_at :: "string \<Rightarrow> nat option" where
  "url_scheme_at s =
     (if hasPrefix s ''http://'' then Some 7 else if hasPrefix s ''https://'' then Some 8 else None)"

definition URLRedacted :: string where "URLRedacted = ''[redacted]''"

definition redactURL :: "golib \<Rightarrow> string \<Rightarrow> string" where
  "redactURL L raw =
     (case lib_url L raw of
        None \<Rightarrow> URLRedacted
      | Some u \<Rightarrow> if url_Host u = [] then URLRedacted
                   else url_Scheme u @ ''://'' @ url_Host u @ ''/'' @ URLRedacted)"

text \<open>The sentence punctuation at the end of a match is kept outside it.\<close>

definition trailing :: "string \<Rightarrow> string" where
  "trailing m = rev (takeWhile (\<lambda>c. c \<in> set '':.,;)'') (rev m))"

definition redact_match :: "golib \<Rightarrow> string \<Rightarrow> string" where
  "redact_match L m = redactURL L (take (length m - length (trailing m)) m) @ trailing m"

definition url_at :: "string \<Rightarrow> string option" where
  "url_at s =
     (case url_scheme_at s of
        None \<Rightarrow> None
      | Some n \<Rightarrow>
          let body = takeWhile url_text_char (drop n s)
          in if body = [] then None else Some (take n s @ body))"

lemma url_at_not_Nil: "url_at s = Some m \<Longrightarrow> m \<noteq> [] \<and> s \<noteq> []"
  by (auto simp: url_at_def url_scheme_at_def hasPrefix_def Let_def split: option.splits if_splits)

function redact_scan :: "golib \<Rightarrow> string \<Rightarrow> string" where
  "redact_scan L s =
     (case url_at s of
        Some m \<Rightarrow> redact_match L m @ redact_scan L (drop (length m) s)
      | None \<Rightarrow> (case s of [] \<Rightarrow> [] | c # cs \<Rightarrow> c # redact_scan L cs))"
  by pat_completeness auto
termination
  by (relation "measure (\<lambda>(L, s). length s)") (auto dest: url_at_not_Nil)

declare redact_scan.simps [simp del]

definition RedactURLsInText :: "golib \<Rightarrow> string \<Rightarrow> string" where
  "RedactURLsInText L s = (if s = [] \<or> \<not> containsStr s ''://'' then s else redact_scan L s)"

section \<open>Channels\<close>

record Channel =
  ch_ID :: string
  ch_Name :: string
  ch_Kind :: string
  ch_Enabled :: bool
  ch_MinSeverity :: int
  ch_Config :: string
  ch_LastSentAt :: "time option"
  ch_LastError :: string
  ch_LastErrorAt :: "time option"
  ch_CreatedAt :: time
  ch_UpdatedAt :: time

definition AlertChannelKinds :: "string list" where
  "AlertChannelKinds = [''webhook'', ''email'', ''discord'']"

text \<open>The pattern \<open>^[a-z0-9-]{1,64}$\<close>.\<close>

definition slug_ok :: "string \<Rightarrow> bool" where
  "slug_ok n \<longleftrightarrow> 1 \<le> int (length n) \<and> int (length n) \<le> 64 \<and>
     (\<forall>c \<in> set n. 97 \<le> byte_of c \<and> byte_of c \<le> 122 \<or> is_digit c \<or> c = CHR ''-'')"

definition Channel_validate :: "(string \<Rightarrow> bool) \<Rightarrow> Channel \<Rightarrow> store_error option" where
  "Channel_validate json_ok c =
     first_error
       [guard (\<not> slug_ok (ch_Name c)) (ErrInvalid ''alerting_channel: name''),
        guard (ch_Kind c \<notin> set AlertChannelKinds) (ErrInvalid ''alerting_channel: kind is not a recognised channel kind''),
        guard (ch_MinSeverity c < 0 \<or> ch_MinSeverity c > 3) (ErrInvalid ''alerting_channel: min_severity out of range''),
        guard (ch_Config c = []) (ErrInvalid ''alerting_channel: config must not be empty''),
        guard (\<not> json_ok (ch_Config c)) (ErrInvalid ''alerting_channel: config is not valid JSON'')]"

definition CreateAlertChannel ::
  "(string \<Rightarrow> bool) \<Rightarrow> time \<Rightarrow> Channel \<Rightarrow> Channel bucket \<Rightarrow> Channel bucket \<times> (store_error + Channel)" where
  "CreateAlertChannel json_ok now c0 b =
     (case Channel_validate json_ok c0 of
        Some e \<Rightarrow> (b, Inl e)
      | None \<Rightarrow>
          if ch_ID c0 = [] then (b, Inl (ErrInvalid ''alerting_channel: id must not be empty''))
          else
            let c = c0\<lparr>ch_CreatedAt := now, ch_UpdatedAt := now\<rparr>
            in if name_taken ch_Name None (ch_Name c) b then (b, Inl ErrConflict)
               else if gm_get b (ch_ID c) \<noteq> None then (b, Inl ErrConflict)
               else (gm_put (ch_ID c) (Some c) b, Inr c))"

definition GetAlertChannel :: "string \<Rightarrow> Channel bucket \<Rightarrow> store_error + Channel" where
  "GetAlertChannel k b =
     (if k = [] then Inl (ErrInvalid ''alerting_channel: id must not be empty'') else bucket_get k b)"

definition ListAlertChannels :: "Channel bucket \<Rightarrow> store_error + Channel list" where
  "ListAlertChannels b = map_sum id (sort_key ch_CreatedAt) (bucket_list b)"

definition UpdateAlertChannel ::
  "(string \<Rightarrow> bool) \<Rightarrow> time \<Rightarrow> Channel \<Rightarrow> Channel bucket \<Rightarrow> Channel bucket \<times> (store_error + Channel)" where
  "UpdateAlertChannel json_ok now c0 b =
     (case Channel_validate json_ok c0 of
        Some e \<Rightarrow> (b, Inl e)
      | None \<Rightarrow>
          if ch_ID c0 = [] then (b, Inl (ErrInvalid ''alerting_channel: id must not be empty''))
          else case bucket_get (ch_ID c0) b of
            Inl e \<Rightarrow> (b, Inl e)
          | Inr existing \<Rightarrow>
              let c = c0\<lparr>ch_UpdatedAt := now, ch_CreatedAt := ch_CreatedAt existing\<rparr>
              in if name_taken ch_Name (Some (ch_ID c)) (ch_Name c) b then (b, Inl ErrConflict)
                 else (gm_put (ch_ID c) (Some c) b, Inr c))"

definition DeleteAlertChannel :: "string \<Rightarrow> Channel bucket \<Rightarrow> Channel bucket \<times> store_error option" where
  "DeleteAlertChannel k b =
     (if k = [] then (b, Some (ErrInvalid ''alerting_channel: id must not be empty'')) else bucket_delete k b)"

definition send_result :: "golib \<Rightarrow> time \<Rightarrow> string option \<Rightarrow> Channel \<Rightarrow> Channel" where
  "send_result L now sendErr c =
     (case sendErr of
        None \<Rightarrow> c\<lparr>ch_LastSentAt := Some now, ch_LastError := [], ch_LastErrorAt := None, ch_UpdatedAt := now\<rparr>
      | Some e \<Rightarrow> c\<lparr>ch_LastError := RedactURLsInText L e, ch_LastErrorAt := Some now, ch_UpdatedAt := now\<rparr>)"

definition MarkAlertChannelSendResult ::
  "golib \<Rightarrow> time \<Rightarrow> string \<Rightarrow> string option \<Rightarrow> Channel bucket \<Rightarrow> Channel bucket \<times> store_error option" where
  "MarkAlertChannelSendResult L now k sendErr b =
     (if k = [] then (b, Some (ErrInvalid ''alerting_channel: id must not be empty''))
      else bucket_modify k (send_result L now sendErr) b)"

section \<open>The two stores keep unique names\<close>

interpretation rules: named_rows ar_ID ar_Name CreateAlertRule UpdateAlertRule
  by unfold_locales
    (auto simp: CreateAlertRule_def UpdateAlertRule_def carry_state_def Let_def split: option.splits sum.splits if_splits)

interpretation channels: named_rows ch_ID ch_Name "CreateAlertChannel json_ok" "UpdateAlertChannel json_ok" for json_ok
  by unfold_locales
    (auto simp: CreateAlertChannel_def UpdateAlertChannel_def Let_def split: option.splits sum.splits if_splits)

end
