(* ===== verification/Redaction.thy ===== *)
theory Redaction
  imports AlertStore
begin

text \<open>
  What \<open>RedactURLsInText\<close> hides. Error texts of failed deliveries quote the URL of a webhook, whose
  path is a secret; the text is stored with the channel and in the history of alerts.
\<close>

section \<open>The scan splits at characters outside URLs\<close>

lemma hasPrefix_append_boundary:
  assumes "\<forall>x \<in> set p. url_text_char x" and "\<not> url_text_char c"
  shows "hasPrefix (a @ c # b) p \<longleftrightarrow> hasPrefix a p"
proof
  assume h: "hasPrefix (a @ c # b) p"
  have "length p \<le> length a"
  proof (rule ccontr)
    assume "\<not> length p \<le> length a"
    then have "c \<in> set (take (length p) (a @ c # b))" by (cases "length p - length a") auto
    with h assms show False by (auto simp: hasPrefix_def)
  qed
  with h show "hasPrefix a p" by (simp add: hasPrefix_def)
qed (auto simp: hasPrefix_iff)

lemma url_scheme_at_append:
  assumes "\<not> url_text_char c"
  shows "url_scheme_at (a @ c # b) = url_scheme_at a"
proof -
  have "\<forall>x \<in> set ''http://''. url_text_char x" "\<forall>x \<in> set ''https://''. url_text_char x"
    by (simp_all add: url_text_char_def byte_of_def)
  with hasPrefix_append_boundary assms show ?thesis by (simp add: url_scheme_at_def)
qed

lemma url_scheme_at_length: "url_scheme_at a = Some n \<Longrightarrow> n \<le> length a"
  by (auto simp: url_scheme_at_def hasPrefix_iff split: if_splits)

lemma url_at_append:
  assumes "\<not> url_text_char c"
  shows "url_at (a @ c # b) = url_at a"
proof (cases "url_scheme_at a")
  case (Some n)
  note le = url_scheme_at_length [OF Some]
  have "takeWhile url_text_char (drop n a @ c # b) = takeWhile url_text_char (drop n a)"
    using assms by (auto simp: takeWhile_append takeWhile_eq_all_conv [THEN iffD2])
  with Some le assms show ?thesis by (simp add: url_at_def url_scheme_at_append Let_def)
qed (simp add: url_at_def url_scheme_at_append [OF assms])

lemma url_at_prefix: "url_at s = Some m \<Longrightarrow> hasPrefix s m"
proof -
  assume "url_at s = Some m"
  then obtain n where "m = take n s @ takeWhile url_text_char (drop n s)"
    by (auto simp: url_at_def Let_def split: option.splits if_splits)
  then show ?thesis by (metis append.assoc append_take_drop_id hasPrefix_iff takeWhile_dropWhile_id)
qed

lemma redact_scan_split:
  assumes "\<not> url_text_char c"
  shows "redact_scan L (a @ c # b) = redact_scan L a @ c # redact_scan L b"
proof (induction a rule: length_induct)
  case (1 a)
  show ?case
  proof (cases "url_at a")
    case None
    show ?thesis
    proof (cases a)
      case Nil
      have "url_at (c # b) = None" using url_at_append [OF assms, of "[]" b] None Nil by simp
      then show ?thesis using Nil None by (simp add: redact_scan.simps [of L "c # b"] redact_scan.simps [of L "[]"])
    next
      case (Cons x xs)
      with 1 have "redact_scan L (xs @ c # b) = redact_scan L xs @ c # redact_scan L b" by simp
      with Cons None url_at_append [OF assms, of a b] show ?thesis
        by (simp add: redact_scan.simps [of L "x # xs @ c # b"] redact_scan.simps [of L "x # xs"])
    qed
  next
    case (Some m)
    from url_at_prefix [OF Some] obtain t where t: "a = m @ t" by (auto simp: hasPrefix_iff)
    have "length t < length a" using url_at_not_Nil [OF Some] t by simp
    with 1 have "redact_scan L (t @ c # b) = redact_scan L t @ c # redact_scan L b" by simp
    with Some t url_at_append [OF assms, of a b] show ?thesis
      by (simp add: redact_scan.simps [of L "m @ t @ c # b"] redact_scan.simps [of L "m @ t"])
  qed
qed

lemma redact_scan_url:
  assumes "url_at u = Some u"
  shows "redact_scan L u = redact_match L u"
proof -
  have "url_at [] = None" by (simp add: url_at_def url_scheme_at_def hasPrefix_def)
  then have "redact_scan L [] = []" by (simp add: redact_scan.simps [of L "[]"])
  with assms show ?thesis by (simp add: redact_scan.simps [of L u])
qed

section \<open>Secrets\<close>

definition url_core :: "string \<Rightarrow> string" where
  "url_core m = take (length m - length (trailing m)) m"

definition origin_of :: "golib \<Rightarrow> string \<Rightarrow> (string \<times> string) option" where
  "origin_of L u = map_option (\<lambda>x. (url_Scheme x, url_Host x)) (lib_url L u)"

lemma redactURL_origin: "origin_of L u = origin_of L v \<Longrightarrow> redactURL L u = redactURL L v"
  by (cases "lib_url L u"; cases "lib_url L v") (simp_all add: origin_of_def redactURL_def)

lemma containsStr_append: "containsStr b p \<Longrightarrow> containsStr (a @ b) p"
  by (induction a) auto

lemma containsStr_prefix: "hasPrefix s p \<Longrightarrow> p \<noteq> [] \<Longrightarrow> containsStr s p"
  by (cases s) (auto simp: hasPrefix_def)

lemma url_at_scheme_sep: "url_at u = Some u \<Longrightarrow> containsStr (u @ b) ''://''"
proof -
  assume "url_at u = Some u"
  then obtain n where "url_scheme_at u = Some n" by (auto simp: url_at_def split: option.splits)
  then obtain t where "u = ''http://'' @ t \<or> u = ''https://'' @ t"
    by (auto simp: url_scheme_at_def hasPrefix_iff split: if_splits)
  moreover have "containsStr (''://'' @ t @ b) ''://''" by (rule containsStr_prefix) (auto simp: hasPrefix_iff)
  ultimately show ?thesis using containsStr_append [of "''://'' @ t @ b" "''://''" "''http''"]
      containsStr_append [of "''://'' @ t @ b" "''://''" "''https''"] by auto
qed

text \<open>
  The redaction of an error text hides everything of a URL but its scheme and host. If two
  texts differ only in one URL, delimited by quotes, spaces or angle brackets, and the two URLs
  have the same scheme, host and trailing punctuation, the redacted texts are equal: path, query
  and credentials of the URL have no influence on what is stored.
\<close>

theorem redaction_hides_url:
  assumes "url_at u = Some u" and "url_at v = Some v" and "trailing u = trailing v"
    and "origin_of L (url_core u) = origin_of L (url_core v)"
    and "\<not> url_text_char q" and "\<not> url_text_char q'"
  shows "RedactURLsInText L (a @ q # u @ q' # b) = RedactURLsInText L (a @ q # v @ q' # b)"
proof -
  have red: "RedactURLsInText L (a @ q # x @ q' # b) = redact_scan L a @ q # redact_match L x @ q' # redact_scan L b"
    if "url_at x = Some x" for x
  proof -
    have "containsStr (a @ q # x @ q' # b) ''://''"
      using containsStr_append [OF url_at_scheme_sep [OF that, of "q' # b"], of "a @ [q]"] by simp
    then show ?thesis
      using redact_scan_split [OF assms(5), of L a "x @ q' # b"] redact_scan_split [OF assms(6), of L x b]
        redact_scan_url [OF that] by (simp add: RedactURLsInText_def)
  qed
  have "redact_match L u = redact_match L v"
    using redactURL_origin [OF assms(4)] assms(3) by (simp add: redact_match_def url_core_def)
  with red assms(1,2) show ?thesis by simp
qed

definition hook_lib :: golib where
  "hook_lib = \<lparr>lib_lower = (\<lambda>s. s),
     lib_url = (\<lambda>s. Some \<lparr>url_Scheme = ''https'', url_Host = takeWhile (\<lambda>c. c \<noteq> CHR ''/'') (drop 8 s), url_Path = []\<rparr>),
     lib_duration = (\<lambda>_. None), lib_regexp = (\<lambda>_. True), lib_canonical = (\<lambda>s. s), lib_seclang = (\<lambda>_. True),
     lib_quote = (\<lambda>s. s)\<rparr>"

theorem redaction_hides_url_witness:
  "RedactURLsInText hook_lib (''Post <'' @ ''https://discord.com/api/webhooks/1/key'' @ ''>: timeout'') =
   RedactURLsInText hook_lib (''Post <'' @ ''https://discord.com/x'' @ ''>: timeout'')"
proof -
  have "url_at ''https://discord.com/api/webhooks/1/key'' = Some ''https://discord.com/api/webhooks/1/key''"
    "url_at ''https://discord.com/x'' = Some ''https://discord.com/x''"
    "trailing ''https://discord.com/api/webhooks/1/key'' = trailing ''https://discord.com/x''"
    "origin_of hook_lib (url_core ''https://discord.com/api/webhooks/1/key'') = origin_of hook_lib (url_core ''https://discord.com/x'')"
    "\<not> url_text_char CHR ''<''" "\<not> url_text_char CHR ''>''" by code_simp+
  from redaction_hides_url [OF this, of "''Post ''" "'': timeout''"] show ?thesis by simp
qed

end
