(* ===== verification/Alerting.thy ===== *)
theory Alerting
  imports AlertStore Complex_Main
begin

text \<open>
  The alerting engine, \<open>internal/alerting\<close>: rule validation and evaluation, the cooldown table, the
  dispatcher and the watcher. One tick of the watcher is a function on the stores, the cooldown
  table and the history. The world outside is the record \<open>alert_env\<close>, whose functions take the
  number of the interaction: the clock, source readings, deliveries, and whether a transaction
  fails. Numbers of type \<open>float64\<close> are rationals: the code only compares them. JSON decoding,
  template rendering and mail address parsing are the record \<open>alert_lib\<close>.
\<close>

section \<open>Channel configurations\<close>

record WebhookConfig =
  wh_URL :: string
  wh_Method :: string
  wh_Headers :: "(string, string) gomap"
  wh_TimeoutSeconds :: int
  wh_BodyTemplate :: string

record EmailConfig =
  em_SMTPHost :: string
  em_SMTPPort :: int
  em_From :: string
  em_To :: "string list"
  em_CC :: "string list"
  em_BCC :: "string list"
  em_UseTLS :: bool
  em_UseStartTLS :: bool
  em_SubjectTemplate :: string
  em_BodyTemplate :: string

record DiscordConfig =
  dc_WebhookURL :: string
  dc_Username :: string
  dc_MentionUserIDs :: "string list"
  dc_MentionRoleIDs :: "string list"
  dc_TimeoutSeconds :: int

record SourceValue =
  sv_Float :: "rat option"
  sv_String :: "string option"
  sv_Labels :: "(string, string) gomap"
  sv_Context :: "(string, string) gomap"

record AlertEvent =
  ev_ID :: string
  ev_Timestamp :: time
  ev_RuleID :: string
  ev_RuleName :: string
  ev_Severity :: int
  ev_Category :: string
  ev_Subject :: string
  ev_Body :: string
  ev_Labels :: "(string, string) gomap"
  ev_Context :: "(string, string) gomap"

record alert_lib =
  al_go :: golib
  al_json :: "string \<Rightarrow> bool"
  al_threshold :: "string \<Rightarrow> (string \<times> rat) option"
  al_state :: "string \<Rightarrow> string option"
  al_webhook :: "string \<Rightarrow> WebhookConfig option"
  al_email :: "string \<Rightarrow> EmailConfig option"
  al_discord :: "string \<Rightarrow> DiscordConfig option"
  al_mail :: "string \<Rightarrow> bool"
  al_uint :: "string \<Rightarrow> bool"
  al_compile :: "string \<Rightarrow> bool"
  al_render :: "string \<Rightarrow> AlertRule \<Rightarrow> SourceValue \<Rightarrow> time \<Rightarrow> string option"
  al_marshal_map :: "(string, string) gomap \<Rightarrow> string"
  al_marshal_context :: "(string, string) gomap \<Rightarrow> string option"
  al_marshal_list :: "string list \<Rightarrow> string"

definition Webhook_WithDefaults :: "WebhookConfig \<Rightarrow> WebhookConfig" where
  "Webhook_WithDefaults c =
     c\<lparr>wh_Method := (if wh_Method c = [] then ''POST'' else wh_Method c),
       wh_TimeoutSeconds := (if wh_TimeoutSeconds c = 0 then 10 else wh_TimeoutSeconds c)\<rparr>"

definition Webhook_Validate :: "alert_lib \<Rightarrow> WebhookConfig \<Rightarrow> string option" where
  "Webhook_Validate A c =
     (let f = Webhook_WithDefaults c
      in if wh_URL f = [] then Some ''webhook: url must not be empty''
         else case lib_url (al_go A) (wh_URL f) of
           None \<Rightarrow> Some ''webhook: url is malformed''
         | Some u \<Rightarrow>
             first_error
               [guard (url_Scheme u \<noteq> ''http'' \<and> url_Scheme u \<noteq> ''https'') ''webhook: url scheme must be http or https'',
                guard (url_Host u = []) ''webhook: url must include a host'',
                guard (wh_Method f \<noteq> ''POST'') ''webhook: method not supported'',
                guard (wh_TimeoutSeconds f < 1 \<or> wh_TimeoutSeconds f > 60) ''webhook: timeoutSeconds out of range'',
                guard (wh_BodyTemplate f \<noteq> [] \<and> \<not> al_compile A (wh_BodyTemplate f)) ''webhook: bodyTemplate compile failed''])"

definition Email_Validate :: "alert_lib \<Rightarrow> EmailConfig \<Rightarrow> string option" where
  "Email_Validate A c =
     first_error
       [guard (em_SMTPHost c = []) ''email: smtpHost must not be empty'',
        guard (containsStr (em_SMTPHost c) '':'') ''email: smtpHost must not contain a port'',
        guard (em_SMTPPort c \<le> 0 \<or> em_SMTPPort c > 65535) ''email: smtpPort out of range'',
        guard (em_UseTLS c \<and> em_UseStartTLS c) ''email: useTLS and useStartTLS are mutually exclusive'',
        guard (em_From c = []) ''email: from must not be empty'',
        guard (\<not> al_mail A (em_From c)) ''email: from address is malformed'',
        guard (em_To c = []) ''email: to must have at least one recipient'',
        check_each (\<lambda>a. guard (\<not> al_mail A a) ''email: recipient is malformed'') (em_To c @ em_CC c @ em_BCC c),
        guard (em_SubjectTemplate c \<noteq> [] \<and> \<not> al_compile A (em_SubjectTemplate c)) ''email: subjectTemplate compile failed'',
        guard (em_BodyTemplate c \<noteq> [] \<and> \<not> al_compile A (em_BodyTemplate c)) ''email: bodyTemplate compile failed'']"

fun clean_ids :: "string list \<Rightarrow> string list \<Rightarrow> string list" where
  "clean_ids seen [] = []"
| "clean_ids seen (i # is) =
     (let t = trimSpace i
      in if t = [] \<or> t \<in> set seen then clean_ids seen is else t # clean_ids (t # seen) is)"

definition cleanSnowflakes :: "string list \<Rightarrow> string list" where
  "cleanSnowflakes ids = clean_ids [] ids"

definition validateSnowflakes :: "alert_lib \<Rightarrow> string list \<Rightarrow> string option" where
  "validateSnowflakes A ids =
     first_error
       [guard (int (length ids) > 100) ''discord: at most 100 mentions'',
        check_each (\<lambda>i. guard (\<not> al_uint A i) ''discord: not an ID'') ids]"

definition mentionLine :: "string list \<Rightarrow> string list \<Rightarrow> string" where
  "mentionLine users roles =
     joinWith '' '' (map (\<lambda>i. ''<@'' @ i @ ''>'') users @ map (\<lambda>i. ''<@&'' @ i @ ''>'') roles)"

definition Discord_Validate :: "alert_lib \<Rightarrow> DiscordConfig \<Rightarrow> string option" where
  "Discord_Validate A c =
     (let url = trimSpace (dc_WebhookURL c);
          users = cleanSnowflakes (dc_MentionUserIDs c);
          roles = cleanSnowflakes (dc_MentionRoleIDs c)
      in first_error
        [guard (url = []) ''discord: webhookUrl must not be empty'',
         guard (\<not> hasPrefix url ''https://'') ''discord: webhookUrl must start with https://'',
         guard (\<not> containsStr url ''discord.com'' \<and> \<not> containsStr url ''discordapp.com'')
           ''discord: webhookUrl must be a discord.com webhook URL'',
         guard (dc_TimeoutSeconds c \<noteq> 0 \<and> (dc_TimeoutSeconds c < 1 \<or> dc_TimeoutSeconds c > 60))
           ''discord: timeoutSeconds out of range'',
         validateSnowflakes A users, validateSnowflakes A roles,
         guard (int (length (mentionLine users roles)) > 2000) ''discord: the mention line is too long''])"

text \<open>Whether a sender can be built for a channel: its configuration decodes and validates.\<close>

definition SenderFor :: "alert_lib \<Rightarrow> Channel \<Rightarrow> string option" where
  "SenderFor A c =
     (if ch_Kind c = ''webhook'' then
        (case al_webhook A (ch_Config c) of
           None \<Rightarrow> Some ''webhook config not valid JSON'' | Some w \<Rightarrow> Webhook_Validate A w)
      else if ch_Kind c = ''email'' then
        (case al_email A (ch_Config c) of
           None \<Rightarrow> Some ''email config not valid JSON'' | Some m \<Rightarrow> Email_Validate A m)
      else if ch_Kind c = ''discord'' then
        (case al_discord A (ch_Config c) of
           None \<Rightarrow> Some ''discord config not valid JSON'' | Some d \<Rightarrow> Discord_Validate A d)
      else Some ''unsupported channel kind'')"

section \<open>Rules\<close>

definition thresholdOperators :: "string list" where
  "thresholdOperators = [''>'', ''>='', ''<'', ''<='', ''=='', ''!='']"

definition Threshold_ValidateParams :: "alert_lib \<Rightarrow> string \<Rightarrow> string option" where
  "Threshold_ValidateParams A raw =
     (case al_threshold A raw of
        None \<Rightarrow> Some ''threshold: params not valid JSON''
      | Some (op, _) \<Rightarrow> guard (op \<notin> set thresholdOperators) ''threshold: operator'')"

definition Threshold_Evaluate :: "alert_lib \<Rightarrow> SourceValue \<Rightarrow> string \<Rightarrow> string + bool" where
  "Threshold_Evaluate A val raw =
     (case al_threshold A raw of
        None \<Rightarrow> Inl ''threshold: params decode''
      | Some (op, p) \<Rightarrow>
          (case sv_Float val of
             None \<Rightarrow> Inl ''threshold: source value missing Float''
           | Some v \<Rightarrow>
               if op = ''>'' then Inr (v > p) else if op = ''>='' then Inr (v \<ge> p)
               else if op = ''<'' then Inr (v < p) else if op = ''<='' then Inr (v \<le> p)
               else if op = ''=='' then Inr (v = p) else if op = ''!='' then Inr (v \<noteq> p)
               else Inl ''threshold: unsupported operator''))"

definition State_ValidateParams :: "alert_lib \<Rightarrow> string \<Rightarrow> string option" where
  "State_ValidateParams A raw =
     (case al_state A raw of
        None \<Rightarrow> Some ''state: params not valid JSON''
      | Some x \<Rightarrow> guard (x = []) ''state: expected must not be empty'')"

definition State_Evaluate :: "alert_lib \<Rightarrow> SourceValue \<Rightarrow> string \<Rightarrow> string + bool" where
  "State_Evaluate A val raw =
     (case al_state A raw of
        None \<Rightarrow> Inl ''state: params decode''
      | Some x \<Rightarrow>
          (case sv_String val of None \<Rightarrow> Inl ''state: source value missing String'' | Some s \<Rightarrow> Inr (s = x)))"

text \<open>The lookup of the evaluator by kind, and its two methods.\<close>

definition rule_params :: "alert_lib \<Rightarrow> string \<Rightarrow> string \<Rightarrow> string option" where
  "rule_params A kind raw =
     (if kind = ''threshold'' then Threshold_ValidateParams A raw
      else if kind = ''state'' then State_ValidateParams A raw else Some ''unsupported rule kind'')"

definition rule_evaluate :: "alert_lib \<Rightarrow> string \<Rightarrow> SourceValue \<Rightarrow> string \<Rightarrow> string + bool" where
  "rule_evaluate A kind val raw =
     (if kind = ''threshold'' then Threshold_Evaluate A val raw
      else if kind = ''state'' then State_Evaluate A val raw else Inl ''evaluator lookup'')"

definition RuleCooldownSecsMin :: int where "RuleCooldownSecsMin = 30"
definition RuleCooldownSecsMax :: int where "RuleCooldownSecsMax = 86400"

text \<open>
  \<open>AlertRule.Validate\<close>. \<open>sources\<close> is the registry with the parameter check of each source,
  \<open>channelExists\<close> the lookup of channels; both may be nil.
\<close>

definition Rule_Validate ::
  "alert_lib \<Rightarrow> (string \<Rightarrow> (string \<Rightarrow> string option) option) option \<Rightarrow> (string \<Rightarrow> bool) option \<Rightarrow> AlertRule \<Rightarrow> string option" where
  "Rule_Validate A sources channelExists r =
     first_error
       [guard (\<not> slug_ok (ar_Name r)) ''alert_rule: name'',
        guard (ar_Kind r \<notin> {''threshold'', ''state''}) ''alert_rule: kind'',
        guard (ar_Severity r < 0 \<or> ar_Severity r > 3) ''alert_rule: severity out of range'',
        guard (ar_Source r = []) ''alert_rule: source must not be empty'',
        guard (ar_CooldownSecs r < RuleCooldownSecsMin \<or> ar_CooldownSecs r > RuleCooldownSecsMax)
          ''alert_rule: cooldown_secs out of range'',
        guard (ar_Channels r = []) ''alert_rule: channels must have at least one channel ID'',
        guard (ar_SourceParams r = []) ''alert_rule: source_params must not be empty'',
        guard (ar_EvalParams r = []) ''alert_rule: eval_params must not be empty'',
        (case sources of
           None \<Rightarrow> None
         | Some reg \<Rightarrow>
             (case reg (ar_Source r) of
                None \<Rightarrow> Some ''alert_rule: source is not registered''
              | Some validateParams \<Rightarrow> validateParams (ar_SourceParams r))),
        rule_params A (ar_Kind r) (ar_EvalParams r),
        (case channelExists of
           None \<Rightarrow> None
         | Some ex \<Rightarrow>
             check_each (\<lambda>i. first_error [guard (i = []) ''alert_rule: channel is empty'',
               guard (\<not> ex i) ''alert_rule: channel does not match any registered channel'']) (ar_Channels r)),
        guard (ar_SubjectTemplate r \<noteq> [] \<and> \<not> al_compile A (ar_SubjectTemplate r)) ''alert_rule: subject_template compile failed'',
        guard (ar_BodyTemplate r \<noteq> [] \<and> \<not> al_compile A (ar_BodyTemplate r)) ''alert_rule: body_template compile failed'']"

section \<open>The cooldown table\<close>

type_synonym cooldown_table = "(string \<times> string, time) gomap"

definition DefaultEvictionFloor :: duration where "DefaultEvictionFloor = 24 * ns_hour"

definition OnCooldown :: "time \<Rightarrow> string \<Rightarrow> string \<Rightarrow> duration \<Rightarrow> cooldown_table \<Rightarrow> bool" where
  "OnCooldown now ruleID channelID cooldown m =
     (case gm_get m (ruleID, channelID) of
        None \<Rightarrow> False | Some firedAt \<Rightarrow> time_sub now firedAt < cooldown)"

definition Mark :: "time \<Rightarrow> string \<Rightarrow> string \<Rightarrow> cooldown_table \<Rightarrow> cooldown_table" where
  "Mark now ruleID channelID m = gm_put (ruleID, channelID) now m"

definition EvictStale :: "time \<Rightarrow> string list option \<Rightarrow> cooldown_table \<Rightarrow> cooldown_table \<times> nat" where
  "EvictStale now keepRules m =
     (let m' = filter (\<lambda>((ruleID, _), firedAt). \<not> time_sub now firedAt \<ge> DefaultEvictionFloor \<and>
            (case keepRules of None \<Rightarrow> True | Some ks \<Rightarrow> ruleID \<in> set ks)) m
      in (m', length m - length m'))"

section \<open>The dispatcher\<close>

record DispatchResult =
  dr_Fired :: "string list"
  dr_Failed :: "(string, string) gomap"
  dr_Skipped :: "(string, string) gomap"

record AlertEventRecord =
  er_Event :: AlertEvent
  er_ContextJSON :: string
  er_LabelsJSON :: string
  er_ChannelsFiredJSON :: string
  er_ChannelsFailedJSON :: string

text \<open>The transactions of a tick; each may fail, independently of the others and of how often it was tried.\<close>

datatype alert_txn =
  ListRules | LoadChannel string | StoreEval string | StoreFired string | StoreMatched string | StoreSend string | StoreEvent

record alert_env =
  env_lib :: alert_lib
  env_clock :: "nat \<Rightarrow> time"
  env_fail :: "nat \<Rightarrow> alert_txn \<Rightarrow> bool"
  env_uuid :: "nat \<Rightarrow> string"
  env_source :: "string \<Rightarrow> bool"
  env_read :: "nat \<Rightarrow> string \<Rightarrow> string \<Rightarrow> string + SourceValue"
  env_send :: "nat \<Rightarrow> Channel \<Rightarrow> AlertEvent \<Rightarrow> string option"
  env_history :: bool

text \<open>
  \<open>aw_sent\<close> lists the successful deliveries, with the number of the interaction and the
  channel; it is what the receivers have seen. \<open>aw_n\<close> numbers the next interaction.
\<close>

record alert_world =
  aw_rules :: "AlertRule bucket"
  aw_channels :: "Channel bucket"
  aw_cooldown :: cooldown_table
  aw_history :: "AlertEventRecord list"
  aw_sent :: "(nat \<times> string \<times> AlertEvent) list"
  aw_n :: nat

definition now_of :: "alert_env \<Rightarrow> alert_world \<Rightarrow> time" where
  "now_of E w = env_clock E (aw_n w)"

definition next_n :: "alert_world \<Rightarrow> alert_world" where
  "next_n w = w\<lparr>aw_n := Suc (aw_n w)\<rparr>"

definition marshalMapOrEmpty :: "alert_lib \<Rightarrow> (string, string) gomap \<Rightarrow> string option" where
  "marshalMapOrEmpty A m = (if m = [] then Some [] else al_marshal_context A m)"

definition marshalMapStringOrEmpty :: "alert_lib \<Rightarrow> (string, string) gomap \<Rightarrow> string" where
  "marshalMapStringOrEmpty A m = (if m = [] then [] else al_marshal_map A m)"

definition marshalSliceOrEmpty :: "alert_lib \<Rightarrow> string list \<Rightarrow> string" where
  "marshalSliceOrEmpty A xs = (if xs = [] then [] else al_marshal_list A xs)"

definition persistAlertEventRecord ::
  "alert_env \<Rightarrow> AlertEvent \<Rightarrow> DispatchResult \<Rightarrow> alert_world \<Rightarrow> alert_world" where
  "persistAlertEventRecord E evt result w =
     (if \<not> env_history E then w
      else case marshalMapOrEmpty (env_lib E) (ev_Context evt) of
        None \<Rightarrow> w
      | Some contextJSON \<Rightarrow>
          let failed = map (\<lambda>(i, msg). (i, RedactURLsInText (al_go (env_lib E)) msg)) (dr_Failed result);
              rec = \<lparr>er_Event = evt, er_ContextJSON = contextJSON,
                er_LabelsJSON = marshalMapStringOrEmpty (env_lib E) (ev_Labels evt),
                er_ChannelsFiredJSON = marshalSliceOrEmpty (env_lib E) (dr_Fired result),
                er_ChannelsFailedJSON = marshalMapStringOrEmpty (env_lib E) failed\<rparr>
          in if env_fail E (aw_n w) StoreEvent then next_n w
             else next_n (w\<lparr>aw_history := aw_history w @ [rec]\<rparr>))"

definition mark_send :: "alert_env \<Rightarrow> string \<Rightarrow> string option \<Rightarrow> alert_world \<Rightarrow> alert_world" where
  "mark_send E k sendErr w =
     (if env_fail E (aw_n w) (StoreSend k) then next_n w
      else next_n (w\<lparr>aw_channels :=
        fst (MarkAlertChannelSendResult (al_go (env_lib E)) (now_of E w) k sendErr (aw_channels w))\<rparr>))"

text \<open>The delivery itself: a success is recorded, then the send result is stored with the channel.\<close>

definition send_to :: "alert_env \<Rightarrow> AlertEvent \<Rightarrow> string \<Rightarrow> Channel \<Rightarrow> alert_world \<Rightarrow> alert_world \<times> string option" where
  "send_to E evt k c w =
     (let sendErr = env_send E (aw_n w) c evt;
          w1 = next_n (if sendErr = None then w\<lparr>aw_sent := aw_sent w @ [(aw_n w, k, evt)]\<rparr> else w)
      in (mark_send E (ch_ID c) sendErr w1, sendErr))"

definition load_channel :: "alert_env \<Rightarrow> string \<Rightarrow> alert_world \<Rightarrow> string + Channel" where
  "load_channel E k w =
     (if env_fail E (aw_n w) (LoadChannel k) then Inl ''load channel''
      else case GetAlertChannel k (aw_channels w) of
        Inl ErrNotFound \<Rightarrow> Inl ''channel not found''
      | Inl _ \<Rightarrow> Inl ''load channel''
      | Inr c \<Rightarrow> Inr c)"

definition dispatch_one ::
  "alert_env \<Rightarrow> AlertEvent \<Rightarrow> string \<Rightarrow> alert_world \<times> DispatchResult \<Rightarrow> alert_world \<times> DispatchResult" where
  "dispatch_one E evt k = (\<lambda>(w0, res).
     let w = next_n w0
     in case load_channel E k w0 of
          Inl e \<Rightarrow> (w, res\<lparr>dr_Failed := gm_put k e (dr_Failed res)\<rparr>)
        | Inr c \<Rightarrow>
            if \<not> ch_Enabled c then (w, res\<lparr>dr_Skipped := gm_put k ''channel disabled'' (dr_Skipped res)\<rparr>)
            else if ev_Severity evt < ch_MinSeverity c
            then (w, res\<lparr>dr_Skipped := gm_put k ''severity below channel min'' (dr_Skipped res)\<rparr>)
            else (case SenderFor (env_lib E) c of
                Some e \<Rightarrow> (w, res\<lparr>dr_Failed := gm_put k e (dr_Failed res)\<rparr>)
              | None \<Rightarrow>
                  (case send_to E evt k c w of
                     (w', Some e) \<Rightarrow> (w', res\<lparr>dr_Failed := gm_put k e (dr_Failed res)\<rparr>)
                   | (w', None) \<Rightarrow> (w', res\<lparr>dr_Fired := dr_Fired res @ [k]\<rparr>))))"

definition Dispatch ::
  "alert_env \<Rightarrow> AlertEvent \<Rightarrow> string list \<Rightarrow> alert_world \<Rightarrow> alert_world \<times> DispatchResult" where
  "Dispatch E evt channelIDs w =
     (let (w', result) = fold (dispatch_one E evt) channelIDs (w, \<lparr>dr_Fired = [], dr_Failed = [], dr_Skipped = []\<rparr>)
      in (persistAlertEventRecord E evt result w', result))"

end
