(* ===== verification/AlertWatch.thy ===== *)
theory AlertWatch
  imports Alerting
begin

text \<open>
  The watcher of \<open>internal/alerting/watcher.go\<close>: one tick reads the rules, drops stale cooldowns
  and evaluates every enabled rule in turn. \<open>Run\<close> is a sequence of ticks; between two of them
  administrators may change rules and channels.
\<close>

section \<open>One rule\<close>

definition persistEvalState :: "alert_env \<Rightarrow> string \<Rightarrow> time \<Rightarrow> string option \<Rightarrow> alert_world \<Rightarrow> alert_world" where
  "persistEvalState E ruleID ts evalErr w =
     (if env_fail E (aw_n w) (StoreEval ruleID) then next_n w
      else next_n (w\<lparr>aw_rules := fst (UpdateAlertRuleEvalState ruleID ts evalErr (aw_rules w))\<rparr>))"

definition persist_fired :: "alert_env \<Rightarrow> string \<Rightarrow> time \<Rightarrow> alert_world \<Rightarrow> alert_world" where
  "persist_fired E ruleID ts w =
     (if env_fail E (aw_n w) (StoreFired ruleID) then next_n w
      else next_n (w\<lparr>aw_rules := fst (UpdateAlertRuleFiredState ruleID ts (aw_rules w))\<rparr>))"

definition persist_matched :: "alert_env \<Rightarrow> string \<Rightarrow> bool \<Rightarrow> alert_world \<Rightarrow> alert_world" where
  "persist_matched E ruleID matched w =
     (if env_fail E (aw_n w) (StoreMatched ruleID) then next_n w
      else next_n (w\<lparr>aw_rules := fst (UpdateAlertRuleLastMatched (now_of E w) ruleID matched (aw_rules w))\<rparr>))"

definition defaultSubjectTemplate :: string where
  "defaultSubjectTemplate = ''[{{.Severity}}] {{.RuleName}} fired''"

definition defaultBodyTemplate :: string where
  "defaultBodyTemplate = ''Rule {{.RuleName}} fired. Source {{.Source}} value: {{.Value}}''"

definition renderTemplate :: "alert_lib \<Rightarrow> string \<Rightarrow> string \<Rightarrow> AlertRule \<Rightarrow> SourceValue \<Rightarrow> time \<Rightarrow> string" where
  "renderTemplate A operatorTmpl fallback r val ts =
     (let tmpl = (if operatorTmpl = [] then fallback else operatorTmpl)
      in if \<not> al_compile A tmpl then fallback
         else case al_render A tmpl r val ts of None \<Rightarrow> fallback | Some t \<Rightarrow> t)"

definition buildAlertEvent :: "alert_env \<Rightarrow> AlertRule \<Rightarrow> SourceValue \<Rightarrow> time \<Rightarrow> nat \<Rightarrow> AlertEvent" where
  "buildAlertEvent E r val ts n =
     \<lparr>ev_ID = env_uuid E n, ev_Timestamp = ts, ev_RuleID = ar_ID r, ev_RuleName = ar_Name r,
      ev_Severity = ar_Severity r, ev_Category = ar_Category r,
      ev_Subject = renderTemplate (env_lib E) (ar_SubjectTemplate r) defaultSubjectTemplate r val ts,
      ev_Body = renderTemplate (env_lib E) (ar_BodyTemplate r) defaultBodyTemplate r val ts,
      ev_Labels = sv_Labels val, ev_Context = sv_Context val\<rparr>"

text \<open>A product of a count and a unit of time is computed on 64 bits.\<close>

definition wrap64 :: "int \<Rightarrow> int" where "wrap64 x = (x + 2 ^ 63) mod 2 ^ 64 - 2 ^ 63"

definition cooldown_of :: "AlertRule \<Rightarrow> duration" where
  "cooldown_of r = wrap64 (ar_CooldownSecs r * ns_second)"

text \<open>One channel of the dispatch loop; \<open>fired\<close> are the channels delivered to so far.\<close>

definition notify_channel ::
  "alert_env \<Rightarrow> AlertRule \<Rightarrow> SourceValue \<Rightarrow> time \<Rightarrow> string \<Rightarrow> alert_world \<times> string list \<Rightarrow> alert_world \<times> string list" where
  "notify_channel E r val now channelID = (\<lambda>(w, fired).
     if ar_Kind r \<noteq> ''state'' \<and> OnCooldown (now_of E w) (ar_ID r) channelID (cooldown_of r) (aw_cooldown w)
     then (next_n w, fired)
     else
       let w1 = next_n w; evt = buildAlertEvent E r val now (aw_n w1)
       in case Dispatch E evt [channelID] (next_n w1) of (w2, result) \<Rightarrow>
            if dr_Fired result \<noteq> []
            then (next_n (w2\<lparr>aw_cooldown := Mark (now_of E w2) (ar_ID r) channelID (aw_cooldown w2)\<rparr>), fired @ [channelID])
            else (w2, fired))"

definition notify :: "alert_env \<Rightarrow> AlertRule \<Rightarrow> SourceValue \<Rightarrow> time \<Rightarrow> alert_world \<Rightarrow> alert_world" where
  "notify E r val now w =
     (case fold (notify_channel E r val now) (ar_Channels r) (w, []) of (w1, channelsFired) \<Rightarrow>
        if channelsFired = [] then w1
        else
          let w2 = persist_fired E (ar_ID r) now w1
          in if ar_Kind r = ''state'' then persist_matched E (ar_ID r) True w2 else w2)"

definition react :: "alert_env \<Rightarrow> AlertRule \<Rightarrow> SourceValue \<Rightarrow> time \<Rightarrow> bool \<Rightarrow> alert_world \<Rightarrow> alert_world" where
  "react E r val now fired w =
     (if ar_Kind r = ''state'' then
        (if \<not> fired then (if ar_LastMatched r then persist_matched E (ar_ID r) False w else w)
         else if ar_LastMatched r then w
         else notify E r val now w)
      else if \<not> fired then w
      else notify E r val now w)"

definition evalOneRule :: "alert_env \<Rightarrow> AlertRule \<Rightarrow> alert_world \<Rightarrow> alert_world" where
  "evalOneRule E r w0 =
     (let now = now_of E w0; w = next_n w0
      in if \<not> env_source E (ar_Source r) then persistEvalState E (ar_ID r) now (Some ''source not registered'') w
         else case env_read E (aw_n w) (ar_Source r) (ar_SourceParams r) of
           Inl e \<Rightarrow> persistEvalState E (ar_ID r) now (Some (''source read: '' @ e)) (next_n w)
         | Inr val \<Rightarrow>
             (case rule_evaluate (env_lib E) (ar_Kind r) val (ar_EvalParams r) of
                Inl e \<Rightarrow> persistEvalState E (ar_ID r) now (Some (''evaluate: '' @ e)) (next_n w)
              | Inr fired \<Rightarrow> react E r val now fired (persistEvalState E (ar_ID r) now None (next_n w))))"

section \<open>One tick\<close>

definition evict_turn :: "alert_env \<Rightarrow> AlertRule list \<Rightarrow> alert_world \<Rightarrow> alert_world" where
  "evict_turn E rules w =
     next_n (w\<lparr>aw_cooldown := fst (EvictStale (now_of E w) (Some (map ar_ID rules)) (aw_cooldown w))\<rparr>)"

definition watcher_tick :: "alert_env \<Rightarrow> alert_world \<Rightarrow> alert_world" where
  "watcher_tick E w0 =
     (let w = next_n w0
      in if env_fail E (aw_n w0) ListRules then w
         else case ListAlertRules (aw_rules w) of
           Inl _ \<Rightarrow> w
         | Inr rules \<Rightarrow> fold (evalOneRule E) (filter ar_Enabled rules) (evict_turn E rules w))"

text \<open>
  The runs of the watcher that begin with an empty cooldown table. A step is a tick or a change
  of the stores by an administrator, about which nothing is assumed but the condition \<open>Q\<close> on
  the stored rules at the time of each tick.
\<close>

inductive watch_run :: "alert_env \<Rightarrow> (AlertRule bucket \<Rightarrow> bool) \<Rightarrow> alert_world \<Rightarrow> bool" for E Q where
  start: "aw_cooldown w = [] \<Longrightarrow> aw_sent w = [] \<Longrightarrow> watch_run E Q w"
| tick: "watch_run E Q w \<Longrightarrow> Q (aw_rules w) \<Longrightarrow> watch_run E Q (watcher_tick E w)"
| admin: "watch_run E Q w \<Longrightarrow> watch_run E Q (w\<lparr>aw_rules := rs, aw_channels := cs\<rparr>)"

section \<open>What a step leaves alone\<close>

text \<open>The number of interactions only grows.\<close>

lemma next_n_simps [simp]:
  "aw_rules (next_n w) = aw_rules w" "aw_channels (next_n w) = aw_channels w" "aw_cooldown (next_n w) = aw_cooldown w"
  "aw_history (next_n w) = aw_history w" "aw_sent (next_n w) = aw_sent w" "aw_n (next_n w) = Suc (aw_n w)"
  by (simp_all add: next_n_def)

definition keeps_out :: "alert_world \<Rightarrow> alert_world \<Rightarrow> bool" where
  "keeps_out w w' \<longleftrightarrow> aw_n w \<le> aw_n w' \<and> aw_cooldown w' = aw_cooldown w \<and> aw_sent w' = aw_sent w"

lemma keeps_out_refl [simp]: "keeps_out w w"
  by (simp add: keeps_out_def)

lemma keeps_out_trans [trans]: "keeps_out w w' \<Longrightarrow> keeps_out w' w'' \<Longrightarrow> keeps_out w w''"
  by (auto simp: keeps_out_def)

lemma keeps_out_simps [simp]:
  "keeps_out w (next_n w)" "keeps_out w (persistEvalState E k ts e w)" "keeps_out w (persist_fired E k ts w)"
  "keeps_out w (persist_matched E k m w)" "keeps_out w (mark_send E k r w)" "keeps_out w (persistAlertEventRecord E evt res w)"
  by (auto simp: keeps_out_def persistEvalState_def persist_fired_def persist_matched_def mark_send_def
      persistAlertEventRecord_def Let_def split: option.splits)

text \<open>
  Dispatching to one channel changes no cooldown and sends at most one event, numbered within
  the call; it reports the channel as fired exactly when it was sent.
\<close>

definition sends_le_one :: "string \<Rightarrow> AlertEvent \<Rightarrow> alert_world \<Rightarrow> alert_world \<Rightarrow> bool \<Rightarrow> bool" where
  "sends_le_one k evt w w' fired \<longleftrightarrow>
     aw_n w \<le> aw_n w' \<and> aw_cooldown w' = aw_cooldown w \<and>
     (if fired then \<exists>n. aw_n w \<le> n \<and> n < aw_n w' \<and> aw_sent w' = aw_sent w @ [(n, k, evt)]
      else aw_sent w' = aw_sent w)"

lemma sends_le_one_keeps:
  "sends_le_one k evt w w' f \<Longrightarrow> keeps_out w' w'' \<Longrightarrow> sends_le_one k evt w w'' f"
  "keeps_out w0 w \<Longrightarrow> sends_le_one k evt w w' f \<Longrightarrow> sends_le_one k evt w0 w' f"
  by (force simp: sends_le_one_def keeps_out_def)+

lemma send_to_sends:
  assumes "send_to E evt k c w = (w', err)"
  shows "sends_le_one k evt w w' (err = None)"
proof -
  let ?w1 = "next_n (if env_send E (aw_n w) c evt = None then w\<lparr>aw_sent := aw_sent w @ [(aw_n w, k, evt)]\<rparr> else w)"
  have "sends_le_one k evt w ?w1 (env_send E (aw_n w) c evt = None)"
    by (simp add: sends_le_one_def)
  moreover have "keeps_out ?w1 (mark_send E (ch_ID c) (env_send E (aw_n w) c evt) ?w1)" by simp
  ultimately have "sends_le_one k evt w (mark_send E (ch_ID c) (env_send E (aw_n w) c evt) ?w1) (env_send E (aw_n w) c evt = None)"
    by (rule sends_le_one_keeps(1))
  moreover from assms have "w' = mark_send E (ch_ID c) (env_send E (aw_n w) c evt) ?w1" "err = env_send E (aw_n w) c evt"
    unfolding send_to_def Let_def by blast+
  ultimately show ?thesis by (simp only:)
qed

lemma dispatch_one_sends:
  assumes "dispatch_one E evt k (w, \<lparr>dr_Fired = [], dr_Failed = [], dr_Skipped = []\<rparr>) = (w', res)"
  shows "sends_le_one k evt w w' (dr_Fired res \<noteq> [])"
proof (cases "load_channel E k w")
  case (Inl e)
  with assms show ?thesis by (auto simp: dispatch_one_def sends_le_one_def Let_def)
next
  case (Inr c)
  show ?thesis
  proof (cases "\<not> ch_Enabled c \<or> ev_Severity evt < ch_MinSeverity c \<or> SenderFor (env_lib E) c \<noteq> None")
    case True
    with Inr assms show ?thesis
      by (auto simp: dispatch_one_def sends_le_one_def Let_def split: if_splits option.splits)
  next
    case False
    obtain w2 err where s: "send_to E evt k c (next_n w) = (w2, err)" by fastforce
    with False Inr assms have "w' = w2" "dr_Fired res \<noteq> [] \<longleftrightarrow> err = None"
      by (auto simp: dispatch_one_def Let_def split: option.splits)
    with sends_le_one_keeps(2) [OF keeps_out_simps(1) send_to_sends [OF s]] show ?thesis by simp
  qed
qed

lemma Dispatch_sends:
  assumes "Dispatch E evt [k] w = (w', res)"
  shows "sends_le_one k evt w w' (dr_Fired res \<noteq> [])"
proof -
  obtain w1 r1 where d: "dispatch_one E evt k (w, \<lparr>dr_Fired = [], dr_Failed = [], dr_Skipped = []\<rparr>) = (w1, r1)"
    by fastforce
  with assms have "w' = persistAlertEventRecord E evt r1 w1" "res = r1"
    by (auto simp: Dispatch_def Let_def)
  with dispatch_one_sends [OF d] show ?thesis using sends_le_one_keeps(1) keeps_out_simps(6) by blast
qed

end
