(* ===== verification/AlertProps.thy ===== *)
theory AlertProps
  imports AlertWatch
begin

text \<open>
  What the watcher guarantees over any run: notifications of a threshold rule keep their
  distance, whatever the dispatcher, the stores and the other rules do; and where an edge of a
  state rule is lost.
\<close>

section \<open>Distance between notifications\<close>

text \<open>
  The rule \<open>R\<close> is stored as a threshold rule with a cooldown of at least \<open>C\<close> seconds that
  validation accepts. A listing that fails does not count: the tick does nothing.
\<close>

definition limited :: "string \<Rightarrow> int \<Rightarrow> AlertRule \<Rightarrow> bool" where
  "limited R C r \<longleftrightarrow> (ar_ID r = R \<longrightarrow>
     ar_Kind r \<noteq> ''state'' \<and> C \<le> ar_CooldownSecs r \<and> ar_CooldownSecs r \<le> RuleCooldownSecsMax)"

definition steady :: "string \<Rightarrow> int \<Rightarrow> AlertRule bucket \<Rightarrow> bool" where
  "steady R C b =
     (case ListAlertRules b of
        Inl _ \<Rightarrow> True
      | Inr rules \<Rightarrow> R \<in> ar_ID ` set rules \<and> (\<forall>r \<in> set rules. limited R C r))"

definition spaced :: "alert_env \<Rightarrow> string \<Rightarrow> int \<Rightarrow> (nat \<times> string \<times> AlertEvent) list \<Rightarrow> bool" where
  "spaced E R C ss = sorted_wrt (\<lambda>(n, k, e) (n', k', e').
     ev_RuleID e = R \<longrightarrow> ev_RuleID e' = R \<longrightarrow> k = k' \<longrightarrow> env_clock E n + C * ns_second \<le> env_clock E n') ss"

definition cool_inv :: "alert_env \<Rightarrow> string \<Rightarrow> int \<Rightarrow> alert_world \<Rightarrow> bool" where
  "cool_inv E R C w \<longleftrightarrow> gm_wf (aw_cooldown w) \<and> spaced E R C (aw_sent w) \<and>
     (\<forall>(n, k, e) \<in> set (aw_sent w). n < aw_n w \<and> (ev_RuleID e = R \<longrightarrow>
        (\<exists>t. gm_get (aw_cooldown w) (R, k) = Some t \<and> env_clock E n \<le> t) \<or>
        env_clock E n + C * ns_second \<le> env_clock E (aw_n w)))"

lemma cool_invI:
  assumes "gm_wf (aw_cooldown w)" and "spaced E R C (aw_sent w)"
    and "\<And>n k e. (n, k, e) \<in> set (aw_sent w) \<Longrightarrow> n < aw_n w"
    and "\<And>n k e. (n, k, e) \<in> set (aw_sent w) \<Longrightarrow> ev_RuleID e = R \<Longrightarrow>
        (\<exists>t. gm_get (aw_cooldown w) (R, k) = Some t \<and> env_clock E n \<le> t) \<or>
        env_clock E n + C * ns_second \<le> env_clock E (aw_n w)"
  shows "cool_inv E R C w"
  using assms unfolding cool_inv_def by fast

lemma cool_invD:
  assumes "cool_inv E R C w"
  shows "gm_wf (aw_cooldown w)" and "spaced E R C (aw_sent w)"
    and "(n, k, e) \<in> set (aw_sent w) \<Longrightarrow> n < aw_n w"
    and "(n, k, e) \<in> set (aw_sent w) \<Longrightarrow> ev_RuleID e = R \<Longrightarrow>
        (\<exists>t. gm_get (aw_cooldown w) (R, k) = Some t \<and> env_clock E n \<le> t) \<or>
        env_clock E n + C * ns_second \<le> env_clock E (aw_n w)"
  using assms unfolding cool_inv_def by fast+

lemma cool_inv_keeps:
  assumes "mono (env_clock E)" and "keeps_out w w'" and "cool_inv E R C w"
  shows "cool_inv E R C w'"
proof (rule cool_invI)
  note k = assms(2) [unfolded keeps_out_def] and inv = cool_invD [OF assms(3)]
  from monoD [OF assms(1)] k have le: "env_clock E (aw_n w) \<le> env_clock E (aw_n w')" by simp
  from inv(1,2) k show "gm_wf (aw_cooldown w')" "spaced E R C (aw_sent w')" by simp_all
  from inv(3) k show "n < aw_n w'" if "(n, c, e) \<in> set (aw_sent w')" for n c e using that by fastforce
  from inv(4) k le show "(\<exists>t. gm_get (aw_cooldown w') (R, c) = Some t \<and> env_clock E n \<le> t) \<or>
      env_clock E n + C * ns_second \<le> env_clock E (aw_n w')"
    if "(n, c, e) \<in> set (aw_sent w')" "ev_RuleID e = R" for n c e
    using that by fastforce
qed

text \<open>A channel that is not on cooldown was last notified long enough ago.\<close>

lemma cooldown_of_limited:
  assumes "limited R C r" and "ar_ID r = R" and "0 \<le> C"
  shows "C * ns_second \<le> cooldown_of r" and "cooldown_of r \<le> DefaultEvictionFloor"
proof -
  from assms have "C * ns_second \<le> ar_CooldownSecs r * ns_second" "ar_CooldownSecs r * ns_second \<le> 86400 * ns_second"
    "0 \<le> ar_CooldownSecs r * ns_second"
    by (simp_all add: limited_def RuleCooldownSecsMax_def ns_second_def)
  then show "C * ns_second \<le> cooldown_of r" "cooldown_of r \<le> DefaultEvictionFloor"
    by (simp_all add: cooldown_of_def wrap64_def DefaultEvictionFloor_def ns_defs)
qed

lemma long_ago:
  assumes "\<not> time_sub now t < d" and "0 \<le> d" and "d \<le> DefaultEvictionFloor"
  shows "t + d \<le> now"
proof -
  have "min_duration < d" "d \<le> max_duration"
    using assms(2,3) by (simp_all add: DefaultEvictionFloor_def ns_defs min_duration_def max_duration_def)
  with assms(1) time_sub_lt_iff show ?thesis by simp
qed

lemma free_channel:
  assumes "cool_inv E R C w" and "limited R C r" and "ar_ID r = R" and "0 \<le> C"
    and "\<not> OnCooldown (now_of E w) R k (cooldown_of r) (aw_cooldown w)"
    and "(n, k, e) \<in> set (aw_sent w)" and "ev_RuleID e = R"
  shows "env_clock E n + C * ns_second \<le> env_clock E (aw_n w)"
proof -
  note cd = cooldown_of_limited [OF assms(2,3,4)]
  have pos: "0 \<le> cooldown_of r" using cd(1) assms(4) by (simp add: ns_second_def)
  consider t where "gm_get (aw_cooldown w) (R, k) = Some t" "env_clock E n \<le> t" |
      "env_clock E n + C * ns_second \<le> env_clock E (aw_n w)"
    using cool_invD(4) [OF assms(1,6,7)] by blast
  then show ?thesis
  proof cases
    case (1 t)
    with assms(5) have "\<not> time_sub (now_of E w) t < cooldown_of r" by (simp add: OnCooldown_def)
    from long_ago [OF this pos cd(2)] 1(2) cd(1) show ?thesis by (simp add: now_of_def)
  qed
qed

lemma spaced_snoc:
  assumes "spaced E R C ss"
    and "\<And>m e'. (m, k, e') \<in> set ss \<Longrightarrow> ev_RuleID e' = R \<Longrightarrow> ev_RuleID e = R \<Longrightarrow>
      env_clock E m + C * ns_second \<le> env_clock E n"
  shows "spaced E R C (ss @ [(n, k, e)])"
  using assms unfolding spaced_def sorted_wrt_append by (auto simp: ns_second_def)

lemma cool_inv_send:
  assumes clk: "mono (env_clock E)" and inv: "cool_inv E R C w" and lim: "limited R C r" and "0 \<le> C"
    and free: "ar_ID r = R \<Longrightarrow> \<not> OnCooldown (now_of E w) R k (cooldown_of r) (aw_cooldown w)"
    and s: "sends_le_one k evt (next_n (next_n w)) w2 True" and evt: "ev_RuleID evt = ar_ID r"
  shows "cool_inv E R C (next_n (w2\<lparr>aw_cooldown := Mark (now_of E w2) (ar_ID r) k (aw_cooldown w2)\<rparr>))"
    (is "cool_inv E R C ?w3")
proof -
  from s obtain n where n: "aw_n w \<le> n" "n < aw_n w2" "aw_sent w2 = aw_sent w @ [(n, k, evt)]"
    "aw_cooldown w2 = aw_cooldown w" by (auto simp: sends_le_one_def)
  note I = cool_invD [OF inv] and le = monoD [OF clk]
  have old: "env_clock E m + C * ns_second \<le> env_clock E n"
    if "(m, k, e) \<in> set (aw_sent w)" "ev_RuleID e = R" "ar_ID r = R" for m e
    using free_channel [OF inv lim that(3) \<open>0 \<le> C\<close> free [OF that(3)] that(1,2)] le [OF n(1)] by simp
  show ?thesis
  proof (rule cool_invI)
    show "gm_wf (aw_cooldown ?w3)" using I(1) n(4) by (simp add: Mark_def)
    show "spaced E R C (aw_sent ?w3)"
      using spaced_snoc [OF I(2), of k evt n] old evt n(3) by simp
    show "m < aw_n ?w3" if "(m, c, e) \<in> set (aw_sent ?w3)" for m c e
      using that I(3) n(1,2,3) by fastforce
    show "(\<exists>t. gm_get (aw_cooldown ?w3) (R, c) = Some t \<and> env_clock E m \<le> t) \<or>
        env_clock E m + C * ns_second \<le> env_clock E (aw_n ?w3)"
      if e: "(m, c, e) \<in> set (aw_sent ?w3)" "ev_RuleID e = R" for m c e
    proof (cases "(m, c, e) \<in> set (aw_sent w) \<and> \<not> (ar_ID r = R \<and> c = k)")
      case True
      then have g: "gm_get (aw_cooldown ?w3) (R, c) = gm_get (aw_cooldown w) (R, c)" using n(4) by (auto simp: Mark_def)
      have up: "env_clock E (aw_n w) \<le> env_clock E (aw_n ?w3)" using n(1,2) by (intro le) simp
      from True have "(m, c, e) \<in> set (aw_sent w)" by simp
      from I(4) [OF this e(2)] show ?thesis
      proof
        assume "\<exists>t. gm_get (aw_cooldown w) (R, c) = Some t \<and> env_clock E m \<le> t"
        then show ?thesis unfolding g by (rule disjI1)
      qed (use up in linarith)
    next
      case False
      with e n(3) have c: "ar_ID r = R" "c = k" using evt by auto
      have "env_clock E m \<le> now_of E w2"
        using e(1) I(3) [of m c e] n le [of m "aw_n w2"] by (fastforce simp: now_of_def)
      with c show ?thesis by (auto simp: Mark_def)
    qed
  qed
qed

text \<open>The invariant through one channel, one rule and one tick.\<close>

lemma notify_channel_inv:
  assumes "mono (env_clock E)" and "cool_inv E R C w" and "limited R C r" and "0 \<le> C"
  shows "cool_inv E R C (fst (notify_channel E r val now k (w, fired)))"
proof (cases "ar_Kind r \<noteq> ''state'' \<and> OnCooldown (now_of E w) (ar_ID r) k (cooldown_of r) (aw_cooldown w)")
  case True
  then show ?thesis
    using cool_inv_keeps [OF assms(1) keeps_out_simps(1) assms(2)] by (simp add: notify_channel_def)
next
  case False
  let ?evt = "buildAlertEvent E r val now (aw_n (next_n w))"
  obtain w2 res where d: "Dispatch E ?evt [k] (next_n (next_n w)) = (w2, res)" by fastforce
  note s = Dispatch_sends [OF d]
  show ?thesis
  proof (cases "dr_Fired res = []")
    case True
    with s have "keeps_out w w2" by (simp add: sends_le_one_def keeps_out_def)
    with False True d cool_inv_keeps [OF assms(1) _ assms(2)] show ?thesis
      by (auto simp: notify_channel_def Let_def)
  next
    case fired: False
    have free: "\<not> OnCooldown (now_of E w) R k (cooldown_of r) (aw_cooldown w)" if "ar_ID r = R"
      using False assms(3) that by (auto simp: limited_def)
    have "ev_RuleID ?evt = ar_ID r" by (simp add: buildAlertEvent_def)
    with cool_inv_send [OF assms free _ this, of w2] s fired
    have "cool_inv E R C (next_n (w2\<lparr>aw_cooldown := Mark (now_of E w2) (ar_ID r) k (aw_cooldown w2)\<rparr>))" by simp
    with False fired d show ?thesis by (auto simp: notify_channel_def Let_def)
  qed
qed

lemma notify_channels_inv:
  assumes "mono (env_clock E)" and "limited R C r" and "0 \<le> C"
  shows "cool_inv E R C w \<Longrightarrow> cool_inv E R C (fst (fold (notify_channel E r val now) ks (w, fired)))"
proof (induction ks arbitrary: w fired)
  case (Cons k ks)
  obtain w' fired' where s: "notify_channel E r val now k (w, fired) = (w', fired')" by fastforce
  with notify_channel_inv [OF assms(1) Cons.prems assms(2,3)] have "cool_inv E R C w'" by (metis fst_conv)
  with Cons.IH s show ?case by simp
qed simp

lemma notify_inv:
  assumes "mono (env_clock E)" and "limited R C r" and "0 \<le> C" and "cool_inv E R C w"
  shows "cool_inv E R C (notify E r val now w)"
proof -
  obtain w1 cf where f: "fold (notify_channel E r val now) (ar_Channels r) (w, []) = (w1, cf)" by fastforce
  with notify_channels_inv [OF assms(1,2,3,4)] have i: "cool_inv E R C w1" by (metis fst_conv)
  have "keeps_out w1 (notify E r val now w)"
    using f keeps_out_trans [OF keeps_out_simps(3) keeps_out_simps(4)] by (auto simp: notify_def Let_def)
  with i cool_inv_keeps [OF assms(1)] show ?thesis by blast
qed

lemma evalOneRule_inv:
  assumes "mono (env_clock E)" and "limited R C r" and "0 \<le> C" and "cool_inv E R C w"
  shows "cool_inv E R C (evalOneRule E r w)"
proof -
  note k = cool_inv_keeps [OF assms(1)]
  have react: "cool_inv E R C (react E r val now fired v)" if "cool_inv E R C v" for val now fired v
    using that notify_inv [OF assms(1,2,3)] k [OF keeps_out_simps(4)] by (simp add: react_def)
  have 1: "cool_inv E R C (next_n w)" "cool_inv E R C (next_n (next_n w))"
    by (rule k [OF keeps_out_simps(1)] assms(4))+
  have p: "cool_inv E R C (persistEvalState E i t e v)" if "cool_inv E R C v" for i t e v
    by (rule k [OF keeps_out_simps(2) that])
  show ?thesis
    unfolding evalOneRule_def Let_def by (auto split: sum.splits intro: react p 1)
qed

lemma evict_turn_inv:
  assumes "mono (env_clock E)" and "R \<in> ar_ID ` set rules" and "cool_inv E R C w" and "C \<le> RuleCooldownSecsMax"
  shows "cool_inv E R C (evict_turn E rules w)"
proof -
  note I = cool_invD [OF assms(3)] and le = monoD [OF assms(1)]
  let ?w' = "evict_turn E rules w"
  have c: "aw_cooldown ?w' = filter (\<lambda>((i, _), t). \<not> time_sub (now_of E w) t \<ge> DefaultEvictionFloor \<and> i \<in> ar_ID ` set rules)
      (aw_cooldown w)" "aw_sent ?w' = aw_sent w" "aw_n ?w' = Suc (aw_n w)"
    by (simp_all add: evict_turn_def EvictStale_def)
  show ?thesis
  proof (rule cool_invI)
    show "gm_wf (aw_cooldown ?w')" using I(1) c(1) by simp
    show "spaced E R C (aw_sent ?w')" using I(2) c(2) by simp
    show "n < aw_n ?w'" if "(n, k, e) \<in> set (aw_sent ?w')" for n k e using that I(3) [of n k e] c by simp
    show "(\<exists>t. gm_get (aw_cooldown ?w') (R, k) = Some t \<and> env_clock E n \<le> t) \<or>
        env_clock E n + C * ns_second \<le> env_clock E (aw_n ?w')"
      if e: "(n, k, e) \<in> set (aw_sent ?w')" "ev_RuleID e = R" for n k e
    proof -
      have up: "env_clock E (aw_n w) \<le> env_clock E (aw_n ?w')" using c(3) by (intro le) simp
      from e c(2) have "(n, k, e) \<in> set (aw_sent w)" by simp
      from I(4) [OF this e(2)] show ?thesis
      proof
        assume "\<exists>t. gm_get (aw_cooldown w) (R, k) = Some t \<and> env_clock E n \<le> t"
        then obtain t where t: "gm_get (aw_cooldown w) (R, k) = Some t" "env_clock E n \<le> t" by blast
        show ?thesis
        proof (cases "time_sub (now_of E w) t < DefaultEvictionFloor")
          case True
          with t assms(2) have "((R, k), t) \<in> set (aw_cooldown ?w')"
            using gm_get_iff [OF I(1)] by (simp add: c(1))
          then have "gm_get (aw_cooldown ?w') (R, k) = Some t"
            using gm_get_iff [of "aw_cooldown ?w'"] I(1) c(1) by simp
          with t(2) show ?thesis by blast
        next
          case False
          from long_ago [OF this] have "t + DefaultEvictionFloor \<le> env_clock E (aw_n w)"
            by (simp add: DefaultEvictionFloor_def ns_defs now_of_def)
          with t(2) up assms(4) show ?thesis
            by (simp add: DefaultEvictionFloor_def ns_defs RuleCooldownSecsMax_def)
        qed
      next
        assume "env_clock E n + C * ns_second \<le> env_clock E (aw_n w)"
        with up show ?thesis by simp
      qed
    qed
  qed
qed

lemma watcher_tick_inv:
  assumes "mono (env_clock E)" and "0 \<le> C" and "C \<le> RuleCooldownSecsMax" and "steady R C (aw_rules w)" and "cool_inv E R C w"
  shows "cool_inv E R C (watcher_tick E w)"
proof (cases "env_fail E (aw_n w) ListRules \<or> isl (ListAlertRules (aw_rules w))")
  case True
  with cool_inv_keeps [OF assms(1) keeps_out_simps(1) assms(5)] show ?thesis
    by (auto simp: watcher_tick_def Let_def split: sum.splits)
next
  case False
  then obtain rules where l: "ListAlertRules (aw_rules w) = Inr rules" by (cases "ListAlertRules (aw_rules w)") auto
  with assms(4) have r: "R \<in> ar_ID ` set rules" "\<forall>r \<in> set rules. limited R C r" by (simp_all add: steady_def)
  have "cool_inv E R C (fold (evalOneRule E) rs v)" if "cool_inv E R C v" "set rs \<subseteq> set rules" for rs v
    using that r(2) by (induction rs arbitrary: v) (simp_all add: evalOneRule_inv [OF assms(1) _ assms(2)])
  moreover have "cool_inv E R C (evict_turn E rules (next_n w))"
    by (rule evict_turn_inv [OF assms(1) r(1) cool_inv_keeps [OF assms(1) keeps_out_simps(1) assms(5)] assms(3)])
  ultimately show ?thesis using False l by (auto simp: watcher_tick_def Let_def)
qed

lemma watch_run_inv:
  assumes "watch_run E (steady R C) w" and "mono (env_clock E)" and "0 \<le> C" and "C \<le> RuleCooldownSecsMax"
  shows "cool_inv E R C w"
  using assms(1)
proof induction
  case (start w)
  then show ?case by (intro cool_invI) (simp_all add: spaced_def)
next
  case (tick w)
  with watcher_tick_inv [OF assms(2,3,4)] show ?case by blast
next
  case (admin w rs cs)
  then show ?case by (simp add: cool_inv_def)
qed

text \<open>
  C32: Two notifications of a threshold rule to the same channel are never closer together than
  the rule's cooldown. This holds for every run of the watcher, whatever sources report, however
  deliveries and transactions fail and whatever administrators change, as long as the rule stays
  stored with a cooldown of at least \<open>C\<close> seconds that validation accepts: the eviction of old
  entries at the start of each tick never cuts an accepted cooldown short.
\<close>

theorem notifications_keep_distance:
  assumes "watch_run E (steady R C) w" and "mono (env_clock E)" and "0 \<le> C" and "C \<le> RuleCooldownSecsMax"
    and "i < j" and "j < length (aw_sent w)"
    and "aw_sent w ! i = (n, k, e)" and "aw_sent w ! j = (n', k, e')" and "ev_RuleID e = R" and "ev_RuleID e' = R"
  shows "env_clock E n + C * ns_second \<le> env_clock E n'"
proof -
  have "spaced E R C (aw_sent w)" using cool_invD(2) [OF watch_run_inv [OF assms(1-4)]] .
  from sorted_wrt_nth_less [OF this [unfolded spaced_def] assms(5,6)] assms(7-10) show ?thesis by simp
qed

text \<open>An environment in which every reading matches and channel \<open>b\<close> is down at first.\<close>

definition sample_alert_lib :: alert_lib where
  "sample_alert_lib = \<lparr>al_go = \<lparr>lib_lower = (\<lambda>s. s),
       lib_url = (\<lambda>s. Some \<lparr>url_Scheme = ''https'', url_Host = ''hooks.home'', url_Path = ''/x''\<rparr>), lib_duration = (\<lambda>_. None),
       lib_regexp = (\<lambda>_. True), lib_canonical = (\<lambda>s. s), lib_seclang = (\<lambda>_. True), lib_quote = (\<lambda>s. s)\<rparr>,
     al_json = (\<lambda>_. True), al_threshold = (\<lambda>_. Some (''>'', 3)), al_state = (\<lambda>s. Some s),
     al_webhook = (\<lambda>s. Some \<lparr>wh_URL = s, wh_Method = [], wh_Headers = [], wh_TimeoutSeconds = 0, wh_BodyTemplate = []\<rparr>),
     al_email = (\<lambda>_. None), al_discord = (\<lambda>_. None), al_mail = (\<lambda>_. True), al_uint = (\<lambda>_. True),
     al_compile = (\<lambda>_. True), al_render = (\<lambda>t _ _ _. Some t), al_marshal_map = (\<lambda>_. ''{}''),
     al_marshal_context = (\<lambda>_. Some ''{}''), al_marshal_list = (\<lambda>_. ''[]'')\<rparr>"

definition sample_alert_env :: alert_env where
  "sample_alert_env = \<lparr>env_lib = sample_alert_lib, env_clock = (\<lambda>n. int n * ns_minute), env_fail = (\<lambda>_ _. False),
     env_uuid = (\<lambda>_. ''u''), env_source = (\<lambda>_. True),
     env_read = (\<lambda>_ _ _. Inr \<lparr>sv_Float = Some 5, sv_String = Some ''down'', sv_Labels = [], sv_Context = []\<rparr>),
     env_send = (\<lambda>n c _. if ch_ID c = ''b'' \<and> n < 20 then Some ''timeout'' else None), env_history = True\<rparr>"

definition sample_rule :: "string \<Rightarrow> AlertRule" where
  "sample_rule kind = \<lparr>ar_ID = ''r'', ar_Name = ''many'', ar_Enabled = True, ar_Kind = kind, ar_Severity = 2,
     ar_Category = [], ar_Source = ''waf'', ar_SourceParams = ''{}'', ar_EvalParams = ''down'', ar_Channels = [''a'', ''b''],
     ar_CooldownSecs = 60, ar_SubjectTemplate = [], ar_BodyTemplate = [], ar_CreatedAt = 0, ar_UpdatedAt = 0,
     ar_LastFiredAt = None, ar_LastEvalAt = None, ar_LastError = [], ar_LastErrorAt = None, ar_LastMatched = False\<rparr>"

definition sample_channel :: "string \<Rightarrow> Channel" where
  "sample_channel k = \<lparr>ch_ID = k, ch_Name = k, ch_Kind = ''webhook'', ch_Enabled = True, ch_MinSeverity = 1,
     ch_Config = ''https://hooks.home/x'', ch_LastSentAt = None, ch_LastError = [], ch_LastErrorAt = None,
     ch_CreatedAt = 0, ch_UpdatedAt = 0\<rparr>"

definition sample_world :: "string \<Rightarrow> alert_world" where
  "sample_world kind = \<lparr>aw_rules = [(''r'', Some (sample_rule kind))],
     aw_channels = [(''a'', Some (sample_channel ''a'')), (''b'', Some (sample_channel ''b''))],
     aw_cooldown = [], aw_history = [], aw_sent = [], aw_n = 0\<rparr>"

lemma sample_two_ticks:
  "map (\<lambda>(n, k, e). (n, k, ev_RuleID e)) (aw_sent (watcher_tick sample_alert_env (watcher_tick sample_alert_env (sample_world ''threshold'')))) =
    [(8, ''a'', ''r''), (27, ''a'', ''r''), (34, ''b'', ''r'')]"
  by code_simp

theorem notifications_keep_distance_witness:
  "\<exists>n n'. map (\<lambda>(n, k, e). (n, k, ev_RuleID e))
      (aw_sent (watcher_tick sample_alert_env (watcher_tick sample_alert_env (sample_world ''threshold'')))) =
      [(n, ''a'', ''r''), (n', ''a'', ''r''), (34, ''b'', ''r'')] \<and>
    env_clock sample_alert_env n + 60 * ns_second \<le> env_clock sample_alert_env n'"
proof -
  let ?E = sample_alert_env
  let ?w = "watcher_tick ?E (watcher_tick ?E (sample_world ''threshold''))"
  have st: "steady ''r'' 60 (aw_rules (sample_world ''threshold''))"
    "steady ''r'' 60 (aw_rules (watcher_tick ?E (sample_world ''threshold'')))" by code_simp+
  have "watch_run ?E (steady ''r'' 60) (sample_world ''threshold'')"
    by (rule watch_run.start) (simp_all add: sample_world_def)
  from watch_run.tick [OF watch_run.tick [OF this st(1)] st(2)] have run: "watch_run ?E (steady ''r'' 60) ?w" .
  have m: "mono (env_clock ?E)" by (simp add: sample_alert_env_def monoI ns_defs)
  from sample_two_ticks obtain e1 e2 e3 where s: "aw_sent ?w = [(8, ''a'', e1), (27, ''a'', e2), (34, ''b'', e3)]"
    "ev_RuleID e1 = ''r''" "ev_RuleID e2 = ''r''" by auto
  from notifications_keep_distance [OF run m, of 0 1 8 "''a''" e1 27 e2] s
  have "env_clock ?E 8 + 60 * ns_second \<le> env_clock ?E 27" by (simp add: RuleCooldownSecsMax_def)
  with sample_two_ticks show ?thesis by (intro exI [of _ 8] exI [of _ 27] conjI)
qed

section \<open>The edge of a state rule\<close>

text \<open>The only stored rule is a state rule that has fired and whose source still reports its state.\<close>

definition still_matching :: "alert_env \<Rightarrow> AlertRule \<Rightarrow> bool" where
  "still_matching E r \<longleftrightarrow> env_source E (ar_Source r) \<and> ar_Kind r = ''state'' \<and> ar_ID r \<noteq> [] \<and>
     (\<forall>n. \<exists>val. env_read E n (ar_Source r) (ar_SourceParams r) = Inr val \<and>
        State_Evaluate (env_lib E) val (ar_EvalParams r) = Inr True)"

definition latched :: "alert_env \<Rightarrow> alert_world \<Rightarrow> bool" where
  "latched E w \<longleftrightarrow> (\<exists>r. aw_rules w = [(ar_ID r, Some r)] \<and> ar_LastMatched r \<and> still_matching E r)"

lemma ListAlertRules_single [simp]: "ListAlertRules [(k, Some r)] = Inr [r]"
  by (simp add: ListAlertRules_def bucket_list_def)

lemma still_matching_eval_state [simp]: "still_matching E (eval_state ts e r) = still_matching E r"
  by (simp add: still_matching_def eval_state_def)

lemma modify_single:
  "k \<noteq> [] \<Longrightarrow> fst (modify_rule k f [(k, Some r)]) = [(k, Some (f r))]"
  by (simp add: modify_rule_def bucket_modify_def bucket_get_def)

lemma eval_still_matching:
  assumes "still_matching E r"
  obtains val where "evalOneRule E r w = react E r val (now_of E w) True
    (persistEvalState E (ar_ID r) (now_of E w) None (next_n (next_n w)))"
proof -
  from assms obtain val where "env_read E (aw_n (next_n w)) (ar_Source r) (ar_SourceParams r) = Inr val"
    "State_Evaluate (env_lib E) val (ar_EvalParams r) = Inr True"
    unfolding still_matching_def by blast
  with assms have "evalOneRule E r w = react E r val (now_of E w) True
      (persistEvalState E (ar_ID r) (now_of E w) None (next_n (next_n w)))"
    by (simp add: evalOneRule_def still_matching_def rule_evaluate_def Let_def)
  then show ?thesis by (rule that)
qed

lemma latched_tick:
  assumes "latched E w"
  shows "latched E (watcher_tick E w) \<and> aw_sent (watcher_tick E w) = aw_sent w"
proof -
  from assms obtain r where r: "aw_rules w = [(ar_ID r, Some r)]" "ar_LastMatched r" "still_matching E r"
    by (auto simp: latched_def)
  let ?w1 = "evict_turn E [r] (next_n w)"
  have w1: "aw_rules ?w1 = aw_rules w" "aw_sent ?w1 = aw_sent w" by (simp_all add: evict_turn_def)
  show ?thesis
  proof (cases "env_fail E (aw_n w) ListRules \<or> \<not> ar_Enabled r")
    case True
    with r w1 have "aw_rules (watcher_tick E w) = aw_rules w" "aw_sent (watcher_tick E w) = aw_sent w"
      by (auto simp: watcher_tick_def Let_def)
    with assms show ?thesis by (simp add: latched_def)
  next
    case False
    with r have t: "watcher_tick E w = evalOneRule E r ?w1" by (simp add: watcher_tick_def Let_def)
    obtain val where "evalOneRule E r ?w1 = react E r val (now_of E ?w1) True
        (persistEvalState E (ar_ID r) (now_of E ?w1) None (next_n (next_n ?w1)))"
      using eval_still_matching [OF r(3)] .
    with r have e: "watcher_tick E w = persistEvalState E (ar_ID r) (now_of E ?w1) None (next_n (next_n ?w1))"
      by (simp add: t react_def still_matching_def)
    have "\<exists>r'. aw_rules (watcher_tick E w) = [(ar_ID r', Some r')] \<and> ar_LastMatched r' \<and> still_matching E r'"
    proof (cases "env_fail E (aw_n (next_n (next_n ?w1))) (StoreEval (ar_ID r))")
      case True
      with e r w1 show ?thesis by (auto simp: persistEvalState_def)
    next
      case False
      let ?r' = "eval_state (now_of E ?w1) None r"
      from False e r w1 have "aw_rules (watcher_tick E w) = [(ar_ID r, Some ?r')]"
        by (simp add: persistEvalState_def UpdateAlertRuleEvalState_def modify_single still_matching_def)
      moreover have "ar_ID ?r' = ar_ID r" "ar_LastMatched ?r'" using r(2) by (simp_all add: eval_state_def)
      ultimately show ?thesis using r(3) by (intro exI [of _ ?r']) simp
    qed
    moreover have "aw_sent (watcher_tick E w) = aw_sent w"
      using e w1 keeps_out_simps(2) [of "next_n (next_n ?w1)"] by (simp add: keeps_out_def)
    ultimately show ?thesis by (simp add: latched_def)
  qed
qed

lemma latched_ticks: "latched E w \<Longrightarrow> aw_sent ((watcher_tick E ^^ m) w) = aw_sent w \<and> latched E ((watcher_tick E ^^ m) w)"
  by (induction m) (use latched_tick in auto)

text \<open>Dispatching leaves the rules alone, and a delivery puts the channel on the list of fired ones.\<close>

lemma dispatch_rules [simp]:
  "aw_rules (mark_send E k r w) = aw_rules w" "aw_rules (persistAlertEventRecord E evt res w) = aw_rules w"
  "aw_rules (fst (send_to E evt k c w)) = aw_rules w"
  by (auto simp: mark_send_def persistAlertEventRecord_def send_to_def Let_def split: option.splits)

lemma dispatch_one_rules [simp]: "aw_rules (fst (dispatch_one E evt k (w, res))) = aw_rules w"
proof -
  have s: "aw_rules w' = aw_rules v" if "send_to E evt k c v = (w', e)" for c v w' e
    using dispatch_rules(3) [of E evt k c v] that by simp
  show ?thesis
    by (auto simp: dispatch_one_def Let_def split: sum.splits option.splits prod.splits dest: s)
qed

lemma Dispatch_rules:
  assumes "Dispatch E evt [k] w = (w', res)"
  shows "aw_rules w' = aw_rules w"
proof -
  obtain w1 r1 where d: "dispatch_one E evt k (w, \<lparr>dr_Fired = [], dr_Failed = [], dr_Skipped = []\<rparr>) = (w1, r1)"
    by fastforce
  with dispatch_one_rules have "aw_rules w1 = aw_rules w" by (metis fst_conv)
  with d assms show ?thesis by (auto simp: Dispatch_def Let_def)
qed

lemma notify_channel_fired:
  assumes "notify_channel E r val now k (w, fired) = (w', fired')"
  shows "aw_rules w' = aw_rules w" and "aw_sent w' \<noteq> aw_sent w \<or> fired \<noteq> [] \<Longrightarrow> fired' \<noteq> []"
proof -
  obtain w2 res where d: "Dispatch E (buildAlertEvent E r val now (aw_n (next_n w))) [k] (next_n (next_n w)) = (w2, res)"
    by fastforce
  have "aw_rules w2 = aw_rules w" "dr_Fired res = [] \<Longrightarrow> aw_sent w2 = aw_sent w"
    using Dispatch_rules [OF d] Dispatch_sends [OF d] by (simp_all add: sends_le_one_def)
  with assms d show "aw_rules w' = aw_rules w" "aw_sent w' \<noteq> aw_sent w \<or> fired \<noteq> [] \<Longrightarrow> fired' \<noteq> []"
    by (auto simp: notify_channel_def Let_def split: if_splits)
qed

lemma notify_channels_fired:
  assumes "fold (notify_channel E r val now) ks (w, fired) = (w', fired')"
  shows "aw_rules w' = aw_rules w \<and> (aw_sent w' \<noteq> aw_sent w \<or> fired \<noteq> [] \<longrightarrow> fired' \<noteq> [])"
  using assms
proof (induction ks arbitrary: w fired)
  case (Cons k ks)
  obtain w1 f1 where c: "notify_channel E r val now k (w, fired) = (w1, f1)" by fastforce
  with Cons.prems have "fold (notify_channel E r val now) ks (w1, f1) = (w', fired')" by simp
  from Cons.IH [OF this] notify_channel_fired [OF c] show ?case by (cases "aw_sent w1 = aw_sent w") auto
qed auto

text \<open>
  A state rule reports its edge once. As soon as one of its channels has taken the
  notification, no later tick sends anything for the rule while its source keeps reporting the
  state: not a second time to that channel, but not to a channel whose delivery failed in the
  first tick either. The failed delivery is not retried.
\<close>

theorem state_edge_consumed:
  assumes "aw_rules w = [(ar_ID r, Some r)]" and "still_matching E r" and "\<forall>n t. \<not> env_fail E n t"
    and "aw_sent (watcher_tick E w) \<noteq> aw_sent w"
  shows "aw_sent ((watcher_tick E ^^ Suc m) w) = aw_sent (watcher_tick E w)"
proof -
  let ?w1 = "evict_turn E [r] (next_n w)"
  have w1: "aw_rules ?w1 = aw_rules w" "aw_sent ?w1 = aw_sent w" by (simp_all add: evict_turn_def)
  have t: "watcher_tick E w = fold (evalOneRule E) (filter ar_Enabled [r]) ?w1"
    using assms(1,3) by (simp add: watcher_tick_def Let_def)
  with assms(4) w1 have en: "ar_Enabled r" by (auto split: if_splits)
  have "latched E (watcher_tick E w)"
  proof (cases "ar_LastMatched r")
    case True
    with assms(1,2) show ?thesis using latched_tick [of E w] by (auto simp: latched_def)
  next
    case False
    let ?w2 = "persistEvalState E (ar_ID r) (now_of E ?w1) None (next_n (next_n ?w1))"
    let ?r2 = "eval_state (now_of E ?w1) None r"
    obtain val where "evalOneRule E r ?w1 = react E r val (now_of E ?w1) True ?w2"
      using eval_still_matching [OF assms(2)] .
    with t en False assms(2) have n: "watcher_tick E w = notify E r val (now_of E ?w1) ?w2"
      by (simp add: react_def still_matching_def)
    have w2: "aw_rules ?w2 = [(ar_ID r, Some ?r2)]" "aw_sent ?w2 = aw_sent w"
      using assms(1,2,3) w1 keeps_out_simps(2) [of "next_n (next_n ?w1)" E "ar_ID r" "now_of E ?w1" None]
      by (simp_all add: persistEvalState_def UpdateAlertRuleEvalState_def modify_single still_matching_def keeps_out_def)
    obtain w3 cf where f: "fold (notify_channel E r val (now_of E ?w1)) (ar_Channels r) (?w2, []) = (w3, cf)" by fastforce
    note fired = conjunct1 [OF notify_channels_fired [OF f]] mp [OF conjunct2 [OF notify_channels_fired [OF f]]]
    have "cf \<noteq> []"
    proof
      assume "cf = []"
      with n f have "watcher_tick E w = w3" by (simp add: notify_def)
      with fired(2) \<open>cf = []\<close> w2(2) assms(4) show False by auto
    qed
    let ?w4 = "persist_fired E (ar_ID r) (now_of E ?w1) w3"
    let ?r4 = "?r2\<lparr>ar_LastFiredAt := Some (now_of E ?w1), ar_UpdatedAt := now_of E ?w1\<rparr>"
    have "watcher_tick E w = persist_matched E (ar_ID r) True ?w4"
      using n f \<open>cf \<noteq> []\<close> assms(2) by (simp add: notify_def Let_def still_matching_def)
    moreover have "aw_rules ?w4 = [(ar_ID r, Some ?r4)]"
      using assms(2,3) fired(1) w2(1)
      by (simp add: persist_fired_def UpdateAlertRuleFiredState_def modify_single still_matching_def)
    ultimately obtain ts where "aw_rules (watcher_tick E w) = [(ar_ID r, Some (?r4\<lparr>ar_LastMatched := True, ar_UpdatedAt := ts\<rparr>))]"
      using assms(2,3)
      by (simp add: persist_matched_def UpdateAlertRuleLastMatched_def modify_single still_matching_def)
    then show ?thesis
      using assms(2) by (auto simp: latched_def still_matching_def eval_state_def)
  qed
  from latched_ticks [OF this, of m] show ?thesis by (simp add: funpow_swap1)
qed

theorem state_edge_consumed_witness:
  "map (\<lambda>(n, k, e). k) (aw_sent ((watcher_tick sample_alert_env ^^ Suc 50) (sample_world ''state''))) = [''a'']"
proof -
  have s: "map (\<lambda>(n, k, e). k) (aw_sent (watcher_tick sample_alert_env (sample_world ''state''))) = [''a'']" by code_simp
  have "aw_sent ((watcher_tick sample_alert_env ^^ Suc 50) (sample_world ''state'')) =
      aw_sent (watcher_tick sample_alert_env (sample_world ''state''))"
  proof (rule state_edge_consumed [of _ "sample_rule ''state''"])
    show "aw_rules (sample_world ''state'') = [(ar_ID (sample_rule ''state''), Some (sample_rule ''state''))]"
      by (simp add: sample_world_def sample_rule_def)
    show "still_matching sample_alert_env (sample_rule ''state'')"
      by (simp add: still_matching_def sample_alert_env_def sample_rule_def State_Evaluate_def sample_alert_lib_def)
    show "aw_sent (watcher_tick sample_alert_env (sample_world ''state'')) \<noteq> aw_sent (sample_world ''state'')"
      using s by (auto simp: sample_world_def)
  qed (simp add: sample_alert_env_def)
  with s show ?thesis by (simp only:)
qed

end
