(* ===== verification/AlertLive.thy ===== *)
theory AlertLive
  imports AlertProps
begin

text \<open>
  A matched rule reaches its working channels within one tick, whatever happens to other rules
  and other channels. Each operation of the tick keeps the channel \<open>k\<close> ready for rule \<open>R\<close>, or has
  delivered to it.
\<close>

section \<open>Readiness\<close>

definition deliverable :: "alert_env \<Rightarrow> string \<Rightarrow> int \<Rightarrow> alert_world \<Rightarrow> bool" where
  "deliverable E k sev w \<longleftrightarrow> k \<noteq> [] \<and>
     (\<exists>c. gm_get (aw_channels w) k = Some (Some c) \<and> ch_ID c = k \<and> ch_Enabled c \<and> ch_MinSeverity c \<le> sev \<and>
        SenderFor (env_lib E) c = None)"

definition delivered :: "string \<Rightarrow> string \<Rightarrow> alert_world \<Rightarrow> alert_world \<Rightarrow> bool" where
  "delivered R k w0 w \<longleftrightarrow> (\<exists>n e. (n, k, e) \<in> set (aw_sent w) \<and> aw_n w0 \<le> n \<and> ev_RuleID e = R)"

definition ready :: "alert_env \<Rightarrow> string \<Rightarrow> string \<Rightarrow> int \<Rightarrow> duration \<Rightarrow> alert_world \<Rightarrow> bool" where
  "ready E R k sev cd w \<longleftrightarrow> deliverable E k sev w \<and> \<not> OnCooldown (now_of E w) R k cd (aw_cooldown w)"

text \<open>
  The list of rules and the channel \<open>k\<close> can be read and deliveries to \<open>k\<close> succeed. Every other
  transaction may fail, for this rule and for others: the evaluation state, the fired and matched
  marks, the send results, the history, the reading of other channels; so may deliveries to these.
\<close>

definition healthy :: "alert_env \<Rightarrow> string \<Rightarrow> bool" where
  "healthy E k \<longleftrightarrow> mono (env_clock E) \<and> (\<forall>n. \<not> env_fail E n ListRules \<and> \<not> env_fail E n (LoadChannel k)) \<and> (\<forall>n c e. ch_ID c = k \<longrightarrow> env_send E n c e = None)"

section \<open>Steps\<close>

definition calm :: "alert_world \<Rightarrow> alert_world \<Rightarrow> bool" where
  "calm w w' \<longleftrightarrow> keeps_out w w' \<and> aw_channels w' = aw_channels w"

lemma calm_simps [simp]:
  "calm w (next_n w)" "calm w (persistEvalState E i t e w)" "calm w (persist_fired E i t w)" "calm w (persist_matched E i b w)"
  "calm w (persistAlertEventRecord E evt res w)"
  by (simp_all add: calm_def)
    (auto simp: persistEvalState_def persist_fired_def persist_matched_def persistAlertEventRecord_def Let_def
      split: option.splits)

lemma calm_trans: "calm w w' \<Longrightarrow> calm w' w'' \<Longrightarrow> calm w w''"
  using keeps_out_trans by (auto simp: calm_def)

lemma delivered_mono:
  "set (aw_sent w) \<subseteq> set (aw_sent w') \<Longrightarrow> delivered R k w0 w \<Longrightarrow> delivered R k w0 w'"
  by (auto simp: delivered_def)

lemma not_on_cooldown_later:
  assumes "now \<le> now'" and "\<not> OnCooldown now R k cd m"
  shows "\<not> OnCooldown now' R k cd m"
proof (cases "gm_get m (R, k)")
  case (Some t)
  with assms(2) time_sub_mono [OF assms(1), of t] show ?thesis by (simp add: OnCooldown_def)
qed (simp add: OnCooldown_def)

lemma ready_calm:
  assumes "mono (env_clock E)" and "calm w w'" and "ready E R k sev cd w"
  shows "ready E R k sev cd w'"
proof -
  from assms(1,2) have "now_of E w \<le> now_of E w'"
    by (auto simp: now_of_def calm_def keeps_out_def dest: monoD)
  with assms(2,3) not_on_cooldown_later show ?thesis
    by (simp add: ready_def deliverable_def calm_def keeps_out_def)
qed

text \<open>Storing the result of a send keeps what makes a channel deliverable.\<close>

lemma SenderFor_send_result [simp]: "SenderFor A (send_result L t r c) = SenderFor A c"
  by (cases r) (simp_all add: SenderFor_def send_result_def)

lemma send_result_fields [simp]:
  "ch_ID (send_result L t r c) = ch_ID c" "ch_Enabled (send_result L t r c) = ch_Enabled c"
  "ch_MinSeverity (send_result L t r c) = ch_MinSeverity c"
  by (cases r; simp add: send_result_def)+

lemma deliverable_mark_send: "deliverable E k sev w \<Longrightarrow> deliverable E k sev (mark_send E i r w)"
proof -
  assume d: "deliverable E k sev w"
  then obtain c where "gm_get (aw_channels w) k = Some (Some c)" by (auto simp: deliverable_def)
  with d show ?thesis
    by (auto simp: deliverable_def mark_send_def MarkAlertChannelSendResult_def bucket_modify_def bucket_get_def
        split: option.splits)
qed

lemma deliverable_cong: "aw_channels w' = aw_channels w \<Longrightarrow> deliverable E k sev w' = deliverable E k sev w"
  by (simp add: deliverable_def)

lemma deliverable_send_to: "deliverable E k sev w \<Longrightarrow> deliverable E k sev (fst (send_to E evt i c w))"
proof -
  assume d: "deliverable E k sev w"
  let ?w1 = "next_n (if env_send E (aw_n w) c evt = None then w\<lparr>aw_sent := aw_sent w @ [(aw_n w, i, evt)]\<rparr> else w)"
  have "aw_channels ?w1 = aw_channels w" by simp
  from iffD2 [OF deliverable_cong [OF this] d] have "deliverable E k sev ?w1" .
  from deliverable_mark_send [OF this] show ?thesis unfolding send_to_def Let_def fst_conv .
qed

lemma deliverable_dispatch_one:
  assumes "deliverable E k sev w"
  shows "deliverable E k sev (fst (dispatch_one E evt i (w, res)))"
proof -
  have n: "deliverable E k sev (next_n w)" using assms by (simp add: deliverable_def)
  have s: "deliverable E k sev w'" if "send_to E evt i c (next_n w) = (w', e)" for c w' e
    using deliverable_send_to [OF n, of evt i c] that by simp
  show ?thesis
    using n s by (auto simp: dispatch_one_def Let_def split: sum.splits option.splits prod.splits)
qed

lemma deliverable_Dispatch:
  assumes "deliverable E k sev w" and "Dispatch E evt [i] w = (w', res)"
  shows "deliverable E k sev w'"
proof -
  obtain w1 r1 where d: "dispatch_one E evt i (w, \<lparr>dr_Fired = [], dr_Failed = [], dr_Skipped = []\<rparr>) = (w1, r1)"
    by fastforce
  with deliverable_dispatch_one [OF assms(1)] have "deliverable E k sev w1" by (metis fst_conv)
  moreover from d assms(2) have "w' = persistAlertEventRecord E evt r1 w1" by (auto simp: Dispatch_def Let_def)
  ultimately show ?thesis using calm_simps(5) [of w1 E evt r1] by (simp add: calm_def deliverable_def)
qed

lemma Dispatch_delivers:
  assumes "healthy E k" and "deliverable E k sev w" and "ev_Severity evt = sev" and "Dispatch E evt [k] w = (w', res)"
  shows "dr_Fired res \<noteq> []"
proof -
  from assms(2,3) obtain c where c: "gm_get (aw_channels w) k = Some (Some c)" "ch_ID c = k" "ch_Enabled c"
    "ch_MinSeverity c \<le> ev_Severity evt" "SenderFor (env_lib E) c = None" "k \<noteq> []" by (auto simp: deliverable_def)
  then have l: "load_channel E k w = Inr c"
    using assms(1) by (simp add: load_channel_def healthy_def GetAlertChannel_def bucket_get_def)
  have "snd (send_to E evt k c (next_n w)) = None"
    using assms(1) c(2) by (simp add: send_to_def healthy_def Let_def)
  then obtain w2 where "send_to E evt k c (next_n w) = (w2, None)" by (metis prod.collapse)
  with l c assms(4) show ?thesis by (auto simp: Dispatch_def dispatch_one_def Let_def)
qed

section \<open>One channel, one rule\<close>

lemma notify_channel_sent:
  assumes "notify_channel E r val now i (w, f) = (w', f')"
  shows "aw_n w \<le> aw_n w'" and "set (aw_sent w) \<subseteq> set (aw_sent w')"
proof -
  obtain w2 res where d: "Dispatch E (buildAlertEvent E r val now (aw_n (next_n w))) [i] (next_n (next_n w)) = (w2, res)"
    by fastforce
  from Dispatch_sends [OF d] have "aw_n w \<le> aw_n w2" "set (aw_sent w) \<subseteq> set (aw_sent w2)"
    by (auto simp: sends_le_one_def split: if_splits)
  with assms d show "aw_n w \<le> aw_n w'" "set (aw_sent w) \<subseteq> set (aw_sent w')"
    by (auto simp: notify_channel_def Let_def split: if_splits)
qed

lemma notify_channel_ready:
  assumes "healthy E k" and "ready E R k sev cd w" and "notify_channel E r val now i (w, f) = (w', f')"
    and "aw_n w0 \<le> aw_n w"
  shows "delivered R k w0 w' \<or> ready E R k sev cd w'"
proof -
  let ?evt = "buildAlertEvent E r val now (aw_n (next_n w))"
  have clk: "mono (env_clock E)" using assms(1) by (simp add: healthy_def)
  obtain w2 res where d: "Dispatch E ?evt [i] (next_n (next_n w)) = (w2, res)" by fastforce
  note s = Dispatch_sends [OF d, unfolded sends_le_one_def]
  have ch: "deliverable E k sev w2"
    using deliverable_Dispatch [OF _ d] assms(2) by (simp add: ready_def deliverable_def)
  from s have n: "aw_n w \<le> aw_n w2" "aw_cooldown w2 = aw_cooldown w" by auto
  have later: "now_of E w \<le> now_of E v" if "aw_n w \<le> aw_n v" for v using monoD [OF clk that] by (simp add: now_of_def)
  have ready2: "ready E R k sev cd w2"
    using ch assms(2) n not_on_cooldown_later [OF later] by (simp add: ready_def)
  let ?w3 = "next_n (w2\<lparr>aw_cooldown := Mark (now_of E w2) (ar_ID r) i (aw_cooldown w2)\<rparr>)"
  consider "w' = next_n w" | "w' = w2" | "w' = ?w3" "dr_Fired res \<noteq> []"
    using assms(3) d by (auto simp: notify_channel_def Let_def split: if_splits)
  then show ?thesis
  proof cases
    case 1
    with ready_calm [OF clk calm_simps(1) assms(2)] show ?thesis by simp
  next
    case 2
    with ready2 show ?thesis by simp
  next
    case 3
    show ?thesis
    proof (cases "ar_ID r = R \<and> i = k")
      case True
      from s 3(2) obtain m where "aw_n w \<le> m" "aw_sent w2 = aw_sent w @ [(m, i, ?evt)]" by auto
      with True 3(1) assms(4) have "delivered R k w0 w'"
        by (auto simp: delivered_def buildAlertEvent_def intro!: exI [of _ m] exI [of _ ?evt])
      then show ?thesis ..
    next
      case False
      then have "gm_get (aw_cooldown ?w3) (R, k) = gm_get (aw_cooldown w) (R, k)" using n(2) by (auto simp: Mark_def)
      moreover have "\<not> OnCooldown (now_of E ?w3) R k cd (aw_cooldown w)"
        using assms(2) not_on_cooldown_later [OF later [of ?w3]] n(1) by (simp add: ready_def)
      ultimately have "ready E R k sev cd ?w3" using ch by (simp add: ready_def deliverable_def OnCooldown_def)
      with 3(1) show ?thesis by simp
    qed
  qed
qed

lemma notify_channel_hits:
  assumes "healthy E k" and "ready E (ar_ID r) k (ar_Severity r) (cooldown_of r) w"
    and "notify_channel E r val now k (w, f) = (w', f')" and "aw_n w0 \<le> aw_n w"
  shows "delivered (ar_ID r) k w0 w'"
proof -
  let ?evt = "buildAlertEvent E r val now (aw_n (next_n w))"
  obtain w2 res where d: "Dispatch E ?evt [k] (next_n (next_n w)) = (w2, res)" by fastforce
  have "dr_Fired res \<noteq> []"
    using Dispatch_delivers [OF assms(1) _ _ d, of "ar_Severity r"] assms(2)
    by (simp add: ready_def deliverable_def buildAlertEvent_def)
  moreover from this Dispatch_sends [OF d] obtain m where "aw_n w \<le> m" "aw_sent w2 = aw_sent w @ [(m, k, ?evt)]"
    by (auto simp: sends_le_one_def)
  ultimately show ?thesis
    using assms(2-4) d by (auto simp: notify_channel_def Let_def ready_def delivered_def buildAlertEvent_def
        intro!: exI [of _ m] exI [of _ ?evt])
qed

text \<open>The state of the tick: past the delivery, or still ready for it.\<close>

definition on_track :: "alert_env \<Rightarrow> string \<Rightarrow> string \<Rightarrow> int \<Rightarrow> duration \<Rightarrow> alert_world \<Rightarrow> alert_world \<Rightarrow> bool" where
  "on_track E R k sev cd w0 w \<longleftrightarrow> aw_n w0 \<le> aw_n w \<and> (delivered R k w0 w \<or> ready E R k sev cd w)"

lemma on_track_calm:
  "healthy E k \<Longrightarrow> calm w w' \<Longrightarrow> on_track E R k sev cd w0 w \<Longrightarrow> on_track E R k sev cd w0 w'"
  using ready_calm [of E w w' R k sev cd] unfolding on_track_def healthy_def delivered_def
  by (auto simp: calm_def keeps_out_def)

lemma on_track_notify_channel:
  assumes "healthy E k" and "on_track E R k sev cd w0 w" and "notify_channel E r val now i (w, f) = (w', f')"
  shows "on_track E R k sev cd w0 w'"
  using assms notify_channel_sent [OF assms(3)] delivered_mono [of w w' R k w0]
    notify_channel_ready [OF assms(1) _ assms(3), of R sev cd w0]
  unfolding on_track_def by auto

lemma on_track_fold:
  assumes "healthy E k"
  shows "on_track E R k sev cd w0 w \<Longrightarrow> on_track E R k sev cd w0 (fst (fold (notify_channel E r val now) ks (w, f)))"
proof (induction ks arbitrary: w f)
  case (Cons i ks)
  obtain w1 f1 where c: "notify_channel E r val now i (w, f) = (w1, f1)" by fastforce
  from Cons.IH [OF on_track_notify_channel [OF assms Cons.prems c], of f1] c show ?case by simp
qed simp

lemma delivered_fold:
  "delivered R k w0 w \<Longrightarrow> delivered R k w0 (fst (fold (notify_channel E r val now) ks (w, f)))"
proof (induction ks arbitrary: w f)
  case (Cons i ks)
  obtain w1 f1 where c: "notify_channel E r val now i (w, f) = (w1, f1)" by fastforce
  from Cons.IH [OF delivered_mono [OF notify_channel_sent(2) [OF c] Cons.prems], of f1] c show ?case by simp
qed simp

lemma fold_hits:
  assumes "healthy E k" and "k \<in> set ks" and "on_track E (ar_ID r) k (ar_Severity r) (cooldown_of r) w0 w"
  shows "delivered (ar_ID r) k w0 (fst (fold (notify_channel E r val now) ks (w, f)))"
proof -
  from assms(2) obtain as bs where ks: "ks = as @ k # bs" by (auto simp: in_set_conv_decomp)
  obtain w1 f1 where a: "fold (notify_channel E r val now) as (w, f) = (w1, f1)" by fastforce
  with on_track_fold [OF assms(1,3), of r val now as f] have t: "on_track E (ar_ID r) k (ar_Severity r) (cooldown_of r) w0 w1" by simp
  obtain w2 f2 where c: "notify_channel E r val now k (w1, f1) = (w2, f2)" by fastforce
  have "delivered (ar_ID r) k w0 w2"
    using t notify_channel_hits [OF assms(1) _ c] delivered_mono [OF notify_channel_sent(2) [OF c]]
    unfolding on_track_def by auto
  from delivered_fold [OF this] a c ks show ?thesis by simp
qed

lemma notify_calm:
  assumes "fold (notify_channel E r val now) (ar_Channels r) (w, []) = (w1, cf)"
  shows "calm w1 (notify E r val now w)"
proof -
  have "calm w1 w1" by (simp add: calm_def)
  with assms calm_simps(3) calm_trans [OF calm_simps(3) calm_simps(4)] show ?thesis
    by (simp add: notify_def Let_def)
qed

lemma on_track_evalOneRule:
  assumes "healthy E k" and "on_track E R k sev cd w0 w"
  shows "on_track E R k sev cd w0 (evalOneRule E r w)"
proof -
  note t = on_track_calm [OF assms(1)]
  have n: "on_track E R k sev cd w0 (notify E r val now v)" if v: "on_track E R k sev cd w0 v" for val now v
  proof -
    obtain w1 cf where f: "fold (notify_channel E r val now) (ar_Channels r) (v, []) = (w1, cf)" by fastforce
    with on_track_fold [OF assms(1) v, of r val now "ar_Channels r" "[]"] have "on_track E R k sev cd w0 w1" by simp
    with t [OF notify_calm [OF f]] show ?thesis by blast
  qed
  have react: "on_track E R k sev cd w0 (react E r val now fired v)" if "on_track E R k sev cd w0 v" for val now fired v
    using that n t [OF calm_simps(4)] by (simp add: react_def)
  have 1: "on_track E R k sev cd w0 (next_n w)" "on_track E R k sev cd w0 (next_n (next_n w))"
    by (rule t [OF calm_simps(1)] assms(2))+
  have p: "on_track E R k sev cd w0 (persistEvalState E i u e v)" if "on_track E R k sev cd w0 v" for i u e v
    by (rule t [OF calm_simps(2) that])
  show ?thesis
    unfolding evalOneRule_def Let_def by (auto split: sum.splits intro: react p 1)
qed

text \<open>A threshold rule whose source is registered and whose condition every reading meets.\<close>

definition firing :: "alert_env \<Rightarrow> AlertRule \<Rightarrow> bool" where
  "firing E r \<longleftrightarrow> env_source E (ar_Source r) \<and> ar_Kind r = ''threshold'' \<and>
     (\<forall>n. \<exists>val. env_read E n (ar_Source r) (ar_SourceParams r) = Inr val \<and>
        Threshold_Evaluate (env_lib E) val (ar_EvalParams r) = Inr True)"

lemma evalOneRule_hits:
  assumes "healthy E k" and "firing E r" and "k \<in> set (ar_Channels r)"
    and "on_track E (ar_ID r) k (ar_Severity r) (cooldown_of r) w0 w"
  shows "delivered (ar_ID r) k w0 (evalOneRule E r w)"
proof -
  from assms(2) obtain val where val: "env_read E (aw_n (next_n w)) (ar_Source r) (ar_SourceParams r) = Inr val"
    "Threshold_Evaluate (env_lib E) val (ar_EvalParams r) = Inr True" unfolding firing_def by blast
  let ?v = "persistEvalState E (ar_ID r) (now_of E w) None (next_n (next_n w))"
  have e: "evalOneRule E r w = notify E r val (now_of E w) ?v"
    using val assms(2) by (simp add: evalOneRule_def firing_def rule_evaluate_def react_def Let_def)
  note t = on_track_calm [OF assms(1)]
  have "on_track E (ar_ID r) k (ar_Severity r) (cooldown_of r) w0 ?v"
    by (rule t [OF calm_simps(2)] t [OF calm_simps(1)] assms(4))+
  from fold_hits [OF assms(1,3) this, of val "now_of E w" "[]"]
  obtain w1 cf where f: "fold (notify_channel E r val (now_of E w)) (ar_Channels r) (?v, []) = (w1, cf)"
    and d: "delivered (ar_ID r) k w0 w1" by (metis fst_conv surj_pair)
  from notify_calm [OF f] d e show ?thesis by (simp add: calm_def keeps_out_def delivered_def)
qed

lemma delivered_evalOneRule:
  assumes "healthy E k" and "on_track E R k sev cd w0 w" and "delivered R k w0 w"
  shows "delivered R k w0 (evalOneRule E r w)"
proof -
  note n = delivered_mono
  have c: "delivered R k w0 v'" if "calm v v'" "delivered R k w0 v" for v v'
    using that by (simp add: calm_def keeps_out_def delivered_def)
  have notify: "delivered R k w0 (notify E r val now v)" if v: "delivered R k w0 v" for val now v
  proof -
    obtain w1 cf where f: "fold (notify_channel E r val now) (ar_Channels r) (v, []) = (w1, cf)" by fastforce
    with delivered_fold [OF v, of E r val now "ar_Channels r" "[]"] have "delivered R k w0 w1" by simp
    with c [OF notify_calm [OF f]] show ?thesis by blast
  qed
  have react: "delivered R k w0 (react E r val now fired v)" if "delivered R k w0 v" for val now fired v
    using that notify c [OF calm_simps(4)] by (simp add: react_def)
  have 1: "delivered R k w0 (next_n w)" "delivered R k w0 (next_n (next_n w))"
    by (rule c [OF calm_simps(1)] assms(3))+
  have p: "delivered R k w0 (persistEvalState E i u e v)" if "delivered R k w0 v" for i u e v
    by (rule c [OF calm_simps(2) that])
  show ?thesis
    unfolding evalOneRule_def Let_def by (auto split: sum.splits intro: react p 1)
qed

section \<open>One tick\<close>

lemma on_track_evict:
  assumes "healthy E k" and "ready E R k sev cd w" and "gm_wf (aw_cooldown w)"
  shows "on_track E R k sev cd w (evict_turn E rules w)"
proof -
  let ?w' = "evict_turn E rules w"
  have c: "aw_cooldown ?w' = filter (\<lambda>((i, _), t). \<not> time_sub (now_of E w) t \<ge> DefaultEvictionFloor \<and> i \<in> ar_ID ` set rules)
      (aw_cooldown w)" "aw_channels ?w' = aw_channels w" "aw_n ?w' = Suc (aw_n w)"
    by (simp_all add: evict_turn_def EvictStale_def)
  have "now_of E w \<le> now_of E ?w'" using assms(1) c(3) by (simp add: healthy_def now_of_def monoD)
  from not_on_cooldown_later [OF this] assms(2) have nc: "\<not> OnCooldown (now_of E ?w') R k cd (aw_cooldown w)"
    by (simp add: ready_def)
  have "gm_wf (aw_cooldown ?w')" using assms(3) c(1) by simp
  then have "gm_get (aw_cooldown ?w') (R, k) = Some t \<Longrightarrow> gm_get (aw_cooldown w) (R, k) = Some t" for t
    using gm_get_iff [OF assms(3)] gm_get_iff [of "aw_cooldown ?w'"] c(1) by simp
  with nc have "\<not> OnCooldown (now_of E ?w') R k cd (aw_cooldown ?w')"
    by (cases "gm_get (aw_cooldown ?w') (R, k)") (auto simp: OnCooldown_def)
  with assms(2) c(2,3) show ?thesis by (simp add: on_track_def ready_def deliverable_def)
qed

lemma fold_rules_hit:
  assumes "healthy E k" and "firing E r" and "k \<in> set (ar_Channels r)" and "r \<in> set rs"
    and "on_track E (ar_ID r) k (ar_Severity r) (cooldown_of r) w0 w"
  shows "delivered (ar_ID r) k w0 (fold (evalOneRule E) rs w)"
proof -
  let ?T = "on_track E (ar_ID r) k (ar_Severity r) (cooldown_of r) w0"
  have keep: "?T (fold (evalOneRule E) as v)" if "?T v" for as v
    using that by (induction as arbitrary: v) (simp_all add: on_track_evalOneRule [OF assms(1)])
  have stay: "delivered (ar_ID r) k w0 (fold (evalOneRule E) as v)" if "?T v" "delivered (ar_ID r) k w0 v" for as v
    using that
    by (induction as arbitrary: v)
      (simp_all add: on_track_evalOneRule [OF assms(1)] delivered_evalOneRule [OF assms(1)])
  from assms(4) obtain as bs where rs: "rs = as @ r # bs" by (auto simp: in_set_conv_decomp)
  let ?v = "fold (evalOneRule E) as w"
  have "?T ?v" by (rule keep [OF assms(5)])
  then have "?T (evalOneRule E r ?v)" "delivered (ar_ID r) k w0 (evalOneRule E r ?v)"
    using on_track_evalOneRule [OF assms(1)] evalOneRule_hits [OF assms(1,2,3)] by blast+
  from stay [OF this] rs show ?thesis by simp
qed

text \<open>
  C31: A threshold alert gets through. When the rules can be listed, the condition of an enabled rule
  holds for every reading of its source, and the clock does not go back, every channel of the rule
  that can be read, is enabled, not above the rule's severity, configured correctly, reachable and
  not on cooldown is notified in this very tick. Nothing else prevents it: not rules whose sources
  or deliveries fail, not other channels of the rule, and no failed write of the tick (evaluation
  state, fired and matched marks, send results, history), of this rule or another.
\<close>

theorem threshold_alert_delivered:
  assumes "healthy E k" and "ListAlertRules (aw_rules w) = Inr rules" and "r \<in> set rules" and "ar_Enabled r"
    and "firing E r" and "k \<in> set (ar_Channels r)" and "gm_wf (aw_cooldown w)"
    and "deliverable E k (ar_Severity r) w"
    and "\<not> OnCooldown (now_of E w) (ar_ID r) k (cooldown_of r) (aw_cooldown w)"
  shows "\<exists>n e. (n, k, e) \<in> set (aw_sent (watcher_tick E w)) \<and> aw_n w \<le> n \<and> ev_RuleID e = ar_ID r"
proof -
  have "ready E (ar_ID r) k (ar_Severity r) (cooldown_of r) (next_n w)"
    using ready_calm [OF _ calm_simps(1)] assms(1,8,9) by (simp add: ready_def healthy_def)
  from on_track_evict [OF assms(1) this] assms(7)
  have t: "on_track E (ar_ID r) k (ar_Severity r) (cooldown_of r) (next_n w) (evict_turn E rules (next_n w))" by simp
  have "r \<in> set (filter ar_Enabled rules)" using assms(3,4) by simp
  from fold_rules_hit [OF assms(1,5,6) this t] assms(1,2)
  have "delivered (ar_ID r) k (next_n w) (watcher_tick E w)"
    by (simp add: watcher_tick_def healthy_def Let_def)
  then show ?thesis unfolding delivered_def by (metis Suc_leD next_n_simps(6))
qed

definition stuck_env :: alert_env where
  "stuck_env = sample_alert_env\<lparr>env_fail := (\<lambda>_ t. t \<noteq> ListRules \<and> t \<noteq> LoadChannel ''a'')\<rparr>"

theorem threshold_alert_delivered_witness:
  "\<exists>n e. (n, ''a'', e) \<in> set (aw_sent (watcher_tick stuck_env (sample_world ''threshold''))) \<and> ev_RuleID e = ''r''"
proof -
  let ?E = stuck_env and ?w = "sample_world ''threshold''" and ?r = "sample_rule ''threshold''"
  have "\<exists>n e. (n, ''a'', e) \<in> set (aw_sent (watcher_tick ?E ?w)) \<and> aw_n ?w \<le> n \<and> ev_RuleID e = ar_ID ?r"
  proof (rule threshold_alert_delivered)
    show "healthy ?E ''a''" by (simp add: healthy_def stuck_env_def sample_alert_env_def monoI ns_defs)
    show "ListAlertRules (aw_rules ?w) = Inr [?r]" by (simp add: sample_world_def)
    show "firing ?E ?r"
      by (simp add: firing_def stuck_env_def sample_alert_env_def sample_rule_def Threshold_Evaluate_def sample_alert_lib_def)
    show "deliverable ?E ''a'' (ar_Severity ?r) ?w"
    proof -
      have "SenderFor sample_alert_lib (sample_channel ''a'') = None" by code_simp
      then show ?thesis
        by (simp add: deliverable_def sample_world_def sample_channel_def sample_rule_def stuck_env_def sample_alert_env_def)
    qed
    show "\<not> OnCooldown (now_of ?E ?w) (ar_ID ?r) ''a'' (cooldown_of ?r) (aw_cooldown ?w)"
      by (simp add: OnCooldown_def sample_world_def)
  qed (simp_all add: sample_rule_def sample_world_def)
  then show ?thesis by (auto simp: sample_rule_def)
qed

end
