(* ===== verification/HealthTracker.thy ===== *)
theory HealthTracker
  imports Routes
begin

text \<open>
  The status of upstreams as Caddy's active health checks report it: \<open>internal/caddyhc/tracker.go\<close>,
  the event handler of \<open>listener.go\<close>, and the alignment with a new configuration in
  \<open>applyLocked\<close> of \<open>caddymgr/manager.go\<close>. Every method is one critical section; the time it reads
  is an argument and the callback it makes after releasing the lock is part of its result.
\<close>

section \<open>Addresses\<close>

definition stripBrackets :: "string \<Rightarrow> string" where
  "stripBrackets s =
     (if 2 \<le> length s \<and> hd s = CHR ''['' \<and> last s = CHR '']'' then take (length s - 2) (drop 1 s) else s)"

definition addr_schemes :: "(string \<times> string) list" where
  "addr_schemes = [(''https://'', ''443''), (''h2://'', ''443''), (''http://'', ''80''), (''h2c://'', ''80'')]"

definition strip_scheme :: "string \<Rightarrow> string \<times> string" where
  "strip_scheme s =
     (case find (\<lambda>(p, _). hasPrefix s p) addr_schemes of
        None \<Rightarrow> (s, ''80'') | Some (p, port) \<Rightarrow> (drop (length p) s, port))"

definition cut_before :: "char \<Rightarrow> string \<Rightarrow> string" where
  "cut_before sep s = (case indexByte s sep of None \<Rightarrow> s | Some i \<Rightarrow> take i s)"

definition NormalizeAddr :: "string \<Rightarrow> string" where
  "NormalizeAddr raw =
     (let (rest, defaultPort) = strip_scheme (trimSpace raw);
          s = cut_before CHR ''#'' (cut_before CHR ''?'' (cut_before CHR ''/'' rest))
      in if s = [] then []
         else case splitHostPort s of
           None \<Rightarrow> joinHostPort (stripBrackets s) defaultPort
         | Some _ \<Rightarrow> s)"

section \<open>The tracker\<close>

definition StatusHealthy :: string where "StatusHealthy = ''healthy''"
definition StatusUnhealthy :: string where "StatusUnhealthy = ''unhealthy''"
definition StatusUnknown :: string where "StatusUnknown = []"

record HCStatusTracker =
  hc_statuses :: "(string, string) gomap"
  hc_since :: "(string, time) gomap"

record hc_transition =
  tr_addr :: string
  tr_old :: string
  tr_new :: string
  tr_at :: time

definition NewTracker :: HCStatusTracker where
  "NewTracker = \<lparr>hc_statuses = [], hc_since = []\<rparr>"

text \<open>An address without an entry reads as the zero value, the unknown status.\<close>

definition status_of :: "HCStatusTracker \<Rightarrow> string \<Rightarrow> string" where
  "status_of t key = (case gm_get (hc_statuses t) key of None \<Rightarrow> StatusUnknown | Some s \<Rightarrow> s)"

definition set_status :: "time \<Rightarrow> string \<Rightarrow> string \<Rightarrow> HCStatusTracker \<Rightarrow> HCStatusTracker \<times> hc_transition option" where
  "set_status now addr status t =
     (let key = NormalizeAddr addr
      in if key = [] then (t, None)
         else if status_of t key = status then (t, None)
         else (t\<lparr>hc_statuses := gm_put key status (hc_statuses t), hc_since := gm_put key now (hc_since t)\<rparr>,
               Some \<lparr>tr_addr = key, tr_old = status_of t key, tr_new = status, tr_at = now\<rparr>))"

definition RecordHealthy :: "time \<Rightarrow> string \<Rightarrow> HCStatusTracker \<Rightarrow> HCStatusTracker \<times> hc_transition option" where
  "RecordHealthy now addr t = set_status now addr StatusHealthy t"

definition RecordUnhealthy :: "time \<Rightarrow> string \<Rightarrow> HCStatusTracker \<Rightarrow> HCStatusTracker \<times> hc_transition option" where
  "RecordUnhealthy now addr t = set_status now addr StatusUnhealthy t"

definition Since :: "string \<Rightarrow> HCStatusTracker \<Rightarrow> time" where
  "Since addr t =
     (let key = NormalizeAddr addr
      in if key = [] then zero_time else case gm_get (hc_since t) key of None \<Rightarrow> zero_time | Some ts \<Rightarrow> ts)"

definition Reset_tracker :: "HCStatusTracker \<Rightarrow> HCStatusTracker" where
  "Reset_tracker t = t\<lparr>hc_statuses := [], hc_since := []\<rparr>"

definition want_addrs :: "string list \<Rightarrow> string list" where
  "want_addrs addrs = remdups (filter (\<lambda>k. k \<noteq> []) (map NormalizeAddr addrs))"

definition prime :: "time \<Rightarrow> string \<Rightarrow> HCStatusTracker \<Rightarrow> HCStatusTracker" where
  "prime now k t =
     (if gm_get (hc_statuses t) k = None
      then t\<lparr>hc_statuses := gm_put k StatusHealthy (hc_statuses t), hc_since := gm_put k now (hc_since t)\<rparr>
      else t)"

definition drop_unwanted :: "string list \<Rightarrow> HCStatusTracker \<Rightarrow> HCStatusTracker" where
  "drop_unwanted want t =
     (let gone = filter (\<lambda>k. k \<notin> set want) (map fst (hc_statuses t))
      in t\<lparr>hc_statuses := fold gm_del gone (hc_statuses t), hc_since := fold gm_del gone (hc_since t)\<rparr>)"

definition Reconcile :: "time \<Rightarrow> string list \<Rightarrow> HCStatusTracker \<Rightarrow> HCStatusTracker" where
  "Reconcile now addrs t =
     (let want = want_addrs addrs in fold (prime now) want (drop_unwanted want t))"

definition Status :: "string \<Rightarrow> HCStatusTracker \<Rightarrow> string" where
  "Status addr t = (let key = NormalizeAddr addr in if key = [] then StatusUnknown else status_of t key)"

text \<open>The event handler: \<open>tracker\<close> is the registered one, if any, and \<open>host\<close> the payload, if it is a string.\<close>

definition Handle_event ::
  "time \<Rightarrow> string \<Rightarrow> string option \<Rightarrow> HCStatusTracker option \<Rightarrow> HCStatusTracker option \<times> hc_transition option" where
  "Handle_event now name host tracker =
     (case tracker of
        None \<Rightarrow> (None, None)
      | Some t \<Rightarrow>
          (case host of
             None \<Rightarrow> (Some t, None)
           | Some h \<Rightarrow>
               if name = ''healthy'' then map_prod Some id (RecordHealthy now h t)
               else if name = ''unhealthy'' then map_prod Some id (RecordUnhealthy now h t)
               else (Some t, None)))"

text \<open>The addresses \<open>applyLocked\<close> passes to \<open>Reconcile\<close>; \<open>routes\<close> are the enabled ones.\<close>

definition hc_addrs :: "Route list \<Rightarrow> string list" where
  "hc_addrs routes = concat (map (\<lambda>r. if hc_Enabled (rt_HealthCheck r) then map up_URL (rt_Upstreams r) else []) routes)"

section \<open>Facts\<close>

lemma status_neq [simp]:
  "StatusHealthy \<noteq> StatusUnhealthy" "StatusUnhealthy \<noteq> StatusHealthy" "StatusUnknown \<noteq> StatusHealthy"
  "StatusHealthy \<noteq> StatusUnknown" "StatusUnknown \<noteq> StatusUnhealthy" "StatusUnhealthy \<noteq> StatusUnknown"
  by (simp_all add: StatusHealthy_def StatusUnhealthy_def StatusUnknown_def)

lemma gm_get_fold_del [simp]: "gm_get (fold gm_del ks m) k = (if k \<in> set ks then None else gm_get m k)"
  by (induction ks arbitrary: m) auto

lemma status_of_set:
  "NormalizeAddr addr \<noteq> [] \<Longrightarrow>
   status_of (fst (set_status now addr s t)) k = (if k = NormalizeAddr addr then s else status_of t k)"
  by (auto simp: set_status_def status_of_def Let_def)

lemma get_prime:
  "gm_get (hc_statuses (prime now k t)) k' =
     (if k' = k \<and> gm_get (hc_statuses t) k = None then Some StatusHealthy else gm_get (hc_statuses t) k')"
  by (auto simp: prime_def)

lemma get_fold_prime:
  "gm_get (hc_statuses (fold (prime now) ks t)) k' =
     (if k' \<in> set ks \<and> gm_get (hc_statuses t) k' = None then Some StatusHealthy else gm_get (hc_statuses t) k')"
  by (induction ks arbitrary: t) (auto simp: get_prime)

lemma get_drop_unwanted:
  "gm_get (hc_statuses (drop_unwanted want t)) k = (if k \<in> set want then gm_get (hc_statuses t) k else None)"
proof (cases "gm_get (hc_statuses t) k")
  case None
  then show ?thesis by (simp add: drop_unwanted_def Let_def)
next
  case (Some s)
  then have "k \<in> fst ` set (hc_statuses t)" by (force dest: map_of_SomeD)
  then show ?thesis by (auto simp: drop_unwanted_def Let_def)
qed

lemma get_Reconcile:
  "gm_get (hc_statuses (Reconcile now addrs t)) k =
     (if k \<notin> set (want_addrs addrs) then None
      else case gm_get (hc_statuses t) k of None \<Rightarrow> Some StatusHealthy | Some s \<Rightarrow> Some s)"
  by (auto simp: Reconcile_def Let_def get_fold_prime get_drop_unwanted split: option.splits)

end
