(* ===== verification/HealthSync.thy ===== *)
theory HealthSync
  imports HealthTracker
begin

text \<open>
  The tracker and Caddy's own pool of hosts. Caddy is outside the repository: the record \<open>hosts\<close>
  takes its pool as an argument, and the locale \<open>host_pool\<close> states what the comments of
  \<open>tracker.go\<close> and \<open>manager.go\<close> rely on: an active check that changes the state of a host emits one
  event, a check that does not change it emits none, hosts that stay in the configuration keep
  their state across a reload, and new hosts begin healthy. Whether the tracker tells the truth
  then depends on which reloads happen.
\<close>

section \<open>Caddy's hosts\<close>

record 'p hosts =
  hp_present :: "'p \<Rightarrow> string \<Rightarrow> bool"
  hp_unhealthy :: "'p \<Rightarrow> string \<Rightarrow> bool"
  hp_probe :: "string \<Rightarrow> bool \<Rightarrow> 'p \<Rightarrow> 'p \<times> bool"
  hp_load :: "string list \<Rightarrow> 'p \<Rightarrow> 'p"

locale host_pool =
  fixes P :: "'p hosts"
  assumes probe_present: "hp_present P (fst (hp_probe P a ok p)) b \<longleftrightarrow> hp_present P p b"
    and probe_unhealthy: "hp_present P p a \<Longrightarrow>
      hp_unhealthy P (fst (hp_probe P a ok p)) b \<longleftrightarrow> (if b = a then \<not> ok else hp_unhealthy P p b)"
    and probe_event: "hp_present P p a \<Longrightarrow> snd (hp_probe P a ok p) \<longleftrightarrow> hp_unhealthy P p a = ok"
    and load_present: "hp_present P (hp_load P served p) a \<longleftrightarrow> a \<in> set served"
    and load_keeps: "hp_present P p a \<Longrightarrow> a \<in> set served \<Longrightarrow>
      hp_unhealthy P (hp_load P served p) a \<longleftrightarrow> hp_unhealthy P p a"
    and load_new: "\<not> hp_present P p a \<Longrightarrow> a \<in> set served \<Longrightarrow> \<not> hp_unhealthy P (hp_load P served p) a"

section \<open>Runs\<close>

text \<open>One active check of the address \<open>h\<close>, with the event it may emit delivered to the tracker.\<close>

definition probe_turn :: "'p hosts \<Rightarrow> time \<Rightarrow> string \<Rightarrow> bool \<Rightarrow> 'p \<times> HCStatusTracker \<Rightarrow> 'p \<times> HCStatusTracker" where
  "probe_turn P now h ok = (\<lambda>(p, t).
     case hp_probe P (NormalizeAddr h) ok p of (p', event) \<Rightarrow>
       (p', if event then the (fst (Handle_event now (if ok then ''healthy'' else ''unhealthy'') (Some h) (Some t))) else t))"

text \<open>A reload: the new configuration serves the addresses \<open>served\<close>, then the tracker is aligned.\<close>

definition reload_turn ::
  "'p hosts \<Rightarrow> time \<Rightarrow> string list \<Rightarrow> Route list \<Rightarrow> 'p \<times> HCStatusTracker \<Rightarrow> 'p \<times> HCStatusTracker" where
  "reload_turn P now served routes = (\<lambda>(p, t). (hp_load P served p, Reconcile now (hc_addrs routes) t))"

abbreviation checked :: "Route list \<Rightarrow> string set" where
  "checked routes \<equiv> set (want_addrs (hc_addrs routes))"

text \<open>
  The runs of both together, as far as the address \<open>a\<close> is concerned. Any host Caddy serves may be
  probed, also for a path rule. The conditions on a reload: when it leaves \<open>a\<close> under the health check
  of a route, the new configuration serves \<open>a\<close> (a route in maintenance without a bypass, or one that
  redirects, is not served), and it does not put the check on a host that Caddy already serves
  without one.
\<close>

inductive health_run :: "'p hosts \<Rightarrow> string \<Rightarrow> 'p \<times> HCStatusTracker \<Rightarrow> Route list \<Rightarrow> bool" for P a where
  start: "(\<And>b. \<not> hp_present P p b) \<Longrightarrow> health_run P a (p, NewTracker) []"
| probe: "health_run P a w routes \<Longrightarrow> hp_present P (fst w) (NormalizeAddr h) \<Longrightarrow> NormalizeAddr h \<noteq> [] \<Longrightarrow>
    health_run P a (probe_turn P now h ok w) routes"
| reload: "health_run P a (p, t) routes \<Longrightarrow> (a \<in> checked routes' \<Longrightarrow> a \<in> set served) \<Longrightarrow>
    (a \<in> checked routes' \<Longrightarrow> hp_present P p a \<Longrightarrow> a \<in> checked routes) \<Longrightarrow>
    health_run P a (reload_turn P now served routes' (p, t)) routes'"

section \<open>The tracker agrees with Caddy\<close>

lemma checked_not_Nil: "[] \<notin> checked routes"
  by (auto simp: want_addrs_def)

definition truth :: "bool \<Rightarrow> string" where
  "truth unhealthy = (if unhealthy then StatusUnhealthy else StatusHealthy)"

lemma Handle_event_status:
  assumes "NormalizeAddr h \<noteq> []"
  shows "status_of (the (fst (Handle_event now (if ok then ''healthy'' else ''unhealthy'') (Some h) (Some t)))) a =
    (if a = NormalizeAddr h then truth (\<not> ok) else status_of t a)"
  using status_of_set [OF assms]
  by (auto simp: Handle_event_def RecordHealthy_def RecordUnhealthy_def truth_def)

definition agree :: "'p hosts \<Rightarrow> string \<Rightarrow> 'p \<times> HCStatusTracker \<Rightarrow> Route list \<Rightarrow> bool" where
  "agree P a w routes \<longleftrightarrow>
     (a \<in> checked routes \<longrightarrow> hp_present P (fst w) a \<and> gm_get (hc_statuses (snd w)) a = Some (truth (hp_unhealthy P (fst w) a))) \<and>
     (gm_get (hc_statuses (snd w)) a \<noteq> None \<longrightarrow> hp_present P (fst w) a)"

lemma get_set_status:
  assumes "NormalizeAddr h \<noteq> []" and "s \<noteq> StatusUnknown"
  shows "gm_get (hc_statuses (fst (set_status now h s t))) a =
    (if a = NormalizeAddr h then Some s else gm_get (hc_statuses t) a)"
  using assms by (auto simp: set_status_def status_of_def Let_def split: option.splits)

lemma get_Handle_event:
  assumes "NormalizeAddr h \<noteq> []"
  shows "gm_get (hc_statuses (the (fst (Handle_event now (if ok then ''healthy'' else ''unhealthy'') (Some h) (Some t))))) a =
    (if a = NormalizeAddr h then Some (truth (\<not> ok)) else gm_get (hc_statuses t) a)"
  using get_set_status [OF assms, of StatusHealthy] get_set_status [OF assms, of StatusUnhealthy]
  by (cases ok) (simp_all add: Handle_event_def RecordHealthy_def RecordUnhealthy_def truth_def)

context host_pool
begin

lemma agree_probe:
  assumes "agree P a (p, t) routes" and pr: "hp_present P p (NormalizeAddr h)" and ne: "NormalizeAddr h \<noteq> []"
  shows "agree P a (probe_turn P now h ok (p, t)) routes"
proof -
  let ?h = "NormalizeAddr h"
  obtain p' event where pe: "hp_probe P ?h ok p = (p', event)" by fastforce
  let ?t' = "if event then the (fst (Handle_event now (if ok then ''healthy'' else ''unhealthy'') (Some h) (Some t))) else t"
  have p': "hp_present P p' b \<longleftrightarrow> hp_present P p b" "hp_unhealthy P p' b \<longleftrightarrow> (if b = ?h then \<not> ok else hp_unhealthy P p b)" for b
    using probe_present [of ?h ok p b] probe_unhealthy [OF pr, of ok b] pe by simp_all
  have turn: "probe_turn P now h ok (p, t) = (p', ?t')" by (simp add: probe_turn_def pe)
  show ?thesis
  proof (cases event)
    case True
    then show ?thesis unfolding turn using assms p' get_Handle_event [OF ne, of now ok t a] by (auto simp: agree_def)
  next
    case False
    then have "hp_unhealthy P p ?h \<longleftrightarrow> \<not> ok" using probe_event [OF pr, of ok] pe by auto
    with False show ?thesis unfolding turn using assms(1) p' by (auto simp: agree_def)
  qed
qed

lemma agree_reload:
  assumes "agree P a (p, t) routes" and "a \<in> checked routes' \<Longrightarrow> a \<in> set served"
    and "a \<in> checked routes' \<Longrightarrow> hp_present P p a \<Longrightarrow> a \<in> checked routes"
  shows "agree P a (reload_turn P now served routes' (p, t)) routes'"
proof (cases "a \<in> checked routes'")
  case True
  note a = assms(2) [OF True]
  show ?thesis
  proof (cases "hp_present P p a")
    case here: True
    with assms(1,3) True have "gm_get (hc_statuses t) a = Some (truth (hp_unhealthy P p a))" by (simp add: agree_def)
    with True a here load_keeps show ?thesis by (auto simp: agree_def reload_turn_def load_present get_Reconcile)
  next
    case False
    with assms(1) have "gm_get (hc_statuses t) a = None" by (auto simp: agree_def)
    with False True a load_new show ?thesis by (auto simp: agree_def reload_turn_def load_present get_Reconcile truth_def)
  qed
next
  case False
  then show ?thesis by (auto simp: agree_def reload_turn_def get_Reconcile)
qed

lemma agree_run: "health_run P a w routes \<Longrightarrow> agree P a w routes"
proof (induction rule: health_run.induct)
  case (start p)
  then show ?case by (simp add: agree_def NewTracker_def hc_addrs_def want_addrs_def)
next
  case (probe w routes h now ok)
  then show ?case using agree_probe by (cases w) simp
next
  case (reload p t routes routes' served now)
  then show ?case using agree_reload by simp
qed

lemma unhealthy_stays:
  assumes "hp_present P p a" and "hp_unhealthy P p a" and "NormalizeAddr h = a" and "w = (p, t)"
  shows "snd (probe_turn P now h False w) = t \<and> hp_present P (fst (probe_turn P now h False w)) a \<and>
    hp_unhealthy P (fst (probe_turn P now h False w)) a"
  using assms probe_event [OF assms(1), of False] probe_unhealthy [OF assms(1), of False a] probe_present [of a False p a]
  by (auto simp: probe_turn_def split: prod.splits)

lemma failing_probes:
  assumes "hp_present P (fst w) a" and "hp_unhealthy P (fst w) a" and "NormalizeAddr h = a"
  shows "snd (fold (\<lambda>now. probe_turn P now h False) ts w) = snd w \<and>
    hp_unhealthy P (fst (fold (\<lambda>now. probe_turn P now h False) ts w)) a"
  using assms
proof (induction ts arbitrary: w)
  case (Cons now ts)
  obtain p t where w: "w = (p, t)" by fastforce
  from unhealthy_stays [of p a h w t now] Cons.prems w
  have "snd (probe_turn P now h False w) = snd w" "hp_present P (fst (probe_turn P now h False w)) a"
    "hp_unhealthy P (fst (probe_turn P now h False w)) a" by simp_all
  with Cons.IH [of "probe_turn P now h False w"] Cons.prems(3) show ?case by simp
qed simp

lemma healthy_stays:
  assumes "hp_present P p a" and "\<not> hp_unhealthy P p a" and "NormalizeAddr h = a" and "w = (p, t)"
  shows "snd (probe_turn P now h True w) = t \<and> hp_present P (fst (probe_turn P now h True w)) a \<and>
    \<not> hp_unhealthy P (fst (probe_turn P now h True w)) a"
  using assms probe_event [OF assms(1), of True] probe_unhealthy [OF assms(1), of True a] probe_present [of a True p a]
  by (auto simp: probe_turn_def split: prod.splits)

lemma passing_probes:
  assumes "hp_present P (fst w) a" and "\<not> hp_unhealthy P (fst w) a" and "NormalizeAddr h = a"
  shows "snd (fold (\<lambda>now. probe_turn P now h True) ts w) = snd w \<and>
    \<not> hp_unhealthy P (fst (fold (\<lambda>now. probe_turn P now h True) ts w)) a"
  using assms
proof (induction ts arbitrary: w)
  case (Cons now ts)
  obtain p t where w: "w = (p, t)" by fastforce
  from healthy_stays [of p a h w t now] Cons.prems w
  have "snd (probe_turn P now h True w) = snd w" "hp_present P (fst (probe_turn P now h True w)) a"
    "\<not> hp_unhealthy P (fst (probe_turn P now h True w)) a" by simp_all
  with Cons.IH [of "probe_turn P now h True w"] Cons.prems(3) show ?case by simp
qed simp

end

section \<open>A pool to evaluate\<close>

definition list_pool :: "(string \<times> bool) list hosts" where
  "list_pool = \<lparr>hp_present = (\<lambda>p a. gm_get p a \<noteq> None), hp_unhealthy = (\<lambda>p a. gm_get p a = Some True),
     hp_probe = (\<lambda>a ok p. if gm_get p a = None then (p, False) else (gm_put a (\<not> ok) p, gm_get p a = Some ok)),
     hp_load = (\<lambda>served p. map (\<lambda>a. (a, gm_get p a = Some True)) served)\<rparr>"

lemma gm_get_map_pair: "gm_get (map (\<lambda>a. (a, f a)) xs) k = (if k \<in> set xs then Some (f k) else None)"
  by (induction xs) auto

interpretation lp: host_pool list_pool
  by unfold_locales (auto simp: list_pool_def gm_get_map_pair split: if_splits)

section \<open>Properties\<close>

text \<open>
  C9: The tracker tells the truth. After any sequence of active checks and reloads, an address under
  the health check of a route has exactly the status that Caddy's own pool of hosts gives it, provided
  that every reload that leaves the address under such a check serves it, and that none puts the check
  on the address while Caddy already serves it without one.
\<close>

theorem tracker_agrees_with_caddy:
  assumes "host_pool P" and "health_run P (NormalizeAddr addr) (p, t) routes" and "NormalizeAddr addr \<in> checked routes"
  shows "Status addr t = (if hp_unhealthy P p (NormalizeAddr addr) then StatusUnhealthy else StatusHealthy)"
proof -
  have "NormalizeAddr addr \<noteq> []" using assms(3) checked_not_Nil by metis
  then show ?thesis
    using host_pool.agree_run [OF assms(1,2)] assms(3)
    by (auto simp: agree_def Status_def status_of_def truth_def Let_def)
qed

definition sample_checked :: "bool \<Rightarrow> Route" where
  "sample_checked on = zero_route\<lparr>rt_ID := ''r'', rt_Host := ''app.home'', rt_Upstreams := [\<lparr>up_URL = ''http://10.0.0.5'', up_Weight = 0\<rparr>],
     rt_HealthCheck := zero_health\<lparr>hc_Enabled := on\<rparr>\<rparr>"

lemma checked_sample: "want_addrs (hc_addrs [sample_checked True]) = [''10.0.0.5:80'']"
  "want_addrs (hc_addrs [sample_checked False]) = []" "NormalizeAddr ''10.0.0.5:80'' = ''10.0.0.5:80''"
  by code_simp+

theorem tracker_agrees_with_caddy_witness:
  "Status ''http://10.0.0.5/x'' (snd (probe_turn list_pool 7 ''10.0.0.5:80'' False
     (reload_turn list_pool 3 [''10.0.0.5:80''] [sample_checked True] ([], NewTracker)))) = StatusUnhealthy"
proof -
  let ?start = "reload_turn list_pool 3 [''10.0.0.5:80''] [sample_checked True] ([], NewTracker)"
  let ?w = "probe_turn list_pool 7 ''10.0.0.5:80'' False ?start"
  have r0: "health_run list_pool ''10.0.0.5:80'' ([], NewTracker) []" by (rule health_run.start) (simp add: list_pool_def)
  have r1: "health_run list_pool ''10.0.0.5:80'' ?start [sample_checked True]"
    by (rule health_run.reload [OF r0]) (simp_all add: checked_sample list_pool_def ex_bool_eq)
  have "health_run list_pool ''10.0.0.5:80'' ?w [sample_checked True]"
    by (rule health_run.probe [OF r1]) (simp_all add: checked_sample reload_turn_def list_pool_def ex_bool_eq)
  then have r: "health_run list_pool ''10.0.0.5:80'' (fst ?w, snd ?w) [sample_checked True]" by (simp only: prod.collapse)
  have n: "NormalizeAddr ''http://10.0.0.5/x'' = ''10.0.0.5:80''" by code_simp
  have u: "hp_unhealthy list_pool (fst ?w) ''10.0.0.5:80''" by code_simp
  show ?thesis
    using tracker_agrees_with_caddy [OF lp.host_pool_axioms, of "''http://10.0.0.5/x''" "fst ?w" "snd ?w" "[sample_checked True]"] r u
    unfolding n by (simp add: checked_sample)
qed

text \<open>
  Switching the health check of a route off and on again while its upstream is down makes the
  tracker report the upstream as healthy for as long as it stays down. The reload without the
  check drops the address from the tracker, the reload with the check primes it as healthy, but
  Caddy has kept the host in its unhealthy state all along, and the failing checks that follow
  change nothing and emit no event.
\<close>

theorem toggled_check_hides_outage:
  assumes "host_pool P" and "hp_present P p a" and "hp_unhealthy P p a"
    and "a \<in> set served" and "a \<in> set served'" and "a \<notin> checked off" and "a \<in> checked on" and "NormalizeAddr a = a"
    and "w = fold (\<lambda>now. probe_turn P now a False) ts
      (reload_turn P later served' on (reload_turn P now served off (p, t)))"
  shows "Status a (snd w) = StatusHealthy \<and> hp_unhealthy P (fst w) a"
proof -
  let ?w = "reload_turn P later served' on (reload_turn P now served off (p, t))"
  have l: "hp_present P (hp_load P served p) a" "hp_unhealthy P (hp_load P served p) a"
    using assms(2-4) host_pool.load_present [OF assms(1)] host_pool.load_keeps [OF assms(1)] by blast+
  then have w: "hp_present P (fst ?w) a" "hp_unhealthy P (fst ?w) a"
    using assms(5) host_pool.load_present [OF assms(1)] host_pool.load_keeps [OF assms(1)]
    by (auto simp: reload_turn_def)
  from host_pool.failing_probes [OF assms(1) w assms(8), of ts]
  have f: "snd w = snd ?w" "hp_unhealthy P (fst w) a" by (simp_all add: assms(9))
  have "a \<noteq> []" using assms(7) checked_not_Nil by metis
  moreover have "gm_get (hc_statuses (snd ?w)) a = Some StatusHealthy"
    using assms(6,7) by (simp add: reload_turn_def get_Reconcile)
  ultimately show ?thesis
    using f assms(8) by (simp_all add: Status_def status_of_def)
qed

theorem toggled_check_hides_outage_witness:
  "Status ''10.0.0.5:80'' (snd (fold (\<lambda>now. probe_turn list_pool now ''10.0.0.5:80'' False) [30, 40]
     (reload_turn list_pool 20 [''10.0.0.5:80''] [sample_checked True]
       (reload_turn list_pool 10 [''10.0.0.5:80''] [sample_checked False] ([(''10.0.0.5:80'', True)],
         \<lparr>hc_statuses = [(''10.0.0.5:80'', StatusUnhealthy)], hc_since = [(''10.0.0.5:80'', 5)]\<rparr>))))) = StatusHealthy"
  by (rule toggled_check_hides_outage [OF lp.host_pool_axioms _ _ _ _ _ _ _ refl, THEN conjunct1])
    (simp_all add: checked_sample list_pool_def ex_bool_eq)

text \<open>
  Maintenance shows the opposite error. A route in maintenance without a bypass is left out of the
  configuration, so Caddy forgets its hosts, while \<open>applyLocked\<close> still passes their addresses to
  \<open>Reconcile\<close>. An upstream that was down when maintenance began and is up when it ends is a new,
  healthy host for Caddy; its successful checks change nothing and emit no event, and the tracker goes
  on reporting it as unhealthy.
\<close>

lemma maintenance_keeps_outage:
  assumes "host_pool P" and "gm_get (hc_statuses t) a = Some StatusUnhealthy"
    and "a \<notin> set served" and "a \<in> set served'" and "a \<in> checked closed" and "a \<in> checked opened" and "NormalizeAddr a = a"
    and "w = fold (\<lambda>now. probe_turn P now a True) ts
      (reload_turn P later served' opened (reload_turn P now served closed (p, t)))"
  shows "Status a (snd w) = StatusUnhealthy \<and> \<not> hp_unhealthy P (fst w) a"
proof -
  let ?w = "reload_turn P later served' opened (reload_turn P now served closed (p, t))"
  have "\<not> hp_present P (hp_load P served p) a" using assms(3) host_pool.load_present [OF assms(1)] by blast
  then have w: "hp_present P (fst ?w) a" "\<not> hp_unhealthy P (fst ?w) a"
    using assms(4) host_pool.load_present [OF assms(1)] host_pool.load_new [OF assms(1)] by (auto simp: reload_turn_def)
  from host_pool.passing_probes [OF assms(1) w assms(7), of ts]
  have f: "snd w = snd ?w" "\<not> hp_unhealthy P (fst w) a" by (simp_all add: assms(8))
  have "a \<noteq> []" using assms(6) checked_not_Nil by metis
  moreover have "gm_get (hc_statuses (snd ?w)) a = Some StatusUnhealthy"
    using assms(2,5,6) by (simp add: reload_turn_def get_Reconcile)
  ultimately show ?thesis
    using f assms(7) by (simp_all add: Status_def status_of_def)
qed

end
