(* ===== verification/SharedHealth.thy ===== *)
theory SharedHealth
  imports HealthTracker
begin

text \<open>
  The health of routes that share an upstream: \<open>internal/routehealth/shared.go\<close>, \<open>probe.go\<close> and
  \<open>evaluator.go\<close>. The HTTP client and the regular expressions are arguments. A probe runs outside
  the lock of the evaluator; the step relation \<open>eval_step\<close> lets reloads happen between the moment a
  route is picked for a probe and the moment its verdict is stored.
\<close>

section \<open>Shared upstreams\<close>

definition route_keys :: "Route \<Rightarrow> string list" where
  "route_keys r = filter (\<lambda>k. k \<noteq> []) (map (NormalizeAddr \<circ> up_URL) (rt_Upstreams r))"

definition count_up :: "string \<Rightarrow> (string, int) gomap \<Rightarrow> (string, int) gomap" where
  "count_up k m = gm_put k ((case gm_get m k of None \<Rightarrow> 0 | Some n \<Rightarrow> n) + 1) m"

definition SharedUpstreams :: "Route list \<Rightarrow> (string, int) gomap" where
  "SharedUpstreams routes =
     fold (\<lambda>r m. if rt_Disabled r then m else fold count_up (remdups (route_keys r)) m) routes []"

definition count_of :: "(string, int) gomap \<Rightarrow> string \<Rightarrow> int" where
  "count_of m k = (case gm_get m k of None \<Rightarrow> 0 | Some n \<Rightarrow> n)"

definition IsRouteShared :: "Route \<Rightarrow> (string, int) gomap \<Rightarrow> bool" where
  "IsRouteShared r counts \<longleftrightarrow> \<not> rt_Disabled r \<and> list_ex (\<lambda>k. 2 \<le> count_of counts k) (route_keys r)"

section \<open>Probes\<close>

record probe_request =
  pq_method :: string
  pq_target :: string
  pq_host :: string
  pq_headers :: "(string, string) gomap"

record probe_lib =
  pl_go :: golib
  pl_http :: "probe_request \<Rightarrow> (int \<times> string) option"
  pl_match :: "string \<Rightarrow> string \<Rightarrow> bool"

definition probeBodyLimit :: nat where "probeBodyLimit = 64 * 1024"

definition statusMatches :: "int \<Rightarrow> int \<Rightarrow> bool" where
  "statusMatches code expected = (if expected = 0 then 200 \<le> code \<and> code < 300 else code = expected)"

definition probeOneUpstream :: "probe_lib \<Rightarrow> string \<Rightarrow> string \<Rightarrow> HealthCheck \<Rightarrow> string \<Rightarrow> string" where
  "probeOneUpstream A upstreamURL dial hc host =
     (let scheme = (if hasPrefix (toLower (pl_go A) (trimSpace upstreamURL)) ''https://'' then ''https'' else ''http'');
          uri = (if hasPrefix (hc_URI hc) ''/'' then hc_URI hc else ''/'' @ hc_URI hc);
          req = \<lparr>pq_method = (if hc_Method hc = [] then ''GET'' else hc_Method hc),
                 pq_target = scheme @ ''://'' @ dial @ uri,
                 pq_host = (if host \<noteq> [] then host else dial), pq_headers = hc_Headers hc\<rparr>
      in case pl_http A req of
           None \<Rightarrow> StatusUnhealthy
         | Some (code, body) \<Rightarrow>
             if \<not> statusMatches code (hc_ExpectStatus hc) then StatusUnhealthy
             else if hc_ExpectBody hc \<noteq> [] \<and> \<not> pl_match A (hc_ExpectBody hc) (take probeBodyLimit body) then StatusUnhealthy
             else StatusHealthy)"

definition probe_into ::
  "probe_lib \<Rightarrow> HealthCheck \<Rightarrow> string \<Rightarrow> Upstream \<Rightarrow> (string, string) gomap \<Rightarrow> (string, string) gomap" where
  "probe_into A hc host u out =
     (let key = NormalizeAddr (up_URL u)
      in if key = [] then out else gm_put key (probeOneUpstream A (up_URL u) key hc host) out)"

definition probeRouteUpstreams :: "probe_lib \<Rightarrow> Route \<Rightarrow> (string, string) gomap" where
  "probeRouteUpstreams A r =
     (let hc = rt_HealthCheck r; host = ProbeHost hc (rt_Host r)
      in if \<not> hc_Enabled hc then []
         else if hc_ExpectBody hc \<noteq> [] \<and> \<not> lib_regexp (pl_go A) (hc_ExpectBody hc) then []
         else fold (probe_into A hc host) (rt_Upstreams r) [])"

section \<open>The evaluator\<close>

record Evaluator =
  ev_shared :: "(string, int) gomap"
  ev_sharedRoutes :: "(string, Route) gomap"
  ev_perRoute :: "(string, (string, string) gomap) gomap"

definition NewEvaluator :: Evaluator where
  "NewEvaluator = \<lparr>ev_shared = [], ev_sharedRoutes = [], ev_perRoute = []\<rparr>"

definition Evaluator_Refresh :: "Route list \<Rightarrow> Evaluator \<Rightarrow> Evaluator" where
  "Evaluator_Refresh routes e =
     (let counts = SharedUpstreams routes;
          sharedRoutes = fold (\<lambda>r m. if IsRouteShared r counts then gm_put (rt_ID r) r m else m) routes []
      in \<lparr>ev_shared = counts, ev_sharedRoutes = sharedRoutes,
          ev_perRoute = filter (\<lambda>(k, _). gm_get sharedRoutes k \<noteq> None) (ev_perRoute e)\<rparr>)"

definition IsShared :: "Route \<Rightarrow> Evaluator \<Rightarrow> bool" where
  "IsShared r e = IsRouteShared r (ev_shared e)"

definition IsSharedAddr :: "string \<Rightarrow> Evaluator \<Rightarrow> bool" where
  "IsSharedAddr addr e = (let key = NormalizeAddr addr in key \<noteq> [] \<and> 2 \<le> count_of (ev_shared e) key)"

definition RouteUpstreamStatus :: "Evaluator \<Rightarrow> string \<Rightarrow> string \<Rightarrow> string option" where
  "RouteUpstreamStatus e routeID upstreamURL =
     (let key = NormalizeAddr upstreamURL
      in if key = [] then None
         else case gm_get (ev_perRoute e) routeID of None \<Rightarrow> None | Some m \<Rightarrow> gm_get m key)"

text \<open>The critical section of \<open>evaluateRoute\<close>, given the result of the probe: the changed addresses.\<close>

definition store_verdicts :: "Route \<Rightarrow> (string, string) gomap \<Rightarrow> Evaluator \<Rightarrow> Evaluator \<times> string list" where
  "store_verdicts r res e =
     (let old = gm_get (ev_perRoute e) (rt_ID r)
      in if res = [] then
           (case old of
              None \<Rightarrow> (e, [])
            | Some m \<Rightarrow> if m = [] then (e, []) else (e\<lparr>ev_perRoute := gm_del (rt_ID r) (ev_perRoute e)\<rparr>, map fst m))
         else
           (e\<lparr>ev_perRoute := gm_put (rt_ID r) res (ev_perRoute e)\<rparr>,
            map fst (filter (\<lambda>(a, s). case old of None \<Rightarrow> True
              | Some m \<Rightarrow> (case gm_get m a of None \<Rightarrow> [] | Some s' \<Rightarrow> s') \<noteq> s) res)))"

definition evaluateRoute :: "probe_lib \<Rightarrow> Route \<Rightarrow> Evaluator \<Rightarrow> Evaluator \<times> string list" where
  "evaluateRoute A r e = store_verdicts r (probeRouteUpstreams A r) e"

definition routesOnAddr :: "string \<Rightarrow> Evaluator \<Rightarrow> Route list" where
  "routesOnAddr addr e =
     filter (\<lambda>r. list_ex (\<lambda>u. NormalizeAddr (up_URL u) = addr) (rt_Upstreams r)) (map snd (ev_sharedRoutes e))"

definition OnSharedEvent :: "probe_lib \<Rightarrow> string \<Rightarrow> Evaluator \<Rightarrow> Evaluator" where
  "OnSharedEvent A addr e =
     (let key = NormalizeAddr addr
      in if key = [] \<or> \<not> IsSharedAddr key e then e
         else fold (\<lambda>r e. fst (evaluateRoute A r e)) (routesOnAddr key e) e)"

text \<open>One periodic round: the addresses the notifier is called with.\<close>

definition Evaluator_Tick :: "probe_lib \<Rightarrow> Evaluator \<Rightarrow> Evaluator \<times> string list" where
  "Evaluator_Tick A e =
     (let (e', changed) = fold (\<lambda>r (e, acc). case evaluateRoute A r e of (e', as) \<Rightarrow> (e', acc @ as))
            (map snd (ev_sharedRoutes e)) (e, [])
      in (e', remdups changed))"

section \<open>Interleaving\<close>

text \<open>
  \<open>es_flight\<close> holds the routes picked for a probe whose verdict is not stored yet. Ticks and events
  run in goroutines of their own, reloads in another.
\<close>

record eval_state =
  es_ev :: Evaluator
  es_flight :: "Route list"

datatype eval_label = Pick | Store | Reload

inductive eval_step :: "eval_state \<Rightarrow> eval_label \<Rightarrow> eval_state \<Rightarrow> bool" where
  pick: "r \<in> snd ` set (ev_sharedRoutes (es_ev s)) \<Longrightarrow> eval_step s Pick (s\<lparr>es_flight := r # es_flight s\<rparr>)"
| store: "r \<in> set (es_flight s) \<Longrightarrow>
    eval_step s Store \<lparr>es_ev = fst (store_verdicts r res (es_ev s)), es_flight = remove1 r (es_flight s)\<rparr>"
| reload: "eval_step s Reload (s\<lparr>es_ev := Evaluator_Refresh routes (es_ev s)\<rparr>)"

inductive_cases eval_stepE: "eval_step s l t"

inductive eval_run :: "eval_state \<Rightarrow> eval_label list \<Rightarrow> eval_state \<Rightarrow> bool" where
  run_refl: "eval_run s [] s"
| run_step: "eval_run s ls t \<Longrightarrow> eval_step t l u \<Longrightarrow> eval_run s (ls @ [l]) u"

section \<open>The count of an address\<close>

lemma count_of_count_up [simp]: "count_of (count_up a m) k = count_of m k + (if a = k then 1 else 0)"
  by (auto simp: count_of_def count_up_def)

lemma count_of_fold:
  "distinct ks \<Longrightarrow> count_of (fold count_up ks m) k = count_of m k + (if k \<in> set ks then 1 else 0)"
  by (induction ks arbitrary: m) auto

definition dials :: "string \<Rightarrow> Route \<Rightarrow> bool" where
  "dials k r \<longleftrightarrow> \<not> rt_Disabled r \<and> k \<in> set (route_keys r)"

lemma count_of_SharedUpstreams_aux:
  "count_of (fold (\<lambda>r m. if rt_Disabled r then m else fold count_up (remdups (route_keys r)) m) routes m) k =
     count_of m k + int (length (filter (dials k) routes))"
  by (induction routes arbitrary: m) (auto simp: count_of_fold dials_def)

lemma count_of_SharedUpstreams: "count_of (SharedUpstreams routes) k = int (length (filter (dials k) routes))"
  by (simp add: SharedUpstreams_def count_of_SharedUpstreams_aux) (simp add: count_of_def)

section \<open>Verdicts\<close>

lemma RouteUpstreamStatus_iff:
  "RouteUpstreamStatus e i u = Some v \<longleftrightarrow>
     NormalizeAddr u \<noteq> [] \<and> (\<exists>m. gm_get (ev_perRoute e) i = Some m \<and> gm_get m (NormalizeAddr u) = Some v)"
  by (auto simp: RouteUpstreamStatus_def Let_def split: option.splits)

lemma store_other:
  "i \<noteq> rt_ID r \<Longrightarrow> gm_get (ev_perRoute (fst (store_verdicts r res e))) i = gm_get (ev_perRoute e) i"
  by (auto simp: store_verdicts_def Let_def split: option.splits)

lemma store_keeps_routes [simp]:
  "ev_sharedRoutes (fst (store_verdicts r res e)) = ev_sharedRoutes e"
  by (auto simp: store_verdicts_def Let_def split: option.splits)

lemma store_own: "res \<noteq> [] \<Longrightarrow> gm_get (ev_perRoute (fst (store_verdicts r res e))) (rt_ID r) = Some res"
  by (auto simp: store_verdicts_def Let_def)

text \<open>Every shared route is filed under its identifier.\<close>

definition filed :: "(string, Route) gomap \<Rightarrow> bool" where
  "filed m \<longleftrightarrow> gm_wf m \<and> (\<forall>(k, r) \<in> set m. rt_ID r = k)"

lemma filed_fold:
  "filed m \<Longrightarrow> filed (fold (\<lambda>r m. if P r then gm_put (rt_ID r) r m else m) routes m)"
proof (induction routes arbitrary: m)
  case (Cons r routes)
  have "filed (gm_put (rt_ID r) r m)"
    using Cons.prems set_gm_put [of "rt_ID r" r m] by (auto simp: filed_def)
  with Cons show ?case by simp
qed simp

lemma filed_Nil [simp]: "filed []"
  by (simp add: filed_def)

lemma filed_Refresh: "filed (ev_sharedRoutes (Evaluator_Refresh routes e))"
  by (simp add: Evaluator_Refresh_def Let_def filed_fold)

lemma Refresh_drops: "gm_get (ev_perRoute (Evaluator_Refresh routes e)) k \<noteq> None \<Longrightarrow>
    gm_get (ev_sharedRoutes (Evaluator_Refresh routes e)) k \<noteq> None"
  by (auto simp: Evaluator_Refresh_def Let_def gm_get_filter_keys split: if_splits)

text \<open>Without a reload, the verdict of a route that is not shared is out of reach of every probe.\<close>

definition untouched :: "string \<Rightarrow> (string, string) gomap \<Rightarrow> eval_state \<Rightarrow> bool" where
  "untouched i m s \<longleftrightarrow>
     filed (ev_sharedRoutes (es_ev s)) \<and> gm_get (ev_sharedRoutes (es_ev s)) i = None \<and>
     (\<forall>r \<in> set (es_flight s). rt_ID r \<noteq> i) \<and> gm_get (ev_perRoute (es_ev s)) i = Some m"

lemma untouched_step:
  assumes "eval_step s l t" and "l \<noteq> Reload" and "untouched i m s"
  shows "untouched i m t"
  using assms
proof (cases rule: eval_step.cases)
  case (pick r)
  from pick(3) obtain k where k: "(k, r) \<in> set (ev_sharedRoutes (es_ev s))" by auto
  then have "gm_get (ev_sharedRoutes (es_ev s)) k = Some r" "rt_ID r = k"
    using assms(3) by (auto simp: untouched_def filed_def gm_get_iff)
  with assms(3) pick show ?thesis by (auto simp: untouched_def)
next
  case (store r res)
  with assms(3) show ?thesis
    by (auto simp: untouched_def store_other dest: notin_set_remove1)
qed auto

lemma untouched_run:
  assumes "eval_run s ls t" and "Reload \<notin> set ls" and "untouched i m s"
  shows "untouched i m t"
  using assms by (induction rule: eval_run.induct) (auto intro: untouched_step)

section \<open>Properties\<close>

text \<open>
  A route is treated as shared exactly when it is enabled and dials an address that at least
  two enabled routes of the configuration dial; an address listed twice by one route, and the
  upstreams of disabled routes, do not count.
\<close>

theorem route_shared_iff:
  "IsShared r (Evaluator_Refresh routes e) \<longleftrightarrow>
     \<not> rt_Disabled r \<and> (\<exists>k \<in> set (route_keys r). 2 \<le> length (filter (\<lambda>r'. \<not> rt_Disabled r' \<and> k \<in> set (route_keys r')) routes))"
  by (auto simp: IsShared_def IsRouteShared_def Evaluator_Refresh_def Let_def list_ex_iff count_of_SharedUpstreams
      dials_def [abs_def])

text \<open>
  A probe that is under way while a reload makes its route unshared leaves a verdict behind
  that nothing removes: whatever ticks and events follow, until the next reload, the verdict
  answers for the route and the tracker is not asked.
\<close>

theorem stale_verdict_survives:
  assumes "r \<in> set (es_flight s)" and "\<forall>r' \<in> set (remove1 r (es_flight s)). rt_ID r' \<noteq> rt_ID r"
    and "gm_get (ev_sharedRoutes (Evaluator_Refresh routes (es_ev s))) (rt_ID r) = None"
    and "NormalizeAddr u \<noteq> []" and "gm_get res (NormalizeAddr u) = Some v"
    and "eval_step s Reload s1" and "es_ev s1 = Evaluator_Refresh routes (es_ev s)" and "es_flight s1 = es_flight s"
    and "s2 = \<lparr>es_ev = fst (store_verdicts r res (es_ev s1)), es_flight = remove1 r (es_flight s1)\<rparr>"
    and "eval_run s2 ls t" and "Reload \<notin> set ls"
  shows "eval_step s1 Store s2 \<and> RouteUpstreamStatus (es_ev t) (rt_ID r) u = Some v"
proof
  show "eval_step s1 Store s2"
    using assms(1,8) eval_step.store [of r s1 res] by (simp add: assms(9))
  have "res \<noteq> []" using assms(5) by auto
  then have "untouched (rt_ID r) res s2"
    using assms(2,3,7,8) filed_Refresh by (simp add: untouched_def assms(9) store_own)
  then have "untouched (rt_ID r) res t" using untouched_run assms(10,11) by blast
  then show "RouteUpstreamStatus (es_ev t) (rt_ID r) u = Some v"
    using assms(4,5) by (simp add: RouteUpstreamStatus_iff untouched_def)
qed

definition pool_route :: "string \<Rightarrow> Route" where
  "pool_route i = zero_route\<lparr>rt_ID := i, rt_Host := i, rt_Upstreams := [\<lparr>up_URL = ''http://10.0.0.5'', up_Weight = 0\<rparr>],
     rt_HealthCheck := zero_health\<lparr>hc_Enabled := True\<rparr>\<rparr>"

text \<open>
  Two routes share an upstream; the second is deleted while the first is being probed. The first
  is then alone on its upstream, but the verdict of the probe keeps answering for it.
\<close>

theorem stale_verdict_survives_witness:
  "RouteUpstreamStatus
     (fst (store_verdicts (pool_route ''a'') [(''10.0.0.5:80'', StatusUnhealthy)]
       (Evaluator_Refresh [pool_route ''a''] (Evaluator_Refresh [pool_route ''a'', pool_route ''b''] NewEvaluator))))
     ''a'' ''http://10.0.0.5'' = Some StatusUnhealthy"
proof -
  let ?s = "\<lparr>es_ev = Evaluator_Refresh [pool_route ''a'', pool_route ''b''] NewEvaluator, es_flight = [pool_route ''a'']\<rparr>"
  let ?u = "?s\<lparr>es_ev := Evaluator_Refresh [pool_route ''a''] (es_ev ?s)\<rparr>"
  have i: "rt_ID (pool_route ''a'') = ''a''" by (simp add: pool_route_def)
  have g: "gm_get (ev_sharedRoutes (Evaluator_Refresh [pool_route ''a''] (es_ev ?s))) ''a'' = None" by code_simp
  have n: "NormalizeAddr ''http://10.0.0.5'' = ''10.0.0.5:80''" by code_simp
  let ?v = "\<lparr>es_ev = fst (store_verdicts (pool_route ''a'') [(''10.0.0.5:80'', StatusUnhealthy)] (es_ev ?u)),
    es_flight = remove1 (pool_route ''a'') (es_flight ?u)\<rparr>"
  have "RouteUpstreamStatus (es_ev ?v) (rt_ID (pool_route ''a'')) ''http://10.0.0.5'' = Some StatusUnhealthy"
    by (rule stale_verdict_survives [THEN conjunct2, OF _ _ _ _ _ eval_step.reload _ _ refl eval_run.run_refl])
      (simp_all add: i g [simplified] n)
  then show ?thesis by (simp add: i)
qed

end
