(* ===== verification/RouteNotify.thy ===== *)
theory RouteNotify
  imports SharedHealth AlertWatch
begin

text \<open>
  Notifications about the health of routes: \<open>internal/routehealth/index.go\<close> and \<open>notifier.go\<close>, and
  the callbacks \<open>main.go\<close> wires between tracker, evaluator and notifier. Timers of the runtime are
  explicit: a timer that fires becomes a started callback, which runs once it gets the lock;
  \<open>Stop\<close> only removes a timer that has not fired. The calls of the dispatcher are recorded.
\<close>

section \<open>Aggregate state and index\<close>

datatype aggState = stateHealthy | stateDegraded | stateDown

definition aggregate :: "string list \<Rightarrow> aggState" where
  "aggregate statuses =
     (let unhealthy = length (filter (\<lambda>s. s = StatusUnhealthy) statuses)
      in if statuses = [] then stateHealthy
         else if unhealthy = 0 then stateHealthy
         else if unhealthy = length statuses then stateDown
         else stateDegraded)"

record routeRef =
  rr_routeID :: string
  rr_host :: string
  rr_upstream :: "string list"
  rr_notify :: HealthNotifyConfig

type_synonym health_index = "(string, routeRef list) gomap"

definition ref_of :: "Route \<Rightarrow> routeRef" where
  "ref_of r = \<lparr>rr_routeID = rt_ID r, rr_host = rt_Host r, rr_upstream = route_keys r, rr_notify = rt_HealthNotify r\<rparr>"

definition index_put :: "routeRef \<Rightarrow> string \<Rightarrow> health_index \<Rightarrow> health_index" where
  "index_put ref a m = gm_put a ((case gm_get m a of None \<Rightarrow> [] | Some rs \<Rightarrow> rs) @ [ref]) m"

definition index_Refresh :: "Route list \<Rightarrow> health_index" where
  "index_Refresh routes =
     fold (\<lambda>r m. if \<not> hn_Enabled (rt_HealthNotify r) then m
                  else if route_keys r = [] then m
                  else fold (index_put (ref_of r)) (route_keys r) m) routes []"

definition routesFor :: "string \<Rightarrow> health_index \<Rightarrow> routeRef list" where
  "routesFor addr m = (case gm_get m addr of None \<Rightarrow> [] | Some rs \<Rightarrow> rs)"

section \<open>Timers\<close>

datatype job = Flush string | Remind routeRef

record timers =
  tm_next :: nat
  tm_armed :: "(nat, time \<times> job) gomap"

definition AfterFunc :: "time \<Rightarrow> duration \<Rightarrow> job \<Rightarrow> timers \<Rightarrow> nat \<times> timers" where
  "AfterFunc now d f tm = (tm_next tm, \<lparr>tm_next = Suc (tm_next tm), tm_armed = gm_put (tm_next tm) (now + d, f) (tm_armed tm)\<rparr>)"

definition timer_Stop :: "nat \<Rightarrow> timers \<Rightarrow> timers" where
  "timer_Stop i tm = tm\<lparr>tm_armed := gm_del i (tm_armed tm)\<rparr>"

section \<open>The notifier\<close>

record edge =
  ed_routeID :: string
  ed_host :: string
  ed_channelID :: string
  ed_state :: aggState
  ed_at :: time
  ed_downSince :: time

record Notifier =
  nf_byAddr :: health_index
  nf_last :: "(string, aggState) gomap"
  nf_downSince :: "(string, time) gomap"
  nf_reminders :: "(string, nat) gomap"
  nf_pending :: "(string, nat \<times> edge list) gomap"

definition NewNotifier :: Notifier where
  "NewNotifier = \<lparr>nf_byAddr = [], nf_last = [], nf_downSince = [], nf_reminders = [], nf_pending = []\<rparr>"

definition DefaultWindow :: duration where "DefaultWindow = 3 * ns_second"

definition last_of :: "Notifier \<Rightarrow> string \<Rightarrow> aggState" where
  "last_of n routeID = (case gm_get (nf_last n) routeID of None \<Rightarrow> stateHealthy | Some s \<Rightarrow> s)"

definition down_since :: "Notifier \<Rightarrow> string \<Rightarrow> time" where
  "down_since n routeID = (case gm_get (nf_downSince n) routeID of None \<Rightarrow> zero_time | Some ts \<Rightarrow> ts)"

definition Notifier_Refresh :: "Route list \<Rightarrow> Notifier \<Rightarrow> Notifier" where
  "Notifier_Refresh routes n = n\<lparr>nf_byAddr := index_Refresh routes\<rparr>"

definition stopReminderLocked :: "string \<Rightarrow> Notifier \<times> timers \<Rightarrow> Notifier \<times> timers" where
  "stopReminderLocked routeID = (\<lambda>(n, tm).
     case gm_get (nf_reminders n) routeID of
       None \<Rightarrow> (n, tm)
     | Some i \<Rightarrow> (n\<lparr>nf_reminders := gm_del routeID (nf_reminders n)\<rparr>, timer_Stop i tm))"

definition reminder_delay :: "routeRef \<Rightarrow> duration" where
  "reminder_delay ref = wrap64 (hn_ReminderMinutes (rr_notify ref) * ns_minute)"

definition armReminderLocked :: "time \<Rightarrow> routeRef \<Rightarrow> Notifier \<times> timers \<Rightarrow> Notifier \<times> timers" where
  "armReminderLocked now ref st =
     (if hn_ReminderMinutes (rr_notify ref) \<le> 0 then st
      else case stopReminderLocked (rr_routeID ref) st of (n, tm) \<Rightarrow>
        (case AfterFunc now (reminder_delay ref) (Remind ref) tm of (i, tm') \<Rightarrow>
           (n\<lparr>nf_reminders := gm_put (rr_routeID ref) i (nf_reminders n)\<rparr>, tm')))"

definition bufferLocked :: "time \<Rightarrow> string \<Rightarrow> edge \<Rightarrow> Notifier \<times> timers \<Rightarrow> Notifier \<times> timers" where
  "bufferLocked now addr e = (\<lambda>(n, tm).
     case gm_get (nf_pending n) addr of
       Some (i, es) \<Rightarrow> (n\<lparr>nf_pending := gm_put addr (i, es @ [e]) (nf_pending n)\<rparr>, tm)
     | None \<Rightarrow>
         (case AfterFunc now DefaultWindow (Flush addr) tm of (i, tm') \<Rightarrow>
            (n\<lparr>nf_pending := gm_put addr (i, [e]) (nf_pending n)\<rparr>, tm')))"

text \<open>
  What the notifier reads when a transition arrives: the verdict of the evaluator, if it has one,
  else the status of the tracker.
\<close>

record health_view =
  hv_status :: "string \<Rightarrow> string"
  hv_perRoute :: "string \<Rightarrow> string \<Rightarrow> string option"

definition ref_state :: "health_view \<Rightarrow> routeRef \<Rightarrow> aggState" where
  "ref_state v ref =
     aggregate (map (\<lambda>u. case hv_perRoute v (rr_routeID ref) u of Some s \<Rightarrow> s | None \<Rightarrow> hv_status v u) (rr_upstream ref))"

definition edge_of :: "Notifier \<Rightarrow> time \<Rightarrow> routeRef \<Rightarrow> aggState \<Rightarrow> edge" where
  "edge_of n ts ref newState =
     \<lparr>ed_routeID = rr_routeID ref, ed_host = rr_host ref, ed_channelID = hn_ChannelID (rr_notify ref),
      ed_state = newState, ed_at = ts,
      ed_downSince = (if newState = stateHealthy then down_since n (rr_routeID ref) else zero_time)\<rparr>"

definition outage_mark :: "time \<Rightarrow> string \<Rightarrow> aggState \<Rightarrow> aggState \<Rightarrow> Notifier \<times> timers \<Rightarrow> Notifier \<times> timers" where
  "outage_mark ts routeID prev newState = (\<lambda>(n, tm).
     if prev = stateHealthy \<and> newState \<noteq> stateHealthy
     then (n\<lparr>nf_downSince := gm_put routeID ts (nf_downSince n)\<rparr>, tm)
     else if newState = stateHealthy
     then stopReminderLocked routeID (n\<lparr>nf_downSince := gm_del routeID (nf_downSince n)\<rparr>, tm)
     else (n, tm))"

text \<open>The edge a route of the index has under the view, and the treatment of that route.\<close>

definition ref_edge :: "health_view \<Rightarrow> time \<Rightarrow> routeRef \<Rightarrow> Notifier \<Rightarrow> edge option" where
  "ref_edge v ts ref n =
     (let newState = ref_state v ref
      in if newState = last_of n (rr_routeID ref) then None else Some (edge_of n ts ref newState))"

definition ref_turn :: "health_view \<Rightarrow> time \<Rightarrow> string \<Rightarrow> time \<Rightarrow> routeRef \<Rightarrow> Notifier \<times> timers \<Rightarrow> Notifier \<times> timers" where
  "ref_turn v now addr ts ref = (\<lambda>(n, tm).
     case ref_edge v ts ref n of
       None \<Rightarrow> (n, tm)
     | Some e \<Rightarrow>
         let k = rr_routeID ref;
             st1 = outage_mark ts k (last_of n k) (ed_state e) (n\<lparr>nf_last := gm_put k (ed_state e) (nf_last n)\<rparr>, tm);
             st2 = (if ed_state e = stateDown then armReminderLocked now ref st1 else stopReminderLocked k st1)
         in bufferLocked now addr e st2)"

definition Notifier_OnTransition ::
  "health_view \<Rightarrow> time \<Rightarrow> string \<Rightarrow> time \<Rightarrow> Notifier \<times> timers \<Rightarrow> Notifier \<times> timers" where
  "Notifier_OnTransition v now addr ts st = fold (ref_turn v now addr ts) (routesFor addr (nf_byAddr (fst st))) st"

section \<open>Messages\<close>

definition countedRoutes :: "nat \<Rightarrow> string" where
  "countedRoutes n = (if n = 1 then ''1 route'' else itoa (int n) @ '' routes'')"

definition bullet :: string where "bullet = [CHR 0xE2, CHR 0x80, CHR 0xA2, CHR '' '']"

definition newline :: string where "newline = [CHR 0x0A]"

definition bulletHosts :: "string list \<Rightarrow> string" where
  "bulletHosts hosts =
     rev (dropWhile (\<lambda>c. c = CHR 0x0A) (rev (concat (map (\<lambda>h. bullet @ h @ newline) hosts))))"

definition plural :: "int \<Rightarrow> string \<Rightarrow> string" where
  "plural n unit = (if n = 1 then ''1 '' @ unit else itoa n @ '' '' @ unit @ ''s'')"

definition formatDurationHuman :: "duration \<Rightarrow> string" where
  "formatDurationHuman d =
     (if 24 * ns_hour \<le> d then plural (d div (24 * ns_hour)) ''day''
      else if ns_hour \<le> d then plural (d div ns_hour) ''hour''
      else if ns_minute \<le> d then plural (d div ns_minute) ''minute''
      else plural (max 1 (d div ns_second)) ''second'')"

definition humanSince :: "time \<Rightarrow> time \<Rightarrow> string" where
  "humanSince now since =
     (if since = zero_time \<or> \<not> since < now then ''an unknown time'' else formatDurationHuman (time_sub now since))"

definition bulletRecovered :: "edge list \<Rightarrow> string" where
  "bulletRecovered edges =
     joinWith newline (sort (map (\<lambda>e. bullet @ ed_host e @ '' (down for '' @ humanSince (ed_at e) (ed_downSince e) @ '')'') edges))"

definition SeverityInfo :: int where "SeverityInfo = 0"
definition SeverityWarning :: int where "SeverityWarning = 1"
definition SeverityCritical :: int where "SeverityCritical = 2"

definition health_event :: "string \<times> time \<Rightarrow> int \<Rightarrow> string \<Rightarrow> string \<Rightarrow> (string, string) gomap \<Rightarrow> AlertEvent" where
  "health_event stamp sev subject body labels =
     \<lparr>ev_ID = fst stamp, ev_Timestamp = snd stamp, ev_RuleID = [], ev_RuleName = ''route-health'', ev_Severity = sev,
      ev_Category = ''route_health'', ev_Subject = subject, ev_Body = body, ev_Labels = labels, ev_Context = []\<rparr>"

definition buildEvent :: "string \<times> time \<Rightarrow> string \<Rightarrow> aggState \<Rightarrow> edge list \<Rightarrow> AlertEvent" where
  "buildEvent stamp addr state edges =
     (let hosts = sort (map ed_host edges);
          routes = countedRoutes (length hosts);
          labels = [(''upstream'', addr), (''category'', ''route_health'')]
      in case state of
           stateDown \<Rightarrow> health_event stamp SeverityCritical (routes @ '' down'')
             (''Every upstream of '' @ routes @ '' is unreachable via '' @ addr @ ''.'' @ newline @ newline @ bulletHosts hosts) labels
         | stateDegraded \<Rightarrow> health_event stamp SeverityWarning (routes @ '' degraded'')
             (''An upstream of '' @ routes @ '' ('' @ addr @ '') is unhealthy; the route still has a healthy upstream.''
                @ newline @ newline @ bulletHosts hosts) labels
         | stateHealthy \<Rightarrow> health_event stamp SeverityInfo (routes @ '' recovered'')
             (routes @ '' recovered via '' @ addr @ ''.'' @ newline @ newline @ bulletRecovered edges) labels)"

text \<open>The groups of a batch: one message per state and channel, in some order.\<close>

definition group_key :: "edge \<Rightarrow> aggState \<times> string" where
  "group_key e = (ed_state e, ed_channelID e)"

definition groups_of :: "edge list \<Rightarrow> ((aggState \<times> string) \<times> edge list) list" where
  "groups_of es = map (\<lambda>k. (k, filter (\<lambda>e. group_key e = k) es)) (remdups (map group_key es))"

type_synonym delivery = "AlertEvent \<times> string list"

definition flush :: "(nat \<Rightarrow> string \<times> time) \<Rightarrow> string \<Rightarrow> Notifier \<Rightarrow> Notifier \<times> delivery list" where
  "flush stamps addr n =
     (let n' = n\<lparr>nf_pending := gm_del addr (nf_pending n)\<rparr>
      in case gm_get (nf_pending n) addr of
           None \<Rightarrow> (n', [])
         | Some (_, es) \<Rightarrow>
             (n', map (\<lambda>(i, (state, channelID), es). (buildEvent (stamps i) addr state es, [channelID]))
                    (enumerate 0 (groups_of es))))"

definition fireReminder ::
  "time \<Rightarrow> string \<times> time \<Rightarrow> routeRef \<Rightarrow> Notifier \<times> timers \<Rightarrow> (Notifier \<times> timers) \<times> delivery list" where
  "fireReminder now stamp ref = (\<lambda>(n, tm).
     if last_of n (rr_routeID ref) \<noteq> stateDown then (stopReminderLocked (rr_routeID ref) (n, tm), [])
     else
       let addr = (case rr_upstream ref of [] \<Rightarrow> [] | a # _ \<Rightarrow> a);
           since = down_since n (rr_routeID ref);
           evt = health_event stamp SeverityCritical (rr_host ref @ '' still down'')
             (rr_host ref @ '' has been down for '' @ humanSince now since @ '' (upstream '' @ addr @ '').'')
             [(''upstream'', addr), (''category'', ''route_health''), (''reminder'', ''1'')]
       in case AfterFunc now (reminder_delay ref) (Remind ref) tm of (i, tm') \<Rightarrow>
            ((n\<lparr>nf_reminders := gm_put (rr_routeID ref) i (nf_reminders n)\<rparr>, tm'), [(evt, [hn_ChannelID (rr_notify ref)])]))"

section \<open>The wiring\<close>

text \<open>The callbacks installed by \<open>main.go\<close>: what the notifier sees, a transition of the tracker, a reload.\<close>

definition view_of :: "Evaluator \<Rightarrow> HCStatusTracker \<Rightarrow> health_view" where
  "view_of e t = \<lparr>hv_status = (\<lambda>u. Status u t), hv_perRoute = RouteUpstreamStatus e\<rparr>"

definition wired_transition ::
  "probe_lib \<Rightarrow> time \<Rightarrow> HCStatusTracker \<Rightarrow> hc_transition \<Rightarrow> Evaluator \<times> Notifier \<times> timers \<Rightarrow> Evaluator \<times> Notifier \<times> timers" where
  "wired_transition A now t tr = (\<lambda>(e, st).
     let e' = (if IsSharedAddr (tr_addr tr) e then OnSharedEvent A (tr_addr tr) e else e)
     in (e', Notifier_OnTransition (view_of e' t) now (tr_addr tr) (tr_at tr) st))"

definition wired_reload :: "Route list \<Rightarrow> Evaluator \<times> Notifier \<times> timers \<Rightarrow> Evaluator \<times> Notifier \<times> timers" where
  "wired_reload routes = (\<lambda>(e, n, tm). (Evaluator_Refresh routes e, Notifier_Refresh routes n, tm))"

definition wired_tick :: "probe_lib \<Rightarrow> time \<Rightarrow> HCStatusTracker \<Rightarrow> Evaluator \<times> Notifier \<times> timers \<Rightarrow> Evaluator \<times> Notifier \<times> timers" where
  "wired_tick A now t = (\<lambda>(e, st).
     case Evaluator_Tick A e of (e', changed) \<Rightarrow>
       (e', fold (\<lambda>a. Notifier_OnTransition (view_of e' t) now a now) changed st))"

end
