(* ===== verification/RouteNotifyRuns.thy ===== *)
theory RouteNotifyRuns
  imports RouteNotify "HOL-Library.Multiset"
begin

text \<open>
  All runs of the route health notifier: transitions, reloads, timers that fire and callbacks that
  get the lock, in any order. The statuses a transition reads are arbitrary. \<open>hw_edges\<close> is the
  history of the changes of aggregate state, which the code does not keep.
\<close>

section \<open>Steps\<close>

record health_world =
  hw_nf :: Notifier
  hw_tm :: timers
  hw_jobs :: "job list"
  hw_sent :: "delivery list"
  hw_edges :: "edge list"

fun turn_edges :: "health_view \<Rightarrow> time \<Rightarrow> string \<Rightarrow> time \<Rightarrow> routeRef list \<Rightarrow> Notifier \<times> timers \<Rightarrow> edge list" where
  "turn_edges v now addr ts [] st = []"
| "turn_edges v now addr ts (ref # refs) st =
     (case ref_edge v ts ref (fst st) of None \<Rightarrow> [] | Some e \<Rightarrow> [e]) @
     turn_edges v now addr ts refs (ref_turn v now addr ts ref st)"

definition transition_turn :: "health_view \<Rightarrow> time \<Rightarrow> string \<Rightarrow> time \<Rightarrow> health_world \<Rightarrow> health_world" where
  "transition_turn v now addr ts w =
     (let st = (hw_nf w, hw_tm w); st' = Notifier_OnTransition v now addr ts st
      in w\<lparr>hw_nf := fst st', hw_tm := snd st',
           hw_edges := hw_edges w @ turn_edges v now addr ts (routesFor addr (nf_byAddr (hw_nf w))) st\<rparr>)"

definition flush_turn :: "(nat \<Rightarrow> string \<times> time) \<Rightarrow> string \<Rightarrow> health_world \<Rightarrow> health_world" where
  "flush_turn stamps addr w =
     (let (n, ds) = flush stamps addr (hw_nf w)
      in w\<lparr>hw_nf := n, hw_jobs := remove1 (Flush addr) (hw_jobs w), hw_sent := hw_sent w @ ds\<rparr>)"

definition remind_turn :: "time \<Rightarrow> string \<times> time \<Rightarrow> routeRef \<Rightarrow> health_world \<Rightarrow> health_world" where
  "remind_turn now stamp ref w =
     (let ((n, tm), ds) = fireReminder now stamp ref (hw_nf w, hw_tm w)
      in w\<lparr>hw_nf := n, hw_tm := tm, hw_jobs := remove1 (Remind ref) (hw_jobs w), hw_sent := hw_sent w @ ds\<rparr>)"

definition fire_turn :: "nat \<Rightarrow> job \<Rightarrow> health_world \<Rightarrow> health_world" where
  "fire_turn i j w = w\<lparr>hw_tm := timer_Stop i (hw_tm w), hw_jobs := hw_jobs w @ [j]\<rparr>"

text \<open>The condition \<open>Q\<close> restricts the route sets of reloads.\<close>

inductive hw_step :: "(Route list \<Rightarrow> bool) \<Rightarrow> health_world \<Rightarrow> health_world \<Rightarrow> bool" for Q where
  step_transition: "hw_step Q w (transition_turn v now addr ts w)"
| step_reload: "Q routes \<Longrightarrow> hw_step Q w (w\<lparr>hw_nf := Notifier_Refresh routes (hw_nf w)\<rparr>)"
| step_fire: "gm_get (tm_armed (hw_tm w)) i = Some (d, j) \<Longrightarrow> hw_step Q w (fire_turn i j w)"
| step_flush: "Flush addr \<in> set (hw_jobs w) \<Longrightarrow> hw_step Q w (flush_turn stamps addr w)"
| step_remind: "Remind ref \<in> set (hw_jobs w) \<Longrightarrow> hw_step Q w (remind_turn now stamp ref w)"

definition hw_init :: health_world where
  "hw_init = \<lparr>hw_nf = NewNotifier, hw_tm = \<lparr>tm_next = 0, tm_armed = []\<rparr>, hw_jobs = [], hw_sent = [], hw_edges = []\<rparr>"

abbreviation hw_steps :: "(Route list \<Rightarrow> bool) \<Rightarrow> health_world \<Rightarrow> health_world \<Rightarrow> bool" where
  "hw_steps Q \<equiv> (hw_step Q)\<^sup>*\<^sup>*"

abbreviation hw_reachable :: "health_world \<Rightarrow> bool" where
  "hw_reachable \<equiv> hw_steps (\<lambda>_. True) hw_init"

text \<open>An invariant of the initial state that every step keeps holds in every reachable state.\<close>

lemma reachable_inv:
  assumes "hw_steps Q w0 w" and "I w0" and "\<And>v w. hw_step Q v w \<Longrightarrow> I v \<Longrightarrow> I w"
  shows "I w"
  using assms(1) by (induction rule: rtranclp_induct) (auto intro: assms(2,3))

section \<open>What the parts of a step change\<close>

lemma stopReminder_same [simp]:
  "nf_last (fst (stopReminderLocked k st)) = nf_last (fst st)"
  "nf_pending (fst (stopReminderLocked k st)) = nf_pending (fst st)"
  "nf_byAddr (fst (stopReminderLocked k st)) = nf_byAddr (fst st)"
  by (cases st; simp add: stopReminderLocked_def split: option.split)+

lemma armReminder_same [simp]:
  "nf_last (fst (armReminderLocked now ref st)) = nf_last (fst st)"
  "nf_pending (fst (armReminderLocked now ref st)) = nf_pending (fst st)"
  "nf_byAddr (fst (armReminderLocked now ref st)) = nf_byAddr (fst st)"
  by (simp_all add: armReminderLocked_def AfterFunc_def case_prod_beta)

lemma outage_mark_same [simp]:
  "nf_last (fst (outage_mark ts k p s st)) = nf_last (fst st)"
  "nf_pending (fst (outage_mark ts k p s st)) = nf_pending (fst st)"
  "nf_byAddr (fst (outage_mark ts k p s st)) = nf_byAddr (fst st)"
  by (cases st; simp add: outage_mark_def)+

lemma bufferLocked_same [simp]:
  "nf_last (fst (bufferLocked now addr e st)) = nf_last (fst st)"
  "nf_byAddr (fst (bufferLocked now addr e st)) = nf_byAddr (fst st)"
  "nf_reminders (fst (bufferLocked now addr e st)) = nf_reminders (fst st)"
  by (cases st; simp add: bufferLocked_def AfterFunc_def split: option.split prod.split)+

text \<open>The treatment of a route with an edge, as a chain of the four parts.\<close>

lemma ref_turn_None: "ref_edge v ts ref (fst st) = None \<Longrightarrow> ref_turn v now addr ts ref st = st"
  by (cases st) (simp add: ref_turn_def)

definition remind_part :: "time \<Rightarrow> routeRef \<Rightarrow> aggState \<Rightarrow> Notifier \<times> timers \<Rightarrow> Notifier \<times> timers" where
  "remind_part now ref s st = (if s = stateDown then armReminderLocked now ref st else stopReminderLocked (rr_routeID ref) st)"

lemma ref_turn_Some:
  assumes "ref_edge v ts ref (fst st) = Some e"
  shows "ref_turn v now addr ts ref st =
    bufferLocked now addr e (remind_part now ref (ed_state e)
      (outage_mark ts (rr_routeID ref) (last_of (fst st) (rr_routeID ref)) (ed_state e)
        ((fst st)\<lparr>nf_last := gm_put (rr_routeID ref) (ed_state e) (nf_last (fst st))\<rparr>, snd st)))"
  using assms by (cases st) (simp add: ref_turn_def remind_part_def Let_def)

lemma remind_part_same [simp]:
  "nf_last (fst (remind_part now ref s st)) = nf_last (fst st)"
  "nf_pending (fst (remind_part now ref s st)) = nf_pending (fst st)"
  "nf_byAddr (fst (remind_part now ref s st)) = nf_byAddr (fst st)"
  by (simp_all add: remind_part_def)

lemma ref_edge_Some:
  "ref_edge v ts ref n = Some e \<Longrightarrow> ed_routeID e = rr_routeID ref \<and> ed_state e \<noteq> last_of n (rr_routeID ref)"
  by (auto simp: ref_edge_def edge_of_def Let_def split: if_splits)

section \<open>Changes alternate\<close>

lemma last_of_put: "last_of (n\<lparr>nf_last := gm_put k s (nf_last n)\<rparr>) k' = (if k' = k then s else last_of n k')"
  by (simp add: last_of_def)

lemma last_of_eq: "nf_last n = nf_last n' \<Longrightarrow> last_of n = last_of n'"
  by (rule ext) (simp add: last_of_def)

lemma last_of_ref_turn:
  "last_of (fst (ref_turn v now addr ts ref st)) k =
     (case ref_edge v ts ref (fst st) of None \<Rightarrow> last_of (fst st) k
      | Some e \<Rightarrow> if k = rr_routeID ref then ed_state e else last_of (fst st) k)"
proof (cases "ref_edge v ts ref (fst st)")
  case (Some e)
  let ?n = "(fst st)\<lparr>nf_last := gm_put (rr_routeID ref) (ed_state e) (nf_last (fst st))\<rparr>"
  have "last_of (fst (ref_turn v now addr ts ref st)) = last_of ?n"
    by (rule last_of_eq) (simp add: ref_turn_Some [OF Some])
  with Some show ?thesis by (simp add: last_of_put)
qed (simp add: ref_turn_None)

definition edges_for :: "string \<Rightarrow> edge list \<Rightarrow> edge list" where
  "edges_for k es = filter (\<lambda>e. ed_routeID e = k) es"

definition states_of :: "string \<Rightarrow> edge list \<Rightarrow> aggState list" where
  "states_of k es = stateHealthy # map ed_state (edges_for k es)"

lemma states_of_not_Nil [simp]: "states_of k es \<noteq> []"
  by (simp add: states_of_def)

definition alternating :: "Notifier \<Rightarrow> edge list \<Rightarrow> bool" where
  "alternating n es \<longleftrightarrow> (\<forall>k. distinct_adj (states_of k es) \<and> last (states_of k es) = last_of n k)"

lemma distinct_adj_snoc: "xs \<noteq> [] \<Longrightarrow> distinct_adj (xs @ [x]) \<longleftrightarrow> distinct_adj xs \<and> last xs \<noteq> x"
  by (simp add: distinct_adj_append_iff)

lemma alternating_ref_turn:
  assumes "alternating (fst st) es"
  shows "alternating (fst (ref_turn v now addr ts ref st))
    (es @ (case ref_edge v ts ref (fst st) of None \<Rightarrow> [] | Some e \<Rightarrow> [e]))"
proof (cases "ref_edge v ts ref (fst st)")
  case None
  with assms show ?thesis by (simp add: ref_turn_None)
next
  case (Some e)
  note e = ref_edge_Some [OF Some]
  have "distinct_adj (states_of k (es @ [e])) \<and> last (states_of k (es @ [e])) = (if k = rr_routeID ref then ed_state e else last_of (fst st) k)" for k
  proof (cases "k = rr_routeID ref")
    case True
    have "states_of k (es @ [e]) = states_of k es @ [ed_state e]"
      using e True by (simp add: states_of_def edges_for_def)
    moreover have "last (states_of k es) \<noteq> ed_state e" "distinct_adj (states_of k es)"
      using assms e True by (auto simp: alternating_def)
    ultimately show ?thesis using True by (simp add: distinct_adj_snoc)
  next
    case False
    then have "states_of k (es @ [e]) = states_of k es" using e by (simp add: states_of_def edges_for_def)
    with False assms show ?thesis by (simp add: alternating_def)
  qed
  with Some show ?thesis by (simp add: alternating_def last_of_ref_turn)
qed

lemma alternating_turn:
  "alternating (fst st) es \<Longrightarrow>
   alternating (fst (fold (ref_turn v now addr ts) refs st)) (es @ turn_edges v now addr ts refs st)"
proof (induction refs arbitrary: st es)
  case (Cons ref refs)
  from Cons.IH [OF alternating_ref_turn [OF Cons.prems]] show ?case by simp
qed simp

lemma alternating_eq: "nf_last n' = nf_last n \<Longrightarrow> alternating n es \<Longrightarrow> alternating n' es"
  by (simp add: alternating_def last_of_eq [of n' n])

lemma flush_same [simp]:
  "nf_last (fst (flush stamps addr n)) = nf_last n" "nf_reminders (fst (flush stamps addr n)) = nf_reminders n"
  "nf_byAddr (fst (flush stamps addr n)) = nf_byAddr n" "nf_pending (fst (flush stamps addr n)) = gm_del addr (nf_pending n)"
  by (simp_all add: flush_def Let_def split: option.split)

lemma fireReminder_same [simp]:
  "nf_last (fst (fst (fireReminder now stamp ref st))) = nf_last (fst st)"
  "nf_pending (fst (fst (fireReminder now stamp ref st))) = nf_pending (fst st)"
  "nf_byAddr (fst (fst (fireReminder now stamp ref st))) = nf_byAddr (fst st)"
  by (cases st; simp add: fireReminder_def AfterFunc_def Let_def)+

lemma turn_simps:
  "hw_nf (flush_turn stamps addr w) = fst (flush stamps addr (hw_nf w))"
  "hw_edges (flush_turn stamps addr w) = hw_edges w" "hw_tm (flush_turn stamps addr w) = hw_tm w"
  "hw_jobs (flush_turn stamps addr w) = remove1 (Flush addr) (hw_jobs w)"
  "hw_sent (flush_turn stamps addr w) = hw_sent w @ snd (flush stamps addr (hw_nf w))"
  "hw_nf (remind_turn now stamp ref w) = fst (fst (fireReminder now stamp ref (hw_nf w, hw_tm w)))"
  "hw_tm (remind_turn now stamp ref w) = snd (fst (fireReminder now stamp ref (hw_nf w, hw_tm w)))"
  "hw_edges (remind_turn now stamp ref w) = hw_edges w"
  "hw_jobs (remind_turn now stamp ref w) = remove1 (Remind ref) (hw_jobs w)"
  "hw_sent (remind_turn now stamp ref w) = hw_sent w @ snd (fireReminder now stamp ref (hw_nf w, hw_tm w))"
  "hw_nf (fire_turn i j w) = hw_nf w" "hw_edges (fire_turn i j w) = hw_edges w" "hw_sent (fire_turn i j w) = hw_sent w"
  "hw_jobs (fire_turn i j w) = hw_jobs w @ [j]" "hw_tm (fire_turn i j w) = timer_Stop i (hw_tm w)"
  by (simp_all add: flush_turn_def remind_turn_def fire_turn_def split: prod.split)

lemma alternating_step:
  assumes "hw_step Q w w'" and "alternating (hw_nf w) (hw_edges w)"
  shows "alternating (hw_nf w') (hw_edges w')"
  using assms
proof (cases rule: hw_step.cases)
  case (step_transition v now addr ts)
  then show ?thesis
    using alternating_turn [of "(hw_nf w, hw_tm w)" "hw_edges w" v now addr ts "routesFor addr (nf_byAddr (hw_nf w))"] assms(2)
    by (simp add: transition_turn_def Notifier_OnTransition_def Let_def)
qed (auto simp: turn_simps Notifier_Refresh_def intro: alternating_eq [OF _ assms(2)])

section \<open>Batches and their timers\<close>

lemma count_list_remove1: "count_list (remove1 x xs) y = count_list xs y - (if x = y then 1 else 0)"
  by (induction xs) auto

lemma count_list_pos: "0 < count_list xs x \<longleftrightarrow> x \<in> set xs"
  by (simp add: count_list_0_iff flip: neq0_conv)

text \<open>The flushes of an address that are armed or started.\<close>

definition flushes :: "string \<Rightarrow> (nat, time \<times> job) gomap \<Rightarrow> job list \<Rightarrow> nat" where
  "flushes a armed jobs = length (filter (\<lambda>(_, _, j). j = Flush a) armed) + count_list jobs (Flush a)"

definition pending_at :: "Notifier \<Rightarrow> string \<Rightarrow> nat" where
  "pending_at n a = (case gm_get (nf_pending n) a of None \<Rightarrow> 0 | Some _ \<Rightarrow> 1)"

text \<open>
  The invariant of notifier, timers and started callbacks: timers have fresh identifiers, the
  reminder a route holds is a reminder of that route, and every pending batch has one flush.
\<close>

definition timers_ok :: "Notifier \<Rightarrow> timers \<Rightarrow> bool" where
  "timers_ok n tm \<longleftrightarrow>
     gm_wf (tm_armed tm) \<and> gm_wf (nf_pending n) \<and> (\<forall>i. gm_get (tm_armed tm) i \<noteq> None \<longrightarrow> i < tm_next tm) \<and>
     (\<forall>k i. gm_get (nf_reminders n) k = Some i \<longrightarrow> i < tm_next tm \<and>
        (\<forall>d j. gm_get (tm_armed tm) i = Some (d, j) \<longrightarrow> (\<exists>ref. j = Remind ref \<and> rr_routeID ref = k)))"

definition batches_ok :: "Notifier \<Rightarrow> timers \<Rightarrow> job list \<Rightarrow> bool" where
  "batches_ok n tm jobs \<longleftrightarrow> timers_ok n tm \<and> (\<forall>a. flushes a (tm_armed tm) jobs = pending_at n a)"

lemma timers_okD:
  assumes "timers_ok n tm"
  shows "gm_wf (tm_armed tm)" "gm_wf (nf_pending n)" "gm_get (tm_armed tm) i \<noteq> None \<Longrightarrow> i < tm_next tm"
    "gm_get (nf_reminders n) k = Some i \<Longrightarrow> i < tm_next tm"
    "gm_get (nf_reminders n) k = Some i \<Longrightarrow> gm_get (tm_armed tm) i = Some (d, j) \<Longrightarrow> \<exists>ref. j = Remind ref \<and> rr_routeID ref = k"
  using assms unfolding timers_ok_def by blast+

lemma flushes_put:
  assumes "gm_get armed i = None"
  shows "flushes a (gm_put i (d, j) armed) jobs = flushes a armed jobs + (if j = Flush a then 1 else 0)"
proof -
  have "i \<notin> fst ` set armed" using assms by (simp add: map_of_eq_None_iff)
  then have "gm_put i (d, j) armed = armed @ [(i, d, j)]" by (induction armed) auto
  then show ?thesis by (simp add: flushes_def)
qed

lemma flushes_del:
  assumes "gm_wf armed" and "gm_get armed i = Some (d, j)"
  shows "flushes a (gm_del i armed) jobs + (if j = Flush a then 1 else 0) = flushes a armed jobs"
proof -
  have "length (filter (\<lambda>(_, _, j). j = Flush a) (gm_del i m)) + (if j = Flush a then 1 else 0) =
      length (filter (\<lambda>(_, _, j). j = Flush a) m)" if "gm_wf m" "gm_get m i = Some (d, j)" for m
    using that
  proof (induction m)
    case (Cons p m)
    obtain i' d' j' where p: "p = (i', d', j')" by (metis prod_cases3)
    show ?case
    proof (cases "i' = i")
      case True
      with Cons.prems p have "i \<notin> gm_keys m" by auto
      then have "gm_del i m = m" by (simp add: gm_keys_def)
      with True p Cons.prems show ?thesis by simp
    next
      case False
      with Cons p show ?thesis by auto
    qed
  qed simp
  from this [OF assms] show ?thesis by (simp add: flushes_def)
qed

lemma flushes_del_None: "gm_get armed i = None \<Longrightarrow> flushes a (gm_del i armed) jobs = flushes a armed jobs"
  by (simp add: map_of_eq_None_iff)

lemma pending_at_eq: "nf_pending n' = nf_pending n \<Longrightarrow> pending_at n' a = pending_at n a"
  by (simp add: pending_at_def)

subsection \<open>Each part keeps it\<close>

lemma batches_ok_same:
  assumes "batches_ok n tm jobs" and "nf_pending n' = nf_pending n" and "nf_reminders n' = nf_reminders n"
  shows "batches_ok n' tm jobs"
  using assms(1) unfolding batches_ok_def timers_ok_def pending_at_def assms(2,3) .

lemma batches_ok_del:
  assumes "batches_ok n tm jobs" and "nf_pending n' = nf_pending n"
    and "nf_reminders n' = nf_reminders n \<or> nf_reminders n' = gm_del k (nf_reminders n)"
    and "\<And>d j. gm_get (tm_armed tm) i = Some (d, j) \<Longrightarrow> \<exists>ref. j = Remind ref"
  shows "batches_ok n' (timer_Stop i tm) jobs"
proof -
  have ok: "timers_ok n tm" using assms(1) by (simp add: batches_ok_def)
  have "timers_ok n' (timer_Stop i tm)"
    using timers_okD [OF ok] assms(2,3) unfolding timers_ok_def timer_Stop_def
    by (auto split: if_splits)
  moreover have "flushes a (tm_armed (timer_Stop i tm)) jobs = flushes a (tm_armed tm) jobs" for a
  proof (cases "gm_get (tm_armed tm) i")
    case (Some p)
    obtain d j where p: "p = (d, j)" by fastforce
    with Some assms(4) have "j \<noteq> Flush a" by blast
    with flushes_del [OF timers_okD(1) [OF ok], of i d j a jobs] Some p show ?thesis by (simp add: timer_Stop_def)
  qed (simp add: timer_Stop_def flushes_del_None)
  ultimately show ?thesis using assms(1,2) by (simp add: batches_ok_def pending_at_def)
qed

lemma batches_ok_stop:
  assumes "batches_ok (fst st) (snd st) jobs"
  shows "batches_ok (fst (stopReminderLocked k st)) (snd (stopReminderLocked k st)) jobs"
proof (cases "gm_get (nf_reminders (fst st)) k")
  case None
  with assms show ?thesis by (cases st) (simp add: stopReminderLocked_def)
next
  case (Some i)
  have ok: "timers_ok (fst st) (snd st)" using assms by (simp add: batches_ok_def)
  have "batches_ok ((fst st)\<lparr>nf_reminders := gm_del k (nf_reminders (fst st))\<rparr>) (timer_Stop i (snd st)) jobs"
    by (rule batches_ok_del [OF assms]) (auto dest: timers_okD(5) [OF ok Some])
  with Some show ?thesis by (cases st) (simp add: stopReminderLocked_def)
qed

text \<open>A new reminder timer, held by its route.\<close>

lemma batches_ok_remind:
  assumes "batches_ok n tm jobs" and "AfterFunc now d (Remind ref) tm = (i, tm')"
  shows "batches_ok (n\<lparr>nf_reminders := gm_put (rr_routeID ref) i (nf_reminders n)\<rparr>) tm' jobs"
proof -
  have ok: "timers_ok n tm" using assms(1) by (simp add: batches_ok_def)
  have new: "gm_get (tm_armed tm) (tm_next tm) = None" using timers_okD(3) [OF ok, of "tm_next tm"] by blast
  have i: "i = tm_next tm" "tm' = \<lparr>tm_next = Suc (tm_next tm), tm_armed = gm_put (tm_next tm) (now + d, Remind ref) (tm_armed tm)\<rparr>"
    using assms(2) by (auto simp: AfterFunc_def)
  have "timers_ok (n\<lparr>nf_reminders := gm_put (rr_routeID ref) i (nf_reminders n)\<rparr>) tm'"
    unfolding timers_ok_def i using timers_okD [OF ok] timers_okD(4) [OF ok, of _ "tm_next tm"]
    by (auto simp: less_Suc_eq split: if_splits)
  with assms(1) new i show ?thesis by (simp add: batches_ok_def flushes_put pending_at_def)
qed

lemma batches_ok_arm:
  assumes "batches_ok (fst st) (snd st) jobs"
  shows "batches_ok (fst (armReminderLocked now ref st)) (snd (armReminderLocked now ref st)) jobs"
proof (cases "hn_ReminderMinutes (rr_notify ref) \<le> 0")
  case False
  obtain n tm where s: "stopReminderLocked (rr_routeID ref) st = (n, tm)" by fastforce
  obtain i tm' where a: "AfterFunc now (reminder_delay ref) (Remind ref) tm = (i, tm')" by fastforce
  from batches_ok_stop [OF assms, of "rr_routeID ref"] s have "batches_ok n tm jobs" by simp
  from batches_ok_remind [OF this a] False s a show ?thesis by (simp add: armReminderLocked_def)
qed (use assms in \<open>simp add: armReminderLocked_def\<close>)

lemma batches_ok_outage:
  assumes "batches_ok (fst st) (snd st) jobs"
  shows "batches_ok (fst (outage_mark ts k p s st)) (snd (outage_mark ts k p s st)) jobs"
proof -
  obtain n tm where st: "st = (n, tm)" by fastforce
  let ?a = "n\<lparr>nf_downSince := gm_put k ts (nf_downSince n)\<rparr>" and ?b = "n\<lparr>nf_downSince := gm_del k (nf_downSince n)\<rparr>"
  have n: "batches_ok n tm jobs" using assms st by simp
  have "batches_ok ?a tm jobs" "batches_ok ?b tm jobs" by (rule batches_ok_same [OF n], simp_all)+
  then show ?thesis using n batches_ok_stop [of "(?b, tm)" jobs k] by (simp add: outage_mark_def st)
qed

lemma batches_ok_buffer:
  assumes "batches_ok (fst st) (snd st) jobs"
  shows "batches_ok (fst (bufferLocked now addr e st)) (snd (bufferLocked now addr e st)) jobs"
proof -
  obtain n tm where st: "st = (n, tm)" by fastforce
  have b: "batches_ok n tm jobs" using assms st by simp
  then have ok: "timers_ok n tm" by (simp add: batches_ok_def)
  have new: "gm_get (tm_armed tm) (tm_next tm) = None" using timers_okD(3) [OF ok, of "tm_next tm"] by blast
  show ?thesis
  proof (cases "gm_get (nf_pending n) addr")
    case None
    let ?tm = "\<lparr>tm_next = Suc (tm_next tm), tm_armed = gm_put (tm_next tm) (now + DefaultWindow, Flush addr) (tm_armed tm)\<rparr>"
    let ?n = "n\<lparr>nf_pending := gm_put addr (tm_next tm, [e]) (nf_pending n)\<rparr>"
    have "timers_ok ?n ?tm"
      unfolding timers_ok_def using timers_okD [OF ok] by (fastforce simp: less_Suc_eq split: if_splits)
    moreover have "flushes a (tm_armed ?tm) jobs = pending_at ?n a" for a
      using b None new by (simp add: batches_ok_def flushes_put pending_at_def)
    ultimately show ?thesis using None st by (simp add: batches_ok_def bufferLocked_def AfterFunc_def)
  next
    case (Some p)
    obtain i es where p: "p = (i, es)" by fastforce
    let ?n = "n\<lparr>nf_pending := gm_put addr (i, es @ [e]) (nf_pending n)\<rparr>"
    have "timers_ok ?n tm" using ok by (simp add: timers_ok_def)
    moreover have "pending_at ?n a = pending_at n a" for a using Some by (simp add: pending_at_def)
    ultimately show ?thesis using b Some p st by (simp add: batches_ok_def bufferLocked_def)
  qed
qed

lemma batches_ok_remind_part:
  assumes "batches_ok (fst st) (snd st) jobs"
  shows "batches_ok (fst (remind_part now ref s st)) (snd (remind_part now ref s st)) jobs"
  using batches_ok_arm [OF assms] batches_ok_stop [OF assms] by (simp add: remind_part_def)

lemma batches_ok_ref_turn:
  assumes "batches_ok (fst st) (snd st) jobs"
  shows "batches_ok (fst (ref_turn v now addr ts ref st)) (snd (ref_turn v now addr ts ref st)) jobs"
proof (cases "ref_edge v ts ref (fst st)")
  case (Some e)
  let ?n = "(fst st)\<lparr>nf_last := gm_put (rr_routeID ref) (ed_state e) (nf_last (fst st))\<rparr>"
  have "batches_ok (fst (?n, snd st)) (snd (?n, snd st)) jobs"
    using batches_ok_same [OF assms, of ?n] by simp
  then show ?thesis
    unfolding ref_turn_Some [OF Some] by (intro batches_ok_buffer batches_ok_remind_part batches_ok_outage)
qed (use assms in \<open>simp add: ref_turn_None\<close>)

lemma batches_ok_turn:
  "batches_ok (fst st) (snd st) jobs \<Longrightarrow>
   batches_ok (fst (fold (ref_turn v now addr ts) refs st)) (snd (fold (ref_turn v now addr ts) refs st)) jobs"
  by (induction refs arbitrary: st) (simp_all add: batches_ok_ref_turn)

lemma batches_ok_step:
  assumes "hw_step Q w w'" and "batches_ok (hw_nf w) (hw_tm w) (hw_jobs w)"
  shows "batches_ok (hw_nf w') (hw_tm w') (hw_jobs w')"
  using assms(1)
proof (cases rule: hw_step.cases)
  case (step_transition v now addr ts)
  with batches_ok_turn [of "(hw_nf w, hw_tm w)"] assms(2) show ?thesis
    by (simp add: transition_turn_def Notifier_OnTransition_def Let_def)
next
  case (step_reload routes)
  with batches_ok_same [OF assms(2)] show ?thesis by (simp add: Notifier_Refresh_def)
next
  case (step_fire i d j)
  have ok: "timers_ok (hw_nf w) (hw_tm w)" using assms(2) by (simp add: batches_ok_def)
  have "timers_ok (hw_nf w) (timer_Stop i (hw_tm w))"
    using timers_okD [OF ok] unfolding timers_ok_def timer_Stop_def by (auto split: if_splits)
  moreover have "flushes a (tm_armed (timer_Stop i (hw_tm w))) (hw_jobs w @ [j]) = flushes a (tm_armed (hw_tm w)) (hw_jobs w)" for a
    using flushes_del [OF timers_okD(1) [OF ok] step_fire(2), of a "hw_jobs w"] by (auto simp: timer_Stop_def flushes_def)
  ultimately show ?thesis using assms(2) step_fire(1) by (simp add: batches_ok_def turn_simps)
next
  case (step_flush addr stamps)
  have ok: "timers_ok (hw_nf w) (hw_tm w)" using assms(2) by (simp add: batches_ok_def)
  let ?n = "fst (flush stamps addr (hw_nf w))"
  have "timers_ok ?n (hw_tm w)" using ok by (simp add: timers_ok_def)
  moreover have "flushes a (tm_armed (hw_tm w)) (remove1 (Flush addr) (hw_jobs w)) = pending_at ?n a" for a
  proof -
    have le: "pending_at (hw_nf w) a \<le> 1" for a by (simp add: pending_at_def split: option.split)
    have "count_list (remove1 (Flush addr) (hw_jobs w)) (Flush a) =
        count_list (hw_jobs w) (Flush a) - (if a = addr then 1 else 0)"
      by (simp add: count_list_remove1)
    moreover have "0 < count_list (hw_jobs w) (Flush addr)" using step_flush(2) by (simp add: count_list_pos)
    moreover have "flushes a (tm_armed (hw_tm w)) (hw_jobs w) = pending_at (hw_nf w) a"
      using assms(2) by (simp add: batches_ok_def)
    ultimately show ?thesis using le [of a] by (auto simp: flushes_def pending_at_def)
  qed
  ultimately show ?thesis using step_flush(1) by (simp add: batches_ok_def turn_simps)
next
  case (step_remind ref now stamp)
  have j: "flushes a armed (remove1 (Remind ref) (hw_jobs w)) = flushes a armed (hw_jobs w)" for a armed
    by (simp add: flushes_def count_list_remove1)
  have "batches_ok (fst (fst (fireReminder now stamp ref (hw_nf w, hw_tm w))))
      (snd (fst (fireReminder now stamp ref (hw_nf w, hw_tm w)))) (hw_jobs w)"
  proof (cases "last_of (hw_nf w) (rr_routeID ref) = stateDown")
    case False
    with batches_ok_stop [of "(hw_nf w, hw_tm w)"] assms(2) show ?thesis by (simp add: fireReminder_def)
  next
    case True
    obtain i tm' where a: "AfterFunc now (reminder_delay ref) (Remind ref) (hw_tm w) = (i, tm')" by fastforce
    from batches_ok_remind [OF assms(2) a] True a show ?thesis by (simp add: fireReminder_def Let_def)
  qed
  then show ?thesis using step_remind(1) j by (simp add: batches_ok_def turn_simps)
qed

lemma batches_ok_init: "batches_ok (hw_nf hw_init) (hw_tm hw_init) (hw_jobs hw_init)"
  by (simp add: hw_init_def NewNotifier_def batches_ok_def timers_ok_def flushes_def pending_at_def)

end
