(* ===== verification/RouteNotifyProps.thy ===== *)
theory RouteNotifyProps
  imports RouteNotifyRuns
begin

text \<open>
  What the route health notifier promises in every run: each change of a route's state is
  announced in exactly one message, no batch is left without its flush, announced states
  alternate; and what it does not do, namely forget a route that is no longer configured.
\<close>

section \<open>Counting edges\<close>

definition edges_in :: "(string, nat \<times> edge list) gomap \<Rightarrow> edge multiset" where
  "edges_in m = mset (concat (map (\<lambda>(_, _, es). es) m))"

lemma edges_in_simps [simp]: "edges_in [] = {#}" "edges_in ((k, i, es) # m) = mset es + edges_in m"
  by (simp_all add: edges_in_def)

lemma edges_in_del:
  "gm_wf m \<Longrightarrow> gm_get m k = Some (i, es) \<Longrightarrow> edges_in m = edges_in (gm_del k m) + mset es"
proof (induction m)
  case (Cons p m)
  obtain k' i' es' where p: "p = (k', i', es')" by (metis prod_cases3)
  show ?case
  proof (cases "k' = k")
    case True
    with Cons.prems p have "k \<notin> gm_keys m" by auto
    then have "gm_del k m = m" by (simp add: gm_keys_def)
    with True p Cons.prems show ?thesis by simp
  next
    case False
    with Cons p show ?thesis by auto
  qed
qed simp

lemma edges_in_put_None: "gm_get m k = None \<Longrightarrow> edges_in (gm_put k (i, es) m) = edges_in m + mset es"
  by (induction m) (auto split: if_splits)

lemma edges_in_put_Some:
  "gm_wf m \<Longrightarrow> gm_get m k = Some (i, es) \<Longrightarrow> edges_in (gm_put k (i, es @ [e]) m) = edges_in m + {#e#}"
proof (induction m)
  case (Cons p m)
  obtain k' i' es' where p: "p = (k', i', es')" by (metis prod_cases3)
  with Cons show ?case by (auto split: if_splits)
qed simp

lemma edges_in_buffer:
  assumes "gm_wf (nf_pending (fst st))"
  shows "edges_in (nf_pending (fst (bufferLocked now addr e st))) = edges_in (nf_pending (fst st)) + {#e#}"
proof -
  obtain n tm where st: "st = (n, tm)" by fastforce
  show ?thesis
  proof (cases "gm_get (nf_pending n) addr")
    case None
    then show ?thesis by (simp add: st bufferLocked_def AfterFunc_def edges_in_put_None)
  next
    case (Some p)
    then show ?thesis using assms by (cases p) (simp add: st bufferLocked_def edges_in_put_Some)
  qed
qed

lemma gm_wf_pending_ref_turn:
  "gm_wf (nf_pending (fst st)) \<Longrightarrow> gm_wf (nf_pending (fst (ref_turn v now addr ts ref st)))"
proof (cases "ref_edge v ts ref (fst st)")
  case (Some e)
  assume wf: "gm_wf (nf_pending (fst st))"
  have "gm_wf (nf_pending (fst (bufferLocked now addr e st')))" if "nf_pending (fst st') = nf_pending (fst st)" for st'
    using wf that by (cases st') (auto simp: bufferLocked_def AfterFunc_def split: option.split prod.split)
  then show ?thesis by (simp add: ref_turn_Some [OF Some])
qed (simp add: ref_turn_None)

lemma edges_in_ref_turn:
  assumes "gm_wf (nf_pending (fst st))"
  shows "edges_in (nf_pending (fst (ref_turn v now addr ts ref st))) =
    edges_in (nf_pending (fst st)) + mset (case ref_edge v ts ref (fst st) of None \<Rightarrow> [] | Some e \<Rightarrow> [e])"
proof (cases "ref_edge v ts ref (fst st)")
  case (Some e)
  then show ?thesis using assms by (simp add: ref_turn_Some [OF Some] edges_in_buffer)
qed (simp add: ref_turn_None)

lemma edges_in_turn:
  "gm_wf (nf_pending (fst st)) \<Longrightarrow>
   edges_in (nf_pending (fst (fold (ref_turn v now addr ts) refs st))) =
     edges_in (nf_pending (fst st)) + mset (turn_edges v now addr ts refs st)"
  by (induction refs arbitrary: st) (simp_all add: gm_wf_pending_ref_turn edges_in_ref_turn ac_simps)

section \<open>Groups partition a batch\<close>

lemma sum_list_one:
  "distinct ks \<Longrightarrow> c \<in> set ks \<Longrightarrow> sum_list (map (\<lambda>k. if c = k then (x :: 'a :: comm_monoid_add) else 0) ks) = x"
proof (induction ks)
  case (Cons k ks)
  have "sum_list (map (\<lambda>k. if c = k then x else 0) ks) = 0" if "c \<notin> set ks"
    using that by (induction ks) auto
  with Cons show ?case by auto
qed simp

lemma mset_groups:
  assumes "distinct ks" and "group_key ` set es \<subseteq> set ks"
  shows "mset (concat (map (\<lambda>k. filter (\<lambda>e. group_key e = k) es) ks)) = mset es"
  using assms(2)
proof (induction es)
  case (Cons e es)
  let ?f = "\<lambda>k. mset (filter (\<lambda>e. group_key e = k) es)"
  have "mset (concat (map (\<lambda>k. filter (\<lambda>e. group_key e = k) (e # es)) ks)) =
      sum_list (map (\<lambda>k. (if group_key e = k then {#e#} else {#}) + ?f k) ks)"
    by (auto simp: mset_concat comp_def intro!: arg_cong [where f = sum_list] map_cong)
  also have "\<dots> = sum_list (map (\<lambda>k. if group_key e = k then {#e#} else {#}) ks) + sum_list (map ?f ks)"
    by (simp add: sum_list_addf)
  also have "sum_list (map ?f ks) = mset es"
    using Cons by (simp add: mset_concat comp_def)
  also have "sum_list (map (\<lambda>k. if group_key e = k then {#e#} else {#}) ks) = {#e#}"
    using sum_list_one [OF assms(1), of "group_key e" "{#e#}"] Cons.prems by simp
  finally show ?case by simp
qed (simp add: mset_concat comp_def)

lemma groups_of_mset: "mset (concat (map snd (groups_of es))) = mset es"
  using mset_groups [of "remdups (map group_key es)" es] by (simp add: groups_of_def comp_def)

lemma groups_of_uniform: "(k, g) \<in> set (groups_of es) \<Longrightarrow> g \<noteq> [] \<and> (\<forall>e \<in> set g. group_key e = k)"
  by (auto simp: groups_of_def filter_empty_conv)

section \<open>Messages that announce edges\<close>

text \<open>
  \<open>announces ds es\<close>: the deliveries \<open>ds\<close> are messages about state changes, each built from a non-empty
  group of edges with the state of the message and the channel it is sent to; together the
  groups are \<open>es\<close>.
\<close>

inductive announces :: "delivery list \<Rightarrow> edge list \<Rightarrow> bool" where
  announces_Nil: "announces [] []"
| announces_snoc: "announces ds es \<Longrightarrow> g \<noteq> [] \<Longrightarrow> (\<And>e. e \<in> set g \<Longrightarrow> ed_state e = s \<and> ed_channelID e = c) \<Longrightarrow>
    announces (ds @ [(buildEvent stamp addr s g, [c])]) (es @ g)"

lemma announces_groups:
  assumes "announces ds es" and "\<And>k g. (k, g) \<in> set gs \<Longrightarrow> g \<noteq> [] \<and> (\<forall>e \<in> set g. group_key e = k)"
  shows "announces (ds @ map (\<lambda>(i, (s, c), g). (buildEvent (stamps i) addr s g, [c])) (enumerate n gs)) (es @ concat (map snd gs))"
  using assms
proof (induction gs arbitrary: ds es n)
  case (Cons p gs)
  obtain s c g where p: "p = ((s, c), g)" by (cases p) auto
  have g: "g \<noteq> []" "\<And>e. e \<in> set g \<Longrightarrow> ed_state e = s \<and> ed_channelID e = c"
    using Cons.prems(2) [of "(s, c)" g] p by (auto simp: group_key_def)
  from announces_snoc [OF Cons.prems(1) g, of "stamps n" addr]
  have "announces (ds @ [(buildEvent (stamps n) addr s g, [c])]) (es @ g)" .
  moreover have "g' \<noteq> [] \<and> (\<forall>e \<in> set g'. group_key e = k)" if "(k, g') \<in> set gs" for k g'
    using Cons.prems(2) [of k g'] that by simp
  ultimately have "announces ((ds @ [(buildEvent (stamps n) addr s g, [c])]) @
      map (\<lambda>(i, (s, c), g). (buildEvent (stamps i) addr s g, [c])) (enumerate (Suc n) gs)) ((es @ g) @ concat (map snd gs))"
    by (rule Cons.IH)
  with p show ?case by simp
qed simp

definition is_change :: "delivery \<Rightarrow> bool" where
  "is_change d \<longleftrightarrow> gm_get (ev_Labels (fst d)) ''reminder'' = None"

lemma is_change_buildEvent [simp]: "is_change (buildEvent stamp addr s g, cs)"
  by (cases s) (simp_all add: is_change_def buildEvent_def health_event_def Let_def)

lemma flush_changes: "filter is_change (snd (flush stamps addr n)) = snd (flush stamps addr n)"
  by (auto simp: flush_def Let_def filter_id_conv split: option.split)

lemma reminder_no_change: "filter is_change (snd (fireReminder now stamp ref st)) = []"
  by (cases st) (auto simp: fireReminder_def Let_def is_change_def health_event_def AfterFunc_def filter_empty_conv)

definition accounted :: "health_world \<Rightarrow> bool" where
  "accounted w \<longleftrightarrow> (\<exists>es. announces (filter is_change (hw_sent w)) es \<and>
     mset (hw_edges w) = mset es + edges_in (nf_pending (hw_nf w)))"

lemma accounted_step:
  assumes "hw_step Q w w'" and "batches_ok (hw_nf w) (hw_tm w) (hw_jobs w)" and "accounted w"
  shows "accounted w'"
proof -
  have wf: "gm_wf (nf_pending (hw_nf w))" using assms(2) by (auto simp: batches_ok_def dest: timers_okD)
  obtain es where es: "announces (filter is_change (hw_sent w)) es"
    "mset (hw_edges w) = mset es + edges_in (nf_pending (hw_nf w))" using assms(3) by (auto simp: accounted_def)
  show ?thesis using assms(1)
  proof (cases rule: hw_step.cases)
    case (step_transition v now addr ts)
    with es edges_in_turn [of "(hw_nf w, hw_tm w)" v now addr ts "routesFor addr (nf_byAddr (hw_nf w))"] wf
    show ?thesis by (auto simp: accounted_def transition_turn_def Notifier_OnTransition_def Let_def)
  next
    case (step_flush addr stamps)
    show ?thesis
    proof (cases "gm_get (nf_pending (hw_nf w)) addr")
      case None
      then have "snd (flush stamps addr (hw_nf w)) = []" "gm_del addr (nf_pending (hw_nf w)) = nf_pending (hw_nf w)"
        by (simp add: flush_def Let_def) (use None in \<open>simp add: map_of_eq_None_iff\<close>)
      with es step_flush(1) show ?thesis by (auto simp: accounted_def turn_simps)
    next
      case (Some p)
      obtain i b where p: "p = (i, b)" by fastforce
      have "announces (filter is_change (hw_sent w) @
          map (\<lambda>(i, (s, c), g). (buildEvent (stamps i) addr s g, [c])) (enumerate 0 (groups_of b))) (es @ concat (map snd (groups_of b)))"
        by (rule announces_groups [OF es(1) groups_of_uniform])
      then have "announces (filter is_change (hw_sent w) @ snd (flush stamps addr (hw_nf w))) (es @ concat (map snd (groups_of b)))"
        using Some p by (simp add: flush_def Let_def)
      moreover have "mset (hw_edges w) = mset (es @ concat (map snd (groups_of b))) + edges_in (gm_del addr (nf_pending (hw_nf w)))"
        using es(2) edges_in_del [OF wf] Some p groups_of_mset [of b] by simp
      ultimately show ?thesis using step_flush(1) by (auto simp: accounted_def turn_simps flush_changes simp del: mset_append)
    qed
  qed (use es in \<open>auto simp: accounted_def turn_simps Notifier_Refresh_def reminder_no_change\<close>)
qed

lemma hw_reachable_inv:
  assumes "hw_reachable w"
  shows "batches_ok (hw_nf w) (hw_tm w) (hw_jobs w) \<and> accounted w \<and> alternating (hw_nf w) (hw_edges w)"
proof (rule reachable_inv [OF assms])
  have "accounted hw_init" by (auto simp: accounted_def hw_init_def NewNotifier_def intro: announces_Nil)
  moreover have "alternating (hw_nf hw_init) (hw_edges hw_init)"
    by (simp add: alternating_def hw_init_def NewNotifier_def states_of_def edges_for_def last_of_def)
  ultimately show "batches_ok (hw_nf hw_init) (hw_tm hw_init) (hw_jobs hw_init) \<and> accounted hw_init \<and> alternating (hw_nf hw_init) (hw_edges hw_init)"
    using batches_ok_init by simp
qed (blast intro: batches_ok_step accounted_step alternating_step)

section \<open>A reminder that nothing stops\<close>

text \<open>
  The state of a route that is down and not in the index: its reminder is armed or started. The
  reminder of another route, when stopped, is another timer.
\<close>

definition reminds :: "string \<Rightarrow> timers \<Rightarrow> job list \<Rightarrow> bool" where
  "reminds k tm jobs \<longleftrightarrow> (\<exists>ref. rr_routeID ref = k \<and>
     ((\<exists>i d. gm_get (tm_armed tm) i = Some (d, Remind ref)) \<or> Remind ref \<in> set jobs))"

definition unindexed :: "string \<Rightarrow> Notifier \<Rightarrow> bool" where
  "unindexed k n \<longleftrightarrow> (\<forall>a ref. ref \<in> set (routesFor a (nf_byAddr n)) \<longrightarrow> rr_routeID ref \<noteq> k)"

definition haunted :: "string \<Rightarrow> health_world \<Rightarrow> bool" where
  "haunted k w \<longleftrightarrow> last_of (hw_nf w) k = stateDown \<and> unindexed k (hw_nf w) \<and> reminds k (hw_tm w) (hw_jobs w)"

lemma reminds_put:
  assumes "reminds k tm jobs" and "gm_get (tm_armed tm) i = None"
  shows "reminds k \<lparr>tm_next = x, tm_armed = gm_put i p (tm_armed tm)\<rparr> jobs"
proof -
  have "gm_get (gm_put i p (tm_armed tm)) j = gm_get (tm_armed tm) j" if "gm_get (tm_armed tm) j \<noteq> None" for j
    using that assms(2) by auto
  then show ?thesis using assms(1) unfolding reminds_def by (metis option.distinct(1) timers.select_convs(2))
qed

lemma reminds_AfterFunc:
  assumes "timers_ok n tm" and "reminds k tm jobs"
  shows "reminds k (snd (AfterFunc now d j tm)) jobs"
proof -
  have "gm_get (tm_armed tm) (tm_next tm) = None" using timers_okD(3) [OF assms(1), of "tm_next tm"] by blast
  from reminds_put [OF assms(2) this, where x = "Suc (tm_next tm)" and p = "(now + d, j)"] show ?thesis
    by (simp add: AfterFunc_def)
qed

lemma reminds_stop:
  assumes "timers_ok (fst st) (snd st)" and "reminds k (snd st) jobs" and "k' \<noteq> k"
  shows "reminds k (snd (stopReminderLocked k' st)) jobs"
proof (cases "gm_get (nf_reminders (fst st)) k'")
  case None
  with assms show ?thesis by (cases st) (simp add: stopReminderLocked_def)
next
  case (Some i)
  obtain ref where ref: "rr_routeID ref = k"
    "(\<exists>j d. gm_get (tm_armed (snd st)) j = Some (d, Remind ref)) \<or> Remind ref \<in> set jobs" using assms(2) by (auto simp: reminds_def)
  have "gm_get (tm_armed (snd st)) i \<noteq> Some (d, Remind ref)" for d
    using timers_okD(5) [OF assms(1) Some] ref(1) assms(3) by auto
  then have "(\<exists>j d. gm_get (tm_armed (timer_Stop i (snd st))) j = Some (d, Remind ref)) \<or> Remind ref \<in> set jobs"
    using ref(2) unfolding timer_Stop_def by (simp, metis)
  with ref(1) Some show ?thesis by (cases st) (auto simp: reminds_def stopReminderLocked_def)
qed

text \<open>A route with another identifier leaves the reminder alone.\<close>

definition haunts :: "string \<Rightarrow> job list \<Rightarrow> Notifier \<times> timers \<Rightarrow> bool" where
  "haunts k jobs st \<longleftrightarrow> batches_ok (fst st) (snd st) jobs \<and> reminds k (snd st) jobs"

lemma batches_ok_timers: "batches_ok n tm jobs \<Longrightarrow> timers_ok n tm"
  by (simp add: batches_ok_def)

lemma haunts_stop: "haunts k jobs st \<Longrightarrow> k' \<noteq> k \<Longrightarrow> haunts k jobs (stopReminderLocked k' st)"
  unfolding haunts_def using batches_ok_stop reminds_stop batches_ok_timers by blast

lemma haunts_outage:
  assumes "haunts k jobs st" and "k' \<noteq> k"
  shows "haunts k jobs (outage_mark ts k' p s st)"
proof -
  obtain n tm where st: "st = (n, tm)" by fastforce
  have "haunts k jobs (n\<lparr>nf_downSince := m\<rparr>, tm)" for m
    using assms(1) batches_ok_same [of n tm jobs "n\<lparr>nf_downSince := m\<rparr>"] by (simp add: haunts_def st)
  with haunts_stop [OF _ assms(2)] assms(1) show ?thesis by (simp add: outage_mark_def st)
qed

lemma haunts_arm:
  assumes "haunts k jobs st" and "rr_routeID ref \<noteq> k"
  shows "haunts k jobs (armReminderLocked now ref st)"
proof (cases "hn_ReminderMinutes (rr_notify ref) \<le> 0")
  case False
  obtain n tm where s: "stopReminderLocked (rr_routeID ref) st = (n, tm)" by fastforce
  have "haunts k jobs (n, tm)" using haunts_stop [OF assms] s by simp
  then have "timers_ok n tm" "reminds k tm jobs" by (simp_all add: haunts_def batches_ok_def)
  from reminds_AfterFunc [OF this, of now "reminder_delay ref" "Remind ref"]
  have "reminds k (snd (armReminderLocked now ref st)) jobs"
    using False s by (simp add: armReminderLocked_def case_prod_beta)
  with assms(1) batches_ok_arm show ?thesis by (simp add: haunts_def)
qed (use assms in \<open>simp add: armReminderLocked_def\<close>)

lemma haunts_buffer:
  assumes "haunts k jobs st"
  shows "haunts k jobs (bufferLocked now addr e st)"
proof -
  obtain n tm where st: "st = (n, tm)" by fastforce
  have "timers_ok n tm" "reminds k tm jobs" using assms by (simp_all add: haunts_def batches_ok_def st)
  from this(2) reminds_AfterFunc [OF this, of now DefaultWindow "Flush addr"]
  have "reminds k (snd (bufferLocked now addr e st)) jobs"
    by (simp add: bufferLocked_def st case_prod_beta split: option.split)
  with assms batches_ok_buffer show ?thesis by (simp add: haunts_def)
qed

lemma haunts_ref_turn:
  assumes "haunts k jobs st" and "rr_routeID ref \<noteq> k"
  shows "haunts k jobs (ref_turn v now addr ts ref st)"
proof (cases "ref_edge v ts ref (fst st)")
  case (Some e)
  let ?n = "(fst st)\<lparr>nf_last := gm_put (rr_routeID ref) (ed_state e) (nf_last (fst st))\<rparr>"
  have "haunts k jobs (?n, snd st)"
    using assms(1) batches_ok_same [of "fst st" "snd st" jobs ?n] by (simp add: haunts_def)
  from haunts_outage [OF this assms(2)]
  have "haunts k jobs (remind_part now ref (ed_state e) (outage_mark ts (rr_routeID ref) p (ed_state e) (?n, snd st)))" for p
    using haunts_arm [OF _ assms(2)] haunts_stop [OF _ assms(2)] unfolding remind_part_def by presburger
  from haunts_buffer [OF this] show ?thesis unfolding ref_turn_Some [OF Some] .
qed (use assms in \<open>simp add: ref_turn_None\<close>)

lemma haunts_turn:
  "haunts k jobs st \<Longrightarrow> (\<And>ref. ref \<in> set refs \<Longrightarrow> rr_routeID ref \<noteq> k) \<Longrightarrow>
   haunts k jobs (fold (ref_turn v now addr ts) refs st) \<and>
   last_of (fst (fold (ref_turn v now addr ts) refs st)) k = last_of (fst st) k \<and>
   nf_byAddr (fst (fold (ref_turn v now addr ts) refs st)) = nf_byAddr (fst st)"
proof (induction refs arbitrary: st)
  case (Cons ref refs)
  have "nf_byAddr (fst (ref_turn v now addr ts ref st)) = nf_byAddr (fst st)"
    by (cases "ref_edge v ts ref (fst st)") (simp_all add: ref_turn_None ref_turn_Some)
  moreover have "last_of (fst (ref_turn v now addr ts ref st)) k = last_of (fst st) k"
    using Cons.prems(2) [of ref] by (auto simp: last_of_ref_turn split: option.split)
  moreover have "haunts k jobs (ref_turn v now addr ts ref st)"
    using Cons.prems by (intro haunts_ref_turn) simp_all
  ultimately show ?case using Cons.IH [of "ref_turn v now addr ts ref st"] Cons.prems(2) by simp
qed simp

definition without_notify :: "string \<Rightarrow> Route list \<Rightarrow> bool" where
  "without_notify k routes \<longleftrightarrow> (\<forall>r \<in> set routes. rt_ID r = k \<longrightarrow> \<not> hn_Enabled (rt_HealthNotify r))"

lemma index_put_refs: "ref' \<in> set (routesFor a (index_put ref b m)) \<Longrightarrow> ref' = ref \<or> ref' \<in> set (routesFor a m)"
  by (auto simp: index_put_def routesFor_def split: option.splits if_splits)

lemma fold_index_put_refs:
  "ref' \<in> set (routesFor a (fold (index_put ref) ks m)) \<Longrightarrow> ref' = ref \<or> ref' \<in> set (routesFor a m)"
  by (induction ks arbitrary: m) (auto dest: index_put_refs)

lemma unindexed_Refresh:
  assumes "without_notify k routes"
  shows "unindexed k (Notifier_Refresh routes n)"
proof -
  let ?f = "\<lambda>r m. if \<not> hn_Enabled (rt_HealthNotify r) then m else if route_keys r = [] then m
    else fold (index_put (ref_of r)) (route_keys r) m"
  have "rr_routeID ref \<noteq> k" if "ref \<in> set (routesFor a (fold ?f routes m))" "without_notify k routes"
    "\<And>a ref. ref \<in> set (routesFor a m) \<Longrightarrow> rr_routeID ref \<noteq> k" for a ref routes m
    using that
  proof (induction routes arbitrary: m)
    case (Cons r routes)
    have "rr_routeID ref \<noteq> k" if "ref \<in> set (routesFor a (?f r m))" for a ref
      using that Cons.prems(2,3) fold_index_put_refs [of ref a "ref_of r" "route_keys r" m]
      by (auto simp: without_notify_def ref_of_def split: if_splits)
    then show ?case using Cons.IH [of "?f r m"] Cons.prems(1,2) by (simp add: without_notify_def)
  qed simp
  from this [OF _ assms, of _ _ "[]"] show ?thesis
    unfolding unindexed_def Notifier_Refresh_def index_Refresh_def by (simp add: routesFor_def)
qed

lemma unindexed_eq: "nf_byAddr n' = nf_byAddr n \<Longrightarrow> unindexed k n' = unindexed k n"
  by (simp add: unindexed_def)

lemma reminds_mono:
  "reminds k tm jobs \<Longrightarrow> tm_armed tm' = tm_armed tm \<Longrightarrow> (\<And>ref. Remind ref \<in> set jobs \<Longrightarrow> Remind ref \<in> set jobs') \<Longrightarrow> reminds k tm' jobs'"
  unfolding reminds_def by metis

lemma haunted_step:
  assumes "hw_step (without_notify k) w w'" and "batches_ok (hw_nf w) (hw_tm w) (hw_jobs w)" and "haunted k w"
  shows "haunted k w'"
  using assms(1)
proof (cases rule: hw_step.cases)
  case (step_transition v now addr ts)
  have "haunts k (hw_jobs w) (hw_nf w, hw_tm w)" using assms(2,3) by (simp add: haunts_def haunted_def)
  moreover have "rr_routeID ref \<noteq> k" if "ref \<in> set (routesFor addr (nf_byAddr (hw_nf w)))" for ref
    using that assms(3) by (auto simp: haunted_def unindexed_def)
  ultimately show ?thesis
    using haunts_turn [of k "hw_jobs w" "(hw_nf w, hw_tm w)" "routesFor addr (nf_byAddr (hw_nf w))" v now addr ts]
      assms(3) step_transition
    by (simp add: haunted_def transition_turn_def Notifier_OnTransition_def Let_def haunts_def unindexed_def)
next
  case (step_reload routes)
  with assms(3) unindexed_Refresh [of k routes "hw_nf w"] show ?thesis
    by (simp add: haunted_def) (simp add: Notifier_Refresh_def last_of_def)
next
  case (step_fire i d j)
  obtain ref where ref: "rr_routeID ref = k"
    "(\<exists>i d. gm_get (tm_armed (hw_tm w)) i = Some (d, Remind ref)) \<or> Remind ref \<in> set (hw_jobs w)"
    using assms(3) by (auto simp: haunted_def reminds_def)
  have "(\<exists>i' d. gm_get (gm_del i (tm_armed (hw_tm w))) i' = Some (d, Remind ref)) \<or> Remind ref \<in> set (hw_jobs w @ [j])"
    using ref(2) step_fire(2) by (simp, metis option.inject prod.inject)
  then have "reminds k (timer_Stop i (hw_tm w)) (hw_jobs w @ [j])"
    using ref(1) unfolding reminds_def timer_Stop_def by (intro exI [of _ ref]) simp
  with assms(3) step_fire(1) show ?thesis by (simp add: haunted_def turn_simps)
next
  case (step_flush addr stamps)
  have "reminds k (hw_tm w) (remove1 (Flush addr) (hw_jobs w))"
    using assms(3) by (auto simp: haunted_def elim: reminds_mono)
  moreover have "last_of (fst (flush stamps addr (hw_nf w))) = last_of (hw_nf w)" by (rule last_of_eq) simp
  ultimately show ?thesis using assms(3) step_flush(1) unindexed_eq [of "fst (flush stamps addr (hw_nf w))" "hw_nf w"]
    by (simp add: haunted_def turn_simps)
next
  case (step_remind ref now stamp)
  let ?st = "fst (fireReminder now stamp ref (hw_nf w, hw_tm w))"
  have ok: "timers_ok (hw_nf w) (hw_tm w)" using assms(2) by (rule batches_ok_timers)
  have r: "reminds k (hw_tm w) (hw_jobs w)" using assms(3) by (simp add: haunted_def)
  have "reminds k (snd ?st) (remove1 (Remind ref) (hw_jobs w))"
  proof (cases "rr_routeID ref = k")
    case True
    then have "?st = (hw_nf w\<lparr>nf_reminders := gm_put (rr_routeID ref) (tm_next (hw_tm w)) (nf_reminders (hw_nf w))\<rparr>,
        snd (AfterFunc now (reminder_delay ref) (Remind ref) (hw_tm w)))"
      using assms(3) by (simp add: fireReminder_def haunted_def AfterFunc_def Let_def)
    with True show ?thesis by (auto simp: reminds_def AfterFunc_def)
  next
    case False
    have "reminds k (snd ?st) (hw_jobs w)"
      using reminds_stop [of "(hw_nf w, hw_tm w)" k "hw_jobs w" "rr_routeID ref"] False ok r
        reminds_AfterFunc [OF ok r, of now "reminder_delay ref" "Remind ref"]
      by (simp add: fireReminder_def Let_def case_prod_beta)
    then show ?thesis unfolding reminds_def
      by (metis False in_set_remove1 job.inject(2))
  qed
  moreover have "last_of (fst ?st) = last_of (hw_nf w)" by (rule last_of_eq) simp
  ultimately show ?thesis using assms(3) step_remind(1) unindexed_eq [of "fst ?st" "hw_nf w"]
    by (simp add: haunted_def turn_simps)
qed

lemma haunted_run:
  assumes "hw_steps (without_notify k) w w'" and "batches_ok (hw_nf w) (hw_tm w) (hw_jobs w)" and "haunted k w"
  shows "haunted k w'"
proof -
  have "batches_ok (hw_nf w') (hw_tm w') (hw_jobs w') \<and> haunted k w'"
    by (rule reachable_inv [OF assms(1)]) (use assms(2,3) in \<open>blast intro: batches_ok_step haunted_step\<close>)+
  then show ?thesis ..
qed

section \<open>Properties\<close>

lemma flush_announces:
  assumes "gm_get (nf_pending n) a = Some (i, es)"
  shows "\<exists>es'. announces (snd (flush stamps a n)) es' \<and> mset es' = mset es"
proof -
  have "announces ([] @ map (\<lambda>(i, (s, c), g). (buildEvent (stamps i) a s g, [c])) (enumerate 0 (groups_of es)))
      ([] @ concat (map snd (groups_of es)))"
    by (rule announces_groups [OF announces_Nil groups_of_uniform])
  with assms groups_of_mset [of es] show ?thesis by (auto simp: flush_def Let_def)
qed

text \<open>
  C5: Every change of a route's aggregate state is announced exactly once. In every reachable
  state, the edges recorded so far are those of the messages sent plus those still waiting in a
  batch, counted with multiplicity; each message is built from edges of one state, goes to the
  channel of exactly these edges, and no message is empty. No batch is stranded or flushed twice:
  for an address with waiting edges exactly one flush is armed or started, for any other none, and
  that flush, whenever it runs, takes the batch away and sends messages about exactly its edges.
\<close>

theorem changes_announced_once:
  assumes "hw_reachable w"
  shows "(\<exists>es. announces (filter is_change (hw_sent w)) es \<and> mset (hw_edges w) = mset es + edges_in (nf_pending (hw_nf w))) \<and>
    (\<forall>a. flushes a (tm_armed (hw_tm w)) (hw_jobs w) = (if gm_get (nf_pending (hw_nf w)) a = None then 0 else 1)) \<and>
    (\<forall>a i es stamps. gm_get (nf_pending (hw_nf w)) a = Some (i, es) \<longrightarrow>
      gm_get (nf_pending (fst (flush stamps a (hw_nf w)))) a = None \<and>
      (\<exists>es'. announces (snd (flush stamps a (hw_nf w))) es' \<and> mset es' = mset es))"
proof -
  have inv: "batches_ok (hw_nf w) (hw_tm w) (hw_jobs w)" "accounted w" using hw_reachable_inv [OF assms] by blast+
  moreover have "flushes a (tm_armed (hw_tm w)) (hw_jobs w) = (if gm_get (nf_pending (hw_nf w)) a = None then 0 else 1)" for a
    using inv(1) by (auto simp: batches_ok_def pending_at_def split: option.split)
  moreover have "gm_get (nf_pending (fst (flush stamps a n))) a = None" for stamps a n
    by (simp add: flush_def Let_def split: option.split)
  ultimately show ?thesis using flush_announces by (auto simp: accounted_def)
qed

text \<open>
  The states announced for a route alternate: beginning with healthy, no two consecutive
  changes of a route have the same state, and the last one is the state the notifier remembers.
\<close>

theorem announced_states_alternate:
  assumes "hw_reachable w"
  shows "distinct_adj (stateHealthy # map ed_state (filter (\<lambda>e. ed_routeID e = k) (hw_edges w))) \<and>
    last (stateHealthy # map ed_state (filter (\<lambda>e. ed_routeID e = k) (hw_edges w))) = last_of (hw_nf w) k"
  using hw_reachable_inv [OF assms] unfolding alternating_def states_of_def edges_for_def by blast

text \<open>
  Reminders outlive their route. Once a route that is down with a reminder is deleted, or its
  notifications are switched off, no later step ends the reminder: whatever happens, as long as
  the route is not configured for notifications again, it counts as down and a reminder for it
  is armed or started, and running that reminder sends another message.
\<close>

theorem reminder_outlives_route:
  assumes "hw_reachable w" and "last_of (hw_nf w) k = stateDown" and "reminds k (hw_tm w) (hw_jobs w)"
    and "without_notify k routes"
    and "hw_steps (without_notify k) (w\<lparr>hw_nf := Notifier_Refresh routes (hw_nf w)\<rparr>) w'"
  shows "\<exists>ref. rr_routeID ref = k \<and>
    ((\<exists>i d. gm_get (tm_armed (hw_tm w')) i = Some (d, Remind ref)) \<or> Remind ref \<in> set (hw_jobs w')) \<and>
    (\<forall>now stamp. snd (fireReminder now stamp ref (hw_nf w', hw_tm w')) \<noteq> [])"
proof -
  let ?w = "w\<lparr>hw_nf := Notifier_Refresh routes (hw_nf w)\<rparr>"
  have "batches_ok (hw_nf w) (hw_tm w) (hw_jobs w)" using hw_reachable_inv [OF assms(1)] by blast
  then have "batches_ok (hw_nf ?w) (hw_tm ?w) (hw_jobs ?w)"
    by (simp add: batches_ok_same Notifier_Refresh_def)
  moreover have "last_of (Notifier_Refresh routes (hw_nf w)) = last_of (hw_nf w)"
    by (rule last_of_eq) (simp add: Notifier_Refresh_def)
  then have "haunted k ?w" using assms(2,3) unindexed_Refresh [OF assms(4)] by (simp add: haunted_def)
  ultimately have "haunted k w'" using haunted_run [OF assms(5)] by blast
  then obtain ref where "rr_routeID ref = k" "last_of (hw_nf w') k = stateDown"
    "(\<exists>i d. gm_get (tm_armed (hw_tm w')) i = Some (d, Remind ref)) \<or> Remind ref \<in> set (hw_jobs w')"
    by (auto simp: haunted_def reminds_def)
  then show ?thesis by (auto simp: fireReminder_def AfterFunc_def Let_def intro!: exI [of _ ref])
qed

section \<open>An outage\<close>

definition watched_route :: Route where
  "watched_route = zero_route\<lparr>rt_ID := ''r'', rt_Host := ''app.home'', rt_Upstreams := [\<lparr>up_URL = ''http://10.0.0.5'', up_Weight = 0\<rparr>],
     rt_HealthNotify := \<lparr>hn_Enabled = True, hn_ChannelID = ''ops'', hn_ReminderMinutes = 30\<rparr>\<rparr>"

definition down_view :: health_view where
  "down_view = \<lparr>hv_status = (\<lambda>_. StatusUnhealthy), hv_perRoute = (\<lambda>_ _. None)\<rparr>"

definition sample_outage :: health_world where
  "sample_outage = transition_turn down_view 100 ''10.0.0.5:80'' 100
     (hw_init\<lparr>hw_nf := Notifier_Refresh [watched_route] (hw_nf hw_init)\<rparr>)"

lemma sample_outage_reachable: "hw_reachable sample_outage"
proof -
  have "hw_step (\<lambda>_. True) hw_init (hw_init\<lparr>hw_nf := Notifier_Refresh [watched_route] (hw_nf hw_init)\<rparr>)"
    by (rule step_reload) simp
  moreover have "hw_step (\<lambda>_. True) (hw_init\<lparr>hw_nf := Notifier_Refresh [watched_route] (hw_nf hw_init)\<rparr>) sample_outage"
    unfolding sample_outage_def by (rule step_transition)
  ultimately show ?thesis by (meson rtranclp.simps)
qed

text \<open>The timer of the batch fires and the flush sends the message.\<close>

definition sample_flushed :: health_world where
  "sample_flushed = flush_turn (\<lambda>_. (''u'', 103)) ''10.0.0.5:80'' (fire_turn 1 (Flush ''10.0.0.5:80'') sample_outage)"

lemma sample_flushed_reachable: "hw_reachable sample_flushed"
proof -
  have a: "gm_get (tm_armed (hw_tm sample_outage)) 1 = Some (3000000100, Flush ''10.0.0.5:80'')" by code_simp
  have "hw_step (\<lambda>_. True) sample_outage (fire_turn 1 (Flush ''10.0.0.5:80'') sample_outage)"
    by (rule step_fire [OF a])
  moreover have "hw_step (\<lambda>_. True) (fire_turn 1 (Flush ''10.0.0.5:80'') sample_outage) sample_flushed"
    unfolding sample_flushed_def by (rule step_flush) (simp add: turn_simps)
  ultimately show ?thesis using sample_outage_reachable by (meson rtranclp.simps)
qed

theorem changes_announced_once_witness:
  "map ed_host (hw_edges sample_outage) = [''app.home''] \<and> hw_sent sample_outage = [] \<and>
   flushes ''10.0.0.5:80'' (tm_armed (hw_tm sample_outage)) (hw_jobs sample_outage) = 1 \<and>
   (\<exists>es. announces (filter is_change (hw_sent sample_flushed)) es \<and>
      mset (hw_edges sample_flushed) = mset es + edges_in (nf_pending (hw_nf sample_flushed))) \<and>
   map (ev_Subject \<circ> fst) (hw_sent sample_flushed) = [''1 route down''] \<and>
   map ed_host (hw_edges sample_flushed) = [''app.home''] \<and> nf_pending (hw_nf sample_flushed) = []"
proof (intro conjI)
  have "gm_get (nf_pending (hw_nf sample_outage)) ''10.0.0.5:80'' \<noteq> None" by code_simp
  then show "flushes ''10.0.0.5:80'' (tm_armed (hw_tm sample_outage)) (hw_jobs sample_outage) = 1"
    using changes_announced_once [OF sample_outage_reachable] by auto
  show "\<exists>es. announces (filter is_change (hw_sent sample_flushed)) es \<and>
      mset (hw_edges sample_flushed) = mset es + edges_in (nf_pending (hw_nf sample_flushed))"
    using changes_announced_once [OF sample_flushed_reachable] by blast
qed code_simp+

theorem announced_states_alternate_witness:
  "last_of (hw_nf sample_outage) ''r'' = stateDown \<and>
   distinct_adj (stateHealthy # map ed_state (filter (\<lambda>e. ed_routeID e = ''r'') (hw_edges sample_outage)))"
proof -
  have "map ed_state (filter (\<lambda>e. ed_routeID e = ''r'') (hw_edges sample_outage)) = [stateDown]" by code_simp
  then show ?thesis using announced_states_alternate [OF sample_outage_reachable, of "''r''"] by simp
qed

theorem reminder_outlives_route_witness:
  "\<exists>ref. rr_routeID ref = ''r'' \<and>
    ((\<exists>i d. gm_get (tm_armed (hw_tm sample_outage)) i = Some (d, Remind ref)) \<or> Remind ref \<in> set (hw_jobs sample_outage)) \<and>
    (\<forall>now stamp. snd (fireReminder now stamp ref (Notifier_Refresh [] (hw_nf sample_outage), hw_tm sample_outage)) \<noteq> [])"
proof -
  have a: "gm_get (tm_armed (hw_tm sample_outage)) 0 = Some (1800000000100, Remind (ref_of watched_route))" by code_simp
  have "rr_routeID (ref_of watched_route) = ''r''" by code_simp
  with a have "reminds ''r'' (hw_tm sample_outage) (hw_jobs sample_outage)" unfolding reminds_def by blast
  moreover have "last_of (hw_nf sample_outage) ''r'' = stateDown" by code_simp
  ultimately show ?thesis
    using reminder_outlives_route [OF sample_outage_reachable _ _ _ rtranclp.rtrancl_refl, of "''r''" "[]"]
    by (simp add: without_notify_def)
qed

end
