(* ===== verification/AuditLog.thy ===== *)
theory AuditLog
  imports Buckets
begin

text \<open>
  The audit log, \<open>internal/audit/store.go\<close> and \<open>types.go\<close>. The bucket is the list of its rows in the
  order of their keys, the sixteen bytes of a version 7 UUID; a row that does not decode is \<open>None\<close>.
  The textual form of a UUID and its parser are arguments. Reading pages while events arrive is
  \<open>walk_pages\<close>, whose fuel is the number of pages read at most.
\<close>

section \<open>Events and filters\<close>

record Event =
  ae_ID :: string
  ae_Timestamp :: time
  ae_ActorUserID :: string
  ae_ActorUsernameSnapshot :: string
  ae_Action :: string
  ae_TargetType :: string
  ae_TargetID :: string
  ae_BeforeJSON :: string
  ae_AfterJSON :: string
  ae_Message :: string
  ae_IP :: string
  ae_UserAgent :: string

record Filter =
  af_ActorUserID :: string
  af_Action :: string
  af_TargetType :: string
  af_TargetID :: string
  af_From :: time
  af_To :: time
  af_Limit :: int
  af_Cursor :: string

definition DefaultLimit :: int where "DefaultLimit = 50"
definition MaxLimit :: int where "MaxLimit = 200"

type_synonym audit_bucket = "(string \<times> Event option) list"

datatype audit_error = InvalidCursor | BadEvent string

record uuid_lib =
  uu_string :: "string \<Rightarrow> string"
  uu_parse :: "string \<Rightarrow> string option"

definition clamp_limit :: "int \<Rightarrow> nat" where
  "clamp_limit l = nat (let l' = (if l \<le> 0 then DefaultLimit else l) in if l' > MaxLimit then MaxLimit else l')"

definition matches_event :: "Event \<Rightarrow> Filter \<Rightarrow> bool" where
  "matches_event e f =
     (if af_ActorUserID f \<noteq> [] \<and> ae_ActorUserID e \<noteq> af_ActorUserID f then False
      else if af_Action f \<noteq> [] \<and> ae_Action e \<noteq> af_Action f then False
      else if af_TargetType f \<noteq> [] \<and> ae_TargetType e \<noteq> af_TargetType f then False
      else if af_TargetID f \<noteq> [] \<and> ae_TargetID e \<noteq> af_TargetID f then False
      else if af_From f \<noteq> zero_time \<and> ae_Timestamp e < af_From f then False
      else if af_To f \<noteq> zero_time \<and> \<not> ae_Timestamp e < af_To f then False
      else True)"

section \<open>Operations\<close>

fun put_row :: "string \<Rightarrow> Event option \<Rightarrow> audit_bucket \<Rightarrow> audit_bucket" where
  "put_row k v [] = [(k, v)]"
| "put_row k v ((k', v') # b) =
     (if k = k' then (k, v) # b else if k < k' then (k, v) # (k', v') # b else (k', v') # put_row k v b)"

definition AppendTx :: "uuid_lib \<Rightarrow> string \<Rightarrow> time \<Rightarrow> Event \<Rightarrow> audit_bucket \<Rightarrow> audit_bucket" where
  "AppendTx U key now evt b = put_row key (Some (evt\<lparr>ae_ID := uu_string U key, ae_Timestamp := now\<rparr>)) b"

text \<open>
  The rows a listing visits. \<open>Seek\<close> stops at the first key not below the start key; from there the
  cursor moves to the previous row, or to the last one if there is no such key.
\<close>

definition seek :: "string \<Rightarrow> audit_bucket \<Rightarrow> nat" where
  "seek startKey b = length (takeWhile (\<lambda>(k, _). k < startKey) b)"

definition visited :: "string option \<Rightarrow> audit_bucket \<Rightarrow> audit_bucket" where
  "visited startKey b =
     (case startKey of
        None \<Rightarrow> rev b
      | Some s \<Rightarrow> if seek s b < length b then rev (take (seek s b) b) else rev b)"

fun list_scan :: "Filter \<Rightarrow> nat \<Rightarrow> Event list \<Rightarrow> audit_bucket \<Rightarrow> audit_error + Event list" where
  "list_scan f limit out [] = Inr out"
| "list_scan f limit out ((k, v) # rows) =
     (case v of
        None \<Rightarrow> Inl (BadEvent k)
      | Some e \<Rightarrow>
          if \<not> matches_event e f then list_scan f limit out rows
          else if limit \<le> length (out @ [e]) then Inr (out @ [e])
          else list_scan f limit (out @ [e]) rows)"

definition start_key :: "uuid_lib \<Rightarrow> string \<Rightarrow> audit_error + string option" where
  "start_key U cursor =
     (if cursor = [] then Inr None
      else case uu_parse U cursor of None \<Rightarrow> Inl InvalidCursor | Some k \<Rightarrow> Inr (Some k))"

definition List_events :: "uuid_lib \<Rightarrow> Filter \<Rightarrow> audit_bucket \<Rightarrow> audit_error + (Event list \<times> string)" where
  "List_events U f b =
     (let limit = clamp_limit (af_Limit f)
      in case start_key U (af_Cursor f) of
           Inl e \<Rightarrow> Inl e
         | Inr s \<Rightarrow>
             (case list_scan f limit [] (visited s b) of
                Inl e \<Rightarrow> Inl e
              | Inr out \<Rightarrow> Inr (out, if length out = limit then ae_ID (last out) else [])))"

fun range_scan ::
  "string list \<Rightarrow> time \<Rightarrow> time \<Rightarrow> nat \<Rightarrow> Event list \<Rightarrow> audit_bucket \<Rightarrow> audit_error + (Event list \<times> bool)" where
  "range_scan actions from until limit out [] = Inr (out, False)"
| "range_scan actions from until limit out ((k, v) # rows) =
     (case v of
        None \<Rightarrow> Inl (BadEvent k)
      | Some e \<Rightarrow>
          if from \<noteq> zero_time \<and> ae_Timestamp e < from then Inr (out, False)
          else if until \<noteq> zero_time \<and> \<not> ae_Timestamp e < until then range_scan actions from until limit out rows
          else if actions \<noteq> [] \<and> ae_Action e \<notin> set actions then range_scan actions from until limit out rows
          else if limit \<le> length (out @ [e]) then Inr (out @ [e], rows \<noteq> [])
          else range_scan actions from until limit (out @ [e]) rows)"

definition QueryByActionRange ::
  "string list \<Rightarrow> time \<Rightarrow> time \<Rightarrow> int \<Rightarrow> audit_bucket \<Rightarrow> audit_error + (Event list \<times> bool)" where
  "QueryByActionRange actions from until limit b = range_scan actions from until (clamp_limit limit) [] (rev b)"

text \<open>The rewriting function reports whether it changed the event; rows that do not decode stay.\<close>

definition redact_row :: "(Event \<Rightarrow> Event \<times> bool) \<Rightarrow> Event option \<Rightarrow> Event option" where
  "redact_row fn v =
     (case v of
        None \<Rightarrow> None
      | Some e \<Rightarrow> (case fn e of (e', changed) \<Rightarrow>
          if changed then Some (e'\<lparr>ae_ID := ae_ID e, ae_Timestamp := ae_Timestamp e\<rparr>) else Some e))"

definition Redact :: "(Event \<Rightarrow> Event \<times> bool) \<Rightarrow> audit_bucket \<Rightarrow> audit_bucket \<times> nat" where
  "Redact fn b =
     (map (\<lambda>(k, v). (k, redact_row fn v)) b,
      length (filter (\<lambda>(_, v). case v of None \<Rightarrow> False | Some e \<Rightarrow> snd (fn e)) b))"

section \<open>Reading all pages\<close>

text \<open>
  A client that follows the cursor: page number \<open>i\<close> is read from the bucket \<open>B i\<close>. \<open>None\<close> is a walk
  cut off before its last page.
\<close>

fun walk_pages :: "nat \<Rightarrow> uuid_lib \<Rightarrow> (nat \<Rightarrow> audit_bucket) \<Rightarrow> Filter \<Rightarrow> string \<Rightarrow> nat \<Rightarrow> (audit_error + Event list) option" where
  "walk_pages 0 U B f cursor i = None"
| "walk_pages (Suc n) U B f cursor i =
     (case List_events U (f\<lparr>af_Cursor := cursor\<rparr>) (B i) of
        Inl e \<Rightarrow> Some (Inl e)
      | Inr (es, next_cursor) \<Rightarrow>
          if next_cursor = [] then Some (Inr es)
          else case walk_pages n U B f next_cursor (Suc i) of
            None \<Rightarrow> None
          | Some (Inl e) \<Rightarrow> Some (Inl e)
          | Some (Inr es') \<Rightarrow> Some (Inr (es @ es')))"

section \<open>A page\<close>

text \<open>
  A log as \<open>AppendTx\<close> leaves it: ascending keys of 16 bytes, every row decodes and carries its key as
  identifier. Of the identifiers it is assumed that parsing inverts printing on 16 bytes.
\<close>

definition log_ok :: "uuid_lib \<Rightarrow> audit_bucket \<Rightarrow> bool" where
  "log_ok U b \<longleftrightarrow> sorted_wrt (<) (map fst b) \<and>
     list_all (\<lambda>(k, v). length k = 16 \<and> (case v of None \<Rightarrow> False | Some e \<Rightarrow> ae_ID e = uu_string U k)) b"

definition uuid_ok :: "uuid_lib \<Rightarrow> bool" where
  "uuid_ok U \<longleftrightarrow> (\<forall>k. length k = 16 \<longrightarrow> uu_string U k \<noteq> [] \<and> uu_parse U (uu_string U k) = Some k)"

definition events :: "audit_bucket \<Rightarrow> Event list" where
  "events rows = map (the \<circ> snd) rows"

definition wanted :: "Filter \<Rightarrow> audit_bucket \<Rightarrow> Event list" where
  "wanted f rows = filter (\<lambda>e. matches_event e f) (events rows)"

lemma events_simps [simp]: "events [] = []" "events ((k, Some e) # rows) = e # events rows"
  "events (xs @ ys) = events xs @ events ys"
  by (simp_all add: events_def)

lemma matches_cursor [simp]: "matches_event e (f\<lparr>af_Cursor := c\<rparr>) = matches_event e f"
  by (simp add: matches_event_def)

lemma list_scan_cursor: "list_scan (f\<lparr>af_Cursor := c\<rparr>) limit out rows = list_scan f limit out rows"
  by (induction f limit out rows rule: list_scan.induct) (auto split: option.split)

text \<open>
  The scan either finds fewer events than the limit, and then all of them, or it stops right
  after the row of its last event.
\<close>

lemma list_scan_split:
  assumes "\<forall>(k, v) \<in> set rows. v \<noteq> None" and "length out < limit"
  shows "(list_scan f limit out rows = Inr (out @ wanted f rows) \<and> length (out @ wanted f rows) < limit) \<or>
    (\<exists>pre k e post. rows = pre @ (k, Some e) # post \<and> list_scan f limit out rows = Inr (out @ wanted f pre @ [e]) \<and>
       matches_event e f \<and> length (out @ wanted f pre @ [e]) = limit)"
  using assms
proof (induction f limit out rows rule: list_scan.induct)
  case (1 f limit out)
  then show ?case by (simp add: wanted_def)
next
  case (2 f limit out k v rows)
  then obtain e where v: "v = Some e" by auto
  show ?case
  proof (cases "matches_event e f")
    case False
    with 2 v consider "list_scan f limit out rows = Inr (out @ wanted f rows)" "length (out @ wanted f rows) < limit"
      | pre k' e' post where "rows = pre @ (k', Some e') # post" "list_scan f limit out rows = Inr (out @ wanted f pre @ [e'])"
        "matches_event e' f" "length (out @ wanted f pre @ [e']) = limit" by auto
    then show ?thesis
    proof cases
      case 1
      with False v show ?thesis by (simp add: wanted_def)
    next
      case 2
      with False v show ?thesis
        by (intro disjI2 exI [of _ "(k, v) # pre"] exI [of _ k'] exI [of _ e'] exI [of _ post]) (simp add: wanted_def)
    qed
  next
    case True
    show ?thesis
    proof (cases "limit \<le> length (out @ [e])")
      case full: True
      with True v "2.prems" show ?thesis
        by (intro disjI2 exI [of _ "[]"] exI [of _ k] exI [of _ e] exI [of _ rows]) (simp add: wanted_def)
    next
      case more: False
      with 2 v True consider "list_scan f limit (out @ [e]) rows = Inr ((out @ [e]) @ wanted f rows)" "length ((out @ [e]) @ wanted f rows) < limit"
        | pre k' e' post where "rows = pre @ (k', Some e') # post" "list_scan f limit (out @ [e]) rows = Inr ((out @ [e]) @ wanted f pre @ [e'])"
          "matches_event e' f" "length ((out @ [e]) @ wanted f pre @ [e']) = limit" by auto
      then show ?thesis
      proof cases
        case 1
        with more True v show ?thesis by (simp add: wanted_def)
      next
        case 2
        with more True v show ?thesis
          by (intro disjI2 exI [of _ "(k, v) # pre"] exI [of _ k'] exI [of _ e'] exI [of _ post]) (simp add: wanted_def)
      qed
    qed
  qed
qed

lemma visited_prefix: "\<exists>p t. visited s b = rev p \<and> b = p @ t"
proof (cases "\<exists>k. s = Some k \<and> seek k b < length b")
  case True
  then obtain k where "s = Some k" "seek k b < length b" by auto
  then show ?thesis by (intro exI [of _ "take (seek k b) b"] exI [of _ "drop (seek k b) b"]) (simp add: visited_def)
next
  case False
  then have "visited s b = rev b" by (auto simp: visited_def split: option.split)
  then show ?thesis by (intro exI [of _ b] exI [of _ "[]"]) simp
qed

lemma visited_key:
  assumes "sorted_wrt (<) (map fst (lo @ (k, v) # hi))"
  shows "visited (Some k) (lo @ (k, v) # hi) = rev lo"
proof -
  have "takeWhile (\<lambda>(k', _). k' < k) (lo @ (k, v) # hi) = lo"
    using assms by (subst takeWhile_append2) (auto simp: sorted_wrt_append)
  then show ?thesis by (simp add: visited_def seek_def)
qed

lemma log_ok_row: "log_ok U b \<Longrightarrow> (k, v) \<in> set b \<Longrightarrow> length k = 16 \<and> (\<exists>e. v = Some e \<and> ae_ID e = uu_string U k)"
  by (auto simp: log_ok_def list_all_iff split: option.splits)

lemma clamp_limit_pos: "0 < clamp_limit l"
  by (simp add: clamp_limit_def DefaultLimit_def MaxLimit_def Let_def)

lemma wanted_append: "wanted f (xs @ ys) = wanted f xs @ wanted f ys"
  by (simp add: wanted_def)

lemma walk_pages_rows:
  assumes "uuid_ok U" and "\<And>i. log_ok U (B i)" and "\<And>i. \<exists>new. B (Suc i) = B i @ new"
    and "start_key U c = Inr s" and "visited s (B i) = rows" and "length rows < n"
  shows "walk_pages n U B f c i = Some (Inr (wanted f rows))"
  using assms(4-6)
proof (induction n arbitrary: c s i rows)
  case (Suc n)
  obtain p t where pt: "rows = rev p" "B i = p @ t" using visited_prefix [of s "B i"] Suc.prems(2) by auto
  let ?L = "clamp_limit (af_Limit f)"
  have L: "List_events U (f\<lparr>af_Cursor := c\<rparr>) (B i) = (case list_scan f ?L [] rows of
      Inl e \<Rightarrow> Inl e | Inr out \<Rightarrow> Inr (out, if length out = ?L then ae_ID (last out) else []))"
    using Suc.prems(1,2) by (simp add: List_events_def Let_def list_scan_cursor)
  have "\<forall>(k, v) \<in> set rows. v \<noteq> None" using log_ok_row [OF assms(2) [of i]] pt by fastforce
  from list_scan_split [OF this, of "[]" ?L f] clamp_limit_pos [of "af_Limit f"]
  consider "list_scan f ?L [] rows = Inr (wanted f rows)" "length (wanted f rows) < ?L"
    | pre k e post where "rows = pre @ (k, Some e) # post" "list_scan f ?L [] rows = Inr (wanted f pre @ [e])"
      "matches_event e f" "length (wanted f pre @ [e]) = ?L" by auto
  then show ?case
  proof cases
    case 1
    then show ?thesis by (simp add: L)
  next
    case 2
    have e: "ae_ID e = uu_string U k" "length k = 16"
      using log_ok_row [OF assms(2) [of i], of k "Some e"] pt 2(1) by (metis UnCI in_set_conv_decomp option.inject set_append set_rev)+
    have Bi: "B i = rev post @ (k, Some e) # rev pre @ t" using pt 2(1) by (metis append.assoc append_Cons rev.simps(2) rev_append rev_rev_ident append_Nil)
    obtain new where new: "B (Suc i) = B i @ new" using assms(3) by blast
    have "visited (Some k) (B (Suc i)) = post"
      using visited_key [of "rev post" k "Some e" "rev pre @ t @ new"] assms(2) [of "Suc i"] new Bi by (simp add: log_ok_def)
    moreover have "start_key U (uu_string U k) = Inr (Some k)" "uu_string U k \<noteq> []"
      using assms(1) e(2) by (simp_all add: start_key_def uuid_ok_def)
    moreover have "length post < n" using Suc.prems(3) 2(1) by simp
    ultimately have "walk_pages n U B f (uu_string U k) (Suc i) = Some (Inr (wanted f post))"
      using Suc.IH by blast
    moreover have "List_events U (f\<lparr>af_Cursor := c\<rparr>) (B i) = Inr (wanted f pre @ [e], uu_string U k)"
      using 2 e by (simp add: L)
    ultimately show ?thesis
      using \<open>uu_string U k \<noteq> []\<close> 2(1,3) by (simp add: wanted_append) (simp add: wanted_def)
  qed
qed simp

section \<open>Properties\<close>

text \<open>
  C8: Following the cursor reads the log completely. A client that asks for page after page gets
  exactly the events that matched its filter when it began, each once, newest first, and the
  walk ends, although new events are appended between the pages; the number of pages is at most
  one more than the number of events. It holds for every filter and page size.
\<close>

theorem pages_complete:
  assumes "uuid_ok U" and "\<And>i. log_ok U (B i)" and "\<And>i. \<exists>new. B (Suc i) = B i @ new" and "length (B 0) < n"
  shows "walk_pages n U B f [] 0 = Some (Inr (filter (\<lambda>e. matches_event e f) (map (the \<circ> snd) (rev (B 0)))))"
proof -
  have "walk_pages n U B f [] 0 = Some (Inr (wanted f (rev (B 0))))"
    by (rule walk_pages_rows [where B = B and s = None, OF assms(1-3)])
      (use assms(4) in \<open>simp_all add: start_key_def visited_def\<close>)
  then show ?thesis by (simp add: wanted_def events_def)
qed

text \<open>The bucket grows at its end: a key above all others is appended.\<close>

lemma put_row_last: "\<forall>(k', v') \<in> set b. k' < k \<Longrightarrow> put_row k v b = b @ [(k, v)]"
  by (induction b) auto

lemma AppendTx_grows:
  assumes "log_ok U b" and "\<forall>(k', v') \<in> set b. k' < k" and "length k = 16"
  shows "AppendTx U k now evt b = b @ [(k, Some (evt\<lparr>ae_ID := uu_string U k, ae_Timestamp := now\<rparr>))]"
    and "log_ok U (AppendTx U k now evt b)"
  using assms by (auto simp: AppendTx_def put_row_last log_ok_def sorted_wrt_append)

definition hex_uuids :: uuid_lib where
  "hex_uuids = \<lparr>uu_string = (\<lambda>k. ''u'' @ k), uu_parse = (\<lambda>s. case s of [] \<Rightarrow> None | _ # k \<Rightarrow> Some k)\<rparr>"

definition no_event :: Event where
  "no_event = \<lparr>ae_ID = [], ae_Timestamp = 0, ae_ActorUserID = [], ae_ActorUsernameSnapshot = [], ae_Action = ''login'',
     ae_TargetType = [], ae_TargetID = [], ae_BeforeJSON = [], ae_AfterJSON = [], ae_Message = [], ae_IP = [], ae_UserAgent = []\<rparr>"

definition any_event :: Filter where
  "any_event = \<lparr>af_ActorUserID = [], af_Action = [], af_TargetType = [], af_TargetID = [], af_From = 0, af_To = 0,
     af_Limit = 2, af_Cursor = []\<rparr>"

definition key_of :: "char \<Rightarrow> string" where
  "key_of c = replicate 15 CHR ''0'' @ [c]"

definition three_rows :: audit_bucket where
  "three_rows = AppendTx hex_uuids (key_of CHR ''c'') 3 no_event (AppendTx hex_uuids (key_of CHR ''b'') 2 no_event (AppendTx hex_uuids (key_of CHR ''a'') 1 no_event []))"

definition one_more :: "nat \<Rightarrow> audit_bucket" where
  "one_more i = (if i = 0 then three_rows else AppendTx hex_uuids (key_of CHR ''d'') 4 no_event three_rows)"

theorem pages_complete_witness:
  "map_option (map_sum id (map (last \<circ> ae_ID))) (walk_pages 4 hex_uuids one_more any_event [] 0) = Some (Inr ''cba'')"
proof -
  have u: "uuid_ok hex_uuids" by (simp add: uuid_ok_def hex_uuids_def)
  have "log_ok hex_uuids three_rows" by code_simp
  moreover have "\<forall>(k', v') \<in> set three_rows. k' < key_of CHR ''d''" by code_simp
  moreover have "length (key_of CHR ''d'') = 16" by (simp add: key_of_def)
  ultimately have g: "AppendTx hex_uuids (key_of CHR ''d'') 4 no_event three_rows =
      three_rows @ [(key_of CHR ''d'', Some (no_event\<lparr>ae_ID := uu_string hex_uuids (key_of CHR ''d''), ae_Timestamp := 4\<rparr>))]"
    "log_ok hex_uuids (AppendTx hex_uuids (key_of CHR ''d'') 4 no_event three_rows)" "log_ok hex_uuids three_rows"
    using AppendTx_grows by blast+
  have "log_ok hex_uuids (one_more i)" for i using g(2,3) by (simp add: one_more_def)
  moreover have "\<exists>new. one_more (Suc i) = one_more i @ new" for i using g(1) by (cases i) (auto simp: one_more_def)
  moreover have "length (one_more 0) < 4" by code_simp
  ultimately have w: "walk_pages 4 hex_uuids one_more any_event [] 0 =
      Some (Inr (filter (\<lambda>e. matches_event e any_event) (map (the \<circ> snd) (rev (one_more 0)))))"
    using pages_complete [OF u, of one_more 4 any_event] by blast
  have "map (last \<circ> ae_ID) (filter (\<lambda>e. matches_event e any_event) (map (the \<circ> snd) (rev (one_more 0)))) = ''cba''"
    by code_simp
  with w show ?thesis by simp
qed

end
