(* ===== verification/CountryGate.thy ===== *)
theory CountryGate
  imports RouteCheck ClientIP
begin

text \<open>
  The country filter at run time: \<open>internal/countryblock/matcher.go\<close> and the Caddy handler of
  \<open>module.go\<close>. The GeoIP databases behind the lookup are an argument; the global pointers the
  process installs at start are the record \<open>cb_globals\<close>.
\<close>

section \<open>The decision\<close>

record Decision =
  de_Accepted :: bool
  de_Country :: string
  de_Reason :: string

record GeoInfo =
  gi_Country :: string
  gi_Continent :: string
  gi_ASN :: "32 word"

definition lan_cidrs :: "string list" where
  "lan_cidrs = [''10.0.0.0/8'', ''172.16.0.0/12'', ''192.168.0.0/16'', ''127.0.0.0/8'', ''169.254.0.0/16'',
     ''::1/128'', ''fe80::/10'', ''fc00::/7'']"

definition lanRanges :: "ipnet list" where
  "lanRanges = List.map_filter parseCIDR lan_cidrs"

definition isLAN :: "ip \<Rightarrow> bool" where
  "isLAN a = list_ex (\<lambda>n. ipnet_contains n a) lanRanges"

definition in_nets :: "ipnet option list \<Rightarrow> ip \<Rightarrow> bool" where
  "in_nets trustedIPs a = list_ex (\<lambda>n. case n of None \<Rightarrow> False | Some c \<Rightarrow> ipnet_contains c a) trustedIPs"

definition hasUsableNonASNRule :: "countryblock_Config \<Rightarrow> string \<Rightarrow> string \<Rightarrow> bool" where
  "hasUsableNonASNRule c country continent =
     (if cb_CountryList c \<noteq> [] \<and> country \<noteq> [] then True else cb_Continents c \<noteq> [] \<and> continent \<noteq> [])"

definition geo_match :: "countryblock_Config \<Rightarrow> GeoInfo \<Rightarrow> bool" where
  "geo_match c g \<longleftrightarrow>
     gi_Country g \<noteq> [] \<and> gi_Country g \<in> set (cb_CountryList c) \<or>
     gi_Continent g \<noteq> [] \<and> gi_Continent g \<in> set (cb_Continents c) \<or>
     gi_ASN g \<noteq> 0 \<and> gi_ASN g \<in> set (cb_ASNs c)"

definition excepted :: "countryblock_Config \<Rightarrow> GeoInfo \<Rightarrow> bool" where
  "excepted c g = (case cb_Exceptions c of None \<Rightarrow> False
     | Some x \<Rightarrow> gi_Country g \<noteq> [] \<and> gi_Country g \<in> set (exc_Countries x) \<or> gi_ASN g \<noteq> 0 \<and> gi_ASN g \<in> set (exc_ASNs x))"

definition EvaluateGeo :: "countryblock_Config \<Rightarrow> GeoInfo \<Rightarrow> string \<Rightarrow> ipnet option list \<Rightarrow> Decision" where
  "EvaluateGeo c g srcIP trustedIPs =
     (let country = gi_Country g; src = parseIP srcIP; matched = geo_match c g
      in if (case src of None \<Rightarrow> False | Some a \<Rightarrow> in_nets trustedIPs a)
         then \<lparr>de_Accepted = True, de_Country = [], de_Reason = ''trusted-ip''\<rparr>
         else if (case src of None \<Rightarrow> False | Some a \<Rightarrow> isLAN a)
         then \<lparr>de_Accepted = True, de_Country = [], de_Reason = ''rfc1918''\<rparr>
         else if cb_Mode c = [] \<or> cb_Mode c = ''off''
         then \<lparr>de_Accepted = True, de_Country = country, de_Reason = ''off''\<rparr>
         else if country = [] \<and> gi_Continent g = [] \<and> gi_ASN g = 0
         then \<lparr>de_Accepted = True, de_Country = [], de_Reason = ''lookup-failed''\<rparr>
         else if cb_Mode c = ''deny'' \<and> excepted c g
         then \<lparr>de_Accepted = True, de_Country = country, de_Reason = ''exception''\<rparr>
         else if cb_Mode c = ''allow'' \<and> \<not> matched \<and> cb_ASNs c \<noteq> [] \<and> gi_ASN g = 0 \<and>
           \<not> hasUsableNonASNRule c country (gi_Continent g)
         then \<lparr>de_Accepted = True, de_Country = country, de_Reason = ''lookup-failed''\<rparr>
         else if cb_Mode c = ''allow'' then
           (if matched then \<lparr>de_Accepted = True, de_Country = country, de_Reason = ''allow-match''\<rparr>
            else \<lparr>de_Accepted = False, de_Country = country, de_Reason = ''allow-miss''\<rparr>)
         else if cb_Mode c = ''deny'' then
           (if matched then \<lparr>de_Accepted = False, de_Country = country, de_Reason = ''deny-match''\<rparr>
            else \<lparr>de_Accepted = True, de_Country = country, de_Reason = ''deny-miss''\<rparr>)
         else \<lparr>de_Accepted = True, de_Country = country, de_Reason = ''off''\<rparr>)"

definition Evaluate :: "countryblock_Config \<Rightarrow> string \<Rightarrow> string \<Rightarrow> ipnet option list \<Rightarrow> Decision" where
  "Evaluate c country srcIP trustedIPs =
     EvaluateGeo c \<lparr>gi_Country = country, gi_Continent = [], gi_ASN = 0\<rparr> srcIP trustedIPs"

definition IsTrusted :: "string \<Rightarrow> ipnet option list \<Rightarrow> bool" where
  "IsTrusted srcIP trustedIPs =
     (case parseIP srcIP of None \<Rightarrow> False | Some a \<Rightarrow> in_nets trustedIPs a \<or> isLAN a)"

section \<open>The handler\<close>

datatype geo_lookup = CountryLookup "string \<Rightarrow> string" | GeoLookup "string \<Rightarrow> GeoInfo"

record cb_globals =
  cg_lookup :: "geo_lookup option"
  cg_sink :: bool
  cg_trusted :: "ipnet option list"
  cg_default :: int
  cg_clientIP :: "(http_request \<Rightarrow> string) option"

record Handler =
  cbh_Config :: countryblock_Config
  cbh_RouteID :: string

record BlockMatch =
  bm_Timestamp :: time
  bm_RouteID :: string
  bm_SourceIP :: string
  bm_Country :: string
  bm_Mode :: string
  bm_StatusCode :: int
  bm_Reason :: string

datatype cb_outcome = PassedOn | Denied int

definition Handler_Provision :: "cb_globals \<Rightarrow> Handler \<Rightarrow> string option" where
  "Handler_Provision G h =
     (case Config_Validate (cbh_Config h) of
        Some e \<Rightarrow> Some e | None \<Rightarrow> guard (cg_lookup G = None) ''countryblock: lookup not installed'')"

definition Handler_Validate :: "Handler \<Rightarrow> string option" where
  "Handler_Validate h = guard (cbh_RouteID h = []) ''countryblock: routeID is required''"

definition resolveSrcIP :: "cb_globals \<Rightarrow> http_request \<Rightarrow> string" where
  "resolveSrcIP G r =
     (case cg_clientIP G of
        Some fn \<Rightarrow> fn r
      | None \<Rightarrow> (case splitHostPort (RemoteAddr r) of None \<Rightarrow> RemoteAddr r | Some (host, _) \<Rightarrow> host))"

definition lookup_geo :: "cb_globals \<Rightarrow> string \<Rightarrow> GeoInfo" where
  "lookup_geo G srcIP =
     (case cg_lookup G of
        None \<Rightarrow> \<lparr>gi_Country = [], gi_Continent = [], gi_ASN = 0\<rparr>
      | Some (GeoLookup f) \<Rightarrow> f srcIP
      | Some (CountryLookup f) \<Rightarrow> \<lparr>gi_Country = f srcIP, gi_Continent = [], gi_ASN = 0\<rparr>)"

definition block_status :: "cb_globals \<Rightarrow> Handler \<Rightarrow> int" where
  "block_status G h =
     (let status = (if cb_StatusCode (cbh_Config h) = 0 then cg_default G else cb_StatusCode (cbh_Config h))
      in if status = 0 then 403 else status)"

text \<open>What happens to the request, and the event submitted to the sink.\<close>

definition Handler_ServeHTTP :: "cb_globals \<Rightarrow> time \<Rightarrow> Handler \<Rightarrow> http_request \<Rightarrow> cb_outcome \<times> BlockMatch option" where
  "Handler_ServeHTTP G now h r =
     (let srcIP = resolveSrcIP G r;
          d = EvaluateGeo (cbh_Config h) (lookup_geo G srcIP) srcIP (cg_trusted G);
          status = block_status G h
      in if de_Accepted d then (PassedOn, None)
         else (Denied status,
           if cg_sink G then Some \<lparr>bm_Timestamp = now, bm_RouteID = cbh_RouteID h, bm_SourceIP = srcIP, bm_Country = de_Country d,
             bm_Mode = cb_Mode (cbh_Config h), bm_StatusCode = status, bm_Reason = de_Reason d\<rparr> else None))"

section \<open>Properties\<close>

text \<open>A source the filter never judges: trusted by the operator or on the local network.\<close>

lemma Evaluate_trusted:
  "IsTrusted srcIP trustedIPs \<Longrightarrow> de_Accepted (EvaluateGeo c g srcIP trustedIPs)"
  by (auto simp: EvaluateGeo_def IsTrusted_def Let_def split: option.splits)

text \<open>
  C33: The country fence holds. A route in allow mode answers a request itself, with an error
  status, and reports it, whenever the source is neither trusted nor local, one of its country
  or continent lists could be applied because the lookup resolved that dimension, and nothing
  the lookup found is listed; whether the AS number resolved makes no difference. A request
  from a trusted or local source passes whatever the configuration.
\<close>

theorem country_fence_holds:
  assumes "cg_sink G" and "srcIP = resolveSrcIP G r" and "g = lookup_geo G srcIP" and "c = cbh_Config h"
    and "cb_Mode c = ''allow''" and "\<not> geo_match c g"
    and "cb_CountryList c \<noteq> [] \<and> gi_Country g \<noteq> [] \<or> cb_Continents c \<noteq> [] \<and> gi_Continent g \<noteq> []"
  shows "if IsTrusted srcIP (cg_trusted G) then Handler_ServeHTTP G now h r = (PassedOn, None)
    else \<exists>m. Handler_ServeHTTP G now h r = (Denied (block_status G h), Some m) \<and> bm_SourceIP m = srcIP \<and>
      bm_RouteID m = cbh_RouteID h \<and> bm_Country m = gi_Country g \<and> bm_Reason m = ''allow-miss''"
proof (cases "IsTrusted srcIP (cg_trusted G)")
  case True
  with Evaluate_trusted [OF True, of c g] assms(2-4) show ?thesis by (simp add: Handler_ServeHTTP_def Let_def)
next
  case False
  then have "EvaluateGeo c g srcIP (cg_trusted G) = \<lparr>de_Accepted = False, de_Country = gi_Country g, de_Reason = ''allow-miss''\<rparr>"
    using assms(5-7) by (auto simp: EvaluateGeo_def IsTrusted_def hasUsableNonASNRule_def Let_def split: option.splits)
  with False assms(1-4) show ?thesis by (simp add: Handler_ServeHTTP_def Let_def)
qed

definition sample_globals :: "(string \<Rightarrow> GeoInfo) \<Rightarrow> cb_globals" where
  "sample_globals f = \<lparr>cg_lookup = Some (GeoLookup f), cg_sink = True, cg_trusted = [], cg_default = 0, cg_clientIP = None\<rparr>"

definition french_only :: Handler where
  "french_only = \<lparr>cbh_Config = zero_country\<lparr>cb_Mode := ''allow'', cb_CountryList := [''FR'']\<rparr>, cbh_RouteID = ''r''\<rparr>"

text \<open>A request over a socket without an address, which no list of networks contains.\<close>

definition from_outside :: http_request where
  "from_outside = \<lparr>RemoteAddr = ''@'', Header = [], TLS = False\<rparr>"

theorem country_fence_holds_witness:
  "fst (Handler_ServeHTTP (sample_globals (\<lambda>_. \<lparr>gi_Country = ''US'', gi_Continent = [], gi_ASN = 0\<rparr>)) 5 french_only from_outside) = Denied 403"
proof -
  let ?G = "sample_globals (\<lambda>_. \<lparr>gi_Country = ''US'', gi_Continent = [], gi_ASN = 0\<rparr>)"
  have "\<not> IsTrusted (resolveSrcIP ?G from_outside) (cg_trusted ?G)" "cg_sink ?G" "block_status ?G french_only = 403"
    "\<not> geo_match (cbh_Config french_only) (lookup_geo ?G (resolveSrcIP ?G from_outside))"
    "cb_Mode (cbh_Config french_only) = ''allow''" "cb_CountryList (cbh_Config french_only) \<noteq> []"
    "gi_Country (lookup_geo ?G (resolveSrcIP ?G from_outside)) \<noteq> []" by code_simp+
  then show ?thesis
    using country_fence_holds [of ?G "resolveSrcIP ?G from_outside" from_outside _ _ french_only 5, OF _ refl refl refl] by auto
qed

text \<open>
  A missing country database closes every country allow list. When only the AS number of a
  source resolves, a route that allows countries and lists no AS numbers denies every request
  that is not from a trusted or local source, although the documented precedence passes a
  request whose country is unknown.
\<close>

theorem asn_without_country_blocks:
  assumes "cb_Mode (cbh_Config h) = ''allow''" and "cb_ASNs (cbh_Config h) = []"
    and "lookup_geo G (resolveSrcIP G r) = \<lparr>gi_Country = [], gi_Continent = [], gi_ASN = n\<rparr>" and "n \<noteq> 0"
    and "\<not> IsTrusted (resolveSrcIP G r) (cg_trusted G)"
  shows "fst (Handler_ServeHTTP G now h r) = Denied (block_status G h)"
proof -
  have "\<not> de_Accepted (EvaluateGeo (cbh_Config h) (lookup_geo G (resolveSrcIP G r)) (resolveSrcIP G r) (cg_trusted G))"
    using assms by (auto simp: EvaluateGeo_def IsTrusted_def geo_match_def Let_def split: option.splits)
  then show ?thesis by (simp add: Handler_ServeHTTP_def Let_def)
qed

theorem asn_without_country_blocks_witness:
  "fst (Handler_ServeHTTP (sample_globals (\<lambda>_. \<lparr>gi_Country = [], gi_Continent = [], gi_ASN = 3215\<rparr>)) 5 french_only from_outside) = Denied 403"
proof -
  let ?G = "sample_globals (\<lambda>_. \<lparr>gi_Country = [], gi_Continent = [], gi_ASN = 3215\<rparr>)"
  have "\<not> IsTrusted (resolveSrcIP ?G from_outside) (cg_trusted ?G)" "block_status ?G french_only = 403" by code_simp+
  then show ?thesis
    using asn_without_country_blocks [of french_only ?G from_outside 3215 5]
    by (simp add: french_only_def sample_globals_def lookup_geo_def zero_country_def)
qed

end
