(* ===== verification/DnsProviders.thy ===== *)
theory DnsProviders
  imports Buckets CaddyConfig
begin

text \<open>
  DNS providers for certificate challenges: the registry of \<open>storage/dns_provider_types.go\<close>, the
  store of \<open>dns_provider.go\<close> and the redaction of credentials. Labels and documentation links of the
  registry, which only the user interface shows, are left out.
\<close>

section \<open>The registry\<close>

record DNSProviderField =
  df_Key :: string
  df_Secret :: bool
  df_Required :: bool
  df_Enum :: "string list"

record DNSProviderType =
  dt_Type :: string
  dt_Fields :: "DNSProviderField list"

record DNSProviderConfig =
  dp_ID :: string
  dp_Label :: string
  dp_Type :: string
  dp_Credentials :: "(string, string) gomap"

definition dns_field :: "string \<Rightarrow> bool \<Rightarrow> bool \<Rightarrow> string list \<Rightarrow> DNSProviderField" where
  "dns_field k secret required enum = \<lparr>df_Key = k, df_Secret = secret, df_Required = required, df_Enum = enum\<rparr>"

definition OVHEndpoints :: "string list" where
  "OVHEndpoints = [''ovh-eu'', ''ovh-ca'', ''ovh-us'', ''kimsufi-eu'', ''kimsufi-ca'', ''soyoustart-eu'', ''soyoustart-ca'']"

definition dnsProviderRegistry :: "DNSProviderType list" where
  "dnsProviderRegistry =
    [\<lparr>dt_Type = ''ovh'', dt_Fields = [dns_field ''endpoint'' False True OVHEndpoints, dns_field ''application_key'' True True [],
        dns_field ''application_secret'' True True [], dns_field ''consumer_key'' True True []]\<rparr>,
     \<lparr>dt_Type = ''cloudflare'', dt_Fields = [dns_field ''api_token'' True True [], dns_field ''zone_token'' True False []]\<rparr>,
     \<lparr>dt_Type = ''digitalocean'', dt_Fields = [dns_field ''auth_token'' True True []]\<rparr>,
     \<lparr>dt_Type = ''gandi'', dt_Fields = [dns_field ''bearer_token'' True True []]\<rparr>,
     \<lparr>dt_Type = ''hetzner'', dt_Fields = [dns_field ''api_token'' True True []]\<rparr>,
     \<lparr>dt_Type = ''infomaniak'', dt_Fields = [dns_field ''api_token'' True True []]\<rparr>,
     \<lparr>dt_Type = ''porkbun'', dt_Fields = [dns_field ''api_key'' True True [], dns_field ''api_secret_key'' True True []]\<rparr>,
     \<lparr>dt_Type = ''route53'', dt_Fields = [dns_field ''region'' False True [], dns_field ''access_key_id'' False True [],
        dns_field ''secret_access_key'' True True [], dns_field ''hosted_zone_id'' False False []]\<rparr>,
     \<lparr>dt_Type = ''scaleway'', dt_Fields = [dns_field ''secret_key'' True True [], dns_field ''organization_id'' False True []]\<rparr>]"

definition DNSProviderTypeByName :: "string \<Rightarrow> DNSProviderType option" where
  "DNSProviderTypeByName t = find (\<lambda>pt. dt_Type pt = t) dnsProviderRegistry"

definition field :: "DNSProviderType \<Rightarrow> string \<Rightarrow> DNSProviderField option" where
  "field pt k = find (\<lambda>f. df_Key f = k) (dt_Fields pt)"

definition SecretKeys :: "string \<Rightarrow> string list" where
  "SecretKeys t = (case DNSProviderTypeByName t of None \<Rightarrow> [] | Some pt \<Rightarrow> map df_Key (filter df_Secret (dt_Fields pt)))"

definition cred :: "DNSProviderConfig \<Rightarrow> string \<Rightarrow> string" where
  "cred c k = (case gm_get (dp_Credentials c) k of None \<Rightarrow> [] | Some v \<Rightarrow> v)"

definition ProviderConfigured :: "DNSProviderConfig \<Rightarrow> bool" where
  "ProviderConfigured c =
     (case DNSProviderTypeByName (dp_Type c) of
        None \<Rightarrow> False | Some pt \<Rightarrow> list_all (\<lambda>f. df_Required f \<longrightarrow> cred c (df_Key f) \<noteq> []) (dt_Fields pt))"

definition SecretValues :: "DNSProviderConfig \<Rightarrow> string list" where
  "SecretValues c = filter (\<lambda>v. v \<noteq> []) (map (cred c) (SecretKeys (dp_Type c)))"

definition WithoutSecrets :: "DNSProviderConfig \<Rightarrow> DNSProviderConfig" where
  "WithoutSecrets c =
     c\<lparr>dp_Credentials := filter (\<lambda>(k, _).
        case DNSProviderTypeByName (dp_Type c) of
          None \<Rightarrow> False
        | Some pt \<Rightarrow> (case field pt k of None \<Rightarrow> False | Some f \<Rightarrow> \<not> df_Secret f)) (dp_Credentials c)\<rparr>"

section \<open>Redaction\<close>

text \<open>\<open>strings.ReplaceAll\<close> for a non-empty pattern.\<close>

function replaceAll :: "string \<Rightarrow> string \<Rightarrow> string \<Rightarrow> string" where
  "replaceAll s old new =
     (if s = [] \<or> old = [] then s
      else if hasPrefix s old then new @ replaceAll (drop (length old) s) old new
      else hd s # replaceAll (tl s) old new)"
  by pat_completeness auto
termination
  by (relation "measure (\<lambda>(s, _, _). length s)") (auto simp: hasPrefix_def)

declare replaceAll.simps [simp del]

definition redactedPlaceholder :: string where "redactedPlaceholder = ''[REDACTED]''"
definition minRedactLen :: nat where "minRedactLen = 4"

definition RedactDNSSecrets :: "string \<Rightarrow> DNSProviderConfig list \<Rightarrow> string" where
  "RedactDNSSecrets msg providers =
     fold (\<lambda>p msg. fold (\<lambda>v msg. if minRedactLen \<le> length v then replaceAll msg v redactedPlaceholder else msg) (SecretValues p) msg)
       providers msg"

section \<open>The store\<close>

definition DNS_normalize :: "DNSProviderConfig \<Rightarrow> DNSProviderConfig" where
  "DNS_normalize c = c\<lparr>dp_Credentials := filter (\<lambda>(_, v). v \<noteq> []) (dp_Credentials c)\<rparr>"

definition check_field :: "DNSProviderConfig \<Rightarrow> DNSProviderField \<Rightarrow> string option" where
  "check_field c f =
     (let v = cred c (df_Key f)
      in if v = [] then guard (df_Required f) ''dns_provider: must not be empty''
         else guard (df_Enum f \<noteq> [] \<and> v \<notin> set (df_Enum f)) ''dns_provider: value is not one of'')"

definition DNS_validate :: "DNSProviderConfig \<Rightarrow> string option" where
  "DNS_validate c =
     (if dp_Label c = [] then Some ''dns_provider: label must not be empty''
      else case DNSProviderTypeByName (dp_Type c) of
        None \<Rightarrow> Some ''dns_provider: type is not a recognised provider type''
      | Some pt \<Rightarrow>
          first_error
            [check_each (\<lambda>(k, _). guard (field pt k = None) ''dns_provider: field is not valid for type'') (dp_Credentials c),
             check_each (check_field c) (dt_Fields pt)])"

definition ListDNSProviders :: "DNSProviderConfig bucket \<Rightarrow> store_error + DNSProviderConfig list" where
  "ListDNSProviders b = bucket_list b"

definition GetDNSProvider :: "string \<Rightarrow> DNSProviderConfig bucket \<Rightarrow> store_error + DNSProviderConfig" where
  "GetDNSProvider k b = bucket_get k b"

definition CreateDNSProvider ::
  "string \<Rightarrow> DNSProviderConfig \<Rightarrow> DNSProviderConfig bucket \<Rightarrow> DNSProviderConfig bucket \<times> (store_error + DNSProviderConfig)" where
  "CreateDNSProvider uuid c0 b =
     (let c = DNS_normalize (c0\<lparr>dp_ID := uuid, dp_Type := (if dp_Type c0 = [] then ''ovh'' else dp_Type c0)\<rparr>)
      in case DNS_validate c of
           Some e \<Rightarrow> (b, Inl (ErrInvalid e))
         | None \<Rightarrow> (gm_put uuid (Some c) b, Inr c))"

definition keep_secret :: "DNSProviderConfig \<Rightarrow> string \<Rightarrow> DNSProviderConfig \<Rightarrow> DNSProviderConfig" where
  "keep_secret existing k c =
     (if gm_get (dp_Credentials c) k = None \<and> cred existing k \<noteq> []
      then c\<lparr>dp_Credentials := gm_put k (cred existing k) (dp_Credentials c)\<rparr> else c)"

definition merge_provider :: "string \<Rightarrow> DNSProviderConfig \<Rightarrow> DNSProviderConfig \<Rightarrow> DNSProviderConfig" where
  "merge_provider k existing c =
     (let m = DNS_normalize (c\<lparr>dp_ID := k, dp_Type := (if dp_Type c = [] then dp_Type existing else dp_Type c)\<rparr>)
      in if dp_Type m = dp_Type existing then fold (keep_secret existing) (SecretKeys (dp_Type m)) m else m)"

definition UpdateDNSProvider ::
  "string \<Rightarrow> DNSProviderConfig \<Rightarrow> DNSProviderConfig bucket \<Rightarrow> DNSProviderConfig bucket \<times> (store_error + DNSProviderConfig)" where
  "UpdateDNSProvider k c b =
     (case bucket_get k b of
        Inl e \<Rightarrow> (b, Inl e)
      | Inr existing \<Rightarrow>
          let m = merge_provider k existing c
          in case DNS_validate m of
               Some e \<Rightarrow> (b, Inl (ErrInvalid e))
             | None \<Rightarrow> (gm_put k (Some m) b, Inr m))"

text \<open>
  Deletion in its two transactions: the references are read in the first, the row is deleted in
  the second.
\<close>

definition provider_in_use :: "string \<Rightarrow> ManagedDomain bucket \<Rightarrow> store_error + bool" where
  "provider_in_use k domains = map_sum id (list_ex (\<lambda>md. md_ProviderID md = k)) (bucket_list domains)"

definition delete_provider_row :: "string \<Rightarrow> DNSProviderConfig bucket \<Rightarrow> DNSProviderConfig bucket \<times> store_error option" where
  "delete_provider_row k b = bucket_delete k b"

section \<open>Facts\<close>

lemma gm_get_filter_vals: "gm_wf m \<Longrightarrow> gm_get (filter (\<lambda>(_, v). v \<noteq> []) m) k = (case gm_get m k of None \<Rightarrow> None | Some v \<Rightarrow> if v = [] then None else Some v)"
  using gm_get_filter_val [of m "\<lambda>_ v. v \<noteq> []" k] by (simp split: option.splits if_splits)

lemma keep_secret_type [simp]: "dp_Type (keep_secret e k c) = dp_Type c"
  by (simp add: keep_secret_def)

lemma cred_keep_secret:
  "cred (keep_secret e k c) k' = (if k' = k \<and> gm_get (dp_Credentials c) k = None then cred e k else cred c k')"
  by (auto simp: keep_secret_def cred_def)

lemma fold_keep_secret:
  "gm_get (dp_Credentials (fold (keep_secret e) ks c)) k =
     (if k \<in> set ks \<and> gm_get (dp_Credentials c) k = None \<and> cred e k \<noteq> [] then Some (cred e k) else gm_get (dp_Credentials c) k)"
  by (induction ks arbitrary: c) (auto simp: keep_secret_def)

end
