(* ===== verification/RouteStore.thy ===== *)
theory RouteStore
  imports DnsProviders RouteProps
begin

text \<open>
  The route bucket (\<open>storage/routes.go\<close>) and the managed domains (\<open>storage/managed_domain.go\<close>) with
  the migration of the routes they cover, and what the handlers of \<open>api/managed_domain.go\<close> compute
  from a request. A transaction that fails leaves the database as it was.
\<close>

section \<open>Routes\<close>

definition CreateRoute :: "golib \<Rightarrow> time \<Rightarrow> string \<Rightarrow> Route \<Rightarrow> Route bucket \<Rightarrow> Route bucket \<times> (store_error + Route)" where
  "CreateRoute L now uuid r0 b =
     (case validate L r0 of
        Some e \<Rightarrow> (b, Inl (ErrInvalid e))
      | None \<Rightarrow>
          let r = r0\<lparr>rt_ID := uuid, rt_CreatedAt := now, rt_UpdatedAt := now\<rparr>
          in (gm_put uuid (Some r) b, Inr r))"

definition GetRoute :: "string \<Rightarrow> Route bucket \<Rightarrow> store_error + Route" where
  "GetRoute k b = (if k = [] then Inl (ErrInvalid ''route: id must not be empty'') else bucket_get k b)"

definition ListRoutes :: "Route bucket \<Rightarrow> store_error + Route list" where
  "ListRoutes b = map_sum id (sort_key rt_CreatedAt) (bucket_list b)"

definition UpdateRoute :: "golib \<Rightarrow> time \<Rightarrow> Route \<Rightarrow> Route bucket \<Rightarrow> Route bucket \<times> (store_error + Route)" where
  "UpdateRoute L now r0 b =
     (if rt_ID r0 = [] then (b, Inl (ErrInvalid ''route: id must not be empty''))
      else case validate L r0 of
        Some e \<Rightarrow> (b, Inl (ErrInvalid e))
      | None \<Rightarrow>
          (case bucket_get (rt_ID r0) b of
             Inl e \<Rightarrow> (b, Inl e)
           | Inr existing \<Rightarrow>
               let r = r0\<lparr>rt_CreatedAt := rt_CreatedAt existing, rt_UpdatedAt := now\<rparr>
               in (gm_put (rt_ID r) (Some r) b, Inr r)))"

definition DeleteRoute :: "string \<Rightarrow> Route bucket \<Rightarrow> Route bucket \<times> store_error option" where
  "DeleteRoute k b =
     (if k = [] then (b, Some (ErrInvalid ''route: id must not be empty'')) else bucket_delete k b)"

text \<open>The row is written back as it was, without validation: the rollback of a failed deletion.\<close>

definition RestoreRoute :: "Route \<Rightarrow> Route bucket \<Rightarrow> Route bucket \<times> store_error option" where
  "RestoreRoute r b =
     (if rt_ID r = [] then (b, Some (ErrInvalid ''route: id must not be empty'')) else (gm_put (rt_ID r) (Some r) b, None))"

section \<open>Managed domains\<close>

definition is_alnum :: "char \<Rightarrow> bool" where
  "is_alnum c \<longleftrightarrow> 97 \<le> byte_of c \<and> byte_of c \<le> 122 \<or> 65 \<le> byte_of c \<and> byte_of c \<le> 90 \<or> is_digit c"

definition rfc1123_label :: "string \<Rightarrow> bool" where
  "rfc1123_label s \<longleftrightarrow> s \<noteq> [] \<and> length s \<le> 63 \<and> list_all (\<lambda>c. is_alnum c \<or> c = CHR ''-'') s \<and> is_alnum (hd s) \<and> is_alnum (last s)"

definition managedDomainApexRE :: "string \<Rightarrow> bool" where
  "managedDomainApexRE s = list_all rfc1123_label (splitOn CHR ''.'' s)"

definition ManagedDomain_validate :: "golib \<Rightarrow> ManagedDomain \<Rightarrow> string option" where
  "ManagedDomain_validate L md =
     first_error
       [guard (md_Apex md = []) ''managed_domain: apex must not be empty'',
        guard (hasPrefix (md_Apex md) ''*.'') ''managed_domain: apex must be the bare domain'',
        guard (md_Apex md \<noteq> NormalizeApex L (md_Apex md)) ''managed_domain: apex is not in canonical form'',
        guard (\<not> managedDomainApexRE (md_Apex md)) ''managed_domain: apex is not a valid RFC 1123 hostname'']"

definition ValidCertSubject :: "golib \<Rightarrow> string \<Rightarrow> bool" where
  "ValidCertSubject L s =
     (let a = NormalizeApex L s; t = (if hasPrefix a ''*.'' then drop 2 a else a) in t \<noteq> [] \<and> managedDomainApexRE t)"

definition GetManagedDomain :: "golib \<Rightarrow> string \<Rightarrow> ManagedDomain bucket \<Rightarrow> store_error + ManagedDomain" where
  "GetManagedDomain L apex b = bucket_get (NormalizeApex L apex) b"

definition ListManagedDomains :: "ManagedDomain bucket \<Rightarrow> store_error + ManagedDomain list" where
  "ListManagedDomains b = bucket_list b"

definition PutManagedDomain :: "golib \<Rightarrow> ManagedDomain \<Rightarrow> ManagedDomain bucket \<Rightarrow> ManagedDomain bucket \<times> store_error option" where
  "PutManagedDomain L md b =
     (case ManagedDomain_validate L md of
        Some e \<Rightarrow> (b, Some (ErrInvalid e)) | None \<Rightarrow> (gm_put (md_Apex md) (Some md) b, None))"

definition DeleteManagedDomain :: "golib \<Rightarrow> string \<Rightarrow> ManagedDomain bucket \<Rightarrow> ManagedDomain bucket" where
  "DeleteManagedDomain L apex b = gm_del (NormalizeApex L apex) b"

record domain_db =
  db_routes :: "Route bucket"
  db_domains :: "ManagedDomain bucket"
  db_providers :: "DNSProviderConfig bucket"

text \<open>The pass over the route rows: \<open>f\<close> rewrites a route or leaves it; the number of rewritten rows is returned.\<close>

fun migrate_rows :: "(Route \<Rightarrow> Route option) \<Rightarrow> Route bucket \<Rightarrow> store_error + (Route bucket \<times> nat)" where
  "migrate_rows f [] = Inr ([], 0)"
| "migrate_rows f ((k, v) # b) =
     (case v of
        None \<Rightarrow> Inl ErrUnmarshal
      | Some r \<Rightarrow>
          (case migrate_rows f b of
             Inl e \<Rightarrow> Inl e
           | Inr (b', n) \<Rightarrow>
               (case f r of None \<Rightarrow> Inr ((k, Some r) # b', n) | Some r' \<Rightarrow> Inr ((k, Some r') # b', Suc n))))"

definition inherit_row :: "(string \<Rightarrow> bool) \<Rightarrow> time \<Rightarrow> Route \<Rightarrow> Route option" where
  "inherit_row isCovered now r =
     (if rt_UseDedicatedCert r then None
      else if \<not> list_ex isCovered (AllHosts r) then None
      else if rt_ACMEChallenge r = ''inherited'' then None
      else Some (r\<lparr>rt_ACMEChallenge := ''inherited'', rt_UpdatedAt := now\<rparr>))"

definition PutManagedDomainWithRouteMigration ::
  "golib \<Rightarrow> time \<Rightarrow> ManagedDomain \<Rightarrow> (string \<Rightarrow> bool) \<Rightarrow> domain_db \<Rightarrow> domain_db \<times> (store_error + nat)" where
  "PutManagedDomainWithRouteMigration L now md isCovered db =
     (case ManagedDomain_validate L md of
        Some e \<Rightarrow> (db, Inl (ErrInvalid e))
      | None \<Rightarrow>
          (case migrate_rows (inherit_row isCovered now) (db_routes db) of
             Inl e \<Rightarrow> (db, Inl e)
           | Inr (b, n) \<Rightarrow> (db\<lparr>db_routes := b, db_domains := gm_put (md_Apex md) (Some md) (db_domains db)\<rparr>, Inr n)))"

definition revert_row :: "(string \<Rightarrow> bool) \<Rightarrow> time \<Rightarrow> string \<Rightarrow> Route \<Rightarrow> Route option" where
  "revert_row isCovered now revertTo r =
     (if rt_ACMEChallenge r \<noteq> ''inherited'' then None
      else if \<not> list_ex isCovered (AllHosts r) then None
      else Some (r\<lparr>rt_ACMEChallenge := revertTo, rt_UpdatedAt := now\<rparr>))"

definition DeleteManagedDomainWithRouteMigrationRevertTo ::
  "golib \<Rightarrow> time \<Rightarrow> string \<Rightarrow> (string \<Rightarrow> bool) \<Rightarrow> string \<Rightarrow> domain_db \<Rightarrow> domain_db \<times> (store_error + nat)" where
  "DeleteManagedDomainWithRouteMigrationRevertTo L now apex isCovered revertTo db =
     (let key = NormalizeApex L apex
      in if gm_get (db_domains db) key = None then (db, Inl ErrNotFound)
         else case migrate_rows (revert_row isCovered now revertTo) (db_routes db) of
           Inl e \<Rightarrow> (db, Inl e)
         | Inr (b, n) \<Rightarrow> (db\<lparr>db_routes := b, db_domains := gm_del key (db_domains db)\<rparr>, Inr n))"

definition DeleteManagedDomainWithRouteMigration ::
  "golib \<Rightarrow> time \<Rightarrow> string \<Rightarrow> (string \<Rightarrow> bool) \<Rightarrow> domain_db \<Rightarrow> domain_db \<times> (store_error + nat)" where
  "DeleteManagedDomainWithRouteMigration L now apex isCovered db =
     DeleteManagedDomainWithRouteMigrationRevertTo L now apex isCovered [] db"

section \<open>The request\<close>

record managedDomainRequest =
  mq_Apex :: string
  mq_IncludeApex :: "bool option"
  mq_ProviderID :: string
  mq_Provider :: string

definition request_provider :: "managedDomainRequest \<Rightarrow> DNSProviderConfig bucket \<Rightarrow> string" where
  "request_provider req providers =
     (let p = trimSpace (mq_ProviderID req)
      in if p = [] \<and> mq_Provider req = ''ovh''
         then (case ListDNSProviders providers of Inr [c] \<Rightarrow> dp_ID c | _ \<Rightarrow> p)
         else p)"

definition coveredBy :: "golib \<Rightarrow> ManagedDomain \<Rightarrow> string \<Rightarrow> bool" where
  "coveredBy L md host \<longleftrightarrow> IsHostCoveredByManagedDomain L host [md] \<noteq> None"

definition overlaps :: "golib \<Rightarrow> ManagedDomain \<Rightarrow> ManagedDomain \<Rightarrow> bool" where
  "overlaps L md e \<longleftrightarrow> md_Apex e = md_Apex md \<or> coveredBy L md (md_Apex e) \<or> coveredBy L e (md_Apex md)"

end
