(* ===== verification/RouteRequests.thy ===== *)
theory RouteRequests
  imports RouteStore
begin

text \<open>
  What the route handlers make of a request body: the checks of \<open>api/validation.go\<close> and of the
  first half of \<open>api/routes.go\<close>, the normalisation of the firewall lists (\<open>waf_exclusions.go\<close>,
  \<open>waf_custom_rules.go\<close>, \<open>waf_seclang.go\<close>) and of the path rules (\<open>handler.go\<close>). A request struct
  with the same fields as the stored one, which the handlers copy field by field, is the stored
  type. The record \<open>apilib\<close> holds the library functions the handlers add to those of the routes:
  the Unicode tables of \<open>strings.ToUpper\<close>, \<open>url.ParseRequestURI\<close> and the salted password hash.
\<close>

section \<open>Library and request types\<close>

record apilib =
  ap_go :: golib
  ap_upper :: "string \<Rightarrow> string"
  ap_requestURI :: "string \<Rightarrow> url option"
  ap_hash :: "string \<Rightarrow> string option"

type_synonym upstreamReq = Upstream
type_synonym forwardAuthReq = ForwardAuthRouteConfig
type_synonym ipFilterReq = IPFilter
type_synonym pathRedirectReq = PathRedirect
type_synonym rateLimitReq = RouteRateLimit
type_synonym countryBlockReq = countryblock_Config
type_synonym healthCheckReq = HealthCheck
type_synonym healthNotifyReq = HealthNotifyConfig
type_synonym wafTargetedExclusionWire = WAFTargetedExclusion
type_synonym wafCustomRuleWire = WAFCustomRule

record basicAuthReq =
  bq_Username :: string
  bq_Password :: string

record pathRuleReq =
  pq_PathPrefix :: string
  pq_BasicAuth :: "basicAuthReq option"
  pq_IPFilter :: "ipFilterReq option"
  pq_Upstreams :: "upstreamReq list"
  pq_LBPolicy :: string
  pq_HealthCheck :: "healthCheckReq option"
  pq_InsecureSkipVerify :: bool
  pq_UpstreamTLSServerName :: string
  pq_MatchExact :: bool
  pq_Redirect :: "pathRedirectReq option"
  pq_RateLimit :: "rateLimitReq option"
  pq_ForwardAuth :: "forwardAuthReq option"
  pq_DisableRouteAuth :: bool

record routeRequest =
  rq_Host :: string
  rq_Upstreams :: "upstreamReq list"
  rq_LBPolicy :: string
  rq_TLSEnabled :: bool
  rq_RedirectToHTTPS :: bool
  rq_Disabled :: "bool option"
  rq_MaintenanceConfig :: "MaintenanceConfig option"
  rq_RedirectConfig :: "RedirectConfig option"
  rq_CertSource :: string
  rq_CertID :: string
  rq_Aliases :: "string list"
  rq_AuthMode :: string
  rq_BasicAuth :: basicAuthReq
  rq_ForwardAuth :: forwardAuthReq
  rq_RequestHeaders :: "(string, string) gomap"
  rq_ResponseHeaders :: "(string, string) gomap"
  rq_WAFMode :: string
  rq_ACMEChallenge :: string
  rq_UseDedicatedCert :: bool
  rq_HealthCheck :: "healthCheckReq option"
  rq_HealthNotify :: "healthNotifyReq option"
  rq_CountryBlock :: "countryBlockReq option"
  rq_InsecureSkipVerify :: "bool option"
  rq_UpstreamTLSServerName :: "string option"
  rq_UploadStreamingMode :: "bool option"
  rq_ResponseStreamingMode :: "bool option"
  rq_WAFDisableCRS :: "bool option"
  rq_WAFExcludeRules :: "int list option"
  rq_WAFExcludeTags :: "string list option"
  rq_WAFTargetedExclusions :: "wafTargetedExclusionWire list option"
  rq_WAFCustomRules :: "wafCustomRuleWire list option"
  rq_WAFSecLang :: "string option"
  rq_RateLimit :: "rateLimitReq option"
  rq_ClearRateLimit :: bool
  rq_ErrorPageTemplateID :: string
  rq_ErrorPageOverrides :: "(int, string) gomap"
  rq_IPFilter :: "ipFilterReq option"
  rq_PathRules :: "pathRuleReq list"

definition upper_char :: "char \<Rightarrow> char" where
  "upper_char c = (if 97 \<le> byte_of c \<and> byte_of c \<le> 122 then char_of (byte_of c - 32) else c)"

definition toUpper :: "apilib \<Rightarrow> string \<Rightarrow> string" where
  "toUpper A s = (if is_ascii s then map upper_char s else ap_upper A s)"

text \<open>The first error of a list of conversions, or all results.\<close>

fun all_ok :: "('e + 'a) list \<Rightarrow> 'e + 'a list" where
  "all_ok [] = Inr []"
| "all_ok (Inl e # xs) = Inl e"
| "all_ok (Inr a # xs) = map_sum id (Cons a) (all_ok xs)"

definition checked :: "error option \<Rightarrow> 'a \<Rightarrow> error + 'a" where
  "checked c a = (case c of None \<Rightarrow> Inr a | Some e \<Rightarrow> Inl e)"

section \<open>Hosts and upstreams\<close>

definition hostnameRE :: "string \<Rightarrow> bool" where
  "hostnameRE s = list_all rfc1123_label (splitOn CHR ''.'' s)"

definition wildcardHostRE :: "string \<Rightarrow> bool" where
  "wildcardHostRE s \<longleftrightarrow> hasPrefix s ''*.'' \<and> hostnameRE (drop 2 s)"

definition isWildcardHost :: "string \<Rightarrow> bool" where
  "isWildcardHost h = wildcardHostRE h"

text \<open>White space outside ASCII is refused by the two expressions, with the same status.\<close>

definition validateHost :: "string \<Rightarrow> error option" where
  "validateHost s =
     (if trimSpace s = [] then Some ''host must not be empty''
      else if \<exists>c \<in> set s. byte_of c \<in> {9, 10, 11, 12, 13, 32} then Some ''host must not contain whitespace''
      else if length s > 253 then Some ''host must be a valid hostname''
      else if hostnameRE s \<or> wildcardHostRE s then None
      else Some ''host must be a valid hostname'')"

definition validateUpstreamURL :: "apilib \<Rightarrow> string \<Rightarrow> error option" where
  "validateUpstreamURL A s =
     (if s = [] then Some ''upstreamUrl must not be empty''
      else case ap_requestURI A s of
        None \<Rightarrow> Some ''upstreamUrl is not a valid URL''
      | Some u \<Rightarrow>
          if toLower (ap_go A) (url_Scheme u) \<notin> {''http'', ''https''} then Some ''upstreamUrl must use http or https scheme''
          else guard (url_Host u = []) ''upstreamUrl must include a host'')"

definition validateUpstreamPoolAllowingEmpty :: "apilib \<Rightarrow> upstreamReq list \<Rightarrow> bool \<Rightarrow> error option" where
  "validateUpstreamPoolAllowingEmpty A pool allowEmpty =
     (if pool = [] then (if allowEmpty then None else Some ''upstreams must contain at least one entry'')
      else check_each (\<lambda>u. first_error [validateUpstreamURL A (up_URL u),
             guard (up_Weight u < 1) ''upstreams weight must be >= 1'']) pool)"

definition validateUpstreamPool :: "apilib \<Rightarrow> upstreamReq list \<Rightarrow> error option" where
  "validateUpstreamPool A pool = validateUpstreamPoolAllowingEmpty A pool False"

definition default_weight :: "upstreamReq \<Rightarrow> upstreamReq" where
  "default_weight u = (if up_Weight u = 0 then u\<lparr>up_Weight := 1\<rparr> else u)"

definition validateAliasesStructural :: "string \<Rightarrow> string list \<Rightarrow> error option" where
  "validateAliasesStructural host aliases =
     check_each (\<lambda>(a, dup).
       first_error [guard (a = []) ''alias must not be empty'', validateHost a,
         guard (a = host) ''alias duplicates the primary host'',
         guard dup ''alias duplicates within the same route'']) (dup_scan [] aliases)"

definition collectAllHostsExcept :: "Route list \<Rightarrow> string \<Rightarrow> (string, string) gomap" where
  "collectAllHostsExcept routes excludeID =
     fold (\<lambda>rt owners.
       if rt_ID rt = excludeID then owners else fold (\<lambda>h. gm_put h (rt_ID rt)) (AllHosts rt) owners) routes []"

definition validateACMEChallenge :: "string \<Rightarrow> string \<Rightarrow> string list \<Rightarrow> error option" where
  "validateACMEChallenge challenge host aliases =
     (if challenge \<notin> {''http-01'', ''dns-01'', ''inherited''} then Some ''acmeChallenge''
      else guard (challenge = ''http-01'' \<and> list_ex isWildcardHost (host # aliases)) ''acmeChallenge must be dns-01'')"

definition reconcileManagedDomainCoverage ::
  "golib \<Rightarrow> string \<Rightarrow> bool \<Rightarrow> string \<Rightarrow> string list \<Rightarrow> ManagedDomain list \<Rightarrow> error + string" where
  "reconcileManagedDomainCoverage L challenge useDedicated host aliases mds =
     (let covered = list_ex (\<lambda>h. IsHostCoveredByManagedDomain L h mds \<noteq> None) (host # aliases)
      in if useDedicated \<and> \<not> covered then Inl ''useDedicatedCert can only be true when the host is covered''
         else if covered \<and> \<not> useDedicated then Inr ''inherited''
         else Inr challenge)"

section \<open>Authentication, headers and modes\<close>

definition validateAuthMode :: "string \<Rightarrow> error option" where
  "validateAuthMode s = guard (s \<notin> {''none'', ''basic'', ''forward_auth''}) ''authMode''"

definition basic_set :: "routeRequest \<Rightarrow> bool" where
  "basic_set req \<longleftrightarrow> bq_Username (rq_BasicAuth req) \<noteq> [] \<or> bq_Password (rq_BasicAuth req) \<noteq> []"

definition validateAuthFieldsMutex :: "routeRequest \<Rightarrow> error option" where
  "validateAuthFieldsMutex req =
     (if rq_AuthMode req = ''basic'' then guard (fa_ProviderName (rq_ForwardAuth req) \<noteq> []) ''forwardAuth is set''
      else if rq_AuthMode req = ''forward_auth'' then guard (basic_set req) ''basicAuth is set''
      else if rq_AuthMode req = ''none''
      then first_error [guard (fa_ProviderName (rq_ForwardAuth req) \<noteq> []) ''forwardAuth is set'', guard (basic_set req) ''basicAuth is set'']
      else None)"

definition validateBasicAuth :: "routeRequest \<Rightarrow> string \<Rightarrow> error option" where
  "validateBasicAuth req existingHash =
     (let u = bq_Username (rq_BasicAuth req); p = bq_Password (rq_BasicAuth req)
      in first_error
        [guard (u = []) ''basicAuth.username must not be empty'',
         guard (length u > 64) ''basicAuth.username too long'',
         guard (CHR '':'' \<in> set u) ''basicAuth.username must not contain a colon'',
         guard (\<exists>c \<in> set u. byte_of c < 33 \<or> byte_of c = 127) ''basicAuth.username must not contain whitespace or control characters'',
         guard (p = [] \<and> existingHash = []) ''basicAuth.password required'',
         guard (length p > 64) ''basicAuth.password too long''])"

definition header_token_char :: "char \<Rightarrow> bool" where
  "header_token_char c \<longleftrightarrow> is_alnum c \<or> c \<in> set ''!#$%&*+-.^_|~'' \<or> byte_of c \<in> {39, 96}"

definition reservedHeaderNames :: "string list" where
  "reservedHeaderNames = [''host'', ''connection'', ''keep-alive'', ''transfer-encoding'', ''te'', ''trailer'', ''upgrade'',
     ''content-length'', ''content-encoding'']"

definition validateHeaderName :: "golib \<Rightarrow> string \<Rightarrow> error option" where
  "validateHeaderName L name =
     first_error
       [guard (name = []) ''header name must not be empty'',
        guard (length name > 128) ''header name too long'',
        guard (\<not> list_all header_token_char name) ''header name is not a valid HTTP token'',
        guard (toLower L name \<in> set reservedHeaderNames) ''header name is reserved'']"

definition validateHeaderValue :: "string \<Rightarrow> error option" where
  "validateHeaderValue v =
     first_error
       [guard (length v > 1024) ''header value too long'',
        guard (\<exists>c \<in> set v. byte_of c \<noteq> 9 \<and> (byte_of c < 32 \<or> byte_of c = 127)) ''header value contains a control character'']"

definition validateHeaders :: "golib \<Rightarrow> (string, string) gomap \<Rightarrow> error option" where
  "validateHeaders L headers = check_each (\<lambda>(n, v). first_error [validateHeaderName L n, validateHeaderValue v]) headers"

definition validateWAFMode :: "string \<Rightarrow> error option" where
  "validateWAFMode m = guard (m \<notin> {''off'', ''detect'', ''block''}) ''wafMode''"

definition validateLBPolicy :: "string \<Rightarrow> error option" where
  "validateLBPolicy s = guard (s \<notin> set LBPolicies) ''lbPolicy is not a valid policy''"

section \<open>Health checks\<close>

definition validateHealthCheck :: "golib \<Rightarrow> healthCheckReq \<Rightarrow> error option" where
  "validateHealthCheck L h =
     first_error
       [guard (hc_URI h = []) ''healthCheck.uri must not be empty'',
        guard (\<not> hasPrefix (hc_URI h) ''/'') ''healthCheck.uri must start with /'',
        guard (hc_Method h \<noteq> ''GET'' \<and> hc_Method h \<noteq> ''HEAD'') ''healthCheck.method must be GET or HEAD'',
        (case lib_duration L (hc_Interval h) of
           None \<Rightarrow> Some ''healthCheck.interval is not a valid duration''
         | Some interval \<Rightarrow>
             if interval \<le> 0 then Some ''healthCheck.interval must be strictly positive''
             else case lib_duration L (hc_Timeout h) of
               None \<Rightarrow> Some ''healthCheck.timeout is not a valid duration''
             | Some timeout \<Rightarrow>
                 first_error [guard (timeout \<le> 0) ''healthCheck.timeout must be strictly positive'',
                   guard (timeout \<ge> interval) ''healthCheck.timeout must be strictly less than interval'']),
        ValidateExpectStatus (hc_ExpectStatus h),
        guard (hc_HostHeader h \<noteq> [] \<and> trimSpace (hc_HostHeader h) = []) ''healthCheck.hostHeader must not be blank'',
        guard (hc_ExpectBody h \<noteq> [] \<and> \<not> lib_regexp L (hc_ExpectBody h)) ''healthCheck.expectBody is not a valid regex'',
        guard (hc_Passes h < 1) ''healthCheck.passes must be >= 1'',
        guard (hc_Fails h < 1) ''healthCheck.fails must be >= 1'']"

definition materialiseHealthCheck :: "apilib \<Rightarrow> healthCheckReq \<Rightarrow> healthCheckReq" where
  "materialiseHealthCheck A h =
     h\<lparr>hc_Method := toUpper A (if hc_Method h = [] then ''GET'' else hc_Method h),
       hc_Interval := (if hc_Interval h = [] then ''30s'' else hc_Interval h),
       hc_Timeout := (if hc_Timeout h = [] then ''5s'' else hc_Timeout h),
       hc_Passes := (if hc_Passes h = 0 then 1 else hc_Passes h),
       hc_Fails := (if hc_Fails h = 0 then 1 else hc_Fails h)\<rparr>"

text \<open>An enabled check of a request is completed and examined; a disabled one is taken as it is.\<close>

definition settle_health_check :: "apilib \<Rightarrow> healthCheckReq option \<Rightarrow> error + healthCheckReq option" where
  "settle_health_check A h =
     (case h of
        None \<Rightarrow> Inr None
      | Some hc \<Rightarrow>
          if hc_Enabled hc
          then (let m = materialiseHealthCheck A hc in checked (validateHealthCheck (ap_go A) m) (Some m))
          else Inr (Some hc))"

definition materialiseHealthNotify :: "healthNotifyReq option \<Rightarrow> HealthNotifyConfig \<Rightarrow> HealthNotifyConfig" where
  "materialiseHealthNotify req prev =
     (case req of None \<Rightarrow> prev | Some n \<Rightarrow> n\<lparr>hn_ChannelID := trimSpace (hn_ChannelID n)\<rparr>)"

section \<open>Country filter and rate limit\<close>

definition normaliseCodes :: "apilib \<Rightarrow> string list \<Rightarrow> string list" where
  "normaliseCodes A codes = map (\<lambda>c. toUpper A (trimSpace c)) codes"

definition materialiseCountryBlock :: "apilib \<Rightarrow> countryBlockReq \<Rightarrow> error + countryblock_Config" where
  "materialiseCountryBlock A req =
     (let cfg = \<lparr>cb_Mode = (if cb_Mode req = [] then ''off'' else cb_Mode req),
            cb_CountryList = normaliseCodes A (cb_CountryList req),
            cb_Continents = normaliseCodes A (cb_Continents req),
            cb_ASNs = cb_ASNs req,
            cb_Exceptions =
              (case cb_Exceptions req of
                 None \<Rightarrow> None
               | Some e \<Rightarrow>
                   if exc_Countries e = [] \<and> exc_ASNs e = [] then None
                   else Some \<lparr>exc_Countries = normaliseCodes A (exc_Countries e), exc_ASNs = exc_ASNs e\<rparr>),
            cb_StatusCode = cb_StatusCode req\<rparr>
      in checked (Config_Validate cfg) cfg)"

definition materialiseRateLimit :: "golib \<Rightarrow> rateLimitReq option \<Rightarrow> error + RouteRateLimit option" where
  "materialiseRateLimit L req =
     (case req of
        None \<Rightarrow> Inr None
      | Some rl \<Rightarrow>
          if rl_Events rl < 1 then Inl ''rateLimit.events must be >= 1''
          else if trimSpace (rl_Window rl) = [] then Inl ''rateLimit.window is required''
          else case lib_duration L (rl_Window rl) of
            None \<Rightarrow> Inl ''rateLimit.window invalid''
          | Some dur \<Rightarrow> if dur \<le> 0 then Inl ''rateLimit.window must be > 0'' else Inr (Some rl))"

section \<open>Firewall lists\<close>

definition normalize_tag :: "apilib \<Rightarrow> string \<Rightarrow> error + string" where
  "normalize_tag A raw =
     (let t = toLower (ap_go A) (trimSpace raw)
      in checked (first_error
           [guard (t = []) ''wafExcludeTags: empty tag entry'',
            guard (length t > 128) ''wafExcludeTags: tag too long'',
            guard (\<exists>c \<in> set t. byte_of c \<in> {32, 44, 9, 10, 13, 34}) ''wafExcludeTags: tag contains whitespace or comma'']) t)"

definition normalizeExcludeTags :: "apilib \<Rightarrow> string list \<Rightarrow> error + string list" where
  "normalizeExcludeTags A tags =
     (if length tags > 64 then Inl ''wafExcludeTags: too many tags''
      else map_sum id (\<lambda>ts. sort (remdups ts)) (all_ok (map (normalize_tag A) tags)))"

definition check_rule_id :: "int \<Rightarrow> error + int" where
  "check_rule_id i =
     (if i < 100000 \<or> i > 999999 then Inl ''wafExcludeRules: rule ID is out of range''
      else if i \<le> 199999 then Inl ''wafExcludeRules: rule ID is in the Arenet-reserved range'' else Inr i)"

definition normalizeExcludeRules :: "int list \<Rightarrow> error + int list" where
  "normalizeExcludeRules ids = map_sum id (\<lambda>is. sort (remdups is)) (all_ok (map check_rule_id ids))"

definition isProtectedWAFRule :: "int \<Rightarrow> bool" where
  "isProtectedWAFRule i \<longleftrightarrow> i div 1000 \<in> {901, 949, 959, 980}"

definition validateExcludableRuleID :: "int \<Rightarrow> error option" where
  "validateExcludableRuleID i =
     first_error [guard (i < 100000 \<or> i > 999999) ''rule ID is out of range'',
       guard (i \<le> 199999) ''rule ID is an Arenet rule'',
       guard (isProtectedWAFRule i) ''rule ID is a CRS initialization / blocking-evaluation rule'']"

definition hasControlChar :: "string \<Rightarrow> bool" where
  "hasControlChar s \<longleftrightarrow> (\<exists>c \<in> set s. byte_of c < 32 \<or> byte_of c = 127)"

definition wafTargetVariables :: "string list" where
  "wafTargetVariables = [''ARGS'', ''ARGS_GET'', ''ARGS_POST'', ''ARGS_NAMES'', ''REQUEST_COOKIES'', ''REQUEST_COOKIES_NAMES'',
     ''REQUEST_HEADERS'', ''REQUEST_HEADERS_NAMES'', ''FILES'', ''FILES_NAMES'']"

definition normalizeWAFTarget :: "apilib \<Rightarrow> string \<Rightarrow> error + string" where
  "normalizeWAFTarget A raw =
     (case indexByte (trimSpace raw) CHR '':'' of
        None \<Rightarrow> Inl ''target must be VARIABLE:name''
      | Some i \<Rightarrow>
          let variable = toUpper A (trimSpace (take i (trimSpace raw))); key = trimSpace (drop (Suc i) (trimSpace raw))
          in checked (first_error
               [guard (key = []) ''target must be VARIABLE:name'',
                guard (variable \<notin> set wafTargetVariables) ''target variable is not supported'',
                guard (length key > 128) ''target name too long'',
                guard (hasPrefix key ''/'') ''target name must not start with /'',
                guard ((\<exists>c \<in> set key. byte_of c \<in> {32, 9, 44, 59, 34, 39, 92, 124}) \<or> hasControlChar key) ''target name contains a forbidden character''])
               (variable @ '':'' @ key))"

definition check_exclusion_path :: "string \<Rightarrow> error option" where
  "check_exclusion_path path =
     (if path = [] then None
      else first_error
        [guard (\<not> hasPrefix path ''/'') ''path must start with /'',
         guard (length path > 512) ''path too long'',
         guard ((\<exists>c \<in> set path. byte_of c \<in> {32, 9, 34, 39, 92}) \<or> hasControlChar path) ''path contains a forbidden character''])"

definition normalizeTargetedExclusion :: "apilib \<Rightarrow> wafTargetedExclusionWire \<Rightarrow> error + WAFTargetedExclusion" where
  "normalizeTargetedExclusion A w =
     (case validateExcludableRuleID (wx_RuleID w) of
        Some e \<Rightarrow> Inl e
      | None \<Rightarrow>
          (case normalizeWAFTarget A (wx_Target w) of
             Inl e \<Rightarrow> Inl e
           | Inr target \<Rightarrow>
               let path = trimSpace (wx_Path w)
               in checked (check_exclusion_path path)
                    \<lparr>wx_RuleID = wx_RuleID w, wx_Target = target, wx_Path = path, wx_PathPrefix = (path \<noteq> [] \<and> wx_PathPrefix w)\<rparr>))"

text \<open>Sorting without duplicates by the total order of \<open>targetedExclusionLess\<close>.\<close>

definition exclusion_key :: "WAFTargetedExclusion \<Rightarrow> int \<times> string \<times> string \<times> bool" where
  "exclusion_key e = (wx_RuleID e, wx_Target e, wx_Path e, wx_PathPrefix e)"

definition normalizeTargetedExclusions :: "apilib \<Rightarrow> wafTargetedExclusionWire list \<Rightarrow> error + WAFTargetedExclusion list" where
  "normalizeTargetedExclusions A ws =
     (if length ws > 100 then Inl ''wafTargetedExclusions: too many exclusions''
      else map_sum id (\<lambda>es. sort_key exclusion_key (remdups es)) (all_ok (map (normalizeTargetedExclusion A) ws)))"

definition wafCustomOperators :: "(string \<times> (string \<times> bool) list) list" where
  "wafCustomOperators =
    [(''path'', [(''is'', True), (''begins_with'', True), (''contains'', True)]),
     (''method'', [(''is'', True), (''is_not'', True)]),
     (''user_agent'', [(''contains'', True), (''is'', True), (''missing'', False)]),
     (''header'', [(''present'', False), (''absent'', False), (''contains'', True), (''is'', True)])]"

definition wafHeaderNameRe :: "string \<Rightarrow> bool" where
  "wafHeaderNameRe h \<longleftrightarrow> h \<noteq> [] \<and> length h \<le> 64 \<and> list_all (\<lambda>c. is_alnum c \<or> c \<in> set ''_-'') h"

definition wafMethodRe :: "string \<Rightarrow> bool" where
  "wafMethodRe m \<longleftrightarrow> m \<noteq> [] \<and> length m \<le> 16 \<and> list_all (\<lambda>c. 65 \<le> byte_of c \<and> byte_of c \<le> 90) m"

definition normalize_value :: "apilib \<Rightarrow> WAFRuleCondition \<Rightarrow> string \<Rightarrow> error + string" where
  "normalize_value A c raw =
     (let t = trimSpace raw; v = (if wc_Field c = ''method'' then toUpper A t else t)
      in checked (first_error
           [guard (wc_Field c = ''method'' \<and> \<not> wafMethodRe v) ''method must be letters only'',
            guard (v = [] \<or> length v > 256) ''values must be 1..256 characters'',
            guard ((\<exists>x \<in> set v. byte_of x \<in> {34, 92}) \<or> hasControlChar v) ''value contains a forbidden character'',
            guard (wc_Field c = ''path'' \<and> wc_Operator c \<noteq> ''contains'' \<and> \<not> hasPrefix v ''/'') ''path must start with /'']) v)"

definition normalizeCondition :: "apilib \<Rightarrow> WAFRuleCondition \<Rightarrow> error + WAFRuleCondition" where
  "normalizeCondition A c =
     (case Option.bind (map_of wafCustomOperators (wc_Field c)) (\<lambda>ops. map_of ops (wc_Operator c)) of
        None \<Rightarrow> Inl ''unknown field or operator''
      | Some takesValues \<Rightarrow>
          let h = trimSpace (wc_Header c); isHeader = (wc_Field c = ''header'');
              out = \<lparr>wc_Field = wc_Field c, wc_Header = (if isHeader then h else []), wc_Operator = wc_Operator c, wc_Values = []\<rparr>
          in if isHeader \<and> \<not> wafHeaderNameRe h then Inl ''header name''
             else if \<not> takesValues then Inr out
             else if wc_Values c = [] \<or> length (wc_Values c) > (if wc_Field c = ''method'' then 10 else 20) then Inl ''number of values''
             else map_sum id (\<lambda>vs. out\<lparr>wc_Values := vs\<rparr>) (all_ok (map (normalize_value A c) (wc_Values c))))"

definition normalizeCustomRule :: "apilib \<Rightarrow> wafCustomRuleWire \<Rightarrow> error + WAFCustomRule" where
  "normalizeCustomRule A w =
     (let name = trimSpace (wr_Name w)
      in if name = [] \<or> length name > 64 then Inl ''name must be 1..64 characters''
         else if (\<exists>c \<in> set name. byte_of c \<in> {34, 39, 92}) \<or> hasControlChar name then Inl ''name contains a forbidden character''
         else if wr_Conditions w = [] \<or> length (wr_Conditions w) > 8 then Inl ''a rule needs 1..8 conditions''
         else map_sum id (\<lambda>cs. \<lparr>wr_ID = 0, wr_Name = name, wr_Disabled = wr_Disabled w, wr_Conditions = cs\<rparr>)
                (all_ok (map (normalizeCondition A) (wr_Conditions w))))"

definition CustomRuleMinID :: int where "CustomRuleMinID = 120000"
definition CustomRuleMaxID :: int where "CustomRuleMaxID = 129999"

definition next_rule_id :: "WAFCustomRule list \<Rightarrow> int" where
  "next_rule_id previous = fold (\<lambda>r n. if wr_ID r \<ge> n then wr_ID r + 1 else n) previous CustomRuleMinID"

fun assign_ids :: "apilib \<Rightarrow> int set \<Rightarrow> int \<Rightarrow> int set \<Rightarrow> wafCustomRuleWire list \<Rightarrow> error + WAFCustomRule list" where
  "assign_ids A known nxt seen [] = Inr []"
| "assign_ids A known nxt seen (w # ws) =
     (case normalizeCustomRule A w of
        Inl e \<Rightarrow> Inl e
      | Inr r \<Rightarrow>
          if wr_ID w = 0 then
            (if nxt > CustomRuleMaxID then Inl ''no rule ID left''
             else map_sum id (Cons (r\<lparr>wr_ID := nxt\<rparr>)) (assign_ids A known (nxt + 1) (insert nxt seen) ws))
          else if wr_ID w \<notin> known then Inl ''unknown rule id''
          else if wr_ID w \<in> seen then Inl ''duplicate rule id''
          else map_sum id (Cons (r\<lparr>wr_ID := wr_ID w\<rparr>)) (assign_ids A known nxt (insert (wr_ID w) seen) ws))"

definition normalizeCustomRules :: "apilib \<Rightarrow> wafCustomRuleWire list \<Rightarrow> WAFCustomRule list \<Rightarrow> error + WAFCustomRule list" where
  "normalizeCustomRules A ws previous =
     (if length ws > 50 then Inl ''wafCustomRules: too many rules''
      else assign_ids A (wr_ID ` set previous) (next_rule_id previous) {} ws)"

definition normalizeSecLang :: "golib \<Rightarrow> string \<Rightarrow> error + string" where
  "normalizeSecLang L t =
     (if trimSpace t = [] then Inr [] else checked (guard (\<not> lib_seclang L t) ''wafSecLang'') t)"

section \<open>Path rules\<close>

definition validatePathRuleUpstreams :: "apilib \<Rightarrow> pathRuleReq list \<Rightarrow> error option" where
  "validatePathRuleUpstreams A reqs =
     check_each (\<lambda>r.
       if pq_Upstreams r = [] then None
       else first_error
         [validateUpstreamPool A (map default_weight (pq_Upstreams r)),
          validateLBPolicy (if pq_LBPolicy r = [] then ''round_robin'' else pq_LBPolicy r),
          (case pq_HealthCheck r of
             None \<Rightarrow> None
           | Some hc \<Rightarrow> if hc_Enabled hc then validateHealthCheck (ap_go A) (materialiseHealthCheck A hc) else None)]) reqs"

datatype path_rule_error = PasswordUnmatched string | PathRuleInvalid | HashFailed

definition prevByPrefix :: "PathRule list \<Rightarrow> string \<Rightarrow> PathRule option" where
  "prevByPrefix existing = gm_get (fold (\<lambda>pr. gm_put (pr_PathPrefix pr) pr) existing [])"

definition path_auth :: "apilib \<Rightarrow> PathRule list \<Rightarrow> pathRuleReq \<Rightarrow> path_rule_error + BasicAuthRouteConfig option" where
  "path_auth A existing r =
     (case pq_BasicAuth r of
        None \<Rightarrow> Inr None
      | Some ba \<Rightarrow>
          if bq_Password ba = [] then
            (case Option.bind (prevByPrefix existing (pq_PathPrefix r)) pr_BasicAuth of
               None \<Rightarrow> Inl (PasswordUnmatched (pq_PathPrefix r))
             | Some prev \<Rightarrow>
                 if ba_PasswordHash prev = [] then Inl (PasswordUnmatched (pq_PathPrefix r))
                 else Inr (Some \<lparr>ba_Username = bq_Username ba, ba_PasswordHash = ba_PasswordHash prev\<rparr>))
          else
            (case ap_hash A (bq_Password ba) of
               None \<Rightarrow> Inl HashFailed
             | Some hash \<Rightarrow> Inr (Some \<lparr>ba_Username = bq_Username ba, ba_PasswordHash = hash\<rparr>)))"

definition path_health :: "apilib \<Rightarrow> healthCheckReq option \<Rightarrow> HealthCheck option" where
  "path_health A h =
     (case h of None \<Rightarrow> None | Some hc \<Rightarrow> if hc_Enabled hc then Some (materialiseHealthCheck A hc) else None)"

definition map_path_rule :: "apilib \<Rightarrow> PathRule list \<Rightarrow> pathRuleReq \<Rightarrow> path_rule_error + PathRule" where
  "map_path_rule A existing r =
     (case path_auth A existing r of
        Inl e \<Rightarrow> Inl e
      | Inr ba \<Rightarrow>
          (case materialiseRateLimit (ap_go A) (pq_RateLimit r) of
             Inl _ \<Rightarrow> Inl PathRuleInvalid
           | Inr rl \<Rightarrow>
               let pool = pq_Upstreams r
               in Inr \<lparr>pr_PathPrefix = pq_PathPrefix r, pr_BasicAuth = ba, pr_IPFilter = pq_IPFilter r,
                    pr_Upstreams = map default_weight pool,
                    pr_LBPolicy = (if pool = [] then [] else if pq_LBPolicy r = [] then ''round_robin'' else pq_LBPolicy r),
                    pr_HealthCheck = (if pool = [] then None else path_health A (pq_HealthCheck r)),
                    pr_InsecureSkipVerify = (pool \<noteq> [] \<and> pq_InsecureSkipVerify r),
                    pr_UpstreamTLSServerName = (if pool = [] then [] else pq_UpstreamTLSServerName r),
                    pr_MatchExact = pq_MatchExact r, pr_Redirect = pq_Redirect r, pr_ForwardAuth = pq_ForwardAuth r,
                    pr_DisableRouteAuth = pq_DisableRouteAuth r, pr_RateLimit = rl\<rparr>))"

definition mapPathRuleReqs :: "apilib \<Rightarrow> pathRuleReq list \<Rightarrow> PathRule list \<Rightarrow> path_rule_error + PathRule list" where
  "mapPathRuleReqs A reqs existing = all_ok (map (map_path_rule A existing) reqs)"

definition path_rule_resp :: "PathRule \<Rightarrow> pathRuleReq" where
  "path_rule_resp pr =
     (let pool = pr_Upstreams pr
      in \<lparr>pq_PathPrefix = pr_PathPrefix pr,
          pq_BasicAuth = map_option (\<lambda>ba. \<lparr>bq_Username = ba_Username ba, bq_Password = []\<rparr>) (pr_BasicAuth pr),
          pq_IPFilter = pr_IPFilter pr, pq_Upstreams = pool,
          pq_LBPolicy = (if pool = [] then [] else pr_LBPolicy pr),
          pq_HealthCheck = (if pool = [] then None else pr_HealthCheck pr),
          pq_InsecureSkipVerify = (pool \<noteq> [] \<and> pr_InsecureSkipVerify pr),
          pq_UpstreamTLSServerName = (if pool = [] then [] else pr_UpstreamTLSServerName pr),
          pq_MatchExact = pr_MatchExact pr, pq_Redirect = pr_Redirect pr, pq_RateLimit = pr_RateLimit pr,
          pq_ForwardAuth = pr_ForwardAuth pr, pq_DisableRouteAuth = pr_DisableRouteAuth pr\<rparr>)"

definition toPathRulesResp :: "PathRule list \<Rightarrow> pathRuleReq list" where
  "toPathRulesResp rules = map path_rule_resp rules"

end
