(* ===== verification/RouteRefs.thy ===== *)
theory RouteRefs
  imports RouteRequests AlertStore
begin

text \<open>
  What a route refers to: forward-auth providers (\<open>storage/forward_auth_provider.go\<close>), uploaded
  certificates (\<open>storage/external_cert.go\<close>), notification channels and DNS providers, with the
  checks the route handlers make of these references. Of a certificate the descriptive fields
  (issuer, subject, serial number, algorithms), which no operation reads, are left out.
\<close>

section \<open>Forward-auth providers\<close>

definition ForwardAuthProviderKinds :: "string list" where
  "ForwardAuthProviderKinds = [''authelia'', ''authentik'', ''keycloak'', ''generic'']"

definition providerNameRE :: "string \<Rightarrow> bool" where
  "providerNameRE s \<longleftrightarrow> s \<noteq> [] \<and> length s \<le> 32 \<and> list_all (\<lambda>c. 97 \<le> byte_of c \<and> byte_of c \<le> 122 \<or> is_digit c \<or> c = CHR ''-'') s"

definition FA_validate :: "ForwardAuthProvider \<Rightarrow> error option" where
  "FA_validate p =
     (let uri = fp_AuthRequestURI p; pre = fp_AuthPassthroughPrefix p
      in first_error
        [guard (\<not> providerNameRE (fp_Name p)) ''forward_auth_provider: name'',
         guard (fp_Kind p \<notin> set ForwardAuthProviderKinds) ''forward_auth_provider: kind'',
         guard (fp_VerifyURL p = []) ''forward_auth_provider: verify_url must not be empty'',
         guard (uri = []) ''forward_auth_provider: auth_request_uri must not be empty'',
         guard (uri \<noteq> [] \<and> hd uri \<noteq> CHR ''/'') ''forward_auth_provider: auth_request_uri must start with /'',
         guard (pre \<noteq> [] \<and> hd pre \<noteq> CHR ''/'') ''forward_auth_provider: auth_passthrough_prefix must start with /'',
         guard (\<exists>c \<in> set pre. byte_of c \<in> {32, 9, 10, 13}) ''forward_auth_provider: auth_passthrough_prefix must not contain whitespace'',
         guard (length pre > 256) ''forward_auth_provider: auth_passthrough_prefix too long''])"

definition CreateForwardAuthProvider ::
  "time \<Rightarrow> ForwardAuthProvider \<Rightarrow> ForwardAuthProvider bucket \<Rightarrow> ForwardAuthProvider bucket \<times> (store_error + ForwardAuthProvider)" where
  "CreateForwardAuthProvider now p0 b =
     (case FA_validate p0 of
        Some e \<Rightarrow> (b, Inl (ErrInvalid e))
      | None \<Rightarrow>
          let p = p0\<lparr>fp_CreatedAt := now, fp_UpdatedAt := now\<rparr>
          in if gm_get b (fp_Name p) \<noteq> None then (b, Inl ErrConflict) else (gm_put (fp_Name p) (Some p) b, Inr p))"

definition GetForwardAuthProvider :: "string \<Rightarrow> ForwardAuthProvider bucket \<Rightarrow> store_error + ForwardAuthProvider" where
  "GetForwardAuthProvider name b =
     (if name = [] then Inl (ErrInvalid ''forward_auth_provider: name must not be empty'') else bucket_get name b)"

definition ListForwardAuthProviders :: "ForwardAuthProvider bucket \<Rightarrow> store_error + ForwardAuthProvider list" where
  "ListForwardAuthProviders b = map_sum id (sort_key fp_CreatedAt) (bucket_list b)"

definition UpdateForwardAuthProvider ::
  "time \<Rightarrow> ForwardAuthProvider \<Rightarrow> ForwardAuthProvider bucket \<Rightarrow> ForwardAuthProvider bucket \<times> (store_error + ForwardAuthProvider)" where
  "UpdateForwardAuthProvider now p0 b =
     (case FA_validate p0 of
        Some e \<Rightarrow> (b, Inl (ErrInvalid e))
      | None \<Rightarrow>
          (case bucket_get (fp_Name p0) b of
             Inl e \<Rightarrow> (b, Inl e)
           | Inr existing \<Rightarrow>
               let p = p0\<lparr>fp_CreatedAt := fp_CreatedAt existing, fp_UpdatedAt := now\<rparr>
               in (gm_put (fp_Name p) (Some p) b, Inr p)))"

definition DeleteForwardAuthProvider :: "string \<Rightarrow> ForwardAuthProvider bucket \<Rightarrow> ForwardAuthProvider bucket \<times> store_error option" where
  "DeleteForwardAuthProvider name b =
     (if name = [] then (b, Some (ErrInvalid ''forward_auth_provider: name must not be empty'')) else bucket_delete name b)"

definition validateForwardAuthProvider :: "string \<Rightarrow> ForwardAuthProvider bucket \<Rightarrow> error option" where
  "validateForwardAuthProvider name b =
     (if name = [] then Some ''forwardAuth.providerName must not be empty''
      else case GetForwardAuthProvider name b of
        Inl ErrNotFound \<Rightarrow> Some ''forwardAuth.providerName does not match any configured forward-auth provider''
      | Inl _ \<Rightarrow> Some ''failed to verify forward-auth provider''
      | Inr _ \<Rightarrow> None)"

section \<open>Uploaded certificates\<close>

record ExternalCertificate =
  xc_ID :: string
  xc_Name :: string
  xc_CertPEM :: string
  xc_KeyPEM :: string
  xc_ChainPEM :: string
  xc_DNSNames :: "string list"
  xc_NotAfter :: time
  xc_Status :: string
  xc_CSRPEM :: string
  xc_CreatedAt :: time
  xc_UpdatedAt :: time

definition ListExternalCertificates :: "ExternalCertificate bucket \<Rightarrow> store_error + ExternalCertificate list" where
  "ListExternalCertificates b = bucket_list b"

definition GetExternalCertificate :: "string \<Rightarrow> ExternalCertificate bucket \<Rightarrow> store_error + ExternalCertificate" where
  "GetExternalCertificate k b = bucket_get k b"

definition CreateExternalCertificate ::
  "time \<Rightarrow> string \<Rightarrow> ExternalCertificate \<Rightarrow> ExternalCertificate bucket \<Rightarrow> ExternalCertificate bucket \<times> ExternalCertificate" where
  "CreateExternalCertificate now uuid c0 b =
     (let c = c0\<lparr>xc_ID := uuid, xc_CreatedAt := now, xc_UpdatedAt := now\<rparr> in (gm_put uuid (Some c) b, c))"

definition merge_certificate :: "time \<Rightarrow> string \<Rightarrow> ExternalCertificate \<Rightarrow> ExternalCertificate \<Rightarrow> ExternalCertificate" where
  "merge_certificate now k c existing =
     c\<lparr>xc_ID := k, xc_CreatedAt := xc_CreatedAt existing, xc_UpdatedAt := now,
       xc_KeyPEM := (if xc_KeyPEM c = [] then xc_KeyPEM existing else xc_KeyPEM c),
       xc_CertPEM := (if xc_CertPEM c = [] then xc_CertPEM existing else xc_CertPEM c)\<rparr>"

definition UpdateExternalCertificate ::
  "time \<Rightarrow> string \<Rightarrow> ExternalCertificate \<Rightarrow> ExternalCertificate bucket \<Rightarrow> ExternalCertificate bucket \<times> (store_error + ExternalCertificate)" where
  "UpdateExternalCertificate now k c b =
     (case bucket_get k b of
        Inl e \<Rightarrow> (b, Inl e)
      | Inr existing \<Rightarrow> let m = merge_certificate now k c existing in (gm_put k (Some m) b, Inr m))"

definition DeleteExternalCertificate :: "string \<Rightarrow> ExternalCertificate bucket \<Rightarrow> ExternalCertificate bucket \<times> store_error option" where
  "DeleteExternalCertificate k b = bucket_delete k b"

definition san_matches :: "golib \<Rightarrow> string \<Rightarrow> string \<Rightarrow> bool" where
  "san_matches L host san0 =
     (let san = toLower L (trimSuffix san0 ''.''); suffix = drop 1 san; label = take (length host - length suffix) host
      in san = host \<or> hasPrefix san ''*.'' \<and> hasSuffix host suffix \<and> label \<noteq> [] \<and> CHR ''.'' \<notin> set label)"

definition HostMatchesSAN :: "golib \<Rightarrow> string \<Rightarrow> string list \<Rightarrow> bool" where
  "HostMatchesSAN L host sans = list_ex (san_matches L (toLower L (trimSuffix host ''.''))) sans"

definition validateManualCertRef :: "golib \<Rightarrow> Route \<Rightarrow> ExternalCertificate bucket \<Rightarrow> error option" where
  "validateManualCertRef L r b =
     (if rt_CertSource r \<noteq> ''manual'' then None
      else if rt_CertID r = [] then Some ''cert_id_required''
      else case GetExternalCertificate (rt_CertID r) b of
        Inl _ \<Rightarrow> Some ''cert_not_found''
      | Inr cert \<Rightarrow>
          first_error [guard (xc_CertPEM cert = []) ''cert_not_ready'',
            guard (\<not> HostMatchesSAN L (rt_Host r) (xc_DNSNames cert)) ''host_not_covered_by_cert''])"

section \<open>Channels and DNS providers\<close>

definition validateHealthNotifyChannel :: "HealthNotifyConfig \<Rightarrow> Channel bucket \<Rightarrow> error option" where
  "validateHealthNotifyChannel hn b =
     (if \<not> hn_Enabled hn then None
      else case GetAlertChannel (hn_ChannelID hn) b of Inl _ \<Rightarrow> Some ''health_notify_channel_not_found'' | Inr _ \<Rightarrow> None)"

definition anyDNSProviderConfigured :: "DNSProviderConfig bucket \<Rightarrow> store_error + bool" where
  "anyDNSProviderConfigured b = map_sum id (list_ex ProviderConfigured) (ListDNSProviders b)"

section \<open>What the audit log keeps of a route\<close>

definition sensitiveHeaderNames :: "string list" where
  "sensitiveHeaderNames = [''authorization'', ''proxy-authorization'', ''cookie'', ''set-cookie'', ''x-api-key'', ''api-key'']"

definition sensitiveHeaderFragments :: "string list" where
  "sensitiveHeaderFragments = [''token'', ''secret'', ''password'', ''api-key'', ''apikey'']"

definition IsSensitiveHeader :: "golib \<Rightarrow> string \<Rightarrow> bool" where
  "IsSensitiveHeader L name =
     (let n = toLower L (trimSpace name)
      in n \<in> set sensitiveHeaderNames \<or> list_ex (containsStr n) sensitiveHeaderFragments)"

definition auditRedacted :: string where "auditRedacted = ''[redacted]''"

definition redactSensitiveHeaders :: "golib \<Rightarrow> (string, string) gomap \<Rightarrow> (string, string) gomap" where
  "redactSensitiveHeaders L h = map (\<lambda>(k, v). (k, if v \<noteq> [] \<and> IsSensitiveHeader L k then auditRedacted else v)) h"

definition audit_health :: "golib \<Rightarrow> HealthCheck \<Rightarrow> HealthCheck" where
  "audit_health L hc = hc\<lparr>hc_Headers := redactSensitiveHeaders L (hc_Headers hc)\<rparr>"

definition audit_path_rule :: "golib \<Rightarrow> PathRule \<Rightarrow> PathRule" where
  "audit_path_rule L pr =
     pr\<lparr>pr_BasicAuth := map_option (\<lambda>ba. ba\<lparr>ba_PasswordHash := []\<rparr>) (pr_BasicAuth pr),
        pr_HealthCheck := map_option (audit_health L) (pr_HealthCheck pr)\<rparr>"

definition routeForAudit :: "golib \<Rightarrow> Route \<Rightarrow> Route" where
  "routeForAudit L r =
     r\<lparr>rt_BasicAuth := (rt_BasicAuth r)\<lparr>ba_PasswordHash := []\<rparr>,
       rt_PathRules := map (audit_path_rule L) (rt_PathRules r),
       rt_RequestHeaders := redactSensitiveHeaders L (rt_RequestHeaders r),
       rt_ResponseHeaders := redactSensitiveHeaders L (rt_ResponseHeaders r),
       rt_HealthCheck := audit_health L (rt_HealthCheck r)\<rparr>"

end
