(* ===== verification/RouteHandlers.thy ===== *)
theory RouteHandlers
  imports RouteRefs
begin

text \<open>
  The handlers that change routes and managed domains (\<open>api/routes.go\<close>, \<open>api/route_check.go\<close>,
  \<open>api/waf_exclusions.go\<close>, \<open>api/managed_domain.go\<close>). Each takes the decoded body and gives the
  status of the answer, the new state and the audit events. The state holds the database and what
  Caddy was last loaded with. A reload (\<open>ReloadFromStore\<close>) reads the database and hands it to Caddy;
  it succeeds, is rejected, or times out: then the handler gets an error while the load goes on in
  the background with what it has read. Among checks that answer with the same status the order is
  not kept; the hint that the last encrypted route was disabled, which only the response carries,
  is left out.
\<close>

section \<open>State and reloads\<close>

record api_db =
  ad_dom :: domain_db
  ad_auth :: "ForwardAuthProvider bucket"
  ad_channels :: "Channel bucket"
  ad_certs :: "ExternalCertificate bucket"

record sys =
  sy_db :: api_db
  sy_live :: domain_db
  sy_pending :: "domain_db list"

abbreviation routes :: "sys \<Rightarrow> Route bucket" where "routes s \<equiv> db_routes (ad_dom (sy_db s))"

definition set_dom :: "domain_db \<Rightarrow> sys \<Rightarrow> sys" where
  "set_dom d s = s\<lparr>sy_db := (sy_db s)\<lparr>ad_dom := d\<rparr>\<rparr>"

definition set_routes :: "Route bucket \<Rightarrow> sys \<Rightarrow> sys" where
  "set_routes b s = set_dom ((ad_dom (sy_db s))\<lparr>db_routes := b\<rparr>) s"

datatype reload_result = Loaded | Rejected | TimedOut

definition ReloadFromStore :: "reload_result \<Rightarrow> sys \<Rightarrow> sys \<times> bool" where
  "ReloadFromStore R s =
     (let d = ad_dom (sy_db s)
      in case R of
           Loaded \<Rightarrow> (s\<lparr>sy_live := d\<rparr>, True)
         | Rejected \<Rightarrow> (s, False)
         | TimedOut \<Rightarrow> (s\<lparr>sy_pending := d # sy_pending s\<rparr>, False))"

text \<open>A load that was given up by its caller comes to its end.\<close>

definition late_load :: "nat \<Rightarrow> sys \<Rightarrow> sys" where
  "late_load i s =
     (if i < length (sy_pending s)
      then s\<lparr>sy_live := sy_pending s ! i, sy_pending := take i (sy_pending s) @ drop (Suc i) (sy_pending s)\<rparr> else s)"

record audit_entry =
  ae_Action :: string
  ae_TargetID :: string
  ae_Before :: "Route option"
  ae_After :: "Route option"

type_synonym answer = "sys \<times> int \<times> audit_entry list"

definition route_event :: "golib \<Rightarrow> string \<Rightarrow> string \<Rightarrow> Route option \<Rightarrow> Route option \<Rightarrow> audit_entry" where
  "route_event L act k before after =
     \<lparr>ae_Action = act, ae_TargetID = k, ae_Before = map_option (routeForAudit L) before, ae_After = map_option (routeForAudit L) after\<rparr>"

section \<open>Sequencing of checks\<close>

definition andThen :: "'e + 'a \<Rightarrow> ('a \<Rightarrow> 'e + 'b) \<Rightarrow> 'e + 'b" where
  "andThen m f = (case m of Inl e \<Rightarrow> Inl e | Inr a \<Rightarrow> f a)"

definition reject :: "int \<Rightarrow> 'e option \<Rightarrow> int + unit" where
  "reject st e = (case e of None \<Rightarrow> Inr () | Some _ \<Rightarrow> Inl st)"

definition or_status :: "int \<Rightarrow> 'e + 'a \<Rightarrow> int + 'a" where
  "or_status st m = (case m of Inl _ \<Rightarrow> Inl st | Inr a \<Rightarrow> Inr a)"

definition found_status :: "store_error \<Rightarrow> int" where
  "found_status e = (if e = ErrNotFound then 404 else 500)"

lemma andThen_Inr [simp]: "andThen m f = Inr y \<longleftrightarrow> (\<exists>x. m = Inr x \<and> f x = Inr y)"
  by (cases m) (auto simp: andThen_def)

lemma reject_Inr [simp]: "reject st e = Inr u \<longleftrightarrow> e = None"
  by (cases e) (auto simp: reject_def)

lemma or_status_Inr [simp]: "or_status st m = Inr x \<longleftrightarrow> m = Inr x"
  by (cases m) (auto simp: or_status_def)

section \<open>From request to route\<close>

text \<open>The parts that both handlers settle before they touch the route: challenge, probe, country filter, password.\<close>

definition dns01_gate :: "string \<Rightarrow> DNSProviderConfig bucket \<Rightarrow> int + unit" where
  "dns01_gate challenge b =
     (if challenge \<noteq> ''dns-01'' then Inr ()
      else andThen (or_status 500 (anyDNSProviderConfigured b))
        (\<lambda>configured. reject 400 (guard (\<not> configured) ''acmeChallenge dns-01 requires a configured DNS provider'')))"

definition settle_challenge :: "golib \<Rightarrow> domain_db \<Rightarrow> routeRequest \<Rightarrow> int + string" where
  "settle_challenge L d req =
     andThen (or_status 500 (ListManagedDomains (db_domains d))) (\<lambda>mds.
     andThen (or_status 400 (reconcileManagedDomainCoverage L
       (if rq_ACMEChallenge req = [] then ''http-01'' else rq_ACMEChallenge req) (rq_UseDedicatedCert req) (rq_Host req) (rq_Aliases req) mds)) (\<lambda>challenge.
     andThen (reject 400 (validateACMEChallenge challenge (rq_Host req) (rq_Aliases req))) (\<lambda>_.
     andThen (dns01_gate challenge (db_providers d)) (\<lambda>_. Inr challenge))))"

definition settle_country :: "apilib \<Rightarrow> routeRequest \<Rightarrow> Route \<Rightarrow> error + countryblock_Config" where
  "settle_country A req prev =
     (case rq_CountryBlock req of None \<Rightarrow> Inr (rt_CountryBlock prev) | Some cb \<Rightarrow> materialiseCountryBlock A cb)"

definition settle_password :: "apilib \<Rightarrow> routeRequest \<Rightarrow> Route \<Rightarrow> error + string" where
  "settle_password A req prev =
     (if rq_AuthMode req \<noteq> ''basic'' then Inr []
      else if bq_Password (rq_BasicAuth req) \<noteq> []
      then (case ap_hash A (bq_Password (rq_BasicAuth req)) of None \<Rightarrow> Inl ''failed to hash password'' | Some h \<Rightarrow> Inr h)
      else Inr (ba_PasswordHash (rt_BasicAuth prev)))"

record settled =
  st_challenge :: string
  st_health :: "healthCheckReq option"
  st_country :: countryblock_Config
  st_hash :: string

definition settle :: "apilib \<Rightarrow> domain_db \<Rightarrow> routeRequest \<Rightarrow> Route \<Rightarrow> int + settled" where
  "settle A d req prev =
     andThen (settle_challenge (ap_go A) d req) (\<lambda>challenge.
     andThen (or_status 400 (settle_health_check A (rq_HealthCheck req))) (\<lambda>hc.
     andThen (or_status 400 (settle_country A req prev)) (\<lambda>cb.
     andThen (or_status 500 (settle_password A req prev)) (\<lambda>hash.
     Inr \<lparr>st_challenge = challenge, st_health = hc, st_country = cb, st_hash = hash\<rparr>))))"

text \<open>A field the request leaves out keeps what the previous row has; on a create that row is the zero value.\<close>

definition or_prev :: "'a option \<Rightarrow> 'a \<Rightarrow> 'a" where
  "or_prev x prev = (case x of None \<Rightarrow> prev | Some v \<Rightarrow> v)"

definition tls_server_name :: "routeRequest \<Rightarrow> Route \<Rightarrow> bool \<Rightarrow> string" where
  "tls_server_name req prev https =
     (let n = (case rq_UpstreamTLSServerName req of None \<Rightarrow> rt_UpstreamTLSServerName prev | Some v \<Rightarrow> trimSpace v)
      in if https then n else [])"

record waf_lists =
  wl_rules :: "int list"
  wl_tags :: "string list"
  wl_targeted :: "WAFTargetedExclusion list"
  wl_custom :: "WAFCustomRule list"
  wl_seclang :: string

definition settle_waf :: "apilib \<Rightarrow> routeRequest \<Rightarrow> Route \<Rightarrow> error + waf_lists" where
  "settle_waf A req prev =
     andThen (case rq_WAFExcludeRules req of None \<Rightarrow> Inr (rt_WAFExcludeRules prev) | Some v \<Rightarrow> normalizeExcludeRules v) (\<lambda>rules.
     andThen (case rq_WAFExcludeTags req of None \<Rightarrow> Inr (rt_WAFExcludeTags prev) | Some v \<Rightarrow> normalizeExcludeTags A v) (\<lambda>tags.
     andThen (case rq_WAFTargetedExclusions req of None \<Rightarrow> Inr (rt_WAFTargetedExclusions prev) | Some v \<Rightarrow> normalizeTargetedExclusions A v) (\<lambda>targeted.
     andThen (case rq_WAFCustomRules req of None \<Rightarrow> Inr (rt_WAFCustomRules prev) | Some v \<Rightarrow> normalizeCustomRules A v (rt_WAFCustomRules prev)) (\<lambda>custom.
     andThen (case rq_WAFSecLang req of None \<Rightarrow> Inr (rt_WAFSecLang prev) | Some v \<Rightarrow> normalizeSecLang (ap_go A) v) (\<lambda>seclang.
     Inr \<lparr>wl_rules = rules, wl_tags = tags, wl_targeted = targeted, wl_custom = custom, wl_seclang = seclang\<rparr>)))))"

definition settle_rate_limit :: "golib \<Rightarrow> routeRequest \<Rightarrow> Route \<Rightarrow> error + RouteRateLimit option" where
  "settle_rate_limit L req prev =
     (if rq_ClearRateLimit req then Inr None
      else if rq_RateLimit req = None then Inr (rt_RateLimit prev)
      else materialiseRateLimit L (rq_RateLimit req))"

definition path_status :: "path_rule_error \<Rightarrow> int" where
  "path_status e = (case e of HashFailed \<Rightarrow> 500 | _ \<Rightarrow> 400)"

definition settle_path_rules :: "apilib \<Rightarrow> routeRequest \<Rightarrow> Route \<Rightarrow> int + PathRule list" where
  "settle_path_rules A req prev = map_sum path_status id (mapPathRuleReqs A (rq_PathRules req) (rt_PathRules prev))"

definition route_of_request ::
  "apilib \<Rightarrow> api_db \<Rightarrow> string \<Rightarrow> routeRequest \<Rightarrow> Route \<Rightarrow> settled \<Rightarrow> MaintenanceConfig option \<Rightarrow> RedirectConfig option \<Rightarrow> int + Route" where
  "route_of_request A db k req prev st maintenance redirect =
     (let https = (case rq_Upstreams req of [] \<Rightarrow> False | u # _ \<Rightarrow> upstreamScheme (up_URL u) = ''https'');
          name = tls_server_name req prev https;
          hn = materialiseHealthNotify (rq_HealthNotify req) (rt_HealthNotify prev)
      in
     andThen (reject 400 (ValidateUpstreamTLSServerName name)) (\<lambda>_.
     andThen (or_status 400 (settle_waf A req prev)) (\<lambda>waf.
     andThen (or_status 400 (settle_rate_limit (ap_go A) req prev)) (\<lambda>rl.
     andThen (reject 400 (validatePathRuleUpstreams A (rq_PathRules req))) (\<lambda>_.
     andThen (settle_path_rules A req prev) (\<lambda>rules.
     andThen (reject 400 (validateHealthNotifyChannel hn (ad_channels db))) (\<lambda>_.
     let r =
       \<lparr>rt_ID = k, rt_Host = rq_Host req, rt_Upstreams = rq_Upstreams req, rt_LBPolicy = rq_LBPolicy req,
        rt_TLSEnabled = rq_TLSEnabled req, rt_RedirectToHTTPS = (rq_TLSEnabled req \<and> rq_RedirectToHTTPS req),
        rt_Aliases = rq_Aliases req, rt_AuthMode = rq_AuthMode req,
        rt_BasicAuth = (if rq_AuthMode req = ''basic''
          then \<lparr>ba_Username = bq_Username (rq_BasicAuth req), ba_PasswordHash = st_hash st\<rparr> else rt_BasicAuth prev),
        rt_ForwardAuth = (if rq_AuthMode req = ''forward_auth'' then rq_ForwardAuth req else \<lparr>fa_ProviderName = []\<rparr>),
        rt_RequestHeaders = rq_RequestHeaders req, rt_ResponseHeaders = rq_ResponseHeaders req,
        rt_WAFMode = rq_WAFMode req, rt_ACMEChallenge = st_challenge st, rt_UseDedicatedCert = rq_UseDedicatedCert req,
        rt_HealthCheck = or_prev (st_health st) (rt_HealthCheck prev), rt_HealthNotify = hn, rt_CountryBlock = st_country st,
        rt_IPFilter = (if rq_IPFilter req = None then rt_IPFilter prev else rq_IPFilter req), rt_PathRules = rules,
        rt_InsecureSkipVerify = (https \<and> or_prev (rq_InsecureSkipVerify req) (rt_InsecureSkipVerify prev)),
        rt_UpstreamTLSServerName = name,
        rt_UploadStreamingMode = or_prev (rq_UploadStreamingMode req) (rt_UploadStreamingMode prev),
        rt_ResponseStreamingMode = or_prev (rq_ResponseStreamingMode req) (rt_ResponseStreamingMode prev),
        rt_WAFDisableCRS = or_prev (rq_WAFDisableCRS req) (rt_WAFDisableCRS prev),
        rt_WAFExcludeRules = wl_rules waf, rt_WAFExcludeTags = wl_tags waf, rt_WAFTargetedExclusions = wl_targeted waf,
        rt_WAFCustomRules = wl_custom waf, rt_WAFSecLang = wl_seclang waf, rt_RateLimit = rl,
        rt_ErrorPageTemplateID = rq_ErrorPageTemplateID req, rt_ErrorPageOverrides = rq_ErrorPageOverrides req,
        rt_CreatedAt = zero_time, rt_UpdatedAt = zero_time,
        rt_Disabled = or_prev (rq_Disabled req) (rt_Disabled prev),
        rt_MaintenanceConfig = maintenance, rt_RedirectConfig = redirect,
        rt_CertSource = rq_CertSource req, rt_CertID = rq_CertID req\<rparr>
     in andThen (reject 400 (validateManualCertRef (ap_go A) r (ad_certs db))) (\<lambda>_. Inr r))))))))"

text \<open>The checks of the body that precede: on a create with fixed defaults, on an update with those of the row.\<close>

definition auth_checks :: "routeRequest \<Rightarrow> string \<Rightarrow> ForwardAuthProvider bucket \<Rightarrow> error option" where
  "auth_checks req existingHash b =
     first_error
       [validateAuthMode (rq_AuthMode req), validateAuthFieldsMutex req,
        (if rq_AuthMode req = ''basic'' then validateBasicAuth req existingHash else None),
        (if rq_AuthMode req = ''forward_auth'' then validateForwardAuthProvider (fa_ProviderName (rq_ForwardAuth req)) b else None)]"

definition pool_checks :: "apilib \<Rightarrow> routeRequest \<Rightarrow> error option" where
  "pool_checks A req =
     first_error [validateHost (rq_Host req), validateUpstreamPoolAllowingEmpty A (rq_Upstreams req) (rq_RedirectConfig req \<noteq> None),
       validateAliasesStructural (rq_Host req) (rq_Aliases req)]"

definition mode_checks :: "golib \<Rightarrow> routeRequest \<Rightarrow> error option" where
  "mode_checks L req =
     first_error [validateHeaders L (rq_RequestHeaders req), validateHeaders L (rq_ResponseHeaders req),
       validateLBPolicy (rq_LBPolicy req), validateWAFMode (rq_WAFMode req)]"

definition if_empty :: "string \<Rightarrow> string \<Rightarrow> string" where
  "if_empty s d = (if s = [] then d else s)"

definition with_defaults :: "string \<Rightarrow> string \<Rightarrow> string \<Rightarrow> routeRequest \<Rightarrow> routeRequest" where
  "with_defaults lb auth waf req =
     req\<lparr>rq_Upstreams := map default_weight (rq_Upstreams req), rq_LBPolicy := if_empty (rq_LBPolicy req) lb,
         rq_AuthMode := if_empty (rq_AuthMode req) auth, rq_WAFMode := if_empty (rq_WAFMode req) waf\<rparr>"

definition taken :: "string list \<Rightarrow> (string, string) gomap \<Rightarrow> bool" where
  "taken hosts owners \<longleftrightarrow> list_ex (\<lambda>h. gm_get owners h \<noteq> None) hosts"

section \<open>Creating a route\<close>

definition new_route :: "apilib \<Rightarrow> api_db \<Rightarrow> routeRequest \<Rightarrow> int + Route" where
  "new_route A db req0 =
     (let req = with_defaults ''round_robin'' ''none'' ''detect'' req0
      in
     andThen (reject 400 (first_error [pool_checks A req, auth_checks req [] (ad_auth db), mode_checks (ap_go A) req])) (\<lambda>_.
     andThen (settle A (ad_dom db) req zero_route) (\<lambda>st.
     andThen (or_status 500 (ListRoutes (db_routes (ad_dom db)))) (\<lambda>existing.
     andThen (route_of_request A db [] req zero_route st (rq_MaintenanceConfig req) (rq_RedirectConfig req)) (\<lambda>r.
     andThen (reject 409 (guard (taken (AllHosts r) (collectAllHostsExcept existing [])) ''hostname already configured'')) (\<lambda>_.
     andThen (reject 400 (validate (ap_go A) r)) (\<lambda>_. Inr r)))))))"

definition createRoute ::
  "apilib \<Rightarrow> (nat \<Rightarrow> reload_result) \<Rightarrow> time \<Rightarrow> string \<Rightarrow> routeRequest \<Rightarrow> sys \<Rightarrow> answer" where
  "createRoute A R now uuid req s =
     (case new_route A (sy_db s) req of
        Inl st \<Rightarrow> (s, st, [])
      | Inr r \<Rightarrow>
          (case CreateRoute (ap_go A) now uuid r (routes s) of
             (_, Inl _) \<Rightarrow> (s, 500, [])
           | (b, Inr created) \<Rightarrow>
               (case ReloadFromStore (R 0) (set_routes b s) of
                  (s1, True) \<Rightarrow> (s1, 201, [route_event (ap_go A) ''route_created'' (rt_ID created) None (Some created)])
                | (s1, False) \<Rightarrow> (set_routes (fst (DeleteRoute (rt_ID created) (routes s1))) s1, 500, []))))"

section \<open>The check after an update\<close>

datatype check_status = StatusOK | StatusFailed | StatusPendingCertificate | StatusSkipped

text \<open>The setting is \<open>None\<close> when it cannot be read; the prober is absent until it is installed.\<close>

definition checkRoute :: "bool option \<Rightarrow> (Route \<Rightarrow> check_status) option \<Rightarrow> Route \<Rightarrow> check_status" where
  "checkRoute cfg prober r =
     (case prober of
        None \<Rightarrow> StatusSkipped
      | Some probe \<Rightarrow> (case cfg of Some True \<Rightarrow> probe r | _ \<Rightarrow> StatusSkipped))"

text \<open>Storing a row again and reloading, as \<open>reapply\<close> does; the second component is an error.\<close>

definition reapply :: "golib \<Rightarrow> reload_result \<Rightarrow> time \<Rightarrow> Route \<Rightarrow> sys \<Rightarrow> sys \<times> bool" where
  "reapply L R now updated s =
     (case UpdateRoute L now updated (routes s) of
        (_, Inl _) \<Rightarrow> (s, True)
      | (b, Inr _) \<Rightarrow> (case ReloadFromStore R (set_routes b s) of (s1, ok) \<Rightarrow> (s1, \<not> ok)))"

definition rollbackIfItFixes ::
  "golib \<Rightarrow> (nat \<Rightarrow> reload_result) \<Rightarrow> time \<Rightarrow> (Route \<Rightarrow> check_status) \<Rightarrow> Route \<Rightarrow> Route \<Rightarrow> sys \<Rightarrow> sys \<times> bool" where
  "rollbackIfItFixes L R now check previous updated s =
     (case UpdateRoute L now previous (routes s) of
        (_, Inl _) \<Rightarrow> (s, False)
      | (b, Inr _) \<Rightarrow>
          (case ReloadFromStore (R 1) (set_routes b s) of
             (s1, False) \<Rightarrow> (fst (reapply L (R 2) now updated s1), False)
           | (s1, True) \<Rightarrow>
               if check previous = StatusOK then (s1, True)
               else (fst (reapply L (R 2) now updated s1), False)))"

section \<open>Updating a route\<close>

definition next_maintenance :: "routeRequest \<Rightarrow> Route \<Rightarrow> MaintenanceConfig option" where
  "next_maintenance req prev =
     (if rq_RedirectConfig req \<noteq> None then None
      else if rq_MaintenanceConfig req \<noteq> None then rq_MaintenanceConfig req
      else if rq_Disabled req = Some False then None else rt_MaintenanceConfig prev)"

definition next_redirect :: "routeRequest \<Rightarrow> Route \<Rightarrow> RedirectConfig option" where
  "next_redirect req prev =
     (if rq_MaintenanceConfig req \<noteq> None then None
      else if rq_RedirectConfig req \<noteq> None then rq_RedirectConfig req
      else if rq_Disabled req = Some False then None else rt_RedirectConfig prev)"

definition host_gate :: "api_db \<Rightarrow> string \<Rightarrow> Route \<Rightarrow> Route \<Rightarrow> int + unit" where
  "host_gate db k r prev =
     (if AllHosts r = AllHosts prev then Inr ()
      else andThen (or_status 500 (ListRoutes (db_routes (ad_dom db)))) (\<lambda>existing.
        reject 409 (guard (taken (AllHosts r) (collectAllHostsExcept existing k)) ''hostname already configured'')))"

definition changed_route :: "apilib \<Rightarrow> api_db \<Rightarrow> string \<Rightarrow> routeRequest \<Rightarrow> int + (Route \<times> Route)" where
  "changed_route A db k req0 =
     andThen (reject 400 (pool_checks A (with_defaults [] [] [] req0))) (\<lambda>_.
     andThen (map_sum found_status id (GetRoute k (db_routes (ad_dom db)))) (\<lambda>prev.
     let req = with_defaults (if_empty (rt_LBPolicy prev) ''round_robin'') (if_empty (rt_AuthMode prev) ''none'') (if_empty (rt_WAFMode prev) ''off'') req0
     in
     andThen (reject 400 (first_error [auth_checks req (ba_PasswordHash (rt_BasicAuth prev)) (ad_auth db), mode_checks (ap_go A) req])) (\<lambda>_.
     andThen (settle A (ad_dom db) req prev) (\<lambda>st.
     andThen (route_of_request A db k req prev st (next_maintenance req prev) (next_redirect req prev)) (\<lambda>r.
     andThen (host_gate db k r prev) (\<lambda>_.
     andThen (reject 400 (validate (ap_go A) r)) (\<lambda>_. Inr (r, prev))))))))"

definition updateRoute ::
  "apilib \<Rightarrow> (nat \<Rightarrow> reload_result) \<Rightarrow> time \<Rightarrow> (Route \<Rightarrow> check_status) \<Rightarrow> string \<Rightarrow> routeRequest \<Rightarrow> sys \<Rightarrow> answer" where
  "updateRoute A R now check k req s =
     (case changed_route A (sy_db s) k req of
        Inl st \<Rightarrow> (s, st, [])
      | Inr (r, previous) \<Rightarrow>
          (case UpdateRoute (ap_go A) now r (routes s) of
             (_, Inl _) \<Rightarrow> (s, 500, [])
           | (b, Inr updated) \<Rightarrow>
               (case ReloadFromStore (R 0) (set_routes b s) of
                  (s1, False) \<Rightarrow> (set_routes (fst (UpdateRoute (ap_go A) now previous (routes s1))) s1, 500, [])
                | (s1, True) \<Rightarrow>
                    let evt = route_event (ap_go A) ''route_updated'' k (Some previous) (Some updated)
                    in if check updated \<noteq> StatusFailed then (s1, 200, [evt])
                       else (case rollbackIfItFixes (ap_go A) R now check previous updated s1 of
                               (s2, True) \<Rightarrow> (s2, 409, [evt, route_event (ap_go A) ''route_update_rolled_back'' (rt_ID updated) (Some updated) (Some previous)])
                             | (s2, False) \<Rightarrow> (s2, 200, [evt])))))"

section \<open>Short updates\<close>

text \<open>Read the row, change it, store it, reload, and store the row that was read when the reload fails.\<close>

definition change_row ::
  "golib \<Rightarrow> reload_result \<Rightarrow> time \<Rightarrow> string \<Rightarrow> string \<Rightarrow> (Route \<Rightarrow> int + Route) \<Rightarrow> sys \<Rightarrow> answer" where
  "change_row L R now act k f s =
     (case GetRoute k (routes s) of
        Inl e \<Rightarrow> (s, found_status e, [])
      | Inr previous \<Rightarrow>
          (case f previous of
             Inl st \<Rightarrow> (s, st, [])
           | Inr r \<Rightarrow>
               (case UpdateRoute L now r (routes s) of
                  (_, Inl _) \<Rightarrow> (s, 500, [])
                | (b, Inr updated) \<Rightarrow>
                    (case ReloadFromStore R (set_routes b s) of
                       (s1, True) \<Rightarrow> (s1, 200, [route_event L act k (Some previous) (Some updated)])
                     | (s1, False) \<Rightarrow> (set_routes (fst (UpdateRoute L now previous (routes s1))) s1, 500, [])))))"

definition toggleRouteDisabled :: "golib \<Rightarrow> reload_result \<Rightarrow> time \<Rightarrow> string \<Rightarrow> bool \<Rightarrow> sys \<Rightarrow> answer" where
  "toggleRouteDisabled L R now k disabled s =
     change_row L R now (if disabled then ''route_disabled'' else ''route_enabled'') k
       (\<lambda>r. Inr (r\<lparr>rt_Disabled := disabled, rt_MaintenanceConfig := None\<rparr>)) s"

definition defaultMaintenanceRetryAfterSeconds :: int where "defaultMaintenanceRetryAfterSeconds = 300"

definition maintenance_row :: "bool \<Rightarrow> Route \<Rightarrow> Route" where
  "maintenance_row on r =
     (if on
      then r\<lparr>rt_MaintenanceConfig := Some (or_prev (rt_MaintenanceConfig r)
               \<lparr>mc_RetryAfterSeconds = defaultMaintenanceRetryAfterSeconds, mc_BypassIPs = [], mc_Message = []\<rparr>), rt_Disabled := False\<rparr>
      else r\<lparr>rt_MaintenanceConfig := None\<rparr>)"

definition toggleRouteMaintenance :: "golib \<Rightarrow> reload_result \<Rightarrow> time \<Rightarrow> string \<Rightarrow> bool \<Rightarrow> sys \<Rightarrow> answer" where
  "toggleRouteMaintenance L R now k on s =
     change_row L R now (if on then ''route_maintenance_on'' else ''route_maintenance_off'') k (\<lambda>r. Inr (maintenance_row on r)) s"

definition withWAFExclusion :: "apilib \<Rightarrow> Route \<Rightarrow> wafTargetedExclusionWire \<Rightarrow> int + Route" where
  "withWAFExclusion A r req =
     (if trimSpace (wx_Target req) = [] then
        andThen (reject 400 (validateExcludableRuleID (wx_RuleID req))) (\<lambda>_.
        andThen (reject 409 (guard (wx_RuleID req \<in> set (rt_WAFExcludeRules r)) ''this exclusion already exists'')) (\<lambda>_.
        andThen (or_status 400 (normalizeExcludeRules (rt_WAFExcludeRules r @ [wx_RuleID req]))) (\<lambda>rules.
        Inr (r\<lparr>rt_WAFExcludeRules := rules\<rparr>))))
      else
        andThen (or_status 400 (normalizeTargetedExclusion A req)) (\<lambda>e.
        andThen (reject 409 (guard (e \<in> set (rt_WAFTargetedExclusions r)) ''this exclusion already exists'')) (\<lambda>_.
        andThen (or_status 400 (normalizeTargetedExclusions A (rt_WAFTargetedExclusions r @ [e]))) (\<lambda>es.
        Inr (r\<lparr>rt_WAFTargetedExclusions := es\<rparr>)))))"

definition addWAFExclusion :: "apilib \<Rightarrow> reload_result \<Rightarrow> time \<Rightarrow> string \<Rightarrow> wafTargetedExclusionWire \<Rightarrow> sys \<Rightarrow> answer" where
  "addWAFExclusion A R now k req s = change_row (ap_go A) R now ''route_updated'' k (\<lambda>r. withWAFExclusion A r req) s"

section \<open>Deleting a route\<close>

definition deleteRoute :: "golib \<Rightarrow> reload_result \<Rightarrow> string \<Rightarrow> sys \<Rightarrow> answer" where
  "deleteRoute L R k s =
     (case GetRoute k (routes s) of
        Inl e \<Rightarrow> (s, found_status e, [])
      | Inr previous \<Rightarrow>
          (case DeleteRoute k (routes s) of
             (_, Some _) \<Rightarrow> (s, 500, [])
           | (b, None) \<Rightarrow>
               (case ReloadFromStore R (set_routes b s) of
                  (s1, True) \<Rightarrow> (s1, 204, [route_event L ''route_deleted'' k (Some previous) None])
                | (s1, False) \<Rightarrow> (set_routes (fst (RestoreRoute previous (routes s1))) s1, 500, []))))"

section \<open>Managed domains\<close>

definition domain_event :: "string \<Rightarrow> string \<Rightarrow> audit_entry" where
  "domain_event act apex = \<lparr>ae_Action = act, ae_TargetID = apex, ae_Before = None, ae_After = None\<rparr>"

definition provider_gate :: "string \<Rightarrow> DNSProviderConfig bucket \<Rightarrow> int + unit" where
  "provider_gate providerID b =
     (if providerID = [] then Inr ()
      else case GetDNSProvider providerID b of Inl ErrNotFound \<Rightarrow> Inl 400 | Inl _ \<Rightarrow> Inl 500 | Inr _ \<Rightarrow> Inr ())"

definition new_domain :: "golib \<Rightarrow> managedDomainRequest \<Rightarrow> domain_db \<Rightarrow> int + ManagedDomain" where
  "new_domain L req d =
     (let providerID = request_provider req (db_providers d);
          md = \<lparr>md_Apex = NormalizeApex L (mq_Apex req), md_IncludeApex = or_prev (mq_IncludeApex req) True, md_ProviderID = providerID\<rparr>
      in
     andThen (provider_gate providerID (db_providers d)) (\<lambda>_.
     andThen (or_status 500 (ListManagedDomains (db_domains d))) (\<lambda>existing.
     andThen (reject 409 (guard (list_ex (overlaps L md) existing) ''managed domain overlaps'')) (\<lambda>_. Inr md))))"

definition createManagedDomain ::
  "golib \<Rightarrow> reload_result \<Rightarrow> time \<Rightarrow> managedDomainRequest \<Rightarrow> sys \<Rightarrow> answer" where
  "createManagedDomain L R now req s =
     (let d = ad_dom (sy_db s)
      in case new_domain L req d of
           Inl st \<Rightarrow> (s, st, [])
         | Inr md \<Rightarrow>
             (case PutManagedDomainWithRouteMigration L now md (coveredBy L md) d of
                (_, Inl _) \<Rightarrow> (s, 400, [])
              | (d1, Inr _) \<Rightarrow>
                  (case ReloadFromStore R (set_dom d1 s) of
                     (s1, True) \<Rightarrow> (s1, 201, [domain_event ''managed_domain_created'' (md_Apex md)])
                   | (s1, False) \<Rightarrow>
                       (set_dom (fst (DeleteManagedDomainWithRouteMigration L now (md_Apex md) (coveredBy L md) d1)) s1, 500, []))))"

definition deleteManagedDomain ::
  "golib \<Rightarrow> reload_result \<Rightarrow> time \<Rightarrow> string \<Rightarrow> string \<Rightarrow> sys \<Rightarrow> answer" where
  "deleteManagedDomain L R now apexParam revertTo s =
     (let d = ad_dom (sy_db s); apex = NormalizeApex L apexParam
      in if apex = [] then (s, 400, [])
         else if revertTo \<notin> {[], ''http-01'', ''dns-01''} then (s, 400, [])
         else case GetManagedDomain L apex (db_domains d) of
           Inl e \<Rightarrow> (s, found_status e, [])
         | Inr previous \<Rightarrow>
             (case DeleteManagedDomainWithRouteMigrationRevertTo L now apex (coveredBy L previous) revertTo d of
                (_, Inl e) \<Rightarrow> (s, found_status e, [])
              | (d1, Inr _) \<Rightarrow>
                  (case ReloadFromStore R (set_dom d1 s) of
                     (s1, True) \<Rightarrow> (s1, 200, [domain_event ''managed_domain_deleted'' apex])
                   | (s1, False) \<Rightarrow>
                       (set_dom (fst (PutManagedDomainWithRouteMigration L now previous (coveredBy L previous) d1)) s1, 500, []))))"

end
