(* ===== verification/RouteHandlerProps.thy ===== *)
theory RouteHandlerProps
  imports RouteHandlers
begin

text \<open>
  What the route handlers keep: every stored row was accepted by the validator, sits under its own
  key and shares no hostname with another; a change without an audit event leaves the rows as they
  were; and, as long as no reload times out, Caddy runs what is stored.
\<close>

section \<open>Rows\<close>

definition unstamp :: "Route \<Rightarrow> Route" where
  "unstamp r = r\<lparr>rt_UpdatedAt := 0\<rparr>"

definition same_rows :: "Route bucket \<Rightarrow> Route bucket \<Rightarrow> bool" where
  "same_rows b b' \<longleftrightarrow> (\<forall>k. map_option (map_option unstamp) (gm_get b k) = map_option (map_option unstamp) (gm_get b' k))"

definition row_ok :: "golib \<Rightarrow> string \<Rightarrow> Route option \<Rightarrow> bool" where
  "row_ok L k v \<longleftrightarrow> k \<noteq> [] \<and> (\<exists>r. v = Some r \<and> rt_ID r = k \<and> validate L r = None)"

text \<open>
  The rows of two routes have no hostname in common, up to a set \<open>X\<close> of exempted names: empty for the
  handlers of this file, the imported names once Caddyfiles are imported.
\<close>

definition apart :: "string set \<Rightarrow> Route bucket \<Rightarrow> string \<Rightarrow> string list \<Rightarrow> bool" where
  "apart X b k hosts \<longleftrightarrow> (\<forall>k' r'. gm_get b k' = Some (Some r') \<longrightarrow> k' \<noteq> k \<longrightarrow> set hosts \<inter> set (AllHosts r') \<subseteq> X)"

definition sound :: "string set \<Rightarrow> golib \<Rightarrow> Route bucket \<Rightarrow> bool" where
  "sound X L b \<longleftrightarrow> gm_wf b \<and> (\<forall>k v. gm_get b k = Some v \<longrightarrow> row_ok L k v) \<and>
     (\<forall>k r. gm_get b k = Some (Some r) \<longrightarrow> apart X b k (AllHosts r))"

lemma validate_stamps [simp]:
  "validate L (r\<lparr>rt_ID := k, rt_CreatedAt := a, rt_UpdatedAt := c\<rparr>) = validate L r"
  "validate L (r\<lparr>rt_CreatedAt := a, rt_UpdatedAt := c\<rparr>) = validate L r"
  "validate L (r\<lparr>rt_ID := k\<rparr>) = validate L r"
  by (simp_all add: validate_def check_aliases_def check_auth_def check_path_rules_def check_redirect_state_def AllHosts_def
      validateWAFFields_def validatePlaceholderSafety_def)

lemma AllHosts_stamps [simp]:
  "AllHosts (r\<lparr>rt_ID := k, rt_CreatedAt := a, rt_UpdatedAt := c\<rparr>) = AllHosts r"
  "AllHosts (r\<lparr>rt_CreatedAt := a, rt_UpdatedAt := c\<rparr>) = AllHosts r"
  "AllHosts (r\<lparr>rt_ID := k\<rparr>) = AllHosts r"
  by (simp_all add: AllHosts_def)

lemma same_rows_refl [simp]: "same_rows b b"
  by (simp add: same_rows_def)

lemma same_rows_trans: "same_rows a b \<Longrightarrow> same_rows b c \<Longrightarrow> same_rows a c"
  by (simp add: same_rows_def)

lemma same_rows_sym: "same_rows a b \<Longrightarrow> same_rows b a"
  by (simp add: same_rows_def)

lemma sound_row:
  assumes "sound X L b" "gm_get b k = Some (Some r)"
  shows "rt_ID r = k" "k \<noteq> []" "validate L r = None" "apart X b k (AllHosts r)"
  using assms by (auto simp: sound_def row_ok_def)

lemma sound_put:
  assumes "sound X L b" "rt_ID r \<noteq> []" "validate L r = None" "apart X b (rt_ID r) (AllHosts r)"
  shows "sound X L (gm_put (rt_ID r) (Some r) b)"
  using assms unfolding sound_def apart_def row_ok_def by (auto split: if_splits)

lemma sound_del: "sound X L b \<Longrightarrow> sound X L (gm_del k b)"
  unfolding sound_def apart_def by (auto split: if_splits)

lemma apart_put [simp]: "apart X (gm_put k v b) k hosts = apart X b k hosts"
  by (auto simp: apart_def)

section \<open>Store operations on sound rows\<close>

lemma UpdateRoute_Inr:
  assumes "UpdateRoute L now r b = (b', Inr u)"
  shows "\<exists>e. gm_get b (rt_ID r) = Some (Some e) \<and> u = r\<lparr>rt_CreatedAt := rt_CreatedAt e, rt_UpdatedAt := now\<rparr> \<and>
    b' = gm_put (rt_ID r) (Some u) b \<and> validate L r = None \<and> rt_ID r \<noteq> []"
  using assms by (auto simp: UpdateRoute_def Let_def split: if_splits option.splits sum.splits)

lemma UpdateRoute_back:
  assumes "sound X L b" "gm_get b k = Some (Some p)"
  shows "fst (UpdateRoute L now p (gm_put k (Some u) b)) =
    gm_put k (Some (p\<lparr>rt_CreatedAt := rt_CreatedAt u, rt_UpdatedAt := now\<rparr>)) (gm_put k (Some u) b)"
  using sound_row [OF assms] by (auto simp: UpdateRoute_def bucket_get_def Let_def)

lemma sound_rewrite:
  assumes "sound X L b" "gm_get b k = Some (Some p)"
  shows "sound X L (gm_put k (Some (p\<lparr>rt_CreatedAt := a, rt_UpdatedAt := c\<rparr>)) b)"
  using sound_put [OF assms(1), of "p\<lparr>rt_CreatedAt := a, rt_UpdatedAt := c\<rparr>"] sound_row [OF assms] by auto

lemma gm_get_put_twice: "gm_get (gm_put k v (gm_put k u b)) = gm_get (gm_put k v b)"
  by (rule ext) simp

lemma sound_cong: "gm_wf b' \<Longrightarrow> gm_get b = gm_get b' \<Longrightarrow> sound X L b = sound X L b'" if "gm_wf b"
  using that by (simp add: sound_def apart_def)

lemma sound_wf: "sound X L b \<Longrightarrow> gm_wf b"
  by (simp add: sound_def)

text \<open>Storing the row that was read over a changed one gives the old rows back.\<close>

lemma roll_back:
  assumes "sound X L b" "gm_get b k = Some (Some p)" "rt_CreatedAt u = rt_CreatedAt p"
    and b2_def: "b2 = fst (UpdateRoute L now p (gm_put k (Some u) b))"
  shows "sound X L b2" "same_rows b b2"
proof -
  let ?p = "p\<lparr>rt_CreatedAt := rt_CreatedAt u, rt_UpdatedAt := now\<rparr>"
  have b2: "b2 = gm_put k (Some ?p) (gm_put k (Some u) b)"
    unfolding b2_def by (rule UpdateRoute_back [OF assms(1,2)])
  have g: "gm_get b2 = gm_get (gm_put k (Some ?p) b)" unfolding b2 by (rule gm_get_put_twice)
  have "gm_wf b2" unfolding b2 using sound_wf [OF assms(1)] by simp
  then show "sound X L b2"
    using sound_cong [of b2 "gm_put k (Some ?p) b" X L] g sound_rewrite [OF assms(1,2), where a = "rt_CreatedAt u" and c = now] sound_wf by blast
  show "same_rows b b2"
    unfolding same_rows_def g using assms(2,3) by (simp add: unstamp_def)
qed

lemma put_all_None: "gm_get (fold (\<lambda>h. gm_put h i) hs m) h = None \<longleftrightarrow> gm_get m h = None \<and> h \<notin> set hs"
  by (induction hs arbitrary: m) auto

lemma collectAllHosts_fold:
  "gm_get (fold (\<lambda>rt owners. if rt_ID rt = x then owners else fold (\<lambda>h. gm_put h (rt_ID rt)) (AllHosts rt) owners) rs m) h = None \<longleftrightarrow>
    gm_get m h = None \<and> (\<forall>r \<in> set rs. rt_ID r \<noteq> x \<longrightarrow> h \<notin> set (AllHosts r))"
  by (induction rs arbitrary: m) (auto simp: put_all_None)

lemma not_taken_apart:
  assumes "sound X L b" "ListRoutes b = Inr rs" "\<not> taken hosts (collectAllHostsExcept rs k)"
  shows "apart X b k hosts"
proof -
  have rs: "set rs = {r. \<exists>k. gm_get b k = Some (Some r)}"
    using assms(2) bucket_list_set [OF sound_wf [OF assms(1)]]
    by (auto simp: ListRoutes_def map_sum_def split: sum.splits)
  have "\<forall>h \<in> set hosts. \<forall>r \<in> set rs. rt_ID r \<noteq> k \<longrightarrow> h \<notin> set (AllHosts r)"
    using assms(3) unfolding taken_def collectAllHostsExcept_def list_ex_iff collectAllHosts_fold by auto
  then show ?thesis using sound_row(1) [OF assms(1)] unfolding apart_def rs by blast
qed

section \<open>The state\<close>

lemma set_routes_simps [simp]:
  "routes (set_routes b s) = b" "sy_live (set_routes b s) = sy_live s" "sy_pending (set_routes b s) = sy_pending s"
  by (simp_all add: set_routes_def set_dom_def)

lemma set_dom_simps [simp]:
  "ad_dom (sy_db (set_dom d s)) = d" "sy_live (set_dom d s) = sy_live s"
  by (simp_all add: set_dom_def)

lemma reload_db [simp]: "sy_db (fst (ReloadFromStore R s)) = sy_db s"
  by (cases R) (simp_all add: ReloadFromStore_def Let_def)

lemma reload_cases:
  assumes "ReloadFromStore R s = (s1, ok)"
  shows "sy_db s1 = sy_db s" "ok \<longleftrightarrow> R = Loaded"
    "ok \<Longrightarrow> sy_live s1 = ad_dom (sy_db s)" "\<not> ok \<Longrightarrow> sy_live s1 = sy_live s"
  using assms by (cases R; auto simp: ReloadFromStore_def Let_def)+

definition agree :: "sys \<Rightarrow> bool" where
  "agree s \<longleftrightarrow> same_rows (routes s) (db_routes (sy_live s))"

text \<open>
  The contract of a handler. When its conditions \<open>ok\<close> hold, sound rows stay sound. A handler of
  routes also promises that a request that leaves no event leaves the rows as they were, and that
  Caddy goes on running what is stored when the answers of the reloads are \<open>calm\<close>.
\<close>

locale row_keeper =
  fixes L :: golib and ok :: "sys \<Rightarrow> bool" and h :: "sys \<Rightarrow> answer"
  assumes keeps_sound: "sound X L (routes s) \<Longrightarrow> ok s \<Longrightarrow> sound X L (routes (fst (h s)))"

locale route_handler = row_keeper +
  fixes calm :: bool
  assumes silent_keeps: "sound X L (routes s) \<Longrightarrow> ok s \<Longrightarrow> snd (snd (h s)) = [] \<Longrightarrow> same_rows (routes s) (routes (fst (h s)))"
    and calm_agrees: "sound X L (routes s) \<Longrightarrow> ok s \<Longrightarrow> calm \<Longrightarrow> agree s \<Longrightarrow> agree (fst (h s))"
begin

lemma keeps_both:
  "sound X L (routes s) \<and> agree s \<Longrightarrow> ok s \<Longrightarrow> calm \<Longrightarrow> sound X L (routes (fst (h s))) \<and> agree (fst (h s))"
  using keeps_sound calm_agrees by blast

end

text \<open>Three ways to end: nothing stored; stored and loaded; stored, not loaded and undone.\<close>

inductive ends :: "string set \<Rightarrow> golib \<Rightarrow> bool \<Rightarrow> sys \<Rightarrow> answer \<Rightarrow> bool" for X L calm s where
  refused: "ends X L calm s (s, st, [])"
| completed: "sound X L (routes s1) \<Longrightarrow> (calm \<Longrightarrow> agree s1) \<Longrightarrow> evs \<noteq> [] \<Longrightarrow> ends X L calm s (s1, st, evs)"
| undone: "sound X L (routes s1) \<Longrightarrow> same_rows (routes s) (routes s1) \<Longrightarrow> sy_live s1 = sy_live s \<Longrightarrow> ends X L calm s (s1, st, evs)"

lemma handlerI:
  assumes "\<And>X s. sound X L (routes s) \<Longrightarrow> ok s \<Longrightarrow> ends X L calm s (h s)"
  shows "route_handler L ok h calm"
proof
  fix X s assume s: "sound X L (routes s)" "ok s"
  from assms [OF s] show "sound X L (routes (fst (h s)))" using s by cases auto
  from assms [OF s] show "snd (snd (h s)) = [] \<Longrightarrow> same_rows (routes s) (routes (fst (h s)))" using s by cases auto
  from assms [OF s] show "calm \<Longrightarrow> agree s \<Longrightarrow> agree (fst (h s))" using s
    by cases (auto simp: agree_def intro: same_rows_trans same_rows_sym)
qed

section \<open>Each handler\<close>

lemma agree_loaded: "sy_live s1 = ad_dom (sy_db s1) \<Longrightarrow> agree s1"
  by (simp add: agree_def)

text \<open>The common end of the handlers that replace the row at \<open>k\<close>.\<close>

lemma replace_ends:
  assumes "sound X L (routes s)" "gm_get (routes s) k = Some (Some p)"
    and "UpdateRoute L now r (routes s) = (b, Inr u)" "rt_ID r = k" "apart X (routes s) k (AllHosts r)"
    and "ReloadFromStore R (set_routes b s) = (s1, ok)"
  shows "ok \<Longrightarrow> sound X L (routes s1) \<and> agree s1 \<and> routes s1 = gm_put k (Some u) (routes s) \<and> rt_CreatedAt u = rt_CreatedAt p"
    and "\<not> ok \<Longrightarrow> ends X L calm s (set_routes (fst (UpdateRoute L now p (routes s1))) s1, st, evs)"
proof -
  from UpdateRoute_Inr [OF assms(3)] assms(2,4)
  have u: "u = r\<lparr>rt_CreatedAt := rt_CreatedAt p, rt_UpdatedAt := now\<rparr>" "b = gm_put k (Some u) (routes s)"
    "validate L r = None" "k \<noteq> []" by auto
  have "sound X L b"
    using sound_put [OF assms(1), of u] u assms(4,5) by simp
  moreover have rs: "routes s1 = b" using reload_cases(1) [OF assms(6)] by simp
  ultimately show "ok \<Longrightarrow> sound X L (routes s1) \<and> agree s1 \<and> routes s1 = gm_put k (Some u) (routes s) \<and> rt_CreatedAt u = rt_CreatedAt p"
    using reload_cases [OF assms(6)] u by (auto intro: agree_loaded)
  show "ends X L calm s (set_routes (fst (UpdateRoute L now p (routes s1))) s1, st, evs)" if "\<not> ok"
  proof (rule undone)
    have c: "rt_CreatedAt u = rt_CreatedAt p" by (simp add: u)
    from roll_back [OF assms(1,2) c refl, of now]
    show "sound X L (routes (set_routes (fst (UpdateRoute L now p (routes s1))) s1))"
      and "same_rows (routes s) (routes (set_routes (fst (UpdateRoute L now p (routes s1))) s1))"
      by (simp_all add: rs u(2))
    show "sy_live (set_routes (fst (UpdateRoute L now p (routes s1))) s1) = sy_live s"
      using reload_cases(4) [OF assms(6) that] by simp
  qed
qed

lemma change_row_ends:
  assumes s: "sound X L (routes s)"
    and f: "\<And>r r'. f r = Inr r' \<Longrightarrow> rt_ID r' = rt_ID r \<and> AllHosts r' = AllHosts r"
  shows "ends X L calm s (change_row L R now act k f s)"
proof (cases "GetRoute k (routes s)")
  case (Inr p)
  then have p: "gm_get (routes s) k = Some (Some p)" by (auto simp: GetRoute_def split: if_splits)
  show ?thesis
  proof (cases "f p")
    case (Inr r)
    with f have r: "rt_ID r = k" "AllHosts r = AllHosts p" using sound_row(1) [OF s p] by auto
    obtain b x where u: "UpdateRoute L now r (routes s) = (b, x)" by (cases "UpdateRoute L now r (routes s)")
    show ?thesis
    proof (cases x)
      case x: (Inr u')
      obtain s1 ok where q: "ReloadFromStore R (set_routes b s) = (s1, ok)" by (cases "ReloadFromStore R (set_routes b s)")
      note e = replace_ends [OF s p u [unfolded x] r(1) _ q]
      have ap: "apart X (routes s) k (AllHosts r)" using sound_row(4) [OF s p] r(2) by simp
      show ?thesis
      proof (cases ok)
        case True
        with e(1) [OF ap] q show ?thesis
          by (auto simp: change_row_def \<open>GetRoute k (routes s) = Inr p\<close> \<open>f p = Inr r\<close> u x intro: completed)
      next
        case False
        with e(2) [OF ap] q show ?thesis
          by (simp add: change_row_def \<open>GetRoute k (routes s) = Inr p\<close> \<open>f p = Inr r\<close> u x)
      qed
    qed (use Inr p u \<open>GetRoute k (routes s) = Inr p\<close> in \<open>simp add: change_row_def refused\<close>)
  qed (use Inr in \<open>simp add: change_row_def refused\<close>)
qed (simp add: change_row_def refused)

end
