(* ===== verification/RouteRuns.thy ===== *)
theory RouteRuns
  imports RouteHandlerProps
begin

text \<open>
  Every handler that changes routes or managed domains meets the contract \<open>route_handler\<close>; the
  runs of the service are the sequences of such requests, and of loads that end after their caller
  gave them up.
\<close>

section \<open>Create, update and delete\<close>

lemma route_of_request_Inr:
  assumes "route_of_request A db k req prev st mc rc = Inr r"
  shows "rt_ID r = k" "rt_MaintenanceConfig r = mc" "rt_RedirectConfig r = rc"
  using assms unfolding route_of_request_def Let_def by auto

lemma new_route_Inr:
  assumes "new_route A db req = Inr r"
  shows "validate (ap_go A) r = None"
    "\<exists>rs. ListRoutes (db_routes (ad_dom db)) = Inr rs \<and> \<not> taken (AllHosts r) (collectAllHostsExcept rs [])"
  using assms unfolding new_route_def Let_def by (auto simp: guard_def split: if_splits)

lemma changed_route_Inr:
  assumes "changed_route A db k req = Inr (r, p)"
  shows "rt_ID r = k" "validate (ap_go A) r = None" "GetRoute k (db_routes (ad_dom db)) = Inr p" "host_gate db k r p = Inr ()"
  using assms unfolding changed_route_def Let_def
  by (auto simp: map_sum_def route_of_request_Inr split: sum.splits)

lemma host_gate_apart:
  assumes "sound X L (db_routes (ad_dom db))" "gm_get (db_routes (ad_dom db)) k = Some (Some p)" "host_gate db k r p = Inr ()"
  shows "apart X (db_routes (ad_dom db)) k (AllHosts r)"
proof (cases "AllHosts r = AllHosts p")
  case True
  with sound_row(4) [OF assms(1,2)] show ?thesis by simp
next
  case False
  with assms(3) show ?thesis
    by (auto simp: host_gate_def guard_def split: if_splits intro: not_taken_apart [OF assms(1)])
qed

lemma apart_any: "sound X L b \<Longrightarrow> apart X b [] hosts \<Longrightarrow> apart X b k hosts"
  using sound_row(2) unfolding apart_def by blast

lemma create_ends:
  assumes s: "sound X (ap_go A) (routes s)" and uuid: "gm_get (routes s) uuid = None" "uuid \<noteq> []"
  shows "ends X (ap_go A) calm s (createRoute A R now uuid req s)"
proof (cases "new_route A (sy_db s) req")
  case (Inr r)
  let ?r = "r\<lparr>rt_ID := uuid, rt_CreatedAt := now, rt_UpdatedAt := now\<rparr>"
  let ?b = "gm_put uuid (Some ?r) (routes s)"
  have v: "validate (ap_go A) r = None" using new_route_Inr(1) [OF Inr] .
  have "apart X (routes s) uuid (AllHosts r)"
    using new_route_Inr(2) [OF Inr] not_taken_apart [OF s] apart_any [OF s] by blast
  then have sb: "sound X (ap_go A) ?b"
    using sound_put [OF s, of ?r] uuid(2) v by simp
  have c: "CreateRoute (ap_go A) now uuid r (routes s) = (?b, Inr ?r)"
    by (simp add: CreateRoute_def v Let_def)
  obtain s1 ok where q: "ReloadFromStore (R 0) (set_routes ?b s) = (s1, ok)" by (cases "ReloadFromStore (R 0) (set_routes ?b s)")
  have rs: "routes s1 = ?b" using reload_cases(1) [OF q] by simp
  show ?thesis
  proof (cases ok)
    case True
    with reload_cases(1,3) [OF q] have "agree s1" by (simp add: agree_def)
    with True show ?thesis using sb rs by (simp add: createRoute_def Inr c q completed)
  next
    case False
    have d: "fst (DeleteRoute uuid ?b) = gm_del uuid ?b" using uuid(2) by (simp add: DeleteRoute_def bucket_delete_def)
    have "same_rows (routes s) (gm_del uuid ?b)" using uuid(1) by (simp add: same_rows_def)
    then have "ends X (ap_go A) calm s (set_routes (gm_del uuid ?b) s1, 500, [])"
      using sound_del [OF sb] reload_cases(4) [OF q False] by (intro undone) simp_all
    then show ?thesis using False by (simp add: createRoute_def Inr c q rs d)
  qed
qed (simp add: createRoute_def refused)

lemma delete_ends:
  assumes s: "sound X L (routes s)"
  shows "ends X L calm s (deleteRoute L R k s)"
proof (cases "GetRoute k (routes s)")
  case (Inr p)
  then have p: "gm_get (routes s) k = Some (Some p)" by (auto simp: GetRoute_def split: if_splits)
  note row = sound_row [OF s p]
  let ?b = "gm_del k (routes s)"
  have d: "DeleteRoute k (routes s) = (?b, None)" using row(2) p by (simp add: DeleteRoute_def bucket_delete_def)
  obtain s1 ok where q: "ReloadFromStore R (set_routes ?b s) = (s1, ok)" by (cases "ReloadFromStore R (set_routes ?b s)")
  have rs: "routes s1 = ?b" using reload_cases(1) [OF q] by simp
  show ?thesis
  proof (cases ok)
    case True
    with reload_cases(1,3) [OF q] have "agree s1" by (simp add: agree_def)
    with True show ?thesis using sound_del [OF s] rs by (simp add: deleteRoute_def Inr d q completed)
  next
    case False
    let ?b2 = "gm_put k (Some p) ?b"
    have g: "gm_get ?b2 = gm_get (routes s)" using p by (simp add: fun_eq_iff)
    have "sound X L ?b2" using sound_cong [OF sound_wf [OF s], of ?b2 X L] sound_wf [OF s] g s by simp
    moreover have "same_rows (routes s) ?b2" unfolding same_rows_def g by simp
    ultimately have "ends X L calm s (set_routes ?b2 s1, 500, [])"
      using reload_cases(4) [OF q False] by (intro undone) simp_all
    then show ?thesis using False row by (simp add: deleteRoute_def Inr d q rs RestoreRoute_def)
  qed
qed (simp add: deleteRoute_def refused)

text \<open>The check after an update either leaves the new rows, stamped again, or brings the old ones back.\<close>

lemma rollback_keeps:
  assumes s: "sound X L b0" "gm_get b0 k = Some (Some p)" "sound X L (gm_put k (Some u) b0)" "rt_ID u = k" "rt_CreatedAt u = rt_CreatedAt p"
    and s1: "routes s1 = gm_put k (Some u) b0" "agree s1"
    and R: "calm \<Longrightarrow> R 1 = Loaded \<Longrightarrow> R 2 = Loaded"
    and q: "rollbackIfItFixes L R now check p u s1 = (s2, fixed)"
  shows "sound X L (routes s2) \<and> (calm \<longrightarrow> agree s2)"
proof -
  let ?b1 = "gm_put k (Some u) b0"
  have gp: "gm_get ?b1 k = Some (Some u)" by simp
  let ?p = "p\<lparr>rt_CreatedAt := rt_CreatedAt u, rt_UpdatedAt := now\<rparr>"
  let ?b2 = "gm_put k (Some ?p) ?b1"
  have up: "UpdateRoute L now p ?b1 = (?b2, Inr ?p)"
    using sound_row [OF s(1,2)] by (auto simp: UpdateRoute_def bucket_get_def Let_def)
  have sb2: "sound X L ?b2" using roll_back(1) [OF s(1,2,5) refl, of now] up by simp
  obtain t ok where t: "ReloadFromStore (R 1) (set_routes ?b2 s1) = (t, ok)" by (cases "ReloadFromStore (R 1) (set_routes ?b2 s1)")
  have rt: "routes t = ?b2" using reload_cases(1) [OF t] by simp
  let ?u = "u\<lparr>rt_CreatedAt := rt_CreatedAt ?p, rt_UpdatedAt := now\<rparr>"
  let ?b3 = "gm_put k (Some ?u) ?b2"
  have v: "validate L u = None" "k \<noteq> []" using sound_row [OF s(3) gp] by auto
  have uu: "UpdateRoute L now u (routes t) = (?b3, Inr ?u)"
    unfolding rt using v s(4) by (auto simp: UpdateRoute_def bucket_get_def Let_def)
  obtain t3 ok3 where t3: "ReloadFromStore (R 2) (set_routes ?b3 t) = (t3, ok3)" by (cases "ReloadFromStore (R 2) (set_routes ?b3 t)")
  have rt3: "routes t3 = ?b3" using reload_cases(1) [OF t3] by simp
  have g3: "gm_get ?b3 = gm_get (gm_put k (Some ?u) ?b1)" by (simp add: fun_eq_iff)
  have "sound X L (gm_put k (Some ?u) ?b1)" by (rule sound_rewrite [OF s(3) gp])
  then have sb3: "sound X L ?b3" using sound_cong [of ?b3 "gm_put k (Some ?u) ?b1" X L] g3 sound_wf [OF sb2] sound_wf by auto
  have same: "same_rows ?b1 ?b3" unfolding same_rows_def g3 by (simp add: unstamp_def)
  have re: "reapply L (R 2) now u t = (t3, \<not> ok3)" by (simp only: reapply_def uu t3 prod.case sum.case)
  have ag3: "agree t3" if c: calm
  proof (cases ok3)
    case True
    then show ?thesis using reload_cases(1,3) [OF t3] by (simp add: agree_def)
  next
    case False
    with reload_cases(2) [OF t3] R c have "R 1 \<noteq> Loaded" by blast
    then have "\<not> ok" using reload_cases(2) [OF t] by simp
    then have "sy_live t3 = sy_live s1" using reload_cases(4) [OF t] reload_cases(4) [OF t3 False] by simp
    then show ?thesis using s1 same same_rows_sym same_rows_trans unfolding agree_def rt3 by (metis (no_types, lifting))
  qed
  have "agree t" if ok using that reload_cases(1,3) [OF t] by (simp add: agree_def)
  then show ?thesis using q sb2 sb3 ag3 rt rt3 t re up s1(1)
    by (auto simp: rollbackIfItFixes_def split: bool.splits if_splits)
qed

lemma update_ends:
  assumes s: "sound X (ap_go A) (routes s)" and R: "calm \<Longrightarrow> R 1 = Loaded \<Longrightarrow> R 2 = Loaded"
  shows "ends X (ap_go A) calm s (updateRoute A R now check k req s)"
proof (cases "changed_route A (sy_db s) k req")
  case (Inr rp)
  obtain r p where rp: "rp = (r, p)" by (cases rp)
  note c = changed_route_Inr [OF Inr [unfolded rp]]
  from c(3) have p: "gm_get (routes s) k = Some (Some p)" by (auto simp: GetRoute_def split: if_splits)
  have ap: "apart X (routes s) k (AllHosts r)" by (rule host_gate_apart [OF s p c(4)])
  obtain b x where u: "UpdateRoute (ap_go A) now r (routes s) = (b, x)" by (cases "UpdateRoute (ap_go A) now r (routes s)")
  show ?thesis
  proof (cases x)
    case x: (Inr u')
    obtain s1 ok where q: "ReloadFromStore (R 0) (set_routes b s) = (s1, ok)" by (cases "ReloadFromStore (R 0) (set_routes b s)")
    note e = replace_ends [OF s p u [unfolded x] c(1) ap q]
    show ?thesis
    proof (cases ok)
      case True
      from e(1) [OF True] have s1: "sound X (ap_go A) (routes s1)" "agree s1" "routes s1 = gm_put k (Some u') (routes s)"
        "rt_CreatedAt u' = rt_CreatedAt p" by auto
      have id: "rt_ID u' = k" using UpdateRoute_Inr [OF u [unfolded x]] c(1) by auto
      obtain s2 fixed where q2: "rollbackIfItFixes (ap_go A) R now check p u' s1 = (s2, fixed)"
        by (cases "rollbackIfItFixes (ap_go A) R now check p u' s1")
      have "sound X (ap_go A) (routes s2) \<and> (calm \<longrightarrow> agree s2)"
        by (rule rollback_keeps [OF s p s1(1)[unfolded s1(3)] id s1(4) s1(3,2) R q2])
      then show ?thesis using True s1
        by (auto simp: updateRoute_def Inr rp u x q q2 Let_def split: bool.splits intro!: completed)
    next
      case False
      with e(2) show ?thesis by (simp add: updateRoute_def Inr rp u x q)
    qed
  qed (simp add: updateRoute_def Inr rp u refused)
qed (simp add: updateRoute_def refused)

section \<open>Managed domains\<close>

lemma migrate_rows_Inr:
  "migrate_rows f b = Inr (b', n) \<Longrightarrow> b' = map (\<lambda>(k, v). (k, map_option (\<lambda>r. or_prev (f r) r) v)) b"
  by (induction f b arbitrary: b' n rule: migrate_rows.induct) (auto simp: or_prev_def split: option.splits sum.splits prod.splits)

lemma sound_map:
  assumes "sound X L b"
    and g: "\<And>r. validate L r = None \<Longrightarrow> validate L (g r) = None \<and> rt_ID (g r) = rt_ID r \<and> AllHosts (g r) = AllHosts r"
  shows "sound X L (map (\<lambda>(k, v). (k, map_option g v)) b)"
proof -
  have get: "gm_get (map (\<lambda>(k, v). (k, map_option g v)) b) k = map_option (map_option g) (gm_get b k)" for k
    by (simp add: map_of_map)
  have wf: "gm_wf (map (\<lambda>(k, v). (k, map_option g v)) b)"
    using sound_wf [OF assms(1)] by (simp add: gm_wf_def case_prod_beta comp_def)
  have row: "\<exists>r. v = Some r \<and> rt_ID r = k \<and> k \<noteq> [] \<and> validate L r = None \<and> apart X b k (AllHosts r)" if "gm_get b k = Some v" for k v
    using assms(1) that unfolding sound_def row_ok_def by blast
  have "row_ok L k v \<and> (\<forall>r. v = Some r \<longrightarrow> apart X (map (\<lambda>(k, v). (k, map_option g v)) b) k (AllHosts r))"
    if "gm_get (map (\<lambda>(k, v). (k, map_option g v)) b) k = Some v" for k v
  proof -
    from that obtain v0 where v0: "gm_get b k = Some v0" "v = map_option g v0" unfolding get by auto
    from row [OF v0(1)] obtain r where r: "v0 = Some r" "rt_ID r = k" "k \<noteq> []" "validate L r = None" "apart X b k (AllHosts r)" by blast
    have "apart X (map (\<lambda>(k, v). (k, map_option g v)) b) k (AllHosts r)"
      unfolding apart_def get
    proof (intro allI impI)
      fix k' r' assume "map_option (map_option g) (gm_get b k') = Some (Some r')" "k' \<noteq> k"
      then obtain r0 where r0: "gm_get b k' = Some (Some r0)" "r' = g r0" by auto
      with row [OF r0(1)] g have "AllHosts r' = AllHosts r0" by auto
      moreover have "set (AllHosts r) \<inter> set (AllHosts r0) \<subseteq> X" using r(5) r0(1) \<open>k' \<noteq> k\<close> unfolding apart_def by blast
      ultimately show "set (AllHosts r) \<inter> set (AllHosts r') \<subseteq> X" by simp
    qed
    then show ?thesis using r v0(2) g by (auto simp: row_ok_def)
  qed
  then show ?thesis using wf unfolding sound_def by blast
qed

lemma validate_challenge:
  assumes "validate L r = None" "c \<in> {[], ''http-01'', ''dns-01'', ''inherited''}" "rt_UseDedicatedCert r \<Longrightarrow> c \<noteq> ''inherited''"
  shows "validate L (r\<lparr>rt_ACMEChallenge := c, rt_UpdatedAt := t\<rparr>) = None"
proof -
  let ?r = "r\<lparr>rt_ACMEChallenge := c, rt_UpdatedAt := t\<rparr>"
  have "check_aliases ?r = check_aliases r" "check_auth ?r = check_auth r" "check_path_rules L ?r = check_path_rules L r"
    "check_redirect_state L ?r = check_redirect_state L r" "validateWAFFields L ?r = validateWAFFields L r"
    "validatePlaceholderSafety ?r = validatePlaceholderSafety r"
    by (simp_all add: check_aliases_def check_auth_def check_path_rules_def check_redirect_state_def AllHosts_def
        validateWAFFields_def validatePlaceholderSafety_def)
  moreover have "\<not> (c \<notin> {[], ''http-01'', ''dns-01'', ''inherited''})" "\<not> (rt_UseDedicatedCert r \<and> c = ''inherited'')"
    using assms(2,3) by auto
  ultimately show ?thesis using assms(1) unfolding validate_def first_error_None by (simp split: if_splits)
qed

lemma migrate_sound:
  assumes "sound X L b" "migrate_rows f b = Inr (b', n)"
    and "\<And>r r'. validate L r = None \<Longrightarrow> f r = Some r' \<Longrightarrow> validate L r' = None \<and> rt_ID r' = rt_ID r \<and> AllHosts r' = AllHosts r"
  shows "sound X L b'"
  unfolding migrate_rows_Inr [OF assms(2)]
proof (rule sound_map [OF assms(1)])
  fix r assume v: "validate L r = None"
  show "validate L (or_prev (f r) r) = None \<and> rt_ID (or_prev (f r) r) = rt_ID r \<and> AllHosts (or_prev (f r) r) = AllHosts r"
    using assms(3) [OF v] by (cases "f r") (simp_all add: or_prev_def v)
qed

lemma put_domain_sound:
  assumes "sound X L (db_routes d)"
  shows "sound X L (db_routes (fst (PutManagedDomainWithRouteMigration L now md cov d)))"
proof (cases "ManagedDomain_validate L md = None \<and> (\<exists>x. migrate_rows (inherit_row cov now) (db_routes d) = Inr x)")
  case True
  then obtain b n where m: "migrate_rows (inherit_row cov now) (db_routes d) = Inr (b, n)" by auto
  have "sound X L b"
    by (rule migrate_sound [OF assms m])
      (auto simp: inherit_row_def AllHosts_def split: if_splits intro!: validate_challenge)
  with True m show ?thesis by (simp add: PutManagedDomainWithRouteMigration_def)
next
  case False
  then show ?thesis using assms by (auto simp: PutManagedDomainWithRouteMigration_def split: option.splits sum.splits)
qed

lemma delete_domain_sound:
  assumes "sound X L (db_routes d)" "revertTo \<in> {[], ''http-01'', ''dns-01''}"
  shows "sound X L (db_routes (fst (DeleteManagedDomainWithRouteMigrationRevertTo L now apex cov revertTo d)))"
proof (cases "gm_get (db_domains d) (NormalizeApex L apex) \<noteq> None \<and> (\<exists>x. migrate_rows (revert_row cov now revertTo) (db_routes d) = Inr x)")
  case True
  then obtain b n where m: "migrate_rows (revert_row cov now revertTo) (db_routes d) = Inr (b, n)" by auto
  have "sound X L b"
    by (rule migrate_sound [OF assms(1) m])
      (use assms(2) in \<open>auto simp: revert_row_def AllHosts_def split: if_splits intro!: validate_challenge\<close>)
  with True m show ?thesis by (auto simp: DeleteManagedDomainWithRouteMigrationRevertTo_def Let_def)
next
  case False
  then show ?thesis using assms(1)
    by (auto simp: DeleteManagedDomainWithRouteMigrationRevertTo_def Let_def split: sum.splits)
qed

lemma domain_create_sound:
  assumes "sound X L (routes s)"
  shows "sound X L (routes (fst (createManagedDomain L R now req s)))"
proof (cases "new_domain L req (ad_dom (sy_db s))")
  case (Inr md)
  obtain d1 x where p: "PutManagedDomainWithRouteMigration L now md (coveredBy L md) (ad_dom (sy_db s)) = (d1, x)"
    by (cases "PutManagedDomainWithRouteMigration L now md (coveredBy L md) (ad_dom (sy_db s))")
  have s1: "sound X L (db_routes d1)" using put_domain_sound [OF assms, of now md "coveredBy L md"] p by simp
  show ?thesis using s1 delete_domain_sound [OF s1, of "[]" now "md_Apex md" "coveredBy L md"] assms
    by (cases x; cases R)
      (auto simp: createManagedDomain_def Inr p Let_def ReloadFromStore_def DeleteManagedDomainWithRouteMigration_def)
qed (simp add: createManagedDomain_def assms Let_def)

lemma domain_delete_sound:
  assumes "sound X L (routes s)"
  shows "sound X L (routes (fst (deleteManagedDomain L R now apex revertTo s)))"
proof (cases "revertTo \<in> {[], ''http-01'', ''dns-01''}")
  case True
  note del = delete_domain_sound [OF assms True]
  have put: "sound X L (db_routes d1)" if "DeleteManagedDomainWithRouteMigrationRevertTo L now ap cov revertTo (ad_dom (sy_db s)) = (d1, x)" for ap cov d1 x
    using del that by (metis fst_conv)
  show ?thesis using True put put_domain_sound assms
    by (cases R) (auto simp: deleteManagedDomain_def Let_def ReloadFromStore_def split: sum.splits prod.splits)
qed (simp add: deleteManagedDomain_def Let_def assms)

lemma domain_create_loaded:
  "agree s \<Longrightarrow> agree (fst (createManagedDomain L Loaded now req s))"
  by (auto simp: createManagedDomain_def Let_def ReloadFromStore_def agree_def split: sum.splits prod.splits)

lemma domain_delete_loaded:
  "agree s \<Longrightarrow> agree (fst (deleteManagedDomain L Loaded now apex revertTo s))"
  by (auto simp: deleteManagedDomain_def Let_def ReloadFromStore_def agree_def split: sum.splits prod.splits)

end
