(* ===== verification/RouteService.thy ===== *)
theory RouteService
  imports RouteRuns
begin

text \<open>
  The handlers interpreted as instances of the contract, the runs of the service, and what holds in
  every state they reach.
\<close>

section \<open>Interpretations\<close>

interpretation creates: route_handler "ap_go A" "\<lambda>s. gm_get (routes s) uuid = None \<and> uuid \<noteq> []" "createRoute A R now uuid req" calm
  for A R now uuid req calm
  by (rule handlerI) (simp add: create_ends)

interpretation updates: route_handler "ap_go A" "\<lambda>_. True" "updateRoute A R now check k req" "R 1 = Loaded \<longrightarrow> R 2 = Loaded"
  for A R now check k req
  by (rule handlerI, rule update_ends) simp_all

lemma maintenance_row_keeps: "rt_ID (maintenance_row on r) = rt_ID r \<and> AllHosts (maintenance_row on r) = AllHosts r"
  by (simp add: maintenance_row_def AllHosts_def)

lemma exclusion_keeps: "withWAFExclusion A r req = Inr r' \<Longrightarrow> rt_ID r' = rt_ID r \<and> AllHosts r' = AllHosts r"
  by (auto simp: withWAFExclusion_def AllHosts_def split: if_splits)

interpretation disables: route_handler L "\<lambda>_. True" "toggleRouteDisabled L R now k d" calm
  for L R now k d calm
  by (rule handlerI) (auto simp: toggleRouteDisabled_def AllHosts_def intro: change_row_ends)

interpretation maintains: route_handler L "\<lambda>_. True" "toggleRouteMaintenance L R now k on" calm
  for L R now k on calm
  by (rule handlerI) (auto simp: toggleRouteMaintenance_def maintenance_row_keeps intro!: change_row_ends)

interpretation excludes: route_handler "ap_go A" "\<lambda>_. True" "addWAFExclusion A R now k x" calm
  for A R now k x calm
  by (rule handlerI) (auto simp: addWAFExclusion_def intro!: change_row_ends dest: exclusion_keeps)

interpretation deletes: route_handler L "\<lambda>_. True" "deleteRoute L R k" calm
  for L R k calm
  by (rule handlerI) (simp add: delete_ends)

interpretation domain_creates: row_keeper L "\<lambda>_. True" "createManagedDomain L R now req"
  for L R now req
  by unfold_locales (rule domain_create_sound)

interpretation domain_deletes: row_keeper L "\<lambda>_. True" "deleteManagedDomain L R now apex revertTo"
  for L R now apex revertTo
  by unfold_locales (rule domain_delete_sound)

section \<open>Runs\<close>

text \<open>
  The requests the service answers. In a \<open>calm\<close> run no load ends late, the load that puts an
  updated route back after a vain rollback succeeds, and so do the loads of managed domains.
\<close>

inductive api_call :: "apilib \<Rightarrow> bool \<Rightarrow> sys \<Rightarrow> answer \<Rightarrow> bool" for A calm s where
  "gm_get (routes s) uuid = None \<Longrightarrow> uuid \<noteq> [] \<Longrightarrow> api_call A calm s (createRoute A R now uuid req s)"
| "(calm \<Longrightarrow> R 1 = Loaded \<longrightarrow> R 2 = Loaded) \<Longrightarrow> api_call A calm s (updateRoute A R now check k req s)"
| "api_call A calm s (toggleRouteDisabled (ap_go A) r now k d s)"
| "api_call A calm s (toggleRouteMaintenance (ap_go A) r now k on s)"
| "api_call A calm s (addWAFExclusion A r now k x s)"
| "api_call A calm s (deleteRoute (ap_go A) r k s)"
| "(calm \<Longrightarrow> r = Loaded) \<Longrightarrow> api_call A calm s (createManagedDomain (ap_go A) r now mreq s)"
| "(calm \<Longrightarrow> r = Loaded) \<Longrightarrow> api_call A calm s (deleteManagedDomain (ap_go A) r now apex revertTo s)"

inductive api_step :: "apilib \<Rightarrow> bool \<Rightarrow> sys \<Rightarrow> sys \<Rightarrow> bool" for A calm where
  request: "api_call A calm s (s', st, evs) \<Longrightarrow> api_step A calm s s'"
| late: "\<not> calm \<Longrightarrow> api_step A calm s (late_load i s)"

lemma call_sound:
  assumes "api_call A calm s ans" "sound X (ap_go A) (routes s)"
  shows "sound X (ap_go A) (routes (fst ans))"
  using assms
  by cases (simp_all add: creates.keeps_sound updates.keeps_sound disables.keeps_sound maintains.keeps_sound
      excludes.keeps_sound deletes.keeps_sound domain_creates.keeps_sound domain_deletes.keeps_sound)

lemma call_agrees:
  assumes "api_call A True s ans" "sound X (ap_go A) (routes s)" "agree s"
  shows "agree (fst ans)"
  using assms
  by cases (simp_all add: creates.calm_agrees updates.calm_agrees disables.calm_agrees maintains.calm_agrees
      excludes.calm_agrees deletes.calm_agrees domain_create_loaded domain_delete_loaded)

lemma run_sound:
  "(api_step A calm)\<^sup>*\<^sup>* s0 s \<Longrightarrow> sound X (ap_go A) (routes s0) \<Longrightarrow> sound X (ap_go A) (routes s)"
proof (induction rule: rtranclp_induct)
  case (step t u)
  from step(2) show ?case
  proof cases
    case (request st evs)
    with call_sound step show ?thesis by fastforce
  next
    case (late i)
    then show ?thesis using step by (simp add: late_load_def)
  qed
qed

lemma run_agrees:
  "(api_step A True)\<^sup>*\<^sup>* s0 s \<Longrightarrow> sound X (ap_go A) (routes s0) \<Longrightarrow> agree s0 \<Longrightarrow> agree s"
proof (induction rule: rtranclp_induct)
  case (step t u)
  from step(2) show ?case
  proof cases
    case (request st evs)
    then show ?thesis using call_agrees [OF request] run_sound [OF step(1,4)] step by simp
  qed simp
qed simp

lemma sound_Nil [simp]: "sound X L []"
  by (simp add: sound_def gm_wf_def)

lemma rows_of_total: "\<forall>(k, v) \<in> set b. v \<noteq> None \<Longrightarrow> \<exists>xs. rows_of b = Inr xs"
  by (induction b rule: rows_of.induct) (auto split: option.splits sum.splits)

lemma sound_decodes:
  assumes "sound X L b"
  shows "\<forall>(k, v) \<in> set b. v \<noteq> None"
proof -
  have "v \<noteq> None" if "(k, v) \<in> set b" for k v
    using that assms by (auto simp: gm_get_iff [OF sound_wf [OF assms], symmetric] sound_def row_ok_def)
  then show ?thesis by blast
qed

lemma sound_lists:
  assumes "sound X L b"
  shows "\<exists>rs. ListRoutes b = Inr rs \<and> (\<forall>r \<in> set rs. validate L r = None)"
proof -
  obtain xs where xs: "bucket_list b = Inr xs"
    using rows_of_total [of "sort_key fst b"] sound_decodes [OF assms] by (auto simp: bucket_list_def)
  then have "set xs = {r. \<exists>k. gm_get b k = Some (Some r)}" using bucket_list_set [OF sound_wf [OF assms]] by auto
  with xs sound_row(3) [OF assms] show ?thesis by (auto simp: ListRoutes_def)
qed

section \<open>An example\<close>

definition sample_api :: apilib where
  "sample_api = \<lparr>ap_go = sample_lib, ap_upper = (\<lambda>s. s), ap_requestURI = lib_url sample_lib, ap_hash = (\<lambda>p. Some (''hash:'' @ p))\<rparr>"

definition sample_body :: "string \<Rightarrow> routeRequest" where
  "sample_body host =
     \<lparr>rq_Host = host, rq_Upstreams = [\<lparr>up_URL = ''http://app'', up_Weight = 0\<rparr>], rq_LBPolicy = [], rq_TLSEnabled = False,
      rq_RedirectToHTTPS = False, rq_Disabled = None, rq_MaintenanceConfig = None, rq_RedirectConfig = None, rq_CertSource = [],
      rq_CertID = [], rq_Aliases = [], rq_AuthMode = [], rq_BasicAuth = \<lparr>bq_Username = [], bq_Password = []\<rparr>,
      rq_ForwardAuth = \<lparr>fa_ProviderName = []\<rparr>, rq_RequestHeaders = [], rq_ResponseHeaders = [], rq_WAFMode = [],
      rq_ACMEChallenge = [], rq_UseDedicatedCert = False, rq_HealthCheck = None, rq_HealthNotify = None, rq_CountryBlock = None,
      rq_InsecureSkipVerify = None, rq_UpstreamTLSServerName = None, rq_UploadStreamingMode = None, rq_ResponseStreamingMode = None,
      rq_WAFDisableCRS = None, rq_WAFExcludeRules = None, rq_WAFExcludeTags = None, rq_WAFTargetedExclusions = None,
      rq_WAFCustomRules = None, rq_WAFSecLang = None, rq_RateLimit = None, rq_ClearRateLimit = False, rq_ErrorPageTemplateID = [],
      rq_ErrorPageOverrides = [], rq_IPFilter = None, rq_PathRules = []\<rparr>"

definition empty_db :: domain_db where "empty_db = \<lparr>db_routes = [], db_domains = [], db_providers = []\<rparr>"

definition empty_sys :: sys where
  "empty_sys = \<lparr>sy_db = \<lparr>ad_dom = empty_db, ad_auth = [], ad_channels = [], ad_certs = []\<rparr>, sy_live = empty_db, sy_pending = []\<rparr>"

definition sample_create :: "sys \<times> int \<times> audit_entry list" where
  "sample_create = createRoute sample_api (\<lambda>_. Loaded) 5 ''r1'' (sample_body ''a.home'') empty_sys"

lemma sample_create_status: "fst (snd sample_create) = 201"
  by code_simp

lemma sample_create_row: "map_option (map_option rt_Host) (gm_get (routes (fst sample_create)) ''r1'') = Some (Some ''a.home'')"
  by code_simp

lemma sample_step: "api_step sample_api calm empty_sys (fst sample_create)"
proof (rule request)
  show "api_call sample_api calm empty_sys (fst sample_create, fst (snd sample_create), snd (snd sample_create))"
    unfolding prod.collapse sample_create_def by (rule api_call.intros(1)) (simp_all add: empty_sys_def empty_db_def)
qed

lemma sample_run: "(api_step sample_api True)\<^sup>*\<^sup>* empty_sys (fst sample_create)"
  by (rule r_into_rtranclp, rule sample_step)

section \<open>What every run keeps\<close>

lemma unstamp_host: "map_option (map_option rt_Host) (map_option (map_option unstamp) x) = map_option (map_option rt_Host) x"
  by (simp add: option.map_comp comp_def unstamp_def)

text \<open>
  C3: Caddy runs what is stored: in every calm run that starts with Caddy loaded from the database,
  the routes Caddy was last loaded with are the stored ones, apart from the time of their last
  change. This covers the handlers' own rollbacks after a rejected load, and the check that puts a
  working route back when its new version does not answer.
\<close>

theorem caddy_runs_what_is_stored:
  assumes "(api_step A True)\<^sup>*\<^sup>* s0 s" "routes s0 = []" "db_routes (sy_live s0) = []"
  shows "map_option (map_option unstamp) (gm_get (routes s) k) = map_option (map_option unstamp) (gm_get (db_routes (sy_live s)) k)"
proof -
  have "agree s" using run_agrees [OF assms(1)] assms(2,3) by (simp add: agree_def)
  then show ?thesis by (simp add: agree_def same_rows_def)
qed

theorem caddy_runs_what_is_stored_witness:
  "map_option (map_option rt_Host) (gm_get (db_routes (sy_live (fst sample_create))) ''r1'') = Some (Some ''a.home'')"
proof -
  have "map_option (map_option unstamp) (gm_get (routes (fst sample_create)) ''r1'') =
      map_option (map_option unstamp) (gm_get (db_routes (sy_live (fst sample_create))) ''r1'')"
    using caddy_runs_what_is_stored [OF sample_run, of "''r1''"] by (simp add: empty_sys_def empty_db_def)
  then show ?thesis using sample_create_row unstamp_host by metis
qed

end
