(* ===== verification/RouteAudit.thy ===== *)
theory RouteAudit
  imports RouteService
begin

text \<open>
  The trail the route handlers leave: no stored route changes without an event, and no event carries
  a credential. Then the ways in which the handlers fall short: a managed domain that is undone, a
  request with two states, a load that ends after its change was undone.
\<close>

section \<open>The trail\<close>

definition domain_load_failed :: "golib \<Rightarrow> sys \<Rightarrow> answer \<Rightarrow> bool" where
  "domain_load_failed L s ans \<longleftrightarrow> fst (snd ans) = 500 \<and>
     (\<exists>R now. R \<noteq> Loaded \<and> ((\<exists>req. ans = createManagedDomain L R now req s) \<or> (\<exists>apex revertTo. ans = deleteManagedDomain L R now apex revertTo s)))"

lemma domain_silent:
  "createManagedDomain L R now req s = (s', st, []) \<Longrightarrow> s' = s \<or> R \<noteq> Loaded \<and> st = 500"
  "deleteManagedDomain L R now apex revertTo s = (s', st, []) \<Longrightarrow> s' = s \<or> R \<noteq> Loaded \<and> st = 500"
  by (cases R; auto simp: createManagedDomain_def deleteManagedDomain_def Let_def ReloadFromStore_def split: sum.splits prod.splits if_splits)+

lemma call_silent:
  assumes "api_call A calm s (s', st, [])" "sound X (ap_go A) (routes s)"
  shows "same_rows (routes s) (routes s') \<or> domain_load_failed (ap_go A) s (s', st, [])"
  using assms(1)
proof cases
  case 1 then show ?thesis using creates.silent_keeps [OF assms(2)] by (metis fst_conv snd_conv)
next
  case 2 then show ?thesis using updates.silent_keeps [OF assms(2)] by (metis fst_conv snd_conv)
next
  case 3 then show ?thesis using disables.silent_keeps [OF assms(2)] by (metis fst_conv snd_conv)
next
  case 4 then show ?thesis using maintains.silent_keeps [OF assms(2)] by (metis fst_conv snd_conv)
next
  case 5 then show ?thesis using excludes.silent_keeps [OF assms(2)] by (metis fst_conv snd_conv)
next
  case 6 then show ?thesis using deletes.silent_keeps [OF assms(2)] by (metis fst_conv snd_conv)
next
  case 7 then show ?thesis using domain_silent(1) same_rows_refl unfolding domain_load_failed_def by (metis fst_conv snd_conv)
next
  case 8 then show ?thesis using domain_silent(2) same_rows_refl unfolding domain_load_failed_def by (metis fst_conv snd_conv)
qed

text \<open>
  C7: No stored route changes without a trace, with one exception. In every state the requests on
  routes, toggles, firewall exclusions and managed domains reach, whatever the reloads do, a further
  request that leaves no audit event leaves every stored route as it was, apart from the time of the
  last change of a row that was written and put back; unless it creates or deletes a managed domain
  and its reload fails.
\<close>

theorem unaudited_requests_change_nothing:
  assumes "(api_step A calm)\<^sup>*\<^sup>* s0 s" "routes s0 = []" "api_call A calm s (s', st, [])"
  shows "map_option (map_option unstamp) (gm_get (routes s') k) = map_option (map_option unstamp) (gm_get (routes s) k) \<or>
    domain_load_failed (ap_go A) s (s', st, [])"
proof -
  have "sound {} (ap_go A) (routes s)" using run_sound [OF assms(1)] assms(2) by simp
  from call_silent [OF assms(3) this] show ?thesis by (auto simp: same_rows_def)
qed

lemma sample_keys: "map fst (routes (fst sample_create)) = [''r1'']"
  by code_simp

theorem unaudited_requests_change_nothing_witness:
  "fst (snd (deleteRoute sample_lib Loaded ''r2'' (fst sample_create))) = 404 \<and>
   map_option (map_option rt_Host) (gm_get (routes (fst (deleteRoute sample_lib Loaded ''r2'' (fst sample_create)))) ''r1'') = Some (Some ''a.home'')"
proof -
  let ?s = "fst sample_create"
  let ?a = "deleteRoute (ap_go sample_api) Loaded ''r2'' ?s"
  have "gm_get (routes ?s) ''r2'' = None"
    using sample_keys by (auto simp: map_of_eq_None_iff simp flip: set_map)
  then have r: "fst (snd ?a) = 404" "snd (snd ?a) = []"
    by (simp_all add: deleteRoute_def GetRoute_def bucket_get_def found_status_def)
  then have c: "api_call sample_api True ?s (fst ?a, 404, [])"
    using api_call.intros(6) [of sample_api True ?s Loaded "''r2''"] by (metis prod.collapse)
  have "routes empty_sys = []" by (simp add: empty_sys_def empty_db_def)
  moreover have "\<not> domain_load_failed (ap_go sample_api) ?s (fst ?a, 404, [])" by (simp add: domain_load_failed_def)
  ultimately have "map_option (map_option rt_Host) (gm_get (routes (fst ?a)) ''r1'') = Some (Some ''a.home'')"
    using unaudited_requests_change_nothing [OF sample_run _ c, of "''r1''"] sample_create_row unstamp_host by metis
  with r show ?thesis by (simp add: sample_api_def)
qed

definition headers_clean :: "golib \<Rightarrow> (string, string) gomap \<Rightarrow> bool" where
  "headers_clean L hs \<longleftrightarrow> (\<forall>(n, v) \<in> set hs. IsSensitiveHeader L n \<longrightarrow> v \<in> {[], auditRedacted})"

definition audit_clean :: "golib \<Rightarrow> Route \<Rightarrow> bool" where
  "audit_clean L r \<longleftrightarrow>
     ba_PasswordHash (rt_BasicAuth r) = [] \<and> headers_clean L (rt_RequestHeaders r) \<and> headers_clean L (rt_ResponseHeaders r) \<and>
     headers_clean L (hc_Headers (rt_HealthCheck r)) \<and>
     (\<forall>p \<in> set (rt_PathRules r). (\<forall>ba. pr_BasicAuth p = Some ba \<longrightarrow> ba_PasswordHash ba = []) \<and>
       (\<forall>hc. pr_HealthCheck p = Some hc \<longrightarrow> headers_clean L (hc_Headers hc)))"

definition event_clean :: "golib \<Rightarrow> audit_entry \<Rightarrow> bool" where
  "event_clean L e \<longleftrightarrow> pred_option (audit_clean L) (ae_Before e) \<and> pred_option (audit_clean L) (ae_After e)"

lemma redact_clean: "headers_clean L (redactSensitiveHeaders L hs)"
  by (auto simp: headers_clean_def redactSensitiveHeaders_def)

lemma routeForAudit_clean: "audit_clean L (routeForAudit L r)"
  by (auto simp: audit_clean_def routeForAudit_def audit_path_rule_def audit_health_def redact_clean)

lemma route_event_clean [simp]: "event_clean L (route_event L act k x y)"
  by (cases x; cases y) (simp_all add: event_clean_def route_event_def routeForAudit_clean)

lemma domain_event_clean [simp]: "event_clean L (domain_event act k)"
  by (simp add: event_clean_def domain_event_def)

lemma change_row_clean: "e \<in> set (snd (snd (change_row L R now act k f s))) \<Longrightarrow> event_clean L e"
  by (auto simp: change_row_def split: sum.splits prod.splits bool.splits)

lemma call_clean:
  assumes "api_call A calm s ans" "e \<in> set (snd (snd ans))"
  shows "event_clean (ap_go A) e"
  using assms
proof cases
  case 1 then show ?thesis using assms(2) by (auto simp: createRoute_def split: sum.splits prod.splits bool.splits)
next
  case 2 then show ?thesis using assms(2) by (auto simp: updateRoute_def Let_def split: sum.splits prod.splits bool.splits if_splits)
next
  case 3 then show ?thesis using assms(2) change_row_clean unfolding toggleRouteDisabled_def by blast
next
  case 4 then show ?thesis using assms(2) change_row_clean unfolding toggleRouteMaintenance_def by blast
next
  case 5 then show ?thesis using assms(2) change_row_clean unfolding addWAFExclusion_def by blast
next
  case 6 then show ?thesis using assms(2) by (auto simp: deleteRoute_def split: sum.splits prod.splits bool.splits option.splits)
next
  case 7 then show ?thesis using assms(2) by (auto simp: createManagedDomain_def Let_def split: sum.splits prod.splits bool.splits)
next
  case 8 then show ?thesis using assms(2) by (auto simp: deleteManagedDomain_def Let_def split: sum.splits prod.splits bool.splits if_splits)
qed

text \<open>
  C34: The audit log keeps no credential of a route: in no event of any request does the recorded
  route, before or after, hold a password hash, of the route or of a path rule, nor a non-empty
  value of a sensitive header, of the route's headers, of its probe or of the probe of a path rule,
  other than the redaction mark.
\<close>

theorem audit_keeps_no_secret:
  assumes "api_call A calm s (s', st, evs)" "e \<in> set evs" "ae_Before e = Some r \<or> ae_After e = Some r"
  shows "ba_PasswordHash (rt_BasicAuth r) = [] \<and>
    (\<forall>p \<in> set (rt_PathRules r). \<forall>ba. pr_BasicAuth p = Some ba \<longrightarrow> ba_PasswordHash ba = []) \<and>
    (\<forall>n v. (n, v) \<in> set (rt_RequestHeaders r) \<union> set (rt_ResponseHeaders r) \<union> set (hc_Headers (rt_HealthCheck r)) \<union>
        {h. \<exists>p \<in> set (rt_PathRules r). \<exists>hc. pr_HealthCheck p = Some hc \<and> h \<in> set (hc_Headers hc)} \<longrightarrow>
      IsSensitiveHeader (ap_go A) n \<longrightarrow> v = [] \<or> v = auditRedacted)"
proof -
  have "event_clean (ap_go A) e" using call_clean [OF assms(1)] assms(2) by simp
  then have "audit_clean (ap_go A) r" using assms(3) by (auto simp: event_clean_def)
  then show ?thesis unfolding audit_clean_def headers_clean_def by fast
qed

definition secret_create :: answer where
  "secret_create = createRoute sample_api (\<lambda>_. Loaded) 5 ''r1''
     ((sample_body ''a.home'')\<lparr>rq_AuthMode := ''basic'', rq_BasicAuth := \<lparr>bq_Username = ''ann'', bq_Password = ''pw''\<rparr>,
        rq_RequestHeaders := [(''X-Api-Key'', ''k'')]\<rparr>) empty_sys"

lemma secret_create_eval:
  "map (\<lambda>e. map_option rt_Host (ae_After e)) (snd (snd secret_create)) = [Some ''a.home'']"
  "map_option (map_option (\<lambda>r. ba_PasswordHash (rt_BasicAuth r))) (gm_get (routes (fst secret_create)) ''r1'') = Some (Some ''hash:pw'')"
  by code_simp+

theorem audit_keeps_no_secret_witness:
  "\<exists>e r. snd (snd secret_create) = [e] \<and> ae_After e = Some r \<and> rt_Host r = ''a.home'' \<and> ba_PasswordHash (rt_BasicAuth r) = []"
proof -
  obtain e r where e: "snd (snd secret_create) = [e]" "ae_After e = Some r" "rt_Host r = ''a.home''"
    using secret_create_eval(1) by (auto simp: map_eq_Cons_conv)
  have c: "api_call sample_api True empty_sys (fst secret_create, fst (snd secret_create), [e])"
    unfolding e(1) [symmetric] prod.collapse secret_create_def
    by (rule api_call.intros(1)) (simp_all add: empty_sys_def empty_db_def)
  have "ba_PasswordHash (rt_BasicAuth r) = []"
    using conjunct1 [OF audit_keeps_no_secret [OF c, of e r]] e(2) by simp
  with e show ?thesis by blast
qed

section \<open>Where it falls short\<close>

lemma md_valid_apex: "ManagedDomain_validate L md = None \<Longrightarrow> NormalizeApex L (md_Apex md) = md_Apex md"
  unfolding ManagedDomain_validate_def first_error_None by simp

lemma migrate_total: "\<forall>(k, v) \<in> set b. v \<noteq> None \<Longrightarrow> \<exists>b' n. migrate_rows f b = Inr (b', n)"
  by (induction f b rule: migrate_rows.induct) (auto split: option.splits sum.splits)

lemma migrate_get:
  assumes "migrate_rows f b = Inr (b', n)"
  shows "gm_get b' k = map_option (map_option (\<lambda>r. or_prev (f r) r)) (gm_get b k)"
  unfolding migrate_rows_Inr [OF assms] by (simp add: map_of_map)

text \<open>
  C36: A managed domain that cannot be loaded is not undone: when the reload after its creation
  fails, the handler deletes the domain again, but every covered route without a certificate of its
  own comes out with its challenge cleared, also one that was set to \<open>dns-01\<close> before, and no audit
  event tells of it.
\<close>

theorem undone_domain_clears_challenge:
  assumes "sound {} L (routes s)" "R \<noteq> Loaded" "new_domain L req (ad_dom (sy_db s)) = Inr md" "ManagedDomain_validate L md = None"
    and "gm_get (routes s) k = Some (Some r)" "\<not> rt_UseDedicatedCert r" "list_ex (coveredBy L md) (AllHosts r)"
  shows "\<exists>s' r'. createManagedDomain L R now req s = (s', 500, []) \<and> gm_get (routes s') k = Some (Some r') \<and> rt_ACMEChallenge r' = []"
proof -
  let ?d = "ad_dom (sy_db s)" and ?f = "inherit_row (coveredBy L md) now" and ?g = "revert_row (coveredBy L md) now []"
  obtain b n where m: "migrate_rows ?f (routes s) = Inr (b, n)" using migrate_total sound_decodes [OF assms(1)] by blast
  let ?d1 = "?d\<lparr>db_routes := b, db_domains := gm_put (md_Apex md) (Some md) (db_domains ?d)\<rparr>"
  have put: "PutManagedDomainWithRouteMigration L now md (coveredBy L md) ?d = (?d1, Inr n)"
    by (simp add: PutManagedDomainWithRouteMigration_def assms(4) m)
  have "sound {} L b" using put_domain_sound [OF assms(1), of now md "coveredBy L md"] by (simp add: put)
  then obtain b2 n2 where m2: "migrate_rows ?g b = Inr (b2, n2)" using migrate_total sound_decodes by blast
  let ?r1 = "or_prev (?f r) r"
  have r1: "gm_get b k = Some (Some ?r1)" using migrate_get [OF m] assms(5) by simp
  have "rt_ACMEChallenge ?r1 = ''inherited''" "AllHosts ?r1 = AllHosts r"
    using assms(6,7) by (auto simp: inherit_row_def or_prev_def AllHosts_def)
  then have "rt_ACMEChallenge (or_prev (?g ?r1) ?r1) = []" using assms(7) by (simp add: revert_row_def or_prev_def)
  moreover have "gm_get b2 k = Some (Some (or_prev (?g ?r1) ?r1))" using migrate_get [OF m2] r1 by simp
  moreover obtain s1 where "ReloadFromStore R (set_dom ?d1 s) = (s1, False)"
    using assms(2) by (cases R) (auto simp: ReloadFromStore_def Let_def)
  ultimately show ?thesis
    by (simp add: createManagedDomain_def Let_def assms(3) put DeleteManagedDomainWithRouteMigration_def
        DeleteManagedDomainWithRouteMigrationRevertTo_def md_valid_apex [OF assms(4)] m2)
qed

definition dns_route :: Route where
  "dns_route = sample_route\<lparr>rt_ID := ''r1'', rt_Host := ''a.home'', rt_Aliases := [], rt_ACMEChallenge := ''dns-01''\<rparr>"

definition home_request :: managedDomainRequest where
  "home_request = \<lparr>mq_Apex = ''home'', mq_IncludeApex = None, mq_ProviderID = [], mq_Provider = []\<rparr>"

definition home_domain :: ManagedDomain where
  "home_domain = \<lparr>md_Apex = ''home'', md_IncludeApex = True, md_ProviderID = []\<rparr>"

theorem undone_domain_clears_challenge_witness:
  "rt_ACMEChallenge dns_route = ''dns-01'' \<and>
    (\<exists>s' r'. createManagedDomain sample_lib Rejected 7 home_request (set_routes [(''r1'', Some dns_route)] empty_sys) = (s', 500, []) \<and>
      gm_get (routes s') ''r1'' = Some (Some r') \<and> rt_ACMEChallenge r' = [])"
proof
  let ?s = "set_routes [(''r1'', Some dns_route)] empty_sys"
  have v: "validate sample_lib dns_route = None" by code_simp
  have n: "new_domain sample_lib home_request (ad_dom (sy_db ?s)) = Inr home_domain" by code_simp
  have m: "ManagedDomain_validate sample_lib home_domain = None" by code_simp
  have c: "list_ex (coveredBy sample_lib home_domain) (AllHosts dns_route)" by code_simp
  have d: "\<not> rt_UseDedicatedCert dns_route" by code_simp
  have "sound {} sample_lib (routes ?s)"
    using v by (auto simp: sound_def gm_wf_def row_ok_def apart_def dns_route_def split: if_splits)
  from undone_domain_clears_challenge [OF this _ n m _ d c]
  show "\<exists>s' r'. createManagedDomain sample_lib Rejected 7 home_request ?s = (s', 500, []) \<and>
      gm_get (routes s') ''r1'' = Some (Some r') \<and> rt_ACMEChallenge r' = []" by simp
qed (simp add: dns_route_def)

text \<open>
  C37: A change that was undone can still go live: when the load after a create times out, the
  request is answered with an error, the route is deleted from the database and no event is left,
  but the load is still under way with the route in it; when it ends, Caddy serves a route that is
  not stored.
\<close>

theorem timed_out_create_goes_live:
  assumes "new_route A (sy_db s) req = Inr r" "R 0 = TimedOut" "gm_get (routes s) uuid = None" "uuid \<noteq> []"
  shows "\<exists>s' r'. createRoute A R now uuid req s = (s', 500, []) \<and> gm_get (routes s') uuid = None \<and>
    gm_get (db_routes (sy_live (late_load 0 s'))) uuid = Some (Some r') \<and> rt_Host r' = rt_Host r"
  using new_route_Inr(1) [OF assms(1)] assms
  by (simp add: createRoute_def CreateRoute_def Let_def ReloadFromStore_def late_load_def DeleteRoute_def bucket_delete_def)

theorem timed_out_create_goes_live_witness:
  "\<exists>s' r'. createRoute sample_api (\<lambda>_. TimedOut) 5 ''r1'' (sample_body ''a.home'') empty_sys = (s', 500, []) \<and>
    gm_get (routes s') ''r1'' = None \<and> gm_get (db_routes (sy_live (late_load 0 s'))) ''r1'' = Some (Some r') \<and> rt_Host r' = ''a.home''"
proof -
  have "map_sum id rt_Host (new_route sample_api (sy_db empty_sys) (sample_body ''a.home'')) = Inr ''a.home''" by code_simp
  then obtain r where r: "new_route sample_api (sy_db empty_sys) (sample_body ''a.home'') = Inr r" "rt_Host r = ''a.home''"
    by (cases "new_route sample_api (sy_db empty_sys) (sample_body ''a.home'')") auto
  have "gm_get (routes empty_sys) ''r1'' = None" by (simp add: empty_sys_def empty_db_def)
  from timed_out_create_goes_live [OF r(1) _ this, of "\<lambda>_. TimedOut" 5] r(2) show ?thesis by simp
qed

lemma changed_route_states:
  assumes "changed_route A db k req = Inr (r, prev)"
  shows "rt_MaintenanceConfig r = next_maintenance req prev" "rt_RedirectConfig r = next_redirect req prev"
  using assms unfolding changed_route_def Let_def
  by (auto simp: route_of_request_Inr next_maintenance_def next_redirect_def with_defaults_def)

lemma new_route_states:
  assumes "new_route A db req = Inr r"
  shows "rt_MaintenanceConfig r = rq_MaintenanceConfig req" "rt_RedirectConfig r = rq_RedirectConfig req"
  using assms unfolding new_route_def Let_def by (auto simp: route_of_request_Inr with_defaults_def)

text \<open>
  An update that names both a maintenance block and a redirect stores neither: the route becomes
  active, while a create with the same body is refused.
\<close>

theorem both_states_dropped:
  assumes "changed_route A db k req = Inr (r, prev)" "rq_MaintenanceConfig req \<noteq> None" "rq_RedirectConfig req \<noteq> None"
  shows "rt_MaintenanceConfig r = None \<and> rt_RedirectConfig r = None \<and> new_route A db req \<noteq> Inr r'"
proof -
  have "new_route A db req \<noteq> Inr r'"
    using validate_states_exclusive [OF new_route_Inr(1)] new_route_states assms(2,3) by metis
  then show ?thesis using changed_route_states [OF assms(1)] assms(2,3) by (simp add: next_maintenance_def next_redirect_def)
qed

definition both_request :: routeRequest where
  "both_request = (sample_body ''a.home'')\<lparr>
     rq_MaintenanceConfig := Some \<lparr>mc_RetryAfterSeconds = 60, mc_BypassIPs = [], mc_Message = []\<rparr>,
     rq_RedirectConfig := Some \<lparr>rc_Target = ''http://other'', rc_StatusCode = 0, rc_PreservePath = False\<rparr>\<rparr>"

theorem both_states_dropped_witness:
  "\<exists>r prev. changed_route sample_api (sy_db (fst sample_create)) ''r1'' both_request = Inr (r, prev) \<and>
    rt_MaintenanceConfig r = None \<and> rt_RedirectConfig r = None"
proof -
  have "map_sum id (\<lambda>_. ()) (changed_route sample_api (sy_db (fst sample_create)) ''r1'' both_request) = Inr ()" by code_simp
  then obtain r prev where c: "changed_route sample_api (sy_db (fst sample_create)) ''r1'' both_request = Inr (r, prev)"
    by (cases "changed_route sample_api (sy_db (fst sample_create)) ''r1'' both_request") auto
  have "rt_MaintenanceConfig r = None \<and> rt_RedirectConfig r = None"
    using both_states_dropped [OF c] by (simp add: both_request_def)
  with c show ?thesis by blast
qed

end
