(* ===== verification/PathRuleTrip.thy ===== *)
theory PathRuleTrip
  imports RouteAudit
begin

text \<open>
  Reading the path rules of a route and sending them back: the response hides the passwords, and the
  update fills the stored hashes in again. Then the identifiers of the guided firewall rules.
\<close>

section \<open>Path rules\<close>

lemma fold_put_get:
  "distinct (map f xs) \<Longrightarrow> gm_get (fold (\<lambda>x. gm_put (f x) x) xs m) k =
    (case find (\<lambda>x. f x = k) xs of None \<Rightarrow> gm_get m k | Some x \<Rightarrow> Some x)"
proof (induction xs arbitrary: m)
  case (Cons x xs)
  have "find (\<lambda>y. f y = f x) xs = None" using Cons.prems unfolding find_None_iff by (simp add: image_iff) metis
  with Cons show ?case by (auto split: option.splits)
qed simp

lemma prevByPrefix_mem:
  assumes "distinct (map pr_PathPrefix rules)" "p \<in> set rules"
  shows "prevByPrefix rules (pr_PathPrefix p) = Some p"
proof -
  obtain q where q: "find (\<lambda>x. pr_PathPrefix x = pr_PathPrefix p) rules = Some q"
    using assms(2) find_None_iff [of "\<lambda>x. pr_PathPrefix x = pr_PathPrefix p" rules] by (metis (mono_tags, lifting) not_None_eq)
  then have "q \<in> set rules" "pr_PathPrefix q = pr_PathPrefix p" by (auto simp: find_Some_iff)
  then have "q = p" using assms by (metis (mono_tags, lifting) distinct_map inj_onD)
  with q show ?thesis unfolding prevByPrefix_def fold_put_get [OF assms(1)] by simp
qed

lemma default_weight_idem [simp]: "default_weight (default_weight u) = default_weight u"
  by (simp add: default_weight_def)

lemma all_ok_Inr: "all_ok xs = Inr ys \<longleftrightarrow> xs = map Inr ys"
proof (induction xs arbitrary: ys rule: all_ok.induct)
  case (3 a xs)
  then show ?case by (cases "all_ok xs") (auto simp: map_eq_Cons_conv Cons_eq_map_conv)
qed (auto simp: map_eq_Cons_conv)

lemma upper_GET: "toUpper A ''GET'' = ''GET''" "toUpper A ''HEAD'' = ''HEAD''"
  by (simp_all add: toUpper_def is_ascii_def upper_char_def byte_of_def)

lemma materialise_idem:
  assumes "validateHealthCheck L (materialiseHealthCheck A hc) = None"
  shows "materialiseHealthCheck A (materialiseHealthCheck A hc) = materialiseHealthCheck A hc"
proof -
  let ?m = "materialiseHealthCheck A hc"
  have "hc_Method ?m = ''GET'' \<or> hc_Method ?m = ''HEAD''"
    using assms unfolding validateHealthCheck_def first_error_None by auto
  then show ?thesis by (auto simp: materialiseHealthCheck_def upper_GET split: if_splits)
qed

lemma materialiseRateLimit_idem:
  "materialiseRateLimit L x = Inr rl \<Longrightarrow> materialiseRateLimit L rl = Inr rl"
  by (auto simp: materialiseRateLimit_def split: option.splits if_splits)

definition pool_ok :: "apilib \<Rightarrow> pathRuleReq \<Rightarrow> bool" where
  "pool_ok A q \<longleftrightarrow> validatePathRuleUpstreams A [q] = None"

lemma validatePathRuleUpstreams_iff: "validatePathRuleUpstreams A qs = None \<longleftrightarrow> (\<forall>q \<in> set qs. pool_ok A q)"
  unfolding pool_ok_def validatePathRuleUpstreams_def check_each_None by simp

lemma path_health_fixed:
  assumes "path_health A h = Some hc" "\<forall>x. h = Some x \<longrightarrow> hc_Enabled x \<longrightarrow> validateHealthCheck L (materialiseHealthCheck A x) = None"
  shows "hc_Enabled hc \<and> materialiseHealthCheck A hc = hc \<and> validateHealthCheck L hc = None"
proof -
  from assms(1) obtain x where x: "h = Some x" "hc_Enabled x" "hc = materialiseHealthCheck A x"
    by (auto simp: path_health_def split: option.splits if_splits)
  with assms(2) have "validateHealthCheck L hc = None" by simp
  moreover have "hc_Enabled hc" using x by (simp add: materialiseHealthCheck_def)
  ultimately show ?thesis using materialise_idem [of L A x] x by simp
qed

lemma path_auth_back:
  assumes "prevByPrefix rules (pr_PathPrefix p) = Some p" "\<forall>ba. pr_BasicAuth p = Some ba \<longrightarrow> ba_PasswordHash ba \<noteq> []"
  shows "path_auth A rules (path_rule_resp p) = Inr (pr_BasicAuth p)"
  using assms by (cases "pr_BasicAuth p") (simp_all add: path_auth_def path_rule_resp_def Let_def)

lemma map_path_rule_back:
  assumes m: "map_path_rule A existing q = Inr p" and ok: "pool_ok A q"
    and prev: "prevByPrefix rules (pr_PathPrefix p) = Some p" "\<forall>ba. pr_BasicAuth p = Some ba \<longrightarrow> ba_PasswordHash ba \<noteq> []"
  shows "map_path_rule A rules (path_rule_resp p) = Inr p \<and> pool_ok A (path_rule_resp p)"
proof -
  obtain ba rl where e: "path_auth A existing q = Inr ba" "materialiseRateLimit (ap_go A) (pq_RateLimit q) = Inr rl"
    using m by (auto simp: map_path_rule_def split: sum.splits)
  let ?us = "map default_weight (pq_Upstreams q)" and ?lb = "if pq_LBPolicy q = [] then ''round_robin'' else pq_LBPolicy q"
  have p: "pr_Upstreams p = ?us" "pr_RateLimit p = rl"
    "pr_LBPolicy p = (if pq_Upstreams q = [] then [] else ?lb)"
    "pr_HealthCheck p = (if pq_Upstreams q = [] then None else path_health A (pq_HealthCheck q))"
    "pq_Upstreams q = [] \<Longrightarrow> \<not> pr_InsecureSkipVerify p \<and> pr_UpstreamTLSServerName p = []"
    using m e by (auto simp: map_path_rule_def Let_def)
  have rl: "materialiseRateLimit (ap_go A) (pr_RateLimit p) = Inr (pr_RateLimit p)"
    using materialiseRateLimit_idem [OF e(2)] p(2) by simp
  have ne: "''round_robin'' \<noteq> ([] :: string)" by simp
  show ?thesis
  proof (cases "pq_Upstreams q = []")
    case True
    with p rl path_auth_back [OF prev, of A] show ?thesis
      by (simp add: map_path_rule_def path_rule_resp_def Let_def pool_ok_def validatePathRuleUpstreams_def check_each_def)
  next
    case False
    have pool: "validateUpstreamPool A ?us = None" "validateLBPolicy ?lb = None"
      "\<forall>x. pq_HealthCheck q = Some x \<longrightarrow> hc_Enabled x \<longrightarrow> validateHealthCheck (ap_go A) (materialiseHealthCheck A x) = None"
      using ok False by (auto simp: pool_ok_def validatePathRuleUpstreams_def check_each_def split: option.splits if_splits)
    have lb: "pr_LBPolicy p = ?lb" "?lb \<noteq> []" using p(3) False by auto
    have hc: "path_health A (pr_HealthCheck p) = pr_HealthCheck p \<and>
        (\<forall>x. pr_HealthCheck p = Some x \<longrightarrow> hc_Enabled x \<and> validateHealthCheck (ap_go A) (materialiseHealthCheck A x) = None)"
    proof (cases "pr_HealthCheck p")
      case (Some x)
      then have "path_health A (pq_HealthCheck q) = Some x" using p(4) False by simp
      from path_health_fixed [OF this pool(3)] Some show ?thesis by (simp add: path_health_def)
    qed (simp add: path_health_def)
    have us: "pr_Upstreams p \<noteq> []" "map default_weight (pr_Upstreams p) = pr_Upstreams p" using p(1) False by (auto simp: comp_def)
    have "map_path_rule A rules (path_rule_resp p) = Inr p"
      using us lb hc rl path_auth_back [OF prev, of A] by (simp add: map_path_rule_def path_rule_resp_def Let_def)
    moreover have "pool_ok A (path_rule_resp p)"
      using us lb hc pool(1,2) p(1) by (auto simp: pool_ok_def validatePathRuleUpstreams_def check_each_def path_rule_resp_def Let_def comp_def split: option.splits)
    ultimately show ?thesis by blast
  qed
qed

lemma valid_hash:
  assumes "PathRule_Validate L p = None" "pr_BasicAuth p = Some ba"
  shows "ba_PasswordHash ba \<noteq> []"
proof -
  have "first_error [guard (ba_Username ba = []) ''path_rule: basic auth requires a username'',
      guard (ba_PasswordHash ba = []) ''path_rule: basic auth requires a password hash''] = None"
    using assms(1) unfolding PathRule_Validate_def Let_def first_error_None assms(2) by simp
  then show ?thesis by simp
qed

lemma rules_back:
  assumes "mapPathRuleReqs A qs existing = Inr rules" "validatePathRuleUpstreams A qs = None"
    and "\<forall>p \<in> set rules. PathRule_Validate (ap_go A) p = None" "distinct (map pr_PathPrefix rules)"
  shows "mapPathRuleReqs A (toPathRulesResp rules) rules = Inr rules \<and> validatePathRuleUpstreams A (toPathRulesResp rules) = None"
proof -
  have m: "map (map_path_rule A existing) qs = map Inr rules" using assms(1) by (simp add: mapPathRuleReqs_def all_ok_Inr)
  have "map_path_rule A rules (path_rule_resp p) = Inr p \<and> pool_ok A (path_rule_resp p)" if p: "p \<in> set rules" for p
  proof -
    have "Inr p \<in> set (map (map_path_rule A existing) qs)" unfolding m using p by simp
    then obtain q where q: "q \<in> set qs" "map_path_rule A existing q = Inr p" by auto
    have "\<forall>ba. pr_BasicAuth p = Some ba \<longrightarrow> ba_PasswordHash ba \<noteq> []" using assms(3) p valid_hash by blast
    then show ?thesis
      using map_path_rule_back [OF q(2) _ prevByPrefix_mem [OF assms(4) p]] q(1) assms(2) validatePathRuleUpstreams_iff by blast
  qed
  then show ?thesis
    by (simp add: mapPathRuleReqs_def all_ok_Inr toPathRulesResp_def validatePathRuleUpstreams_iff)
qed

lemma route_of_request_rules:
  assumes "route_of_request A db k req prev st mc rc = Inr r"
  shows "validatePathRuleUpstreams A (rq_PathRules req) = None" "mapPathRuleReqs A (rq_PathRules req) (rt_PathRules prev) = Inr (rt_PathRules r)"
  using assms unfolding route_of_request_def Let_def settle_path_rules_def
  by (auto simp: map_sum_def split: sum.splits)

lemma rules_source:
  "route_of_request A db k req prev st mc rc = Inr r \<Longrightarrow>
    \<exists>qs existing. mapPathRuleReqs A qs existing = Inr (rt_PathRules r) \<and> validatePathRuleUpstreams A qs = None"
  using route_of_request_rules by blast

text \<open>
  C10: The path rules of a route survive being read and sent back: whatever rules a create or an
  update has accepted, the response shows them without their passwords, and an update that carries
  the response as it is passes the checks of the pools and restores exactly the stored rules, every
  password hash included.
\<close>

theorem path_rules_round_trip:
  assumes "new_route A db req = Inr r \<or> changed_route A db k req = Inr (r, prev)"
  shows "mapPathRuleReqs A (toPathRulesResp (rt_PathRules r)) (rt_PathRules r) = Inr (rt_PathRules r) \<and>
    validatePathRuleUpstreams A (toPathRulesResp (rt_PathRules r)) = None \<and>
    (\<forall>q \<in> set (toPathRulesResp (rt_PathRules r)). \<forall>ba. pq_BasicAuth q = Some ba \<longrightarrow> bq_Password ba = [])"
proof -
  have v: "validate (ap_go A) r = None" using assms new_route_Inr(1) changed_route_Inr(2) by blast
  have "\<exists>qs existing. mapPathRuleReqs A qs existing = Inr (rt_PathRules r) \<and> validatePathRuleUpstreams A qs = None"
    using assms unfolding new_route_def changed_route_def Let_def by (elim disjE) (simp, blast dest: rules_source)+
  then obtain qs existing where "mapPathRuleReqs A qs existing = Inr (rt_PathRules r)" "validatePathRuleUpstreams A qs = None" by blast
  from rules_back [OF this] validate_path_rules [OF v]
  have "mapPathRuleReqs A (toPathRulesResp (rt_PathRules r)) (rt_PathRules r) = Inr (rt_PathRules r) \<and>
    validatePathRuleUpstreams A (toPathRulesResp (rt_PathRules r)) = None" by blast
  then show ?thesis by (auto simp: toPathRulesResp_def path_rule_resp_def Let_def)
qed

definition ruled_body :: routeRequest where
  "ruled_body = (sample_body ''a.home'')\<lparr>rq_PathRules :=
     [\<lparr>pq_PathPrefix = ''/admin'', pq_BasicAuth = Some \<lparr>bq_Username = ''ann'', bq_Password = ''pw''\<rparr>, pq_IPFilter = None,
       pq_Upstreams = [], pq_LBPolicy = [], pq_HealthCheck = None, pq_InsecureSkipVerify = False, pq_UpstreamTLSServerName = [],
       pq_MatchExact = False, pq_Redirect = None, pq_RateLimit = None, pq_ForwardAuth = None, pq_DisableRouteAuth = False\<rparr>]\<rparr>"

theorem path_rules_round_trip_witness:
  "\<exists>r p. new_route sample_api (sy_db empty_sys) ruled_body = Inr r \<and> rt_PathRules r = [p] \<and>
    map_option ba_PasswordHash (pr_BasicAuth p) = Some ''hash:pw'' \<and>
    mapPathRuleReqs sample_api (toPathRulesResp (rt_PathRules r)) (rt_PathRules r) = Inr (rt_PathRules r)"
proof -
  have "map_sum id (\<lambda>r. map (\<lambda>p. map_option ba_PasswordHash (pr_BasicAuth p)) (rt_PathRules r))
      (new_route sample_api (sy_db empty_sys) ruled_body) = Inr [Some ''hash:pw'']" by code_simp
  then obtain r p where r: "new_route sample_api (sy_db empty_sys) ruled_body = Inr r" "rt_PathRules r = [p]"
      "map_option ba_PasswordHash (pr_BasicAuth p) = Some ''hash:pw''"
    by (cases "new_route sample_api (sy_db empty_sys) ruled_body") (auto simp: map_eq_Cons_conv)
  with path_rules_round_trip [of sample_api "sy_db empty_sys" ruled_body r "[]" zero_route] show ?thesis by blast
qed

section \<open>Guided firewall rules\<close>

lemma next_rule_id_bound:
  "n \<le> fold (\<lambda>r n. if wr_ID r \<ge> n then wr_ID r + 1 else n) rs n \<and>
    (\<forall>r \<in> set rs. wr_ID r < fold (\<lambda>r n. if wr_ID r \<ge> n then wr_ID r + 1 else n) rs n)"
proof (induction rs arbitrary: n)
  case (Cons r rs)
  from Cons.IH [of "if wr_ID r \<ge> n then wr_ID r + 1 else n"] show ?case by (auto split: if_splits)
qed simp

lemma assign_ids_spec:
  assumes "assign_ids A known nxt seen ws = Inr out" "\<forall>i \<in> known \<union> seen. i < nxt"
  shows "length out = length ws" "distinct (map wr_ID out)" "wr_ID ` set out \<inter> seen = {}"
    "\<forall>r \<in> set out. wr_ID r \<in> known \<or> nxt \<le> wr_ID r \<and> wr_ID r \<le> CustomRuleMaxID"
    "\<forall>i < length ws. if wr_ID (ws ! i) = 0 then nxt \<le> wr_ID (out ! i) else wr_ID (out ! i) = wr_ID (ws ! i)"
proof -
  have "length out = length ws \<and> distinct (map wr_ID out) \<and> wr_ID ` set out \<inter> seen = {} \<and>
    (\<forall>r \<in> set out. wr_ID r \<in> known \<or> nxt \<le> wr_ID r \<and> wr_ID r \<le> CustomRuleMaxID) \<and>
    (\<forall>i < length ws. if wr_ID (ws ! i) = 0 then nxt \<le> wr_ID (out ! i) else wr_ID (out ! i) = wr_ID (ws ! i))"
    using assms
  proof (induction A known nxt seen ws arbitrary: out rule: assign_ids.induct)
    case (2 A known nxt seen w ws)
    then obtain r where r: "normalizeCustomRule A w = Inr r" by (auto split: sum.splits)
    show ?case
    proof (cases "wr_ID w = 0")
      case True
      with 2(3) r obtain out' where o: "\<not> nxt > CustomRuleMaxID" "out = r\<lparr>wr_ID := nxt\<rparr> # out'"
          "assign_ids A known (nxt + 1) (insert nxt seen) ws = Inr out'"
        by (auto simp: map_sum_def split: if_splits sum.splits)
      have "\<forall>i \<in> known \<union> insert nxt seen. i < nxt + 1" using 2(4) by (auto simp: less_imp_le ball_Un)
      note ih = 2(1) [OF r True o(1,3) this]
      have "wr_ID x \<noteq> nxt" if "x \<in> set out'" for x using ih that by auto
      moreover have "if wr_ID ((w # ws) ! i) = 0 then nxt \<le> wr_ID (out ! i) else wr_ID (out ! i) = wr_ID ((w # ws) ! i)"
        if "i < length (w # ws)" for i
      proof (cases i)
        case (Suc j)
        then have "if wr_ID (ws ! j) = 0 then nxt + 1 \<le> wr_ID (out' ! j) else wr_ID (out' ! j) = wr_ID (ws ! j)" using ih that by simp
        then show ?thesis using Suc o(2) by (auto split: if_splits)
      qed (simp add: o(2) True)
      moreover have "\<forall>r \<in> set out. wr_ID r \<in> known \<or> nxt \<le> wr_ID r \<and> wr_ID r \<le> CustomRuleMaxID"
        using ih o(1,2) by auto
      ultimately show ?thesis using ih o(2) 2(4) by auto
    next
      case False
      with 2(3) r obtain out' where o: "wr_ID w \<in> known" "wr_ID w \<notin> seen" "out = r\<lparr>wr_ID := wr_ID w\<rparr> # out'"
          "assign_ids A known nxt (insert (wr_ID w) seen) ws = Inr out'"
        by (auto simp: map_sum_def split: if_splits sum.splits)
      have "\<forall>i \<in> known \<union> insert (wr_ID w) seen. i < nxt" using 2(4) o(1) by auto
      moreover have "\<not> wr_ID w \<notin> known" using o(1) by simp
      ultimately have ih: "length out' = length ws \<and> distinct (map wr_ID out') \<and> wr_ID ` set out' \<inter> insert (wr_ID w) seen = {} \<and>
        (\<forall>r \<in> set out'. wr_ID r \<in> known \<or> nxt \<le> wr_ID r \<and> wr_ID r \<le> CustomRuleMaxID) \<and>
        (\<forall>i < length ws. if wr_ID (ws ! i) = 0 then nxt \<le> wr_ID (out' ! i) else wr_ID (out' ! i) = wr_ID (ws ! i))"
        using 2(2) [OF r False _ o(2,4)] by blast
      then show ?thesis using o(1,2,3) False by (auto simp: nth_Cons less_Suc_eq_0_disj split: nat.splits)
    qed
  qed simp
  then show "length out = length ws" "distinct (map wr_ID out)" "wr_ID ` set out \<inter> seen = {}"
    "\<forall>r \<in> set out. wr_ID r \<in> known \<or> nxt \<le> wr_ID r \<and> wr_ID r \<le> CustomRuleMaxID"
    "\<forall>i < length ws. if wr_ID (ws ! i) = 0 then nxt \<le> wr_ID (out ! i) else wr_ID (out ! i) = wr_ID (ws ! i)"
    by blast+
qed

text \<open>
  The identifiers of the guided firewall rules are stable and never clash: when the stored rules
  of a route have distinct identifiers of the range reserved for them, so have the accepted ones; a
  rule that is sent with its identifier keeps it, and a new rule gets one that no stored rule has.
\<close>

theorem custom_rule_ids:
  assumes "normalizeCustomRules A ws previous = Inr out" "\<forall>r \<in> set previous. CustomRuleMinID \<le> wr_ID r \<and> wr_ID r \<le> CustomRuleMaxID"
  shows "length out = length ws \<and> distinct (map wr_ID out) \<and>
    (\<forall>r \<in> set out. CustomRuleMinID \<le> wr_ID r \<and> wr_ID r \<le> CustomRuleMaxID) \<and>
    (\<forall>i < length ws. if wr_ID (ws ! i) = 0 then wr_ID (out ! i) \<notin> wr_ID ` set previous else wr_ID (out ! i) = wr_ID (ws ! i))"
proof -
  let ?n = "next_rule_id previous"
  have n: "CustomRuleMinID \<le> ?n" "\<forall>r \<in> set previous. wr_ID r < ?n"
    using next_rule_id_bound [of CustomRuleMinID previous] by (simp_all add: next_rule_id_def)
  have a: "assign_ids A (wr_ID ` set previous) ?n {} ws = Inr out"
    using assms(1) by (auto simp: normalizeCustomRules_def split: if_splits)
  have "\<forall>i \<in> wr_ID ` set previous \<union> {}. i < ?n" using n by auto
  note spec = assign_ids_spec [OF a this]
  have "\<forall>r \<in> set out. CustomRuleMinID \<le> wr_ID r \<and> wr_ID r \<le> CustomRuleMaxID" using spec(4) assms(2) n(1) by fastforce
  moreover have "if wr_ID (ws ! i) = 0 then wr_ID (out ! i) \<notin> wr_ID ` set previous else wr_ID (out ! i) = wr_ID (ws ! i)" if "i < length ws" for i
    using spec(5) that n(2) by fastforce
  ultimately show ?thesis using spec(1,2) by blast
qed

definition guided_rule :: "int \<Rightarrow> wafCustomRuleWire" where
  "guided_rule i = \<lparr>wr_ID = i, wr_Name = ''no trace'', wr_Disabled = False,
     wr_Conditions = [\<lparr>wc_Field = ''method'', wc_Header = [], wc_Operator = ''is'', wc_Values = [''trace'']\<rparr>]\<rparr>"

theorem custom_rule_ids_witness:
  "\<exists>out. normalizeCustomRules sample_api [guided_rule 0, guided_rule 120004] [guided_rule 120004] = Inr out \<and>
    distinct (map wr_ID out) \<and> length out = 2"
proof -
  have "map_sum id length (normalizeCustomRules sample_api [guided_rule 0, guided_rule 120004] [guided_rule 120004]) = Inr 2" by code_simp
  then obtain out where o: "normalizeCustomRules sample_api [guided_rule 0, guided_rule 120004] [guided_rule 120004] = Inr out" "length out = 2"
    by (cases "normalizeCustomRules sample_api [guided_rule 0, guided_rule 120004] [guided_rule 120004]") auto
  with custom_rule_ids [OF o(1)] show ?thesis by (simp add: guided_rule_def CustomRuleMinID_def CustomRuleMaxID_def)
qed

text \<open>
  The list of disabled rules of a route accepts what it should protect: a rule of a family that
  must never be excluded, such as the one that blocks on the anomaly score, is refused as a single
  exclusion but taken in the list an update carries.
\<close>

theorem protected_rule_can_be_listed:
  assumes "isProtectedWAFRule i"
  shows "validateExcludableRuleID i \<noteq> None \<and> normalizeExcludeRules [i] = Inr [i]"
proof -
  have "200000 \<le> i \<and> i \<le> 999999" using assms by (auto simp: isProtectedWAFRule_def)
  with assms show ?thesis
    unfolding validateExcludableRuleID_def first_error_None by (simp add: normalizeExcludeRules_def check_rule_id_def)
qed

theorem protected_rule_can_be_listed_witness:
  "validateExcludableRuleID 949110 \<noteq> None \<and> normalizeExcludeRules [949110] = Inr [949110]"
  by (rule protected_rule_can_be_listed) (simp add: isProtectedWAFRule_def)

end
