(* ===== verification/UserStore.thy ===== *)
theory UserStore
  imports AuthMiddleware Buckets
begin

text \<open>
  The user store, \<open>internal/auth/userstore.go\<close>, with the password policy of
  \<open>internal/auth/password.go\<close>. A user row extends the record that the middlewares read; rows that
  do not decode are \<open>None\<close> and a missing bucket is \<open>None\<close>. Every operation is one transaction of the
  embedded database. The argon2id library, the embedded list of common passwords and the answer
  of the breach service are arguments, and so are the clock and the fresh identifier of a row.
\<close>

record user_row = User +
  usr_DisplayName :: string
  usr_Email :: string
  usr_PasswordHash :: string
  usr_HIBPCheckStatus :: string
  usr_HIBPCheckedAt :: time
  usr_PasswordCompromised :: bool
  usr_CreatedAt :: time
  usr_UpdatedAt :: time
  usr_LastLoginAt :: time
  usr_ThemePreference :: string
  usr_LanguagePreference :: string
  usr_OIDCSub :: string

type_synonym user_db = "user_row bucket option"

datatype user_error = UserLookup auth_error | ErrUsernameTaken | ErrRoleInvalid | ErrUsernameInvalid
  | ErrDisplayNameTooLong | ErrPasswordTooShort | ErrPasswordTooLong | ErrPasswordCommon | ErrThemeInvalid
  | ErrLanguageInvalid | ErrHashPassword | ErrLastLocalAdmin | ErrSubEmpty | ErrSubTaken

definition UserAuthSourceLocal :: string where "UserAuthSourceLocal = ''local''"
definition UserAuthSourceOIDC :: string where "UserAuthSourceOIDC = ''oidc''"
definition UserAuthSourceService :: string where "UserAuthSourceService = ''service''"
definition UserRoleViewer :: string where "UserRoleViewer = ''viewer''"
definition UsernameMinLen :: nat where "UsernameMinLen = 3"
definition UsernameMaxLen :: nat where "UsernameMaxLen = 32"
definition DisplayNameMaxLen :: nat where "DisplayNameMaxLen = 64"
definition PasswordMinLen :: nat where "PasswordMinLen = 15"
definition PasswordMaxLen :: nat where "PasswordMaxLen = 128"

lemmas account_consts = UserAuthSourceLocal_def UserAuthSourceOIDC_def UserAuthSourceService_def UserRoleViewer_def
  UserRoleAdmin_def
lemmas account_bounds = UsernameMinLen_def UsernameMaxLen_def DisplayNameMaxLen_def PasswordMinLen_def PasswordMaxLen_def

section \<open>Checks\<close>

text \<open>\<open>usernameRegex\<close> and the length bounds, as the stores apply them to a trimmed name.\<close>

definition username_char :: "char \<Rightarrow> bool" where
  "username_char c \<longleftrightarrow> CHR ''a'' \<le> c \<and> c \<le> CHR ''z'' \<or> CHR ''0'' \<le> c \<and> c \<le> CHR ''9'' \<or> c = CHR ''_'' \<or> c = CHR ''-''"

definition usernameRegex :: "string \<Rightarrow> bool" where
  "usernameRegex s \<longleftrightarrow> s \<noteq> [] \<and> list_all username_char s"

definition username_ok :: "string \<Rightarrow> bool" where
  "username_ok s \<longleftrightarrow> usernameRegex s \<and> UsernameMinLen \<le> length s \<and> length s \<le> UsernameMaxLen"

definition role_ok :: "string \<Rightarrow> bool" where
  "role_ok r \<longleftrightarrow> r = UserRoleViewer \<or> r = UserRoleAdmin"

definition password_length :: "string \<Rightarrow> user_error option" where
  "password_length p =
     (if length p < PasswordMinLen then Some ErrPasswordTooShort
      else if length p > PasswordMaxLen then Some ErrPasswordTooLong else None)"

definition ValidateUserForRestore :: "user_row \<Rightarrow> bool \<Rightarrow> string option" where
  "ValidateUserForRestore u allowEmptyPasswordHash =
     (if \<not> username_ok (trimSpace (usr_Username u)) then Some ''username''
      else if length (usr_DisplayName u) > DisplayNameMaxLen then Some ''display name''
      else if usr_ID u = [] then Some ''empty ID''
      else if usr_AuthSource u \<notin> {UserAuthSourceLocal, UserAuthSourceOIDC, UserAuthSourceService} then Some ''auth_source''
      else if \<not> role_ok (usr_Role u) then Some ''role''
      else if usr_AuthSource u = UserAuthSourceLocal \<and> usr_PasswordHash u = [] \<and> \<not> allowEmptyPasswordHash
      then Some ''password_hash'' else None)"

text \<open>\<open>ValidatePasswordSync\<close>: an error of the breach service counts as a pending check.\<close>

definition ValidatePasswordSync ::
  "(string \<Rightarrow> bool) \<Rightarrow> (string \<Rightarrow> string option) \<Rightarrow> string \<Rightarrow> user_error + string" where
  "ValidatePasswordSync isCommonPassword hibp password =
     (case password_length password of
        Some e \<Rightarrow> Inl e
      | None \<Rightarrow>
          if isCommonPassword password then Inl ErrPasswordCommon
          else case hibp password of
                 None \<Rightarrow> Inr ''pending''
               | Some status \<Rightarrow> if status = ''compromised'' then Inl ErrPasswordCommon else Inr status)"

section \<open>Creating users\<close>

definition new_user :: "string \<Rightarrow> time \<Rightarrow> string \<Rightarrow> user_row" where
  "new_user uuid now username =
     \<lparr>usr_ID = uuid, usr_Username = username, usr_Role = [], usr_AuthSource = [], usr_MustChangePassword = False,
      usr_DisplayName = [], usr_Email = [], usr_PasswordHash = [], usr_HIBPCheckStatus = [], usr_HIBPCheckedAt = zero_time,
      usr_PasswordCompromised = False, usr_CreatedAt = now, usr_UpdatedAt = now, usr_LastLoginAt = zero_time,
      usr_ThemePreference = [], usr_LanguagePreference = [], usr_OIDCSub = []\<rparr>"

definition insertUnique :: "user_row \<Rightarrow> user_db \<Rightarrow> user_db \<times> (user_error + user_row)" where
  "insertUnique user db =
     (case db of
        None \<Rightarrow> (None, Inl (UserLookup ErrBucketMissing))
      | Some b \<Rightarrow>
          if name_taken usr_Username None (usr_Username user) b then (db, Inl ErrUsernameTaken)
          else (Some (gm_put (usr_ID user) (Some user) b), Inr user))"

definition Create_user ::
  "(string \<Rightarrow> string option) \<Rightarrow> string \<Rightarrow> time \<Rightarrow> string \<Rightarrow> string \<Rightarrow> string \<Rightarrow> string \<Rightarrow> user_db \<Rightarrow>
     user_db \<times> (user_error + user_row)" where
  "Create_user createHash uuid now username displayName email password db =
     (let name = trimSpace username
      in if \<not> username_ok name then (db, Inl ErrUsernameInvalid)
         else if length displayName > DisplayNameMaxLen then (db, Inl ErrDisplayNameTooLong)
         else case password_length password of
                Some e \<Rightarrow> (db, Inl e)
              | None \<Rightarrow>
                  (case createHash password of
                     None \<Rightarrow> (db, Inl ErrHashPassword)
                   | Some hash \<Rightarrow>
                       insertUnique ((new_user uuid now name)\<lparr>usr_DisplayName := displayName, usr_Email := trimSpace email,
                         usr_PasswordHash := hash, usr_HIBPCheckStatus := ''pending'', usr_HIBPCheckedAt := now,
                         usr_AuthSource := UserAuthSourceLocal, usr_Role := UserRoleAdmin\<rparr>) db))"

record ManagedUserSpec =
  ms_Username :: string
  ms_DisplayName :: string
  ms_Email :: string
  ms_Password :: string
  ms_Role :: string

definition CreateManaged ::
  "(string \<Rightarrow> string option) \<Rightarrow> string \<Rightarrow> time \<Rightarrow> ManagedUserSpec \<Rightarrow> user_db \<Rightarrow> user_db \<times> (user_error + user_row)" where
  "CreateManaged createHash uuid now spec db =
     (let name = trimSpace (ms_Username spec)
      in if \<not> username_ok name then (db, Inl ErrUsernameInvalid)
         else if length (ms_DisplayName spec) > DisplayNameMaxLen then (db, Inl ErrDisplayNameTooLong)
         else if \<not> role_ok (ms_Role spec) then (db, Inl ErrRoleInvalid)
         else case password_length (ms_Password spec) of
                Some e \<Rightarrow> (db, Inl e)
              | None \<Rightarrow>
                  (case createHash (ms_Password spec) of
                     None \<Rightarrow> (db, Inl ErrHashPassword)
                   | Some hash \<Rightarrow>
                       insertUnique ((new_user uuid now name)\<lparr>usr_DisplayName := ms_DisplayName spec,
                         usr_Email := trimSpace (ms_Email spec), usr_PasswordHash := hash, usr_HIBPCheckStatus := ''pending'',
                         usr_HIBPCheckedAt := now, usr_AuthSource := UserAuthSourceLocal, usr_Role := ms_Role spec,
                         usr_MustChangePassword := True\<rparr>) db))"

definition CreateServiceAccount ::
  "string \<Rightarrow> time \<Rightarrow> string \<Rightarrow> string \<Rightarrow> user_db \<Rightarrow> user_db \<times> (user_error + user_row)" where
  "CreateServiceAccount uuid now name0 role db =
     (let name = trimSpace name0
      in if \<not> username_ok name then (db, Inl ErrUsernameInvalid)
         else if \<not> role_ok role then (db, Inl ErrRoleInvalid)
         else insertUnique ((new_user uuid now name)\<lparr>usr_DisplayName := name, usr_AuthSource := UserAuthSourceService,
                usr_Role := role, usr_HIBPCheckStatus := ''skipped'', usr_HIBPCheckedAt := now\<rparr>) db)"

definition sub_taken :: "string \<Rightarrow> user_row bucket \<Rightarrow> bool" where
  "sub_taken sub b \<longleftrightarrow>
     (\<exists>(k, v) \<in> set b. case v of None \<Rightarrow> False | Some u \<Rightarrow> usr_OIDCSub u \<noteq> [] \<and> usr_OIDCSub u = sub)"

definition CreateOIDCUser ::
  "string \<Rightarrow> time \<Rightarrow> string \<Rightarrow> string \<Rightarrow> string \<Rightarrow> string \<Rightarrow> user_db \<Rightarrow> user_db \<times> (user_error + user_row)" where
  "CreateOIDCUser uuid now username displayName email oidcSub db =
     (let name = trimSpace username
      in if \<not> username_ok name then (db, Inl ErrUsernameInvalid)
         else if length displayName > DisplayNameMaxLen then (db, Inl ErrDisplayNameTooLong)
         else if oidcSub = [] then (db, Inl ErrSubEmpty)
         else
           let user = (new_user uuid now name)\<lparr>usr_DisplayName := displayName, usr_Email := trimSpace email,
                 usr_HIBPCheckStatus := ''skipped'', usr_AuthSource := UserAuthSourceOIDC, usr_OIDCSub := oidcSub,
                 usr_Role := UserRoleViewer\<rparr>
           in case db of
                None \<Rightarrow> (None, Inl (UserLookup ErrBucketMissing))
              | Some b \<Rightarrow>
                  if name_taken usr_Username None name b then (db, Inl ErrUsernameTaken)
                  else if sub_taken oidcSub b then (db, Inl ErrSubTaken)
                  else (Some (gm_put (usr_ID user) (Some user) b), Inr user))"

section \<open>Reading users\<close>

definition user_GetByID :: "string \<Rightarrow> user_db \<Rightarrow> auth_error + user_row" where
  "user_GetByID uid db =
     (if uid = [] then Inl ErrUserNotFound
      else case db of
             None \<Rightarrow> Inl ErrBucketMissing
           | Some b \<Rightarrow>
               (case gm_get b uid of
                  None \<Rightarrow> Inl ErrUserNotFound
                | Some None \<Rightarrow> Inl auth_error.ErrUnmarshal
                | Some (Some u) \<Rightarrow> Inr u))"

text \<open>The scans: rows that do not decode are skipped; the first row with a name, the last with a subject.\<close>

definition decoded :: "'a bucket \<Rightarrow> 'a list" where
  "decoded b = List.map_filter snd b"

definition GetByUsername :: "string \<Rightarrow> user_db \<Rightarrow> auth_error + user_row" where
  "GetByUsername username db =
     (let name = trimSpace username
      in if name = [] then Inl ErrUserNotFound
         else case db of
                None \<Rightarrow> Inl ErrBucketMissing
              | Some b \<Rightarrow>
                  (case find (\<lambda>u. usr_Username u = name) (decoded b) of
                     None \<Rightarrow> Inl ErrUserNotFound | Some u \<Rightarrow> Inr u))"

definition GetByOIDCSub :: "string \<Rightarrow> user_db \<Rightarrow> auth_error + user_row" where
  "GetByOIDCSub sub db =
     (if sub = [] then Inl ErrUserNotFound
      else case db of
             None \<Rightarrow> Inl ErrBucketMissing
           | Some b \<Rightarrow>
               (case find (\<lambda>u. usr_OIDCSub u \<noteq> [] \<and> usr_OIDCSub u = sub) (rev (decoded b)) of
                  None \<Rightarrow> Inl ErrUserNotFound | Some u \<Rightarrow> Inr u))"

definition Count :: "user_db \<Rightarrow> auth_error + nat" where
  "Count db = (case db of None \<Rightarrow> Inl ErrBucketMissing | Some b \<Rightarrow> Inr (length b))"

definition local_admin :: "user_row \<Rightarrow> bool" where
  "local_admin u \<longleftrightarrow> usr_AuthSource u = UserAuthSourceLocal \<and> usr_Role u = UserRoleAdmin"

definition CountLocalAdmins :: "user_db \<Rightarrow> auth_error + nat" where
  "CountLocalAdmins db =
     (case db of None \<Rightarrow> Inl ErrBucketMissing | Some b \<Rightarrow> Inr (length (filter local_admin (decoded b))))"

definition List_users :: "user_db \<Rightarrow> auth_error + user_row list" where
  "List_users db =
     (case db of None \<Rightarrow> Inl ErrBucketMissing | Some b \<Rightarrow> Inr (sort_key usr_CreatedAt (decoded b)))"

section \<open>Changing users\<close>

text \<open>Read a row, change it or refuse, write it back.\<close>

definition change_user ::
  "string \<Rightarrow> (user_row bucket \<Rightarrow> user_row \<Rightarrow> user_error + user_row) \<Rightarrow> user_db \<Rightarrow> user_db \<times> user_error option" where
  "change_user uid f db =
     (if uid = [] then (db, Some (UserLookup ErrUserNotFound))
      else case db of
             None \<Rightarrow> (None, Some (UserLookup ErrBucketMissing))
           | Some b \<Rightarrow>
               (case gm_get b uid of
                  None \<Rightarrow> (db, Some (UserLookup ErrUserNotFound))
                | Some None \<Rightarrow> (db, Some (UserLookup auth_error.ErrUnmarshal))
                | Some (Some u) \<Rightarrow>
                    (case f b u of Inl e \<Rightarrow> (db, Some e) | Inr u' \<Rightarrow> (Some (gm_put uid (Some u') b), None))))"

definition UpdatePassword ::
  "(string \<Rightarrow> string option) \<Rightarrow> time \<Rightarrow> string \<Rightarrow> string \<Rightarrow> user_db \<Rightarrow> user_db \<times> user_error option" where
  "UpdatePassword createHash now uid newPassword db =
     (if uid = [] then (db, Some (UserLookup ErrUserNotFound))
      else case password_length newPassword of
             Some e \<Rightarrow> (db, Some e)
           | None \<Rightarrow>
               (case createHash newPassword of
                  None \<Rightarrow> (db, Some ErrHashPassword)
                | Some hash \<Rightarrow>
                    change_user uid (\<lambda>_ u. Inr (u\<lparr>usr_PasswordHash := hash, usr_HIBPCheckStatus := ''pending'',
                      usr_HIBPCheckedAt := zero_time, usr_PasswordCompromised := False, usr_MustChangePassword := False,
                      usr_UpdatedAt := now\<rparr>)) db))"

definition UpdateHIBPStatus ::
  "time \<Rightarrow> string \<Rightarrow> string \<Rightarrow> bool \<Rightarrow> user_db \<Rightarrow> user_db \<times> user_error option" where
  "UpdateHIBPStatus now uid status compromised =
     change_user uid (\<lambda>_ u. Inr (u\<lparr>usr_HIBPCheckStatus := status, usr_HIBPCheckedAt := now,
       usr_PasswordCompromised := compromised, usr_UpdatedAt := now\<rparr>))"

definition UpdateThemePreference :: "time \<Rightarrow> string \<Rightarrow> string \<Rightarrow> user_db \<Rightarrow> user_db \<times> user_error option" where
  "UpdateThemePreference now uid theme db =
     (if uid = [] then (db, Some (UserLookup ErrUserNotFound))
      else if theme \<noteq> ''dark'' \<and> theme \<noteq> ''light'' then (db, Some ErrThemeInvalid)
      else change_user uid (\<lambda>_ u. Inr (u\<lparr>usr_ThemePreference := theme, usr_UpdatedAt := now\<rparr>)) db)"

definition UpdateLanguagePreference :: "time \<Rightarrow> string \<Rightarrow> string \<Rightarrow> user_db \<Rightarrow> user_db \<times> user_error option" where
  "UpdateLanguagePreference now uid language db =
     (if uid = [] then (db, Some (UserLookup ErrUserNotFound))
      else if language \<noteq> ''en'' \<and> language \<noteq> ''fr'' then (db, Some ErrLanguageInvalid)
      else change_user uid (\<lambda>_ u. Inr (u\<lparr>usr_LanguagePreference := language, usr_UpdatedAt := now\<rparr>)) db)"

definition RecordLogin :: "time \<Rightarrow> string \<Rightarrow> user_db \<Rightarrow> user_db \<times> user_error option" where
  "RecordLogin now uid = change_user uid (\<lambda>_ u. Inr (u\<lparr>usr_LastLoginAt := now\<rparr>))"

definition UpdateEmail :: "time \<Rightarrow> string \<Rightarrow> string \<Rightarrow> user_db \<Rightarrow> user_db \<times> user_error option" where
  "UpdateEmail now uid email =
     change_user uid (\<lambda>_ u. Inr (if usr_Email u = email then u else u\<lparr>usr_Email := email, usr_UpdatedAt := now\<rparr>))"

text \<open>The local administrators other than one row, counted inside the transaction.\<close>

definition otherLocalAdmins :: "string \<Rightarrow> user_row bucket \<Rightarrow> nat" where
  "otherLocalAdmins uid b =
     length (filter (\<lambda>(k, v). k \<noteq> uid \<and> (case v of None \<Rightarrow> False | Some u \<Rightarrow> local_admin u)) b)"

definition UpdateRole :: "time \<Rightarrow> string \<Rightarrow> string \<Rightarrow> user_db \<Rightarrow> user_db \<times> user_error option" where
  "UpdateRole now uid newRole db =
     (if uid = [] then (db, Some (UserLookup ErrUserNotFound))
      else if \<not> role_ok newRole then (db, Some ErrRoleInvalid)
      else change_user uid (\<lambda>b u.
             if local_admin u \<and> newRole = UserRoleViewer \<and> otherLocalAdmins uid b = 0 then Inl ErrLastLocalAdmin
             else if usr_Role u = newRole then Inr u
             else Inr (u\<lparr>usr_Role := newRole, usr_UpdatedAt := now\<rparr>)) db)"

definition Delete_user :: "string \<Rightarrow> user_db \<Rightarrow> user_db \<times> user_error option" where
  "Delete_user uid db =
     (if uid = [] then (db, Some (UserLookup ErrUserNotFound))
      else case db of
             None \<Rightarrow> (None, Some (UserLookup ErrBucketMissing))
           | Some b \<Rightarrow>
               (case gm_get b uid of
                  None \<Rightarrow> (db, Some (UserLookup ErrUserNotFound))
                | Some None \<Rightarrow> (db, Some (UserLookup auth_error.ErrUnmarshal))
                | Some (Some u) \<Rightarrow>
                    if local_admin u \<and> otherLocalAdmins uid b = 0 then (db, Some ErrLastLocalAdmin)
                    else (Some (gm_del uid b), None)))"

end
