(* ===== verification/OidcStore.thy ===== *)
theory OidcStore
  imports UserStore "HOL-Library.Word"
begin

text \<open>
  Single sign-on without its HTTP traffic: the configuration row
  (\<open>internal/storage/oidc_config.go\<close>), the client that is rebuilt when the configuration changes
  (\<open>OIDCManager\<close> of \<open>internal/api/oidc.go\<close>), the allowlist match, the names of the users that a
  first login creates, and the comparison of the state parameter with its cookie.
\<close>

section \<open>The configuration row\<close>

record OIDCAllowedIdentity =
  ai_Email :: string
  ai_DisplayName :: string
  ai_Sub :: string
  ai_AddedAt :: time
  ai_FirstLoginAt :: time

record OIDCConfig =
  oc_Enabled :: bool
  oc_IssuerURL :: string
  oc_ClientID :: string
  oc_ClientSecret :: string
  oc_AllowedIdentities :: "OIDCAllowedIdentity list"
  oc_Kind :: string
  oc_Scopes :: "string list"
  oc_RedirectURL :: string
  oc_AcceptUnverifiedEmail :: bool
  oc_CreatedAt :: time
  oc_UpdatedAt :: time

definition zero_oidc :: OIDCConfig where
  "zero_oidc = \<lparr>oc_Enabled = False, oc_IssuerURL = [], oc_ClientID = [], oc_ClientSecret = [], oc_AllowedIdentities = [],
     oc_Kind = [], oc_Scopes = [], oc_RedirectURL = [], oc_AcceptUnverifiedEmail = False, oc_CreatedAt = zero_time,
     oc_UpdatedAt = zero_time\<rparr>"

definition OIDCProviderKinds :: "string list" where
  "OIDCProviderKinds = [''authentik'', ''keycloak'', ''authelia'', ''generic'']"

definition OIDC_validate :: "golib \<Rightarrow> OIDCConfig \<Rightarrow> string option" where
  "OIDC_validate L c =
     (if \<not> oc_Enabled c then None
      else if oc_IssuerURL c = [] then Some ''issuer_url must not be empty''
      else case lib_url L (oc_IssuerURL c) of
             None \<Rightarrow> Some ''issuer_url is not a valid URL''
           | Some u \<Rightarrow>
               if url_Host u = [] then Some ''issuer_url is not a valid URL''
               else if url_Scheme u \<notin> {''http'', ''https''} then Some ''issuer_url scheme''
               else if oc_ClientID c = [] then Some ''client_id must not be empty''
               else if oc_ClientSecret c = [] then Some ''client_secret must not be empty''
               else if oc_RedirectURL c = [] then Some ''redirect_url must not be empty''
               else if lib_url L (oc_RedirectURL c) = None then Some ''redirect_url is not a valid URL''
               else if oc_Scopes c = [] then Some ''scopes must not be empty''
               else if oc_Kind c \<noteq> [] \<and> oc_Kind c \<notin> set OIDCProviderKinds then Some ''kind''
               else None)"

text \<open>The bucket holds one row at most; a row that does not decode is \<open>Some None\<close>.\<close>

type_synonym oidc_db = "OIDCConfig option option"

definition GetOIDCConfig :: "oidc_db \<Rightarrow> store_error + OIDCConfig" where
  "GetOIDCConfig d = (case d of None \<Rightarrow> Inl ErrNotFound | Some None \<Rightarrow> Inl store_error.ErrUnmarshal | Some (Some c) \<Rightarrow> Inr c)"

definition PutOIDCConfig :: "golib \<Rightarrow> time \<Rightarrow> OIDCConfig \<Rightarrow> oidc_db \<Rightarrow> oidc_db \<times> store_error option" where
  "PutOIDCConfig L now c d =
     (case OIDC_validate L c of
        Some e \<Rightarrow> (d, Some (ErrInvalid e))
      | None \<Rightarrow>
          let created = (if oc_CreatedAt c = zero_time then now else oc_CreatedAt c);
              kept = (case d of Some (Some x) \<Rightarrow> if oc_CreatedAt x = zero_time then created else oc_CreatedAt x | _ \<Rightarrow> created)
          in (Some (Some (c\<lparr>oc_UpdatedAt := now, oc_CreatedAt := kept\<rparr>)), None))"

definition OIDCConfigEverConfigured :: "oidc_db \<Rightarrow> store_error + bool" where
  "OIDCConfigEverConfigured d =
     (case GetOIDCConfig d of Inr _ \<Rightarrow> Inr True | Inl ErrNotFound \<Rightarrow> Inr False | Inl e \<Rightarrow> Inl e)"

section \<open>The client\<close>

text \<open>The provider, verifier and OAuth client are built together; what they depend on is the configuration.\<close>

record OIDCManager =
  mg_built :: "OIDCConfig option"
  mg_cfgHash :: string

definition NewOIDCManager :: OIDCManager where "NewOIDCManager = \<lparr>mg_built = None, mg_cfgHash = []\<rparr>"

definition configHash :: "OIDCConfig \<Rightarrow> string" where
  "configHash cfg = joinWith ''|'' [oc_IssuerURL cfg, oc_ClientID cfg, oc_ClientSecret cfg, joinWith '','' (oc_Scopes cfg),
     oc_RedirectURL cfg, if oc_Enabled cfg then ''true'' else ''false'']"

text \<open>\<open>discover\<close> tells whether the discovery document of an issuer can be fetched.\<close>

definition EnsureBuilt :: "(string \<Rightarrow> bool) \<Rightarrow> OIDCConfig \<Rightarrow> OIDCManager \<Rightarrow> OIDCManager \<times> bool" where
  "EnsureBuilt discover cfg m =
     (if \<not> oc_Enabled cfg then (m, False)
      else if mg_cfgHash m = configHash cfg \<and> mg_built m \<noteq> None then (m, True)
      else if discover (oc_IssuerURL cfg) then (\<lparr>mg_built = Some cfg, mg_cfgHash = configHash cfg\<rparr>, True)
      else (m, False))"

section \<open>The allowlist\<close>

fun find_index :: "('a \<Rightarrow> bool) \<Rightarrow> 'a list \<Rightarrow> nat option" where
  "find_index p [] = None"
| "find_index p (x # xs) = (if p x then Some 0 else map_option Suc (find_index p xs))"

text \<open>The index of the entry and whether it has to be bound to the subject; \<open>None\<close> for the index -1.\<close>

definition matchAllowlist ::
  "golib \<Rightarrow> OIDCAllowedIdentity list \<Rightarrow> string \<Rightarrow> string \<Rightarrow> bool \<Rightarrow> bool \<Rightarrow> (nat \<times> bool) option" where
  "matchAllowlist L entries sub email emailVerified acceptUnverifiedEmail =
     (case find_index (\<lambda>e. ai_Sub e \<noteq> [] \<and> ai_Sub e = sub) entries of
        Some i \<Rightarrow> Some (i, False)
      | None \<Rightarrow>
          if \<not> emailVerified \<and> \<not> acceptUnverifiedEmail then None
          else
            let emailLower = toLower L (trimSpace email)
            in if emailLower = [] then None
               else map_option (\<lambda>i. (i, True))
                 (find_index (\<lambda>e. ai_Sub e = [] \<and> toLower L (trimSpace (ai_Email e)) = emailLower) entries))"

section \<open>Names of new users\<close>

definition sanitizeUsername :: "golib \<Rightarrow> string \<Rightarrow> string" where
  "sanitizeUsername L s =
     (let out = filter username_char (toLower L (trimSpace s))
      in if length out < UsernameMinLen then [] else take UsernameMaxLen out)"

definition pickOIDCUsername :: "golib \<Rightarrow> string \<Rightarrow> string \<Rightarrow> string \<Rightarrow> string" where
  "pickOIDCUsername L preferred email sub =
     (let local_part = takeWhile (\<lambda>c. c \<noteq> CHR ''@'') email;
          u1 = sanitizeUsername L preferred;
          u2 = (if CHR ''@'' \<in> set email \<and> local_part \<noteq> [] then sanitizeUsername L local_part else []);
          u3 = sanitizeUsername L sub
      in if u1 \<noteq> [] then u1 else if u2 \<noteq> [] then u2 else if u3 \<noteq> [] then u3 else ''oidc-user'')"

definition uniqueSuffix :: "string \<Rightarrow> string \<Rightarrow> string" where
  "uniqueSuffix base sub =
     (let picked = take 6 (filter (\<lambda>c. CHR ''a'' \<le> c \<and> c \<le> CHR ''z'' \<or> CHR ''0'' \<le> c \<and> c \<le> CHR ''9'') sub);
          suffix = (if picked = [] then ''oidc'' else picked)
      in take UsernameMaxLen (base @ ''-'' @ suffix))"

section \<open>Comparing strings\<close>

definition char_byte :: "char \<Rightarrow> 8 word" where "char_byte c = of_nat (byte_of c)"

unbundle bit_operations_syntax

definition constantTimeStringEqual :: "string \<Rightarrow> string \<Rightarrow> bool" where
  "constantTimeStringEqual a b =
     (if length a \<noteq> length b then False
      else fold (\<lambda>(x, y) diff. diff OR (char_byte x XOR char_byte y)) (zip a b) 0 = 0)"

text \<open>Error text of the identity provider on its way into the audit log.\<close>

definition oidcErrorParamMaxLen :: nat where "oidcErrorParamMaxLen = 64"

definition sanitizeOIDCErrorParam :: "string \<Rightarrow> string" where
  "sanitizeOIDCErrorParam s = filter (\<lambda>c. 32 \<le> byte_of c \<and> byte_of c < 127) (take oidcErrorParamMaxLen s)"

end
