(* ===== verification/AccountHandlers.thy ===== *)
theory AccountHandlers
  imports OidcStore RateLimiter
begin

text \<open>
  The handlers of accounts and sessions: \<open>internal/api/auth_handlers.go\<close>, \<open>users_create.go\<close>,
  \<open>users_admin.go\<close>, \<open>service_accounts.go\<close>, the cookies of \<open>session_cookie.go\<close> and the setup token of
  \<open>setup_token.go\<close>. A handler takes the environment, what the call brings along (clock, random
  values, the identity the middlewares resolved) and the decoded body, \<open>None\<close> for a body that does
  not decode, and returns the state and the answer. The login time is recorded by a goroutine in
  the code and at the point of the call here.
\<close>

section \<open>State, environment and answers\<close>

record accounts =
  ac_users :: user_db
  ac_sessions :: session_db
  ac_tokens :: token_db
  ac_limiter :: RateLimiter
  ac_setup :: string
  ac_oidc :: oidc_db
  ac_client :: OIDCManager

record env =
  en_go :: golib
  en_fold :: "string \<Rightarrow> string \<Rightarrow> bool"
  en_sha :: "string \<Rightarrow> string"
  en_compare :: "string \<Rightarrow> string \<Rightarrow> bool option"
  en_common :: "string \<Rightarrow> bool"
  en_hibp :: "string \<Rightarrow> string option"
  en_discover :: "string \<Rightarrow> bool"

record call =
  cl_now :: time
  cl_uuid :: string
  cl_hash :: "string \<Rightarrow> string option"
  cl_session :: "string option"
  cl_token :: "string option"
  cl_tokenID :: string
  cl_ip :: string
  cl_agent :: string
  cl_secure :: bool
  cl_who :: identity

datatype same_site = SameSiteLax | SameSiteStrict

record cookie =
  ck_Name :: string
  ck_Value :: string
  ck_MaxAge :: int
  ck_HttpOnly :: bool
  ck_Secure :: bool
  ck_SameSite :: same_site

record acct_event =
  ev_Action :: string
  ev_Actor :: string
  ev_Target :: string
  ev_Message :: string
  ev_After :: "user_row option"

record acct_answer =
  an_status :: nat
  an_error :: string
  an_cookies :: "cookie list"
  an_audit :: "acct_event list"

definition fail :: "nat \<Rightarrow> string \<Rightarrow> acct_answer" where
  "fail status msg = \<lparr>an_status = status, an_error = msg, an_cookies = [], an_audit = []\<rparr>"

definition ok :: "nat \<Rightarrow> cookie list \<Rightarrow> acct_event list \<Rightarrow> acct_answer" where
  "ok status cs evs = \<lparr>an_status = status, an_error = [], an_cookies = cs, an_audit = evs\<rparr>"

text \<open>\<open>appendAudit\<close> fills the actor from the identity of the request when the handler left it empty.\<close>

definition event :: "call \<Rightarrow> string \<Rightarrow> string \<Rightarrow> string \<Rightarrow> acct_event" where
  "event c action target message =
     \<lparr>ev_Action = action, ev_Actor = id_UserID (cl_who c), ev_Target = target, ev_Message = message, ev_After = None\<rparr>"

section \<open>Cookies\<close>

definition seconds :: "duration \<Rightarrow> int" where "seconds d = d div ns_second"

definition setSessionCookie :: "call \<Rightarrow> string \<Rightarrow> bool \<Rightarrow> cookie" where
  "setSessionCookie c sessionID rememberMe =
     \<lparr>ck_Name = ''arenet_session'', ck_Value = sessionID,
      ck_MaxAge = seconds (if rememberMe then SessionTTLRememberMe else SessionTTLDefault),
      ck_HttpOnly = True, ck_Secure = cl_secure c, ck_SameSite = SameSiteStrict\<rparr>"

definition clearSessionCookieOnResponse :: "bool \<Rightarrow> cookie" where
  "clearSessionCookieOnResponse devMode =
     \<lparr>ck_Name = ''arenet_session'', ck_Value = [], ck_MaxAge = - 1, ck_HttpOnly = True, ck_Secure = (\<not> devMode),
      ck_SameSite = SameSiteStrict\<rparr>"

definition setThemeCookie :: "call \<Rightarrow> string \<Rightarrow> cookie" where
  "setThemeCookie c theme = \<lparr>ck_Name = ''arenet_theme'', ck_Value = theme, ck_MaxAge = 30 * 24 * 60 * 60,
     ck_HttpOnly = False, ck_Secure = cl_secure c, ck_SameSite = SameSiteLax\<rparr>"

definition clearThemeCookieOnResponse :: "call \<Rightarrow> cookie" where
  "clearThemeCookieOnResponse c = (setThemeCookie c [])\<lparr>ck_MaxAge := - 1\<rparr>"

definition setLanguageCookie :: "call \<Rightarrow> string \<Rightarrow> cookie" where
  "setLanguageCookie c language = \<lparr>ck_Name = ''arenet_language'', ck_Value = language, ck_MaxAge = 30 * 24 * 60 * 60,
     ck_HttpOnly = False, ck_Secure = cl_secure c, ck_SameSite = SameSiteLax\<rparr>"

definition normalizeThemeForCookie :: "string \<Rightarrow> string" where
  "normalizeThemeForCookie theme = (if theme = ''light'' then ''light'' else ''dark'')"

definition normalizeLanguageForCookie :: "string \<Rightarrow> string" where
  "normalizeLanguageForCookie language = (if language = ''fr'' then ''fr'' else ''en'')"

definition signed_in :: "call \<Rightarrow> string \<Rightarrow> bool \<Rightarrow> user_row \<Rightarrow> cookie list" where
  "signed_in c sessionID rememberMe user =
     [setSessionCookie c sessionID rememberMe, setThemeCookie c (normalizeThemeForCookie (usr_ThemePreference user)),
      setLanguageCookie c (normalizeLanguageForCookie (usr_LanguagePreference user))]"

section \<open>Setup\<close>

record setupRequest =
  sq_SetupToken :: string
  sq_Username :: string
  sq_DisplayName :: string
  sq_Email :: string
  sq_Password :: string

definition Verify :: "string \<Rightarrow> string \<Rightarrow> bool" where
  "Verify token candidate \<longleftrightarrow> token \<noteq> [] \<and> token = candidate"

definition email_refused :: "string \<Rightarrow> string option" where
  "email_refused email =
     (if length email > 320 then Some ''email exceeds 320 characters''
      else if CHR ''@'' \<notin> set email then Some ''email must contain @'' else None)"

definition password_refused :: "user_error \<Rightarrow> acct_answer" where
  "password_refused e =
     (case e of
        ErrPasswordTooShort \<Rightarrow> fail 400 ''password must be at least 15 characters''
      | ErrPasswordTooLong \<Rightarrow> fail 400 ''password must be at most 128 characters''
      | ErrPasswordCommon \<Rightarrow> fail 400 ''password is in the list of common compromised passwords''
      | _ \<Rightarrow> fail 500 ''internal error'')"

definition setup_refused :: "user_error \<Rightarrow> acct_answer" where
  "setup_refused e =
     (case e of
        ErrUsernameInvalid \<Rightarrow> fail 400 ''username must be lowercase''
      | ErrDisplayNameTooLong \<Rightarrow> fail 400 ''displayName must be at most 64 characters''
      | ErrUsernameTaken \<Rightarrow> fail 404 ''setup unavailable: an admin already exists''
      | ErrPasswordTooShort \<Rightarrow> fail 400 ''password''
      | ErrPasswordTooLong \<Rightarrow> fail 400 ''password''
      | _ \<Rightarrow> fail 500 ''internal error'')"

definition setupStatus :: "accounts \<Rightarrow> bool" where
  "setupStatus a \<longleftrightarrow> Count (ac_users a) = Inr 0"

text \<open>The steps after the checks: user, breach status, session, token.\<close>

definition setup_user :: "env \<Rightarrow> call \<Rightarrow> setupRequest \<Rightarrow> string \<Rightarrow> string \<Rightarrow> accounts \<Rightarrow> accounts \<times> acct_answer" where
  "setup_user E c req email hibpStatus a =
     (case Create_user (cl_hash c) (cl_uuid c) (cl_now c) (sq_Username req) (sq_DisplayName req) email (sq_Password req) (ac_users a) of
        (_, Inl e) \<Rightarrow> (a, setup_refused e)
      | (d, Inr user) \<Rightarrow>
          let (d1, user1) =
                (if hibpStatus = ''pending'' then (d, user)
                 else case UpdateHIBPStatus (cl_now c) (usr_ID user) hibpStatus False d of
                        (d', None) \<Rightarrow> (d', user\<lparr>usr_HIBPCheckStatus := hibpStatus\<rparr>)
                      | (d', Some _) \<Rightarrow> (d', user))
          in case Create (en_sha E) (cl_session c) (cl_now c) (usr_ID user) False (cl_ip c) (cl_agent c) (ac_sessions a) of
               (sd, Inl _) \<Rightarrow> (a\<lparr>ac_users := d1, ac_sessions := sd\<rparr>, fail 500 ''internal error'')
             | (sd, Inr sess) \<Rightarrow>
                 (a\<lparr>ac_users := d1, ac_sessions := sd, ac_setup := []\<rparr>,
                  ok 201 (signed_in c (ID sess) False user)
                    [(event c ''setup_admin_created'' (usr_ID user) [])\<lparr>ev_After := Some (user1\<lparr>usr_PasswordHash := []\<rparr>)\<rparr>]))"

definition setup_admin :: "env \<Rightarrow> call \<Rightarrow> setupRequest option \<Rightarrow> accounts \<Rightarrow> accounts \<times> acct_answer" where
  "setup_admin E c body a =
     (case Count (ac_users a) of
        Inl _ \<Rightarrow> (a, fail 500 ''internal error'')
      | Inr n \<Rightarrow>
          if n > 0 then (a, fail 404 ''setup unavailable: an admin already exists'')
          else case body of
                 None \<Rightarrow> (a, fail 400 ''invalid body'')
               | Some req \<Rightarrow>
                   if \<not> Verify (ac_setup a) (sq_SetupToken req) then (a, fail 403 ''setup token invalid or expired'')
                   else
                     let email = trimSpace (sq_Email req)
                     in case (if email = [] then None else email_refused email) of
                          Some msg \<Rightarrow> (a, fail 400 msg)
                        | None \<Rightarrow>
                            (case ValidatePasswordSync (en_common E) (en_hibp E) (sq_Password req) of
                               Inl e \<Rightarrow> (a, password_refused e)
                             | Inr hibpStatus \<Rightarrow> setup_user E c req email hibpStatus a))"

section \<open>Login, logout and unlocking\<close>

record loginRequest =
  lq_Username :: string
  lq_Password :: string
  lq_RememberMe :: bool

definition truncateUsername :: "string \<Rightarrow> string" where "truncateUsername s = take 32 s"

definition login_failure :: "call \<Rightarrow> string \<Rightarrow> acct_answer" where
  "login_failure c reason = (fail 401 ''invalid credentials'')\<lparr>an_audit := [event c ''login_failure'' [] reason]\<rparr>"

definition break_glass :: "call \<Rightarrow> string \<Rightarrow> string \<Rightarrow> oidc_db \<Rightarrow> acct_event list" where
  "break_glass c action target d = (if OIDCConfigEverConfigured d = Inr True then [event c action target []] else [])"

definition start_session ::
  "env \<Rightarrow> call \<Rightarrow> user_row \<Rightarrow> bool \<Rightarrow> accounts \<Rightarrow> accounts \<times> acct_answer" where
  "start_session E c user rememberMe a =
     (case Create (en_sha E) (cl_session c) (cl_now c) (usr_ID user) rememberMe (cl_ip c) (cl_agent c) (ac_sessions a) of
        (sd, Inl _) \<Rightarrow> (a\<lparr>ac_sessions := sd\<rparr>, fail 500 ''internal error'')
      | (sd, Inr sess) \<Rightarrow>
          (a\<lparr>ac_sessions := sd, ac_users := fst (RecordLogin (cl_now c) (usr_ID user) (ac_users a)),
             ac_limiter := ResetForUser (cl_now c) (cl_ip c) (usr_Username user) (ac_limiter a)\<rparr>,
           ok 200 (signed_in c (ID sess) rememberMe user)
             ((event c ''login_success'' [] ''auth_method=local'')\<lparr>ev_Actor := usr_ID user\<rparr> #
              map (ev_Actor_update (\<lambda>_. usr_ID user)) (break_glass c ''login_break_glass'' [] (ac_oidc a)))))"

definition login :: "env \<Rightarrow> call \<Rightarrow> loginRequest option \<Rightarrow> accounts \<Rightarrow> accounts \<times> acct_answer" where
  "login E c body a =
     (case body of
        None \<Rightarrow> (a, fail 400 ''invalid body'')
      | Some req \<Rightarrow>
          if lq_Username req = [] \<or> lq_Password req = [] then (a, fail 400 ''username and password are required'')
          else case GetByUsername (lq_Username req) (ac_users a) of
                 Inl ErrUserNotFound \<Rightarrow> (a, login_failure c ''user_not_found'')
               | Inl _ \<Rightarrow> (a, fail 503 ''authentication service temporarily unavailable'')
               | Inr user \<Rightarrow>
                   if usr_PasswordHash user = [] then (a, login_failure c ''no_local_password'')
                   else case en_compare E (lq_Password req) (usr_PasswordHash user) of
                          None \<Rightarrow> (a, fail 500 ''internal error'')
                        | Some False \<Rightarrow> (a, login_failure c ''bad_password'')
                        | Some True \<Rightarrow> start_session E c user (lq_RememberMe req) a)"

definition sessionAuditID :: "env \<Rightarrow> string \<Rightarrow> string" where
  "sessionAuditID E sid = (if sid = [] then [] else SessionHandle (en_sha E) sid)"

definition logout :: "env \<Rightarrow> bool \<Rightarrow> call \<Rightarrow> accounts \<Rightarrow> accounts \<times> acct_answer" where
  "logout E devMode c a =
     (let sid = id_SessionID (cl_who c)
      in (a\<lparr>ac_sessions := fst (Delete (en_sha E) sid (ac_sessions a))\<rparr>,
          ok 204 [clearSessionCookieOnResponse devMode, clearThemeCookieOnResponse c]
            [event c ''logout'' (sessionAuditID E sid) ''manual'']))"

definition unlock :: "env \<Rightarrow> call \<Rightarrow> string option \<Rightarrow> accounts \<Rightarrow> accounts \<times> acct_answer" where
  "unlock E c body a =
     (case body of
        None \<Rightarrow> (a, fail 400 ''invalid body'')
      | Some password \<Rightarrow>
          if password = [] then (a, fail 400 ''password is required'')
          else case user_GetByID (id_UserID (cl_who c)) (ac_users a) of
                 Inl _ \<Rightarrow> (a, fail 503 ''authentication service temporarily unavailable'')
               | Inr user \<Rightarrow>
                   if usr_AuthSource user = UserAuthSourceOIDC
                   then (a, (fail 400 ''oidc_unlock_unsupported'')\<lparr>an_audit := [event c ''unlock_failure'' [] ''oidc_unlock_unsupported'']\<rparr>)
                   else if usr_PasswordHash user = [] then (a, fail 400 ''no_local_password'')
                   else case en_compare E password (usr_PasswordHash user) of
                          None \<Rightarrow> (a, fail 500 ''internal error'')
                        | Some False \<Rightarrow> (a, (fail 401 ''invalid password'')\<lparr>an_audit := [event c ''unlock_failure'' [] ''bad_password'']\<rparr>)
                        | Some True \<Rightarrow>
                            let sid = id_SessionID (cl_who c)
                            in (a\<lparr>ac_sessions := fst (Touch (en_sha E) (cl_now c) sid (ac_sessions a)),
                                  ac_limiter := ResetForUser (cl_now c) (cl_ip c) (usr_Username user) (ac_limiter a)\<rparr>,
                                ok 200 [] [event c ''unlock_success'' (sessionAuditID E sid) []]))"

section \<open>Sessions of the caller\<close>

definition listSessions :: "env \<Rightarrow> call \<Rightarrow> accounts \<Rightarrow> nat + (Session \<times> bool) list" where
  "listSessions E c a =
     (let currentHandle = sessionAuditID E (id_SessionID (cl_who c))
      in case ListForUser (id_UserID (cl_who c)) (ac_sessions a) of
           Inl _ \<Rightarrow> Inl 503
         | Inr ss \<Rightarrow> Inr (map (\<lambda>s. (s, ID s = currentHandle)) (filter (\<lambda>s. \<not> cl_now c > SessExpiresAt s) ss)))"

definition deleteSession :: "call \<Rightarrow> string \<Rightarrow> accounts \<Rightarrow> accounts \<times> acct_answer" where
  "deleteSession c sid a =
     (if sid = [] then (a, fail 404 ''session not found'')
      else case GetByHandle (cl_now c) sid (ac_sessions a) of
             (d, Inl e) \<Rightarrow>
               (a\<lparr>ac_sessions := d\<rparr>,
                if e = ErrSessionNotFound \<or> e = ErrSessionExpired then fail 404 ''session not found''
                else fail 503 ''authentication service temporarily unavailable'')
           | (d, Inr sess) \<Rightarrow>
               if UserID sess \<noteq> id_UserID (cl_who c) then (a\<lparr>ac_sessions := d\<rparr>, fail 404 ''session not found'')
               else case DeleteByHandle sid d of
                      (d1, Some _) \<Rightarrow> (a\<lparr>ac_sessions := d1\<rparr>, fail 503 ''authentication service temporarily unavailable'')
                    | (d1, None) \<Rightarrow> (a\<lparr>ac_sessions := d1\<rparr>, ok 204 [] [event c ''session_revoked'' sid []]))"

record changePasswordRequest =
  cp_CurrentPassword :: string
  cp_NewPassword :: string

definition changePassword ::
  "env \<Rightarrow> call \<Rightarrow> changePasswordRequest option \<Rightarrow> accounts \<Rightarrow> accounts \<times> acct_answer" where
  "changePassword E c body a =
     (case body of
        None \<Rightarrow> (a, fail 400 ''invalid body'')
      | Some req \<Rightarrow>
          if cp_CurrentPassword req = [] \<or> cp_NewPassword req = []
          then (a, fail 400 ''currentPassword and newPassword are required'')
          else
            let userID = id_UserID (cl_who c)
            in case user_GetByID userID (ac_users a) of
                 Inl _ \<Rightarrow> (a, fail 500 ''internal error'')
               | Inr user \<Rightarrow>
                   if usr_PasswordHash user = [] then (a, fail 400 ''no_local_password'')
                   else case en_compare E (cp_CurrentPassword req) (usr_PasswordHash user) of
                          None \<Rightarrow> (a, fail 500 ''internal error'')
                        | Some False \<Rightarrow> (a, fail 401 ''current password is incorrect'')
                        | Some True \<Rightarrow>
                            (case ValidatePasswordSync (en_common E) (en_hibp E) (cp_NewPassword req) of
                               Inl e \<Rightarrow> (a, password_refused e)
                             | Inr _ \<Rightarrow>
                                 (case UpdatePassword (cl_hash c) (cl_now c) userID (cp_NewPassword req) (ac_users a) of
                                    (_, Some _) \<Rightarrow> (a, fail 500 ''internal error'')
                                  | (d, None) \<Rightarrow>
                                      (a\<lparr>ac_users := d, ac_sessions := fst (DeleteAllForUserExcept (en_sha E) userID
                                           (id_SessionID (cl_who c)) (ac_sessions a))\<rparr>,
                                       ok 204 [] (event c ''password_changed'' userID [] #
                                         (if id_AuthSource (cl_who c) = UserAuthSourceLocal
                                          then break_glass c ''local_admin_password_rotated'' userID (ac_oidc a) else []))))))"

definition updateTheme :: "call \<Rightarrow> string option \<Rightarrow> accounts \<Rightarrow> accounts \<times> acct_answer" where
  "updateTheme c body a =
     (case body of
        None \<Rightarrow> (a, fail 400 ''invalid body'')
      | Some theme \<Rightarrow>
          if theme \<noteq> ''dark'' \<and> theme \<noteq> ''light'' then (a, fail 400 ''theme'')
          else case UpdateThemePreference (cl_now c) (id_UserID (cl_who c)) theme (ac_users a) of
                 (_, Some e) \<Rightarrow> (a, if e = ErrThemeInvalid then fail 400 ''theme'' else fail 500 ''internal error'')
               | (d, None) \<Rightarrow> (a\<lparr>ac_users := d\<rparr>, ok 204 [setThemeCookie c theme] []))"

definition updateLanguage :: "call \<Rightarrow> string option \<Rightarrow> accounts \<Rightarrow> accounts \<times> acct_answer" where
  "updateLanguage c body a =
     (case body of
        None \<Rightarrow> (a, fail 400 ''invalid body'')
      | Some language \<Rightarrow>
          if language \<noteq> ''en'' \<and> language \<noteq> ''fr'' then (a, fail 400 ''language'')
          else case UpdateLanguagePreference (cl_now c) (id_UserID (cl_who c)) language (ac_users a) of
                 (_, Some e) \<Rightarrow> (a, if e = ErrLanguageInvalid then fail 400 ''language'' else fail 500 ''internal error'')
               | (d, None) \<Rightarrow> (a\<lparr>ac_users := d\<rparr>, ok 204 [setLanguageCookie c language] []))"

section \<open>Users, by an administrator\<close>

text \<open>\<open>strings.EqualFold\<close>: by ASCII case on ASCII strings, through the Unicode tables otherwise.\<close>

definition equalFold :: "env \<Rightarrow> string \<Rightarrow> string \<Rightarrow> bool" where
  "equalFold E s t \<longleftrightarrow> (if is_ascii s \<and> is_ascii t then map lower_char s = map lower_char t else en_fold E s t)"

record createUserRequest =
  uq_Username :: string
  uq_DisplayName :: string
  uq_Email :: string
  uq_Role :: string
  uq_Password :: string

definition refuseIfOnOIDCAllowlist :: "env \<Rightarrow> string \<Rightarrow> oidc_db \<Rightarrow> bool" where
  "refuseIfOnOIDCAllowlist E email0 d =
     (let email = toLower (en_go E) (trimSpace email0)
      in email \<noteq> [] \<and>
         (case GetOIDCConfig d of
            Inl _ \<Rightarrow> False
          | Inr cfg \<Rightarrow> list_ex (\<lambda>x. equalFold E (trimSpace (ai_Email x)) email) (oc_AllowedIdentities cfg)))"

definition writeCreateUserError :: "user_error \<Rightarrow> acct_answer" where
  "writeCreateUserError e =
     (case e of
        ErrUsernameTaken \<Rightarrow> fail 409 ''user_username_taken''
      | ErrUsernameInvalid \<Rightarrow> fail 400 ''user_username_invalid''
      | ErrDisplayNameTooLong \<Rightarrow> fail 400 ''user_display_name_too_long''
      | ErrRoleInvalid \<Rightarrow> fail 400 ''user_role_invalid''
      | ErrPasswordTooShort \<Rightarrow> fail 400 ''user_password_too_short''
      | ErrPasswordTooLong \<Rightarrow> fail 400 ''user_password_too_long''
      | _ \<Rightarrow> fail 500 ''failed to create the user'')"

text \<open>\<open>generated\<close> is the password of \<open>GeneratePassword\<close>, \<open>None\<close> when the random source fails.\<close>

definition createAdminUser ::
  "env \<Rightarrow> call \<Rightarrow> string option \<Rightarrow> createUserRequest option \<Rightarrow> accounts \<Rightarrow> accounts \<times> acct_answer" where
  "createAdminUser E c generated body a =
     (case body of
        None \<Rightarrow> (a, fail 400 ''invalid body'')
      | Some req \<Rightarrow>
          if refuseIfOnOIDCAllowlist E (uq_Email req) (ac_oidc a) then (a, fail 400 ''user_email_on_oidc_allowlist'')
          else case (if trimSpace (uq_Password req) = [] then generated else Some (uq_Password req)) of
                 None \<Rightarrow> (a, fail 500 ''failed to generate a password'')
               | Some password \<Rightarrow>
                   (case CreateManaged (cl_hash c) (cl_uuid c) (cl_now c)
                       \<lparr>ms_Username = uq_Username req, ms_DisplayName = uq_DisplayName req, ms_Email = uq_Email req,
                        ms_Password = password, ms_Role = uq_Role req\<rparr> (ac_users a) of
                      (_, Inl e) \<Rightarrow> (a, writeCreateUserError e)
                    | (d, Inr user) \<Rightarrow>
                        (a\<lparr>ac_users := d\<rparr>,
                         ok 201 [] [event c ''user_created'' (usr_ID user) (''username='' @ usr_Username user @ '' role='' @
                           usr_Role user @ '' auth_source='' @ usr_AuthSource user)])))"

definition updateUserRole :: "call \<Rightarrow> string \<Rightarrow> string option \<Rightarrow> accounts \<Rightarrow> accounts \<times> acct_answer" where
  "updateUserRole c uid body a =
     (case body of
        None \<Rightarrow> (a, fail 400 ''invalid body'')
      | Some role0 \<Rightarrow>
          let role = trimSpace role0
          in if \<not> role_ok role then (a, fail 400 ''role'')
             else case user_GetByID uid (ac_users a) of
                    Inl e \<Rightarrow> (a, if e = ErrUserNotFound then fail 404 ''user not found'' else fail 500 ''failed to load user'')
                  | Inr _ \<Rightarrow>
                      (case UpdateRole (cl_now c) uid role (ac_users a) of
                         (_, Some e) \<Rightarrow>
                           (a, if e = UserLookup ErrUserNotFound then fail 404 ''user not found'' else fail 400 ''role change refused'')
                       | (d, None) \<Rightarrow> (a\<lparr>ac_users := d\<rparr>, ok 200 [] [event c ''user_role_changed'' uid []])))"

definition deleteAdminUser :: "call \<Rightarrow> string \<Rightarrow> accounts \<Rightarrow> accounts \<times> acct_answer" where
  "deleteAdminUser c uid a =
     (case user_GetByID uid (ac_users a) of
        Inl e \<Rightarrow> (a, if e = ErrUserNotFound then fail 404 ''user not found'' else fail 500 ''failed to load user'')
      | Inr _ \<Rightarrow>
          (case Delete_user uid (ac_users a) of
             (_, Some e) \<Rightarrow>
               (a, if e = UserLookup ErrUserNotFound then fail 404 ''user not found'' else fail 400 ''delete refused'')
           | (d, None) \<Rightarrow>
               (a\<lparr>ac_users := d, ac_sessions := fst (DeleteAllForUser uid (ac_sessions a))\<rparr>,
                ok 204 [] [event c ''user_deleted'' uid []])))"

section \<open>Service accounts\<close>

record createServiceAccountRequest =
  vq_Name :: string
  vq_Role :: string
  vq_ExpiresAt :: "time option"

definition past :: "time \<Rightarrow> time option \<Rightarrow> bool" where
  "past now e = (case e of None \<Rightarrow> False | Some t \<Rightarrow> t < now)"

definition createServiceAccount ::
  "env \<Rightarrow> call \<Rightarrow> createServiceAccountRequest option \<Rightarrow> accounts \<Rightarrow> accounts \<times> acct_answer" where
  "createServiceAccount E c body a =
     (case body of
        None \<Rightarrow> (a, fail 400 ''invalid body'')
      | Some req \<Rightarrow>
          let name = trimSpace (vq_Name req)
          in if name = [] then (a, fail 400 ''name must not be empty'')
             else if \<not> role_ok (vq_Role req) then (a, fail 400 ''role'')
             else if past (cl_now c) (vq_ExpiresAt req) then (a, fail 400 ''expiresAt must be in the future'')
             else case CreateServiceAccount (cl_uuid c) (cl_now c) name (vq_Role req) (ac_users a) of
                    (_, Inl e) \<Rightarrow>
                      (a, case e of ErrUsernameTaken \<Rightarrow> fail 409 ''name already taken''
                          | ErrUsernameInvalid \<Rightarrow> fail 400 ''name'' | _ \<Rightarrow> fail 500 ''failed to create service account'')
                  | (d, Inr user) \<Rightarrow>
                      (case CreateToken (en_sha E) (cl_token c) (cl_tokenID c) (cl_now c) (usr_ID user) name
                          (id_UserID (cl_who c)) (vq_ExpiresAt req) (ac_tokens a) of
                         (td, Inl _) \<Rightarrow>
                           (a\<lparr>ac_users := fst (Delete_user (usr_ID user) d), ac_tokens := td\<rparr>, fail 500 ''failed to issue token'')
                       | (td, Inr _) \<Rightarrow>
                           (a\<lparr>ac_users := d, ac_tokens := td\<rparr>,
                            ok 201 [] [event c ''service_account_created'' (usr_ID user) []])))"

text \<open>The lookup that rotation and deletion of a service account share.\<close>

definition service_account :: "string \<Rightarrow> user_db \<Rightarrow> acct_answer + user_row" where
  "service_account uid db =
     (case user_GetByID uid db of
        Inl e \<Rightarrow> Inl (if e = ErrUserNotFound then fail 404 ''service account not found'' else fail 500 ''failed to load user'')
      | Inr u \<Rightarrow> if usr_AuthSource u \<noteq> UserAuthSourceService then Inl (fail 400 ''user is not a service account'') else Inr u)"

text \<open>The body is optional: \<open>Some None\<close> is an empty one, \<open>None\<close> one that does not decode.\<close>

definition rotateServiceAccountToken ::
  "env \<Rightarrow> call \<Rightarrow> string \<Rightarrow> time option option \<Rightarrow> accounts \<Rightarrow> accounts \<times> acct_answer" where
  "rotateServiceAccountToken E c uid body a =
     (case service_account uid (ac_users a) of
        Inl an \<Rightarrow> (a, an)
      | Inr user \<Rightarrow>
          (case body of
             None \<Rightarrow> (a, fail 400 ''invalid body'')
           | Some expiresAt \<Rightarrow>
               if past (cl_now c) expiresAt then (a, fail 400 ''expiresAt must be in the future'')
               else
                 let actor = id_UserID (cl_who c)
                 in case (case FindActiveByUser (cl_now c) (usr_ID user) (ac_tokens a) of
                            Inl _ \<Rightarrow> (ac_tokens a, None)
                          | Inr active \<Rightarrow> RevokeToken (cl_now c) (tok_ID active) actor (ac_tokens a)) of
                      (td, Some _) \<Rightarrow> (a\<lparr>ac_tokens := td\<rparr>, fail 500 ''failed to revoke existing token'')
                    | (td, None) \<Rightarrow>
                        (case CreateToken (en_sha E) (cl_token c) (cl_tokenID c) (cl_now c) (usr_ID user) (usr_Username user)
                            actor expiresAt td of
                           (td1, Inl _) \<Rightarrow> (a\<lparr>ac_tokens := td1\<rparr>, fail 500 ''failed to issue new token'')
                         | (td1, Inr _) \<Rightarrow>
                             (a\<lparr>ac_tokens := td1\<rparr>, ok 200 [] [event c ''service_account_token_rotated'' (usr_ID user) []]))))"

definition deleteServiceAccount :: "call \<Rightarrow> string \<Rightarrow> accounts \<Rightarrow> accounts \<times> acct_answer" where
  "deleteServiceAccount c uid a =
     (case service_account uid (ac_users a) of
        Inl an \<Rightarrow> (a, an)
      | Inr user \<Rightarrow>
          (case RevokeAllByUser (cl_now c) (usr_ID user) (id_UserID (cl_who c)) (ac_tokens a) of
             (td, Some _) \<Rightarrow> (a\<lparr>ac_tokens := td\<rparr>, fail 500 ''failed to revoke tokens'')
           | (td, None) \<Rightarrow>
               (case Delete_user (usr_ID user) (ac_users a) of
                  (_, Some _) \<Rightarrow> (a\<lparr>ac_tokens := td\<rparr>, fail 500 ''failed to delete user'')
                | (d, None) \<Rightarrow>
                    (a\<lparr>ac_users := d, ac_tokens := td\<rparr>, ok 204 [] [event c ''service_account_deleted'' (usr_ID user) []]))))"

end
