(* ===== verification/OidcHandlers.thy ===== *)
theory OidcHandlers
  imports AccountHandlers
begin

text \<open>
  The handlers of single sign-on, \<open>internal/api/oidc.go\<close>: the settings, the allowlist and the login
  flow. The identity provider is a pair of arguments, the exchange of a code for an identity token
  and the verification of the token; both depend on the configuration the client was built from.
\<close>

section \<open>Settings\<close>

record oidcConfigRequest =
  oq_Enabled :: bool
  oq_IssuerURL :: string
  oq_ClientID :: string
  oq_ClientSecret :: string
  oq_Scopes :: "string list"
  oq_RedirectURL :: string
  oq_AcceptUnverifiedEmail :: bool
  oq_Kind :: string

definition well_known :: string where "well_known = ''/.well-known/openid-configuration''"

definition oidcConfigForAudit :: "OIDCConfig \<Rightarrow> OIDCConfig" where
  "oidcConfigForAudit c = c\<lparr>oc_ClientSecret := []\<rparr>"

text \<open>What the settings page is shown: the configuration without the secret, and whether one is set.\<close>

definition oidcConfigToResponse :: "OIDCConfig \<Rightarrow> OIDCConfig \<times> bool" where
  "oidcConfigToResponse c = (c\<lparr>oc_ClientSecret := []\<rparr>, oc_ClientSecret c \<noteq> [])"

definition getOIDCConfig :: "accounts \<Rightarrow> nat + (OIDCConfig \<times> bool) \<times> bool" where
  "getOIDCConfig a =
     (case GetOIDCConfig (ac_oidc a) of
        Inl e \<Rightarrow> if e = ErrNotFound then Inr (oidcConfigToResponse zero_oidc, False) else Inl 500
      | Inr cfg \<Rightarrow> Inr (oidcConfigToResponse cfg, True))"

definition merged_config :: "oidcConfigRequest \<Rightarrow> OIDCConfig \<Rightarrow> OIDCConfig" where
  "merged_config req previous =
     \<lparr>oc_Enabled = oq_Enabled req,
      oc_IssuerURL = trimSuffix (trimSuffix (trimSpace (oq_IssuerURL req)) well_known) (well_known @ ''/''),
      oc_ClientID = trimSpace (oq_ClientID req),
      oc_ClientSecret = (if oq_ClientSecret req = [] then oc_ClientSecret previous else oq_ClientSecret req),
      oc_AllowedIdentities = oc_AllowedIdentities previous, oc_Kind = trimSpace (oq_Kind req), oc_Scopes = oq_Scopes req,
      oc_RedirectURL = trimSpace (oq_RedirectURL req), oc_AcceptUnverifiedEmail = oq_AcceptUnverifiedEmail req,
      oc_CreatedAt = oc_CreatedAt previous, oc_UpdatedAt = zero_time\<rparr>"

fun purge_users :: "string list \<Rightarrow> session_db \<Rightarrow> session_db \<times> nat" where
  "purge_users [] d = (d, 0)"
| "purge_users (u # us) d =
     (case DeleteAllForUser u d of
        (d1, Inl _) \<Rightarrow> purge_users us d1
      | (d1, Inr n) \<Rightarrow> (case purge_users us d1 of (d2, m) \<Rightarrow> (d2, n + m)))"

definition revokeAllOIDCSessions :: "call \<Rightarrow> accounts \<Rightarrow> accounts \<times> acct_event list" where
  "revokeAllOIDCSessions c a =
     (case List_users (ac_users a) of
        Inl _ \<Rightarrow> (a, [])
      | Inr users \<Rightarrow>
          (case purge_users (map usr_ID (filter (\<lambda>u. usr_AuthSource u = UserAuthSourceOIDC) users)) (ac_sessions a) of
             (d, purged) \<Rightarrow>
               (a\<lparr>ac_sessions := d\<rparr>,
                if purged > 0 then [event c ''session_revoked'' ''default'' ''oidc_disabled_sessions_revoked''] else [])))"

definition putOIDCConfig :: "env \<Rightarrow> call \<Rightarrow> oidcConfigRequest option \<Rightarrow> accounts \<Rightarrow> accounts \<times> acct_answer" where
  "putOIDCConfig E c body a =
     (case body of
        None \<Rightarrow> (a, fail 400 ''invalid body'')
      | Some req \<Rightarrow>
          (case (case GetOIDCConfig (ac_oidc a) of
                   Inl e \<Rightarrow> if e = ErrNotFound then Some (None, zero_oidc) else None
                 | Inr p \<Rightarrow> Some (Some p, p)) of
             None \<Rightarrow> (a, fail 500 ''failed to load oidc config'')
           | Some (found, previous) \<Rightarrow>
               let merged = merged_config req previous
               in case (if oc_Enabled merged then EnsureBuilt (en_discover E) merged (ac_client a) else (ac_client a, True)) of
                    (m, False) \<Rightarrow> (a\<lparr>ac_client := m\<rparr>, fail 400 ''oidc config rejected'')
                  | (m, True) \<Rightarrow>
                      (case PutOIDCConfig (en_go E) (cl_now c) merged (ac_oidc a) of
                         (_, Some _) \<Rightarrow> (a\<lparr>ac_client := m\<rparr>, fail 400 ''oidc config invalid'')
                       | (d, None) \<Rightarrow>
                           let a1 = a\<lparr>ac_client := m, ac_oidc := d\<rparr>;
                               (a2, evs) = (if oc_Enabled previous \<and> \<not> oc_Enabled merged then revokeAllOIDCSessions c a1 else (a1, []))
                           in (a2, ok 200 [] (evs @ [event c (if found = None then ''oidc_configured'' else ''oidc_updated'') ''default'' []])))))"

section \<open>The allowlist\<close>

record oidcAllowlistAddRequest =
  wq_Email :: string
  wq_DisplayName :: string
  wq_Sub :: string

definition allowlist_config :: "oidc_db \<Rightarrow> OIDCConfig option" where
  "allowlist_config d =
     (case GetOIDCConfig d of Inl e \<Rightarrow> if e = ErrNotFound then Some zero_oidc else None | Inr c \<Rightarrow> Some c)"

definition same_email :: "env \<Rightarrow> string \<Rightarrow> OIDCAllowedIdentity \<Rightarrow> bool" where
  "same_email E email x = equalFold E (trimSpace (ai_Email x)) email"

definition addOIDCAllowlist :: "env \<Rightarrow> call \<Rightarrow> oidcAllowlistAddRequest option \<Rightarrow> accounts \<Rightarrow> accounts \<times> acct_answer" where
  "addOIDCAllowlist E c body a =
     (case body of
        None \<Rightarrow> (a, fail 400 ''invalid body'')
      | Some req \<Rightarrow>
          let email = trimSpace (wq_Email req); sub = trimSpace (wq_Sub req)
          in if email = [] then (a, fail 400 ''email must not be empty'')
             else case email_refused email of
                    Some msg \<Rightarrow> (a, fail 400 msg)
                  | None \<Rightarrow>
                      if sub \<noteq> [] \<and> length sub > 256 then (a, fail 400 ''sub exceeds 256 characters'')
                      else case allowlist_config (ac_oidc a) of
                             None \<Rightarrow> (a, fail 500 ''failed to load oidc config'')
                           | Some cfg \<Rightarrow>
                               if list_ex (same_email E email) (oc_AllowedIdentities cfg) then (a, fail 409 ''email already listed'')
                               else if sub \<noteq> [] \<and> list_ex (\<lambda>x. ai_Sub x \<noteq> [] \<and> ai_Sub x = sub) (oc_AllowedIdentities cfg)
                               then (a, fail 409 ''sub already listed'')
                               else case PutOIDCConfig (en_go E) (cl_now c)
                                   (cfg\<lparr>oc_AllowedIdentities := oc_AllowedIdentities cfg @
                                      [\<lparr>ai_Email = email, ai_DisplayName = wq_DisplayName req, ai_Sub = sub,
                                        ai_AddedAt = cl_now c, ai_FirstLoginAt = zero_time\<rparr>]\<rparr>) (ac_oidc a) of
                                      (_, Some _) \<Rightarrow> (a, fail 400 ''oidc config invalid'')
                                    | (d, None) \<Rightarrow> (a\<lparr>ac_oidc := d\<rparr>, ok 201 [] []))"

definition revokeOIDCSessionsForSub :: "call \<Rightarrow> string \<Rightarrow> accounts \<Rightarrow> accounts \<times> acct_event list" where
  "revokeOIDCSessionsForSub c sub a =
     (if sub = [] then (a, [])
      else case GetByOIDCSub sub (ac_users a) of
             Inl _ \<Rightarrow> (a, [])
           | Inr user \<Rightarrow>
               (case DeleteAllForUser (usr_ID user) (ac_sessions a) of
                  (d, Inl _) \<Rightarrow> (a\<lparr>ac_sessions := d\<rparr>, [])
                | (d, Inr n) \<Rightarrow>
                    (a\<lparr>ac_sessions := d\<rparr>,
                     if n > 0 then [event c ''session_revoked'' (usr_ID user) ''oidc_allowlist_revoked''] else [])))"

text \<open>\<open>removed\<close> is the last of the entries with the address.\<close>

definition deleteOIDCAllowlist :: "env \<Rightarrow> call \<Rightarrow> string option \<Rightarrow> accounts \<Rightarrow> accounts \<times> acct_answer" where
  "deleteOIDCAllowlist E c param a =
     (case param of
        None \<Rightarrow> (a, fail 400 ''invalid email parameter'')
      | Some p \<Rightarrow>
          let email = trimSpace p
          in if email = [] then (a, fail 400 ''email must not be empty'')
             else case GetOIDCConfig (ac_oidc a) of
                    Inl e \<Rightarrow> (a, if e = ErrNotFound then fail 404 ''oidc not configured'' else fail 500 ''failed to load oidc config'')
                  | Inr cfg \<Rightarrow>
                      (case find (same_email E email) (rev (oc_AllowedIdentities cfg)) of
                         None \<Rightarrow> (a, fail 404 ''allowlist does not contain email'')
                       | Some removed \<Rightarrow>
                           (case PutOIDCConfig (en_go E) (cl_now c)
                               (cfg\<lparr>oc_AllowedIdentities := filter (\<lambda>x. \<not> same_email E email x) (oc_AllowedIdentities cfg)\<rparr>) (ac_oidc a) of
                              (_, Some _) \<Rightarrow> (a, fail 400 ''oidc config invalid'')
                            | (d, None) \<Rightarrow>
                                (case revokeOIDCSessionsForSub c (ai_Sub removed) (a\<lparr>ac_oidc := d\<rparr>) of
                                   (a1, evs) \<Rightarrow> (a1, ok 204 [] evs)))))"

section \<open>The login flow\<close>

definition oidcStatus :: "accounts \<Rightarrow> bool \<times> string" where
  "oidcStatus a =
     (case GetOIDCConfig (ac_oidc a) of
        Inl _ \<Rightarrow> (False, []) | Inr cfg \<Rightarrow> if oc_Enabled cfg then (True, oc_Kind cfg) else (False, []))"

definition setOIDCFlowCookie :: "call \<Rightarrow> string \<Rightarrow> string \<Rightarrow> cookie" where
  "setOIDCFlowCookie c name v = \<lparr>ck_Name = name, ck_Value = v, ck_MaxAge = 5 * 60, ck_HttpOnly = True,
     ck_Secure = cl_secure c, ck_SameSite = SameSiteLax\<rparr>"

definition clearOIDCFlowCookie :: "call \<Rightarrow> string \<Rightarrow> cookie" where
  "clearOIDCFlowCookie c name = (setOIDCFlowCookie c name [])\<lparr>ck_MaxAge := - 1\<rparr>"

text \<open>\<open>state\<close> and \<open>nonce\<close> are the two random tokens; \<open>None\<close> when the random source fails.\<close>

definition oidcInitiateLogin ::
  "env \<Rightarrow> call \<Rightarrow> string option \<Rightarrow> string option \<Rightarrow> accounts \<Rightarrow> accounts \<times> acct_answer" where
  "oidcInitiateLogin E c state nonce a =
     (case GetOIDCConfig (ac_oidc a) of
        Inl _ \<Rightarrow> (a, fail 503 ''oidc sso is not enabled on this instance'')
      | Inr cfg \<Rightarrow>
          if \<not> oc_Enabled cfg then (a, fail 503 ''oidc sso is not enabled on this instance'')
          else case EnsureBuilt (en_discover E) cfg (ac_client a) of
                 (m, False) \<Rightarrow> (a\<lparr>ac_client := m\<rparr>, fail 503 ''oidc identity provider unreachable'')
               | (m, True) \<Rightarrow>
                   let a1 = a\<lparr>ac_client := m\<rparr>
                   in if mg_built m = None then (a1, fail 503 ''oidc client not ready, retry shortly'')
                      else case state of
                             None \<Rightarrow> (a1, fail 500 ''internal error'')
                           | Some s \<Rightarrow>
                               (case nonce of
                                  None \<Rightarrow> (a1, fail 500 ''internal error'')
                                | Some n \<Rightarrow>
                                    (a1, ok 302 [setOIDCFlowCookie c ''arenet_oidc_state'' s, setOIDCFlowCookie c ''arenet_oidc_nonce'' n] [])))"

record claims =
  cm_Sub :: string
  cm_Email :: string
  cm_EmailVerified :: bool
  cm_PreferredUsername :: string
  cm_Name :: string

record callback =
  kq_error :: string
  kq_stateCookie :: "string option"
  kq_state :: string
  kq_nonceCookie :: "string option"
  kq_code :: string

text \<open>
  The identity provider: the exchange answers with an error, without an identity token or with a
  raw one; a verified token has a nonce and claims that may fail to decode.
\<close>

record idp =
  ip_exchange :: "OIDCConfig \<Rightarrow> string \<Rightarrow> string option option"
  ip_verify :: "OIDCConfig \<Rightarrow> string \<Rightarrow> (string \<times> claims option) option"

definition login_error :: "string \<Rightarrow> cookie list \<Rightarrow> acct_event list \<Rightarrow> acct_answer" where
  "login_error reason cs evs = \<lparr>an_status = 302, an_error = ''/login?error='' @ reason, an_cookies = cs, an_audit = evs\<rparr>"

definition invalid_callback :: "call \<Rightarrow> string \<Rightarrow> acct_event" where
  "invalid_callback c reason = event c ''oidc_callback_invalid'' [] reason"

text \<open>From the accepted claims to the user: the row with the subject, or a new one.\<close>

definition oidc_user :: "env \<Rightarrow> call \<Rightarrow> claims \<Rightarrow> OIDCAllowedIdentity \<Rightarrow> user_db \<Rightarrow> user_db \<times> user_row option" where
  "oidc_user E c cl entry d =
     (case GetByOIDCSub (cm_Sub cl) d of
        Inr u \<Rightarrow> (d, Some u)
      | Inl e \<Rightarrow>
          if e \<noteq> ErrUserNotFound then (d, None)
          else
            let picked = pickOIDCUsername (en_go E) (cm_PreferredUsername cl) (cm_Email cl) (cm_Sub cl);
                displayName = (if cm_Name cl = [] then ai_DisplayName entry else cm_Name cl);
                taken = (case GetByUsername picked d of Inr u \<Rightarrow> usr_ID u \<noteq> [] | Inl _ \<Rightarrow> False);
                username = (if taken then uniqueSuffix picked (cm_Sub cl) else picked)
            in case CreateOIDCUser (cl_uuid c) (cl_now c) username displayName (cm_Email cl) (cm_Sub cl) d of
                 (d1, Inl _) \<Rightarrow> (d1, None) | (d1, Inr u) \<Rightarrow> (d1, Some u))"

definition oidc_sign_in :: "env \<Rightarrow> call \<Rightarrow> cookie list \<Rightarrow> claims \<Rightarrow> OIDCAllowedIdentity \<Rightarrow> accounts \<Rightarrow> accounts \<times> acct_answer" where
  "oidc_sign_in E c cs cl entry a =
     (case oidc_user E c cl entry (ac_users a) of
        (d, None) \<Rightarrow> (a\<lparr>ac_users := d\<rparr>, login_error ''internal'' cs [])
      | (d, Some user) \<Rightarrow>
          (case Create (en_sha E) (cl_session c) (cl_now c) (usr_ID user) False (cl_ip c) (cl_agent c) (ac_sessions a) of
             (sd, Inl _) \<Rightarrow> (a\<lparr>ac_users := d, ac_sessions := sd\<rparr>, login_error ''internal'' cs [])
           | (sd, Inr sess) \<Rightarrow>
               let d1 = fst (RecordLogin (cl_now c) (usr_ID user) d);
                   d2 = (if cm_Email cl \<noteq> [] then fst (UpdateEmail (cl_now c) (usr_ID user) (cm_Email cl) d1) else d1)
               in (a\<lparr>ac_users := d2, ac_sessions := sd\<rparr>,
                   ok 302 (cs @ signed_in c (ID sess) False user)
                     [(event c ''login_success'' [] ''auth_method=oidc'')\<lparr>ev_Actor := usr_ID user\<rparr>])))"

text \<open>The allowlist decision on the claims of a verified token, and the binding of a matched entry.\<close>

definition oidc_admit :: "env \<Rightarrow> call \<Rightarrow> cookie list \<Rightarrow> OIDCConfig \<Rightarrow> claims \<Rightarrow> accounts \<Rightarrow> accounts \<times> acct_answer" where
  "oidc_admit E c cs cfg cl a =
     (if cm_Sub cl = [] \<or> length (cm_Sub cl) > 256 then (a, login_error ''invalid_state'' cs [])
      else case matchAllowlist (en_go E) (oc_AllowedIdentities cfg) (cm_Sub cl) (cm_Email cl) (cm_EmailVerified cl)
          (oc_AcceptUnverifiedEmail cfg) of
             None \<Rightarrow> (a, login_error ''not_authorized'' cs [event c ''oidc_login_rejected'' [] []])
           | Some (i, isBootstrap) \<Rightarrow>
               if \<not> isBootstrap then oidc_sign_in E c cs cl (oc_AllowedIdentities cfg ! i) a
               else
                 let entry = (oc_AllowedIdentities cfg ! i)\<lparr>ai_Sub := cm_Sub cl, ai_FirstLoginAt := cl_now c\<rparr>;
                     cfg1 = cfg\<lparr>oc_AllowedIdentities := (oc_AllowedIdentities cfg)[i := entry]\<rparr>
                 in case PutOIDCConfig (en_go E) (cl_now c) cfg1 (ac_oidc a) of
                      (_, Some _) \<Rightarrow> (a, login_error ''internal'' cs [])
                    | (d, None) \<Rightarrow> oidc_sign_in E c cs cl entry (a\<lparr>ac_oidc := d\<rparr>))"

text \<open>The token: exchange of the code, verification, nonce, claims.\<close>

definition oidc_token ::
  "env \<Rightarrow> idp \<Rightarrow> call \<Rightarrow> cookie list \<Rightarrow> OIDCConfig \<Rightarrow> OIDCConfig \<Rightarrow> string \<Rightarrow> string \<Rightarrow> accounts \<Rightarrow> accounts \<times> acct_answer" where
  "oidc_token E I c cs built cfg code nonce a =
     (if code = [] then (a, login_error ''invalid_state'' cs [invalid_callback c ''code_missing''])
      else case ip_exchange I built code of
             None \<Rightarrow> (a, login_error ''idp_unreachable'' cs [])
           | Some raw \<Rightarrow>
               if raw = None \<or> raw = Some [] then (a, login_error ''idp_unreachable'' cs [invalid_callback c ''id_token_missing''])
               else case ip_verify I built (the raw) of
                      None \<Rightarrow> (a, login_error ''invalid_state'' cs [invalid_callback c ''id_token_invalid''])
                    | Some (n, cl) \<Rightarrow>
                        if n \<noteq> nonce then (a, login_error ''invalid_state'' cs [invalid_callback c ''nonce_mismatch''])
                        else case cl of
                               None \<Rightarrow> (a, login_error ''invalid_state'' cs [])
                             | Some claims \<Rightarrow> oidc_admit E c cs cfg claims a)"

definition oidcCallback :: "env \<Rightarrow> idp \<Rightarrow> call \<Rightarrow> callback \<Rightarrow> accounts \<Rightarrow> accounts \<times> acct_answer" where
  "oidcCallback E I c q a =
     (if kq_error q \<noteq> []
      then (a, login_error ''idp_error'' [] [invalid_callback c (''idp_error='' @ sanitizeOIDCErrorParam (kq_error q))])
      else case kq_stateCookie q of
             None \<Rightarrow> (a, login_error ''invalid_state'' [] [invalid_callback c ''state_cookie_missing''])
           | Some stateCookie \<Rightarrow>
               if \<not> constantTimeStringEqual (kq_state q) stateCookie
               then (a, login_error ''invalid_state'' [] [invalid_callback c ''state_mismatch''])
               else
                 let cs1 = [clearOIDCFlowCookie c ''arenet_oidc_state'']
                 in case kq_nonceCookie q of
                      None \<Rightarrow> (a, login_error ''invalid_state'' cs1 [invalid_callback c ''nonce_cookie_missing''])
                    | Some nonce \<Rightarrow>
                        let cs = cs1 @ [clearOIDCFlowCookie c ''arenet_oidc_nonce'']
                        in case GetOIDCConfig (ac_oidc a) of
                             Inl _ \<Rightarrow> (a, login_error ''idp_unreachable'' cs [])
                           | Inr cfg \<Rightarrow>
                               if \<not> oc_Enabled cfg then (a, login_error ''idp_unreachable'' cs [])
                               else case EnsureBuilt (en_discover E) cfg (ac_client a) of
                                      (m, False) \<Rightarrow> (a\<lparr>ac_client := m\<rparr>, login_error ''idp_unreachable'' cs [])
                                    | (m, True) \<Rightarrow>
                                        (case mg_built m of
                                           None \<Rightarrow> (a\<lparr>ac_client := m\<rparr>, login_error ''idp_unreachable'' cs [])
                                         | Some built \<Rightarrow> oidc_token E I c cs built cfg (kq_code q) nonce (a\<lparr>ac_client := m\<rparr>)))"

end
