(* ===== verification/AccountRuns.thy ===== *)
theory AccountRuns
  imports OidcHandlers
begin

text \<open>
  What every account request keeps of the user bucket. \<open>user_step\<close> is the abstract specification: a
  new row with a free identifier, name and subject, a change that keeps identifier, name, subject
  and source, or a deletion, the last two with the guard of the last local administrator. Every
  handler refines a sequence of such steps, so what the steps keep holds of every run.
\<close>

section \<open>Well-formed rows\<close>

definition user_ok :: "user_row \<Rightarrow> bool" where
  "user_ok u \<longleftrightarrow> username_ok (usr_Username u) \<and> usr_ID u \<noteq> [] \<and> role_ok (usr_Role u) \<and>
     (usr_AuthSource u = UserAuthSourceLocal \<and> usr_PasswordHash u \<noteq> [] \<and> usr_OIDCSub u = [] \<or>
      usr_AuthSource u = UserAuthSourceOIDC \<and> usr_PasswordHash u = [] \<and> usr_OIDCSub u \<noteq> [] \<or>
      usr_AuthSource u = UserAuthSourceService \<and> usr_PasswordHash u = [] \<and> usr_OIDCSub u = [])"

definition users_ok :: "user_row bucket \<Rightarrow> bool" where
  "users_ok b \<longleftrightarrow> rows_ok usr_ID usr_Username b \<and> (\<forall>k u. gm_get b k = Some (Some u) \<longrightarrow> user_ok u) \<and>
     (\<forall>k k' u u'. gm_get b k = Some (Some u) \<longrightarrow> gm_get b k' = Some (Some u') \<longrightarrow> usr_OIDCSub u \<noteq> [] \<longrightarrow>
        usr_OIDCSub u = usr_OIDCSub u' \<longrightarrow> k = k')"

definition db_ok :: "user_db \<Rightarrow> bool" where
  "db_ok db \<longleftrightarrow> (case db of None \<Rightarrow> True | Some b \<Rightarrow> users_ok b)"

definition has_admin :: "user_db \<Rightarrow> bool" where
  "has_admin db \<longleftrightarrow> (\<exists>b k u. db = Some b \<and> gm_get b k = Some (Some u) \<and> local_admin u)"

section \<open>The specification\<close>

inductive user_step :: "user_db \<Rightarrow> user_db \<Rightarrow> bool" where
  step_new: "user_ok u \<Longrightarrow> gm_get b (usr_ID u) = None \<Longrightarrow> \<not> name_taken usr_Username None (usr_Username u) b \<Longrightarrow>
    usr_OIDCSub u = [] \<or> \<not> sub_taken (usr_OIDCSub u) b \<Longrightarrow> user_step (Some b) (Some (gm_put (usr_ID u) (Some u) b))"
| step_change: "gm_get b k = Some (Some u) \<Longrightarrow> usr_ID u' = usr_ID u \<Longrightarrow> usr_Username u' = usr_Username u \<Longrightarrow>
    usr_OIDCSub u' = usr_OIDCSub u \<Longrightarrow> (user_ok u \<Longrightarrow> user_ok u') \<Longrightarrow>
    (local_admin u \<Longrightarrow> \<not> local_admin u' \<Longrightarrow> otherLocalAdmins k b \<noteq> 0) \<Longrightarrow>
    user_step (Some b) (Some (gm_put k (Some u') b))"
| step_delete: "gm_get b k = Some (Some u) \<Longrightarrow> (local_admin u \<Longrightarrow> otherLocalAdmins k b \<noteq> 0) \<Longrightarrow>
    user_step (Some b) (Some (gm_del k b))"

abbreviation user_steps :: "user_db \<Rightarrow> user_db \<Rightarrow> bool" where "user_steps \<equiv> user_step\<^sup>*\<^sup>*"

lemma ex_row:
  assumes "gm_wf b"
  shows "(\<exists>(k, v) \<in> set b. case v of None \<Rightarrow> False | Some u \<Rightarrow> P k u) \<longleftrightarrow> (\<exists>k u. gm_get b k = Some (Some u) \<and> P k u)"
proof
  assume "\<exists>(k, v) \<in> set b. case v of None \<Rightarrow> False | Some u \<Rightarrow> P k u"
  then obtain k u where "(k, Some u) \<in> set b" "P k u" by (auto split: option.splits)
  then show "\<exists>k u. gm_get b k = Some (Some u) \<and> P k u" using gm_get_iff [OF assms] by blast
next
  assume "\<exists>k u. gm_get b k = Some (Some u) \<and> P k u"
  then obtain k u where "(k, Some u) \<in> set b" "P k u" using gm_get_iff [OF assms] by blast
  then show "\<exists>(k, v) \<in> set b. case v of None \<Rightarrow> False | Some u \<Rightarrow> P k u" by (intro bexI [of _ "(k, Some u)"]) auto
qed

lemma sub_taken_iff:
  "gm_wf b \<Longrightarrow> sub_taken s b \<longleftrightarrow> (\<exists>k u. gm_get b k = Some (Some u) \<and> usr_OIDCSub u \<noteq> [] \<and> usr_OIDCSub u = s)"
  unfolding sub_taken_def by (rule ex_row)

lemma users_okI:
  assumes "rows_ok usr_ID usr_Username b" and "\<And>k u. gm_get b k = Some (Some u) \<Longrightarrow> user_ok u"
    and "\<And>k k' u u'. gm_get b k = Some (Some u) \<Longrightarrow> gm_get b k' = Some (Some u') \<Longrightarrow> usr_OIDCSub u \<noteq> [] \<Longrightarrow>
      usr_OIDCSub u = usr_OIDCSub u' \<Longrightarrow> k = k'"
  shows "users_ok b"
  unfolding users_ok_def using assms by (intro conjI allI impI) blast+

lemma users_okD:
  assumes "users_ok b"
  shows "rows_ok usr_ID usr_Username b" and "gm_wf b" and "gm_get b k = Some (Some u) \<Longrightarrow> user_ok u"
    and "gm_get b k = Some (Some u) \<Longrightarrow> usr_ID u = k"
    and "gm_get b k = Some (Some u) \<Longrightarrow> gm_get b k' = Some (Some u') \<Longrightarrow> usr_OIDCSub u \<noteq> [] \<Longrightarrow>
      usr_OIDCSub u = usr_OIDCSub u' \<Longrightarrow> k = k'"
proof -
  show r: "rows_ok usr_ID usr_Username b" using assms by (simp add: users_ok_def)
  show "gm_wf b" by (rule rows_okD(1) [OF r])
  show "gm_get b k = Some (Some u) \<Longrightarrow> user_ok u" using assms by (simp add: users_ok_def)
  show "gm_get b k = Some (Some u) \<Longrightarrow> usr_ID u = k" by (rule rows_okD(2) [OF r])
  show "gm_get b k = Some (Some u) \<Longrightarrow> gm_get b k' = Some (Some u') \<Longrightarrow> usr_OIDCSub u \<noteq> [] \<Longrightarrow>
      usr_OIDCSub u = usr_OIDCSub u' \<Longrightarrow> k = k'" using assms unfolding users_ok_def by metis
qed

text \<open>Writing a row whose name and subject no other row has.\<close>

lemma users_ok_put:
  assumes "users_ok b" and "user_ok u" and "\<not> name_taken usr_Username (Some (usr_ID u)) (usr_Username u) b"
    and "\<And>k v. gm_get b k = Some (Some v) \<Longrightarrow> k \<noteq> usr_ID u \<Longrightarrow> usr_OIDCSub u \<noteq> [] \<Longrightarrow> usr_OIDCSub v \<noteq> usr_OIDCSub u"
  shows "users_ok (gm_put (usr_ID u) (Some u) b)"
proof (rule users_okI)
  note ok = users_okD [OF assms(1)]
  show "rows_ok usr_ID usr_Username (gm_put (usr_ID u) (Some u) b)" by (rule rows_ok_put [OF ok(1) refl assms(3)])
  show "user_ok v" if "gm_get (gm_put (usr_ID u) (Some u) b) k = Some (Some v)" for k v
    using that assms(2) ok(3) by (auto split: if_splits)
  show "i = j" if "gm_get (gm_put (usr_ID u) (Some u) b) i = Some (Some v)" "gm_get (gm_put (usr_ID u) (Some u) b) j = Some (Some w)"
    "usr_OIDCSub v \<noteq> []" "usr_OIDCSub v = usr_OIDCSub w" for i j v w
  proof (cases "i = usr_ID u")
    case True
    with that have "v = u" by simp
    with True that assms(4) [of j w] show ?thesis by (cases "j = usr_ID u") auto
  next
    case False
    with that(1) have v: "gm_get b i = Some (Some v)" by simp
    show ?thesis
    proof (cases "j = usr_ID u")
      case True
      with that have "w = u" by simp
      with True that assms(4) [OF v False] show ?thesis by simp
    next
      case ne: False
      with that(2) have "gm_get b j = Some (Some w)" by simp
      with v that ok(5) show ?thesis by blast
    qed
  qed
qed

lemma name_not_taken_by_others:
  assumes "users_ok b" and "gm_get b k = Some (Some u)"
  shows "\<not> name_taken usr_Username (Some k) (usr_Username u) b"
proof
  assume "name_taken usr_Username (Some k) (usr_Username u) b"
  then obtain j v where "gm_get b j = Some (Some v)" "j \<noteq> k" "usr_Username v = usr_Username u"
    unfolding name_taken_iff [OF users_okD(2) [OF assms(1)]] by auto
  with rows_okD(3) [OF users_okD(1) [OF assms(1)] assms(2), of j v] show False by simp
qed

lemma user_step_ok: "user_step db db' \<Longrightarrow> db_ok db \<Longrightarrow> db_ok db'"
proof (induction rule: user_step.induct)
  case (step_new u b)
  then have o: "users_ok b" by (simp add: db_ok_def)
  note ok = users_okD [OF o]
  have "users_ok (gm_put (usr_ID u) (Some u) b)"
  proof (rule users_ok_put [OF o step_new(1)])
    show "\<not> name_taken usr_Username (Some (usr_ID u)) (usr_Username u) b"
      using step_new(3) by (simp add: name_taken_iff [OF ok(2)])
    show "usr_OIDCSub v \<noteq> usr_OIDCSub u" if "gm_get b k = Some (Some v)" "usr_OIDCSub u \<noteq> []" for k v
      using step_new(4) that unfolding sub_taken_iff [OF ok(2)] by metis
  qed
  then show ?case by (simp add: db_ok_def)
next
  case (step_change b k u u')
  then have o: "users_ok b" by (simp add: db_ok_def)
  note ok = users_okD [OF o]
  have k: "k = usr_ID u'" using ok(4) [OF step_change(1)] step_change(2) by simp
  have "users_ok (gm_put (usr_ID u') (Some u') b)"
  proof (rule users_ok_put [OF o])
    show "user_ok u'" using step_change(5) ok(3) step_change(1) by blast
    show "\<not> name_taken usr_Username (Some (usr_ID u')) (usr_Username u') b"
      using name_not_taken_by_others [OF o step_change(1)] k step_change(3) by simp
    show "usr_OIDCSub v \<noteq> usr_OIDCSub u'" if "gm_get b j = Some (Some v)" "j \<noteq> usr_ID u'" "usr_OIDCSub u' \<noteq> []" for j v
      using ok(5) [OF that(1) step_change(1)] that(2,3) k step_change(4) by auto
  qed
  with k show ?case by (simp add: db_ok_def)
next
  case (step_delete b k u)
  then have o: "users_ok b" by (simp add: db_ok_def)
  have "users_ok (gm_del k b)"
  proof (rule users_okI)
    have "gm_get b k \<noteq> None" using step_delete(1) by simp
    with rows_ok_delete [OF users_okD(1) [OF o], of k] show "rows_ok usr_ID usr_Username (gm_del k b)"
      by (simp add: bucket_delete_def)
  qed (auto split: if_splits intro: users_okD [OF o])
  then show ?case by (simp add: db_ok_def)
qed

lemma otherLocalAdmins_pos:
  assumes "gm_wf b"
  shows "otherLocalAdmins k b \<noteq> 0 \<longleftrightarrow> (\<exists>j u. j \<noteq> k \<and> gm_get b j = Some (Some u) \<and> local_admin u)"
proof -
  have "otherLocalAdmins k b \<noteq> 0 \<longleftrightarrow> (\<exists>(j, v) \<in> set b. case v of None \<Rightarrow> False | Some u \<Rightarrow> j \<noteq> k \<and> local_admin u)"
    unfolding otherLocalAdmins_def by (force simp: filter_empty_conv split: option.splits)
  with ex_row [OF assms, of "\<lambda>j u. j \<noteq> k \<and> local_admin u"] show ?thesis by blast
qed

lemma user_step_admin: "user_step db db' \<Longrightarrow> db_ok db \<Longrightarrow> has_admin db \<Longrightarrow> has_admin db'"
proof (induction rule: user_step.induct)
  case (step_new u b)
  then obtain k v where "gm_get b k = Some (Some v)" "local_admin v" by (auto simp: has_admin_def)
  moreover from this step_new(2) have "k \<noteq> usr_ID u" by auto
  ultimately have "gm_get (gm_put (usr_ID u) (Some u) b) k = Some (Some v)" "local_admin v" by simp_all
  then show ?case unfolding has_admin_def by blast
next
  case (step_change b k u u')
  from step_change.prems have w: "gm_wf b" by (simp add: db_ok_def users_okD)
  from step_change.prems obtain j v where v: "gm_get b j = Some (Some v)" "local_admin v" by (auto simp: has_admin_def)
  show ?case
  proof (cases "local_admin u'")
    case True
    then have "gm_get (gm_put k (Some u') b) k = Some (Some u')" by simp
    with True show ?thesis unfolding has_admin_def by blast
  next
    case False
    have "\<exists>j v. j \<noteq> k \<and> gm_get b j = Some (Some v) \<and> local_admin v"
    proof (cases "j = k")
      case True
      with v step_change(1) have "local_admin u" by simp
      with False step_change(6) otherLocalAdmins_pos [OF w] show ?thesis by blast
    qed (use v in blast)
    then obtain j v where "j \<noteq> k" "gm_get b j = Some (Some v)" "local_admin v" by blast
    then have "gm_get (gm_put k (Some u') b) j = Some (Some v)" "local_admin v" by simp_all
    then show ?thesis unfolding has_admin_def by blast
  qed
next
  case (step_delete b k u)
  from step_delete.prems have w: "gm_wf b" by (simp add: db_ok_def users_okD)
  from step_delete.prems obtain j v where v: "gm_get b j = Some (Some v)" "local_admin v" by (auto simp: has_admin_def)
  have "\<exists>j v. j \<noteq> k \<and> gm_get b j = Some (Some v) \<and> local_admin v"
  proof (cases "j = k")
    case True
    with v step_delete(1) have "local_admin u" by simp
    with step_delete(2) otherLocalAdmins_pos [OF w] show ?thesis by blast
  qed (use v in blast)
  then obtain j v where "j \<noteq> k" "gm_get b j = Some (Some v)" "local_admin v" by blast
  then have "gm_get (gm_del k b) j = Some (Some v)" "local_admin v" by simp_all
  then show ?case unfolding has_admin_def by blast
qed

section \<open>The store refines the specification\<close>

text \<open>What a call brings along: a fresh identifier, and hashes that are not empty.\<close>

definition call_ok :: "call \<Rightarrow> accounts \<Rightarrow> bool" where
  "call_ok c a \<longleftrightarrow> cl_uuid c \<noteq> [] \<and> (\<forall>b. ac_users a = Some b \<longrightarrow> gm_get b (cl_uuid c) = None) \<and>
     (\<forall>p h. cl_hash c p = Some h \<longrightarrow> h \<noteq> [])"

definition free_id :: "string \<Rightarrow> user_db \<Rightarrow> bool" where
  "free_id uuid db \<longleftrightarrow> uuid \<noteq> [] \<and> (\<forall>b. db = Some b \<longrightarrow> gm_get b uuid = None)"

definition hashes :: "(string \<Rightarrow> string option) \<Rightarrow> bool" where
  "hashes h \<longleftrightarrow> (\<forall>p x. h p = Some x \<longrightarrow> x \<noteq> [])"

lemma call_okD: "call_ok c a \<Longrightarrow> free_id (cl_uuid c) (ac_users a)" "call_ok c a \<Longrightarrow> hashes (cl_hash c)"
  by (auto simp: call_ok_def free_id_def hashes_def)

lemma insertUnique_steps:
  assumes "insertUnique u db = (d, r)" and "user_ok u" and "free_id (usr_ID u) db" and "usr_OIDCSub u = []"
  shows "user_steps db d"
proof (cases db)
  case (Some b)
  show ?thesis
  proof (cases "name_taken usr_Username None (usr_Username u) b")
    case False
    then have "user_step (Some b) (Some (gm_put (usr_ID u) (Some u) b))"
      using assms Some by (intro step_new) (simp_all add: free_id_def)
    with False Some assms(1) show ?thesis by (auto simp: insertUnique_def)
  qed (use assms(1) Some in \<open>auto simp: insertUnique_def\<close>)
qed (use assms(1) in \<open>auto simp: insertUnique_def\<close>)

lemma Create_user_steps:
  assumes "Create_user h uuid now name dn email p db = (d, r)" and "free_id uuid db" and "hashes h"
  shows "user_steps db d"
  using assms by (auto simp: Create_user_def Let_def new_user_def user_ok_def role_ok_def free_id_def hashes_def
      split: if_splits option.splits elim!: insertUnique_steps)

lemma CreateManaged_steps:
  assumes "CreateManaged h uuid now spec db = (d, r)" and "free_id uuid db" and "hashes h"
  shows "user_steps db d"
  using assms by (auto simp: CreateManaged_def Let_def new_user_def user_ok_def free_id_def hashes_def
      split: if_splits option.splits elim!: insertUnique_steps)

lemma CreateServiceAccount_steps:
  assumes "CreateServiceAccount uuid now name role db = (d, r)" and "free_id uuid db"
  shows "user_steps db d"
  using assms by (auto simp: CreateServiceAccount_def Let_def new_user_def user_ok_def free_id_def
      split: if_splits elim!: insertUnique_steps)

lemma CreateOIDCUser_steps:
  assumes "CreateOIDCUser uuid now name dn email sub db = (d, r)" and "free_id uuid db"
  shows "user_steps db d"
proof (cases "\<exists>u. r = Inr u")
  case True
  then obtain u where u: "r = Inr u" ..
  then obtain b where b: "db = Some b" "d = Some (gm_put (usr_ID u) (Some u) b)" "\<not> name_taken usr_Username None (usr_Username u) b"
    "\<not> sub_taken (usr_OIDCSub u) b" "user_ok u" "usr_ID u = uuid"
    using assms by (auto simp: CreateOIDCUser_def Let_def new_user_def user_ok_def role_ok_def free_id_def
        split: if_splits option.splits)
  then have "user_step db d" using assms(2) by (auto simp: free_id_def intro!: step_new)
  then show ?thesis by blast
next
  case False
  with assms(1) show ?thesis by (auto simp: CreateOIDCUser_def Let_def split: if_splits option.splits)
qed

text \<open>A change of one row.\<close>

definition keeps :: "user_row bucket \<Rightarrow> string \<Rightarrow> user_row \<Rightarrow> user_row \<Rightarrow> bool" where
  "keeps b k u u' \<longleftrightarrow> usr_ID u' = usr_ID u \<and> usr_Username u' = usr_Username u \<and> usr_OIDCSub u' = usr_OIDCSub u \<and>
     (user_ok u \<longrightarrow> user_ok u') \<and> (local_admin u \<and> \<not> local_admin u' \<longrightarrow> otherLocalAdmins k b \<noteq> 0)"

lemma change_user_steps:
  assumes "change_user uid f db = (d, r)"
    and "\<And>b u u'. db = Some b \<Longrightarrow> gm_get b uid = Some (Some u) \<Longrightarrow> f b u = Inr u' \<Longrightarrow> keeps b uid u u'"
  shows "user_steps db d"
proof (cases "d = db")
  case False
  with assms(1) obtain b u u' where c: "db = Some b" "gm_get b uid = Some (Some u)" "f b u = Inr u'"
    "d = Some (gm_put uid (Some u') b)"
    by (auto simp: change_user_def split: if_splits option.splits sum.splits)
  with assms(2) [OF c(1-3)] have "user_step db d" by (auto simp: keeps_def intro!: step_change)
  then show ?thesis by blast
qed simp

lemma UpdatePassword_steps:
  assumes "UpdatePassword h now uid p db = (d, r)" and "hashes h"
    and "\<And>b u. db = Some b \<Longrightarrow> gm_get b uid = Some (Some u) \<Longrightarrow> usr_PasswordHash u \<noteq> []"
  shows "user_steps db d"
  using assms by (auto simp: UpdatePassword_def hashes_def keeps_def user_ok_def local_admin_def
      split: if_splits option.splits elim!: change_user_steps)

lemma UpdateHIBPStatus_steps: "UpdateHIBPStatus now uid st co db = (d, r) \<Longrightarrow> user_steps db d"
  by (auto simp: UpdateHIBPStatus_def keeps_def user_ok_def local_admin_def elim!: change_user_steps)

lemma UpdateThemePreference_steps: "UpdateThemePreference now uid t db = (d, r) \<Longrightarrow> user_steps db d"
  by (auto simp: UpdateThemePreference_def keeps_def user_ok_def local_admin_def split: if_splits elim!: change_user_steps)

lemma UpdateLanguagePreference_steps: "UpdateLanguagePreference now uid t db = (d, r) \<Longrightarrow> user_steps db d"
  by (auto simp: UpdateLanguagePreference_def keeps_def user_ok_def local_admin_def split: if_splits elim!: change_user_steps)

lemma RecordLogin_steps: "RecordLogin now uid db = (d, r) \<Longrightarrow> user_steps db d"
  by (auto simp: RecordLogin_def keeps_def user_ok_def local_admin_def elim!: change_user_steps)

lemma UpdateEmail_steps: "UpdateEmail now uid e db = (d, r) \<Longrightarrow> user_steps db d"
  by (auto simp: UpdateEmail_def keeps_def user_ok_def local_admin_def split: if_splits elim!: change_user_steps)

lemma UpdateRole_steps: "UpdateRole now uid role db = (d, r) \<Longrightarrow> user_steps db d"
  by (auto simp: UpdateRole_def keeps_def user_ok_def local_admin_def role_ok_def split: if_splits elim!: change_user_steps)

lemma Delete_user_steps: "Delete_user uid db = (d, r) \<Longrightarrow> user_steps db d"
proof (cases "d = db")
  case False
  moreover assume "Delete_user uid db = (d, r)"
  ultimately obtain b u where "db = Some b" "gm_get b uid = Some (Some u)" "d = Some (gm_del uid b)"
    "local_admin u \<Longrightarrow> otherLocalAdmins uid b \<noteq> 0"
    by (auto simp: Delete_user_def split: if_splits option.splits)
  then have "user_step db d" by (auto intro!: step_delete)
  then show ?thesis by blast
qed simp

lemmas store_steps = Create_user_steps CreateManaged_steps CreateServiceAccount_steps CreateOIDCUser_steps
  UpdateHIBPStatus_steps UpdateThemePreference_steps UpdateLanguagePreference_steps RecordLogin_steps UpdateEmail_steps
  UpdateRole_steps Delete_user_steps

lemma fst_steps: "(\<And>d r. f = (d, r) \<Longrightarrow> user_steps db d) \<Longrightarrow> user_steps db (fst f)"
  by (cases f) auto

section \<open>The handlers refine it\<close>

datatype acct_request = Setup "setupRequest option" | Login "loginRequest option" | Logout bool | Unlock "string option"
  | DeleteSession string | ChangePassword "changePasswordRequest option" | UpdateTheme "string option"
  | UpdateLanguage "string option" | CreateAdminUser "string option" "createUserRequest option"
  | UpdateUserRole string "string option" | DeleteAdminUser string
  | CreateService "createServiceAccountRequest option" | RotateToken string "time option option" | DeleteService string
  | PutOIDC "oidcConfigRequest option" | AddAllowlist "oidcAllowlistAddRequest option" | DeleteAllowlist "string option"
  | InitiateLogin "string option" "string option" | Callback callback

fun account_call :: "env \<Rightarrow> idp \<Rightarrow> call \<Rightarrow> acct_request \<Rightarrow> accounts \<Rightarrow> accounts \<times> acct_answer" where
  "account_call E I c (Setup q) a = setup_admin E c q a"
| "account_call E I c (Login q) a = login E c q a"
| "account_call E I c (Logout dev) a = logout E dev c a"
| "account_call E I c (Unlock q) a = unlock E c q a"
| "account_call E I c (DeleteSession k) a = deleteSession c k a"
| "account_call E I c (ChangePassword q) a = changePassword E c q a"
| "account_call E I c (UpdateTheme q) a = updateTheme c q a"
| "account_call E I c (UpdateLanguage q) a = updateLanguage c q a"
| "account_call E I c (CreateAdminUser g q) a = createAdminUser E c g q a"
| "account_call E I c (UpdateUserRole k q) a = updateUserRole c k q a"
| "account_call E I c (DeleteAdminUser k) a = deleteAdminUser c k a"
| "account_call E I c (CreateService q) a = createServiceAccount E c q a"
| "account_call E I c (RotateToken k q) a = rotateServiceAccountToken E c k q a"
| "account_call E I c (DeleteService k) a = deleteServiceAccount c k a"
| "account_call E I c (PutOIDC q) a = putOIDCConfig E c q a"
| "account_call E I c (AddAllowlist q) a = addOIDCAllowlist E c q a"
| "account_call E I c (DeleteAllowlist q) a = deleteOIDCAllowlist E c q a"
| "account_call E I c (InitiateLogin s n) a = oidcInitiateLogin E c s n a"
| "account_call E I c (Callback q) a = oidcCallback E I c q a"

inductive account_step :: "env \<Rightarrow> idp \<Rightarrow> accounts \<Rightarrow> accounts \<Rightarrow> bool" for E I where
  "call_ok c a \<Longrightarrow> account_step E I a (fst (account_call E I c rq a))"

lemma setup_user_steps:
  assumes "free_id (cl_uuid c) (ac_users a)" and "hashes (cl_hash c)"
  shows "user_steps (ac_users a) (ac_users (fst (setup_user E c req email st a)))"
proof (cases "Create_user (cl_hash c) (cl_uuid c) (cl_now c) (sq_Username req) (sq_DisplayName req) email (sq_Password req) (ac_users a)")
  case (Pair d r)
  note s = Create_user_steps [OF Pair assms]
  show ?thesis
  proof (cases r)
    case (Inr u)
    have "user_steps (ac_users a) (fst (UpdateHIBPStatus (cl_now c) (usr_ID u) st False d))"
      by (rule rtranclp_trans [OF s], rule fst_steps) (rule UpdateHIBPStatus_steps)
    with s Pair Inr show ?thesis
      by (auto simp: setup_user_def Let_def split: prod.splits sum.splits option.splits)
  qed (use Pair in \<open>simp add: setup_user_def\<close>)
qed

lemma setup_steps:
  assumes "call_ok c a"
  shows "user_steps (ac_users a) (ac_users (fst (setup_admin E c q a)))"
  using setup_user_steps [OF call_okD [OF assms]]
  by (simp add: setup_admin_def Let_def split: sum.split option.split)

lemma start_session_steps: "user_steps (ac_users a) (ac_users (fst (start_session E c u rem a)))"
proof -
  have "user_steps (ac_users a) (fst (RecordLogin (cl_now c) (usr_ID u) (ac_users a)))"
    by (rule fst_steps) (rule RecordLogin_steps)
  then show ?thesis by (auto simp: start_session_def split: prod.splits sum.splits)
qed

lemma login_steps: "user_steps (ac_users a) (ac_users (fst (login E c q a)))"
  using start_session_steps by (simp add: login_def split: option.split sum.split auth_error.split bool.split)

lemma changePassword_steps:
  assumes "call_ok c a"
  shows "user_steps (ac_users a) (ac_users (fst (changePassword E c q a)))"
proof (cases "ac_users (fst (changePassword E c q a)) = ac_users a")
  case False
  then obtain req u where q: "q = Some req" and u: "user_GetByID (id_UserID (cl_who c)) (ac_users a) = Inr u" "usr_PasswordHash u \<noteq> []"
    and d: "ac_users (fst (changePassword E c q a)) =
      fst (UpdatePassword (cl_hash c) (cl_now c) (id_UserID (cl_who c)) (cp_NewPassword req) (ac_users a))"
    by (auto simp: changePassword_def Let_def split: option.splits sum.splits bool.splits prod.splits if_splits)
  show ?thesis unfolding d
  proof (rule fst_steps)
    fix d r assume "UpdatePassword (cl_hash c) (cl_now c) (id_UserID (cl_who c)) (cp_NewPassword req) (ac_users a) = (d, r)"
    then show "user_steps (ac_users a) d"
    proof (rule UpdatePassword_steps)
      show "hashes (cl_hash c)" by (rule call_okD(2) [OF assms])
      show "usr_PasswordHash v \<noteq> []" if "ac_users a = Some b" "gm_get b (id_UserID (cl_who c)) = Some (Some v)" for b v
        using u that by (auto simp: user_GetByID_def split: if_splits)
    qed
  qed
qed simp

lemma service_steps:
  assumes "call_ok c a"
  shows "user_steps (ac_users a) (ac_users (fst (createServiceAccount E c q a)))"
proof (cases q)
  case (Some req)
  obtain d r where p: "CreateServiceAccount (cl_uuid c) (cl_now c) (trimSpace (vq_Name req)) (vq_Role req) (ac_users a) = (d, r)"
    by fastforce
  note s = CreateServiceAccount_steps [OF p call_okD(1) [OF assms]]
  have "user_steps (ac_users a) (fst (Delete_user k d))" for k
    by (rule rtranclp_trans [OF s], rule fst_steps) (rule Delete_user_steps)
  with s Some p show ?thesis
    by (simp add: createServiceAccount_def Let_def split: sum.split user_error.split prod.split)
qed (simp add: createServiceAccount_def)

lemma oidc_user_steps:
  assumes "oidc_user E c cl x db = (d, r)" and "free_id (cl_uuid c) db"
  shows "user_steps db d"
  using assms by (auto simp: oidc_user_def Let_def split: sum.splits if_splits prod.splits elim!: CreateOIDCUser_steps)

lemma oidc_sign_in_steps:
  assumes "free_id (cl_uuid c) (ac_users a)"
  shows "user_steps (ac_users a) (ac_users (fst (oidc_sign_in E c cs cl x a)))"
proof -
  obtain d r where p: "oidc_user E c cl x (ac_users a) = (d, r)" by fastforce
  note s = oidc_user_steps [OF p assms]
  have s1: "user_steps (ac_users a) (fst (RecordLogin n k d))" for n k
    by (rule rtranclp_trans [OF s], rule fst_steps) (rule RecordLogin_steps)
  have "user_steps (ac_users a) (fst (UpdateEmail m k e (fst (RecordLogin n k d))))" for m n k e
    by (rule rtranclp_trans [OF s1], rule fst_steps) (rule UpdateEmail_steps)
  with s s1 p show ?thesis by (simp add: oidc_sign_in_def Let_def split: option.split sum.split prod.split)
qed

lemma oidc_admit_steps:
  "free_id (cl_uuid c) (ac_users a) \<Longrightarrow> user_steps (ac_users a) (ac_users (fst (oidc_admit E c cs cfg cl a)))"
  using oidc_sign_in_steps [of c a E cs cl] oidc_sign_in_steps [of c "a\<lparr>ac_oidc := d\<rparr>" E cs cl for d]
  by (simp add: oidc_admit_def Let_def split: option.split prod.split)

lemma callback_steps:
  assumes "call_ok c a"
  shows "user_steps (ac_users a) (ac_users (fst (oidcCallback E I c q a)))"
proof -
  have "user_steps (ac_users a) (ac_users (fst (oidc_token E I c cs b cfg code n (a\<lparr>ac_client := m\<rparr>))))" for cs b cfg code n m
    using oidc_admit_steps [of c "a\<lparr>ac_client := m\<rparr>" E cs cfg] call_okD(1) [OF assms]
    by (simp add: oidc_token_def split: option.split prod.split)
  then show ?thesis by (simp add: oidcCallback_def Let_def split: option.split sum.split prod.split bool.split)
qed

lemma revoke_users [simp]:
  "ac_users (fst (revokeAllOIDCSessions c a)) = ac_users a" "ac_users (fst (revokeOIDCSessionsForSub c s a)) = ac_users a"
  by (auto simp: revokeAllOIDCSessions_def revokeOIDCSessionsForSub_def split: sum.split prod.split)

lemma settings_users [simp]:
  "ac_users (fst (putOIDCConfig E c q a)) = ac_users a"
  "ac_users (fst (addOIDCAllowlist E c q1 a)) = ac_users a"
  "ac_users (fst (deleteOIDCAllowlist E c q2 a)) = ac_users a"
  "ac_users (fst (oidcInitiateLogin E c s n a)) = ac_users a"
  by (auto simp: putOIDCConfig_def addOIDCAllowlist_def deleteOIDCAllowlist_def oidcInitiateLogin_def Let_def
      split_beta split: option.split sum.split prod.split bool.split)

lemma session_users [simp]:
  "ac_users (fst (logout E dev c a)) = ac_users a" "ac_users (fst (unlock E c p a)) = ac_users a"
  "ac_users (fst (deleteSession c k a)) = ac_users a" "ac_users (fst (rotateServiceAccountToken E c u x a)) = ac_users a"
  by (auto simp: logout_def unlock_def deleteSession_def rotateServiceAccountToken_def Let_def split_beta
      split: option.split sum.split prod.split bool.split)

lemma preference_steps:
  "user_steps (ac_users a) (ac_users (fst (updateTheme c q a)))"
  "user_steps (ac_users a) (ac_users (fst (updateLanguage c q a)))"
  by (auto simp: updateTheme_def updateLanguage_def split: option.split prod.split
      intro: UpdateThemePreference_steps UpdateLanguagePreference_steps)

lemma admin_steps:
  "call_ok c a \<Longrightarrow> user_steps (ac_users a) (ac_users (fst (createAdminUser E c g q a)))"
  "user_steps (ac_users a) (ac_users (fst (updateUserRole c k r a)))"
  "user_steps (ac_users a) (ac_users (fst (deleteAdminUser c k a)))"
  "user_steps (ac_users a) (ac_users (fst (deleteServiceAccount c k a)))"
  by (auto simp: createAdminUser_def updateUserRole_def deleteAdminUser_def deleteServiceAccount_def Let_def
      split: option.split prod.split sum.split
      intro: CreateManaged_steps UpdateRole_steps Delete_user_steps dest: call_okD)

lemma account_call_steps:
  "call_ok c a \<Longrightarrow> user_steps (ac_users a) (ac_users (fst (account_call E I c rq a)))"
  by (cases rq) (simp_all add: setup_steps login_steps changePassword_steps service_steps callback_steps preference_steps admin_steps)

lemma user_steps_keep: "user_steps db db' \<Longrightarrow> db_ok db \<Longrightarrow> db_ok db' \<and> (has_admin db \<longrightarrow> has_admin db')"
  by (induction rule: rtranclp_induct) (auto intro: user_step_ok user_step_admin)

lemma account_steps_keep:
  "(account_step E I)\<^sup>*\<^sup>* a a' \<Longrightarrow> db_ok (ac_users a) \<Longrightarrow> db_ok (ac_users a') \<and> (has_admin (ac_users a) \<longrightarrow> has_admin (ac_users a'))"
proof (induction rule: rtranclp_induct)
  case (step a1 a2)
  from step(2) obtain c rq where "call_ok c a1" "a2 = fst (account_call E I c rq a1)" by (auto elim: account_step.cases)
  with account_call_steps [of c a1 E I rq] user_steps_keep [of "ac_users a1" "ac_users a2"] step(3,4) show ?case by auto
qed simp

end
