(* ===== verification/AccountProps.thy ===== *)
theory AccountProps
  imports AccountRuns AuthProps
begin

text \<open>
  The properties of accounts: what every sequence of requests keeps, when a login succeeds and
  what its session then stands for, what a password change and a deletion revoke, and who may sign
  in through single sign-on. \<open>account_stores\<close> instantiates the interface of the authentication
  middlewares on the whole account state, so that handlers and middlewares meet on one state.
\<close>

section \<open>The middlewares on the account state\<close>

definition account_stores :: "env \<Rightarrow> accounts stores" where
  "account_stores E =
     \<lparr>s_get = (\<lambda>now c a. case Get (en_sha E) now c (ac_sessions a) of (d, x) \<Rightarrow> (a\<lparr>ac_sessions := d\<rparr>, x)),
      s_touch = (\<lambda>now c a. case Touch (en_sha E) now c (ac_sessions a) of (d, x) \<Rightarrow> (a\<lparr>ac_sessions := d\<rparr>, x)),
      s_delete = (\<lambda>c a. case Delete (en_sha E) c (ac_sessions a) of (d, x) \<Rightarrow> (a\<lparr>ac_sessions := d\<rparr>, x)),
      u_get = (\<lambda>k a. map_sum (\<lambda>e. e) User.truncate (user_GetByID k (ac_users a))),
      t_lookup = Some (\<lambda>p a. LookupToken (en_sha E) p (ac_tokens a)),
      t_touch = (\<lambda>now t a. a\<lparr>ac_tokens := fst (TouchLastUsed now t (ac_tokens a))\<rparr>)\<rparr>"

definition account_session :: "(string \<Rightarrow> string) \<Rightarrow> accounts \<Rightarrow> string \<Rightarrow> Session option" where
  "account_session sha a sid = row_of sha (ac_sessions a) sid"

interpretation acct: session_store "account_stores E" "account_session (en_sha E)" "same_handle (en_sha E)" for E
proof unfold_locales
  show "snd (s_get (account_stores E) now c w) = Inr s \<Longrightarrow>
      \<exists>r. account_session (en_sha E) w c = Some r \<and> now \<le> SessExpiresAt r \<and> s = r\<lparr>ID := c\<rparr>" for now c w s
    using Get_row [of "en_sha E" now c "ac_sessions w" s] by (simp add: account_stores_def account_session_def split_beta)
  show "account_session (en_sha E) (fst (s_get (account_stores E) now c w)) d = account_session (en_sha E) w d \<or>
      account_session (en_sha E) (fst (s_get (account_stores E) now c w)) d = None" for now c w d
    using row_of_Get [of "en_sha E" now c "ac_sessions w" d] by (simp add: account_stores_def account_session_def split_beta)
  show "account_session (en_sha E) (fst (s_delete (account_stores E) c w)) d = account_session (en_sha E) w d \<or>
      account_session (en_sha E) (fst (s_delete (account_stores E) c w)) d = None" for c w d
    using row_of_Delete_weak [of "en_sha E" c "ac_sessions w" d] by (simp add: account_stores_def account_session_def split_beta)
  show "account_session (en_sha E) (fst (s_touch (account_stores E) now c w)) d = account_session (en_sha E) w d"
    if "\<not> same_handle (en_sha E) c d" for now c w d
    using row_of_Touch_frame [OF that] by (simp add: account_stores_def account_session_def split_beta)
  show "account_session (en_sha E) (t_touch (account_stores E) now t w) d = account_session (en_sha E) w d" for now t w d
    by (simp add: account_stores_def account_session_def)
  show "account_session (en_sha E) w c = account_session (en_sha E) w d" if "same_handle (en_sha E) c d" for c d w
    using row_of_same [OF that] by (simp add: account_session_def)
qed

section \<open>The last administrator\<close>

lemma decoded_set:
  assumes "gm_wf b"
  shows "u \<in> set (decoded b) \<longleftrightarrow> (\<exists>k. gm_get b k = Some (Some u))"
proof -
  have "u \<in> set (decoded b) \<longleftrightarrow> (\<exists>k. (k, Some u) \<in> set b)"
    by (force simp: decoded_def List.map_filter_def)
  then show ?thesis using gm_get_iff [OF assms] by simp
qed

lemma space_not_username:
  assumes "e \<in> set space_encodings"
  shows "\<not> username_char (hd e) \<and> \<not> username_char (last e)"
  using assms by (auto simp: space_encodings_def username_char_def less_eq_char_def)

lemma strip_enc_None:
  assumes "\<And>e. e \<in> set encs \<Longrightarrow> e \<noteq> [] \<and> \<not> username_char (hd e)" and "\<And>x xs. s = x # xs \<Longrightarrow> username_char x"
  shows "strip_enc encs s = None"
proof -
  have "\<not> hasPrefix s e" if "e \<in> set encs" for e
    using assms(1) [OF that] assms(2) by (cases e; cases s) (auto simp: hasPrefix_def)
  then show ?thesis by (auto simp: strip_enc_def find_None_iff)
qed

lemma trimSpace_username:
  assumes "list_all username_char s"
  shows "trimSpace s = s"
proof -
  have "strip_enc space_encodings s = None"
  proof (rule strip_enc_None)
    show "e \<noteq> [] \<and> \<not> username_char (hd e)" if "e \<in> set space_encodings" for e
      using that space_not_username space_encodings_not_Nil(1) by blast
  qed (use assms in auto)
  then have l: "trimLeft s = s" by (simp add: trimLeft.simps)
  have "strip_enc (map rev space_encodings) (rev s) = None"
  proof (rule strip_enc_None)
    show "e \<noteq> [] \<and> \<not> username_char (hd e)" if "e \<in> set (map rev space_encodings)" for e
      using that space_not_username space_encodings_not_Nil(1) by (auto simp: hd_rev)
    show "username_char x" if "rev s = x # xs" for x xs
      using that assms by (metis list.set_intros(1) list_all_iff set_rev)
  qed
  then have "trimRight_rev (rev s) = rev s" by (simp add: trimRight_rev.simps)
  with l show ?thesis by (simp add: trimSpace_def)
qed

lemma GetByUsername_row:
  assumes "users_ok b" and "gm_get b k = Some (Some u)"
  shows "GetByUsername (usr_Username u) (Some b) = Inr u"
proof -
  note ok = users_okD [OF assms(1)]
  have n: "username_ok (usr_Username u)" using ok(3) [OF assms(2)] by (simp add: user_ok_def)
  have "find (\<lambda>v. usr_Username v = usr_Username u) (decoded b) = Some u"
  proof (cases "find (\<lambda>v. usr_Username v = usr_Username u) (decoded b)")
    case None
    with decoded_set [OF ok(2), of u] assms(2) show ?thesis by (auto simp: find_None_iff)
  next
    case (Some v)
    then obtain j where "gm_get b j = Some (Some v)" "usr_Username v = usr_Username u"
      using decoded_set [OF ok(2), of v] by (auto simp: find_Some_iff intro: nth_mem)
    with rows_okD(3) [OF ok(1) this(1) assms(2)] assms(2) Some show ?thesis by simp
  qed
  with n trimSpace_username [of "usr_Username u"] show ?thesis
    by (simp add: GetByUsername_def Let_def username_ok_def usernameRegex_def)
qed

lemma GetByUsername_sound:
  assumes "users_ok b" and "GetByUsername name (Some b) = Inr u"
  shows "gm_get b (usr_ID u) = Some (Some u) \<and> usr_Username u = trimSpace name"
proof -
  from assms(2) have "u \<in> set (decoded b)" "usr_Username u = trimSpace name"
    by (auto simp: GetByUsername_def Let_def find_Some_iff split: if_splits option.splits)
  with decoded_set [OF users_okD(2) [OF assms(1)], of u] users_okD(4) [OF assms(1)] show ?thesis by auto
qed

lemma start_session_status:
  assumes "ac_sessions a \<noteq> None" and "cl_session c \<noteq> None" and "usr_ID u \<noteq> []"
  shows "an_status (snd (start_session E c u rem a)) = 200"
  using assms by (auto simp: start_session_def Create_def Let_def ok_def)

text \<open>A small installation: one administrator, stored as the setup stores it.\<close>

definition plain_lib :: golib where
  "plain_lib = \<lparr>lib_lower = (\<lambda>s. s), lib_url = (\<lambda>_. None), lib_duration = (\<lambda>_. None), lib_regexp = (\<lambda>_. True),
     lib_canonical = (\<lambda>s. s), lib_seclang = (\<lambda>_. True), lib_quote = (\<lambda>s. s)\<rparr>"

definition sample_env :: env where
  "sample_env = \<lparr>en_go = plain_lib, en_fold = (\<lambda>_ _. False), en_sha = (\<lambda>s. s), en_compare = (\<lambda>p h. Some (h = ''h'' @ p)),
     en_common = (\<lambda>_. False), en_hibp = (\<lambda>_. Some ''clean''), en_discover = (\<lambda>_. True)\<rparr>"

definition sample_who :: identity where
  "sample_who = \<lparr>id_UserID = ''u1'', id_Username = ''root'', id_SessionID = ''s0'', id_TokenID = [], id_IsLocked = False,
     id_Role = ''admin'', id_AuthSource = ''local'', id_MustChangePassword = False\<rparr>"

definition sample_call :: call where
  "sample_call = \<lparr>cl_now = 7, cl_uuid = ''u2'', cl_hash = (\<lambda>p. Some (''h'' @ p)), cl_session = Some ''s1'', cl_token = Some ''t1'',
     cl_tokenID = ''k1'', cl_ip = ''192.0.2.1'', cl_agent = ''ua'', cl_secure = True, cl_who = sample_who\<rparr>"

definition root_row :: user_row where
  "root_row = (new_user ''u1'' 1 ''root'')\<lparr>usr_PasswordHash := ''hcorrect horse battery'', usr_AuthSource := ''local'',
     usr_Role := ''admin''\<rparr>"

definition no_idp :: idp where
  "no_idp = \<lparr>ip_exchange = (\<lambda>_ _. None), ip_verify = (\<lambda>_ _. None)\<rparr>"

definition blank_response :: auth_response where
  "blank_response = \<lparr>rs_status = None, rs_bodies = [], rs_cleared = False\<rparr>"

definition sample_accounts :: accounts where
  "sample_accounts = \<lparr>ac_users = Some [(''u1'', Some root_row)], ac_sessions = Some [], ac_tokens = Some [],
     ac_limiter = NewRateLimiter, ac_setup = [], ac_oidc = None, ac_client = NewOIDCManager\<rparr>"

lemma sample_call_ok: "call_ok sample_call sample_accounts"
  by (simp add: call_ok_def sample_call_def sample_accounts_def)

lemma sample_users_ok: "db_ok (ac_users sample_accounts)"
proof -
  have "user_ok root_row" by code_simp
  moreover have "rows_ok usr_ID usr_Username [(''u1'', Some root_row)]"
    by (rule rows_okI) (auto simp: root_row_def new_user_def split: if_splits)
  ultimately have "users_ok [(''u1'', Some root_row)]"
    unfolding users_ok_def by (simp split: if_splits)
  then show ?thesis by (simp add: db_ok_def sample_accounts_def)
qed

lemma sample_has_admin: "has_admin (ac_users sample_accounts)"
proof -
  have "local_admin root_row" by code_simp
  then show ?thesis by (auto simp: has_admin_def sample_accounts_def)
qed

text \<open>
  C15: Accounts stay sound. Whatever sequence of account requests is served, whoever sends them, every
  row of the user bucket stays under its own identifier, no two users share a name and no two an
  OpenID subject, names, roles and sources are the permitted ones, every local user has a password
  hash, and no federated or service user has one.
\<close>

theorem accounts_stay_sound:
  assumes "db_ok (ac_users a)" and "(account_step E I)\<^sup>*\<^sup>* a a'"
  shows "db_ok (ac_users a')"
  using account_steps_keep [OF assms(2,1)] by simp

theorem accounts_stay_sound_witness:
  "db_ok (ac_users (fst (account_call sample_env no_idp sample_call
     (CreateAdminUser None (Some \<lparr>uq_Username = ''ann'', uq_DisplayName = [], uq_Email = [], uq_Role = ''viewer'',
        uq_Password = ''a long enough password''\<rparr>)) sample_accounts)))"
  by (rule accounts_stay_sound [OF sample_users_ok]) (blast intro: account_step.intros sample_call_ok)

text \<open>
  C11: The way in stays open. Once a local administrator exists, no sequence of account requests removes
  the last one: the user bucket always holds a local administrator with a password hash, and a login
  with that name and the password of that hash succeeds whenever a session can be stored.
\<close>

theorem local_admin_can_always_log_in:
  assumes "db_ok (ac_users a)" and "has_admin (ac_users a)" and "(account_step E I)\<^sup>*\<^sup>* a a'"
  shows "\<exists>b k u. ac_users a' = Some b \<and> gm_get b k = Some (Some u) \<and> local_admin u \<and> usr_PasswordHash u \<noteq> [] \<and>
    (\<forall>c p rem. p \<noteq> [] \<longrightarrow> en_compare E p (usr_PasswordHash u) = Some True \<longrightarrow> cl_session c \<noteq> None \<longrightarrow> ac_sessions a' \<noteq> None \<longrightarrow>
      an_status (snd (login E c (Some \<lparr>lq_Username = usr_Username u, lq_Password = p, lq_RememberMe = rem\<rparr>) a')) = 200)"
proof -
  from account_steps_keep [OF assms(3,1)] assms(2) have "db_ok (ac_users a')" "has_admin (ac_users a')" by simp_all
  then obtain b k u where b: "ac_users a' = Some b" "users_ok b" "gm_get b k = Some (Some u)" "local_admin u"
    by (auto simp: has_admin_def db_ok_def)
  have u: "usr_PasswordHash u \<noteq> []" "usr_Username u \<noteq> []" "usr_ID u \<noteq> []"
    using users_okD(3) [OF b(2,3)] b(4)
    by (auto simp: user_ok_def local_admin_def account_consts username_ok_def usernameRegex_def)
  have "an_status (snd (login E c (Some \<lparr>lq_Username = usr_Username u, lq_Password = p, lq_RememberMe = rem\<rparr>) a')) = 200"
    if "p \<noteq> []" "en_compare E p (usr_PasswordHash u) = Some True" "cl_session c \<noteq> None" "ac_sessions a' \<noteq> None" for c p rem
    using start_session_status [OF that(4,3) u(3)] that GetByUsername_row [OF b(2,3)] u b(1) by (simp add: login_def)
  with b u(1) show ?thesis by blast
qed

theorem local_admin_can_always_log_in_witness:
  "\<exists>u. local_admin u \<and> an_status (snd (login (sample_env\<lparr>en_compare := \<lambda>_ _. Some True\<rparr>) sample_call
     (Some \<lparr>lq_Username = usr_Username u, lq_Password = ''x'', lq_RememberMe = False\<rparr>)
     (fst (account_call (sample_env\<lparr>en_compare := \<lambda>_ _. Some True\<rparr>) no_idp sample_call (DeleteAdminUser ''u1'') sample_accounts)))) = 200"
proof -
  let ?E = "sample_env\<lparr>en_compare := \<lambda>_ _. Some True\<rparr>"
  let ?a = "fst (account_call ?E no_idp sample_call (DeleteAdminUser ''u1'') sample_accounts)"
  have "account_step ?E no_idp sample_accounts ?a" by (rule account_step.intros [OF sample_call_ok])
  then have r: "(account_step ?E no_idp)\<^sup>*\<^sup>* sample_accounts ?a" by blast
  have s: "ac_sessions ?a \<noteq> None"
    by (simp add: deleteAdminUser_def sample_accounts_def Delete_user_def user_GetByID_def DeleteAllForUser_def delete_where_def
        split: option.split sum.split)
  obtain u where u: "local_admin u" "\<And>c p rem. p \<noteq> [] \<Longrightarrow> en_compare ?E p (usr_PasswordHash u) = Some True \<Longrightarrow>
      cl_session c \<noteq> None \<Longrightarrow> ac_sessions ?a \<noteq> None \<Longrightarrow>
      an_status (snd (login ?E c (Some \<lparr>lq_Username = usr_Username u, lq_Password = p, lq_RememberMe = rem\<rparr>) ?a)) = 200"
    using local_admin_can_always_log_in [OF sample_users_ok sample_has_admin r] by blast
  from u(2) [of "''x''" sample_call False] s u(1) show ?thesis by (auto simp: sample_call_def)
qed

section \<open>Login\<close>

lemma Create_failed: "Create sha rnd now u rem ip ua db = (d, Inl e) \<Longrightarrow> d = db"
  by (auto simp: Create_def Let_def split: if_splits option.splits)

lemma start_session_cases:
  obtains (started) sd sess where "Create (en_sha E) (cl_session c) (cl_now c) (usr_ID u) rem (cl_ip c) (cl_agent c) (ac_sessions a) = (sd, Inr sess)"
      "an_status (snd (start_session E c u rem a)) = 200" "an_cookies (snd (start_session E c u rem a)) = signed_in c (ID sess) rem u"
      "ac_sessions (fst (start_session E c u rem a)) = sd"
      "ac_users (fst (start_session E c u rem a)) = fst (RecordLogin (cl_now c) (usr_ID u) (ac_users a))"
      "ac_tokens (fst (start_session E c u rem a)) = ac_tokens a"
  | (failed) "start_session E c u rem a = (a, fail 500 ''internal error'')"
proof (cases "Create (en_sha E) (cl_session c) (cl_now c) (usr_ID u) rem (cl_ip c) (cl_agent c) (ac_sessions a)")
  case (Pair sd r)
  show thesis
  proof (cases r)
    case (Inl e)
    with Pair Create_failed [of "en_sha E" "cl_session c"] show thesis by (intro failed) (auto simp: start_session_def)
  next
    case (Inr sess)
    with Pair show thesis by (intro started [of sd sess]) (simp_all add: start_session_def ok_def)
  qed
qed

definition credentials :: "env \<Rightarrow> loginRequest \<Rightarrow> user_db \<Rightarrow> user_row \<Rightarrow> bool" where
  "credentials E req db u \<longleftrightarrow> lq_Username req \<noteq> [] \<and> lq_Password req \<noteq> [] \<and> GetByUsername (lq_Username req) db = Inr u \<and>
     usr_PasswordHash u \<noteq> [] \<and> en_compare E (lq_Password req) (usr_PasswordHash u) = Some True"

definition wrong_credentials :: "env \<Rightarrow> loginRequest \<Rightarrow> user_db \<Rightarrow> bool" where
  "wrong_credentials E req db \<longleftrightarrow> lq_Username req \<noteq> [] \<and> lq_Password req \<noteq> [] \<and>
     (case GetByUsername (lq_Username req) db of
        Inl e \<Rightarrow> e = ErrUserNotFound
      | Inr u \<Rightarrow> usr_PasswordHash u = [] \<or> en_compare E (lq_Password req) (usr_PasswordHash u) = Some False)"

lemma wrong_not_right: "credentials E req db u \<Longrightarrow> \<not> wrong_credentials E req db"
  by (auto simp: credentials_def wrong_credentials_def)

lemma login_cases:
  obtains (accepted) req u where "body = Some req" "credentials E req (ac_users a) u" "login E c body a = start_session E c u (lq_RememberMe req) a"
  | (refused) an where "login E c body a = (a, an)" "an_status an \<noteq> 200" "an_cookies an = []"
      "\<And>req. body = Some req \<Longrightarrow> wrong_credentials E req (ac_users a) \<Longrightarrow> an\<lparr>an_audit := []\<rparr> = fail 401 ''invalid credentials''"
      "\<And>req u. body = Some req \<Longrightarrow> \<not> credentials E req (ac_users a) u"
proof (cases "\<exists>req u. body = Some req \<and> credentials E req (ac_users a) u")
  case True
  then obtain req u where "body = Some req" "credentials E req (ac_users a) u" by blast
  then show thesis by (intro accepted [of req u]) (simp_all add: credentials_def login_def)
next
  case False
  obtain a' an where l: "login E c body a = (a', an)" by fastforce
  from l False have "a' = a \<and> an_status an \<noteq> 200 \<and> an_cookies an = [] \<and>
      (\<forall>req. body = Some req \<longrightarrow> wrong_credentials E req (ac_users a) \<longrightarrow> an\<lparr>an_audit := []\<rparr> = fail 401 ''invalid credentials'')"
    by (auto simp: login_def login_failure_def fail_def credentials_def wrong_credentials_def
        split: option.splits sum.splits if_splits auth_error.splits bool.splits)
  with l False show thesis by (intro refused [of an]) auto
qed

text \<open>
  C13: Login is exact. A login succeeds precisely when the name finds a user with a local password, the
  password matches its hash and a session can be stored; it then sets one session cookie, which is
  HTTP-only, same-site strict, secure when the request was, and lives as long as the session. Every
  other login changes nothing and sets no cookie, and a missing user, a user without a local password
  and a wrong password are answered alike.
\<close>

theorem login_exact:
  assumes "db_ok (ac_users a)" and "login E c (Some req) a = (a', an)"
  shows "(an_status an = 200 \<longleftrightarrow> (\<exists>u. credentials E req (ac_users a) u) \<and> cl_session c \<noteq> None \<and> ac_sessions a \<noteq> None) \<and>
    (an_status an = 200 \<longrightarrow> (\<exists>sid. cl_session c = Some sid \<and> filter (\<lambda>k. ck_Name k = ''arenet_session'') (an_cookies an) =
       [\<lparr>ck_Name = ''arenet_session'', ck_Value = sid, ck_MaxAge = session_ttl (lq_RememberMe req) div ns_second, ck_HttpOnly = True,
         ck_Secure = cl_secure c, ck_SameSite = SameSiteStrict\<rparr>])) \<and>
    (an_status an \<noteq> 200 \<longrightarrow> a' = a \<and> an_cookies an = []) \<and>
    (wrong_credentials E req (ac_users a) \<longrightarrow> an\<lparr>an_audit := []\<rparr> = fail 401 ''invalid credentials'')"
proof (cases rule: login_cases [of "Some req" E a c])
  case (accepted req' u)
  then have u: "credentials E req (ac_users a) u" "start_session E c u (lq_RememberMe req) a = (a', an)" using assms(2) by auto
  have uid: "usr_ID u \<noteq> []"
  proof (cases "ac_users a")
    case (Some b)
    with assms(1) have o: "users_ok b" by (simp add: db_ok_def)
    with u(1) Some GetByUsername_sound [OF o, of "lq_Username req" u] users_okD(3) [OF o] show ?thesis
      by (auto simp: credentials_def user_ok_def)
  qed (use u(1) in \<open>simp add: credentials_def GetByUsername_def Let_def split: if_splits\<close>)
  show ?thesis
  proof (cases rule: start_session_cases [of E c u "lq_RememberMe req" a])
    case (started sd sess)
    from row_of_Create [OF started(1)] have "cl_session c = Some (ID sess)" by auto
    moreover from started(1) uid have "ac_sessions a \<noteq> None" by (auto simp: Create_def Let_def split: option.splits)
    ultimately show ?thesis using started u wrong_not_right [OF u(1)]
      by (auto simp: signed_in_def setSessionCookie_def setThemeCookie_def setLanguageCookie_def seconds_def session_ttl_def)
  next
    case failed
    with u(2) have an: "a' = a" "an = fail 500 ''internal error''" by auto
    have "cl_session c = None \<or> ac_sessions a = None"
    proof (rule ccontr)
      assume "\<not> ?thesis"
      with start_session_status [of a c u E "lq_RememberMe req"] uid failed show False by (simp add: fail_def)
    qed
    with an wrong_not_right [OF u(1)] show ?thesis by (auto simp: fail_def)
  qed
next
  case (refused an')
  with assms(2) show ?thesis by auto
qed

definition root_login :: loginRequest where
  "root_login = \<lparr>lq_Username = ''root'', lq_Password = ''correct horse battery'', lq_RememberMe = True\<rparr>"

theorem login_exact_witness:
  "an_status (snd (login sample_env sample_call (Some root_login) sample_accounts)) = 200 \<and>
   snd (login sample_env sample_call (Some (root_login\<lparr>lq_Password := ''guess''\<rparr>)) sample_accounts)\<lparr>an_audit := []\<rparr> =
     fail 401 ''invalid credentials''"
proof -
  have "an_status (snd (login sample_env sample_call (Some root_login) sample_accounts)) = 200"
    "wrong_credentials sample_env (root_login\<lparr>lq_Password := ''guess''\<rparr>) (ac_users sample_accounts)"
    by code_simp+
  with login_exact [OF sample_users_ok, of sample_env sample_call "root_login\<lparr>lq_Password := ''guess''\<rparr>"
      "fst (login sample_env sample_call (Some (root_login\<lparr>lq_Password := ''guess''\<rparr>)) sample_accounts)"
      "snd (login sample_env sample_call (Some (root_login\<lparr>lq_Password := ''guess''\<rparr>)) sample_accounts)"]
  show ?thesis by simp
qed

text \<open>What the login recorded does not show to the middlewares.\<close>

lemma change_user_get:
  assumes "user_GetByID uid db = Inr u" and "\<And>b. f b u = Inr (g u)"
  shows "user_GetByID uid (fst (change_user uid f db)) = Inr (g u)"
  using assms by (auto simp: user_GetByID_def change_user_def split: if_splits option.splits)




definition later_request :: auth_request where
  "later_request = \<lparr>rq_Cookie = Some ''s1'', rq_Authorization = [], rq_Background = [], rq_Method = ''GET'', rq_Path = ''/api/v1/routes''\<rparr>"


section \<open>What wakes and what ends a session\<close>

lemma asleep_same: "ac_sessions a' = ac_sessions a \<Longrightarrow> asleep (account_session sha) t sid a \<Longrightarrow> asleep (account_session sha) t sid a'"
  by (simp add: asleep_def account_session_def)

lemma asleep_less:
  "(\<And>r. row_of sha (ac_sessions a') sid = Some r \<Longrightarrow> row_of sha (ac_sessions a) sid = Some r) \<Longrightarrow>
     asleep (account_session sha) t sid a \<Longrightarrow> asleep (account_session sha) t sid a'"
  by (simp add: asleep_def account_session_def)

lemma row_del: "row_of sha (Some (fold gm_del ks b)) sid = Some r \<Longrightarrow> row_of sha (Some b) sid = Some r"
  by (simp add: row_of_def fold_del_get split: if_split_asm)

lemma delete_where_less:
  "row_of sha (fst (delete_where p db)) sid = Some r \<Longrightarrow> row_of sha db sid = Some r"
  by (cases db) (auto simp: delete_where_def Let_def dest: row_del)

lemma session_deletes_less:
  "row_of sha (fst (DeleteAllForUser u db)) sid = Some r \<Longrightarrow> row_of sha db sid = Some r"
  "row_of sha (fst (DeleteAllForUserExcept sha' u k db)) sid = Some r \<Longrightarrow> row_of sha db sid = Some r"
  "row_of sha (fst (DeleteByHandle h db)) sid = Some r \<Longrightarrow> row_of sha db sid = Some r"
  "row_of sha (fst (Delete sha' s db)) sid = Some r \<Longrightarrow> row_of sha db sid = Some r"
  "row_of sha (fst (GetByHandle now h db)) sid = Some r \<Longrightarrow> row_of sha db sid = Some r"
proof -
  show "row_of sha (fst (DeleteAllForUser u db)) sid = Some r \<Longrightarrow> row_of sha db sid = Some r"
    by (auto simp: DeleteAllForUser_def split: if_splits dest: delete_where_less)
  show "row_of sha (fst (DeleteAllForUserExcept sha' u k db)) sid = Some r \<Longrightarrow> row_of sha db sid = Some r"
    by (auto simp: DeleteAllForUserExcept_def split: if_splits dest: delete_where_less)
  show d: "row_of sha (fst (DeleteByHandle h db)) sid = Some r \<Longrightarrow> row_of sha db sid = Some r" for h
    by (auto simp: DeleteByHandle_def row_of_def split: if_splits option.splits)
  show "row_of sha (fst (Delete sha' s db)) sid = Some r \<Longrightarrow> row_of sha db sid = Some r"
    by (auto simp: Delete_def split: if_splits dest: d)
  show "row_of sha (fst (GetByHandle now h db)) sid = Some r \<Longrightarrow> row_of sha db sid = Some r"
    by (auto simp: GetByHandle_def getByHandle_def row_of_def split: if_splits option.splits)
qed

lemma purge_users_less: "row_of sha (fst (purge_users us db)) sid = Some r \<Longrightarrow> row_of sha db sid = Some r"
proof (induction us arbitrary: db)
  case (Cons u us)
  obtain d x where d: "DeleteAllForUser u db = (d, x)" by fastforce
  from Cons.prems d have "row_of sha (fst (purge_users us d)) sid = Some r" by (simp split: sum.splits prod.splits)
  from Cons.IH [OF this] d session_deletes_less(1) [of sha u db sid r] show ?case by simp
qed simp

text \<open>A handler whose session rows are rows of before, or the row of the new session.\<close>

lemma Create_row:
  assumes "\<And>s. rnd = Some s \<Longrightarrow> sha s \<noteq> sha sid" and "Create sha rnd now u rem ip ua db = (d, x)"
    and "row_of sha d sid = Some r"
  shows "row_of sha db sid = Some r"
proof (cases x)
  case (Inl e)
  with assms(2,3) Create_failed show ?thesis by blast
next
  case (Inr s)
  from row_of_Create [OF assms(2) [unfolded Inr]] obtain k where "rnd = Some k"
    "row_of sha d sid = (if sid \<noteq> [] \<and> sha sid = sha k then Some (s\<lparr>ID := SessionHandle sha k\<rparr>) else row_of sha db sid)" by blast
  with assms(1) [of k] assms(3) show ?thesis by (auto split: if_splits)
qed

definition fewer :: "(string \<Rightarrow> string) \<Rightarrow> string \<Rightarrow> accounts \<Rightarrow> accounts \<Rightarrow> bool" where
  "fewer sha sid a a' \<longleftrightarrow> (\<forall>r. row_of sha (ac_sessions a') sid = Some r \<longrightarrow> row_of sha (ac_sessions a) sid = Some r)"

lemma fewer_same [simp]: "ac_sessions a' = ac_sessions a \<Longrightarrow> fewer sha sid a a'"
  by (simp add: fewer_def)

definition new_session_other :: "env \<Rightarrow> call \<Rightarrow> string \<Rightarrow> bool" where
  "new_session_other E c sid \<longleftrightarrow> (\<forall>s. cl_session c = Some s \<longrightarrow> en_sha E s \<noteq> en_sha E sid)"

lemma start_fewer:
  assumes "new_session_other E c sid"
  shows "fewer (en_sha E) sid a (fst (start_session E c u rem a))"
  using Create_row [of "cl_session c" "en_sha E" sid] assms
  by (auto simp: fewer_def start_session_def new_session_other_def split: prod.splits sum.splits)

lemma login_fewer: "new_session_other E c sid \<Longrightarrow> fewer (en_sha E) sid a (fst (login E c q a))"
  by (cases rule: login_cases [of q E a c]) (simp_all add: start_fewer)

lemma setup_fewer:
  assumes "new_session_other E c sid"
  shows "fewer (en_sha E) sid a (fst (setup_admin E c q a))"
proof -
  have "fewer (en_sha E) sid a (fst (setup_user E c req email st a))" for req email st
    using Create_row [of "cl_session c" "en_sha E" sid] assms
    by (auto simp: fewer_def setup_user_def Let_def new_session_other_def split: prod.splits sum.splits if_splits option.splits)
  then show ?thesis by (simp add: setup_admin_def Let_def split: sum.split option.split)
qed

lemma sign_in_fewer:
  assumes "new_session_other E c sid"
  shows "fewer (en_sha E) sid a (fst (oidc_sign_in E c cs cl x a))"
  using Create_row [of "cl_session c" "en_sha E" sid] assms
  by (auto simp: fewer_def oidc_sign_in_def Let_def new_session_other_def split: prod.splits sum.splits option.splits)

lemma callback_fewer:
  assumes "new_session_other E c sid"
  shows "fewer (en_sha E) sid a (fst (oidcCallback E I c q a))"
proof -
  note s = sign_in_fewer [OF assms]
  have "fewer (en_sha E) sid a (fst (oidc_admit E c cs cfg cl (a\<lparr>ac_client := m\<rparr>)))" for cs cfg cl m
    using s [of "a\<lparr>ac_client := m\<rparr>" cs cl] s [of "a\<lparr>ac_client := m, ac_oidc := d\<rparr>" cs cl for d]
    by (simp add: oidc_admit_def Let_def fewer_def split: option.split prod.split)
  then have "fewer (en_sha E) sid a (fst (oidc_token E I c cs b cfg code n (a\<lparr>ac_client := m\<rparr>)))" for cs b cfg code n m
    by (simp add: oidc_token_def split: option.split prod.split)
  then show ?thesis by (simp add: oidcCallback_def Let_def split: option.split sum.split prod.split bool.split)
qed

lemma revoking_fewer:
  "fewer sha sid a (fst (logout E dev c a))" "fewer sha sid a (fst (deleteSession c k a))"
  "fewer sha sid a (fst (changePassword E c q a))" "fewer sha sid a (fst (deleteAdminUser c k a))"
proof -
  show "fewer sha sid a (fst (logout E dev c a))"
    by (auto simp: fewer_def logout_def Let_def dest: session_deletes_less(4))
  show "fewer sha sid a (fst (changePassword E c q a))"
    by (auto simp: fewer_def changePassword_def Let_def dest: session_deletes_less(2)
        split: option.splits sum.splits bool.splits prod.splits if_splits)
  show "fewer sha sid a (fst (deleteAdminUser c k a))"
    by (auto simp: fewer_def deleteAdminUser_def dest: session_deletes_less(1) split: option.splits sum.splits prod.splits)
  obtain d x where d: "GetByHandle (cl_now c) k (ac_sessions a) = (d, x)" by fastforce
  have "row_of sha d sid = Some r \<Longrightarrow> row_of sha (ac_sessions a) sid = Some r" for r
    using session_deletes_less(5) [of sha "cl_now c" k "ac_sessions a" sid r] d by simp
  moreover have "row_of sha (fst (DeleteByHandle k d)) sid = Some r \<Longrightarrow> row_of sha d sid = Some r" for r
    by (rule session_deletes_less(3))
  ultimately show "fewer sha sid a (fst (deleteSession c k a))" using d
    by (auto simp: fewer_def deleteSession_def split: sum.splits option.splits prod.splits)
qed

lemma settings_fewer:
  "fewer sha sid a (fst (putOIDCConfig E c q a))" "fewer sha sid a (fst (deleteOIDCAllowlist E c p a))"
proof -
  have r: "row_of sha (ac_sessions (fst (revokeAllOIDCSessions c a'))) sid = Some r \<Longrightarrow> row_of sha (ac_sessions a') sid = Some r" for a' r
    by (auto simp: revokeAllOIDCSessions_def dest: purge_users_less split: sum.splits prod.splits)
       (metis fst_conv purge_users_less)
  have r1: "row_of sha (ac_sessions (fst (revokeOIDCSessionsForSub c s a'))) sid = Some r \<Longrightarrow> row_of sha (ac_sessions a') sid = Some r" for s a' r
    using session_deletes_less(1) [of sha _ "ac_sessions a'" sid r]
    by (auto simp: revokeOIDCSessionsForSub_def split: sum.splits prod.splits if_splits) (metis fst_conv)+
  show "fewer sha sid a (fst (putOIDCConfig E c q a))"
    using r [of "a\<lparr>ac_client := m, ac_oidc := d\<rparr>" for m d] r [of "a\<lparr>ac_oidc := d\<rparr>" for d]
    by (auto simp: fewer_def putOIDCConfig_def Let_def split_beta split: option.splits sum.splits prod.splits bool.splits if_splits)
  show "fewer sha sid a (fst (deleteOIDCAllowlist E c p a))"
    using r1 [of _ "a\<lparr>ac_oidc := d\<rparr>" for d]
    by (auto simp: fewer_def deleteOIDCAllowlist_def Let_def split_beta split: option.splits sum.splits prod.splits if_splits)
qed

lemma quiet_sessions [simp]:
  "ac_sessions (fst (updateTheme c q a)) = ac_sessions a" "ac_sessions (fst (updateLanguage c q a)) = ac_sessions a"
  "ac_sessions (fst (createAdminUser E c g u a)) = ac_sessions a" "ac_sessions (fst (updateUserRole c k q a)) = ac_sessions a"
  "ac_sessions (fst (createServiceAccount E c v a)) = ac_sessions a" "ac_sessions (fst (rotateServiceAccountToken E c k w a)) = ac_sessions a"
  "ac_sessions (fst (deleteServiceAccount c k a)) = ac_sessions a" "ac_sessions (fst (addOIDCAllowlist E c y a)) = ac_sessions a"
  "ac_sessions (fst (oidcInitiateLogin E c s n a)) = ac_sessions a"
  by (simp_all add: updateTheme_def updateLanguage_def createAdminUser_def updateUserRole_def createServiceAccount_def
      rotateServiceAccountToken_def deleteServiceAccount_def addOIDCAllowlist_def oidcInitiateLogin_def Let_def
      split: option.split sum.split prod.split bool.split)

lemma account_call_fewer:
  assumes "new_session_other E c sid" and "\<nexists>p. rq = Unlock p"
  shows "fewer (en_sha E) sid a (fst (account_call E I c rq a))"
  using assms by (cases rq) (simp_all add: setup_fewer login_fewer callback_fewer revoking_fewer settings_fewer)

lemma unlock_changes:
  assumes "fst (unlock E c body a) \<noteq> a"
  shows "\<exists>p u. body = Some p \<and> user_GetByID (id_UserID (cl_who c)) (ac_users a) = Inr u \<and>
    en_compare E p (usr_PasswordHash u) = Some True \<and>
    ac_sessions (fst (unlock E c body a)) = fst (Touch (en_sha E) (cl_now c) (id_SessionID (cl_who c)) (ac_sessions a))"
  using assms by (auto simp: unlock_def Let_def split: if_splits option.splits bool.splits sum.splits)

lemma call_wakes:
  assumes "asleep (account_session (en_sha E)) t sid a" and "\<not> asleep (account_session (en_sha E)) t sid (fst (account_call E I c rq a))"
    and "new_session_other E c sid"
  shows "\<exists>p u. rq = Unlock (Some p) \<and> same_handle (en_sha E) (id_SessionID (cl_who c)) sid \<and>
    user_GetByID (id_UserID (cl_who c)) (ac_users a) = Inr u \<and> en_compare E p (usr_PasswordHash u) = Some True"
proof (cases "\<exists>q. rq = Unlock q")
  case True
  then obtain q where q: "rq = Unlock q" ..
  with assms(1,2) have "fst (unlock E c q a) \<noteq> a" by auto
  from unlock_changes [OF this] obtain p u where w: "q = Some p" "user_GetByID (id_UserID (cl_who c)) (ac_users a) = Inr u"
    "en_compare E p (usr_PasswordHash u) = Some True"
    "ac_sessions (fst (unlock E c q a)) = fst (Touch (en_sha E) (cl_now c) (id_SessionID (cl_who c)) (ac_sessions a))" by blast
  have "same_handle (en_sha E) (id_SessionID (cl_who c)) sid"
  proof (rule ccontr)
    assume "\<not> ?thesis"
    from row_of_Touch_frame [OF this, of "cl_now c" "ac_sessions a"] w(4) assms(1,2) q
    show False by (simp add: asleep_def account_session_def)
  qed
  with w q show ?thesis by blast
next
  case False
  with account_call_fewer [OF assms(3), of rq a I] assms(1,2) show ?thesis
    by (auto simp: asleep_def account_session_def fewer_def)
qed

text \<open>
  A whole request: the router puts the middlewares in front of the handler, and the handler acts
  for the identity they resolved. \<open>None\<close> is any endpoint behind hard authentication that leaves the
  account state alone, such as the heartbeat, the listings or the route handlers.
\<close>

datatype auth_stage = Open | Soft | Hard | Admin

fun stage_of :: "acct_request option \<Rightarrow> auth_stage" where
  "stage_of (Some (Setup _)) = Open"
| "stage_of (Some (Login _)) = Open"
| "stage_of (Some (InitiateLogin _ _)) = Open"
| "stage_of (Some (Callback _)) = Open"
| "stage_of (Some (Logout _)) = Soft"
| "stage_of (Some (Unlock _)) = Soft"
| "stage_of (Some (DeleteSession _)) = Hard"
| "stage_of (Some (ChangePassword _)) = Hard"
| "stage_of (Some (UpdateTheme _)) = Hard"
| "stage_of (Some (UpdateLanguage _)) = Hard"
| "stage_of None = Hard"
| "stage_of _ = Admin"

definition serve :: "env \<Rightarrow> idp \<Rightarrow> call \<Rightarrow> acct_request option \<Rightarrow> accounts handler" where
  "serve E I c rq i r x =
     (case rq of
        None \<Rightarrow> x
      | Some q \<Rightarrow>
          (case account_call E I (c\<lparr>cl_who := i\<rparr>) q (fst x) of
             (a, an) \<Rightarrow> (a, (snd x)\<lparr>rs_status := Some (an_status an)\<rparr>)))"

definition web_call ::
  "env \<Rightarrow> idp \<Rightarrow> call \<Rightarrow> acct_request option \<Rightarrow> auth_request \<Rightarrow> accounts \<times> auth_response \<Rightarrow> accounts \<times> auth_response" where
  "web_call E I c rq r x =
     (case stage_of rq of
        Open \<Rightarrow> serve E I c rq (cl_who c) r x
      | Soft \<Rightarrow> SoftAuthMiddleware (account_stores E) (cl_now c) (serve E I c rq) r x
      | Hard \<Rightarrow> HardAuthMiddleware (account_stores E) (cl_now c) (serve E I c rq) r x
      | Admin \<Rightarrow> HardAuthMiddleware (account_stores E) (cl_now c) (RequireAdminMiddleware (serve E I c rq)) r x)"

lemma serve_asleep:
  assumes "new_session_other E c sid" and "asleep (account_session (en_sha E)) t sid (fst x)"
    and "(\<exists>q. rq = Some (Unlock q)) \<Longrightarrow> \<not> same_handle (en_sha E) (id_SessionID i) sid"
  shows "asleep (account_session (en_sha E)) t sid (fst (serve E I c rq i r x))"
proof (rule ccontr)
  assume n: "\<not> ?thesis"
  then obtain q where q: "rq = Some q" using assms(2) by (cases rq) (auto simp: serve_def)
  have n1: "\<not> asleep (account_session (en_sha E)) t sid (fst (account_call E I (c\<lparr>cl_who := i\<rparr>) q (fst x)))"
    using n q by (simp add: serve_def split_beta)
  have n2: "new_session_other E (c\<lparr>cl_who := i\<rparr>) sid" using assms(1) by (simp add: new_session_other_def)
  from call_wakes [OF assms(2) n1 n2] q assms(3) show False by auto
qed

lemma stage_not_unlock: "stage_of rq \<noteq> Soft \<Longrightarrow> \<nexists>q. rq = Some (Unlock q)"
  by auto

lemma row_has_own_id:
  assumes "db_ok db" and "user_GetByID k db = Inr u"
  shows "usr_ID u = k"
proof (cases db)
  case (Some b)
  with assms(1) have "users_ok b" by (simp add: db_ok_def)
  with Some assms(2) users_okD(4) show ?thesis by (auto simp: user_GetByID_def split: if_splits option.splits)
qed (use assms(2) in \<open>simp add: user_GetByID_def split: if_splits\<close>)

lemma soft_wakes:
  assumes "asleep (account_session (en_sha E)) t sid a" and "new_session_other E c sid"
    and "\<not> asleep (account_session (en_sha E)) t sid (fst (SoftAuthMiddleware (account_stores E) (cl_now c) (serve E I c rq) r (a, rs)))"
  shows "\<exists>ck u s p. rq = Some (Unlock (Some p)) \<and> rq_Cookie r = Some ck \<and> same_handle (en_sha E) ck sid \<and>
    account_session (en_sha E) a sid = Some s \<and> u_get (account_stores E) (UserID s) a = Inr u \<and>
    (\<exists>v. user_GetByID (usr_ID u) (ac_users a) = Inr v \<and> en_compare E p (usr_PasswordHash v) = Some True)"
proof -
  let ?asl = "asleep (account_session (en_sha E)) t sid" and ?st = "account_stores E"
  have b: "?asl (fst (bearer_fallback ?st (cl_now c) (serve E I c rq) r x))" if "?asl (fst x)" for x
    by (rule acct.bearer_asleep [OF that], rule serve_asleep [OF assms(2)]) (simp_all add: withAuthIdentity_def same_handle_def)
  obtain ck where ck: "rq_Cookie r = Some ck"
    using assms(1,3) b [of "(a, rs)"] by (cases "rq_Cookie r") (auto simp: SoftAuthMiddleware_def)
  show ?thesis
  proof (rule acct.resolve_cases [of E "cl_now c" ck a rs])
    fix w' rs' assume f: "resolveSessionCookie ?st (cl_now c) ck (a, rs) = (None, w', rs')"
      and fr: "\<And>d. account_session (en_sha E) w' d = account_session (en_sha E) a d \<or> account_session (en_sha E) w' d = None"
    have "?asl w'" by (rule acct.asleep_weaken [OF fr assms(1)])
    with b [of "(w', rs')"] assms(3) ck f show ?thesis by (simp add: SoftAuthMiddleware_def)
  next
    fix u s assume f: "resolveSessionCookie ?st (cl_now c) ck (a, rs) = (Some (u, s), fst (s_get ?st (cl_now c) ck a), rs)"
      and g: "snd (s_get ?st (cl_now c) ck a) = Inr s"
    let ?w = "fst (s_get ?st (cl_now c) ck a)"
    let ?i = "withAuthIdentity u (ID s) [] (time_sub (cl_now c) (LastActivity s) > SessionIdleTimeout)"
    from acct.get_row [OF g] obtain q where q: "account_session (en_sha E) a ck = Some q" "s = q\<lparr>ID := ck\<rparr>" by blast
    have users: "ac_users ?w = ac_users a" by (simp add: account_stores_def split_beta)
    have u: "u_get ?st (UserID q) a = Inr u"
      using f g q(2) users by (auto simp: resolveSessionCookie_def account_stores_def split_beta split: sum.splits auth_error.splits)
    have asl: "?asl ?w" by (rule acct.asleep_weaken [OF acct.get_frame assms(1)])
    have n: "\<not> ?asl (fst (serve E I c rq ?i r (?w, rs)))" using assms(3) ck f by (simp add: SoftAuthMiddleware_def)
    then obtain p where p: "rq = Some p" using asl by (cases rq) (auto simp: serve_def)
    have "\<not> ?asl (fst (account_call E I (c\<lparr>cl_who := ?i\<rparr>) p ?w))" using n p by (simp add: serve_def split_beta)
    moreover have "new_session_other E (c\<lparr>cl_who := ?i\<rparr>) sid" using assms(2) by (simp add: new_session_other_def)
    ultimately obtain pw v where w: "p = Unlock (Some pw)" "same_handle (en_sha E) ck sid"
      "user_GetByID (usr_ID u) (ac_users a) = Inr v" "en_compare E pw (usr_PasswordHash v) = Some True"
      using call_wakes [OF asl] q(2) users by (fastforce simp: withAuthIdentity_def)
    have "account_session (en_sha E) a sid = Some q" using acct.same_row [OF w(2), of a] q(1) by simp
    with w ck p u show ?thesis by blast
  qed
qed

text \<open>
  C14: Only a password wakes an idle session. Take any request, with the middlewares the router puts
  in front of its handler and their own refreshing of sessions. If a session has been idle past the
  limit and the request leaves it active again, then the request was an unlock, sent with the cookie
  of that session, and its password matched the hash of the user the stored session belongs to.
\<close>

theorem only_password_wakes_session:
  assumes "asleep (account_session (en_sha E)) t sid a" and "t \<le> cl_now c" and "new_session_other E c sid" and "db_ok (ac_users a)"
    and "\<not> asleep (account_session (en_sha E)) t sid (fst (web_call E I c rq r (a, rs)))"
  shows "\<exists>p ck s u. rq = Some (Unlock (Some p)) \<and> rq_Cookie r = Some ck \<and> same_handle (en_sha E) ck sid \<and>
    account_session (en_sha E) a sid = Some s \<and> user_GetByID (UserID s) (ac_users a) = Inr u \<and>
    en_compare E p (usr_PasswordHash u) = Some True"
proof (cases "stage_of rq = Soft")
  case True
  then have n: "\<not> asleep (account_session (en_sha E)) t sid (fst (SoftAuthMiddleware (account_stores E) (cl_now c) (serve E I c rq) r (a, rs)))"
    using assms(5) by (simp add: web_call_def)
  from soft_wakes [OF assms(1,3) n] obtain ck u s p v where w: "rq = Some (Unlock (Some p))" "rq_Cookie r = Some ck"
    "same_handle (en_sha E) ck sid" "account_session (en_sha E) a sid = Some s" "u_get (account_stores E) (UserID s) a = Inr u"
    "user_GetByID (usr_ID u) (ac_users a) = Inr v" "en_compare E p (usr_PasswordHash v) = Some True" by blast
  from w(5) obtain x where x: "user_GetByID (UserID s) (ac_users a) = Inr x" "u = User.truncate x"
    by (cases "user_GetByID (UserID s) (ac_users a)") (auto simp: account_stores_def)
  have "usr_ID x = UserID s" using row_has_own_id [OF assms(4) x(1)] .
  then have "v = x" using w(6) x by (simp add: User.defs)
  with w x show ?thesis by blast
next
  case False
  let ?asl = "asleep (account_session (en_sha E)) t sid"
  have k: "?asl (fst (serve E I c rq i r x))" if "?asl (fst x)" for i r x
    using serve_asleep [OF assms(3) that] stage_not_unlock [OF False] by blast
  have "?asl (fst (web_call E I c rq r (a, rs)))"
  proof (cases "stage_of rq")
    case Admin
    then show ?thesis unfolding web_call_def
      by (simp, intro acct.hard_asleep [OF assms(1,2)]) (auto simp: RequireAdminMiddleware_def k same_handle_def)
  next
    case Hard
    then show ?thesis unfolding web_call_def
      by (simp, intro acct.hard_asleep [OF assms(1,2)]) (auto simp: k same_handle_def)
  qed (use False k assms(1) in \<open>simp_all add: web_call_def\<close>)
  with assms(5) show ?thesis by blast
qed

definition idle_accounts :: accounts where
  "idle_accounts = sample_accounts\<lparr>ac_sessions := Some [(SessionHandle (\<lambda>s. s) ''s0'', Some \<lparr>ID = SessionHandle (\<lambda>s. s) ''s0'',
     UserID = ''u1'', IssuedAt = 0, SessExpiresAt = 24 * ns_hour, LastActivity = 0, RememberMe = False, IP = [], UserAgent = []\<rparr>)]\<rparr>"

definition unlock_request :: auth_request where
  "unlock_request = \<lparr>rq_Cookie = Some ''s0'', rq_Authorization = [], rq_Background = [], rq_Method = ''POST'', rq_Path = ''/api/v1/auth/unlock''\<rparr>"

definition no_response :: auth_response where
  "no_response = \<lparr>rs_status = None, rs_bodies = [], rs_cleared = False\<rparr>"

theorem only_password_wakes_session_witness:
  "(\<exists>s u. account_session (en_sha sample_env) idle_accounts ''s0'' = Some s \<and> user_GetByID (UserID s) (ac_users idle_accounts) = Inr u \<and>
      en_compare sample_env ''correct horse battery'' (usr_PasswordHash u) = Some True) \<and>
   \<not> asleep (account_session (en_sha sample_env)) (16 * ns_minute) ''s0''
       (fst (web_call sample_env no_idp (sample_call\<lparr>cl_now := 16 * ns_minute\<rparr>) (Some (Unlock (Some ''correct horse battery'')))
          unlock_request (idle_accounts, no_response)))"
proof -
  let ?c = "sample_call\<lparr>cl_now := 16 * ns_minute\<rparr>"
  let ?rq = "Some (Unlock (Some ''correct horse battery''))"
  let ?a = "fst (web_call sample_env no_idp ?c ?rq unlock_request (idle_accounts, no_response))"
  have s: "map_option LastActivity (account_session (en_sha sample_env) idle_accounts ''s0'') = Some 0"
    "map_option LastActivity (account_session (en_sha sample_env) ?a ''s0'') = Some (16 * ns_minute)" by code_simp+
  have a: "asleep (account_session (en_sha sample_env)) (16 * ns_minute) ''s0'' idle_accounts"
    using s(1) by (auto simp: asleep_def SessionIdleTimeout_def ns_minute_def ns_second_def)
  have b: "\<not> asleep (account_session (en_sha sample_env)) (16 * ns_minute) ''s0'' ?a"
    using s(2) by (auto simp: asleep_def SessionIdleTimeout_def ns_minute_def ns_second_def)
  have "16 * ns_minute \<le> cl_now ?c" "new_session_other sample_env ?c ''s0''" "db_ok (ac_users idle_accounts)"
    using sample_users_ok by (simp_all add: new_session_other_def sample_env_def sample_call_def idle_accounts_def)
  from only_password_wakes_session [OF a this b] b show ?thesis by auto
qed

lemma password_refused_204: "an_status (password_refused e) \<noteq> 204"
  by (cases e) (simp_all add: password_refused_def fail_def)

lemma changePassword_done:
  assumes "an_status (snd (changePassword E c (Some req) a)) = 204"
  shows "\<exists>u d. user_GetByID (id_UserID (cl_who c)) (ac_users a) = Inr u \<and>
    en_compare E (cp_CurrentPassword req) (usr_PasswordHash u) = Some True \<and>
    UpdatePassword (cl_hash c) (cl_now c) (id_UserID (cl_who c)) (cp_NewPassword req) (ac_users a) = (d, None) \<and>
    fst (changePassword E c (Some req) a) = a\<lparr>ac_users := d, ac_sessions := fst (DeleteAllForUserExcept (en_sha E)
      (id_UserID (cl_who c)) (id_SessionID (cl_who c)) (ac_sessions a))\<rparr>"
  using assms by (simp add: changePassword_def Let_def fail_def password_refused_204
      split: option.split_asm sum.split_asm bool.split_asm prod.split_asm if_split_asm)

lemma UpdatePassword_get:
  assumes "user_GetByID uid db = Inr u" and "UpdatePassword H now uid p db = (d, None)" and "H p = Some h"
  shows "map_sum id (\<lambda>v. (usr_PasswordHash v, usr_MustChangePassword v)) (user_GetByID uid d) = Inr (h, False)"
proof -
  let ?f = "\<lambda>u. u\<lparr>usr_PasswordHash := h, usr_HIBPCheckStatus := ''pending'', usr_HIBPCheckedAt := zero_time,
    usr_PasswordCompromised := False, usr_MustChangePassword := False, usr_UpdatedAt := now\<rparr>"
  have "change_user uid (\<lambda>_ u. Inr (?f u)) db = (d, None)"
    using assms(2,3) by (simp add: UpdatePassword_def split: if_splits option.splits)
  with change_user_get [OF assms(1), of "\<lambda>_ u. Inr (?f u)" ?f] show ?thesis by simp
qed

text \<open>
  C22: A password change signs everyone else out. When a change of password succeeds, the current
  password was checked against the stored hash, the row of the user carries the new hash and no
  pending change, every session of the user is gone except the one that asked, and every other
  session is as it was.
\<close>

theorem password_change_signs_others_out:
  assumes "changePassword E c (Some req) a = (a', an)" and "an_status an = 204" and "ac_sessions a = Some s" and "gm_wf s"
  shows "\<exists>u h s'. user_GetByID (id_UserID (cl_who c)) (ac_users a) = Inr u \<and>
    en_compare E (cp_CurrentPassword req) (usr_PasswordHash u) = Some True \<and> cl_hash c (cp_NewPassword req) = Some h \<and>
    map_sum id (\<lambda>v. (usr_PasswordHash v, usr_MustChangePassword v)) (user_GetByID (id_UserID (cl_who c)) (ac_users a')) = Inr (h, False) \<and>
    ac_sessions a' = Some s' \<and>
    (\<forall>k. gm_get s' k = (case gm_get s k of
        Some (Some x) \<Rightarrow> if UserID x = id_UserID (cl_who c) \<and> k \<noteq> SessionHandle (en_sha E) (id_SessionID (cl_who c)) then None else Some (Some x)
      | v \<Rightarrow> v))"
proof -
  let ?id = "id_UserID (cl_who c)"
  have "an_status (snd (changePassword E c (Some req) a)) = 204" using assms(1,2) by simp
  from changePassword_done [OF this] assms(1) obtain u d where u: "user_GetByID ?id (ac_users a) = Inr u"
    "en_compare E (cp_CurrentPassword req) (usr_PasswordHash u) = Some True"
    "UpdatePassword (cl_hash c) (cl_now c) ?id (cp_NewPassword req) (ac_users a) = (d, None)"
    "a' = a\<lparr>ac_users := d, ac_sessions := fst (DeleteAllForUserExcept (en_sha E) ?id (id_SessionID (cl_who c)) (ac_sessions a))\<rparr>"
    by auto
  from u(3) obtain h where h: "cl_hash c (cp_NewPassword req) = Some h"
    by (auto simp: UpdatePassword_def split: if_splits option.splits)
  have "?id \<noteq> []" using u(1) by (auto simp: user_GetByID_def)
  then obtain s' where s': "fst (DeleteAllForUserExcept (en_sha E) ?id (id_SessionID (cl_who c)) (ac_sessions a)) = Some s'"
    "s' = fold gm_del (map fst (filter (\<lambda>(k, v). owned_by ?id v \<and> k \<noteq> SessionHandle (en_sha E) (id_SessionID (cl_who c))) s)) s"
    using assms(3) by (simp add: DeleteAllForUserExcept_def delete_where_def Let_def)
  have keys: "k \<in> set (map fst (filter (\<lambda>(k, v). P k v) s)) \<longleftrightarrow> (\<exists>v. gm_get s k = Some v \<and> P k v)" for k P
    using gm_get_iff [OF assms(4)] by force
  have "gm_get s' k = (case gm_get s k of
        Some (Some x) \<Rightarrow> if UserID x = ?id \<and> k \<noteq> SessionHandle (en_sha E) (id_SessionID (cl_who c)) then None else Some (Some x)
      | v \<Rightarrow> v)" for k
    unfolding s'(2) fold_del_get keys by (auto simp: owned_by_def split: option.splits)
  moreover have "map_sum id (\<lambda>v. (usr_PasswordHash v, usr_MustChangePassword v)) (user_GetByID ?id (ac_users a')) = Inr (h, False)"
    by (simp add: u(4) UpdatePassword_get [OF u(1,3) h])
  ultimately show ?thesis using u h s'(1) by auto
qed

definition root_change :: changePasswordRequest where
  "root_change = \<lparr>cp_CurrentPassword = ''correct horse battery'', cp_NewPassword = ''another long password''\<rparr>"

theorem password_change_signs_others_out_witness:
  "\<exists>s'. ac_sessions (fst (changePassword sample_env (sample_call\<lparr>cl_who := sample_who\<lparr>id_SessionID := ''s9''\<rparr>\<rparr>) (Some root_change) idle_accounts)) =
     Some s' \<and> gm_get s' (SessionHandle (\<lambda>s. s) ''s0'') = None"
proof -
  let ?c = "sample_call\<lparr>cl_who := sample_who\<lparr>id_SessionID := ''s9''\<rparr>\<rparr>"
  let ?out = "changePassword sample_env ?c (Some root_change) idle_accounts"
  obtain s where s: "ac_sessions idle_accounts = Some s" "gm_wf s" "map_option (map_option UserID) (gm_get s (SessionHandle (\<lambda>s. s) ''s0'')) = Some (Some ''u1'')"
    by (simp add: idle_accounts_def)
  have r: "an_status (snd ?out) = 204" "SessionHandle (\<lambda>s. s) ''s0'' \<noteq> SessionHandle (\<lambda>s. s) ''s9''"
    "id_UserID (cl_who ?c) = ''u1''" "id_SessionID (cl_who ?c) = ''s9''" by code_simp+
  have "en_sha sample_env = (\<lambda>s. s)" by (simp add: sample_env_def)
  with password_change_signs_others_out [of sample_env ?c root_change idle_accounts "fst ?out" "snd ?out", OF _ r(1) s(1,2)]
    r s(3) show ?thesis by (auto split: option.splits)
qed

section \<open>Deleted users\<close>

text \<open>A user without a row is nobody to the middlewares: what a handler would do for that user makes no difference.\<close>

lemma u_get_account: "u_get (account_stores E) k a = Inr v \<longleftrightarrow> (\<exists>u. user_GetByID k (ac_users a) = Inr u \<and> v = User.truncate u)"
  by (cases "user_GetByID k (ac_users a)") (auto simp: account_stores_def)

lemma s_get_users: "s_get (account_stores E) now c a = (a', x) \<Longrightarrow> ac_users a' = ac_users a"
  by (auto simp: account_stores_def split: prod.splits)

lemma absent_user_never_served:
  assumes "db_ok (ac_users a)" and "\<And>u. user_GetByID uid (ac_users a) \<noteq> Inr u"
    and "\<And>i q y. id_UserID i \<noteq> uid \<Longrightarrow> nxt i q y = nxt' i q y"
  shows "SoftAuthMiddleware (account_stores E) t nxt r (a, rs) = SoftAuthMiddleware (account_stores E) t nxt' r (a, rs)"
proof -
  have served: "nxt (withAuthIdentity v s k l) r y = nxt' (withAuthIdentity v s k l) r y"
    if "u_get (account_stores E) j b = Inr v" "ac_users b = ac_users a" for b j v s k l y
  proof -
    from that obtain u where u: "user_GetByID j (ac_users a) = Inr u" "v = User.truncate u" by (auto simp: u_get_account)
    with row_has_own_id [OF assms(1) u(1)] assms(2) have "usr_ID v \<noteq> uid" by (auto simp: User.defs)
    then show ?thesis by (intro assms(3)) (simp add: withAuthIdentity_def)
  qed
  have bearer: "bearer_fallback (account_stores E) t nxt r (b, ss) = bearer_fallback (account_stores E) t nxt' r (b, ss)"
    if b: "ac_users b = ac_users a" for b ss
  proof (cases "resolveBearerToken (account_stores E) t r b")
    case (Some p)
    obtain v k where p: "p = (v, k)" by fastforce
    from Some p have "u_get (account_stores E) (tok_UserID k) b = Inr v"
      by (auto simp: resolveBearerToken_def Let_def split: option.splits if_splits sum.splits)
    from served [OF this b] Some p show ?thesis by (simp add: bearer_fallback_def)
  qed (simp add: bearer_fallback_def)
  show ?thesis
  proof (cases "rq_Cookie r")
    case None
    with bearer show ?thesis by (simp add: SoftAuthMiddleware_def)
  next
    case (Some c)
    obtain a1 x where g: "s_get (account_stores E) t c a = (a1, x)" by fastforce
    note u1 = s_get_users [OF g]
    have d: "ac_users (fst (s_delete (account_stores E) k a1)) = ac_users a" for k
      using u1 by (simp add: account_stores_def split: prod.split)
    show ?thesis
    proof (cases x)
      case (Inl e)
      with g Some bearer u1 show ?thesis by (simp add: SoftAuthMiddleware_def resolveSessionCookie_def)
    next
      case (Inr s)
      show ?thesis
      proof (cases "u_get (account_stores E) (UserID s) a1")
        case (Inl e)
        with g Some \<open>x = Inr s\<close> bearer [OF u1] bearer [OF d] show ?thesis
          by (cases e) (simp_all add: SoftAuthMiddleware_def resolveSessionCookie_def)
      next
        case (Inr v)
        with g Some \<open>x = Inr s\<close> served [OF Inr u1] show ?thesis
          by (simp add: SoftAuthMiddleware_def resolveSessionCookie_def)
      qed
    qed
  qed
qed

lemma deleteAdminUser_done:
  assumes "an_status (snd (deleteAdminUser c uid a)) = 204"
  shows "\<exists>b u. ac_users a = Some b \<and> gm_get b uid = Some (Some u) \<and> uid \<noteq> [] \<and>
    fst (deleteAdminUser c uid a) = a\<lparr>ac_users := Some (gm_del uid b), ac_sessions := fst (DeleteAllForUser uid (ac_sessions a))\<rparr>"
  using assms by (auto simp: deleteAdminUser_def Delete_user_def user_GetByID_def fail_def
      split: option.split_asm sum.split_asm prod.split_asm if_split_asm)

text \<open>
  C16: A deleted user is out at once. After a deletion has answered with 204, no request reaches a
  handler as that user, whatever cookie or token it carries: what the handlers behind hard
  authentication would do for the user has no influence on any answer. The sessions of the user are
  gone, and the user store is sound.
\<close>

theorem deleted_user_is_out:
  assumes "db_ok (ac_users a)" and "deleteAdminUser c uid a = (a', an)" and "an_status an = 204"
    and "\<And>i q y. id_UserID i \<noteq> uid \<Longrightarrow> nxt i q y = nxt' i q y"
  shows "HardAuthMiddleware (account_stores E) t nxt r (a', rs) = HardAuthMiddleware (account_stores E) t nxt' r (a', rs) \<and>
    (\<forall>k s. ac_sessions a' = Some k \<longrightarrow> gm_wf k \<longrightarrow> s \<in> set (decoded k) \<longrightarrow> UserID s \<noteq> uid)"
proof -
  have "an_status (snd (deleteAdminUser c uid a)) = 204" using assms(2,3) by simp
  from deleteAdminUser_done [OF this] assms(2) obtain b u where d: "ac_users a = Some b" "gm_get b uid = Some (Some u)" "uid \<noteq> []"
    "a' = a\<lparr>ac_users := Some (gm_del uid b), ac_sessions := fst (DeleteAllForUser uid (ac_sessions a))\<rparr>" by auto
  have "user_steps (ac_users a) (ac_users a')" using admin_steps(3) [of a c uid] assms(2) by simp
  with user_steps_keep assms(1) have ok: "db_ok (ac_users a')" by blast
  have gone: "user_GetByID uid (ac_users a') \<noteq> Inr v" for v using d by (simp add: user_GetByID_def)
  have "HardAuthMiddleware (account_stores E) t nxt r (a', rs) = HardAuthMiddleware (account_stores E) t nxt' r (a', rs)"
    unfolding HardAuthMiddleware_def
    by (rule absent_user_never_served [OF ok gone]) (simp add: hard_handler_def assms(4) split_beta)
  moreover have "UserID s \<noteq> uid" if k: "ac_sessions a' = Some k" "gm_wf k" "s \<in> set (decoded k)" for k s
  proof
    assume s: "UserID s = uid"
    from k decoded_set [OF k(2), of s] obtain h where h: "gm_get k h = Some (Some s)" by auto
    obtain k0 where k0: "ac_sessions a = Some k0" "k = fold gm_del (map fst (filter (\<lambda>(k, v). owned_by uid v) k0)) k0"
      using d(3,4) k(1) by (cases "ac_sessions a") (auto simp: DeleteAllForUser_def delete_where_def Let_def)
    with h have "h \<notin> set (map fst (filter (\<lambda>(k, v). owned_by uid v) k0))" "gm_get k0 h = Some (Some s)"
      by (auto simp: fold_del_get split: if_splits)
    with gm_get_mem [of k0 h "Some s"] s show False by (force simp: owned_by_def)
  qed
  ultimately show ?thesis by blast
qed

definition ann_row :: user_row where
  "ann_row = (new_user ''u3'' 2 ''ann'')\<lparr>usr_PasswordHash := ''h'', usr_AuthSource := ''local'', usr_Role := ''admin''\<rparr>"

definition two_users :: accounts where
  "two_users = idle_accounts\<lparr>ac_users := Some [(''u1'', Some root_row), (''u3'', Some ann_row)]\<rparr>"

lemma two_users_ok: "db_ok (ac_users two_users)"
proof -
  have "user_ok ann_row" by code_simp
  moreover have "usr_ID ann_row = ''u3''" "usr_Username ann_row \<noteq> usr_Username root_row" "usr_OIDCSub ann_row = []"
    by (simp_all add: ann_row_def root_row_def new_user_def)
  ultimately have "user_step (Some [(''u1'', Some root_row)]) (Some (gm_put (usr_ID ann_row) (Some ann_row) [(''u1'', Some root_row)]))"
    by (intro step_new) (auto simp: name_taken_def)
  moreover have "db_ok (Some [(''u1'', Some root_row)])" using sample_users_ok by (simp add: sample_accounts_def)
  ultimately have "db_ok (Some (gm_put ''u3'' (Some ann_row) [(''u1'', Some root_row)]))"
    using \<open>usr_ID ann_row = ''u3''\<close> user_step_ok by metis
  then show ?thesis by (simp add: two_users_def)
qed

theorem deleted_user_is_out_witness:
  "HardAuthMiddleware (account_stores sample_env) 9 (\<lambda>i q y. if id_UserID i = ''u1'' then (fst y, writeForbidden ''reached'' (snd y)) else y)
     (later_request\<lparr>rq_Cookie := Some ''s0''\<rparr>) (fst (deleteAdminUser sample_call ''u1'' two_users), blank_response) =
   HardAuthMiddleware (account_stores sample_env) 9 (\<lambda>i q y. y)
     (later_request\<lparr>rq_Cookie := Some ''s0''\<rparr>) (fst (deleteAdminUser sample_call ''u1'' two_users), blank_response)"
proof -
  have "an_status (snd (deleteAdminUser sample_call ''u1'' two_users)) = 204" by code_simp
  then show ?thesis by (rule conjunct1 [OF deleted_user_is_out [OF two_users_ok surjective_pairing]]) simp
qed

end
