(* ===== verification/OidcProps.thy ===== *)
theory OidcProps
  imports AccountProps
begin

text \<open>
  Single sign-on: the comparison of the state, the names of new users, and who the callback signs
  in.
\<close>

unbundle bit_operations_syntax

section \<open>The state comparison\<close>

lemma char_byte_inj: "char_byte x = char_byte y \<longleftrightarrow> x = y"
proof
  assume "char_byte x = char_byte y"
  then have "unat (char_byte x) = unat (char_byte y)" by simp
  then have "byte_of x = byte_of y"
    using byte_of_lt [of x] byte_of_lt [of y] by (simp add: char_byte_def unat_of_nat del: byte_of_lt)
  then show "x = y" by (rule byte_of_inj)
qed simp

lemma xor_zero: "(x :: 8 word) XOR y = 0 \<longleftrightarrow> x = y"
  by (metis bit.xor_self xor.assoc xor.left_neutral xor.right_neutral)

lemma or_zero: "(x :: 8 word) OR y = 0 \<longleftrightarrow> x = 0 \<and> y = 0"
  by (auto simp: bit_eq_iff bit_or_iff)

lemma diff_zero:
  "fold (\<lambda>(x, y) diff. diff OR (char_byte x XOR char_byte y)) ps d = 0 \<longleftrightarrow> d = 0 \<and> (\<forall>(x, y) \<in> set ps. x = y)"
  by (induction ps arbitrary: d) (auto simp: or_zero xor_zero char_byte_inj)

lemma zip_all_equal: "length a = length b \<Longrightarrow> (\<forall>(x, y) \<in> set (zip a b). x = y) \<longleftrightarrow> a = b"
  by (induction a b rule: list_induct2) auto

text \<open>The comparison without early exit decides equality.\<close>

lemma constantTimeStringEqual_iff: "constantTimeStringEqual a b \<longleftrightarrow> a = b"
  by (auto simp: constantTimeStringEqual_def diff_zero zip_all_equal)

section \<open>Names of new users\<close>

lemma filter_username: "list_all username_char (filter username_char s)"
  by (simp add: list_all_iff)

lemma sanitizeUsername_ok: "sanitizeUsername L s = [] \<or> username_ok (sanitizeUsername L s)"
proof -
  let ?out = "filter username_char (toLower L (trimSpace s))"
  have "list_all username_char (take n ?out)" for n using filter_username by (auto simp: list_all_iff dest: in_set_takeD)
  then show ?thesis
    by (auto simp: sanitizeUsername_def Let_def username_ok_def usernameRegex_def account_bounds min_def)
qed

lemma pickOIDCUsername_ok: "username_ok (pickOIDCUsername L p e s)"
proof -
  have "username_ok ''oidc-user''" by code_simp
  then show ?thesis using sanitizeUsername_ok [of L] unfolding pickOIDCUsername_def Let_def by (auto split: if_splits)
qed

lemma username_ok_take:
  assumes "username_ok base" and "list_all username_char rest"
  shows "username_ok (take UsernameMaxLen (base @ rest))"
proof -
  have "list_all username_char (take UsernameMaxLen (base @ rest))"
    using assms unfolding username_ok_def usernameRegex_def list_all_iff by (metis Un_iff in_set_takeD set_append)
  with assms(1) show ?thesis by (auto simp: username_ok_def usernameRegex_def account_bounds)
qed

lemma uniqueSuffix_ok:
  assumes "username_ok base"
  shows "username_ok (uniqueSuffix base sub)"
proof -
  let ?picked = "take 6 (filter (\<lambda>c. CHR ''a'' \<le> c \<and> c \<le> CHR ''z'' \<or> CHR ''0'' \<le> c \<and> c \<le> CHR ''9'') sub)"
  have "list_all username_char ''oidc''" "username_char CHR ''-''" by code_simp+
  moreover have "list_all username_char ?picked"
    by (auto simp: list_all_iff username_char_def dest: in_set_takeD)
  ultimately have "list_all username_char (''-'' @ (if ?picked = [] then ''oidc'' else ?picked))" by simp
  from username_ok_take [OF assms this] show ?thesis unfolding uniqueSuffix_def Let_def .
qed

lemma uniqueSuffix_full: "length base = 32 \<Longrightarrow> uniqueSuffix base sub = base"
  by (simp add: uniqueSuffix_def Let_def account_bounds)

lemma name_taken_found:
  assumes "users_ok b" and "GetByUsername name (Some b) = Inr v"
  shows "name_taken usr_Username None (trimSpace name) b"
  using GetByUsername_sound [OF assms] by (auto simp: name_taken_iff [OF users_okD(2) [OF assms(1)]])

text \<open>
  C38: A name of full length is never made unique. When the name derived from the claims has all 32
  characters and belongs to another user, the suffix that should separate the two is cut off again:
  the new user cannot be created and every sign-in of that identity ends in the internal error.
\<close>

theorem full_length_name_cannot_sign_in:
  assumes "db_ok (ac_users a)" and "GetByOIDCSub (cm_Sub cl) (ac_users a) = Inl ErrUserNotFound"
    and "name = pickOIDCUsername (en_go E) (cm_PreferredUsername cl) (cm_Email cl) (cm_Sub cl)"
    and "length name = 32" and "GetByUsername name (ac_users a) = Inr v"
  shows "oidc_sign_in E c cs cl x a = (a, login_error ''internal'' cs [])"
proof -
  obtain b where b: "ac_users a = Some b" using assms(5) by (cases "ac_users a") (auto simp: GetByUsername_def Let_def split: if_splits)
  with assms(1) have o: "users_ok b" by (simp add: db_ok_def)
  have n: "username_ok name" using pickOIDCUsername_ok assms(3) by simp
  then have t: "trimSpace name = name" using trimSpace_username by (simp add: username_ok_def usernameRegex_def)
  have "usr_ID v \<noteq> []" using GetByUsername_sound [OF o] assms(5) b users_okD(3) [OF o] by (auto simp: user_ok_def)
  moreover have "name_taken usr_Username None name b" using name_taken_found [OF o, of name v] assms(5) b t by simp
  ultimately have "oidc_user E c cl x (ac_users a) = (ac_users a, None)"
    using assms(2,5) n t b by (simp add: oidc_user_def Let_def uniqueSuffix_full [OF assms(4)] CreateOIDCUser_def flip: assms(3))
  then show ?thesis by (simp add: oidc_sign_in_def)
qed

definition long_name :: string where "long_name = ''firstname-lastname-of-department''"

definition long_row :: user_row where
  "long_row = root_row\<lparr>usr_Username := long_name\<rparr>"

definition long_claims :: claims where
  "long_claims = \<lparr>cm_Sub = ''9f'', cm_Email = ''x@example.org'', cm_EmailVerified = True, cm_PreferredUsername = long_name, cm_Name = ''X''\<rparr>"

definition long_accounts :: accounts where
  "long_accounts = sample_accounts\<lparr>ac_users := Some [(''u1'', Some long_row)]\<rparr>"

theorem full_length_name_cannot_sign_in_witness:
  "oidc_sign_in sample_env sample_call [] long_claims
     \<lparr>ai_Email = ''x@example.org'', ai_DisplayName = [], ai_Sub = [], ai_AddedAt = 0, ai_FirstLoginAt = 0\<rparr> long_accounts = (long_accounts, login_error ''internal'' [] [])"
proof (rule full_length_name_cannot_sign_in [OF _ _ refl])
  have "user_ok long_row" by code_simp
  moreover have "rows_ok usr_ID usr_Username [(''u1'', Some long_row)]"
    by (rule rows_okI) (auto simp: long_row_def root_row_def new_user_def split: if_splits)
  ultimately have "users_ok [(''u1'', Some long_row)]" unfolding users_ok_def by (simp split: if_splits)
  then show "db_ok (ac_users long_accounts)" by (simp add: db_ok_def long_accounts_def)
qed code_simp+

section \<open>Who is signed in\<close>

definition allowed_by :: "golib \<Rightarrow> OIDCConfig \<Rightarrow> claims \<Rightarrow> OIDCAllowedIdentity \<Rightarrow> bool" where
  "allowed_by L cfg cl e \<longleftrightarrow> e \<in> set (oc_AllowedIdentities cfg) \<and>
     (ai_Sub e = cm_Sub cl \<or>
      ai_Sub e = [] \<and> (cm_EmailVerified cl \<or> oc_AcceptUnverifiedEmail cfg) \<and> toLower L (trimSpace (cm_Email cl)) \<noteq> [] \<and>
      toLower L (trimSpace (ai_Email e)) = toLower L (trimSpace (cm_Email cl)))"

definition client_ok :: "OIDCManager \<Rightarrow> bool" where
  "client_ok m \<longleftrightarrow> (case mg_built m of None \<Rightarrow> True | Some b \<Rightarrow> mg_cfgHash m = configHash b)"

lemma find_index_Some: "find_index p xs = Some i \<Longrightarrow> i < length xs \<and> p (xs ! i)"
  by (induction xs arbitrary: i) (auto split: if_splits)

lemma matchAllowlist_sound:
  assumes "matchAllowlist L (oc_AllowedIdentities cfg) (cm_Sub cl) (cm_Email cl) (cm_EmailVerified cl) (oc_AcceptUnverifiedEmail cfg) = Some (i, boot)"
  shows "i < length (oc_AllowedIdentities cfg) \<and> allowed_by L cfg cl (oc_AllowedIdentities cfg ! i) \<and>
    (if boot then ai_Sub (oc_AllowedIdentities cfg ! i) = [] else ai_Sub (oc_AllowedIdentities cfg ! i) = cm_Sub cl)"
  using assms by (auto simp: matchAllowlist_def allowed_by_def Let_def dest!: find_index_Some split: option.splits if_splits)

lemma EnsureBuilt_ok:
  assumes "EnsureBuilt f cfg m = (m', True)" and "client_ok m" and "mg_built m' = Some b"
  shows "configHash b = configHash cfg \<and> oc_Enabled cfg"
  using assms by (auto simp: EnsureBuilt_def client_ok_def split: if_splits)

lemma GetByOIDCSub_sound:
  assumes "db_ok db" and "GetByOIDCSub sub db = Inr u"
  shows "usr_OIDCSub u = sub \<and> usr_AuthSource u = UserAuthSourceOIDC \<and> user_GetByID (usr_ID u) db = Inr u"
proof (cases db)
  case (Some b)
  with assms(1) have o: "users_ok b" by (simp add: db_ok_def)
  from Some assms(2) have "u \<in> set (decoded b)" and s: "usr_OIDCSub u = sub" "usr_OIDCSub u \<noteq> []"
    by (auto simp: GetByOIDCSub_def find_Some_iff split: if_splits option.splits) (metis length_rev nth_mem set_rev)+
  then obtain k where k: "gm_get b k = Some (Some u)" using decoded_set [OF users_okD(2) [OF o]] by auto
  with users_okD(3,4) [OF o k] s Some show ?thesis by (auto simp: user_ok_def user_GetByID_def)
qed (use assms(2) in \<open>simp add: GetByOIDCSub_def split: if_splits\<close>)

lemma oidc_user_found:
  assumes "db_ok db" and "free_id (cl_uuid c) db" and "oidc_user E c cl x db = (d, Some u)"
  shows "usr_OIDCSub u = cm_Sub cl \<and> usr_AuthSource u = UserAuthSourceOIDC \<and> user_GetByID (usr_ID u) d = Inr u"
proof (cases "GetByOIDCSub (cm_Sub cl) db")
  case (Inr v)
  with assms(3) GetByOIDCSub_sound [OF assms(1) Inr] show ?thesis by (simp add: oidc_user_def)
next
  case (Inl e)
  with assms(3) obtain name dn where "CreateOIDCUser (cl_uuid c) (cl_now c) name dn (cm_Email cl) (cm_Sub cl) db = (d, Inr u)"
    by (auto simp: oidc_user_def Let_def split: if_splits prod.splits sum.splits)
  with assms(2) show ?thesis
    by (auto simp: CreateOIDCUser_def Let_def new_user_def user_GetByID_def free_id_def split: if_splits option.splits)
qed

definition opens_session :: "acct_answer \<Rightarrow> bool" where
  "opens_session an \<longleftrightarrow> list_ex (\<lambda>k. ck_Name k = ''arenet_session'') (an_cookies an)"

text \<open>The session that was opened: a user with the subject of the claims owns it.\<close>

definition opened_for :: "env \<Rightarrow> call \<Rightarrow> claims \<Rightarrow> accounts \<Rightarrow> bool" where
  "opened_for E c cl a' \<longleftrightarrow> (\<exists>sid s u. cl_session c = Some sid \<and> (sid = [] \<or> account_session (en_sha E) a' sid = Some s) \<and>
     UserID s = usr_ID u \<and> user_GetByID (usr_ID u) (ac_users a') = Inr u \<and> usr_OIDCSub u = cm_Sub cl \<and>
     usr_AuthSource u = UserAuthSourceOIDC)"

lemma login_updates_get:
  assumes "user_GetByID uid d = Inr u"
  shows "\<exists>v. user_GetByID uid (let d1 = fst (RecordLogin n uid d) in if e \<noteq> [] then fst (UpdateEmail m uid e d1) else d1) = Inr v \<and>
    usr_ID v = usr_ID u \<and> usr_OIDCSub v = usr_OIDCSub u \<and> usr_AuthSource v = usr_AuthSource u"
proof -
  have r: "user_GetByID uid (fst (RecordLogin n uid d)) = Inr (u\<lparr>usr_LastLoginAt := n\<rparr>)"
    unfolding RecordLogin_def by (rule change_user_get [OF assms]) simp
  define g where "g u = (if usr_Email u = e then u else u\<lparr>usr_Email := e, usr_UpdatedAt := m\<rparr>)" for u :: user_row
  have "user_GetByID uid (fst (UpdateEmail m uid e (fst (RecordLogin n uid d)))) = Inr (g (u\<lparr>usr_LastLoginAt := n\<rparr>))"
    unfolding UpdateEmail_def g_def by (rule change_user_get [OF r]) simp
  with r show ?thesis by (cases "e = []") (auto simp: Let_def g_def)
qed

lemma sign_in_opened:
  assumes "db_ok (ac_users a)" and "free_id (cl_uuid c) (ac_users a)" and "oidc_sign_in E c cs cl x a = (a', an)"
    and "opens_session an" and "\<not> list_ex (\<lambda>k. ck_Name k = ''arenet_session'') cs"
  shows "opened_for E c cl a' \<and> ac_oidc a' = ac_oidc a"
proof -
  obtain d y where p: "oidc_user E c cl x (ac_users a) = (d, y)" by fastforce
  obtain u where y: "y = Some u" using assms(3-5) p by (cases y) (auto simp: oidc_sign_in_def opens_session_def login_error_def)
  obtain sd z where z: "Create (en_sha E) (cl_session c) (cl_now c) (usr_ID u) False (cl_ip c) (cl_agent c) (ac_sessions a) = (sd, z)"
    by fastforce
  obtain s where s: "z = Inr s" using assms(3-5) p y z by (cases z) (auto simp: oidc_sign_in_def opens_session_def login_error_def)
  note f = oidc_user_found [OF assms(1,2) p [unfolded y]]
  obtain v where v: "user_GetByID (usr_ID u) (ac_users a') = Inr v" "usr_ID v = usr_ID u" "usr_OIDCSub v = usr_OIDCSub u"
    "usr_AuthSource v = usr_AuthSource u"
    using login_updates_get [of "usr_ID u" d u "cl_now c" "cm_Email cl" "cl_now c"] f assms(3) p y z s
    by (auto simp: oidc_sign_in_def Let_def)
  from row_of_Create [OF z [unfolded s]] obtain sid where sid: "cl_session c = Some sid" "UserID s = usr_ID u"
    "sid \<noteq> [] \<Longrightarrow> row_of (en_sha E) sd sid = Some (s\<lparr>ID := SessionHandle (en_sha E) sid\<rparr>)" by auto
  have "ac_sessions a' = sd" "ac_oidc a' = ac_oidc a" using assms(3) p y z s by (auto simp: oidc_sign_in_def Let_def)
  with v sid f show ?thesis unfolding opened_for_def account_session_def
    by (intro conjI exI [of _ sid] exI [of _ "s\<lparr>ID := SessionHandle (en_sha E) sid\<rparr>"] exI [of _ v]) auto
qed

definition bound_to :: "string \<Rightarrow> oidc_db \<Rightarrow> bool" where
  "bound_to sub d \<longleftrightarrow> (\<exists>cfg e. GetOIDCConfig d = Inr cfg \<and> e \<in> set (oc_AllowedIdentities cfg) \<and> ai_Sub e = sub)"

lemma admit_opened:
  assumes "db_ok (ac_users a)" and "free_id (cl_uuid c) (ac_users a)" and "oidc_admit E c cs cfg cl a = (a', an)"
    and "opens_session an" and "\<not> list_ex (\<lambda>k. ck_Name k = ''arenet_session'') cs" and "GetOIDCConfig (ac_oidc a) = Inr cfg"
  shows "\<exists>e. allowed_by (en_go E) cfg cl e \<and> opened_for E c cl a' \<and> bound_to (cm_Sub cl) (ac_oidc a')"
proof -
  obtain i boot where m: "matchAllowlist (en_go E) (oc_AllowedIdentities cfg) (cm_Sub cl) (cm_Email cl) (cm_EmailVerified cl)
      (oc_AcceptUnverifiedEmail cfg) = Some (i, boot)"
    using assms(3-5) by (auto simp: oidc_admit_def opens_session_def login_error_def split: if_splits option.splits)
  let ?e = "oc_AllowedIdentities cfg ! i"
  note ms = matchAllowlist_sound [OF m]
  show ?thesis
  proof (cases boot)
    case False
    with m assms(3-5) have "oidc_sign_in E c cs cl ?e a = (a', an)"
      by (auto simp: oidc_admit_def opens_session_def login_error_def split: if_splits)
    from sign_in_opened [OF assms(1,2) this assms(4,5)] ms False assms(6) show ?thesis
      unfolding bound_to_def by (intro exI [of _ ?e]) (auto intro: nth_mem)
  next
    case True
    let ?e' = "?e\<lparr>ai_Sub := cm_Sub cl, ai_FirstLoginAt := cl_now c\<rparr>"
    let ?cfg = "cfg\<lparr>oc_AllowedIdentities := (oc_AllowedIdentities cfg)[i := ?e']\<rparr>"
    obtain d r where d: "PutOIDCConfig (en_go E) (cl_now c) ?cfg (ac_oidc a) = (d, r)" by fastforce
    with True m assms(3-5) have r: "r = None" and s: "oidc_sign_in E c cs cl ?e' (a\<lparr>ac_oidc := d\<rparr>) = (a', an)"
      by (auto simp: oidc_admit_def opens_session_def login_error_def Let_def split: if_splits option.splits)
    have o: "opened_for E c cl a' \<and> ac_oidc a' = d"
      using sign_in_opened [OF _ _ s assms(4,5)] assms(1,2) by simp
    from d r obtain cfg' where "GetOIDCConfig d = Inr cfg'" "oc_AllowedIdentities cfg' = (oc_AllowedIdentities cfg)[i := ?e']"
      by (auto simp: PutOIDCConfig_def GetOIDCConfig_def Let_def split: option.splits)
    with ms have "bound_to (cm_Sub cl) d" unfolding bound_to_def
      by (intro exI [of _ cfg'] exI [of _ ?e']) (auto intro: set_update_memI)
    with o ms show ?thesis by blast
  qed
qed

text \<open>
  C12: Single sign-on admits the allowlist only. When the callback sets a session cookie, the state
  parameter was the one of the cookie, the identity token came from the provider of the stored,
  enabled configuration and carries the nonce of the cookie, and its claims fit an entry of the
  allowlist: one bound to their subject, or one bound to nobody whose address is theirs, verified
  or accepted unverified. The session belongs to the federated user with that subject, and from
  then on an entry is bound to it.
\<close>

theorem oidc_admits_allowlist_only:
  assumes "db_ok (ac_users a)" and "client_ok (ac_client a)" and "call_ok c a" and "oidcCallback E I c q a = (a', an)" and "opens_session an"
  shows "\<exists>cfg built nonce raw cl e. GetOIDCConfig (ac_oidc a) = Inr cfg \<and> oc_Enabled cfg \<and> configHash built = configHash cfg \<and>
    kq_stateCookie q = Some (kq_state q) \<and> kq_nonceCookie q = Some nonce \<and>
    ip_exchange I built (kq_code q) = Some (Some raw) \<and> ip_verify I built raw = Some (nonce, Some cl) \<and>
    allowed_by (en_go E) cfg cl e \<and> opened_for E c cl a' \<and> bound_to (cm_Sub cl) (ac_oidc a')"
proof -
  let ?cs = "[clearOIDCFlowCookie c ''arenet_oidc_state'', clearOIDCFlowCookie c ''arenet_oidc_nonce'']"
  from assms(4,5) obtain st where st: "kq_stateCookie q = Some st" "constantTimeStringEqual (kq_state q) st" "kq_error q = []"
    by (auto simp: oidcCallback_def opens_session_def login_error_def split: if_splits option.splits)
  from assms(4,5) st obtain n where n: "kq_nonceCookie q = Some n"
    by (auto simp: oidcCallback_def opens_session_def login_error_def clearOIDCFlowCookie_def setOIDCFlowCookie_def Let_def split: option.splits)
  from assms(4,5) st n obtain cfg where cfg: "GetOIDCConfig (ac_oidc a) = Inr cfg" "oc_Enabled cfg"
    by (auto simp: oidcCallback_def opens_session_def login_error_def clearOIDCFlowCookie_def setOIDCFlowCookie_def Let_def
        split: sum.splits if_splits)
  obtain m b where m: "EnsureBuilt (en_discover E) cfg (ac_client a) = (m, b)" by fastforce
  have cs: "\<not> list_ex (\<lambda>k. ck_Name k = ''arenet_session'') ?cs" by (simp add: clearOIDCFlowCookie_def setOIDCFlowCookie_def)
  have b: "b \<and> mg_built m \<noteq> None"
    using assms(4,5) st n cfg m cs by (auto simp: oidcCallback_def opens_session_def login_error_def Let_def split: bool.splits option.splits)
  then obtain built where built: "mg_built m = Some built" by blast
  have t: "oidc_token E I c ?cs built cfg (kq_code q) n (a\<lparr>ac_client := m\<rparr>) = (a', an)"
    using assms(4) st n cfg m b built by (simp add: oidcCallback_def Let_def)
  obtain raw cl where raw: "ip_exchange I built (kq_code q) = Some (Some raw)" "ip_verify I built raw = Some (n, Some cl)"
    and ad: "oidc_admit E c ?cs cfg cl (a\<lparr>ac_client := m\<rparr>) = (a', an)"
    using t assms(5) cs by (auto simp: oidc_token_def opens_session_def login_error_def split: if_splits option.splits prod.splits)
  have "\<exists>e. allowed_by (en_go E) cfg cl e \<and> opened_for E c cl a' \<and> bound_to (cm_Sub cl) (ac_oidc a')"
    using admit_opened [OF _ _ ad assms(5) cs] assms(1) cfg(1) call_okD(1) [OF assms(3)] by simp
  moreover have "configHash built = configHash cfg" using EnsureBuilt_ok [OF _ assms(2) built, of "en_discover E" cfg] m b by simp
  ultimately show ?thesis using st n cfg raw by (auto simp: constantTimeStringEqual_iff)
qed

definition sso_config :: OIDCConfig where
  "sso_config = zero_oidc\<lparr>oc_Enabled := True, oc_IssuerURL := ''https://id.example'', oc_AllowedIdentities :=
     [\<lparr>ai_Email = ''ann@example.org'', ai_DisplayName = ''Ann'', ai_Sub = ''sub-1'', ai_AddedAt = 1, ai_FirstLoginAt = 2\<rparr>]\<rparr>"

definition ann_claims :: claims where
  "ann_claims = \<lparr>cm_Sub = ''sub-1'', cm_Email = ''ann@example.org'', cm_EmailVerified = True, cm_PreferredUsername = ''ann'', cm_Name = []\<rparr>"

definition sample_idp :: idp where
  "sample_idp = \<lparr>ip_exchange = (\<lambda>_ code. Some (Some code)), ip_verify = (\<lambda>_ raw. Some (''n1'', Some ann_claims))\<rparr>"

definition ann_callback :: callback where
  "ann_callback = \<lparr>kq_error = [], kq_stateCookie = Some ''x7'', kq_state = ''x7'', kq_nonceCookie = Some ''n1'', kq_code = ''c''\<rparr>"

definition sso_accounts :: accounts where
  "sso_accounts = sample_accounts\<lparr>ac_oidc := Some (Some sso_config)\<rparr>"

theorem oidc_admits_allowlist_only_witness:
  "\<exists>cl e. allowed_by plain_lib sso_config cl e \<and> opened_for sample_env sample_call cl (fst (oidcCallback sample_env sample_idp sample_call ann_callback sso_accounts))"
proof -
  have "db_ok (ac_users sso_accounts)" "client_ok (ac_client sso_accounts)" "call_ok sample_call sso_accounts"
    using sample_users_ok sample_call_ok by (simp_all add: sso_accounts_def client_ok_def sample_accounts_def NewOIDCManager_def call_ok_def)
  moreover have "opens_session (snd (oidcCallback sample_env sample_idp sample_call ann_callback sso_accounts))" by code_simp
  moreover have "GetOIDCConfig (ac_oidc sso_accounts) = Inr sso_config" "en_go sample_env = plain_lib"
    by (simp_all add: sso_accounts_def GetOIDCConfig_def sample_env_def)
  ultimately show ?thesis using oidc_admits_allowlist_only [OF _ _ _ surjective_pairing] by fastforce
qed

end
