(* ===== verification/ServiceTokens.thy ===== *)
theory ServiceTokens
  imports OidcProps
begin

text \<open>
  The tokens of service accounts over the account requests: a rotation revokes the live token before
  it issues the next one, so that no service account ever has two.
\<close>

text \<open>Rows stand under their own identifier, and no user has two tokens that are active.\<close>

definition tokens_ok :: "time \<Rightarrow> token_db \<Rightarrow> bool" where
  "tokens_ok n db \<longleftrightarrow> token_db_wf db \<and> (\<forall>k t. token_row k db = Some t \<longrightarrow> tok_ID t = k) \<and>
     (\<forall>k k' t t'. token_row k db = Some t \<longrightarrow> token_row k' db = Some t' \<longrightarrow> tok_UserID t = tok_UserID t' \<longrightarrow>
        IsActive n t \<longrightarrow> IsActive n t' \<longrightarrow> k = k')"

lemma IsActive_mono: "n \<le> m \<Longrightarrow> IsActive m t \<Longrightarrow> IsActive n t"
  by (auto simp: IsActive_def split: option.splits if_splits)

lemma tokens_okD:
  assumes "tokens_ok n db"
  shows "token_db_wf db" and "token_row k db = Some t \<Longrightarrow> tok_ID t = k"
    and "token_row k db = Some t \<Longrightarrow> token_row k' db = Some t' \<Longrightarrow> tok_UserID t = tok_UserID t' \<Longrightarrow>
      IsActive n t \<Longrightarrow> IsActive n t' \<Longrightarrow> k = k'"
proof -
  show "token_db_wf db" "token_row k db = Some t \<Longrightarrow> tok_ID t = k" using assms by (simp_all add: tokens_ok_def)
  show "token_row k db = Some t \<Longrightarrow> token_row k' db = Some t' \<Longrightarrow> tok_UserID t = tok_UserID t' \<Longrightarrow>
      IsActive n t \<Longrightarrow> IsActive n t' \<Longrightarrow> k = k'" using assms unfolding tokens_ok_def by metis
qed

lemma tokens_okI:
  assumes "token_db_wf db" and "\<And>k t. token_row k db = Some t \<Longrightarrow> tok_ID t = k"
    and "\<And>k k' t t'. token_row k db = Some t \<Longrightarrow> token_row k' db = Some t' \<Longrightarrow> tok_UserID t = tok_UserID t' \<Longrightarrow>
      IsActive n t \<Longrightarrow> IsActive n t' \<Longrightarrow> k = k'"
  shows "tokens_ok n db"
  unfolding tokens_ok_def using assms by (intro conjI allI impI) blast+

lemma tokens_ok_later: "tokens_ok n db \<Longrightarrow> n \<le> m \<Longrightarrow> tokens_ok m db"
  by (rule tokens_okI) (auto intro: tokens_okD IsActive_mono)

text \<open>Changing rows without making any active keeps the invariant.\<close>

lemma tokens_ok_map:
  assumes "tokens_ok n db" and "token_db_wf db'"
    and "\<And>k t. token_row k db' = Some t \<Longrightarrow> \<exists>t0. token_row k db = Some t0 \<and> tok_ID t = tok_ID t0 \<and>
      tok_UserID t = tok_UserID t0 \<and> (IsActive n t \<longrightarrow> IsActive n t0)"
  shows "tokens_ok n db'"
proof (rule tokens_okI [OF assms(2)])
  show "tok_ID t = k" if "token_row k db' = Some t" for k t
    using assms(3) [OF that] tokens_okD(2) [OF assms(1)] by auto
  show "k = k'" if "token_row k db' = Some t" "token_row k' db' = Some t'" "tok_UserID t = tok_UserID t'" "IsActive n t" "IsActive n t'"
    for k k' t t'
    using assms(3) [OF that(1)] assms(3) [OF that(2)] that(3-5) tokens_okD(3) [OF assms(1)] by metis
qed

lemma revoke_inactive: "\<not> IsActive n (revoke_row now who t)"
  by (simp add: IsActive_def revoke_row_keeps)

lemma revoke_ID: "tok_ID (revoke_row now who t) = tok_ID t"
  by (simp add: revoke_row_def)

lemma RevokeToken_ok:
  assumes "tokens_ok n db"
  shows "tokens_ok n (fst (RevokeToken now tid who db))"
proof (rule tokens_ok_map [OF assms token_step_wf [OF token_step.revoke tokens_okD(1) [OF assms]]])
  show "\<exists>t0. token_row k db = Some t0 \<and> tok_ID t = tok_ID t0 \<and> tok_UserID t = tok_UserID t0 \<and> (IsActive n t \<longrightarrow> IsActive n t0)"
    if "token_row k (fst (RevokeToken now tid who db)) = Some t" for k t
    using that by (auto simp: RevokeToken_def token_row_update revoke_inactive revoke_ID revoke_row_keeps split: if_splits)
qed

lemma RevokeAllByUser_ok:
  assumes "tokens_ok n db"
  shows "tokens_ok n (fst (RevokeAllByUser now u who db))"
proof (rule tokens_ok_map [OF assms token_step_wf [OF token_step.revoke_all tokens_okD(1) [OF assms]]])
  show "\<exists>t0. token_row k db = Some t0 \<and> tok_ID t = tok_ID t0 \<and> tok_UserID t = tok_UserID t0 \<and> (IsActive n t \<longrightarrow> IsActive n t0)"
    if "token_row k (fst (RevokeAllByUser now u who db)) = Some t" for k t
    using that by (auto simp: token_row_revoke_all revoke_inactive revoke_ID revoke_row_keeps split: if_splits)
qed

lemma CreateToken_row:
  assumes "CreateToken sha rnd uuid now u name by e db = (db', r)"
  shows "db' = db \<or> (\<exists>row. tok_ID row = uuid \<and> tok_UserID row = u \<and> (\<forall>k. token_row k db' = (if k = uuid then Some row else token_row k db)))"
proof (cases "db' = db")
  case False
  with assms obtain b x where d: "db = Some b" "rnd = Some x" "u \<noteq> []"
    by (auto simp: CreateToken_def Let_def split: if_splits option.splits)
  define row where "row = \<lparr>tok_ID = uuid, tok_Name = trimSpace name, tok_UserID = u, tok_Hash = token_hash sha (APITokenPrefix @ x),
    tok_CreatedAt = now, tok_CreatedBy = by, tok_LastUsedAt = None, tok_ExpiresAt = e, tok_RevokedAt = None, tok_RevokedBy = None\<rparr>"
  from assms d have b: "db = Some b" "db' = Some (gm_put uuid (Some row) b)" "tok_ID row = uuid" "tok_UserID row = u"
    by (simp_all add: CreateToken_def Let_def row_def)
  then have "token_row k db' = (if k = uuid then Some row else token_row k db)" for k by (simp add: token_row_def)
  with b show ?thesis by blast
qed simp

lemma CreateToken_ok:
  assumes "tokens_ok n db" and "\<forall>b. db = Some b \<longrightarrow> uuid \<notin> gm_keys b"
    and "\<And>k t. token_row k db = Some t \<Longrightarrow> tok_UserID t = u \<Longrightarrow> \<not> IsActive n t"
    and "CreateToken sha rnd uuid now u name by e db = (db', r)"
  shows "tokens_ok n db'"
proof -
  have wf: "token_db_wf db'" using token_step_wf [OF token_step.create [OF assms(2)] tokens_okD(1) [OF assms(1)]] assms(4) by (metis fst_conv)
  from CreateToken_row [OF assms(4)] show ?thesis
  proof (elim disjE exE conjE)
    fix row assume r: "tok_ID row = uuid" "tok_UserID row = u" "\<forall>k. token_row k db' = (if k = uuid then Some row else token_row k db)"
    show ?thesis
    proof (rule tokens_okI [OF wf])
      show "tok_ID t = k" if "token_row k db' = Some t" for k t
        using that r tokens_okD(2) [OF assms(1)] by (auto split: if_splits)
      show "k = k'" if "token_row k db' = Some t" "token_row k' db' = Some t'" "tok_UserID t = tok_UserID t'" "IsActive n t" "IsActive n t'"
        for k k' t t'
        using that r assms(3) [of k t] assms(3) [of k' t'] tokens_okD(3) [OF assms(1), of k t k' t'] by (auto split: if_splits)
    qed
  qed (use assms(1) in simp)
qed

text \<open>After the live token is revoked, none is left.\<close>

lemma token_row_iff: "token_row k (Some b) = Some t \<longleftrightarrow> gm_get b k = Some (Some t)"
  by (auto simp: token_row_def split: option.splits)

lemma find_active:
  assumes "token_db_wf (Some b)" and "ListByUser u (Some b) = Inr ts"
  shows "t \<in> set ts \<longleftrightarrow> (\<exists>k. token_row k (Some b) = Some t \<and> tok_UserID t = u)"
proof -
  have "t \<in> set ts \<longleftrightarrow> (\<exists>k. (k, Some t) \<in> set b \<and> tok_UserID t = u)"
    using assms(2) by (force simp: ListByUser_def split: if_splits option.splits)
  also have "\<dots> \<longleftrightarrow> (\<exists>k. token_row k (Some b) = Some t \<and> tok_UserID t = u)"
    using gm_get_iff [of b] assms(1) by (simp add: token_db_wf_def token_row_iff)
  finally show ?thesis .
qed

lemma rotation_clears:
  assumes "tokens_ok n db" and "u \<noteq> []"
    and "(case FindActiveByUser n u db of Inl _ \<Rightarrow> (db, None) | Inr active \<Rightarrow> RevokeToken n (tok_ID active) who db) = (db', None)"
  shows "tokens_ok n db' \<and> (\<forall>k t. token_row k db' = Some t \<longrightarrow> tok_UserID t = u \<longrightarrow> \<not> IsActive n t) \<and> map_option gm_keys db' = map_option gm_keys db"
proof (cases db)
  case None
  with assms(3) have "db' = None" by (simp add: FindActiveByUser_def ListByUser_def assms(2))
  with None show ?thesis by (simp add: tokens_ok_def token_db_wf_def token_row_def)
next
  case (Some b)
  obtain ts where ts: "ListByUser u db = Inr ts" using Some assms(2) by (simp add: ListByUser_def)
  note wf = tokens_okD(1) [OF assms(1)]
  note mem = find_active [OF wf [unfolded Some] ts [unfolded Some]]
  show ?thesis
  proof (cases "find (IsActive n) ts")
    case None
    with assms(3) ts have "db' = db" by (simp add: FindActiveByUser_def)
    with None mem assms(1) Some show ?thesis by (auto simp: find_None_iff)
  next
    case f: (Some t)
    then have t: "t \<in> set ts" "IsActive n t" by (auto simp: find_Some_iff)
    then obtain k where k: "token_row k db = Some t" "tok_UserID t = u" using mem Some by auto
    then have id: "tok_ID t = k" using tokens_okD(2) [OF assms(1)] by blast
    have db': "db' = fst (RevokeToken n k who db)" using assms(3) ts f id by (simp add: FindActiveByUser_def)
    have "\<not> IsActive n v" if "token_row j db' = Some v" "tok_UserID v = u" for j v
    proof (cases "j = k")
      case True
      with that(1) k(1) db' have "v = revoke_row n who t" by (simp add: RevokeToken_def token_row_update)
      then show ?thesis by (simp add: revoke_inactive)
    next
      case False
      with that db' have "token_row j db = Some v" by (simp add: RevokeToken_def token_row_update)
      with False that(2) k t(2) tokens_okD(3) [OF assms(1), of j v k t] show ?thesis by auto
    qed
    moreover have "map_option gm_keys db' = map_option gm_keys db"
      using k(1) Some unfolding db' by (auto simp: RevokeToken_def update_token_def token_row_def gm_get_Some_key insert_absorb split: option.splits)
    ultimately show ?thesis using RevokeToken_ok [OF assms(1), of n k who] db' by simp
  qed
qed

section \<open>Over the requests\<close>

text \<open>Fresh identifiers: no token has the new one, and no token belongs to the new user.\<close>

definition fresh_token :: "call \<Rightarrow> accounts \<Rightarrow> bool" where
  "fresh_token c a \<longleftrightarrow> (\<forall>b. ac_tokens a = Some b \<longrightarrow> cl_tokenID c \<notin> gm_keys b) \<and>
     (\<forall>k t. token_row k (ac_tokens a) = Some t \<longrightarrow> tok_UserID t \<noteq> cl_uuid c)"

inductive timed_step :: "env \<Rightarrow> idp \<Rightarrow> time \<times> accounts \<Rightarrow> time \<times> accounts \<Rightarrow> bool" for E I where
  "call_ok c a \<Longrightarrow> fresh_token c a \<Longrightarrow> n \<le> cl_now c \<Longrightarrow> timed_step E I (n, a) (cl_now c, fst (account_call E I c rq a))"

lemma quiet_tokens [simp]:
  "ac_tokens (fst (setup_admin E c q1 a)) = ac_tokens a" "ac_tokens (fst (login E c q2 a)) = ac_tokens a"
  "ac_tokens (fst (logout E dev c a)) = ac_tokens a" "ac_tokens (fst (unlock E c q3 a)) = ac_tokens a"
  "ac_tokens (fst (deleteSession c k a)) = ac_tokens a" "ac_tokens (fst (changePassword E c q4 a)) = ac_tokens a"
  by (simp_all add: setup_admin_def setup_user_def login_def start_session_def logout_def unlock_def deleteSession_def
      changePassword_def Let_def split: option.split sum.split prod.split bool.split auth_error.split)

lemma quiet_tokens2 [simp]:
  "ac_tokens (fst (updateTheme c q a)) = ac_tokens a" "ac_tokens (fst (updateLanguage c q a)) = ac_tokens a"
  "ac_tokens (fst (createAdminUser E c g u a)) = ac_tokens a" "ac_tokens (fst (updateUserRole c k q a)) = ac_tokens a"
  "ac_tokens (fst (deleteAdminUser c k a)) = ac_tokens a" "ac_tokens (fst (addOIDCAllowlist E c y a)) = ac_tokens a"
  "ac_tokens (fst (oidcInitiateLogin E c s n a)) = ac_tokens a"
  by (simp_all add: updateTheme_def updateLanguage_def createAdminUser_def updateUserRole_def deleteAdminUser_def
      addOIDCAllowlist_def oidcInitiateLogin_def Let_def split: option.split sum.split prod.split bool.split)

lemma quiet_tokens3 [simp]:
  "ac_tokens (fst (putOIDCConfig E c q a)) = ac_tokens a" "ac_tokens (fst (deleteOIDCAllowlist E c p a)) = ac_tokens a"
proof -
  have r: "ac_tokens (fst (revokeAllOIDCSessions c a')) = ac_tokens a'" "ac_tokens (fst (revokeOIDCSessionsForSub c s a')) = ac_tokens a'" for a' s
    by (simp_all add: revokeAllOIDCSessions_def revokeOIDCSessionsForSub_def split: sum.split prod.split)
  show "ac_tokens (fst (putOIDCConfig E c q a)) = ac_tokens a"
    by (auto simp: putOIDCConfig_def Let_def split_beta r split: option.split sum.split prod.split bool.split)
  show "ac_tokens (fst (deleteOIDCAllowlist E c p a)) = ac_tokens a"
    by (auto simp: deleteOIDCAllowlist_def Let_def split_beta r split: option.split sum.split prod.split)
qed

lemma quiet_callback [simp]: "ac_tokens (fst (oidcCallback E I c q a)) = ac_tokens a"
proof -
  have s: "ac_tokens (fst (oidc_sign_in E c cs cl x a')) = ac_tokens a'" for cs cl x a'
    by (simp add: oidc_sign_in_def Let_def split: option.split sum.split prod.split)
  have "ac_tokens (fst (oidc_admit E c cs cfg cl a')) = ac_tokens a'" for cs cfg cl a'
    by (simp add: oidc_admit_def Let_def s split: option.split prod.split)
  then have "ac_tokens (fst (oidc_token E I c cs b cfg code n a')) = ac_tokens a'" for cs b cfg code n a'
    by (simp add: oidc_token_def split: option.split prod.split)
  then show ?thesis by (simp add: oidcCallback_def Let_def split: option.split sum.split prod.split bool.split)
qed

lemma create_service_tokens:
  assumes "tokens_ok (cl_now c) (ac_tokens a)" and "fresh_token c a"
  shows "tokens_ok (cl_now c) (ac_tokens (fst (createServiceAccount E c q a)))"
proof -
  have "tokens_ok (cl_now c) td" if "CreateToken (en_sha E) (cl_token c) (cl_tokenID c) (cl_now c) (cl_uuid c) name who e (ac_tokens a) = (td, r)"
    for name who e td r
    using assms(2) by (intro CreateToken_ok [OF assms(1) _ _ that]) (auto simp: fresh_token_def)
  moreover have "usr_ID u = cl_uuid c" if "CreateServiceAccount (cl_uuid c) (cl_now c) name role db = (d, Inr u)" for name role db d u
    using that by (auto simp: CreateServiceAccount_def insertUnique_def new_user_def Let_def split: if_splits option.splits)
  ultimately show ?thesis using assms(1)
    by (auto simp: createServiceAccount_def Let_def split: option.splits sum.splits prod.splits)
qed

lemma rotate_tokens:
  assumes "tokens_ok (cl_now c) (ac_tokens a)" and "fresh_token c a"
  shows "tokens_ok (cl_now c) (ac_tokens (fst (rotateServiceAccountToken E c uid q a)))"
proof (cases "ac_tokens (fst (rotateServiceAccountToken E c uid q a)) = ac_tokens a")
  case False
  define revk where "revk u = (case FindActiveByUser (cl_now c) (usr_ID u) (ac_tokens a) of Inl _ \<Rightarrow> (ac_tokens a, None)
    | Inr active \<Rightarrow> RevokeToken (cl_now c) (tok_ID active) (id_UserID (cl_who c)) (ac_tokens a))" for u :: user_row
  have revoked: "tokens_ok (cl_now c) (fst (revk u))" for u
    using RevokeToken_ok [OF assms(1)] assms(1) by (simp add: revk_def split: sum.split)
  from False obtain u e where u: "service_account uid (ac_users a) = Inr u" and q: "q = Some e" "\<not> past (cl_now c) e"
    by (auto simp: rotateServiceAccountToken_def split: sum.splits option.splits if_splits)
  obtain td r where td: "revk u = (td, r)" by fastforce
  show ?thesis
  proof (cases r)
    case (Some e')
    with u q td revoked [of u] show ?thesis by (simp add: rotateServiceAccountToken_def Let_def flip: revk_def)
  next
    case None
    obtain td1 z where z: "CreateToken (en_sha E) (cl_token c) (cl_tokenID c) (cl_now c) (usr_ID u) (usr_Username u)
        (id_UserID (cl_who c)) e td = (td1, z)" by fastforce
    have out: "ac_tokens (fst (rotateServiceAccountToken E c uid q a)) = td1"
      using u q td None z by (simp add: rotateServiceAccountToken_def Let_def flip: revk_def split: sum.split)
    show ?thesis
    proof (cases "usr_ID u = []")
      case True
      then have "td1 = td" using z by (simp add: CreateToken_def)
      with out revoked [of u] td show ?thesis by simp
    next
      case False
      from rotation_clears [OF assms(1) False] td None
      have c: "tokens_ok (cl_now c) td" "\<And>k t. token_row k td = Some t \<Longrightarrow> tok_UserID t = usr_ID u \<Longrightarrow> \<not> IsActive (cl_now c) t"
        "map_option gm_keys td = map_option gm_keys (ac_tokens a)" unfolding revk_def by blast+
      have "\<forall>b. td = Some b \<longrightarrow> cl_tokenID c \<notin> gm_keys b"
        using c(3) assms(2) by (cases "ac_tokens a") (auto simp: fresh_token_def)
      from CreateToken_ok [OF c(1) this c(2) z] out show ?thesis by simp
    qed
  qed
qed (use assms(1) in simp)

lemma delete_service_tokens:
  assumes "tokens_ok n (ac_tokens a)"
  shows "tokens_ok n (ac_tokens (fst (deleteServiceAccount c uid a)))"
proof -
  have "tokens_ok n (fst (RevokeAllByUser m u who (ac_tokens a)))" for m u who by (rule RevokeAllByUser_ok [OF assms])
  from this [of "cl_now c"] show ?thesis using assms
    by (auto simp: deleteServiceAccount_def split: sum.splits prod.splits option.splits) (metis fst_conv)+
qed

lemma account_call_tokens:
  "tokens_ok (cl_now c) (ac_tokens a) \<Longrightarrow> fresh_token c a \<Longrightarrow> tokens_ok (cl_now c) (ac_tokens (fst (account_call E I c rq a)))"
  by (cases rq) (simp_all add: create_service_tokens rotate_tokens delete_service_tokens)

definition live_tokens :: "time \<Rightarrow> string \<Rightarrow> token_db \<Rightarrow> string list" where
  "live_tokens n u db =
     (case db of None \<Rightarrow> []
      | Some b \<Rightarrow> map fst (filter (\<lambda>(k, v). case v of None \<Rightarrow> False | Some t \<Rightarrow> tok_UserID t = u \<and> IsActive n t) b))"

lemma at_most_one: "distinct xs \<Longrightarrow> (\<And>x y. x \<in> set xs \<Longrightarrow> y \<in> set xs \<Longrightarrow> x = y) \<Longrightarrow> length xs \<le> 1"
proof (cases xs)
  case (Cons x ys)
  assume "distinct xs" "\<And>x y. x \<in> set xs \<Longrightarrow> y \<in> set xs \<Longrightarrow> x = y"
  with Cons have "y \<notin> set ys" for y by (metis distinct.simps(2) list.set_intros)
  then have "ys = []" by (cases ys) auto
  with Cons show ?thesis by simp
qed simp

lemma live_tokens_single:
  assumes "tokens_ok m db"
  shows "length (live_tokens m u db) \<le> 1"
proof (cases db)
  case (Some b)
  have wf: "gm_wf b" using tokens_okD(1) [OF assms] Some by (simp add: token_db_wf_def)
  show ?thesis
  proof (rule at_most_one)
    show "distinct (live_tokens m u db)" using wf Some by (simp add: live_tokens_def gm_wf_def distinct_map_filter)
    have live: "\<exists>t. token_row k db = Some t \<and> tok_UserID t = u \<and> IsActive m t" if "k \<in> set (live_tokens m u db)" for k
    proof -
      from that Some obtain t where "(k, Some t) \<in> set b" "tok_UserID t = u" "IsActive m t"
        by (auto simp: live_tokens_def split: option.splits)
      then show ?thesis using gm_get_iff [OF wf] Some by (auto simp: token_row_iff)
    qed
    show "k = k'" if "k \<in> set (live_tokens m u db)" "k' \<in> set (live_tokens m u db)" for k k'
      using live [OF that(1)] live [OF that(2)] tokens_okD(3) [OF assms] by metis
  qed
qed (simp add: live_tokens_def)

text \<open>
  C21: A service account never has two live tokens. Over every sequence of account requests in the order
  of time, whoever sends them, no user has two tokens that are active: creating an account issues the
  first one, and a rotation revokes the live one before it issues the next.
\<close>

theorem one_live_token_per_account:
  assumes "tokens_ok n (ac_tokens a)" and "(timed_step E I)\<^sup>*\<^sup>* (n, a) (m, a')"
  shows "length (live_tokens m u (ac_tokens a')) \<le> 1"
proof -
  have "tokens_ok (fst x) (ac_tokens (snd x)) \<Longrightarrow> tokens_ok (fst y) (ac_tokens (snd y))" if "(timed_step E I)\<^sup>*\<^sup>* x y" for x y
    using that
  proof (induction rule: rtranclp_induct)
    case (step y z)
    from step(2) step(3) [OF step.prems] show ?case
      by (cases rule: timed_step.cases) (auto intro: account_call_tokens tokens_ok_later)
  qed
  from this [OF assms(2)] assms(1) have "tokens_ok m (ac_tokens a')" by simp
  then show ?thesis by (rule live_tokens_single)
qed

definition ci_account :: createServiceAccountRequest where
  "ci_account = \<lparr>vq_Name = ''ci-bot'', vq_Role = ''viewer'', vq_ExpiresAt = None\<rparr>"

definition ci_accounts :: accounts where
  "ci_accounts = fst (account_call sample_env sample_idp sample_call (CreateService (Some ci_account)) sample_accounts)"

definition rotate_call :: call where
  "rotate_call = sample_call\<lparr>cl_now := 9, cl_uuid := ''u4'', cl_token := Some ''t2'', cl_tokenID := ''k2''\<rparr>"

theorem one_live_token_per_account_witness:
  "length (live_tokens 9 ''u2'' (ac_tokens (fst (account_call sample_env sample_idp rotate_call (RotateToken ''u2'' (Some None)) ci_accounts)))) \<le> 1 \<and>
   live_tokens 9 ''u2'' (ac_tokens (fst (account_call sample_env sample_idp rotate_call (RotateToken ''u2'' (Some None)) ci_accounts))) = [''k2'']"
proof
  let ?a = "fst (account_call sample_env sample_idp rotate_call (RotateToken ''u2'' (Some None)) ci_accounts)"
  have "tokens_ok 0 (ac_tokens sample_accounts)" by (simp add: tokens_ok_def sample_accounts_def token_db_wf_def token_row_def)
  moreover have "(timed_step sample_env sample_idp)\<^sup>*\<^sup>* (0, sample_accounts) (9, ?a)"
  proof (rule converse_rtranclp_into_rtranclp)
    have "timed_step sample_env sample_idp (0, sample_accounts) (cl_now sample_call, ci_accounts)"
      unfolding ci_accounts_def
      by (rule timed_step.intros [OF sample_call_ok]) (simp_all add: fresh_token_def sample_accounts_def token_row_def sample_call_def)
    then show "timed_step sample_env sample_idp (0, sample_accounts) (7, ci_accounts)" by (simp add: sample_call_def)
    have k: "map_option (map fst) (ac_users ci_accounts) = Some [''u1'', ''u2'']" "map_option (map fst) (ac_tokens ci_accounts) = Some [''k1'']"
      "map_option (map (map_option tok_UserID \<circ> snd)) (ac_tokens ci_accounts) = Some [Some ''u2'']" by code_simp+
    have c: "call_ok rotate_call ci_accounts"
      using k(1) by (auto simp: call_ok_def rotate_call_def sample_call_def gm_get_None gm_keys_def)
    from k(2,3) obtain t where t: "ac_tokens ci_accounts = Some [(''k1'', Some t)]" "tok_UserID t = ''u2''"
      by (auto simp: map_eq_Cons_conv)
    then have t: "fresh_token rotate_call ci_accounts"
      by (auto simp: fresh_token_def rotate_call_def token_row_iff split: if_splits)
    have "timed_step sample_env sample_idp (7, ci_accounts) (cl_now rotate_call, ?a)"
      by (rule timed_step.intros [OF c t]) (simp add: rotate_call_def)
    then show "(timed_step sample_env sample_idp)\<^sup>*\<^sup>* (7, ci_accounts) (9, ?a)" by (simp add: rotate_call_def r_into_rtranclp)
  qed
  ultimately show "length (live_tokens 9 ''u2'' (ac_tokens ?a)) \<le> 1" by (rule one_live_token_per_account)
  show "live_tokens 9 ''u2'' (ac_tokens ?a) = [''k2'']" by code_simp
qed

end
