(* ===== verification/TcpStore.thy ===== *)
theory TcpStore
  imports RouteCheck Buckets "HOL-Library.Product_Lexorder"
begin

text \<open>
  The stored TCP and UDP services, \<open>internal/storage/tcpservice.go\<close>: the row, the addresses it
  stands for, its validation and the operations of the store on the bucket \<open>tcp_services\<close>. Every
  operation is one transaction; the clock and the fresh identifier of a row are arguments.
  \<open>Validate\<close> trims the row it accepts, so it returns the row.
\<close>

section \<open>Rows\<close>

definition TCPServiceProtocolTCP :: string where "TCPServiceProtocolTCP = ''tcp''"
definition TCPServiceProtocolUDP :: string where "TCPServiceProtocolUDP = ''udp''"
definition ProxyProtocolV1 :: string where "ProxyProtocolV1 = ''v1''"
definition ProxyProtocolV2 :: string where "ProxyProtocolV2 = ''v2''"
definition TCPLBRoundRobin :: string where "TCPLBRoundRobin = ''round_robin''"
definition AcceptProtocolHTTP :: string where "AcceptProtocolHTTP = ''http''"

definition tcpLBPolicies :: "string list" where
  "tcpLBPolicies = [TCPLBRoundRobin, ''least_conn'', ''ip_hash'', ''first'', ''random'']"

definition acceptProtocolTransports :: "(string, string list) gomap" where
  "acceptProtocolTransports =
     [(''tls'', [TCPServiceProtocolTCP]), (''ssh'', [TCPServiceProtocolTCP]), (AcceptProtocolHTTP, [TCPServiceProtocolTCP]),
      (''postgres'', [TCPServiceProtocolTCP]), (''rdp'', [TCPServiceProtocolTCP]), (''xmpp'', [TCPServiceProtocolTCP]),
      (''winbox'', [TCPServiceProtocolTCP]), (''wireguard'', [TCPServiceProtocolUDP]),
      (''dns'', [TCPServiceProtocolTCP, TCPServiceProtocolUDP]), (''openvpn'', [TCPServiceProtocolTCP, TCPServiceProtocolUDP])]"

definition AcceptProtocolsFor :: "string \<Rightarrow> string list" where
  "AcceptProtocolsFor transport =
     (let t = (if transport \<noteq> TCPServiceProtocolUDP then TCPServiceProtocolTCP else transport)
      in sort (map fst (filter (\<lambda>(proto, transports). t \<in> set transports) acceptProtocolTransports)))"

record TCPUpstream =
  tu_Host :: string
  tu_Port :: int
  tu_MaxConnections :: int

record TCPHealthCheck =
  th_Enabled :: bool
  th_Interval :: string
  th_Timeout :: string

record TCPService =
  ts_ID :: string
  ts_Name :: string
  ts_ListenAddr :: string
  ts_ListenPort :: int
  ts_Protocol :: string
  ts_Upstreams :: "TCPUpstream list"
  ts_LBPolicy :: string
  ts_HealthCheck :: "TCPHealthCheck option"
  ts_ProxyProtocol :: string
  ts_AcceptProtocol :: string
  ts_IPFilter :: "IPFilter option"
  ts_CrowdSecEnabled :: bool
  ts_Disabled :: bool
  ts_CreatedAt :: time
  ts_UpdatedAt :: time

definition Dial :: "TCPUpstream \<Rightarrow> string" where
  "Dial u = joinHostPort (tu_Host u) (itoa (tu_Port u))"

definition Network :: "TCPService \<Rightarrow> string" where
  "Network s = (if ts_Protocol s = TCPServiceProtocolUDP then TCPServiceProtocolUDP else TCPServiceProtocolTCP)"

definition ListenHostPort :: "TCPService \<Rightarrow> string" where
  "ListenHostPort s =
     joinHostPort (if ts_ListenAddr s = [] then ''0.0.0.0'' else ts_ListenAddr s) (itoa (ts_ListenPort s))"

definition ListenAddress :: "TCPService \<Rightarrow> string" where
  "ListenAddress s = Network s @ ''/'' @ ListenHostPort s"

definition DialAddress :: "TCPService \<Rightarrow> TCPUpstream \<Rightarrow> string" where
  "DialAddress s u = Network s @ ''/'' @ Dial u"

section \<open>Validation\<close>

definition validateOptionalDuration :: "golib \<Rightarrow> string \<Rightarrow> error option" where
  "validateOptionalDuration L value =
     (if value = [] then None
      else case lib_duration L value of
             None \<Rightarrow> Some ''tcp service: not a duration''
           | Some d \<Rightarrow> guard (d \<le> 0) ''tcp service: must be > 0'')"

definition trim_service :: "TCPService \<Rightarrow> TCPService" where
  "trim_service s =
     s\<lparr>ts_Name := trimSpace (ts_Name s), ts_ListenAddr := trimSpace (ts_ListenAddr s),
       ts_Upstreams := map (\<lambda>u. u\<lparr>tu_Host := trimSpace (tu_Host u)\<rparr>) (ts_Upstreams s)\<rparr>"

definition check_backend :: "TCPUpstream \<times> bool \<Rightarrow> error option" where
  "check_backend = (\<lambda>(u, dup).
     first_error
       [guard (tu_Host u = []) ''tcp service: backend: host must not be empty'',
        guard (tu_Port u < 1 \<or> tu_Port u > 65535) ''tcp service: backend: port out of range'',
        guard (tu_MaxConnections u < 0) ''tcp service: backend: max_connections'',
        guard dup ''tcp service: backend listed twice''])"

definition check_accept :: "TCPService \<Rightarrow> error option" where
  "check_accept s =
     (if ts_AcceptProtocol s = [] then None
      else case gm_get acceptProtocolTransports (ts_AcceptProtocol s) of
             None \<Rightarrow> Some ''tcp service: accept_protocol is not supported''
           | Some transports \<Rightarrow>
               guard (Network s \<notin> set transports) ''tcp service: accept_protocol does not apply'')"

definition check_health :: "golib \<Rightarrow> TCPService \<Rightarrow> error option" where
  "check_health L s =
     (case ts_HealthCheck s of
        None \<Rightarrow> None
      | Some hc \<Rightarrow>
          if \<not> th_Enabled hc then None
          else first_error
            [guard (Network s = TCPServiceProtocolUDP) ''tcp service: an active health check needs a real connection'',
             validateOptionalDuration L (th_Interval hc), validateOptionalDuration L (th_Timeout hc)])"

definition check_service :: "golib \<Rightarrow> TCPService \<Rightarrow> error option" where
  "check_service L s =
     first_error
       [guard (ts_Name s = []) ''tcp service: name must not be empty'',
        guard (length (ts_Name s) > 64) ''tcp service: name must be 64 characters or fewer'',
        guard (ts_ListenAddr s \<noteq> [] \<and> parseIP (ts_ListenAddr s) = None) ''tcp service: listen_addr is not an IP address'',
        guard (ts_ListenPort s < 1 \<or> ts_ListenPort s > 65535) ''tcp service: listen_port out of range'',
        guard (ts_Protocol s \<notin> {[], TCPServiceProtocolTCP, TCPServiceProtocolUDP}) ''tcp service: protocol'',
        check_accept s,
        guard (ts_Upstreams s = []) ''tcp service: at least one backend is required'',
        check_each check_backend (zip (ts_Upstreams s) (map snd (dup_scan [] (map Dial (ts_Upstreams s))))),
        guard (ts_LBPolicy s \<noteq> [] \<and> ts_LBPolicy s \<notin> set tcpLBPolicies) ''tcp service: lb_policy is not supported'',
        guard (ts_ProxyProtocol s \<notin> {[], ProxyProtocolV1, ProxyProtocolV2}) ''tcp service: proxy_protocol'',
        guard (Network s = TCPServiceProtocolUDP \<and> ts_ProxyProtocol s = ProxyProtocolV1)
          ''tcp service: the PROXY protocol v1 carries no UDP address'',
        check_health L s,
        (case ts_IPFilter s of None \<Rightarrow> None | Some f \<Rightarrow> IPFilter_Validate f)]"

definition TCPService_Validate :: "golib \<Rightarrow> TCPService \<Rightarrow> error + TCPService" where
  "TCPService_Validate L s =
     (let t = trim_service s in case check_service L t of Some e \<Rightarrow> Inl e | None \<Rightarrow> Inr t)"

section \<open>The store\<close>

type_synonym tcp_db = "TCPService bucket"

definition CreateTCPService ::
  "golib \<Rightarrow> string \<Rightarrow> time \<Rightarrow> TCPService \<Rightarrow> tcp_db \<Rightarrow> tcp_db \<times> (store_error + TCPService)" where
  "CreateTCPService L uuid now svc b =
     (case TCPService_Validate L svc of
        Inl e \<Rightarrow> (b, Inl (ErrInvalid e))
      | Inr t \<Rightarrow>
          let row = t\<lparr>ts_ID := uuid, ts_CreatedAt := now, ts_UpdatedAt := now\<rparr>
          in (gm_put uuid (Some row) b, Inr row))"

definition GetTCPService :: "string \<Rightarrow> tcp_db \<Rightarrow> store_error + TCPService" where
  "GetTCPService k b = (if k = [] then Inl (ErrInvalid ''tcp service: id must not be empty'') else bucket_get k b)"

definition sortTCPServices :: "TCPService list \<Rightarrow> TCPService list" where
  "sortTCPServices = sort_key (\<lambda>s. (ts_Name s, ts_ID s))"

definition ListTCPServices :: "tcp_db \<Rightarrow> store_error + TCPService list" where
  "ListTCPServices b = (case bucket_list b of Inl e \<Rightarrow> Inl e | Inr xs \<Rightarrow> Inr (sortTCPServices xs))"

definition UpdateTCPService ::
  "golib \<Rightarrow> time \<Rightarrow> TCPService \<Rightarrow> tcp_db \<Rightarrow> tcp_db \<times> (store_error + TCPService)" where
  "UpdateTCPService L now svc b =
     (if ts_ID svc = [] then (b, Inl (ErrInvalid ''tcp service: id must not be empty''))
      else case TCPService_Validate L svc of
             Inl e \<Rightarrow> (b, Inl (ErrInvalid e))
           | Inr t \<Rightarrow>
               (case bucket_get (ts_ID t) b of
                  Inl e \<Rightarrow> (b, Inl e)
                | Inr existing \<Rightarrow>
                    let row = t\<lparr>ts_UpdatedAt := now, ts_CreatedAt := ts_CreatedAt existing\<rparr>
                    in (gm_put (ts_ID t) (Some row) b, Inr row)))"

definition DeleteTCPService :: "string \<Rightarrow> tcp_db \<Rightarrow> tcp_db \<times> store_error option" where
  "DeleteTCPService k b =
     (if k = [] then (b, Some (ErrInvalid ''tcp service: id must not be empty'')) else bucket_delete k b)"

section \<open>Accepted rows\<close>

text \<open>A row as \<open>Validate\<close> leaves it.\<close>

definition service_ok :: "golib \<Rightarrow> TCPService \<Rightarrow> bool" where
  "service_ok L t \<longleftrightarrow> trim_service t = t \<and> check_service L t = None"

lemma trim_service_idem [simp]: "trim_service (trim_service s) = trim_service s"
  by (simp add: trim_service_def)

lemma Network_update [simp]:
  "Network (s\<lparr>ts_ID := i\<rparr>) = Network s" "Network (s\<lparr>ts_CreatedAt := c\<rparr>) = Network s" "Network (s\<lparr>ts_UpdatedAt := c\<rparr>) = Network s"
  by (simp_all add: Network_def)

lemma ListenAddress_update [simp]:
  "ListenAddress (s\<lparr>ts_ID := i\<rparr>) = ListenAddress s" "ListenAddress (s\<lparr>ts_CreatedAt := c\<rparr>) = ListenAddress s"
  "ListenAddress (s\<lparr>ts_UpdatedAt := c\<rparr>) = ListenAddress s"
  by (simp_all add: ListenAddress_def ListenHostPort_def)

lemma check_accept_update [simp]:
  "check_accept (s\<lparr>ts_ID := i\<rparr>) = check_accept s" "check_accept (s\<lparr>ts_CreatedAt := c\<rparr>) = check_accept s"
  "check_accept (s\<lparr>ts_UpdatedAt := c\<rparr>) = check_accept s"
  by (simp_all add: check_accept_def cong: option.case_cong)

lemma check_health_update [simp]:
  "check_health L (s\<lparr>ts_ID := i\<rparr>) = check_health L s" "check_health L (s\<lparr>ts_CreatedAt := c\<rparr>) = check_health L s"
  "check_health L (s\<lparr>ts_UpdatedAt := c\<rparr>) = check_health L s"
  by (cases "ts_HealthCheck s"; simp add: check_health_def)+

lemma service_ok_update [simp]:
  "service_ok L (s\<lparr>ts_ID := i\<rparr>) = service_ok L s" "service_ok L (s\<lparr>ts_CreatedAt := c\<rparr>) = service_ok L s"
  "service_ok L (s\<lparr>ts_UpdatedAt := c\<rparr>) = service_ok L s"
proof -
  have c: "check_service L (s\<lparr>ts_ID := i\<rparr>) = check_service L s" "check_service L (s\<lparr>ts_CreatedAt := c\<rparr>) = check_service L s"
    "check_service L (s\<lparr>ts_UpdatedAt := c\<rparr>) = check_service L s"
    by (simp_all add: check_service_def)
  have t: "trim_service (s\<lparr>ts_ID := i\<rparr>) = s\<lparr>ts_ID := i\<rparr> \<longleftrightarrow> trim_service s = s"
    "trim_service (s\<lparr>ts_CreatedAt := c\<rparr>) = s\<lparr>ts_CreatedAt := c\<rparr> \<longleftrightarrow> trim_service s = s"
    "trim_service (s\<lparr>ts_UpdatedAt := c\<rparr>) = s\<lparr>ts_UpdatedAt := c\<rparr> \<longleftrightarrow> trim_service s = s"
    by (cases s; simp add: trim_service_def)+
  show "service_ok L (s\<lparr>ts_ID := i\<rparr>) = service_ok L s" "service_ok L (s\<lparr>ts_CreatedAt := c\<rparr>) = service_ok L s"
    "service_ok L (s\<lparr>ts_UpdatedAt := c\<rparr>) = service_ok L s"
    using c t by (simp_all add: service_ok_def)
qed

lemma Validate_Inr: "TCPService_Validate L s = Inr t \<longleftrightarrow> t = trim_service s \<and> service_ok L t"
  by (auto simp: TCPService_Validate_def service_ok_def Let_def split: option.splits)

lemma Validate_ok [simp]: "service_ok L t \<Longrightarrow> TCPService_Validate L t = Inr t"
  by (simp add: Validate_Inr) (simp add: service_ok_def)

lemma service_ok_port: "service_ok L t \<Longrightarrow> 1 \<le> ts_ListenPort t \<and> ts_ListenPort t \<le> 65535"
  by (auto simp: service_ok_def check_service_def)

lemma snd_dup_scan: "(\<forall>d \<in> set (map snd (dup_scan [] xs)). \<not> d) \<longleftrightarrow> distinct xs"
  using dup_scan_distinct [of "[]" xs] by auto

lemma length_dup_scan [simp]: "length (dup_scan seen xs) = length xs"
  by (induction xs arbitrary: seen) simp_all

lemma service_ok_backends:
  assumes "service_ok L t"
  shows "ts_Upstreams t \<noteq> []" and "distinct (map Dial (ts_Upstreams t))"
proof -
  have no_dup: "\<not> snd p" if "p \<in> set (zip (ts_Upstreams t) (map snd (dup_scan [] (map Dial (ts_Upstreams t)))))" for p
    using assms that by (cases p) (auto simp: service_ok_def check_service_def check_backend_def)
  have "\<not> d" if "d \<in> set (map snd (dup_scan [] (map Dial (ts_Upstreams t))))" for d
  proof -
    from that obtain u where "(u, d) \<in> set (zip (ts_Upstreams t) (map snd (dup_scan [] (map Dial (ts_Upstreams t)))))"
      by (metis in_set_impl_in_set_zip2 length_dup_scan length_map)
    with no_dup show ?thesis by fastforce
  qed
  then show "distinct (map Dial (ts_Upstreams t))" using snd_dup_scan by blast
  show "ts_Upstreams t \<noteq> []" using assms by (auto simp: service_ok_def check_service_def)
qed

lemma set_sortTCPServices [simp]: "set (sortTCPServices xs) = set xs"
  by (simp add: sortTCPServices_def)

lemma sorted_sortTCPServices: "sorted (map (\<lambda>s. (ts_Name s, ts_ID s)) (sortTCPServices xs))"
  by (simp add: sortTCPServices_def)

end
