(* ===== verification/L4Metrics.thy ===== *)
theory L4Metrics
  imports Prelude "HOL-Library.Word"
begin

text \<open>
  The counters of the TCP and UDP relays, \<open>internal/l4metrics/registry.go\<close> and \<open>module.go\<close>. A
  connection keeps a pointer to the cell it counts its bytes in while the registry may drop that
  cell, so cells live in a heap (a list, a pointer is an index) and the registry maps a service to
  a pointer. Every operation of the registry is one step; the connections of all services
  interleave with each other and with \<open>Sync\<close>. The cumulative counters are 64-bit words and wrap.
\<close>

section \<open>Cells\<close>

definition CauseProtocol :: string where "CauseProtocol = ''protocol''"
definition CauseIPFilter :: string where "CauseIPFilter = ''ipFilter''"
definition CauseCrowdSec :: string where "CauseCrowdSec = ''crowdsec''"

definition knownCauses :: "string list" where
  "knownCauses = [CauseProtocol, CauseIPFilter, CauseCrowdSec]"

record cell =
  ce_connections :: "64 word"
  ce_active :: int
  ce_bytesIn :: "64 word"
  ce_bytesOut :: "64 word"
  ce_errors :: "64 word"
  ce_lastNanos :: int
  ce_refused :: "(string, 64 word) gomap"

definition newCell :: cell where
  "newCell = \<lparr>ce_connections = 0, ce_active = 0, ce_bytesIn = 0, ce_bytesOut = 0, ce_errors = 0, ce_lastNanos = 0,
     ce_refused = map (\<lambda>cause. (cause, 0)) knownCauses\<rparr>"

record Registry =
  rg_cells :: "(string, nat) gomap"
  rg_heap :: "cell list"

definition NewRegistry :: Registry where
  "NewRegistry = \<lparr>rg_cells = [], rg_heap = []\<rparr>"

definition cellFor :: "Registry \<Rightarrow> string \<Rightarrow> nat option" where
  "cellFor r serviceID = gm_get (rg_cells r) serviceID"

definition at_cell :: "nat \<Rightarrow> (cell \<Rightarrow> cell) \<Rightarrow> Registry \<Rightarrow> Registry" where
  "at_cell p f r = r\<lparr>rg_heap := (rg_heap r)[p := f (rg_heap r ! p)]\<rparr>"

definition on_service :: "string \<Rightarrow> (cell \<Rightarrow> cell) \<Rightarrow> Registry \<Rightarrow> Registry" where
  "on_service serviceID f r = (case cellFor r serviceID of None \<Rightarrow> r | Some p \<Rightarrow> at_cell p f r)"

section \<open>Operations\<close>

record SyncSpec =
  sp_ID :: string
  sp_Datagram :: bool

definition sync_one :: "string \<times> SyncSpec \<Rightarrow> Registry \<Rightarrow> Registry" where
  "sync_one = (\<lambda>(i, spec) r.
     case cellFor r i of
       None \<Rightarrow> r\<lparr>rg_cells := gm_put i (length (rg_heap r)) (rg_cells r), rg_heap := rg_heap r @ [newCell]\<rparr>
     | Some p \<Rightarrow> if sp_Datagram spec then at_cell p (\<lambda>c. c\<lparr>ce_active := 0\<rparr>) r else r)"

definition Sync :: "SyncSpec list \<Rightarrow> Registry \<Rightarrow> Registry" where
  "Sync specs r =
     (let wanted = fold (\<lambda>s m. gm_put (sp_ID s) s m) specs []
      in fold sync_one wanted (r\<lparr>rg_cells := filter (\<lambda>(i, _). gm_get wanted i \<noteq> None) (rg_cells r)\<rparr>))"

definition Opened :: "time \<Rightarrow> string \<Rightarrow> Registry \<Rightarrow> Registry" where
  "Opened now serviceID =
     on_service serviceID (\<lambda>c. c\<lparr>ce_connections := ce_connections c + 1, ce_active := ce_active c + 1, ce_lastNanos := now\<rparr>)"

definition Closed :: "string \<Rightarrow> Registry \<Rightarrow> Registry" where
  "Closed serviceID = on_service serviceID (\<lambda>c. if ce_active c \<le> 0 then c else c\<lparr>ce_active := ce_active c - 1\<rparr>)"

type_synonym Recorder = "nat option"

definition RecorderFor :: "Registry \<Rightarrow> string \<Rightarrow> Recorder" where
  "RecorderFor r serviceID = cellFor r serviceID"

definition AddIn :: "Recorder \<Rightarrow> 64 word \<Rightarrow> Registry \<Rightarrow> Registry" where
  "AddIn rc n r = (case rc of None \<Rightarrow> r | Some p \<Rightarrow> at_cell p (\<lambda>c. c\<lparr>ce_bytesIn := ce_bytesIn c + n\<rparr>) r)"

definition AddOut :: "Recorder \<Rightarrow> 64 word \<Rightarrow> Registry \<Rightarrow> Registry" where
  "AddOut rc n r = (case rc of None \<Rightarrow> r | Some p \<Rightarrow> at_cell p (\<lambda>c. c\<lparr>ce_bytesOut := ce_bytesOut c + n\<rparr>) r)"

definition Refused :: "string \<Rightarrow> string \<Rightarrow> Registry \<Rightarrow> Registry" where
  "Refused serviceID cause =
     on_service serviceID (\<lambda>c.
       case gm_get (ce_refused c) cause of None \<Rightarrow> c | Some n \<Rightarrow> c\<lparr>ce_refused := gm_put cause (n + 1) (ce_refused c)\<rparr>)"

definition Failed :: "string \<Rightarrow> Registry \<Rightarrow> Registry" where
  "Failed serviceID = on_service serviceID (\<lambda>c. c\<lparr>ce_errors := ce_errors c + 1\<rparr>)"

text \<open>What the API reports; \<open>fmt\<close> formats a time in nanoseconds.\<close>

record ServiceCounters =
  sc_Connections :: "64 word"
  sc_Active :: int
  sc_BytesIn :: "64 word"
  sc_BytesOut :: "64 word"
  sc_Errors :: "64 word"
  sc_Refused :: "(string, 64 word) gomap"
  sc_LastConnectionAt :: string

definition Snapshot :: "(int \<Rightarrow> string) \<Rightarrow> Registry \<Rightarrow> (string, ServiceCounters) gomap" where
  "Snapshot fmt r =
     map (\<lambda>(i, p). let c = rg_heap r ! p in
       (i, \<lparr>sc_Connections = ce_connections c, sc_Active = ce_active c, sc_BytesIn = ce_bytesIn c, sc_BytesOut = ce_bytesOut c,
            sc_Errors = ce_errors c, sc_Refused = filter (\<lambda>(_, n). 0 < n) (ce_refused c),
            sc_LastConnectionAt = (if 0 < ce_lastNanos c then fmt (ce_lastNanos c) else [])\<rparr>)) (rg_cells r)"

section \<open>Connections\<close>

text \<open>
  A connection of the relay route runs \<open>Handler.Handle\<close>: it opens the gauge, takes its recorder,
  relays, and closes the gauge in a deferred call after an error was counted.
\<close>

datatype conn_pc = Opening | Relaying Recorder | Closing

record l4_sys =
  ls_reg :: Registry
  ls_conns :: "(string \<times> conn_pc) list"

definition boot :: l4_sys where
  "boot = \<lparr>ls_reg = NewRegistry, ls_conns = []\<rparr>"

definition count_read :: "Recorder \<Rightarrow> int \<Rightarrow> Registry \<Rightarrow> Registry" where
  "count_read rc n r = (if n > 0 then AddIn rc (of_int n) r else r)"

definition count_write :: "Recorder \<Rightarrow> int \<Rightarrow> Registry \<Rightarrow> Registry" where
  "count_write rc n r = (if n > 0 then AddOut rc (of_int n) r else r)"

text \<open>The argument of the relation says which services an apply may mount.\<close>

inductive l4_step :: "(SyncSpec list \<Rightarrow> bool) \<Rightarrow> l4_sys \<Rightarrow> l4_sys \<Rightarrow> bool" for may :: "SyncSpec list \<Rightarrow> bool" where
  l4_refuse: "l4_step may s (s\<lparr>ls_reg := Refused i cause (ls_reg s)\<rparr>)"
| l4_open: "l4_step may s (s\<lparr>ls_reg := Opened now i (ls_reg s), ls_conns := ls_conns s @ [(i, Opening)]\<rparr>)"
| l4_wrap: "n < length (ls_conns s) \<Longrightarrow> ls_conns s ! n = (i, Opening) \<Longrightarrow>
    l4_step may s (s\<lparr>ls_conns := (ls_conns s)[n := (i, Relaying (RecorderFor (ls_reg s) i))]\<rparr>)"
| l4_read: "n < length (ls_conns s) \<Longrightarrow> ls_conns s ! n = (i, Relaying rc) \<Longrightarrow>
    l4_step may s (s\<lparr>ls_reg := count_read rc k (ls_reg s)\<rparr>)"
| l4_write: "n < length (ls_conns s) \<Longrightarrow> ls_conns s ! n = (i, Relaying rc) \<Longrightarrow>
    l4_step may s (s\<lparr>ls_reg := count_write rc k (ls_reg s)\<rparr>)"
| l4_return: "n < length (ls_conns s) \<Longrightarrow> ls_conns s ! n = (i, Relaying rc) \<Longrightarrow>
    l4_step may s (s\<lparr>ls_reg := (if err then Failed i (ls_reg s) else ls_reg s), ls_conns := (ls_conns s)[n := (i, Closing)]\<rparr>)"
| l4_close: "n < length (ls_conns s) \<Longrightarrow> ls_conns s ! n = (i, Closing) \<Longrightarrow>
    l4_step may s (s\<lparr>ls_reg := Closed i (ls_reg s), ls_conns := take n (ls_conns s) @ drop (Suc n) (ls_conns s)\<rparr>)"
| l4_apply: "may specs \<Longrightarrow> l4_step may s (s\<lparr>ls_reg := Sync specs (ls_reg s)\<rparr>)"

definition open_conns :: "l4_sys \<Rightarrow> string \<Rightarrow> nat" where
  "open_conns s i = count_list (map fst (ls_conns s)) i"

definition gauge :: "Registry \<Rightarrow> string \<Rightarrow> int option" where
  "gauge r i = map_option (\<lambda>p. ce_active (rg_heap r ! p)) (cellFor r i)"

section \<open>Lemmas\<close>

text \<open>Pointers are in the heap and no two services share a cell.\<close>

definition reg_wf :: "Registry \<Rightarrow> bool" where
  "reg_wf r \<longleftrightarrow> gm_wf (rg_cells r) \<and> (\<forall>i p. cellFor r i = Some p \<longrightarrow> p < length (rg_heap r)) \<and>
     (\<forall>i j p. cellFor r i = Some p \<longrightarrow> cellFor r j = Some p \<longrightarrow> i = j)"

lemma reg_wfD:
  assumes "reg_wf r"
  shows "gm_wf (rg_cells r)" and "cellFor r i = Some p \<Longrightarrow> p < length (rg_heap r)"
    and "cellFor r i = Some p \<Longrightarrow> cellFor r j = Some p \<Longrightarrow> i = j"
  using assms unfolding reg_wf_def by blast+

lemma cellFor_at_cell [simp]: "cellFor (at_cell p f r) i = cellFor r i"
  by (simp add: cellFor_def at_cell_def)

lemma reg_wf_at_cell [simp]: "reg_wf (at_cell p f r) = reg_wf r"
  by (simp add: reg_wf_def) (simp add: at_cell_def)

lemma reg_wf_on_service [simp]: "reg_wf (on_service i f r) = reg_wf r"
  by (simp add: on_service_def split: option.splits)

lemma cellFor_on_service [simp]: "cellFor (on_service i f r) j = cellFor r j"
  by (simp add: on_service_def split: option.splits)

text \<open>What a service's own operation does to its gauge, and that it leaves the others alone.\<close>

lemma heap_on_service:
  assumes "reg_wf r" and "cellFor r j = Some p"
  shows "rg_heap (on_service i f r) ! p = (if i = j then f (rg_heap r ! p) else rg_heap r ! p)"
proof (cases "cellFor r i")
  case None
  with assms show ?thesis by (auto simp: on_service_def)
next
  case (Some q)
  then have heap: "rg_heap (on_service i f r) = (rg_heap r)[q := f (rg_heap r ! q)]"
    by (simp add: on_service_def at_cell_def)
  show ?thesis
  proof (cases "i = j")
    case True
    with Some assms(2) have "q = p" by simp
    with True heap reg_wfD(2) [OF assms] show ?thesis by simp
  next
    case False
    with Some reg_wfD(3) [OF assms, of i] have "q \<noteq> p" by auto
    with False heap show ?thesis by simp
  qed
qed

lemma gauge_Refused [simp]: "reg_wf r \<Longrightarrow> gauge (Refused i cause r) j = gauge r j"
  by (cases "cellFor r j") (auto simp: Refused_def gauge_def heap_on_service split: option.splits)

lemma gauge_Failed [simp]: "reg_wf r \<Longrightarrow> gauge (Failed i r) j = gauge r j"
  by (cases "cellFor r j") (auto simp: Failed_def gauge_def heap_on_service)

lemma gauge_Opened: "reg_wf r \<Longrightarrow> gauge (Opened now i r) j = map_option (\<lambda>a. if i = j then a + 1 else a) (gauge r j)"
  by (cases "cellFor r j") (auto simp: Opened_def gauge_def heap_on_service)

lemma gauge_Closed:
  "reg_wf r \<Longrightarrow> gauge (Closed i r) j = map_option (\<lambda>a. if i = j \<and> 0 < a then a - 1 else a) (gauge r j)"
  by (cases "cellFor r j") (auto simp: Closed_def gauge_def heap_on_service)

lemma gauge_at_cell_same:
  assumes "\<And>c. ce_active (f c) = ce_active c"
  shows "gauge (at_cell p f r) j = gauge r j"
proof -
  have "ce_active ((rg_heap r)[p := f (rg_heap r ! p)] ! q) = ce_active (rg_heap r ! q)" for q
    using assms by (cases "p < length (rg_heap r)"; cases "q = p") (simp_all add: nth_list_update_neq list_update_beyond)
  then show ?thesis by (simp add: gauge_def) (simp add: at_cell_def)
qed

lemma gauge_count [simp]: "gauge (count_read rc k r) j = gauge r j" "gauge (count_write rc k r) j = gauge r j"
  by (cases rc; simp add: count_read_def count_write_def AddIn_def AddOut_def gauge_at_cell_same)+

lemma reg_wf_ops [simp]:
  "reg_wf (Refused i cause r) = reg_wf r" "reg_wf (Failed i r) = reg_wf r" "reg_wf (Opened now i r) = reg_wf r"
  "reg_wf (Closed i r) = reg_wf r" "reg_wf (count_read rc k r) = reg_wf r" "reg_wf (count_write rc k r) = reg_wf r"
  by (simp_all add: Refused_def Failed_def Opened_def Closed_def count_read_def count_write_def AddIn_def AddOut_def
      split: option.splits)

text \<open>An apply mounts exactly the wanted services.\<close>

definition synced :: "SyncSpec \<Rightarrow> int option \<Rightarrow> int" where
  "synced spec g = (case g of None \<Rightarrow> 0 | Some a \<Rightarrow> if sp_Datagram spec then 0 else a)"

lemma cellFor_sync_one: "cellFor (sync_one (i, spec) r) j =
  (if j = i \<and> cellFor r i = None then Some (length (rg_heap r)) else cellFor r j)"
  by (auto simp: sync_one_def cellFor_def at_cell_def split: option.splits)

lemma reg_wf_sync_one:
  assumes "reg_wf r"
  shows "reg_wf (sync_one (i, spec) r)"
proof -
  have "length (rg_heap r) \<le> length (rg_heap (sync_one (i, spec) r))"
    by (simp add: sync_one_def at_cell_def split: option.splits)
  moreover have "length (rg_heap r) < length (rg_heap (sync_one (i, spec) r))" if "cellFor r i = None"
    using that by (simp add: sync_one_def)
  moreover have "gm_wf (rg_cells (sync_one (i, spec) r))"
    using reg_wfD(1) [OF assms] by (simp add: sync_one_def at_cell_def split: option.splits)
  moreover have "p < length (rg_heap (sync_one (i, spec) r))" if "cellFor (sync_one (i, spec) r) j = Some p" for j p
    using that calculation(1,2) reg_wfD(2) [OF assms, of j p] by (auto simp: cellFor_sync_one split: if_splits)
  moreover have "j = k" if "cellFor (sync_one (i, spec) r) j = Some p" "cellFor (sync_one (i, spec) r) k = Some p" for j k p
    using that reg_wfD(2) [OF assms, of j p] reg_wfD(2) [OF assms, of k p] reg_wfD(3) [OF assms, of j p k]
    by (auto simp: cellFor_sync_one split: if_splits)
  ultimately show ?thesis unfolding reg_wf_def by blast
qed

lemma gauge_sync_one:
  assumes "reg_wf r"
  shows "gauge (sync_one (i, spec) r) j = (if j = i then Some (synced spec (gauge r i)) else gauge r j)"
proof (cases "cellFor r i")
  case None
  have heap: "rg_heap (sync_one (i, spec) r) = rg_heap r @ [newCell]" using None by (simp add: sync_one_def)
  have old: "gauge (sync_one (i, spec) r) j = gauge r j" if "j \<noteq> i"
    using that reg_wfD(2) [OF assms, of j] by (cases "cellFor r j") (simp_all add: gauge_def cellFor_sync_one heap nth_append)
  have "gauge (sync_one (i, spec) r) i = Some 0" using None by (simp add: gauge_def cellFor_sync_one heap newCell_def)
  moreover have "gauge r i = None" using None by (simp add: gauge_def)
  ultimately show ?thesis using old by (simp add: synced_def)
next
  case (Some q)
  then have "sync_one (i, spec) r = (if sp_Datagram spec then on_service i (\<lambda>c. c\<lparr>ce_active := 0\<rparr>) r else r)"
    by (simp add: sync_one_def on_service_def)
  with Some assms show ?thesis by (cases "cellFor r j") (auto simp: gauge_def heap_on_service synced_def)
qed

lemma fold_sync_wf: "reg_wf r \<Longrightarrow> reg_wf (fold sync_one w r)"
  by (induction w arbitrary: r) (auto simp: reg_wf_sync_one)

lemma fold_sync_gauge:
  assumes "reg_wf r" and "gm_wf w"
  shows "gauge (fold sync_one w r) j =
      (case gm_get w j of None \<Rightarrow> gauge r j | Some spec \<Rightarrow> Some (synced spec (gauge r j)))"
  using assms
proof (induction w arbitrary: r)
  case (Cons x w)
  obtain i spec where x: "x = (i, spec)" by (cases x)
  have "gm_get w i = None" using Cons.prems x by (simp add: gm_get_None)
  then show ?case
    using Cons.IH [OF reg_wf_sync_one [OF Cons.prems(1), of i spec]] Cons.prems x gauge_sync_one [OF Cons.prems(1), of i spec j]
    by (cases "j = i") (auto split: option.splits)
qed simp

definition wanted :: "SyncSpec list \<Rightarrow> (string, SyncSpec) gomap" where
  "wanted specs = fold (\<lambda>s m. gm_put (sp_ID s) s m) specs []"

lemma wanted_wf [simp]: "gm_wf (wanted specs)"
proof -
  have "gm_wf m \<Longrightarrow> gm_wf (fold (\<lambda>s m. gm_put (sp_ID s) s m) specs m)" for m
    by (induction specs arbitrary: m) auto
  then show ?thesis by (simp add: wanted_def)
qed

lemma wanted_get: "gm_get (wanted specs) i = find (\<lambda>s. sp_ID s = i) (rev specs)"
proof -
  have "gm_get (fold (\<lambda>s m. gm_put (sp_ID s) s m) specs m) i =
    (case find (\<lambda>s. sp_ID s = i) (rev specs) of None \<Rightarrow> gm_get m i | Some s \<Rightarrow> Some s)" for m
  proof (induction specs rule: rev_induct)
    case (snoc x xs)
    then show ?case by (auto simp: gm_get_put split: option.splits)
  qed simp
  then show ?thesis by (simp add: wanted_def split: option.splits)
qed

lemma Sync_wf_gauge:
  assumes "reg_wf r"
  shows "reg_wf (Sync specs r)"
    and "gauge (Sync specs r) j =
      (case find (\<lambda>s. sp_ID s = j) (rev specs) of None \<Rightarrow> None | Some spec \<Rightarrow> Some (synced spec (gauge r j)))"
proof -
  let ?r = "r\<lparr>rg_cells := filter (\<lambda>(i, _). gm_get (wanted specs) i \<noteq> None) (rg_cells r)\<rparr>"
  have cell: "cellFor ?r i = (if gm_get (wanted specs) i \<noteq> None then cellFor r i else None)" for i
    by (simp add: cellFor_def gm_get_filter_keys)
  have wf: "reg_wf ?r"
    using reg_wfD [OF assms] unfolding reg_wf_def cell by (auto split: if_splits)
  have Sync: "Sync specs r = fold sync_one (wanted specs) ?r"
    by (simp add: Sync_def wanted_def Let_def)
  show "reg_wf (Sync specs r)" unfolding Sync by (rule fold_sync_wf [OF wf])
  have g: "gauge ?r j = (if gm_get (wanted specs) j \<noteq> None then gauge r j else None)"
    unfolding gauge_def cell by simp
  show "gauge (Sync specs r) j =
      (case find (\<lambda>s. sp_ID s = j) (rev specs) of None \<Rightarrow> None | Some spec \<Rightarrow> Some (synced spec (gauge r j)))"
    unfolding Sync fold_sync_gauge [OF wf wanted_wf] g unfolding wanted_get
    by (cases "find (\<lambda>s. sp_ID s = j) (rev specs)") simp_all
qed

section \<open>The gauge under every interleaving\<close>

lemma open_conns_same:
  assumes "n < length (ls_conns s)" and "ls_conns s ! n = (i, pc)"
  shows "open_conns (s\<lparr>ls_reg := r, ls_conns := (ls_conns s)[n := (i, pc')]\<rparr>) j = open_conns s j"
    and "open_conns (s\<lparr>ls_conns := (ls_conns s)[n := (i, pc')]\<rparr>) j = open_conns s j"
proof -
  have "map fst ((ls_conns s)[n := (i, pc')]) = map fst (ls_conns s)"
    using assms by (metis fst_conv list_update_id map_update nth_map)
  then show "open_conns (s\<lparr>ls_reg := r, ls_conns := (ls_conns s)[n := (i, pc')]\<rparr>) j = open_conns s j"
    "open_conns (s\<lparr>ls_conns := (ls_conns s)[n := (i, pc')]\<rparr>) j = open_conns s j"
    by (simp_all add: open_conns_def)
qed

lemma open_conns_reg [simp]: "open_conns (s\<lparr>ls_reg := r\<rparr>) j = open_conns s j"
  by (simp add: open_conns_def)

lemma open_conns_open:
  "open_conns (s\<lparr>ls_reg := r, ls_conns := ls_conns s @ [(i, pc)]\<rparr>) j = open_conns s j + (if i = j then 1 else 0)"
  by (simp add: open_conns_def)

lemma open_conns_close:
  assumes "n < length (ls_conns s)" and "ls_conns s ! n = (i, pc)"
  shows "open_conns (s\<lparr>ls_reg := r, ls_conns := take n (ls_conns s) @ drop (Suc n) (ls_conns s)\<rparr>) j + (if i = j then 1 else 0)
    = open_conns s j"
proof -
  have "ls_conns s = take n (ls_conns s) @ (i, pc) # drop (Suc n) (ls_conns s)"
    using id_take_nth_drop [OF assms(1)] assms(2) by simp
  then have "map fst (ls_conns s) = map fst (take n (ls_conns s)) @ i # map fst (drop (Suc n) (ls_conns s))"
    by (metis fst_conv list.simps(9) map_append)
  then show ?thesis unfolding open_conns_def by simp
qed

lemma l4_step_wf: "l4_step may s s' \<Longrightarrow> reg_wf (ls_reg s) \<Longrightarrow> reg_wf (ls_reg s')"
  by (induction rule: l4_step.induct) (simp_all add: Sync_wf_gauge)

text \<open>How one step moves the gauge and the number of open connections of a service.\<close>

inductive gauge_moves :: "(SyncSpec list \<Rightarrow> bool) \<Rightarrow> string \<Rightarrow> int option \<Rightarrow> nat \<Rightarrow> int option \<Rightarrow> nat \<Rightarrow> bool"
  for may :: "SyncSpec list \<Rightarrow> bool" and j :: string where
  stays: "gauge_moves may j g n g n"
| opens: "gauge_moves may j g n (map_option (\<lambda>a. a + 1) g) (Suc n)"
| closes: "gauge_moves may j g (Suc n) (map_option (\<lambda>a. if 0 < a then a - 1 else a) g) n"
| mounts: "may specs \<Longrightarrow> find (\<lambda>s. sp_ID s = j) (rev specs) = Some spec \<Longrightarrow> gauge_moves may j g n (Some (synced spec g)) n"
| unmounts: "may specs \<Longrightarrow> find (\<lambda>s. sp_ID s = j) (rev specs) = None \<Longrightarrow> gauge_moves may j g n None n"

lemma step_moves_gauge:
  assumes "l4_step may s s'" and "reg_wf (ls_reg s)"
  shows "gauge_moves may j (gauge (ls_reg s) j) (open_conns s j) (gauge (ls_reg s') j) (open_conns s' j)"
  using assms
proof (cases rule: l4_step.cases)
  case (l4_open i now)
  then show ?thesis using assms(2) opens [of may j "gauge (ls_reg s) j" "open_conns s j"] stays
    by (cases "i = j") (simp_all add: gauge_Opened open_conns_open option.map_ident)
next
  case (l4_close n i)
  note n = open_conns_close [OF l4_close(2,3), of "Closed i (ls_reg s)" j]
  show ?thesis
  proof (cases "i = j")
    case True
    with n l4_close have "open_conns s j = Suc (open_conns s' j)" by simp
    with True l4_close(1) assms(2) show ?thesis
      using closes [of may j "gauge (ls_reg s) j" "open_conns s' j"] by (simp add: gauge_Closed)
  qed (use n l4_close(1) assms(2) stays in \<open>simp add: gauge_Closed option.map_ident\<close>)
next
  case (l4_apply specs)
  then show ?thesis using assms(2) mounts [of may specs j] unmounts [of may specs j]
    by (cases "find (\<lambda>s. sp_ID s = j) (rev specs)") (simp_all add: Sync_wf_gauge)
qed (simp_all add: stays open_conns_same)

definition gauge_ok :: "l4_sys \<Rightarrow> string \<Rightarrow> bool" where
  "gauge_ok s j \<longleftrightarrow> (case gauge (ls_reg s) j of None \<Rightarrow> True | Some a \<Rightarrow> 0 \<le> a \<and> a \<le> int (open_conns s j))"

definition exact :: "l4_sys \<Rightarrow> string \<Rightarrow> bool" where
  "exact s j \<longleftrightarrow> gauge (ls_reg s) j = Some (int (open_conns s j))"

definition stays_mounted :: "string \<Rightarrow> SyncSpec list \<Rightarrow> bool" where
  "stays_mounted j specs \<longleftrightarrow> (\<exists>sp \<in> set specs. sp_ID sp = j) \<and> (\<forall>sp \<in> set specs. sp_ID sp = j \<longrightarrow> \<not> sp_Datagram sp)"

lemma find_rev_Some: "find P (rev xs) = Some x \<Longrightarrow> x \<in> set xs \<and> P x"
  by (induction xs rule: rev_induct) (auto split: if_splits)

lemma gauge_ok_step:
  assumes "l4_step may s s'" and "reg_wf (ls_reg s)" and "gauge_ok s j"
  shows "gauge_ok s' j"
  using step_moves_gauge [OF assms(1,2), of j] assms(3)
  by (cases rule: gauge_moves.cases) (auto simp: gauge_ok_def synced_def split: option.splits if_splits)

lemma exact_step:
  assumes "l4_step (stays_mounted j) s s'" and "reg_wf (ls_reg s)" and "exact s j"
  shows "exact s' j"
  using step_moves_gauge [OF assms(1,2), of j] assms(3)
proof (cases rule: gauge_moves.cases)
  case (mounts specs spec)
  then have "spec \<in> set specs \<and> sp_ID spec = j" by (intro find_rev_Some) simp
  with mounts assms(3) show ?thesis by (auto simp: exact_def synced_def stays_mounted_def)
next
  case (unmounts specs)
  then show ?thesis by (auto simp: stays_mounted_def find_None_iff)
qed (auto simp: exact_def)

lemma l4_run_wf: "(l4_step may)\<^sup>*\<^sup>* s s' \<Longrightarrow> reg_wf (ls_reg s) \<Longrightarrow> reg_wf (ls_reg s')"
  by (induction rule: rtranclp_induct) (auto dest: l4_step_wf)

lemma gauge_ok_reachable:
  assumes "(l4_step may)\<^sup>*\<^sup>* boot s"
  shows "reg_wf (ls_reg s) \<and> gauge_ok s j"
  using assms
proof (induction rule: rtranclp_induct)
  case base
  then show ?case by (simp add: boot_def NewRegistry_def reg_wf_def cellFor_def gauge_ok_def gauge_def)
qed (use gauge_ok_step l4_step_wf in blast)

lemma exact_run:
  assumes "(l4_step (stays_mounted j))\<^sup>*\<^sup>* s s'" and "reg_wf (ls_reg s)" and "exact s j"
  shows "exact s' j"
  using assms
proof (induction rule: rtranclp_induct)
  case (step y z)
  then show ?case using exact_step [OF step(2)] l4_run_wf by blast
qed simp

lemma Snapshot_gauge: "map_option sc_Active (gm_get (Snapshot fmt r) j) = gauge r j"
  unfolding gauge_def cellFor_def Snapshot_def Let_def by (simp add: map_of_map option.map_comp o_def)

text \<open>
  C20: Under every interleaving of connections, refusals and applies, the gauge of open connections
  that the API reports for a relay is never negative and never above the number of connections
  that are really open. Once a TCP relay is mounted and idle it is exactly that number, for as
  long as the relay stays mounted, however many applies happen while connections are open.
\<close>

theorem gauge_counts_open_connections:
  assumes "(l4_step (\<lambda>_. True))\<^sup>*\<^sup>* boot s" and "gm_get (Snapshot fmt (ls_reg s)) j = Some sc"
  shows "0 \<le> sc_Active sc \<and> sc_Active sc \<le> int (open_conns s j) \<and>
    (open_conns s j = 0 \<longrightarrow> (l4_step (stays_mounted j))\<^sup>*\<^sup>* s s' \<longrightarrow>
       (\<exists>sc'. gm_get (Snapshot fmt' (ls_reg s')) j = Some sc' \<and> sc_Active sc' = int (open_conns s' j)))"
proof (intro conjI impI)
  note ok = gauge_ok_reachable [OF assms(1), of j]
  have g: "gauge (ls_reg s) j = Some (sc_Active sc)" using Snapshot_gauge [of fmt "ls_reg s" j] assms(2) by simp
  then show low: "0 \<le> sc_Active sc" and up: "sc_Active sc \<le> int (open_conns s j)" using ok by (simp_all add: gauge_ok_def)
  assume "open_conns s j = 0" and run: "(l4_step (stays_mounted j))\<^sup>*\<^sup>* s s'"
  with g low up have "exact s j" by (simp add: exact_def)
  from exact_run [OF run conjunct1 [OF ok] this] have "gauge (ls_reg s') j = Some (int (open_conns s' j))"
    by (simp add: exact_def)
  then show "\<exists>sc'. gm_get (Snapshot fmt' (ls_reg s')) j = Some sc' \<and> sc_Active sc' = int (open_conns s' j)"
    using Snapshot_gauge [of fmt' "ls_reg s'" j] by (auto simp: map_option_eq_Some)
qed

definition sample_specs :: "SyncSpec list" where
  "sample_specs = [\<lparr>sp_ID = ''db'', sp_Datagram = False\<rparr>]"

definition mounted :: l4_sys where
  "mounted = boot\<lparr>ls_reg := Sync sample_specs (ls_reg boot)\<rparr>"

definition busy :: l4_sys where
  "busy = mounted\<lparr>ls_reg := Opened 7 ''db'' (ls_reg mounted), ls_conns := ls_conns mounted @ [(''db'', Opening)]\<rparr>"

definition applied_while_busy :: l4_sys where
  "applied_while_busy = busy\<lparr>ls_reg := Sync sample_specs (ls_reg busy)\<rparr>"

lemma sample_runs:
  "(l4_step (\<lambda>_. True))\<^sup>*\<^sup>* boot mounted" "(l4_step (stays_mounted ''db''))\<^sup>*\<^sup>* mounted applied_while_busy"
proof -
  show "(l4_step (\<lambda>_. True))\<^sup>*\<^sup>* boot mounted" unfolding mounted_def by (rule r_into_rtranclp) (rule l4_apply, simp)
  have "l4_step (stays_mounted ''db'') mounted busy" unfolding busy_def by (rule l4_open)
  moreover have "l4_step (stays_mounted ''db'') busy applied_while_busy"
    unfolding applied_while_busy_def by (rule l4_apply) (simp add: stays_mounted_def sample_specs_def)
  ultimately show "(l4_step (stays_mounted ''db''))\<^sup>*\<^sup>* mounted applied_while_busy" by (meson rtranclp.rtrancl_into_rtrancl rtranclp.rtrancl_refl)
qed

theorem gauge_counts_open_connections_witness:
  "\<exists>sc. gm_get (Snapshot (\<lambda>_. []) (ls_reg applied_while_busy)) ''db'' = Some sc \<and> sc_Active sc = 1"
proof -
  obtain sc where sc: "gm_get (Snapshot (\<lambda>_. []) (ls_reg mounted)) ''db'' = Some sc"
    by (simp add: Snapshot_def mounted_def boot_def NewRegistry_def Sync_def sample_specs_def sync_one_def cellFor_def Let_def)
  have "open_conns mounted ''db'' = 0" "open_conns applied_while_busy ''db'' = 1"
    by (simp_all add: open_conns_def applied_while_busy_def busy_def mounted_def boot_def)
  then show ?thesis
    using gauge_counts_open_connections [OF sample_runs(1) sc, of applied_while_busy "\<lambda>_. []"] sample_runs(2) by simp
qed

end
