(* ===== verification/TcpRelay.thy ===== *)
theory TcpRelay
  imports TcpStore L4Metrics RouteHandlers
begin

text \<open>
  The TCP and UDP relays: the emission of the \<open>layer4\<close> app and the checks on listening sockets
  (\<open>internal/caddymgr/layer4.go\<close>), the part of an apply that concerns them
  (\<open>internal/caddymgr/manager.go\<close>) and the handlers of \<open>internal/api/tcpservices.go\<close>. The answer of the
  operating system to a probe of a socket, the environment of the process and the fate of a load
  are arguments. The layer-4 engine of Caddy is an argument too; its locale says what the emitter
  relies on.
\<close>

section \<open>Emission\<close>

datatype empty_json = EmptyObject | EmptyArray

datatype l4_matcher =
    L4RemoteIP "string list"
  | L4CrowdSec
  | L4Protocol string empty_json
  | L4Not l4_matcher

record l4_upstream =
  lu_dial :: "string list"
  lu_max_connections :: "int option"

record l4_active =
  la_interval :: "string option"
  la_timeout :: "string option"

record l4_proxy =
  lp_upstreams :: "l4_upstream list"
  lp_proxy_protocol :: "string option"
  lp_policy :: "string option"
  lp_active :: "l4_active option"

datatype l4_handler = L4Metrics string string | L4Close | L4Proxy l4_proxy

record l4_route =
  lr_match :: "l4_matcher list"
  lr_handle :: "l4_handler list"

record l4_server =
  lv_listen :: "string list"
  lv_routes :: "l4_route list"

definition non_empty :: "string \<Rightarrow> string option" where
  "non_empty s = (if s = [] then None else Some s)"

definition buildLayer4Proxy :: "TCPService \<Rightarrow> l4_proxy" where
  "buildLayer4Proxy svc =
     \<lparr>lp_upstreams =
        map (\<lambda>u. \<lparr>lu_dial = [DialAddress svc u],
                  lu_max_connections = (if tu_MaxConnections u > 0 then Some (tu_MaxConnections u) else None)\<rparr>) (ts_Upstreams svc),
      lp_proxy_protocol = non_empty (ts_ProxyProtocol svc),
      lp_policy = (if ts_LBPolicy svc \<noteq> [] \<and> ts_LBPolicy svc \<noteq> TCPLBRoundRobin then Some (ts_LBPolicy svc) else None),
      lp_active =
        (case ts_HealthCheck svc of
           None \<Rightarrow> None
         | Some hc \<Rightarrow>
             if th_Enabled hc then Some \<lparr>la_interval = non_empty (th_Interval hc), la_timeout = non_empty (th_Timeout hc)\<rparr>
             else None)\<rparr>"

definition l4Not :: "l4_matcher \<Rightarrow> l4_matcher" where
  "l4Not m = L4Not m"

definition l4ProtocolMatcher :: "string \<Rightarrow> l4_matcher" where
  "l4ProtocolMatcher protocol = L4Protocol protocol (if protocol = AcceptProtocolHTTP then EmptyArray else EmptyObject)"

definition l4RefusalRoute :: "string \<Rightarrow> string \<Rightarrow> l4_matcher \<Rightarrow> l4_route" where
  "l4RefusalRoute serviceID cause m = \<lparr>lr_match = [m], lr_handle = [L4Metrics serviceID cause, L4Close]\<rparr>"

definition filter_routes :: "TCPService \<Rightarrow> l4_route list" where
  "filter_routes svc =
     (case ts_IPFilter svc of
        None \<Rightarrow> []
      | Some f \<Rightarrow>
          if ipf_CIDRs f = [] then []
          else if ipf_Mode f = ''deny'' then [l4RefusalRoute (ts_ID svc) CauseIPFilter (L4RemoteIP (ipf_CIDRs f))]
          else if ipf_Mode f = ''allow'' then [l4RefusalRoute (ts_ID svc) CauseIPFilter (l4Not (L4RemoteIP (ipf_CIDRs f)))]
          else [])"

definition buildLayer4Routes :: "TCPService \<Rightarrow> bool \<Rightarrow> l4_route list" where
  "buildLayer4Routes svc crowdSecAvailable =
     filter_routes svc @
     (if crowdSecAvailable \<and> ts_CrowdSecEnabled svc then [l4RefusalRoute (ts_ID svc) CauseCrowdSec (l4Not L4CrowdSec)] else []) @
     (if ts_AcceptProtocol svc \<noteq> []
      then [l4RefusalRoute (ts_ID svc) CauseProtocol (l4Not (l4ProtocolMatcher (ts_AcceptProtocol svc)))] else []) @
     [\<lparr>lr_match = [], lr_handle = [L4Metrics (ts_ID svc) [], L4Proxy (buildLayer4Proxy svc)]\<rparr>]"

definition l4ServerName :: "TCPService \<Rightarrow> string" where
  "l4ServerName svc = ''svc_'' @ ts_ID svc"

definition buildLayer4App :: "TCPService list \<Rightarrow> bool \<Rightarrow> (string, l4_server) gomap option" where
  "buildLayer4App services crowdSecAvailable =
     (let servers = fold (\<lambda>svc m.
            if ts_Disabled svc then m
            else gm_put (l4ServerName svc) \<lparr>lv_listen = [ListenAddress svc], lv_routes = buildLayer4Routes svc crowdSecAvailable\<rparr> m)
          services []
      in if servers = [] then None else Some servers)"

section \<open>Listening sockets\<close>

text \<open>\<open>strconv.Atoi\<close> on a 64-bit platform: an optional sign, decimal digits, the range of \<open>int\<close>.\<close>

definition atoi :: "string \<Rightarrow> int option" where
  "atoi s =
     (let ds = (if s \<noteq> [] \<and> (hd s = CHR ''-'' \<or> hd s = CHR ''+'') then tl s else s);
          v = foldl (\<lambda>a c. 10 * a + (int (byte_of c) - 48)) 0 ds;
          n = (if s \<noteq> [] \<and> hd s = CHR ''-'' then - v else v)
      in if ds = [] \<or> (\<exists>c \<in> set ds. byte_of c < 48 \<or> 57 < byte_of c) then None
         else if n < - (2 ^ 63) \<or> 2 ^ 63 \<le> n then None else Some n)"

definition portOverrideFromEnv :: "(string \<Rightarrow> string) \<Rightarrow> string \<Rightarrow> int \<Rightarrow> int" where
  "portOverrideFromEnv getenv name fallback =
     (let raw = trimSpace (getenv name)
      in if raw = [] then fallback
         else case atoi raw of None \<Rightarrow> fallback | Some n \<Rightarrow> if n < 1 \<or> n > 65535 then fallback else n)"

definition httpPortFor :: "(string \<Rightarrow> string) \<Rightarrow> bool \<Rightarrow> int" where
  "httpPortFor getenv devMode = portOverrideFromEnv getenv ''ARENET_HTTP_PORT'' (if devMode then 8080 else 80)"

definition httpsPortFor :: "(string \<Rightarrow> string) \<Rightarrow> bool \<Rightarrow> int" where
  "httpsPortFor getenv devMode = portOverrideFromEnv getenv ''ARENET_HTTPS_PORT'' (if devMode then 8443 else 443)"

definition ReservedTCPPorts :: "int \<Rightarrow> int \<Rightarrow> int \<Rightarrow> (int, string) gomap" where
  "ReservedTCPPorts httpPort httpsPort adminPort =
     gm_put 2019 ''Caddy's admin endpoint''
       (gm_put adminPort ''the Arenet admin interface''
         (gm_put httpsPort ''Arenet HTTPS routes'' (gm_put httpPort ''Arenet HTTP routes'' [])))"

definition ReservedTCPPortsFor :: "(string \<Rightarrow> string) \<Rightarrow> bool \<Rightarrow> string \<Rightarrow> (int, string) gomap" where
  "ReservedTCPPortsFor getenv devMode adminListen =
     (let adminPort = (case splitHostPort adminListen of
            None \<Rightarrow> 0 | Some (_, portStr) \<Rightarrow> (case atoi portStr of None \<Rightarrow> 0 | Some p \<Rightarrow> p))
      in ReservedTCPPorts (httpPortFor getenv devMode) (httpsPortFor getenv devMode) adminPort)"

fun conflict_scan :: "string list \<Rightarrow> TCPService list \<Rightarrow> error option" where
  "conflict_scan seen [] = None"
| "conflict_scan seen (svc # rest) =
     (if ts_Disabled svc then conflict_scan seen rest
      else if ListenAddress svc \<in> set seen then Some ''tcp services: both listen''
      else conflict_scan (ListenAddress svc # seen) rest)"

definition l4ListenConflicts :: "TCPService list \<Rightarrow> error option" where
  "l4ListenConflicts services = conflict_scan [] services"

definition ValidateTCPListen :: "TCPService list \<Rightarrow> (int, string) gomap \<Rightarrow> error option" where
  "ValidateTCPListen services reserved =
     first_error
       [check_each (\<lambda>svc. guard (\<not> ts_Disabled svc \<and> gm_get reserved (ts_ListenPort svc) \<noteq> None) ''tcp service: port is used'') services,
        l4ListenConflicts services]"

datatype listen_error = EACCES | EPERM | EADDRINUSE | OtherListenError

definition CanBind :: "(string \<Rightarrow> string \<Rightarrow> listen_error option) \<Rightarrow> string \<Rightarrow> string \<Rightarrow> error option" where
  "CanBind os network addr =
     (case os (if network = TCPServiceProtocolUDP then ''udp'' else ''tcp'') addr of
        None \<Rightarrow> None
      | Some e \<Rightarrow>
          if e = EACCES \<or> e = EPERM then Some ''listen_needs_capability''
          else if e = EADDRINUSE then Some ''listen_port_taken'' else Some ''cannot listen'')"

section \<open>An apply\<close>

record tcp_env =
  tv_go :: golib
  tv_getenv :: "string \<Rightarrow> string"
  tv_devMode :: bool
  tv_adminListen :: string

record tcp_sys =
  tc_db :: tcp_db
  tc_live :: "TCPService list"
  tc_pending :: "TCPService list list"
  tc_reg :: Registry

definition reservedTCPPorts :: "tcp_env \<Rightarrow> (int, string) gomap" where
  "reservedTCPPorts E = ReservedTCPPortsFor (tv_getenv E) (tv_devMode E) (tv_adminListen E)"

definition syncL4Registry :: "TCPService list \<Rightarrow> Registry \<Rightarrow> Registry" where
  "syncL4Registry services r =
     Sync (map (\<lambda>svc. \<lparr>sp_ID = ts_ID svc, sp_Datagram = (Network svc = TCPServiceProtocolUDP)\<rparr>)
             (filter (\<lambda>svc. \<not> ts_Disabled svc) services)) r"

text \<open>
  The services in \<open>applyLocked\<close>: they are listed and checked before anything is loaded, and the
  counters follow a load that succeeded. A load whose caller gave up may still come to its end;
  then the counters follow it as well.
\<close>

definition apply_services :: "tcp_env \<Rightarrow> reload_result \<Rightarrow> tcp_sys \<Rightarrow> tcp_sys \<times> bool" where
  "apply_services E R s =
     (case ListTCPServices (tc_db s) of
        Inl _ \<Rightarrow> (s, False)
      | Inr services \<Rightarrow>
          if ValidateTCPListen services (reservedTCPPorts E) \<noteq> None then (s, False)
          else case R of
                 Loaded \<Rightarrow> (s\<lparr>tc_live := services, tc_reg := syncL4Registry services (tc_reg s)\<rparr>, True)
               | Rejected \<Rightarrow> (s, False)
               | TimedOut \<Rightarrow> (s\<lparr>tc_pending := services # tc_pending s\<rparr>, False))"

definition late_services :: "nat \<Rightarrow> tcp_sys \<Rightarrow> tcp_sys" where
  "late_services i s =
     (if i < length (tc_pending s)
      then s\<lparr>tc_live := tc_pending s ! i, tc_pending := take i (tc_pending s) @ drop (Suc i) (tc_pending s),
              tc_reg := syncL4Registry (tc_pending s ! i) (tc_reg s)\<rparr> else s)"

section \<open>Handlers\<close>

record tcp_call =
  tl_now :: time
  tl_uuid :: string
  tl_os :: "string \<Rightarrow> string \<Rightarrow> listen_error option"
  tl_reload :: reload_result

record tcp_event =
  te_Action :: string
  te_TargetID :: string
  te_Before :: "TCPService option"
  te_After :: "TCPService option"

type_synonym tcp_answer = "tcp_sys \<times> int \<times> tcp_event list"

definition checkTCPListen :: "tcp_env \<Rightarrow> tcp_call \<Rightarrow> TCPService \<Rightarrow> string \<Rightarrow> tcp_db \<Rightarrow> error option" where
  "checkTCPListen E c svc excludeID b =
     (case TCPService_Validate (tv_go E) svc of
        Inl e \<Rightarrow> Some e
      | Inr t \<Rightarrow>
          (case ListTCPServices b of
             Inl _ \<Rightarrow> Some ''failed to load the existing TCP services''
           | Inr existing \<Rightarrow>
               (case ValidateTCPListen (filter (\<lambda>e. ts_ID e \<noteq> excludeID) existing @ [t]) (reservedTCPPorts E) of
                  Some e \<Rightarrow> Some e
                | None \<Rightarrow>
                    if ts_Disabled t then None
                    else if \<exists>e \<in> set existing. ts_ID e = excludeID \<and> \<not> ts_Disabled e \<and> ListenAddress e = ListenAddress t
                    then None
                    else CanBind (tl_os c) (Network t) (ListenHostPort t))))"

definition with_db :: "tcp_sys \<Rightarrow> tcp_db \<Rightarrow> tcp_sys" where
  "with_db s b = s\<lparr>tc_db := b\<rparr>"

definition listTCPServices :: "tcp_sys \<Rightarrow> int + TCPService list" where
  "listTCPServices s = (case ListTCPServices (tc_db s) of Inl _ \<Rightarrow> Inl 500 | Inr l \<Rightarrow> Inr l)"

definition tcpServicesMetrics :: "(int \<Rightarrow> string) \<Rightarrow> Registry option \<Rightarrow> (string, ServiceCounters) gomap" where
  "tcpServicesMetrics fmt reg = (case reg of None \<Rightarrow> [] | Some r \<Rightarrow> Snapshot fmt r)"

definition getTCPService :: "string \<Rightarrow> tcp_sys \<Rightarrow> int + TCPService" where
  "getTCPService k s =
     (case GetTCPService k (tc_db s) of Inl ErrNotFound \<Rightarrow> Inl 404 | Inl _ \<Rightarrow> Inl 500 | Inr svc \<Rightarrow> Inr svc)"

definition createTCPService :: "tcp_env \<Rightarrow> tcp_call \<Rightarrow> TCPService option \<Rightarrow> tcp_sys \<Rightarrow> tcp_answer" where
  "createTCPService E c body s =
     (case body of
        None \<Rightarrow> (s, 400, [])
      | Some svc0 \<Rightarrow>
          let svc = svc0\<lparr>ts_ID := []\<rparr>
          in if checkTCPListen E c svc [] (tc_db s) \<noteq> None then (s, 400, [])
             else case CreateTCPService (tv_go E) (tl_uuid c) (tl_now c) svc (tc_db s) of
                    (b, Inl _) \<Rightarrow> (with_db s b, 400, [])
                  | (b, Inr created) \<Rightarrow>
                      (case apply_services E (tl_reload c) (with_db s b) of
                         (s1, False) \<Rightarrow> (with_db s1 (fst (DeleteTCPService (ts_ID created) (tc_db s1))), 500, [])
                       | (s1, True) \<Rightarrow>
                           (s1, 201, [\<lparr>te_Action = ''tcp_service_created'', te_TargetID = ts_ID created, te_Before = None,
                                        te_After = Some created\<rparr>])))"

definition updateTCPService :: "tcp_env \<Rightarrow> tcp_call \<Rightarrow> string \<Rightarrow> TCPService option \<Rightarrow> tcp_sys \<Rightarrow> tcp_answer" where
  "updateTCPService E c k body s =
     (case getTCPService k s of
        Inl status \<Rightarrow> (s, status, [])
      | Inr previous \<Rightarrow>
          (case body of
             None \<Rightarrow> (s, 400, [])
           | Some svc0 \<Rightarrow>
               let svc = svc0\<lparr>ts_ID := k\<rparr>
               in if checkTCPListen E c svc k (tc_db s) \<noteq> None then (s, 400, [])
                  else case UpdateTCPService (tv_go E) (tl_now c) svc (tc_db s) of
                         (b, Inl ErrNotFound) \<Rightarrow> (with_db s b, 404, [])
                       | (b, Inl _) \<Rightarrow> (with_db s b, 400, [])
                       | (b, Inr updated) \<Rightarrow>
                           (case apply_services E (tl_reload c) (with_db s b) of
                              (s1, False) \<Rightarrow>
                                (with_db s1 (fst (UpdateTCPService (tv_go E) (tl_now c) previous (tc_db s1))), 500, [])
                            | (s1, True) \<Rightarrow>
                                (s1, 200, [\<lparr>te_Action = ''tcp_service_updated'', te_TargetID = k, te_Before = Some previous,
                                             te_After = Some updated\<rparr>]))))"

definition deleteTCPService :: "tcp_env \<Rightarrow> tcp_call \<Rightarrow> string \<Rightarrow> tcp_sys \<Rightarrow> tcp_answer" where
  "deleteTCPService E c k s =
     (case getTCPService k s of
        Inl status \<Rightarrow> (s, status, [])
      | Inr previous \<Rightarrow>
          (case DeleteTCPService k (tc_db s) of
             (b, Some _) \<Rightarrow> (with_db s b, 500, [])
           | (b, None) \<Rightarrow>
               (case apply_services E (tl_reload c) (with_db s b) of
                  (s1, False) \<Rightarrow>
                    (with_db s1 (fst (CreateTCPService (tv_go E) (tl_uuid c) (tl_now c) previous (tc_db s1))), 500, [])
                | (s1, True) \<Rightarrow>
                    (s1, 204, [\<lparr>te_Action = ''tcp_service_deleted'', te_TargetID = k, te_Before = Some previous,
                                 te_After = None\<rparr>]))))"

end
