(* ===== verification/TcpProps.thy ===== *)
theory TcpProps
  imports TcpRelay
begin

text \<open>
  What holds of the stored relays over every sequence of requests, and of a connection that meets
  the emitted routes. The invariant of the bucket is kept by every write a handler makes; the
  engine of Caddy enters through the locale \<open>l4_engine\<close>, interpreted on an engine that does what
  the locale asks.
\<close>

section \<open>The invariant of the bucket\<close>

definition row_ok :: "tcp_env \<Rightarrow> TCPService \<Rightarrow> bool" where
  "row_ok E v \<longleftrightarrow> service_ok (tv_go E) v \<and> (ts_Disabled v \<or> gm_get (reservedTCPPorts E) (ts_ListenPort v) = None)"

definition clash :: "TCPService \<Rightarrow> TCPService \<Rightarrow> bool" where
  "clash v v' \<longleftrightarrow> \<not> ts_Disabled v \<and> \<not> ts_Disabled v' \<and> ListenAddress v = ListenAddress v'"

definition tcp_ok :: "tcp_env \<Rightarrow> tcp_db \<Rightarrow> bool" where
  "tcp_ok E b \<longleftrightarrow> gm_wf b \<and> (\<forall>k v. gm_get b k = Some (Some v) \<longrightarrow> ts_ID v = k \<and> k \<noteq> [] \<and> row_ok E v) \<and>
     (\<forall>k k' v v'. gm_get b k = Some (Some v) \<longrightarrow> gm_get b k' = Some (Some v') \<longrightarrow> clash v v' \<longrightarrow> k = k')"

lemma tcp_okI:
  assumes "gm_wf b" and "\<And>k v. gm_get b k = Some (Some v) \<Longrightarrow> ts_ID v = k \<and> k \<noteq> [] \<and> row_ok E v"
    and "\<And>k k' v v'. gm_get b k = Some (Some v) \<Longrightarrow> gm_get b k' = Some (Some v') \<Longrightarrow> clash v v' \<Longrightarrow> k = k'"
  shows "tcp_ok E b"
  unfolding tcp_ok_def
proof (intro conjI allI)
  show "gm_wf b" by (rule assms(1))
  show "gm_get b k = Some (Some v) \<longrightarrow> ts_ID v = k \<and> k \<noteq> [] \<and> row_ok E v" for k v by (rule impI) (rule assms(2))
  show "gm_get b k = Some (Some v) \<longrightarrow> gm_get b k' = Some (Some v') \<longrightarrow> clash v v' \<longrightarrow> k = k'" for k k' v v'
    by (intro impI) (rule assms(3))
qed

lemma tcp_okD:
  assumes "tcp_ok E b"
  shows "gm_wf b" and "gm_get b k = Some (Some v) \<Longrightarrow> ts_ID v = k \<and> k \<noteq> [] \<and> row_ok E v"
    and "gm_get b k = Some (Some v) \<Longrightarrow> gm_get b k' = Some (Some v') \<Longrightarrow> clash v v' \<Longrightarrow> k = k'"
proof -
  show "gm_wf b" using assms by (simp add: tcp_ok_def)
  show "gm_get b k = Some (Some v) \<Longrightarrow> ts_ID v = k \<and> k \<noteq> [] \<and> row_ok E v" using assms by (simp add: tcp_ok_def)
  assume "gm_get b k = Some (Some v)" "gm_get b k' = Some (Some v')" "clash v v'"
  with conjunct2 [OF conjunct2 [OF assms [unfolded tcp_ok_def]]] show "k = k'" by blast
qed

text \<open>What a new row needs: it is acceptable and clashes with no other row.\<close>

definition fits :: "tcp_env \<Rightarrow> string \<Rightarrow> TCPService \<Rightarrow> tcp_db \<Rightarrow> bool" where
  "fits E k v b \<longleftrightarrow> row_ok E v \<and> (\<forall>k' v'. gm_get b k' = Some (Some v') \<longrightarrow> clash v' v \<longrightarrow> k' = k)"

lemma row_ok_update [simp]:
  "row_ok E (v\<lparr>ts_ID := i\<rparr>) = row_ok E v" "row_ok E (v\<lparr>ts_CreatedAt := c\<rparr>) = row_ok E v" "row_ok E (v\<lparr>ts_UpdatedAt := c\<rparr>) = row_ok E v"
  by (simp_all add: row_ok_def)

lemma clash_update [simp]:
  "clash u (v\<lparr>ts_ID := i\<rparr>) = clash u v" "clash u (v\<lparr>ts_CreatedAt := c\<rparr>) = clash u v" "clash u (v\<lparr>ts_UpdatedAt := c\<rparr>) = clash u v"
  by (simp_all add: clash_def)

lemma clash_sym: "clash u v = clash v u"
  by (auto simp: clash_def)

lemma fits_update [simp]:
  "fits E k (v\<lparr>ts_ID := i\<rparr>) b = fits E k v b" "fits E k (v\<lparr>ts_CreatedAt := c\<rparr>) b = fits E k v b"
  "fits E k (v\<lparr>ts_UpdatedAt := c\<rparr>) b = fits E k v b"
  by (simp_all add: fits_def)

lemma fits_put [simp]: "fits E k v (gm_put k x b) = fits E k v b"
  unfolding fits_def gm_get_put by metis

lemma fits_del [simp]: "fits E k v (gm_del k b) = fits E k v b"
  unfolding fits_def gm_get_del by (metis option.distinct(1))

lemma stored_fits:
  assumes "tcp_ok E b" and "gm_get b k = Some (Some v)"
  shows "fits E k v b"
  using tcp_okD(2) [OF assms] tcp_okD(3) [OF assms(1) _ assms(2)] by (simp add: fits_def)

text \<open>The row can move to a key that is free once its own key is.\<close>

lemma fits_move: "fits E k v b \<Longrightarrow> fits E u v (gm_del k b)"
  unfolding fits_def gm_get_del by (metis option.distinct(1))

lemma tcp_ok_put:
  assumes "tcp_ok E b" and "fits E k v b" and "ts_ID v = k" and "k \<noteq> []"
  shows "tcp_ok E (gm_put k (Some v) b)"
proof (rule tcp_okI)
  note ok = tcp_okD [OF assms(1)]
  have f: "row_ok E v" "\<And>j w. gm_get b j = Some (Some w) \<Longrightarrow> clash w v \<Longrightarrow> j = k"
    using assms(2) by (simp_all add: fits_def)
  show "gm_wf (gm_put k (Some v) b)" using ok(1) by simp
  show "ts_ID u = i \<and> i \<noteq> [] \<and> row_ok E u" if "gm_get (gm_put k (Some v) b) i = Some (Some u)" for i u
    using that ok(2) [of i u] assms(3,4) f(1) by (simp split: if_splits)
  show "i = j" if "gm_get (gm_put k (Some v) b) i = Some (Some u)" "gm_get (gm_put k (Some v) b) j = Some (Some w)"
    "clash u w" for i j u w
    using that ok(3) [of i u j w] f(2) [of i u] f(2) [of j w] clash_sym [of u w] by (simp split: if_splits)
qed

lemma tcp_ok_del:
  assumes "tcp_ok E b"
  shows "tcp_ok E (gm_del k b)"
proof (rule tcp_okI)
  note ok = tcp_okD [OF assms]
  show "gm_wf (gm_del k b)" using ok(1) by simp
  show "ts_ID u = i \<and> i \<noteq> [] \<and> row_ok E u" if "gm_get (gm_del k b) i = Some (Some u)" for i u
    using that ok(2) [of i u] by (simp split: if_splits)
  show "i = j" if "gm_get (gm_del k b) i = Some (Some u)" "gm_get (gm_del k b) j = Some (Some w)" "clash u w" for i j u w
    using that ok(3) [of i u j w] by (simp split: if_splits)
qed

section \<open>The checks\<close>

lemma conflict_scan_None:
  "conflict_scan seen l = None \<longleftrightarrow>
     distinct (map ListenAddress (filter (\<lambda>s. \<not> ts_Disabled s) l)) \<and>
     set seen \<inter> ListenAddress ` set (filter (\<lambda>s. \<not> ts_Disabled s) l) = {}"
  by (induction seen l rule: conflict_scan.induct) auto

lemma ValidateTCPListen_None:
  "ValidateTCPListen l reserved = None \<longleftrightarrow>
     (\<forall>s \<in> set l. ts_Disabled s \<or> gm_get reserved (ts_ListenPort s) = None) \<and>
     distinct (map ListenAddress (filter (\<lambda>s. \<not> ts_Disabled s) l))"
  by (auto simp: ValidateTCPListen_def l4ListenConflicts_def conflict_scan_None)

lemma List_set:
  "gm_wf b \<Longrightarrow> ListTCPServices b = Inr l \<Longrightarrow> v \<in> set l \<longleftrightarrow> (\<exists>k. gm_get b k = Some (Some v))"
  by (auto simp: ListTCPServices_def bucket_list_set split: sum.splits)

lemma checkTCPListen_fits:
  assumes "checkTCPListen E c svc k b = None" and "tcp_ok E b"
  shows "fits E k (trim_service svc) b"
proof -
  let ?t = "trim_service svc"
  note ok = tcp_okD [OF assms(2)]
  obtain l where t: "service_ok (tv_go E) ?t" and l: "ListTCPServices b = Inr l"
    and V: "ValidateTCPListen (filter (\<lambda>e. ts_ID e \<noteq> k) l @ [?t]) (reservedTCPPorts E) = None"
    using assms(1) by (auto simp: checkTCPListen_def Validate_Inr split: sum.splits option.splits)
  have free: "i = k" if "gm_get b i = Some (Some v)" "clash v ?t" for i v
  proof (rule ccontr)
    assume "i \<noteq> k"
    moreover have "v \<in> set l" using that(1) List_set [OF ok(1) l] by blast
    moreover have "ts_ID v = i" using that(1) ok(2) by blast
    ultimately have "ListenAddress v \<noteq> ListenAddress ?t"
      using V that(2) unfolding ValidateTCPListen_None clash_def by (auto simp: image_iff)
    with that(2) show False by (simp add: clash_def)
  qed
  have "row_ok E ?t" using t V unfolding ValidateTCPListen_None row_ok_def by simp
  with free show ?thesis by (simp add: fits_def)
qed

section \<open>The handlers\<close>

lemma with_db_simps [simp]:
  "tc_db (with_db s b) = b" "tc_live (with_db s b) = tc_live s" "tc_pending (with_db s b) = tc_pending s"
  by (simp_all add: with_db_def)

lemma apply_db [simp]: "tc_db (fst (apply_services E R s)) = tc_db s"
  by (simp add: apply_services_def split: sum.splits reload_result.splits)

lemma trim_service_ID [simp]: "ts_ID (trim_service svc) = ts_ID svc"
  by (simp add: trim_service_def)

text \<open>Writing an accepted row back.\<close>

lemma Update_stored:
  assumes "service_ok L v" and "ts_ID v = k" and "k \<noteq> []" and "gm_get b k = Some (Some old)"
  shows "fst (UpdateTCPService L now v b) = gm_put k (Some (v\<lparr>ts_UpdatedAt := now, ts_CreatedAt := ts_CreatedAt old\<rparr>)) b"
  using assms by (simp add: UpdateTCPService_def Let_def bucket_get_def)

lemma Create_stored:
  "service_ok L v \<Longrightarrow>
     fst (CreateTCPService L u now v b) = gm_put u (Some (v\<lparr>ts_ID := u, ts_CreatedAt := now, ts_UpdatedAt := now\<rparr>)) b"
  by (simp add: CreateTCPService_def Let_def)

lemma Delete_stored: "k \<noteq> [] \<Longrightarrow> gm_get b k = Some x \<Longrightarrow> DeleteTCPService k b = (gm_del k b, None)"
  by (simp add: DeleteTCPService_def bucket_delete_def)

lemma getTCPService_Inr: "getTCPService k s = Inr v \<longleftrightarrow> k \<noteq> [] \<and> gm_get (tc_db s) k = Some (Some v)"
  by (auto simp: getTCPService_def GetTCPService_def bucket_get_def split: sum.splits store_error.splits option.splits)

text \<open>What an apply loads is what the bucket lists.\<close>

lemma apply_services_cases:
  obtains (kept) "snd (apply_services E R s) = False" "tc_live (fst (apply_services E R s)) = tc_live s"
      "tc_pending (fst (apply_services E R s)) = tc_pending s"
  | (loaded) l where "ListTCPServices (tc_db s) = Inr l" "snd (apply_services E R s) = True"
      "tc_live (fst (apply_services E R s)) = l" "tc_pending (fst (apply_services E R s)) = tc_pending s"
  | (given_up) l where "ListTCPServices (tc_db s) = Inr l" "snd (apply_services E R s) = False"
      "tc_live (fst (apply_services E R s)) = tc_live s" "tc_pending (fst (apply_services E R s)) = l # tc_pending s"
proof (cases "ListTCPServices (tc_db s)")
  case (Inl e)
  then show ?thesis by (intro kept) (simp_all add: apply_services_def)
next
  case (Inr l)
  show ?thesis
  proof (cases "ValidateTCPListen l (reservedTCPPorts E) = None")
    case True
    with Inr show ?thesis
      by (cases R) (rule loaded, (simp add: apply_services_def)+, rule kept, (simp add: apply_services_def)+,
        rule given_up, (simp add: apply_services_def)+)
  next
    case False
    with Inr show ?thesis by (intro kept) (simp_all add: apply_services_def)
  qed
qed

definition services_ok :: "tcp_env \<Rightarrow> TCPService list \<Rightarrow> bool" where
  "services_ok E l \<longleftrightarrow> (\<forall>v \<in> set l. row_ok E v \<and> ts_ID v \<noteq> []) \<and> (\<forall>v \<in> set l. \<forall>v' \<in> set l. clash v v' \<or> ts_ID v = ts_ID v' \<longrightarrow> v = v')"

lemma services_ok_Nil [simp]: "services_ok E []"
  by (simp add: services_ok_def)

lemma List_ok:
  assumes "tcp_ok E b" and "ListTCPServices b = Inr l"
  shows "services_ok E l"
  unfolding services_ok_def
proof (intro conjI ballI impI)
  note ok = tcp_okD [OF assms(1)] and mem = List_set [OF tcp_okD(1) [OF assms(1)] assms(2)]
  show "row_ok E v" "ts_ID v \<noteq> []" if "v \<in> set l" for v using that mem ok(2) by blast+
  show "v = v'" if "v \<in> set l" "v' \<in> set l" "clash v v' \<or> ts_ID v = ts_ID v'" for v v'
  proof -
    from that(1,2) obtain k k' where k: "gm_get b k = Some (Some v)" "gm_get b k' = Some (Some v')" unfolding mem by blast
    with ok(2,3) that(3) have "k = k'" by blast
    with k show ?thesis by simp
  qed
qed

definition sys_ok :: "tcp_env \<Rightarrow> tcp_sys \<Rightarrow> bool" where
  "sys_ok E s \<longleftrightarrow> tcp_ok E (tc_db s) \<and> services_ok E (tc_live s) \<and> (\<forall>l \<in> set (tc_pending s). services_ok E l)"

lemma sys_ok_apply:
  assumes "sys_ok E s" and "tcp_ok E b"
  shows "sys_ok E (fst (apply_services E R (with_db s b)))"
  using assms List_ok [OF assms(2)]
  by (cases rule: apply_services_cases [of E R "with_db s b"]) (auto simp: sys_ok_def)

lemma sys_ok_with_db: "sys_ok E s \<Longrightarrow> tcp_ok E b \<Longrightarrow> sys_ok E (with_db s b)"
  by (simp add: sys_ok_def)

section \<open>Requests\<close>

lemma fits_anywhere:
  assumes "tcp_ok E b" and "fits E [] v b"
  shows "fits E u v b"
  using assms(2) tcp_okD(2) [OF assms(1)] unfolding fits_def by blast

text \<open>The end of a request: an apply, and a rollback when it failed.\<close>

lemma apply_or_rollback:
  assumes "sys_ok E s" and "tcp_ok E b" and "tcp_ok E b'"
  shows "sys_ok E (fst (case apply_services E R (with_db s b) of
      (s1, False) \<Rightarrow> (with_db s1 b', st, evs) | (s1, True) \<Rightarrow> (s1, st', evs')))"
  using sys_ok_apply [OF assms(1,2), of R] sys_ok_with_db [OF _ assms(3)]
  by (auto simp: case_prod_beta split: bool.split)

lemma create_keeps_ok:
  assumes "sys_ok E s" and "tl_uuid c \<noteq> []"
  shows "sys_ok E (fst (createTCPService E c body s))"
proof (cases body)
  case None
  with assms show ?thesis by (simp add: createTCPService_def)
next
  case (Some svc0)
  define svc where "svc = svc0\<lparr>ts_ID := []\<rparr>"
  have db: "tcp_ok E (tc_db s)" using assms(1) by (simp add: sys_ok_def)
  show ?thesis
  proof (cases "checkTCPListen E c svc [] (tc_db s)")
    case None
    have f: "fits E (tl_uuid c) (trim_service svc) (tc_db s)"
      by (rule fits_anywhere [OF db checkTCPListen_fits [OF None db]])
    let ?row = "(trim_service svc)\<lparr>ts_ID := tl_uuid c, ts_CreatedAt := tl_now c, ts_UpdatedAt := tl_now c\<rparr>"
    let ?b = "gm_put (tl_uuid c) (Some ?row) (tc_db s)"
    have ok: "service_ok (tv_go E) (trim_service svc)" using f by (simp add: fits_def row_ok_def)
    then have C: "CreateTCPService (tv_go E) (tl_uuid c) (tl_now c) svc (tc_db s) = (?b, Inr ?row)"
      by (simp add: CreateTCPService_def TCPService_Validate_def service_ok_def Let_def)
    have b: "tcp_ok E ?b" by (rule tcp_ok_put [OF db]) (use f assms(2) in simp_all)
    have d: "fst (DeleteTCPService (tl_uuid c) ?b) = gm_del (tl_uuid c) ?b"
      using Delete_stored [of "tl_uuid c" ?b] assms(2) by simp
    have "createTCPService E c body s =
      (case apply_services E (tl_reload c) (with_db s ?b) of
         (s1, False) \<Rightarrow> (with_db s1 (gm_del (tl_uuid c) ?b), 500, [])
       | (s1, True) \<Rightarrow> (s1, 201, [\<lparr>te_Action = ''tcp_service_created'', te_TargetID = tl_uuid c, te_Before = None, te_After = Some ?row\<rparr>]))"
      using apply_db [of E "tl_reload c" "with_db s ?b"]
      unfolding createTCPService_def Some option.case Let_def svc_def [symmetric] C
      by (auto simp: None d case_prod_beta split: bool.split)
    then show ?thesis using apply_or_rollback [OF assms(1) b tcp_ok_del [OF b]] by simp
  qed (use Some svc_def assms(1) in \<open>simp add: createTCPService_def Let_def\<close>)
qed

lemma update_keeps_ok:
  assumes "sys_ok E s"
  shows "sys_ok E (fst (updateTCPService E c k body s))"
proof (cases "getTCPService k s")
  case (Inl st)
  with assms show ?thesis by (simp add: updateTCPService_def)
next
  case (Inr previous)
  then have k: "k \<noteq> []" and prev: "gm_get (tc_db s) k = Some (Some previous)" by (simp_all add: getTCPService_Inr)
  have db: "tcp_ok E (tc_db s)" using assms by (simp add: sys_ok_def)
  note p = stored_fits [OF db prev] and idp = tcp_okD(2) [OF db prev]
  show ?thesis
  proof (cases body)
    case None
    with Inr assms show ?thesis by (simp add: updateTCPService_def)
  next
    case (Some svc0)
    define svc where "svc = svc0\<lparr>ts_ID := k\<rparr>"
    have idk: "ts_ID svc = k" by (simp add: svc_def)
    show ?thesis
    proof (cases "checkTCPListen E c svc k (tc_db s)")
      case None
      have f: "fits E k (trim_service svc) (tc_db s)" by (rule checkTCPListen_fits [OF None db])
      let ?row = "(trim_service svc)\<lparr>ts_UpdatedAt := tl_now c, ts_CreatedAt := ts_CreatedAt previous\<rparr>"
      let ?b = "gm_put k (Some ?row) (tc_db s)"
      let ?undo = "gm_put k (Some (previous\<lparr>ts_UpdatedAt := tl_now c, ts_CreatedAt := ts_CreatedAt ?row\<rparr>)) ?b"
      have ok: "service_ok (tv_go E) (trim_service svc)" using f by (simp add: fits_def row_ok_def)
      then have U: "UpdateTCPService (tv_go E) (tl_now c) svc (tc_db s) = (?b, Inr ?row)"
        using k idk prev by (simp add: UpdateTCPService_def TCPService_Validate_def service_ok_def bucket_get_def Let_def)
      have b: "tcp_ok E ?b" by (rule tcp_ok_put [OF db]) (use f k idk in simp_all)
      have undone: "tcp_ok E ?undo" by (rule tcp_ok_put [OF b]) (use p k idp in simp_all)
      have r: "fst (UpdateTCPService (tv_go E) (tl_now c) previous ?b) = ?undo"
        by (rule Update_stored) (use idp k in \<open>simp_all add: row_ok_def\<close>)
      have "updateTCPService E c k body s =
        (case apply_services E (tl_reload c) (with_db s ?b) of
           (s1, False) \<Rightarrow> (with_db s1 ?undo, 500, [])
         | (s1, True) \<Rightarrow> (s1, 200, [\<lparr>te_Action = ''tcp_service_updated'', te_TargetID = k, te_Before = Some previous, te_After = Some ?row\<rparr>]))"
        using apply_db [of E "tl_reload c" "with_db s ?b"]
        unfolding updateTCPService_def Inr Some option.case sum.case Let_def svc_def [symmetric] U
        by (auto simp: None r case_prod_beta split: bool.split)
      then show ?thesis using apply_or_rollback [OF assms b undone] by simp
    qed (use Inr Some svc_def assms in \<open>simp add: updateTCPService_def Let_def\<close>)
  qed
qed

lemma delete_eq:
  assumes "tcp_ok E (tc_db s)" and "getTCPService k s = Inr previous"
  shows "deleteTCPService E c k s =
    (case apply_services E (tl_reload c) (with_db s (gm_del k (tc_db s))) of
       (s1, False) \<Rightarrow>
         (with_db s1 (gm_put (tl_uuid c) (Some (previous\<lparr>ts_ID := tl_uuid c, ts_CreatedAt := tl_now c, ts_UpdatedAt := tl_now c\<rparr>))
            (gm_del k (tc_db s))), 500, [])
     | (s1, True) \<Rightarrow>
         (s1, 204, [\<lparr>te_Action = ''tcp_service_deleted'', te_TargetID = k, te_Before = Some previous, te_After = None\<rparr>]))"
proof -
  have k: "k \<noteq> []" and prev: "gm_get (tc_db s) k = Some (Some previous)" using assms(2) by (simp_all add: getTCPService_Inr)
  note D = Delete_stored [OF k prev]
  have "service_ok (tv_go E) previous" using tcp_okD(2) [OF assms(1) prev] by (simp add: row_ok_def)
  note r = Create_stored [OF this]
  show ?thesis
    using apply_db [of E "tl_reload c" "with_db s (gm_del k (tc_db s))"]
    unfolding deleteTCPService_def assms(2) sum.case D
    by (auto simp: r case_prod_beta split: bool.split)
qed

lemma delete_keeps_ok:
  assumes "sys_ok E s" and "tl_uuid c \<noteq> []"
  shows "sys_ok E (fst (deleteTCPService E c k s))"
proof (cases "getTCPService k s")
  case (Inl st)
  with assms show ?thesis by (simp add: deleteTCPService_def)
next
  case (Inr previous)
  then have prev: "gm_get (tc_db s) k = Some (Some previous)" by (simp add: getTCPService_Inr)
  have db: "tcp_ok E (tc_db s)" using assms by (simp add: sys_ok_def)
  let ?d = "gm_del k (tc_db s)"
  have d: "tcp_ok E ?d" by (rule tcp_ok_del [OF db])
  let ?row = "previous\<lparr>ts_ID := tl_uuid c, ts_CreatedAt := tl_now c, ts_UpdatedAt := tl_now c\<rparr>"
  have "fits E (tl_uuid c) ?row ?d" using fits_move [OF stored_fits [OF db prev]] by simp
  then have undone: "tcp_ok E (gm_put (tl_uuid c) (Some ?row) ?d)" by (rule tcp_ok_put [OF d]) (use assms(2) in simp_all)
  show ?thesis using apply_or_rollback [OF assms(1) d undone] by (simp add: delete_eq [OF db Inr])
qed

section \<open>Runs\<close>

text \<open>A request, or the end of a load whose caller gave up. \<open>uuid.NewString\<close> is never empty.\<close>

inductive tcp_step :: "tcp_env \<Rightarrow> tcp_sys \<Rightarrow> tcp_sys \<Rightarrow> bool" for E :: tcp_env where
  step_create: "tl_uuid c \<noteq> [] \<Longrightarrow> tcp_step E s (fst (createTCPService E c body s))"
| step_update: "tcp_step E s (fst (updateTCPService E c k body s))"
| step_delete: "tl_uuid c \<noteq> [] \<Longrightarrow> tcp_step E s (fst (deleteTCPService E c k s))"
| step_late: "tcp_step E s (late_services i s)"

definition no_services :: tcp_sys where
  "no_services = \<lparr>tc_db = [], tc_live = [], tc_pending = [], tc_reg = NewRegistry\<rparr>"

lemma sys_ok_step: "tcp_step E s s' \<Longrightarrow> sys_ok E s \<Longrightarrow> sys_ok E s'"
proof (induction rule: tcp_step.induct)
  case (step_late s i)
  then show ?case by (auto simp: sys_ok_def late_services_def dest: in_set_takeD in_set_dropD)
qed (simp_all add: create_keeps_ok update_keeps_ok delete_keeps_ok)

lemma sys_ok_reachable:
  assumes "(tcp_step E)\<^sup>*\<^sup>* no_services s"
  shows "sys_ok E s"
  using assms
proof (induction rule: rtranclp_induct)
  case base
  then show ?case by (simp add: sys_ok_def no_services_def tcp_ok_def)
qed (rule sys_ok_step)

definition own_ports :: "tcp_env \<Rightarrow> int set" where
  "own_ports E =
     {2019, httpPortFor (tv_getenv E) (tv_devMode E), httpsPortFor (tv_getenv E) (tv_devMode E)} \<union>
     {p. \<exists>host port. splitHostPort (tv_adminListen E) = Some (host, port) \<and> atoi port = Some p}"

definition accepted :: "tcp_env \<Rightarrow> TCPService \<Rightarrow> bool" where
  "accepted E v \<longleftrightarrow> TCPService_Validate (tv_go E) v = Inr v \<and> (ts_Disabled v \<or> ts_ListenPort v \<notin> own_ports E)"

lemma row_ok_accepted: "row_ok E v \<Longrightarrow> accepted E v"
  by (auto simp: row_ok_def accepted_def own_ports_def reservedTCPPorts_def ReservedTCPPortsFor_def ReservedTCPPorts_def Let_def
      split: if_splits)

text \<open>
  C18: Over every sequence of requests, with any outcome of the reloads and every rollback, the
  relays stay sound: a stored row is under its own identifier and would be accepted again, no
  enabled relay listens on a port of the proxy itself, and no two enabled relays listen on the
  same network, address and port. The same holds of the relays Caddy runs, also after a load that
  was given up came to its end.
\<close>

theorem relays_never_share_a_socket:
  assumes "(tcp_step E)\<^sup>*\<^sup>* no_services s"
  shows "(\<forall>k v. gm_get (tc_db s) k = Some (Some v) \<longrightarrow> ts_ID v = k \<and> accepted E v) \<and>
    (\<forall>k k' v v'. gm_get (tc_db s) k = Some (Some v) \<longrightarrow> gm_get (tc_db s) k' = Some (Some v') \<longrightarrow>
       \<not> ts_Disabled v \<longrightarrow> \<not> ts_Disabled v' \<longrightarrow> ListenAddress v = ListenAddress v' \<longrightarrow> k = k') \<and>
    (\<forall>v \<in> set (tc_live s). accepted E v) \<and>
    (\<forall>v \<in> set (tc_live s). \<forall>v' \<in> set (tc_live s).
       \<not> ts_Disabled v \<longrightarrow> \<not> ts_Disabled v' \<longrightarrow> ListenAddress v = ListenAddress v' \<longrightarrow> v = v')"
proof (intro conjI allI impI ballI)
  have ok: "tcp_ok E (tc_db s)" "services_ok E (tc_live s)" using sys_ok_reachable [OF assms] by (simp_all add: sys_ok_def)
  show "ts_ID v = k" "accepted E v" if "gm_get (tc_db s) k = Some (Some v)" for k v
    using tcp_okD(2) [OF ok(1) that] row_ok_accepted by simp_all
  show "k = k'" if "gm_get (tc_db s) k = Some (Some v)" "gm_get (tc_db s) k' = Some (Some v')"
    "\<not> ts_Disabled v" "\<not> ts_Disabled v'" "ListenAddress v = ListenAddress v'" for k k' v v'
    by (rule tcp_okD(3) [OF ok(1) that(1,2)]) (use that in \<open>simp add: clash_def\<close>)
  show "accepted E v" if "v \<in> set (tc_live s)" for v
    using that ok(2) row_ok_accepted by (simp add: services_ok_def)
  show "v = v'" if "v \<in> set (tc_live s)" "v' \<in> set (tc_live s)" "\<not> ts_Disabled v" "\<not> ts_Disabled v'"
    "ListenAddress v = ListenAddress v'" for v v'
    using that ok(2) unfolding services_ok_def clash_def by blast
qed

text \<open>
  C39: A delete whose reload fails does not restore the relay it removed: the rollback creates it
  anew, so it comes back under a fresh identifier and with the time of the delete as its creation
  time. The old identifier, under which Caddy still runs the relay and counts its connections, is
  gone, and no audit event tells.
\<close>

theorem failed_delete_changes_identity:
  assumes "(tcp_step E)\<^sup>*\<^sup>* no_services s" and "getTCPService k s = Inr v"
    and "tl_uuid c \<noteq> []" and "tl_uuid c \<noteq> k" and "deleteTCPService E c k s = (s', st, evs)" and "st \<noteq> 204"
  shows "st = 500 \<and> evs = [] \<and> getTCPService k s' = Inl 404 \<and>
    getTCPService (tl_uuid c) s' = Inr (v\<lparr>ts_ID := tl_uuid c, ts_CreatedAt := tl_now c, ts_UpdatedAt := tl_now c\<rparr>) \<and>
    tc_live s' = tc_live s"
proof -
  have ok: "tcp_ok E (tc_db s)" using sys_ok_reachable [OF assms(1)] by (simp add: sys_ok_def)
  let ?d = "gm_del k (tc_db s)"
  let ?b = "gm_put (tl_uuid c) (Some (v\<lparr>ts_ID := tl_uuid c, ts_CreatedAt := tl_now c, ts_UpdatedAt := tl_now c\<rparr>)) ?d"
  obtain s1 where A: "apply_services E (tl_reload c) (with_db s ?d) = (s1, False)"
    and eq: "s' = with_db s1 ?b" "st = 500" "evs = []"
    using assms(5,6) unfolding delete_eq [OF ok assms(2)]
    by (auto simp: case_prod_beta split: bool.splits) (metis prod.collapse)+
  have live: "tc_live s1 = tc_live s"
    by (cases rule: apply_services_cases [of E "tl_reload c" "with_db s ?d"]) (use A in simp_all)
  have "getTCPService k s' = Inl 404" using assms(2,4) eq(1)
    by (simp add: getTCPService_Inr) (simp add: getTCPService_def GetTCPService_def bucket_get_def)
  with eq live assms(3) show ?thesis by (simp add: getTCPService_Inr)
qed

section \<open>Connections\<close>

text \<open>
  The layer-4 engine of Caddy: its matchers, and the handlers it runs for a connection. The locale
  has what the emitter relies on: the first route whose matchers accept the connection handles it,
  and a connection that matches nothing is dropped.
\<close>

record 'c l4_caddy =
  le_remote_ip :: "string list \<Rightarrow> 'c \<Rightarrow> bool"
  le_crowdsec :: "'c \<Rightarrow> bool"
  le_protocol :: "string \<Rightarrow> 'c \<Rightarrow> bool"
  le_chain :: "l4_route list \<Rightarrow> 'c \<Rightarrow> l4_handler list"

fun l4_matches :: "'c l4_caddy \<Rightarrow> l4_matcher \<Rightarrow> 'c \<Rightarrow> bool" where
  "l4_matches C (L4RemoteIP ranges) q = le_remote_ip C ranges q"
| "l4_matches C L4CrowdSec q = le_crowdsec C q"
| "l4_matches C (L4Protocol p _) q = le_protocol C p q"
| "l4_matches C (L4Not m) q = (\<not> l4_matches C m q)"

definition l4_accepts :: "'c l4_caddy \<Rightarrow> l4_route \<Rightarrow> 'c \<Rightarrow> bool" where
  "l4_accepts C rt q \<longleftrightarrow> lr_match rt = [] \<or> (\<exists>m \<in> set (lr_match rt). l4_matches C m q)"

locale l4_engine =
  fixes C :: "'c l4_caddy"
  assumes chain_Nil: "le_chain C [] q = []"
    and chain_Cons: "le_chain C (rt # rts) q = (if l4_accepts C rt q then lr_handle rt else le_chain C rts q)"
begin

lemma chain_refusal:
  "le_chain C (l4RefusalRoute i cause m # rts) q =
     (if l4_matches C m q then [L4Metrics i cause, L4Close] else le_chain C rts q)"
  by (simp add: chain_Cons l4RefusalRoute_def l4_accepts_def)

lemma chain_relay: "le_chain C [\<lparr>lr_match = [], lr_handle = hs\<rparr>] q = hs"
  by (simp add: chain_Cons l4_accepts_def)

end

datatype l4_end = L4Dropped | L4Closed | L4Relayed l4_proxy

text \<open>The metrics handler up to the call of the next one, on an installed registry.\<close>

definition Handle :: "time \<Rightarrow> string \<Rightarrow> string \<Rightarrow> Registry \<Rightarrow> Registry" where
  "Handle now serviceID cause r =
     (if serviceID = [] then r else if cause \<noteq> [] then Refused serviceID cause r else Opened now serviceID r)"

fun run_chain :: "time \<Rightarrow> l4_handler list \<Rightarrow> Registry \<Rightarrow> Registry \<times> l4_end" where
  "run_chain now [] r = (r, L4Dropped)"
| "run_chain now (L4Metrics i cause # hs) r = run_chain now hs (Handle now i cause r)"
| "run_chain now (L4Close # hs) r = (r, L4Closed)"
| "run_chain now (L4Proxy p # hs) r = (r, L4Relayed p)"

definition meet :: "'c l4_caddy \<Rightarrow> time \<Rightarrow> l4_server \<Rightarrow> 'c \<Rightarrow> Registry \<Rightarrow> Registry \<times> l4_end" where
  "meet C now srv q r = run_chain now (le_chain C (lv_routes srv) q) r"

text \<open>What the operator asked for: the first gate that refuses a connection.\<close>

definition filter_refuses :: "'c l4_caddy \<Rightarrow> TCPService \<Rightarrow> 'c \<Rightarrow> bool" where
  "filter_refuses C v q \<longleftrightarrow>
     (\<exists>f. ts_IPFilter v = Some f \<and> IsActive f \<and> le_remote_ip C (ipf_CIDRs f) q = (ipf_Mode f = ''deny''))"

definition refusal :: "'c l4_caddy \<Rightarrow> bool \<Rightarrow> TCPService \<Rightarrow> 'c \<Rightarrow> string option" where
  "refusal C crowdSec v q =
     (if filter_refuses C v q then Some CauseIPFilter
      else if crowdSec \<and> ts_CrowdSecEnabled v \<and> \<not> le_crowdsec C q then Some CauseCrowdSec
      else if ts_AcceptProtocol v \<noteq> [] \<and> \<not> le_protocol C (ts_AcceptProtocol v) q then Some CauseProtocol
      else None)"

definition servers_of :: "TCPService list \<Rightarrow> bool \<Rightarrow> (string, l4_server) gomap" where
  "servers_of l crowdSec = (case buildLayer4App l crowdSec of None \<Rightarrow> [] | Some m \<Rightarrow> m)"

definition server_for :: "bool \<Rightarrow> TCPService \<Rightarrow> l4_server" where
  "server_for crowdSec v = \<lparr>lv_listen = [ListenAddress v], lv_routes = buildLayer4Routes v crowdSec\<rparr>"

lemma servers_fold:
  "gm_get (fold (\<lambda>v m. if ts_Disabled v then m else gm_put (l4ServerName v) (server_for cs v) m) l m0) n =
     (case find (\<lambda>v. \<not> ts_Disabled v \<and> l4ServerName v = n) (rev l) of None \<Rightarrow> gm_get m0 n | Some v \<Rightarrow> Some (server_for cs v))"
proof (induction l rule: rev_induct)
  case (snoc x xs)
  then show ?case by (auto split: option.splits)
qed simp

lemma servers_of_get:
  "gm_get (servers_of l cs) n =
     map_option (server_for cs) (find (\<lambda>v. \<not> ts_Disabled v \<and> l4ServerName v = n) (rev l))"
proof -
  have "servers_of l cs = fold (\<lambda>v m. if ts_Disabled v then m else gm_put (l4ServerName v) (server_for cs v) m) l []"
    unfolding servers_of_def buildLayer4App_def server_for_def Let_def by simp
  then show ?thesis
    using servers_fold [of cs l "[]" n] by (cases "find (\<lambda>v. \<not> ts_Disabled v \<and> l4ServerName v = n) (rev l)") simp_all
qed

lemma service_ok_filter: "service_ok L v \<Longrightarrow> ts_IPFilter v = Some f \<Longrightarrow> IsActive f \<Longrightarrow> ipf_CIDRs f \<noteq> []"
  by (auto simp: service_ok_def check_service_def IPFilter_Validate_def)

context l4_engine
begin

lemma chain_filter:
  assumes "service_ok L v"
  shows "le_chain C (filter_routes v @ rts) q =
    (if filter_refuses C v q then [L4Metrics (ts_ID v) CauseIPFilter, L4Close] else le_chain C rts q)"
proof (cases "ts_IPFilter v")
  case None
  then show ?thesis by (simp add: filter_routes_def filter_refuses_def)
next
  case (Some f)
  then show ?thesis using service_ok_filter [OF assms Some]
    by (auto simp: filter_routes_def filter_refuses_def IsActive_def l4Not_def chain_refusal)
qed

lemma chain_gates:
  assumes "service_ok L v"
  shows "le_chain C (buildLayer4Routes v cs) q =
    (case refusal C cs v q of
       Some cause \<Rightarrow> [L4Metrics (ts_ID v) cause, L4Close]
     | None \<Rightarrow> [L4Metrics (ts_ID v) [], L4Proxy (buildLayer4Proxy v)])"
  unfolding buildLayer4Routes_def chain_filter [OF assms]
  by (simp add: refusal_def chain_refusal chain_relay l4Not_def l4ProtocolMatcher_def)

lemma meet_gates:
  assumes "service_ok L v" and "ts_ID v \<noteq> []"
  shows "meet C now (server_for cs v) q r =
    (case refusal C cs v q of
       Some cause \<Rightarrow> (Refused (ts_ID v) cause r, L4Closed)
     | None \<Rightarrow> (Opened now (ts_ID v) r, L4Relayed (buildLayer4Proxy v)))"
  using assms(2) unfolding meet_def server_for_def l4_server.select_convs chain_gates [OF assms(1)]
  by (auto simp: Handle_def refusal_def CauseIPFilter_def CauseCrowdSec_def CauseProtocol_def)

end

lemma live_server:
  assumes "services_ok E l" and "v \<in> set l" and "\<not> ts_Disabled v"
  shows "gm_get (servers_of l cs) (l4ServerName v) = Some (server_for cs v)"
proof -
  have "find (\<lambda>u. \<not> ts_Disabled u \<and> l4ServerName u = l4ServerName v) (rev l) \<noteq> None"
    using assms(2,3) by (auto simp: find_None_iff)
  then obtain u where u: "find (\<lambda>u. \<not> ts_Disabled u \<and> l4ServerName u = l4ServerName v) (rev l) = Some u" by blast
  from find_rev_Some [OF this] have "u \<in> set l" "ts_ID u = ts_ID v" by (simp_all add: l4ServerName_def)
  with assms(1,2) have "u = v" by (simp add: services_ok_def)
  with u show ?thesis by (simp add: servers_of_get)
qed

lemma server_is_live:
  assumes "gm_get (servers_of l cs) n = Some srv"
  obtains v where "v \<in> set l" "\<not> ts_Disabled v" "n = l4ServerName v" "srv = server_for cs v"
proof -
  obtain v where v: "find (\<lambda>v. \<not> ts_Disabled v \<and> l4ServerName v = n) (rev l) = Some v" "srv = server_for cs v"
    using assms by (auto simp: servers_of_get)
  from find_rev_Some [OF v(1)] have "v \<in> set l" "\<not> ts_Disabled v" "n = l4ServerName v" by simp_all
  then show ?thesis using v(2) by (rule that)
qed

text \<open>
  C19: Whatever requests were made, a connection to a running relay is relayed exactly when no gate
  of the relay refuses it, and then to the backends of that relay. Otherwise the first refusing
  gate (address filter, CrowdSec when it is available, accepted protocol) closes it, and exactly
  the refusal counter of that cause is counted. Every server of the layer-4 app belongs to one
  enabled relay and listens on its address only, and every enabled relay has its server.
\<close>

theorem relay_gates_exact:
  assumes "(tcp_step E)\<^sup>*\<^sup>* no_services s" and "l4_engine C"
  shows "(\<forall>n srv. gm_get (servers_of (tc_live s) cs) n = Some srv \<longrightarrow>
      (\<exists>v \<in> set (tc_live s). \<not> ts_Disabled v \<and> n = l4ServerName v \<and> lv_listen srv = [ListenAddress v])) \<and>
    (\<forall>v \<in> set (tc_live s). \<not> ts_Disabled v \<longrightarrow>
      (\<exists>srv. gm_get (servers_of (tc_live s) cs) (l4ServerName v) = Some srv \<and>
         (\<forall>q r now. meet C now srv q r =
            (case refusal C cs v q of
               Some cause \<Rightarrow> (Refused (ts_ID v) cause r, L4Closed)
             | None \<Rightarrow> (Opened now (ts_ID v) r, L4Relayed (buildLayer4Proxy v))))))"
proof (intro conjI allI ballI impI)
  have ok: "services_ok E (tc_live s)" using sys_ok_reachable [OF assms(1)] by (simp add: sys_ok_def)
  show "\<exists>v \<in> set (tc_live s). \<not> ts_Disabled v \<and> n = l4ServerName v \<and> lv_listen srv = [ListenAddress v]"
    if "gm_get (servers_of (tc_live s) cs) n = Some srv" for n srv
    using that by (rule server_is_live) (auto simp: server_for_def)
  fix v assume v: "v \<in> set (tc_live s)" "\<not> ts_Disabled v"
  with ok have "service_ok (tv_go E) v" "ts_ID v \<noteq> []" by (simp_all add: services_ok_def row_ok_def)
  from live_server [OF ok v, of cs] l4_engine.meet_gates [OF assms(2) this]
  show "\<exists>srv. gm_get (servers_of (tc_live s) cs) (l4ServerName v) = Some srv \<and>
      (\<forall>q r now. meet C now srv q r =
         (case refusal C cs v q of
            Some cause \<Rightarrow> (Refused (ts_ID v) cause r, L4Closed)
          | None \<Rightarrow> (Opened now (ts_ID v) r, L4Relayed (buildLayer4Proxy v))))" by blast
qed

text \<open>An engine on the remote address and the protocol of a connection.\<close>

record sample_conn =
  sq_ip :: string
  sq_protocol :: string

primrec first_route :: "(l4_route \<Rightarrow> bool) \<Rightarrow> l4_route list \<Rightarrow> l4_handler list" where
  "first_route acc [] = []"
| "first_route acc (rt # rts) = (if acc rt then lr_handle rt else first_route acc rts)"

definition plain_caddy :: "sample_conn l4_caddy" where
  "plain_caddy = \<lparr>le_remote_ip = (\<lambda>ranges q. sq_ip q \<in> set ranges), le_crowdsec = (\<lambda>q. sq_ip q \<noteq> ''9.9.9.9''),
     le_protocol = (\<lambda>p q. sq_protocol q = p), le_chain = (\<lambda>_ _. [])\<rparr>"

definition sample_caddy :: "sample_conn l4_caddy" where
  "sample_caddy = plain_caddy\<lparr>le_chain := (\<lambda>rts q. first_route (\<lambda>rt. l4_accepts plain_caddy rt q) rts)\<rparr>"

lemma sample_caddy_accepts: "l4_accepts sample_caddy rt q = l4_accepts plain_caddy rt q"
proof -
  have "l4_matches sample_caddy m q = l4_matches plain_caddy m q" for m
    by (induction m) (simp_all add: sample_caddy_def)
  then show ?thesis by (simp add: l4_accepts_def)
qed

interpretation l4c: l4_engine sample_caddy
  by unfold_locales (simp_all add: sample_caddy_accepts, simp_all add: sample_caddy_def)


section \<open>A sample\<close>

definition sample_env :: tcp_env where
  "sample_env = \<lparr>tv_go = \<lparr>lib_lower = (\<lambda>s. s), lib_url = (\<lambda>_. None), lib_duration = (\<lambda>_. None), lib_regexp = (\<lambda>_. True),
       lib_canonical = (\<lambda>s. s), lib_seclang = (\<lambda>_. True), lib_quote = (\<lambda>s. s)\<rparr>,
     tv_getenv = (\<lambda>_. []), tv_devMode = False, tv_adminListen = '':81''\<rparr>"

definition sample_service :: TCPService where
  "sample_service =
     \<lparr>ts_ID = [], ts_Name = ''dns'', ts_ListenAddr = [], ts_ListenPort = 53, ts_Protocol = [],
      ts_Upstreams = [\<lparr>tu_Host = ''ns1'', tu_Port = 53, tu_MaxConnections = 0\<rparr>], ts_LBPolicy = [], ts_HealthCheck = None,
      ts_ProxyProtocol = [], ts_AcceptProtocol = ''dns'', ts_IPFilter = None, ts_CrowdSecEnabled = False,
      ts_Disabled = False, ts_CreatedAt = 0, ts_UpdatedAt = 0\<rparr>"

definition sample_call :: "string \<Rightarrow> reload_result \<Rightarrow> tcp_call" where
  "sample_call uuid R = \<lparr>tl_now = 50, tl_uuid = uuid, tl_os = (\<lambda>_ _. None), tl_reload = R\<rparr>"

definition one_service :: tcp_sys where
  "one_service = fst (createTCPService sample_env (sample_call ''u1'' Loaded) (Some sample_service) no_services)"

definition one_row :: TCPService where
  "one_row = sample_service\<lparr>ts_ID := ''u1'', ts_CreatedAt := 50, ts_UpdatedAt := 50\<rparr>"

lemma one_service_run: "(tcp_step sample_env)\<^sup>*\<^sup>* no_services one_service"
  unfolding one_service_def by (rule r_into_rtranclp) (rule step_create, simp add: sample_call_def)

lemma one_service_db: "tc_db one_service = [(''u1'', Some one_row)]"
  by code_simp

lemma one_service_live: "tc_live one_service = [one_row]"
  by code_simp

theorem relays_never_share_a_socket_witness:
  "accepted sample_env one_row \<and> ts_ID one_row = ''u1''"
proof -
  have "gm_get (tc_db one_service) ''u1'' = Some (Some one_row)" by (simp add: one_service_db)
  with conjunct1 [OF relays_never_share_a_socket [OF one_service_run]] show ?thesis by blast
qed

theorem failed_delete_changes_identity_witness:
  "getTCPService ''u1'' (fst (deleteTCPService sample_env (sample_call ''u2'' Rejected) ''u1'' one_service)) = Inl 404"
proof -
  have g: "getTCPService ''u1'' one_service = Inr one_row" by (simp add: getTCPService_Inr one_service_db)
  have u: "tl_uuid (sample_call ''u2'' Rejected) \<noteq> []" "tl_uuid (sample_call ''u2'' Rejected) \<noteq> ''u1''"
    by (simp_all add: sample_call_def)
  obtain s' st evs where d: "deleteTCPService sample_env (sample_call ''u2'' Rejected) ''u1'' one_service = (s', st, evs)"
    by (metis prod.collapse)
  have "fst (snd (deleteTCPService sample_env (sample_call ''u2'' Rejected) ''u1'' one_service)) \<noteq> 204" by code_simp
  then have "st \<noteq> 204" by (simp add: d)
  from failed_delete_changes_identity [OF one_service_run g u d this] show ?thesis by (simp add: d)
qed

theorem relay_gates_exact_witness:
  "\<exists>srv. gm_get (servers_of (tc_live one_service) True) (l4ServerName one_row) = Some srv \<and>
     meet sample_caddy 60 srv \<lparr>sq_ip = ''1.1.1.1'', sq_protocol = ''ssh''\<rparr> (tc_reg one_service) =
       (Refused ''u1'' CauseProtocol (tc_reg one_service), L4Closed) \<and>
     meet sample_caddy 60 srv \<lparr>sq_ip = ''1.1.1.1'', sq_protocol = ''dns''\<rparr> (tc_reg one_service) =
       (Opened 60 ''u1'' (tc_reg one_service), L4Relayed (buildLayer4Proxy one_row))"
proof -
  have row: "one_row \<in> set (tc_live one_service)" "\<not> ts_Disabled one_row" "ts_ID one_row = ''u1''"
    by (simp_all add: one_service_live one_row_def sample_service_def)
  have "refusal sample_caddy True one_row \<lparr>sq_ip = ''1.1.1.1'', sq_protocol = ''ssh''\<rparr> = Some CauseProtocol"
    "refusal sample_caddy True one_row \<lparr>sq_ip = ''1.1.1.1'', sq_protocol = ''dns''\<rparr> = None"
    by (simp_all add: refusal_def filter_refuses_def one_row_def sample_service_def sample_caddy_def plain_caddy_def)
  with conjunct2 [OF relay_gates_exact [OF one_service_run l4c.l4_engine_axioms, of True]] row show ?thesis by fastforce
qed

end
