(* ===== verification/RouteImport.thy ===== *)
theory RouteImport
  imports RouteService
begin

text \<open>
  The import of a Caddyfile (\<open>api/caddyfile_import.go\<close>): the preview, the import with its single
  reload and its rollback, and the runs of the service with imports among the requests. What
  \<open>caddyimport.Parse\<close> makes of the text is an argument (\<open>im_parse\<close>), and so is \<open>strings.EqualFold\<close>
  beyond ASCII; nothing is assumed of either. The texts of skipped hosts are named, not spelled.
\<close>

section \<open>Candidates\<close>

type_synonym import_warning = "int \<times> string"

record import_route =
  ir_Host :: string
  ir_Aliases :: "string list"
  ir_Upstreams :: "Upstream list"
  ir_LBPolicy :: string
  ir_TLSEnabled :: bool
  ir_ACMEChallenge :: string
  ir_InsecureSkipVerify :: bool
  ir_RequestHeaders :: "(string, string) gomap"
  ir_ResponseHeaders :: "(string, string) gomap"
  ir_HealthCheck :: HealthCheck
  ir_PathRules :: "PathRule list"

record Candidate =
  cd_Host :: string
  cd_Aliases :: "string list"
  cd_Route :: "import_route option"
  cd_Importable :: bool
  cd_Reason :: string
  cd_Warnings :: "import_warning list"

record import_result =
  im_GlobalWarnings :: "import_warning list"
  im_Candidates :: "Candidate list"

record caddyfileImportRequest =
  iq_Caddyfile :: string
  iq_Hosts :: "string list"
  iq_Replace :: "string list"

record importlib =
  im_api :: apilib
  im_fold :: "string \<Rightarrow> string \<Rightarrow> bool"
  im_parse :: "string \<Rightarrow> error + import_result"

abbreviation im_go :: "importlib \<Rightarrow> golib" where "im_go M \<equiv> ap_go (im_api M)"

datatype skip_reason =
  NotInFile | BlockRefused string | AlreadyServed | RouteInvalid error | LoadFailed | StoreRefused store_error

record caddyfileImportResponse =
  ia_Created :: "string list"
  ia_Replaced :: "string list"
  ia_Skipped :: "(string \<times> skip_reason) list"
  ia_Warnings :: "import_warning list"

section \<open>Shared steps\<close>

text \<open>A body that does not decode is \<open>None\<close>.\<close>

definition parseImportBody ::
  "importlib \<Rightarrow> caddyfileImportRequest option \<Rightarrow> int + (caddyfileImportRequest \<times> import_result)" where
  "parseImportBody M body =
     (case body of
        None \<Rightarrow> Inl 400
      | Some req \<Rightarrow>
          if trimSpace (iq_Caddyfile req) = [] then Inl 400
          else case im_parse M (iq_Caddyfile req) of Inl _ \<Rightarrow> Inl 400 | Inr res \<Rightarrow> Inr (req, res))"

definition existingHosts :: "golib \<Rightarrow> Route bucket \<Rightarrow> store_error + (string, string) gomap" where
  "existingHosts L b =
     map_sum id (\<lambda>rs. fold (\<lambda>r. fold (\<lambda>h. gm_put (toLower L h) (rt_ID r)) (AllHosts r)) rs []) (ListRoutes b)"

definition findCandidate :: "importlib \<Rightarrow> Candidate list \<Rightarrow> string \<Rightarrow> Candidate option" where
  "findCandidate M cands host =
     List.find (\<lambda>c. if is_ascii (cd_Host c) \<and> is_ascii host then map lower_char (cd_Host c) = map lower_char host
                    else im_fold M (cd_Host c) host) cands"

definition routeFromCandidate :: "import_route \<Rightarrow> Route" where
  "routeFromCandidate c =
     zero_route\<lparr>rt_Host := ir_Host c, rt_Aliases := ir_Aliases c, rt_Upstreams := ir_Upstreams c,
       rt_LBPolicy := ir_LBPolicy c, rt_TLSEnabled := ir_TLSEnabled c, rt_RedirectToHTTPS := ir_TLSEnabled c,
       rt_ACMEChallenge := ir_ACMEChallenge c, rt_AuthMode := ''none'', rt_InsecureSkipVerify := ir_InsecureSkipVerify c,
       rt_RequestHeaders := ir_RequestHeaders c, rt_ResponseHeaders := ir_ResponseHeaders c,
       rt_HealthCheck := ir_HealthCheck c, rt_PathRules := ir_PathRules c, rt_WAFMode := ''detect''\<rparr>"

section \<open>The preview\<close>

definition conflicts :: "golib \<Rightarrow> (string, string) gomap \<Rightarrow> Candidate \<Rightarrow> bool" where
  "conflicts L existing c =
     (case cd_Route c of
        None \<Rightarrow> False
      | Some r \<Rightarrow> list_ex (\<lambda>h. gm_get existing (toLower L h) \<noteq> None) (ir_Host r # ir_Aliases r))"

definition previewCaddyfileImport ::
  "importlib \<Rightarrow> caddyfileImportRequest option \<Rightarrow> sys \<Rightarrow> int + (import_warning list \<times> (Candidate \<times> bool) list)" where
  "previewCaddyfileImport M body s =
     andThen (parseImportBody M body) (\<lambda>(_, res).
     andThen (or_status 500 (existingHosts (im_go M) (routes s))) (\<lambda>existing.
     Inr (im_GlobalWarnings res, map (\<lambda>c. (c, conflicts (im_go M) existing c)) (im_Candidates res))))"

section \<open>The import\<close>

text \<open>What the loop over the requested hosts carries along: the bucket, the routes to undo, the answer, the events.\<close>

record import_work =
  iw_routes :: "Route bucket"
  iw_created :: "Route list"
  iw_replaced :: "Route list"
  iw_reply :: caddyfileImportResponse
  iw_events :: "audit_entry list"

definition skip :: "string \<Rightarrow> skip_reason \<Rightarrow> import_work \<Rightarrow> import_work" where
  "skip host why w = w\<lparr>iw_reply := (iw_reply w)\<lparr>ia_Skipped := ia_Skipped (iw_reply w) @ [(host, why)]\<rparr>\<rparr>"

definition replace_imported ::
  "golib \<Rightarrow> time \<Rightarrow> string \<Rightarrow> string \<Rightarrow> Route \<Rightarrow> import_work \<Rightarrow> import_work" where
  "replace_imported L now want previousID route w =
     (case GetRoute previousID (iw_routes w) of
        Inl _ \<Rightarrow> skip want LoadFailed w
      | Inr previous \<Rightarrow>
          (case UpdateRoute L now (route\<lparr>rt_ID := rt_ID previous\<rparr>) (iw_routes w) of
             (_, Inl e) \<Rightarrow> skip want (StoreRefused e) w
           | (b, Inr updated) \<Rightarrow>
               w\<lparr>iw_routes := b, iw_replaced := iw_replaced w @ [previous],
                 iw_reply := (iw_reply w)\<lparr>ia_Replaced := ia_Replaced (iw_reply w) @ [rt_Host route]\<rparr>,
                 iw_events := iw_events w @ [route_event L ''route_updated'' (rt_ID updated) (Some previous) (Some updated)]\<rparr>))"

definition create_imported :: "golib \<Rightarrow> time \<Rightarrow> string \<Rightarrow> string \<Rightarrow> Route \<Rightarrow> import_work \<Rightarrow> import_work" where
  "create_imported L now uuid want route w =
     (case CreateRoute L now uuid route (iw_routes w) of
        (_, Inl e) \<Rightarrow> skip want (StoreRefused e) w
      | (b, Inr stored) \<Rightarrow>
          w\<lparr>iw_routes := b, iw_created := iw_created w @ [stored],
            iw_reply := (iw_reply w)\<lparr>ia_Created := ia_Created (iw_reply w) @ [rt_Host stored]\<rparr>,
            iw_events := iw_events w @ [route_event L ''route_created'' (rt_ID stored) None (Some stored)]\<rparr>)"

text \<open>One round of the loop; \<open>uuid\<close> is the identifier a creation in this round would draw.\<close>

definition import_host ::
  "importlib \<Rightarrow> time \<Rightarrow> (string, string) gomap \<Rightarrow> Candidate list \<Rightarrow> string list \<Rightarrow> string \<times> string \<Rightarrow> import_work \<Rightarrow> import_work" where
  "import_host M now existing cands repl = (\<lambda>(want, uuid) w.
     (case findCandidate M cands want of
        None \<Rightarrow> skip want NotInFile w
      | Some c \<Rightarrow>
          (case (if cd_Importable c then cd_Route c else None) of
             None \<Rightarrow> skip want (BlockRefused (if cd_Reason c = [] then ''nothing to import in this block'' else cd_Reason c)) w
           | Some ir \<Rightarrow>
               let route = routeFromCandidate ir;
                   conflict = gm_get existing (toLower (im_go M) (rt_Host route))
               in if conflict \<noteq> None \<and> want \<notin> set repl then skip want AlreadyServed w
                  else case validate (im_go M) route of
                    Some e \<Rightarrow> skip want (RouteInvalid e) w
                  | None \<Rightarrow>
                      (case conflict of
                         Some previousID \<Rightarrow> replace_imported (im_go M) now want previousID route w
                       | None \<Rightarrow> create_imported (im_go M) now uuid want route w))))"

definition undo_import :: "golib \<Rightarrow> time \<Rightarrow> import_work \<Rightarrow> Route bucket \<Rightarrow> Route bucket" where
  "undo_import L now w b =
     fold (\<lambda>rt b. fst (UpdateRoute L now rt b)) (iw_replaced w)
       (fold (\<lambda>rt b. fst (DeleteRoute (rt_ID rt) b)) (iw_created w) b)"

definition importCaddyfile ::
  "importlib \<Rightarrow> (nat \<Rightarrow> reload_result) \<Rightarrow> time \<Rightarrow> string list \<Rightarrow> caddyfileImportRequest option \<Rightarrow> sys \<Rightarrow>
   sys \<times> (int + caddyfileImportResponse) \<times> audit_entry list" where
  "importCaddyfile M R now uuids body s =
     (case parseImportBody M body of
        Inl st \<Rightarrow> (s, Inl st, [])
      | Inr (req, res) \<Rightarrow>
          if iq_Hosts req = [] then (s, Inl 400, [])
          else case existingHosts (im_go M) (routes s) of
            Inl _ \<Rightarrow> (s, Inl 500, [])
          | Inr existing \<Rightarrow>
              let w = fold (import_host M now existing (im_Candidates res) (iq_Replace req)) (zip (iq_Hosts req) uuids)
                        \<lparr>iw_routes = routes s, iw_created = [], iw_replaced = [],
                         iw_reply = \<lparr>ia_Created = [], ia_Replaced = [], ia_Skipped = [], ia_Warnings = im_GlobalWarnings res\<rparr>,
                         iw_events = []\<rparr>;
                  s1 = set_routes (iw_routes w) s
              in if iw_created w @ iw_replaced w = [] then (s1, Inr (iw_reply w), iw_events w)
                 else case ReloadFromStore (R 0) s1 of
                   (s2, True) \<Rightarrow> (s2, Inr (iw_reply w), iw_events w)
                 | (s2, False) \<Rightarrow>
                     (fst (ReloadFromStore (R 1) (set_routes (undo_import (im_go M) now w (routes s2)) s2)), Inl 500, iw_events w))"

section \<open>What an import keeps\<close>

text \<open>
  Relative to the rows \<open>b0\<close> before the import, a row is either imported, with names in \<open>X\<close> only, or has
  the names that the row of its key had.
\<close>

definition stems_from :: "string set \<Rightarrow> golib \<Rightarrow> Route bucket \<Rightarrow> Route \<Rightarrow> bool" where
  "stems_from X L b0 r \<longleftrightarrow> rt_ID r \<noteq> [] \<and> validate L r = None \<and>
     (set (AllHosts r) \<subseteq> X \<or> (\<exists>r0. gm_get b0 (rt_ID r) = Some (Some r0) \<and> AllHosts r = AllHosts r0))"

definition grown :: "string set \<Rightarrow> golib \<Rightarrow> Route bucket \<Rightarrow> Route bucket \<Rightarrow> bool" where
  "grown X L b0 b \<longleftrightarrow> gm_wf b \<and> (\<forall>k v. gm_get b k = Some v \<longrightarrow> (\<exists>r. v = Some r \<and> rt_ID r = k \<and> stems_from X L b0 r))"

lemma sound_grown: "sound X L b \<Longrightarrow> grown X L b b"
  unfolding grown_def stems_from_def sound_def row_ok_def by metis

lemma grown_sound:
  assumes "sound X L b0" "grown X L b0 b"
  shows "sound X L b"
proof -
  have "set (AllHosts r) \<inter> set (AllHosts r') \<subseteq> X"
    if row: "gm_get b k = Some (Some r)" "gm_get b k' = Some (Some r')" "k' \<noteq> k" for k k' r r'
  proof -
    from row assms(2) have "stems_from X L b0 r" "stems_from X L b0 r'" "rt_ID r = k" "rt_ID r' = k'"
      by (fastforce simp: grown_def)+
    then consider "set (AllHosts r) \<subseteq> X \<or> set (AllHosts r') \<subseteq> X"
      | r0 r0' where "gm_get b0 k = Some (Some r0)" "AllHosts r = AllHosts r0" "gm_get b0 k' = Some (Some r0')" "AllHosts r' = AllHosts r0'"
      unfolding stems_from_def by blast
    then show ?thesis
    proof cases
      case 2
      with row(3) sound_row(4) [OF assms(1) 2(1)] show ?thesis unfolding apart_def by metis
    qed auto
  qed
  then show ?thesis using assms(2) by (fastforce simp: sound_def grown_def stems_from_def row_ok_def apart_def)
qed

lemma grown_put: "grown X L b0 b \<Longrightarrow> stems_from X L b0 r \<Longrightarrow> k = rt_ID r \<Longrightarrow> grown X L b0 (gm_put k (Some r) b)"
  by (auto simp: grown_def)

lemma grown_del: "grown X L b0 b \<Longrightarrow> grown X L b0 (fst (DeleteRoute k b))"
  by (auto simp: grown_def DeleteRoute_def bucket_delete_def)

lemma stems_stamped [simp]:
  "stems_from X L b0 (r\<lparr>rt_CreatedAt := a, rt_UpdatedAt := c\<rparr>) = stems_from X L b0 r"
  by (simp add: stems_from_def)

lemma grown_update: "grown X L b0 b \<Longrightarrow> stems_from X L b0 r \<Longrightarrow> grown X L b0 (fst (UpdateRoute L now r b))"
  by (auto simp: UpdateRoute_def Let_def intro!: grown_put split: option.splits sum.splits)

definition work_ok :: "string set \<Rightarrow> golib \<Rightarrow> Route bucket \<Rightarrow> import_work \<Rightarrow> bool" where
  "work_ok X L b0 w \<longleftrightarrow> grown X L b0 (iw_routes w) \<and> (\<forall>r \<in> set (iw_replaced w). stems_from X L b0 r)"

lemma work_ok_skip [simp]: "work_ok X L b0 (skip h e w) = work_ok X L b0 w"
  by (simp add: work_ok_def skip_def)

lemma work_ok_replace:
  assumes "work_ok X L b0 w" "set (AllHosts route) \<subseteq> X"
  shows "work_ok X L b0 (replace_imported L now want pid route w)"
proof (cases "GetRoute pid (iw_routes w)")
  case (Inr p)
  then have "gm_get (iw_routes w) pid = Some (Some p)" by (auto simp: GetRoute_def split: if_splits)
  with assms(1) have p: "stems_from X L b0 p" by (fastforce simp: work_ok_def grown_def)
  obtain b x where u: "UpdateRoute L now (route\<lparr>rt_ID := rt_ID p\<rparr>) (iw_routes w) = (b, x)" by fastforce
  show ?thesis
  proof (cases x)
    case x: (Inr r)
    from UpdateRoute_Inr [OF u [unfolded x]] assms(2)
    have "stems_from X L b0 (route\<lparr>rt_ID := rt_ID p\<rparr>)" by (auto simp: stems_from_def)
    from grown_update [OF _ this, of "iw_routes w" now] assms(1) p u x Inr show ?thesis
      by (simp add: replace_imported_def work_ok_def)
  qed (use assms u Inr in \<open>simp add: replace_imported_def\<close>)
qed (use assms in \<open>simp add: replace_imported_def\<close>)

lemma work_ok_create:
  assumes "work_ok X L b0 w" "set (AllHosts route) \<subseteq> X" "uuid \<noteq> []"
  shows "work_ok X L b0 (create_imported L now uuid want route w)"
proof (cases "validate L route")
  case None
  let ?r = "route\<lparr>rt_ID := uuid, rt_CreatedAt := now, rt_UpdatedAt := now\<rparr>"
  have "stems_from X L b0 ?r" using assms(2,3) None by (simp add: stems_from_def)
  with assms(1) show ?thesis by (simp add: create_imported_def CreateRoute_def None work_ok_def Let_def grown_put)
qed (use assms(1) in \<open>simp add: create_imported_def CreateRoute_def\<close>)

definition names_of :: "import_result \<Rightarrow> string set" where
  "names_of res = {h. \<exists>c \<in> set (im_Candidates res). \<exists>ir. cd_Route c = Some ir \<and> h \<in> set (ir_Host ir # ir_Aliases ir)}"

lemma AllHosts_candidate [simp]: "AllHosts (routeFromCandidate ir) = ir_Host ir # ir_Aliases ir"
  by (simp add: AllHosts_def routeFromCandidate_def)

lemma find_Some: "List.find P xs = Some x \<Longrightarrow> x \<in> set xs"
  by (auto simp: find_Some_iff)

lemma import_host_cases:
  "\<exists>e. import_host M now ex cands repl (want, uuid) w = skip want e w \<or>
   (\<exists>c ir. c \<in> set cands \<and> cd_Route c = Some ir \<and>
     (import_host M now ex cands repl (want, uuid) w = create_imported (im_go M) now uuid want (routeFromCandidate ir) w \<or>
      (\<exists>pid. import_host M now ex cands repl (want, uuid) w = replace_imported (im_go M) now want pid (routeFromCandidate ir) w)))"
proof (cases "findCandidate M cands want")
  case (Some c)
  then have c: "c \<in> set cands" by (simp add: findCandidate_def find_Some)
  show ?thesis
  proof (cases "if cd_Importable c then cd_Route c else None")
    case ir: (Some ir)
    then have "cd_Route c = Some ir" by (simp split: if_splits)
    with c ir Some show ?thesis
      by (cases "validate (im_go M) (routeFromCandidate ir)";
          cases "gm_get ex (toLower (im_go M) (rt_Host (routeFromCandidate ir)))")
        (auto simp: import_host_def Let_def)
  qed (use Some in \<open>auto simp: import_host_def\<close>)
qed (auto simp: import_host_def)

lemma work_ok_host:
  assumes "work_ok X (im_go M) b0 w" "names_of res \<subseteq> X" "uuid \<noteq> []"
  shows "work_ok X (im_go M) b0 (import_host M now ex (im_Candidates res) repl (want, uuid) w)"
proof -
  have "set (AllHosts (routeFromCandidate ir)) \<subseteq> X" if "c \<in> set (im_Candidates res)" "cd_Route c = Some ir" for c ir
    using assms(2) that unfolding names_of_def AllHosts_candidate by blast
  with work_ok_replace [OF assms(1)] work_ok_create [OF assms(1) _ assms(3)]
    import_host_cases [of M now ex "im_Candidates res" repl want uuid w] assms(1)
  show ?thesis by (metis work_ok_skip)
qed

lemma work_ok_fold:
  assumes "work_ok X (im_go M) b0 w" "names_of res \<subseteq> X" "[] \<notin> snd ` set wus"
  shows "work_ok X (im_go M) b0 (fold (import_host M now existing (im_Candidates res) repl) wus w)"
  using assms(1,3) by (induction wus arbitrary: w) (auto simp: work_ok_host [OF _ assms(2)] image_iff)

lemma undo_sound:
  assumes "sound X L b0" "work_ok X L b0 w"
  shows "sound X L (undo_import L now w (iw_routes w))"
proof (rule grown_sound [OF assms(1)])
  have "grown X L b0 (fold (\<lambda>rt b. fst (DeleteRoute (rt_ID rt) b)) rs b)" if "grown X L b0 b" for rs b
    using that by (induction rs arbitrary: b) (simp_all add: grown_del)
  moreover have "grown X L b0 (fold (\<lambda>rt b. fst (UpdateRoute L now rt b)) rs b)"
    if "grown X L b0 b" "\<forall>r \<in> set rs. stems_from X L b0 r" for rs b
    using that by (induction rs arbitrary: b) (simp_all add: grown_update)
  ultimately show "grown X L b0 (undo_import L now w (iw_routes w))"
    using assms(2) unfolding undo_import_def work_ok_def by blast
qed

lemma import_sound:
  assumes "sound X (im_go M) (routes s)" "[] \<notin> set uuids"
    and "\<And>req res. parseImportBody M body = Inr (req, res) \<Longrightarrow> names_of res \<subseteq> X"
  shows "sound X (im_go M) (routes (fst (importCaddyfile M R now uuids body s)))"
proof (cases "parseImportBody M body")
  case (Inr rr)
  obtain req res where rr: "rr = (req, res)" by (cases rr)
  show ?thesis
  proof (cases "iq_Hosts req = [] \<or> (\<exists>e. existingHosts (im_go M) (routes s) = Inl e)")
    case False
    then obtain ex where ex: "existingHosts (im_go M) (routes s) = Inr ex" "iq_Hosts req \<noteq> []"
      by (metis sum.exhaust)
    let ?w0 = "\<lparr>iw_routes = routes s, iw_created = [], iw_replaced = [],
        iw_reply = \<lparr>ia_Created = [], ia_Replaced = [], ia_Skipped = [], ia_Warnings = im_GlobalWarnings res\<rparr>, iw_events = []\<rparr>"
    define w where "w = fold (import_host M now ex (im_Candidates res) (iq_Replace req)) (zip (iq_Hosts req) uuids) ?w0"
    have "work_ok X (im_go M) (routes s) w"
      unfolding w_def using assms(2) sound_grown [OF assms(1)]
      by (intro work_ok_fold assms(3) [OF Inr [unfolded rr]]) (auto simp: work_ok_def dest: set_zip_rightD)
    then have "sound X (im_go M) (iw_routes w)" "sound X (im_go M) (undo_import (im_go M) now w (iw_routes w))"
      using grown_sound [OF assms(1)] undo_sound [OF assms(1)] by (auto simp: work_ok_def)
    moreover have "routes (fst (ReloadFromStore x t)) = routes t" for x t by simp
    ultimately show ?thesis
      by (auto simp: importCaddyfile_def Inr rr ex w_def [symmetric] Let_def split: prod.splits bool.splits
          dest!: reload_cases(1))
  qed (auto simp: importCaddyfile_def Inr rr assms(1))
qed (simp add: importCaddyfile_def assms(1))

section \<open>Runs with imports\<close>

text \<open>
  The requests of \<open>api_step\<close>, and imports of Caddyfiles whose site blocks name hosts in \<open>X\<close>. The
  identifiers that a creation draws are not empty; every other input of a step is arbitrary.
\<close>

inductive service_step :: "importlib \<Rightarrow> string set \<Rightarrow> sys \<Rightarrow> sys \<Rightarrow> bool" for M X where
  served: "api_step (im_api M) False s s' \<Longrightarrow> service_step M X s s'"
| imported: "[] \<notin> set uuids \<Longrightarrow> (\<And>req res. parseImportBody M body = Inr (req, res) \<Longrightarrow> names_of res \<subseteq> X) \<Longrightarrow>
    service_step M X s (fst (importCaddyfile M R now uuids body s))"

lemma service_sound:
  "(service_step M X)\<^sup>*\<^sup>* s0 s \<Longrightarrow> sound X (im_go M) (routes s0) \<Longrightarrow> sound X (im_go M) (routes s)"
proof (induction rule: rtranclp_induct)
  case (step t u)
  then have t: "sound X (im_go M) (routes t)" by simp
  from step(2) show ?case
  proof cases
    case served
    with run_sound [OF r_into_rtranclp] t show ?thesis by blast
  next
    case imported
    then show ?thesis using import_sound [OF t] by blast
  qed
qed

text \<open>
  C2: Whatever requests on routes, toggles, firewall exclusions, managed domains and Caddyfile imports
  are served from an empty database on, in any order, with reloads that succeed, fail or time out:
  every stored row decodes, sits under its own identifier and satisfies the validator; two routes
  share no hostname or alias but one that an imported Caddyfile names (with no import: none); the
  listing succeeds, and when its upstreams can be dialled, the configuration for Caddy can be built
  from it.
\<close>

theorem stored_routes_sound:
  assumes "(service_step M X)\<^sup>*\<^sup>* s0 s" "routes s0 = []"
  shows "(\<forall>k v. gm_get (routes s) k = Some v \<longrightarrow> (\<exists>r. v = Some r \<and> rt_ID r = k \<and> validate (im_go M) r = None \<and>
      (\<forall>k' r'. gm_get (routes s) k' = Some (Some r') \<longrightarrow> k' \<noteq> k \<longrightarrow> set (AllHosts r) \<inter> set (AllHosts r') \<subseteq> X))) \<and>
    (\<exists>rs. ListRoutes (routes s) = Inr rs \<and> ((\<forall>r \<in> set rs. dialable (im_go M) r) \<longrightarrow>
      (\<exists>cfg. build_routes (im_go M) opts (filterDisabledRoutes rs) = Inr cfg)))"
proof
  have s: "sound X (im_go M) (routes s)" using service_sound [OF assms(1)] assms(2) by simp
  then show "\<forall>k v. gm_get (routes s) k = Some v \<longrightarrow> (\<exists>r. v = Some r \<and> rt_ID r = k \<and> validate (im_go M) r = None \<and>
      (\<forall>k' r'. gm_get (routes s) k' = Some (Some r') \<longrightarrow> k' \<noteq> k \<longrightarrow> set (AllHosts r) \<inter> set (AllHosts r') \<subseteq> X))"
    unfolding sound_def row_ok_def apart_def by blast
  obtain rs where "ListRoutes (routes s) = Inr rs" "\<forall>r \<in> set rs. validate (im_go M) r = None"
    using sound_lists [OF s] by blast
  then show "\<exists>rs. ListRoutes (routes s) = Inr rs \<and> ((\<forall>r \<in> set rs. dialable (im_go M) r) \<longrightarrow>
      (\<exists>cfg. build_routes (im_go M) opts (filterDisabledRoutes rs) = Inr cfg))"
    using build_total by blast
qed

text \<open>
  The sample: after a route for \<open>a.home\<close> was created, a Caddyfile with one site block for
  \<open>new.home\<close> and \<open>a.home\<close> is imported.
\<close>

definition sample_candidate :: Candidate where
  "sample_candidate =
     \<lparr>cd_Host = ''new.home'', cd_Aliases = [''a.home''],
      cd_Route = Some \<lparr>ir_Host = ''new.home'', ir_Aliases = [''a.home''], ir_Upstreams = [\<lparr>up_URL = ''http://app'', up_Weight = 1\<rparr>],
        ir_LBPolicy = ''round_robin'', ir_TLSEnabled = True, ir_ACMEChallenge = ''http-01'', ir_InsecureSkipVerify = False,
        ir_RequestHeaders = [], ir_ResponseHeaders = [], ir_HealthCheck = zero_health, ir_PathRules = []\<rparr>,
      cd_Importable = True, cd_Reason = [], cd_Warnings = []\<rparr>"

definition sample_import :: importlib where
  "sample_import = \<lparr>im_api = sample_api, im_fold = (\<lambda>_ _. False),
     im_parse = (\<lambda>_. Inr \<lparr>im_GlobalWarnings = [], im_Candidates = [sample_candidate]\<rparr>)\<rparr>"

definition sample_import_body :: caddyfileImportRequest where
  "sample_import_body = \<lparr>iq_Caddyfile = ''new.home, a.home { reverse_proxy app }'', iq_Hosts = [''new.home''], iq_Replace = []\<rparr>"

definition sample_imported :: "sys \<times> (int + caddyfileImportResponse) \<times> audit_entry list" where
  "sample_imported = importCaddyfile sample_import (\<lambda>_. Loaded) 6 [''r2''] (Some sample_import_body) (fst sample_create)"

lemma sample_imported_row: "map_option (map_option AllHosts) (gm_get (routes (fst sample_imported)) ''r2'') = Some (Some [''new.home'', ''a.home''])"
  by code_simp

lemma sample_import_run: "(service_step sample_import {''new.home'', ''a.home''})\<^sup>*\<^sup>* empty_sys (fst sample_imported)"
proof -
  have "api_step (im_api sample_import) False empty_sys (fst sample_create)"
    using sample_step by (simp add: sample_import_def)
  then have a: "service_step sample_import {''new.home'', ''a.home''} empty_sys (fst sample_create)" by (rule served)
  have b: "service_step sample_import {''new.home'', ''a.home''} (fst sample_create) (fst sample_imported)"
    unfolding sample_imported_def
    by (rule imported)
      (auto simp: parseImportBody_def sample_import_def names_of_def sample_candidate_def split: if_splits option.splits)
  from a b show ?thesis by (meson converse_rtranclp_into_rtranclp rtranclp.rtrancl_refl)
qed

theorem stored_routes_sound_witness:
  "\<exists>r. gm_get (routes (fst sample_imported)) ''r2'' = Some (Some r) \<and> validate sample_lib r = None \<and> rt_ID r = ''r2''"
proof -
  have "routes empty_sys = []" by (simp add: empty_sys_def empty_db_def)
  note all = stored_routes_sound [OF sample_import_run this, of sample_opts]
  obtain r where r: "gm_get (routes (fst sample_imported)) ''r2'' = Some (Some r)"
    using sample_imported_row by auto
  have "\<exists>r'. Some r = Some r' \<and> rt_ID r' = ''r2'' \<and> validate (im_go sample_import) r' = None"
    using conjunct1 [OF all, rule_format, OF r] by auto
  with r show ?thesis by (auto simp: sample_import_def sample_api_def)
qed







text \<open>
  The rollback restores the replaced routes in the order of their replacement, so a host that is
  listed twice ends with the imported version although the answer says that nothing was kept.
\<close>

definition twice_body :: caddyfileImportRequest where
  "twice_body = \<lparr>iq_Caddyfile = ''a.home { reverse_proxy app }'', iq_Hosts = [''a.home'', ''a.home''], iq_Replace = [''a.home'']\<rparr>"

definition twice_import :: importlib where
  "twice_import = \<lparr>im_api = sample_api, im_fold = (\<lambda>_ _. False),
     im_parse = (\<lambda>_. Inr \<lparr>im_GlobalWarnings = [], im_Candidates = [sample_candidate
       \<lparr>cd_Host := ''a.home'', cd_Aliases := [],
        cd_Route := map_option (\<lambda>ir. ir\<lparr>ir_Host := ''a.home'', ir_Aliases := []\<rparr>) (cd_Route sample_candidate)\<rparr>]\<rparr>)\<rparr>"

lemma refused_import_kept:
  "let (s', ans, evs) = importCaddyfile twice_import (\<lambda>n. if n = 0 then Rejected else Loaded) 6 [''r2'', ''r3''] (Some twice_body) (fst sample_create)
   in (ans = Inl 500, map_option (map_option rt_TLSEnabled) (gm_get (routes (fst sample_create)) ''r1''),
       map_option (map_option rt_TLSEnabled) (gm_get (routes s') ''r1''), length evs) = (True, Some (Some False), Some (Some True), 2)"
  by code_simp

end
