(* ===== verification/Spec2Isabelle.thy ===== *)
theory Spec2Isabelle
  imports RateHistory RateSystem RateGate ClientIP Sinks Decisions AutoRuns AutoFires AuthProps
    CaddyProps PathDispatch RouteProps EmitProps Redaction AlertLive
    HealthSync SharedHealth RouteNotifyProps AuditLog CountryGate PathRuleTrip
    ServiceTokens TcpProps RouteImport
begin

text \<open>
  Verification of the core of arenet, a reverse proxy for home networks with an administration
  API, written in Go.

  \<^bold>\<open>The program.\<close> Operators describe proxied hosts as routes (\<open>internal/storage\<close>). The manager
  (\<open>internal/caddymgr\<close>) turns the stored routes into the configuration of an embedded Caddy
  server: one list of HTTP routes per listener, each a chain of gates (rate limit, country
  filter, address filter, CrowdSec, authentication, web application firewall) in front of a
  reverse proxy. Administrators reach the API through the middlewares of \<open>internal/auth\<close>
  (client address, rate limiter, sessions, tokens). Security events flow from the gates through
  sinks (\<open>internal/waf\<close>, \<open>internal/throttle\<close>, \<open>internal/crowdsec\<close>) into SQLite, where the
  automation engine (\<open>internal/automation\<close>) counts them and pushes bans to CrowdSec.

  \<^bold>\<open>Foundations.\<close> \<open>Prelude\<close>: times and durations in nanoseconds, Go maps as association lists
  (\<open>gomap\<close>, iteration order left open), Go strings as lists of bytes. \<open>GoNet\<close>: \<open>net.ParseIP\<close>,
  \<open>ParseCIDR\<close>, \<open>IPNet.Contains\<close>, \<open>SplitHostPort\<close> on bytes. \<open>GoStrings\<close>: more of \<open>strings\<close>, the
  combinators of the validators (\<open>first_error\<close>, \<open>guard\<close>, \<open>check_each\<close>), and the record \<open>golib\<close> of the
  library functions every statement quantifies over (\<open>url.Parse\<close>, \<open>time.ParseDuration\<close>,
  \<open>regexp.Compile\<close>, Unicode case mapping, the SecLang parser).

  \<^bold>\<open>Routes.\<close> \<open>Routes\<close> holds the structs of \<open>storage/routes.go\<close>, \<open>ipfilter.go\<close>, the WAF fields and
  \<open>countryblock/config.go\<close>; \<open>RouteCheck\<close> the validator \<open>Route.validate\<close> with everything it calls, in
  the order of the code, an error being its code or the first words of its message.

  \<^bold>\<open>Caddy configuration.\<close> \<open>WafRules\<close> writes the SecLang text of a route; it shows that no accepted
  custom rule can break out of its quotation. \<open>CaddyEmit\<close> has one constructor per JSON handler and
  one definition per builder; \<open>CaddyConfig\<close> is the route loop of \<open>buildConfigJSON\<close>: \<open>route_step\<close>
  composes the stages with the early exits of the code over the state of the loop (two route
  lists, two subject lists, the open maintenance window). \<open>CaddyRun\<close> states what the development
  relies on of Caddy as the locale \<open>caddy\<close> (a route list is tried in order, a handler ends the
  request or calls the next, a matcher set is a conjunction), interpreted on an executable engine.
  \<open>CaddyGates\<close> and \<open>CaddyProps\<close> prove, inside that locale, that a request is forwarded only past
  every gate of its route; the rate limit and the country gate count as they are emitted.
  \<open>PathDispatch\<close> shows, in the same locale, which path rule of the emitted subroute takes a request,
  against the specification \<open>PathRule.matches\<close>; \<open>RouteProps\<close> and \<open>EmitProps\<close> show that accepted routes build,
  that no configured gate is lost, and which certificates are requested.

  \<^bold>\<open>Client address and rate limiter.\<close> \<open>ClientIP\<close> is \<open>auth/ipextract.go\<close>. \<open>RateLimiter\<close> is
  \<open>auth/ratelimit.go\<close> on explicit state; \<open>RateHistory\<close> refines it to a reference that keeps the
  full history of failures, for every address that the eviction of the full table cannot reach; \<open>RateSystem\<close> is the step relation of all its callers with the
  invariant of reachable states; \<open>RateGate\<close> interleaves requests through the per-address mutex.

  \<^bold>\<open>Events.\<close> \<open>BoundedMap\<close> is the interface (a locale) of the capped caches; \<open>LRU\<close> has the three
  linked-list caches and proves them to be recency lists; \<open>Sinks\<close> and \<open>Decisions\<close> have the three
  sinks with their buffers, flushes and tombstones.

  \<^bold>\<open>Automation.\<close> \<open>AutoCaches\<close>, \<open>AutoEngine\<close>: rules, caches, one tick of the evaluation, the writer
  with its retries. \<open>AutoRuns\<close> and \<open>AutoFires\<close>: what any sequence of ticks, pushes and tombstones
  does.

  \<^bold>\<open>Authentication.\<close> \<open>Sessions\<close> and \<open>Tokens\<close>: the two stores; \<open>AuthMiddleware\<close>: soft and hard
  authentication and the role checks as functions on the world of both stores; \<open>AuthProps\<close>: what
  they admit.

  \<^bold>\<open>Alerting.\<close> \<open>Buckets\<close> is the database bucket with rows that may fail to decode and the locale
  \<open>named_rows\<close> of stores with unique names; \<open>AlertStore\<close> instantiates it with the stores of alert
  rules and channels (\<open>storage/alert_rule.go\<close>, \<open>alerting_channel_crud.go\<close>). \<open>Redaction\<close> shows what
  \<open>url_redact.go\<close> leaves of a URL in a stored error. \<open>Alerting\<close> has the validators, the evaluators, the
  cooldown table and the dispatcher of \<open>internal/alerting\<close>; \<open>AlertWatch\<close> the watcher, whose tick is a
  function on stores, cooldown table, history and the list of deliveries. The environment numbers
  every interaction and names the transactions, so that each reading of the clock, delivery and
  transaction may turn out differently. \<open>AlertProps\<close> bounds how often a channel is notified and shows when a failed delivery is
  retried; \<open>AlertLive\<close> shows that a notification that can be delivered is delivered. Numbers of type
  \<open>float64\<close> are rationals, since the code only compares them.

  \<^bold>\<open>Upstream health.\<close> \<open>HealthTracker\<close> is the table of \<open>caddyhc/tracker.go\<close> with the events of Caddy;
  \<open>HealthSync\<close> states what it relies on of Caddy's pools as the locale \<open>host_pool\<close> and shows when table and
  pools agree, address by address, and the two ways in which they part (a check that is switched off
  and on, a route that goes through maintenance). \<open>SharedHealth\<close> has the probes and verdicts of upstreams that several routes share
  (\<open>routehealth/shared.go\<close>, \<open>probe.go\<close>, \<open>evaluator.go\<close>); \<open>RouteNotify\<close>, \<open>RouteNotifyRuns\<close> and
  \<open>RouteNotifyProps\<close> the notifier of route outages with its timers, batches and reminders.

  \<^bold>\<open>Country filter and audit log.\<close> \<open>CountryGate\<close> is the decision of \<open>countryblock/matcher.go\<close> and the
  handler around it. \<open>AuditLog\<close> is \<open>audit/store.go\<close>; it shows that following the cursor visits every
  matching event once.

  \<^bold>\<open>Administration of routes.\<close> \<open>DnsProviders\<close>, \<open>RouteStore\<close> and \<open>RouteRefs\<close> are the stores of
  \<open>internal/storage\<close> behind the route handlers: routes, managed domains with the migration of the
  routes they cover, DNS and forward-auth providers, certificates. \<open>RouteRequests\<close> checks and
  normalises a request body (\<open>api/validation.go\<close>, \<open>routes.go\<close>, \<open>handler.go\<close>, \<open>waf_exclusions.go\<close>,
  \<open>waf_custom_rules.go\<close>); \<open>RouteHandlers\<close> are the handlers as functions on the database, what Caddy was
  last loaded with, and the loads still under way. \<open>RouteHandlerProps\<close> states their contract as the
  locales \<open>row_keeper\<close> and \<open>route_handler\<close>; \<open>RouteRuns\<close> proves it for each handler, \<open>RouteService\<close>
  interprets it and draws the conclusions for every sequence of requests. \<open>RouteImport\<close> is
  \<open>api/caddyfile_import.go\<close>: preview and import of a Caddyfile, whose parser is an argument; it keeps the
  rows valid but not the hostnames apart, so the invariant of the service is stated up to the names
  that imported files bring in. \<open>RouteAudit\<close> is about the
  audit trail and about rollbacks that do not undo, \<open>PathRuleTrip\<close> about path rules that are read and
  sent back and about the identifiers of firewall rules.

  \<^bold>\<open>Parameters and bounds.\<close> Clocks, random numbers, hashes, databases' failures and user lookups
  are arguments. No definition uses fuel: every loop is structural or has a termination proof; the
  retry loop of the writer is bounded by the attempts of the code. Machine integers are words
  where they wrap (FNV hash, AS numbers, address bytes, the counters of the relays) and \<open>int\<close> for Go's
  other 64-bit counters, which the code only increments.

  \<^bold>\<open>Accounts.\<close> \<open>UserStore\<close>: the user bucket and the password policy; \<open>OidcStore\<close>: the
  configuration of single sign-on, the allowlist match and the names of new users;
  \<open>AccountHandlers\<close> and \<open>OidcHandlers\<close>: setup, login, unlock, sessions, users, service accounts and
  the OpenID flow (\<open>internal/api/auth_handlers.go\<close>, \<open>users_admin.go\<close>, \<open>users_create.go\<close>,
  \<open>service_accounts.go\<close>, \<open>oidc.go\<close>) as functions on one account state. \<open>AccountRuns\<close> states what a
  request may do to the user bucket as a step relation and shows that every handler refines it, so
  that soundness of the bucket and the survival of a local administrator hold over every sequence of
  requests. \<open>AccountProps\<close> instantiates the interface of the middlewares on the account state and
  puts handlers and middlewares together (\<open>web_call\<close>): whom a session stands for, what wakes it, what
  ends it.
  \<open>OidcProps\<close> is about who the callback signs in, \<open>ServiceTokens\<close> about the rotation of tokens. The
  argon2id library, the breach service and the identity provider are arguments.

  \<^bold>\<open>TCP and UDP relays.\<close> \<open>TcpStore\<close> is \<open>storage/tcpservice.go\<close>: rows, validation, the bucket.
  \<open>L4Metrics\<close> is \<open>internal/l4metrics\<close>: cells in a heap, since a connection keeps a pointer to a cell the
  registry may drop, and the interleaving of connections with applies; it shows what the gauge of
  open connections means. \<open>TcpRelay\<close> has the \<open>layer4\<close> app and the checks on listening sockets of
  \<open>caddymgr/layer4.go\<close>, the services in an apply and the handlers of \<open>api/tcpservices.go\<close>. \<open>TcpProps\<close>
  keeps the invariant of the bucket through every request and rollback and states what the emitter
  relies on of Caddy's layer-4 engine as the locale \<open>l4_engine\<close>, inside which the gates of a relay
  are shown to decide as configured; it also shows that the rollback of a delete changes the
  identity of the relay. Each operation of the registry is one step.

  \<^bold>\<open>Not modelled.\<close> Logging; the text of HTML pages (an argument); the error routes and the access log
  of the Caddy configuration; the probe of a relay's backends; the decoding of request bodies and the JSON of
  responses; the handlers of metrics and CrowdSec; the senders and sources of alerts;
  the parser of Caddyfiles; backups, whose restore writes the buckets directly, metrics and GeoIP
  databases; SQL. Two requests that interleave between the check for
  unique hostnames and the write are outside the runs of \<open>RouteService\<close>, as the code itself notes.
\<close>

end
